(* ===== verification/Prelude.thy ===== *)
theory Prelude
  imports Complex_Main "HOL-Library.AList"
begin

text \<open>
  Shared vocabulary of the development: JavaScript objects as association lists in insertion
  order (lookup is \<^const>\<open>map_of\<close>, assignment is \<^const>\<open>AList.update\<close>, which overwrites in place
  or appends, as property assignment does), the string operations the SDK uses
  (\<open>startsWith\<close>, \<open>split\<close>, \<open>join\<close>), first-occurrence deduplication (\<open>[...new Set(xs)]\<close>), decimal
  rendering, and the hint collections the component theories fill.
\<close>

named_theorems dict_simps \<open>rewrite rules for objects as association lists\<close>
named_theorems path_simps \<open>rewrite rules for dotted paths\<close>

section \<open>Objects as association lists\<close>

type_synonym 'a dict = "(string \<times> 'a) list"

abbreviation keys :: "'a dict \<Rightarrow> string list" where
  "keys d \<equiv> map fst d"

abbreviation vals :: "'a dict \<Rightarrow> 'a list" where
  "vals d \<equiv> map snd d"

text \<open>Object spread \<open>{...base, ...over}\<close>: the properties of \<open>over\<close> are assigned left to right.\<close>

definition spread :: "'a dict \<Rightarrow> 'a dict \<Rightarrow> 'a dict" where
  "spread base over = fold (\<lambda>(k, v). AList.update k v) over base"

lemma map_of_update [dict_simps]: "map_of (AList.update k v d) = (map_of d)(k \<mapsto> v)"
  by (simp add: update_conv')

lemma keys_update_mem [dict_simps]:
  "set (keys (AList.update k v d)) = insert k (set (keys d))"
  using dom_update [of k v d] by auto

lemma keys_update_old:
  "k \<in> set (keys d) \<Longrightarrow> keys (AList.update k v d) = keys d"
  by (induction d) auto

lemma distinct_keys_update [intro]:
  "distinct (keys d) \<Longrightarrow> distinct (keys (AList.update k v d))"
  by (rule distinct_update)

lemma update_single [simp]: "AList.update k v [(k, w)] = [(k, v)]"
  by simp

lemma set_update_subset: "set (AList.update k v d) \<subseteq> insert (k, v) (set d)"
  by (induction d) auto

lemma map_of_size:
  "map_of d k = Some v \<Longrightarrow> f v \<le> size_list (size_prod g f) d"
  by (induction d) (auto split: if_splits)

section \<open>Optional values and defaults\<close>

text \<open>The nullish operator \<open>a ?? b\<close>.\<close>

definition or_else :: "'a option \<Rightarrow> 'a \<Rightarrow> 'a" where
  "or_else x d = (case x of Some v \<Rightarrow> v | None \<Rightarrow> d)"

lemma or_else_simps [simp]: "or_else (Some v) d = v" "or_else None d = d"
  by (simp_all add: or_else_def)

definition or_elseo :: "'a option \<Rightarrow> 'a option \<Rightarrow> 'a option" where
  "or_elseo x y = (case x of Some v \<Rightarrow> Some v | None \<Rightarrow> y)"

lemma or_elseo_simps [simp]: "or_elseo (Some v) y = Some v" "or_elseo None y = y"
  by (simp_all add: or_elseo_def)

text \<open>A string in a condition: absent and empty strings are falsy.\<close>

definition truthy :: "string option \<Rightarrow> string option" where
  "truthy x = (case x of Some s \<Rightarrow> if s = [] then None else Some s | None \<Rightarrow> None)"

lemma truthy_Some [simp]: "truthy x = Some s \<longleftrightarrow> x = Some s \<and> s \<noteq> []"
  by (auto simp: truthy_def split: option.splits if_splits)

lemma truthy_None: "truthy x = None \<longleftrightarrow> x = None \<or> x = Some []"
  by (auto simp: truthy_def split: option.splits if_splits)

section \<open>Lists\<close>

text \<open>Adding to a \<open>Set\<close> (insertion order, no duplicates) and \<open>[...new Set(xs)]\<close>.\<close>

definition set_add :: "'a \<Rightarrow> 'a list \<Rightarrow> 'a list" where
  "set_add x xs = (if x \<in> set xs then xs else xs @ [x])"

definition dedup :: "'a list \<Rightarrow> 'a list" where
  "dedup xs = fold set_add xs []"

lemma set_set_add [simp]: "set (set_add x xs) = insert x (set xs)"
  by (auto simp: set_add_def)

lemma distinct_set_add [simp]: "distinct xs \<Longrightarrow> distinct (set_add x xs)"
  by (auto simp: set_add_def)

lemma set_fold_set_add [simp]: "set (fold set_add xs acc) = set acc \<union> set xs"
  by (induction xs arbitrary: acc) auto

lemma distinct_fold_set_add: "distinct acc \<Longrightarrow> distinct (fold set_add xs acc)"
  by (induction xs arbitrary: acc) auto

lemma set_dedup [simp]: "set (dedup xs) = set xs"
  by (simp add: dedup_def)

lemma distinct_dedup [simp]: "distinct (dedup xs)"
  by (simp add: dedup_def distinct_fold_set_add)

lemma fold_set_add_distinct:
  "distinct (acc @ xs) \<Longrightarrow> fold set_add xs acc = acc @ xs"
  by (induction xs arbitrary: acc) (auto simp: set_add_def)

section \<open>Strings\<close>

definition starts_with :: "string \<Rightarrow> string \<Rightarrow> bool" where
  "starts_with s p \<longleftrightarrow> take (length p) s = p"

lemma starts_with_append [simp]: "starts_with (p @ s) p"
  by (simp add: starts_with_def)

lemma starts_with_iff: "starts_with s p \<longleftrightarrow> (\<exists>r. s = p @ r)"
  by (metis append_take_drop_id starts_with_append starts_with_def)

text \<open>\<open>s.split(c)\<close> for a one-character separator, and \<open>xs.join(sep)\<close>.\<close>

fun split_on :: "char \<Rightarrow> string \<Rightarrow> string list" where
  "split_on c [] = [[]]"
| "split_on c (x # xs) =
     (if x = c then [] # split_on c xs
      else (case split_on c xs of [] \<Rightarrow> [[x]] | y # ys \<Rightarrow> (x # y) # ys))"

fun join :: "string \<Rightarrow> string list \<Rightarrow> string" where
  "join sep [] = []"
| "join sep [x] = x"
| "join sep (x # y # ys) = x @ sep @ join sep (y # ys)"

abbreviation dot :: string where
  "dot \<equiv> ''.''"

text \<open>\<open>path.split(".")\<close>, with and without \<open>.filter(Boolean)\<close>.\<close>

abbreviation split_dot :: "string \<Rightarrow> string list" where
  "split_dot s \<equiv> split_on (CHR ''.'') s"

definition path_parts :: "string \<Rightarrow> string list" where
  "path_parts s = filter (\<lambda>p. p \<noteq> []) (split_dot s)"

definition join_dot :: "string list \<Rightarrow> string" where
  "join_dot ps = join dot ps"

text \<open>A key that can be a path segment: not empty and without a dot.\<close>

definition wf_key :: "string \<Rightarrow> bool" where
  "wf_key k \<longleftrightarrow> k \<noteq> [] \<and> CHR ''.'' \<notin> set k"

lemma split_on_nonempty [simp]: "split_on c s \<noteq> []"
  by (cases s) (auto split: list.splits)

lemma split_on_plain: "c \<notin> set s \<Longrightarrow> split_on c s = [s]"
  by (induction s) auto

lemma split_on_append:
  "c \<notin> set s \<Longrightarrow> split_on c (s @ c # r) = s # split_on c r"
  by (induction s) auto

lemma split_join:
  "\<forall>k \<in> set ks. CHR ''.'' \<notin> set k \<Longrightarrow> ks \<noteq> [] \<Longrightarrow> split_dot (join dot ks) = ks"
proof (induction ks)
  case (Cons k ks)
  then show ?case by (cases ks) (auto simp: split_on_plain split_on_append)
qed simp

lemma split_dot_join_dot:
  "\<forall>k \<in> set ks. wf_key k \<Longrightarrow> ks \<noteq> [] \<Longrightarrow> split_dot (join_dot ks) = ks"
  by (simp add: join_dot_def wf_key_def split_join)

lemma path_parts_join_dot [path_simps]:
  "\<forall>k \<in> set ks. wf_key k \<Longrightarrow> path_parts (join_dot ks) = ks"
proof (cases ks)
  case Nil
  then show ?thesis by (simp add: path_parts_def join_dot_def)
next
  case (Cons k ks')
  assume wf: "\<forall>k \<in> set ks. wf_key k"
  then have "split_dot (join_dot ks) = ks"
    using Cons by (intro split_dot_join_dot) auto
  moreover have "filter (\<lambda>p. p \<noteq> []) ks = ks"
    using wf by (auto simp: wf_key_def filter_id_conv)
  ultimately show ?thesis by (simp add: path_parts_def)
qed

lemma join_dot_Nil [simp]: "join_dot [] = []"
  by (simp add: join_dot_def)

lemma join_dot_single [simp]: "join_dot [k] = k"
  by (simp add: join_dot_def)

lemma join_dot_snoc [path_simps]:
  "ks \<noteq> [] \<Longrightarrow> join_dot (ks @ [k]) = join_dot ks @ dot @ k"
  unfolding join_dot_def
proof (induction ks)
  case (Cons a ks)
  then show ?case by (cases ks) auto
qed simp

lemma join_dot_append [path_simps]:
  "ks \<noteq> [] \<Longrightarrow> ls \<noteq> [] \<Longrightarrow> join_dot (ks @ ls) = join_dot ks @ dot @ join_dot ls"
  unfolding join_dot_def
proof (induction ks)
  case (Cons a ks)
  then show ?case by (cases ks; cases ls) auto
qed simp

lemma join_dot_inj:
  assumes "\<forall>k \<in> set ks. wf_key k" "\<forall>k \<in> set ls. wf_key k" "join_dot ks = join_dot ls"
  shows "ks = ls"
  using assms path_parts_join_dot by metis

lemma join_dot_eq_Nil: "\<forall>k \<in> set ks. wf_key k \<Longrightarrow> join_dot ks = [] \<longleftrightarrow> ks = []"
  using join_dot_inj [of ks "[]"] by auto

text \<open>Decimal rendering of integers, as in a template literal.\<close>

fun show_nat :: "nat \<Rightarrow> string" where
  "show_nat n =
     (if n < 10 then [char_of (48 + n)] else show_nat (n div 10) @ [char_of (48 + n mod 10)])"

declare show_nat.simps [simp del]

definition show_int :: "int \<Rightarrow> string" where
  "show_int i = (if i < 0 then ''-'' @ show_nat (nat (- i)) else show_nat (nat i))"

text \<open>
  \<open>String(x)\<close> of a number: an integer in decimal, otherwise the decimal expansion up to 17 digits,
  which is exact for the decimal literals a definition contains.
\<close>

fun fraction_digits :: "nat \<Rightarrow> rat \<Rightarrow> string" where
  "fraction_digits 0 r = []"
| "fraction_digits (Suc n) r =
     (if r = 0 then []
      else show_nat (nat \<lfloor>10 * r\<rfloor>) @ fraction_digits n (10 * r - of_int \<lfloor>10 * r\<rfloor>))"

definition is_integer :: "rat \<Rightarrow> bool" where
  "is_integer r \<longleftrightarrow> r = of_int \<lfloor>r\<rfloor>"

definition show_num :: "rat \<Rightarrow> string" where
  "show_num r =
     (if is_integer r then show_int \<lfloor>r\<rfloor>
      else (if r < 0 then ''-'' else []) @ show_int \<lfloor>\<bar>r\<bar>\<rfloor> @ dot @
        fraction_digits 17 (\<bar>r\<bar> - of_int \<lfloor>\<bar>r\<bar>\<rfloor>))"

end
