(* ===== verification/Types.thy ===== *)
theory Types
  imports Prelude
begin

text \<open>
  The data of \<^verbatim>\<open>types.ts\<close> and \<^verbatim>\<open>errors.ts\<close>: dynamic values, state values, transaction
  statuses, the four policy groups in their partial and normalized forms, the requests and
  outputs exchanged with user handlers, the persisted records, and the SDK's error classes with
  their message texts. Optional properties are options; \<open>T | null\<close> is an option too. Millisecond
  amounts that policies may give as fractions and the back-off multiplier are exact rationals;
  counters, versions and time stamps are integers.
\<close>

section \<open>Dynamic values\<close>

datatype jval =
    JNull
  | JBool bool
  | JNum rat
  | JStr string
  | JArr "jval list"
  | JObj "(string \<times> jval) list"

datatype state_value = SLeaf string | SMap "(string \<times> state_value) list"

section \<open>Transaction status\<close>

datatype tx_status = IDLE | IN_FLIGHT | COMPLETED | COMPENSATING | COMPENSATED | FAILED

definition NON_TERMINAL_STATUSES :: "tx_status list" where
  "NON_TERMINAL_STATUSES = [IDLE, IN_FLIGHT, COMPENSATING]"

definition TERMINAL_STATUSES :: "tx_status list" where
  "TERMINAL_STATUSES = [COMPLETED, COMPENSATED, FAILED]"

definition isTerminalStatus :: "tx_status \<Rightarrow> bool" where
  "isTerminalStatus s \<longleftrightarrow> s = COMPLETED \<or> s = COMPENSATED \<or> s = FAILED"

lemma terminal_partition:
  "isTerminalStatus s \<longleftrightarrow> s \<in> set TERMINAL_STATUSES"
  "\<not> isTerminalStatus s \<longleftrightarrow> s \<in> set NON_TERMINAL_STATUSES"
  by (cases s; simp add: isTerminalStatus_def TERMINAL_STATUSES_def NON_TERMINAL_STATUSES_def)+

section \<open>Errors\<close>

datatype validation_target = InitialContext | Input | Context

text \<open>
  The error classes of \<^verbatim>\<open>errors.ts\<close> with their constructor arguments, \<open>JsError\<close> for any other
  instance of \<open>Error\<close> (its message), and \<open>ThrownValue\<close> for a thrown value that is no \<open>Error\<close>: whether
  it is an object, and its \<open>String(err)\<close> rendering.
\<close>

datatype js_error =
    MachineValidationError string "string list"
  | UnregisteredHandlerError string "string list"
  | ValidationError validation_target string "string list"
  | InvalidTransitionError string string state_value "string list"
  | TransactionNotFoundError string
  | StaleTransactionVersionError string int
  | CircuitOpenError string rat
  | ActorStoppedByRecoveryError string "string list"
  | DfsmError string string
  | JsError string
  | ThrownValue bool string

definition is_error_instance :: "js_error \<Rightarrow> bool" where
  "is_error_instance e = (case e of ThrownValue _ _ \<Rightarrow> False | _ \<Rightarrow> True)"

definition is_object_error :: "js_error \<Rightarrow> bool" where
  "is_object_error e = (case e of ThrownValue obj _ \<Rightarrow> obj | _ \<Rightarrow> True)"

definition is_validation_error :: "js_error \<Rightarrow> bool" where
  "is_validation_error e = (case e of ValidationError _ _ _ \<Rightarrow> True | _ \<Rightarrow> False)"

definition is_circuit_open_error :: "js_error \<Rightarrow> bool" where
  "is_circuit_open_error e = (case e of CircuitOpenError _ _ \<Rightarrow> True | _ \<Rightarrow> False)"

text \<open>\<open>JSON.stringify\<close> of a state value.\<close>

definition json_escape :: "char \<Rightarrow> string" where
  "json_escape c =
     (if c = CHR 0x22 then [CHR 0x5C, CHR 0x22]
      else if c = CHR 0x5C then [CHR 0x5C, CHR 0x5C]
      else if c = CHR 0x08 then [CHR 0x5C, CHR ''b'']
      else if c = CHR 0x09 then [CHR 0x5C, CHR ''t'']
      else if c = CHR 0x0A then [CHR 0x5C, CHR ''n'']
      else if c = CHR 0x0C then [CHR 0x5C, CHR ''f'']
      else if c = CHR 0x0D then [CHR 0x5C, CHR ''r'']
      else [c])"

definition json_string :: "string \<Rightarrow> string" where
  "json_string s = [CHR 0x22] @ concat (map json_escape s) @ [CHR 0x22]"

fun json_state :: "state_value \<Rightarrow> string" where
  "json_state (SLeaf s) = json_string s"
| "json_state (SMap kvs) =
     ''{'' @ join '','' (map (\<lambda>(k, v). json_string k @ '':'' @ json_state v) kvs) @ ''}''"

definition quoted :: "string \<Rightarrow> string" where
  "quoted s = [CHR 0x27] @ s @ [CHR 0x27]"

definition target_name :: "validation_target \<Rightarrow> string" where
  "target_name t = (case t of InitialContext \<Rightarrow> ''initialContext'' | Input \<Rightarrow> ''input'' | Context \<Rightarrow> ''context'')"

text \<open>\<open>err.message\<close>.\<close>

fun error_message :: "js_error \<Rightarrow> string" where
  "error_message (MachineValidationError m _) = m"
| "error_message (UnregisteredHandlerError mid hs) =
     ''Machine '' @ quoted mid @ '' references unregistered handler(s) in FSMRegistry: '' @ join '', '' hs"
| "error_message (ValidationError _ m _) = m"
| "error_message (InvalidTransitionError mid ev cur _) =
     ''Event '' @ quoted ev @ '' is not handled in current state '' @ json_state cur @
     '' of machine '' @ quoted mid"
| "error_message (TransactionNotFoundError tx) =
     ''Transaction '' @ quoted tx @ '' does not exist in StateStore''"
| "error_message (StaleTransactionVersionError tx v) =
     ''Optimistic concurrency conflict on transaction '' @ quoted tx @ '' (expected version '' @
     show_int v @ ''). It may have been updated concurrently or force-cleaned.''"
| "error_message (CircuitOpenError k r) =
     ''Circuit breaker '' @ quoted k @ '' is OPEN ('' @ show_int (max 0 \<lceil>r\<rceil>) @ ''ms remaining)''"
| "error_message (ActorStoppedByRecoveryError a txs) =
     ''Actor '' @ quoted a @
     '' halted startup due to STOP recovery policy on stuck in-flight transaction(s): '' @
     join '', '' txs"
| "error_message (DfsmError _ m) = m"
| "error_message (JsError m) = m"
| "error_message (ThrownValue _ s) = s"

text \<open>\<open>err.code\<close> of the SDK's own classes.\<close>

fun error_code :: "js_error \<Rightarrow> string option" where
  "error_code (MachineValidationError _ _) = Some ''DFSM_MACHINE_VALIDATION_ERROR''"
| "error_code (UnregisteredHandlerError _ _) = Some ''DFSM_UNREGISTERED_HANDLER''"
| "error_code (ValidationError _ _ _) = Some ''DFSM_VALIDATION_ERROR''"
| "error_code (InvalidTransitionError _ _ _ _) = Some ''DFSM_INVALID_TRANSITION''"
| "error_code (TransactionNotFoundError _) = Some ''DFSM_TRANSACTION_NOT_FOUND''"
| "error_code (StaleTransactionVersionError _ _) = Some ''DFSM_STALE_TRANSACTION_VERSION''"
| "error_code (CircuitOpenError _ _) = Some ''DFSM_CIRCUIT_OPEN''"
| "error_code (ActorStoppedByRecoveryError _ _) = Some ''DFSM_ACTOR_STOPPED_BY_RECOVERY''"
| "error_code (DfsmError c _) = Some c"
| "error_code (JsError _) = None"
| "error_code (ThrownValue _ _) = None"

section \<open>Policies\<close>

datatype backoff_strategy = Fixed | Linear | Exponential | ExponentialJitter

record partial_backoff =
  pb_strategy :: "backoff_strategy option"
  pb_initialDelayMs :: "rat option"
  pb_maxDelayMs :: "rat option"
  pb_multiplier :: "rat option"

record norm_backoff =
  nb_strategy :: backoff_strategy
  nb_initialDelayMs :: rat
  nb_maxDelayMs :: rat
  nb_multiplier :: rat

record partial_retry =
  pr_maxAttempts :: "int option"
  pr_backoff :: "partial_backoff option"
  pr_retryIf :: "(js_error \<Rightarrow> bool) option"

record norm_retry =
  nr_maxAttempts :: int
  nr_backoff :: norm_backoff
  nr_retryIf :: "(js_error \<Rightarrow> bool) option"

record partial_breaker =
  pc_enabled :: "bool option"
  pc_key :: "string option"
  pc_failureThreshold :: "int option"
  pc_slidingWindowSize :: "int option"
  pc_openDurationMs :: "int option"
  pc_halfOpenMaxCalls :: "int option"

record norm_breaker =
  nc_enabled :: bool
  nc_key :: string
  nc_failureThreshold :: int
  nc_slidingWindowSize :: int
  nc_openDurationMs :: int
  nc_halfOpenMaxCalls :: int

record partial_onfail =
  po_compensate :: "bool option"
  po_target :: "string option"

record norm_onfail =
  no_compensate :: bool
  no_target :: string

record partial_benchmark =
  pm_enabled :: "bool option"

record norm_benchmark =
  nm_enabled :: bool

record partial_policy =
  pp_retry :: "partial_retry option"
  pp_circuitBreaker :: "partial_breaker option"
  pp_onFail :: "partial_onfail option"
  pp_benchmark :: "partial_benchmark option"
  pp_compensateHandler :: "string option"

record norm_policy =
  np_retry :: norm_retry
  np_circuitBreaker :: norm_breaker
  np_onFail :: norm_onfail
  np_benchmark :: norm_benchmark
  np_compensateHandler :: "string option"

definition empty_policy :: partial_policy where
  "empty_policy = \<lparr>pp_retry = None, pp_circuitBreaker = None, pp_onFail = None,
     pp_benchmark = None, pp_compensateHandler = None\<rparr>"

section \<open>Requests and outputs of user handlers\<close>

record tx_context =
  tc_transactionId :: string
  tc_machineId :: string
  tc_actorId :: string
  tc_event :: string
  tc_attempt :: int
  tc_startedAt :: int
  tc_data :: jval
  tc_metadata :: "jval dict"

datatype effect_item = EffectName string | EffectInvocation string "jval option"

record transition_output =
  to_value :: "jval option"
  to_context :: "jval option"
  to_targetState :: "string option"
  to_effects :: "effect_item list option"

definition empty_output :: transition_output where
  "empty_output = \<lparr>to_value = None, to_context = None, to_targetState = None, to_effects = None\<rparr>"

record transition_request =
  tr_currentState :: state_value
  tr_input :: "jval option"
  tr_context :: tx_context

record compensation_request =
  cr_transactionId :: string
  cr_machineId :: string
  cr_actorId :: string
  cr_stepSeq :: int
  cr_fromState :: state_value
  cr_inputSnapshot :: "jval option"
  cr_contextBefore :: jval
  cr_currentContext :: jval
  cr_failureError :: "string option"

record execution_result =
  xr_transactionId :: string
  xr_previousState :: state_value
  xr_currentState :: state_value
  xr_status :: tx_status
  xr_value :: "jval option"
  xr_context :: jval
  xr_compensatedSteps :: nat
  xr_error :: "string option"

section \<open>Persisted records\<close>

record comp_new =
  cn_transitionKey :: string
  cn_compensateKey :: string
  cn_fromState :: state_value
  cn_inputSnapshot :: "jval option"
  cn_contextBefore :: jval
  cn_createdAt :: int
  cn_compensatedAt :: "int option"

text \<open>The optional row id of an entry is a number or a string.\<close>

datatype row_id = RowNumber int | RowText string

record comp_entry =
  ce_id :: "row_id option"
  ce_transactionId :: string
  ce_stepSeq :: int
  ce_transitionKey :: string
  ce_compensateKey :: string
  ce_fromState :: state_value
  ce_inputSnapshot :: jval
  ce_contextBefore :: jval
  ce_createdAt :: int
  ce_compensatedAt :: "int option"

record active_step =
  as_event :: string
  as_input :: "jval option"
  as_startedAt :: int

record tx_record =
  tx_transactionId :: string
  tx_machineId :: string
  tx_machineVersion :: string
  tx_actorId :: string
  tx_stateValue :: state_value
  tx_context :: jval
  tx_status :: tx_status
  tx_activeStep :: "active_step option"
  tx_lastError :: "string option"
  tx_version :: int
  tx_leaseOwner :: "string option"
  tx_leaseExpiresAt :: "int option"
  tx_createdAt :: int
  tx_updatedAt :: int

record tx_snapshot = tx_record +
  ts_compensationStack :: "comp_entry list"

record tx_summary =
  su_transactionId :: string
  su_machineId :: string
  su_actorId :: string
  su_stateValue :: state_value
  su_status :: tx_status
  su_context :: jval
  su_isStuck :: bool
  su_activeStep :: "active_step option"
  su_compensationDepth :: nat
  su_version :: int
  su_createdAt :: int
  su_updatedAt :: int

section \<open>Recovery, scheduler and clean-up configuration\<close>

datatype on_restart_mode = STOP | MARK_FAIL | DELETE | COMPENSATE | CONTINUE

record recovery_config =
  rc_enabled :: bool
  rc_stuckThresholdMs :: int
  rc_defaultAction :: on_restart_mode
  rc_stateActions :: "on_restart_mode dict"
  rc_haltActorOnStop :: bool

record scheduler_config =
  sc_enabled :: bool
  sc_sweepIntervalMs :: int
  sc_stuckThresholdMs :: int
  sc_retentionMs :: "int option"
  sc_batchSize :: int

record recovery_report =
  rr_sweptAt :: int
  rr_scannedInFlight :: nat
  rr_stuckDetected :: nat
  rr_actionsTaken :: "on_restart_mode \<Rightarrow> string list"
  rr_retentionDeleted :: nat
  rr_errors :: "(string \<times> string) list"

datatype cleanup_action = CDelete | CMarkFail | CCompensate | CForceUnlock

record cleanup_options =
  co_machineId :: "string option"
  co_actorId :: "string option"
  co_transactionIds :: "string list option"
  co_statuses :: "tx_status list option"
  co_includeInFlight :: "bool option"
  co_stuckOnly :: "bool option"
  co_stuckThresholdMs :: "int option"
  co_olderThanMs :: "int option"
  co_action :: "cleanup_action option"
  co_dryRun :: "bool option"

record cleanup_report =
  cl_scanned :: nat
  cl_matched :: nat
  cl_deleted :: "string list"
  cl_markedFailed :: "string list"
  cl_compensated :: "string list"
  cl_unlocked :: "string list"
  cl_dryRun :: bool
  cl_errors :: "(string \<times> string) list"

end
