(* ===== verification/IR.thy ===== *)
theory IR
  imports Types
begin

text \<open>
  The intermediate representation of \<^verbatim>\<open>definition/ir.ts\<close>: transition edges, the tree of state nodes,
  machine definitions, handler qualification, target resolution, and
  \<open>finalizeAndValidateMachineIR\<close>, which injects the implicit \<open>error\<close> state and collects every issue
  before it throws. The lemmas give the path discipline of a machine's tree, the soundness of target
  resolution, and what a machine that passed validation satisfies.
\<close>

section \<open>Edges, nodes and machines\<close>

datatype node_type = Atomic | Compound | Parallel | Final

record transition_edge =
  te_event :: string
  te_target :: "string option"
  te_transition :: "string option"
  te_compensate :: "string option"
  te_effects :: "string list"
  te_description :: "string option"
  te_policy :: partial_policy

datatype state_node =
  StateNode
    (sn_key: string)
    (sn_path: string)
    (sn_type: node_type)
    (sn_description: "string option")
    (sn_initial: "string option")
    (sn_entry: "string list")
    (sn_exit: "string list")
    (sn_on: "(string \<times> transition_edge) list")
    (sn_onDone: "transition_edge option")
    (sn_states: "(string \<times> state_node) list")
    (sn_isImplicitError: bool)

record registry_binding =
  rb_namespace :: "string option"
  rb_strict :: bool

datatype hook_slot = OnStart | BeforeTransition | AfterTransition | OnCompensate | OnComplete | OnTerminal

type_synonym machine_hooks = "hook_slot \<Rightarrow> string list"

definition createEmptyMachineHooksIR :: machine_hooks where
  "createEmptyMachineHooksIR = (\<lambda>_. [])"

datatype definition_source = SourceYaml | SourceBuilder

datatype root_type = RootCompound | RootParallel

record raw_machine =
  rm_id :: string
  rm_version :: string
  rm_description :: "string option"
  rm_source :: definition_source
  rm_type :: root_type
  rm_initial :: "string option"
  rm_registry :: registry_binding
  rm_defaults :: partial_policy
  rm_hooks :: "(hook_slot \<Rightarrow> string list option) option"
  rm_effects :: "string list option"
  rm_maxEffectChainDepth :: "rat option"
  rm_states :: "state_node dict"

record machine =
  md_id :: string
  md_version :: string
  md_description :: "string option"
  md_source :: definition_source
  md_type :: root_type
  md_initial :: "string option"
  md_registry :: registry_binding
  md_defaults :: partial_policy
  md_hooks :: machine_hooks
  md_effects :: "string list"
  md_maxEffectChainDepth :: "rat option"
  md_states :: "state_node dict"
  md_hasCustomErrorState :: bool

section \<open>Handler names and target resolution\<close>

definition qualifyHandlerName :: "string \<Rightarrow> string option \<Rightarrow> string" where
  "qualifyHandlerName handlerName namespace =
     (case truthy namespace of
        None \<Rightarrow> handlerName
      | Some ns \<Rightarrow>
          if starts_with handlerName (ns @ dot) then handlerName else ns @ dot @ handlerName)"

text \<open>The walk along path segments that \<open>lookupByDotPath\<close> and \<open>getNodeByPath\<close> share.\<close>

fun walk_parts :: "state_node dict \<Rightarrow> state_node option \<Rightarrow> string list \<Rightarrow> state_node option" where
  "walk_parts m current [] = current"
| "walk_parts m current (part # parts) =
     (case map_of m part of
        None \<Rightarrow> None
      | Some n \<Rightarrow> walk_parts (sn_states n) (Some n) parts)"

definition lookupByDotPath :: "state_node dict \<Rightarrow> string \<Rightarrow> state_node option" where
  "lookupByDotPath states dotPath = walk_parts states None (path_parts dotPath)"

definition resolveTargetStatePath ::
  "string \<Rightarrow> state_node dict \<Rightarrow> string \<Rightarrow> string \<Rightarrow> string option" where
  "resolveTargetStatePath mid states sourceStatePath targetRef =
     (if starts_with targetRef ''#'' then
        (let stripped = drop 1 targetRef in
         if starts_with stripped (mid @ dot)
         then map_option sn_path (lookupByDotPath states (drop (length mid + 1) stripped))
         else map_option sn_path (lookupByDotPath states stripped))
      else
        (let sourceSegments = (if sourceStatePath \<noteq> [] then split_dot sourceStatePath else []);
             parentSegments = butlast sourceSegments;
             foundSibling = (if parentSegments \<noteq> []
                             then lookupByDotPath states (join_dot (parentSegments @ [targetRef]))
                             else None)
         in case foundSibling of
              Some n \<Rightarrow> Some (sn_path n)
            | None \<Rightarrow> map_option sn_path (lookupByDotPath states targetRef)))"

section \<open>Validation\<close>

datatype ir_issue =
    InvalidMachineId string
  | InvalidEffectChainDepth rat string
  | NoStates string
  | RootNeedsInitial string
  | RootInitialMissing string string
  | RootParallelInitial string
  | UnresolvableTarget string string string
  | UnresolvableOnFailTarget string string string
  | UnresolvableDefaultTarget string string
  | CompoundNoStates string
  | CompoundNoInitial string
  | CompoundInitialMissing string string "string list"
  | ParallelNoRegions string
  | ParallelInitial string
  | AtomicHasStates string
  | AtomicInitial string
  | FinalHasStates string
  | FinalInitial string
  | FinalHasOn string

definition or_root :: "string \<Rightarrow> string" where
  "or_root p = (if p = [] then ''<root>'' else p)"

fun issue_text :: "ir_issue \<Rightarrow> string" where
  "issue_text (InvalidMachineId i) =
     ''Invalid machine id '' @ quoted i @ ''. Must match /^[a-zA-Z0-9_-]+$/.''"
| "issue_text (InvalidEffectChainDepth d i) =
     ''Invalid maxEffectChainDepth '' @ quoted (show_num d) @ '' in machine '' @ quoted i @
     ''. Must be an integer >= 1.''"
| "issue_text (NoStates i) = ''Machine '' @ quoted i @ '' must define at least one state.''"
| "issue_text (RootNeedsInitial i) =
     ''Root compound machine '' @ quoted i @ '' requires an '' @ quoted ''initial'' @ '' state.''"
| "issue_text (RootInitialMissing k i) =
     ''Root '' @ quoted ''initial'' @ '' state '' @ quoted k @ '' does not exist in machine '' @
     quoted i @ '' states.''"
| "issue_text (RootParallelInitial i) =
     ''Root parallel machine '' @ quoted i @ '' must not specify '' @ quoted ''initial'' @ ''.''"
| "issue_text (UnresolvableTarget t l s) =
     ''Unresolvable target '' @ quoted t @ '' on '' @ l @ '' in state '' @ quoted (or_root s) @ ''.''"
| "issue_text (UnresolvableOnFailTarget t l s) =
     ''Unresolvable onFail.target '' @ quoted t @ '' on '' @ l @ '' in state '' @
     quoted (or_root s) @ ''.''"
| "issue_text (UnresolvableDefaultTarget t i) =
     ''Unresolvable defaults.onFail.target '' @ quoted t @ '' in machine '' @ quoted i @ ''.''"
| "issue_text (CompoundNoStates p) =
     ''Compound state '' @ quoted p @ '' must define child '' @ quoted ''states'' @ ''.''"
| "issue_text (CompoundNoInitial p) =
     ''Compound state '' @ quoted p @ '' requires an '' @ quoted ''initial'' @ '' child state.''"
| "issue_text (CompoundInitialMissing p k ks) =
     ''Compound state '' @ quoted p @ '' initial '' @ quoted k @
     '' does not exist among its child states ('' @ join '', '' ks @ '').''"
| "issue_text (ParallelNoRegions p) =
     ''Parallel state '' @ quoted p @ '' must define child region '' @ quoted ''states'' @ ''.''"
| "issue_text (ParallelInitial p) =
     ''Parallel state '' @ quoted p @ '' must not define '' @ quoted ''initial'' @ ''.''"
| "issue_text (AtomicHasStates p) =
     ''Atomic state '' @ quoted p @ '' cannot contain child '' @ quoted ''states'' @ ''.''"
| "issue_text (AtomicInitial p) =
     ''Atomic state '' @ quoted p @ '' cannot define '' @ quoted ''initial'' @ ''.''"
| "issue_text (FinalHasStates p) =
     ''Final state '' @ quoted p @ '' cannot contain child '' @ quoted ''states'' @ ''.''"
| "issue_text (FinalInitial p) =
     ''Final state '' @ quoted p @ '' cannot define '' @ quoted ''initial'' @ ''.''"
| "issue_text (FinalHasOn p) =
     ''Final state '' @ quoted p @ '' cannot define outgoing '' @ quoted ''on'' @ '' transitions.''"

definition id_char :: "char \<Rightarrow> bool" where
  "id_char c \<longleftrightarrow>
     (let n = of_char c :: nat in
      97 \<le> n \<and> n \<le> 122 \<or> 65 \<le> n \<and> n \<le> 90 \<or> 48 \<le> n \<and> n \<le> 57 \<or> n = 95 \<or> n = 45)"

definition valid_machine_id :: "string \<Rightarrow> bool" where
  "valid_machine_id i \<longleftrightarrow> i \<noteq> [] \<and> list_all id_char i"

definition implicit_error_node :: state_node where
  "implicit_error_node =
     StateNode ''error'' ''error'' Final None None [] [] [] None [] True"

abbreviation onFail_target :: "partial_policy \<Rightarrow> string option" where
  "onFail_target p \<equiv> truthy (Option.bind (pp_onFail p) po_target)"

definition validateEdge ::
  "string \<Rightarrow> state_node dict \<Rightarrow> string \<Rightarrow> string \<Rightarrow> transition_edge \<Rightarrow> ir_issue list" where
  "validateEdge mid states sourcePath label edge =
     (case truthy (te_target edge) of
        None \<Rightarrow> []
      | Some t \<Rightarrow>
          if resolveTargetStatePath mid states sourcePath t = None
          then [UnresolvableTarget t label sourcePath] else []) @
     (case onFail_target (te_policy edge) of
        None \<Rightarrow> []
      | Some t \<Rightarrow>
          if resolveTargetStatePath mid states sourcePath t = None
          then [UnresolvableOnFailTarget t label sourcePath] else [])"

definition validateNodeShape ::
  "string \<Rightarrow> node_type \<Rightarrow> string option \<Rightarrow> string list \<Rightarrow> string list \<Rightarrow> ir_issue list" where
  "validateNodeShape path ty init childKeys onKeys =
     (case ty of
        Compound \<Rightarrow>
          (if childKeys = [] then [CompoundNoStates path] else []) @
          (case truthy init of
             None \<Rightarrow> [CompoundNoInitial path]
           | Some k \<Rightarrow> if k \<in> set childKeys then [] else [CompoundInitialMissing path k childKeys])
      | Parallel \<Rightarrow>
          (if childKeys = [] then [ParallelNoRegions path] else []) @
          (if truthy init \<noteq> None then [ParallelInitial path] else [])
      | Atomic \<Rightarrow>
          (if childKeys \<noteq> [] then [AtomicHasStates path] else []) @
          (if truthy init \<noteq> None then [AtomicInitial path] else [])
      | Final \<Rightarrow>
          (if childKeys \<noteq> [] then [FinalHasStates path] else []) @
          (if truthy init \<noteq> None then [FinalInitial path] else []) @
          (if onKeys \<noteq> [] then [FinalHasOn path] else []))"

fun validateNode :: "string \<Rightarrow> state_node dict \<Rightarrow> state_node \<Rightarrow> ir_issue list" where
  "validateNode mid states (StateNode k path ty desc init en ex on od sts imp) =
     validateNodeShape path ty init (keys sts) (keys on) @
     concat (map (\<lambda>(event, edge). validateEdge mid states path (''event '' @ quoted event) edge) on) @
     (case od of None \<Rightarrow> [] | Some edge \<Rightarrow> validateEdge mid states path (quoted ''onDone'') edge) @
     concat (map (\<lambda>(k, child). validateNode mid states child) sts)"

definition with_error_state :: "state_node dict \<Rightarrow> state_node dict" where
  "with_error_state states =
     (if ''error'' \<in> set (keys states) then states else states @ [(''error'', implicit_error_node)])"

definition to_machine :: "raw_machine \<Rightarrow> machine" where
  "to_machine raw = \<lparr>
     md_id = rm_id raw, md_version = rm_version raw, md_description = rm_description raw,
     md_source = rm_source raw, md_type = rm_type raw, md_initial = rm_initial raw,
     md_registry = rm_registry raw, md_defaults = rm_defaults raw,
     md_hooks = (\<lambda>slot. or_else (Option.bind (rm_hooks raw) (\<lambda>h. h slot)) []),
     md_effects = or_else (rm_effects raw) [],
     md_maxEffectChainDepth = rm_maxEffectChainDepth raw,
     md_states = with_error_state (rm_states raw),
     md_hasCustomErrorState = (''error'' \<in> set (keys (rm_states raw)))\<rparr>"

definition root_issues :: "raw_machine \<Rightarrow> machine \<Rightarrow> ir_issue list" where
  "root_issues raw machine =
     (if valid_machine_id (rm_id raw) then [] else [InvalidMachineId (rm_id raw)]) @
     (case rm_maxEffectChainDepth raw of
        None \<Rightarrow> []
      | Some d \<Rightarrow> if \<not> is_integer d \<or> d < 1 then [InvalidEffectChainDepth d (rm_id raw)] else []) @
     (if rm_states raw = [] then [NoStates (md_id machine)] else []) @
     (case md_type machine of
        RootCompound \<Rightarrow>
          (case truthy (md_initial machine) of
             None \<Rightarrow> [RootNeedsInitial (md_id machine)]
           | Some k \<Rightarrow> if map_of (md_states machine) k = None
                        then [RootInitialMissing k (md_id machine)] else [])
      | RootParallel \<Rightarrow>
          (if truthy (md_initial machine) \<noteq> None then [RootParallelInitial (md_id machine)] else [])) @
     (case onFail_target (md_defaults machine) of
        None \<Rightarrow> []
      | Some t \<Rightarrow> if resolveTargetStatePath (md_id machine) (md_states machine) [] t = None
                   then [UnresolvableDefaultTarget t (md_id machine)] else [])"

definition machine_issues :: "raw_machine \<Rightarrow> ir_issue list" where
  "machine_issues raw =
     (let machine = to_machine raw in
      root_issues raw machine @
      concat (map (\<lambda>(k, n). validateNode (md_id machine) (md_states machine) n) (md_states machine)))"

definition finalizeAndValidateMachineIR :: "raw_machine \<Rightarrow> js_error + machine" where
  "finalizeAndValidateMachineIR raw =
     (let issues = map issue_text (machine_issues raw) in
      if issues \<noteq> [] then
        Inl (MachineValidationError
          (''Invalid DFSM definition for '' @
           quoted (if rm_id raw = [] then ''<unknown>'' else rm_id raw) @ '': '' @ join '' | '' issues)
          issues)
      else Inr (to_machine raw))"

section \<open>Path discipline of a state tree\<close>

text \<open>
  Every node carries its own key and the dotted path to it, keys can be path segments and siblings
  have different keys: what the parser and the builder produce.
\<close>

fun tree_ok :: "string list \<Rightarrow> string \<Rightarrow> state_node \<Rightarrow> bool" where
  "tree_ok pre name (StateNode k path ty desc init en ex on od sts imp) \<longleftrightarrow>
     wf_key name \<and> k = name \<and> path = join_dot (pre @ [name]) \<and> distinct (keys sts) \<and>
     list_all (\<lambda>(ck, child). tree_ok (pre @ [name]) ck child) sts"

definition forest_ok :: "string list \<Rightarrow> state_node dict \<Rightarrow> bool" where
  "forest_ok pre states \<longleftrightarrow> distinct (keys states) \<and> list_all (\<lambda>(k, n). tree_ok pre k n) states"

lemma tree_okD:
  assumes "tree_ok pre name n"
  shows "wf_key name" "sn_key n = name" "sn_path n = join_dot (pre @ [name])"
    "forest_ok (pre @ [name]) (sn_states n)"
  using assms by (cases n; simp add: forest_ok_def)+

lemma forest_ok_lookup:
  "forest_ok pre states \<Longrightarrow> map_of states k = Some n \<Longrightarrow> tree_ok pre k n"
  by (auto simp: forest_ok_def list_all_iff dest!: map_of_SomeD)

lemma forest_ok_child:
  "forest_ok pre states \<Longrightarrow> map_of states k = Some n \<Longrightarrow> forest_ok (pre @ [k]) (sn_states n)"
  using forest_ok_lookup tree_okD(4) by blast

lemma walk_parts_current:
  "ps \<noteq> [] \<Longrightarrow> walk_parts m c ps = walk_parts m c' ps"
  by (cases ps) auto

lemma walk_parts_append:
  "ps \<noteq> [] \<Longrightarrow> walk_parts m c (ps @ qs) =
     (case walk_parts m c ps of None \<Rightarrow> None | Some n \<Rightarrow> walk_parts (sn_states n) (Some n) qs)"
proof (induction ps arbitrary: m c)
  case (Cons p ps)
  then show ?case by (cases ps) (auto split: option.splits)
qed simp

lemma walk_parts_tree:
  assumes "forest_ok pre states" "walk_parts states None ps = Some n"
  shows "ps \<noteq> [] \<and> (\<forall>p \<in> set ps. wf_key p) \<and> sn_path n = join_dot (pre @ ps) \<and>
    sn_key n = last ps \<and> forest_ok (pre @ ps) (sn_states n)"
  using assms
proof (induction ps arbitrary: pre states)
  case (Cons p ps)
  then obtain c where c: "map_of states p = Some c"
    and w: "walk_parts (sn_states c) (Some c) ps = Some n"
    by (auto split: option.splits)
  note t = forest_ok_lookup [OF Cons.prems(1) c]
  show ?case
  proof (cases ps)
    case Nil
    then show ?thesis using w t tree_okD [OF t] by auto
  next
    case (Cons q qs)
    then have "walk_parts (sn_states c) None ps = Some n"
      using w walk_parts_current [of ps _ "Some c" None] by simp
    from Cons.IH [OF tree_okD(4) [OF t] this] tree_okD(1) [OF t] \<open>ps = q # qs\<close>
    show ?thesis by simp
  qed
qed simp

lemma walk_parts_Nil [simp]: "walk_parts states None [] = None"
  by simp

lemma lookup_join_dot [path_simps]:
  "\<forall>p \<in> set ps. wf_key p \<Longrightarrow> lookupByDotPath states (join_dot ps) = walk_parts states None ps"
  by (simp add: lookupByDotPath_def path_simps)

lemma lookupByDotPath_tree:
  assumes "forest_ok [] states" "lookupByDotPath states p = Some n"
  shows "sn_path n = join_dot (path_parts p)" "lookupByDotPath states (sn_path n) = Some n"
    "sn_path n \<noteq> []"
proof -
  have w: "walk_parts states None (path_parts p) = Some n"
    using assms(2) by (simp add: lookupByDotPath_def)
  note t = walk_parts_tree [OF assms(1) w]
  show "sn_path n = join_dot (path_parts p)" using t by simp
  then show "lookupByDotPath states (sn_path n) = Some n"
    using t w by (simp add: path_simps)
  show "sn_path n \<noteq> []" using t join_dot_eq_Nil by auto
qed

text \<open>A resolved target is the path of an existing node.\<close>

lemma resolve_sound:
  assumes "forest_ok [] states" "resolveTargetStatePath mid states src ref = Some p"
  shows "\<exists>n. lookupByDotPath states p = Some n \<and> sn_path n = p \<and> p \<noteq> []"
proof -
  from assms(2) obtain q n where "lookupByDotPath states q = Some n" "sn_path n = p"
    by (auto simp: resolveTargetStatePath_def Let_def split: if_splits option.splits)
  then show ?thesis using lookupByDotPath_tree [OF assms(1)] by metis
qed

text \<open>A target that resolves from the root resolves from everywhere.\<close>

lemma resolve_from_root:
  assumes "resolveTargetStatePath mid states [] ref \<noteq> None"
  shows "resolveTargetStatePath mid states src ref \<noteq> None"
  using assms by (auto simp: resolveTargetStatePath_def Let_def split: if_splits option.splits)

section \<open>What validation guarantees\<close>

fun shape_ok :: "state_node \<Rightarrow> bool" where
  "shape_ok (StateNode k path ty desc init en ex on od sts imp) \<longleftrightarrow>
     (case ty of
        Compound \<Rightarrow> (case init of None \<Rightarrow> False | Some i \<Rightarrow> i \<in> set (keys sts))
      | Parallel \<Rightarrow> sts \<noteq> []
      | Atomic \<Rightarrow> sts = []
      | Final \<Rightarrow> sts = [] \<and> on = []) \<and>
     list_all (\<lambda>(ck, child). shape_ok child) sts"

definition target_ok :: "string \<Rightarrow> state_node dict \<Rightarrow> string \<Rightarrow> string option \<Rightarrow> bool" where
  "target_ok mid states src t \<longleftrightarrow>
     (case truthy t of None \<Rightarrow> True | Some r \<Rightarrow> resolveTargetStatePath mid states src r \<noteq> None)"

definition edge_ok :: "string \<Rightarrow> state_node dict \<Rightarrow> string \<Rightarrow> transition_edge \<Rightarrow> bool" where
  "edge_ok mid states src e \<longleftrightarrow> target_ok mid states src (te_target e) \<and>
     target_ok mid states src (Option.bind (pp_onFail (te_policy e)) po_target)"

fun edges_ok :: "string \<Rightarrow> state_node dict \<Rightarrow> state_node \<Rightarrow> bool" where
  "edges_ok mid states (StateNode k path ty desc init en ex on od sts imp) \<longleftrightarrow>
     list_all (\<lambda>(ev, e). edge_ok mid states path e) on \<and>
     (case od of None \<Rightarrow> True | Some e \<Rightarrow> edge_ok mid states path e) \<and>
     list_all (\<lambda>(ck, child). edges_ok mid states child) sts"

definition root_ok :: "machine \<Rightarrow> bool" where
  "root_ok m \<longleftrightarrow>
     (case md_type m of
        RootCompound \<Rightarrow> (case md_initial m of None \<Rightarrow> False | Some i \<Rightarrow> map_of (md_states m) i \<noteq> None)
      | RootParallel \<Rightarrow> truthy (md_initial m) = None)"

definition machine_ok :: "machine \<Rightarrow> bool" where
  "machine_ok m \<longleftrightarrow> forest_ok [] (md_states m) \<and> root_ok m \<and>
     list_all (\<lambda>(k, n). shape_ok n \<and> edges_ok (md_id m) (md_states m) n) (md_states m) \<and>
     map_of (md_states m) ''error'' \<noteq> None"

text \<open>The part of it that does not depend on how states are named.\<close>

definition references_ok :: "machine \<Rightarrow> bool" where
  "references_ok m \<longleftrightarrow> root_ok m \<and>
     list_all (\<lambda>(k, n). shape_ok n \<and> edges_ok (md_id m) (md_states m) n) (md_states m) \<and>
     map_of (md_states m) ''error'' \<noteq> None"

lemma machine_ok_parts: "machine_ok m \<longleftrightarrow> forest_ok [] (md_states m) \<and> references_ok m"
  by (auto simp: machine_ok_def references_ok_def)

lemma validateEdge_ok: "validateEdge mid states src l e = [] \<Longrightarrow> edge_ok mid states src e"
  by (auto simp: validateEdge_def edge_ok_def target_ok_def truthy_def split: option.splits if_splits)

lemma validateNodeShape_ok:
  "validateNodeShape path ty init ck ok = [] \<Longrightarrow>
     (case ty of
        Compound \<Rightarrow> (case init of None \<Rightarrow> False | Some i \<Rightarrow> i \<in> set ck)
      | Parallel \<Rightarrow> ck \<noteq> []
      | Atomic \<Rightarrow> ck = []
      | Final \<Rightarrow> ck = [] \<and> ok = [])"
  by (cases ty) (auto simp: validateNodeShape_def truthy_None split: option.splits if_splits)

lemma validateNode_ok:
  "validateNode mid states n = [] \<Longrightarrow> shape_ok n \<and> edges_ok mid states n"
proof (induction mid states n rule: validateNode.induct)
  case (1 mid states k path ty desc init en ex on od sts imp)
  have kids: "\<forall>(ck, child) \<in> set sts. shape_ok child \<and> edges_ok mid states child"
    using 1 by fastforce
  have on: "\<forall>(ev, e) \<in> set on. edge_ok mid states path e"
    using "1.prems" by (auto intro: validateEdge_ok)
  have od: "case od of None \<Rightarrow> True | Some e \<Rightarrow> edge_ok mid states path e"
    using "1.prems" by (auto intro: validateEdge_ok split: option.splits)
  have "validateNodeShape path ty init (keys sts) (keys on) = []"
    using "1.prems" by simp
  from validateNodeShape_ok [OF this] kids on od show ?case
    by (auto simp: list_all_iff split: node_type.splits option.splits)
qed

lemma forest_ok_with_error:
  assumes "forest_ok [] states"
  shows "forest_ok [] (with_error_state states)"
  using assms
  by (auto simp: with_error_state_def forest_ok_def implicit_error_node_def wf_key_def list_all_iff)

lemma with_error_state_lookup: "map_of (with_error_state states) ''error'' \<noteq> None"
  by (auto simp: with_error_state_def map_of_eq_None_iff)

text \<open>
  A machine that passes validation is well formed, given the path discipline of its tree, which
  validation itself does not check.
\<close>

lemma finalize_references:
  assumes "finalizeAndValidateMachineIR raw = Inr m"
  shows "references_ok m"
proof -
  from assms have iss: "machine_issues raw = []" and m: "m = to_machine raw"
    by (auto simp: finalizeAndValidateMachineIR_def Let_def split: if_splits)
  then have root: "root_issues raw m = []"
    and nodes: "\<forall>(k, n) \<in> set (md_states m). validateNode (md_id m) (md_states m) n = []"
    by (auto simp: machine_issues_def Let_def)
  have "root_ok m"
    using root by (auto simp: root_issues_def root_ok_def truthy_None split: root_type.splits option.splits if_splits)
  moreover have "map_of (md_states m) ''error'' \<noteq> None"
    using with_error_state_lookup [of "rm_states raw"] by (simp add: m to_machine_def)
  moreover have "list_all (\<lambda>(k, n). shape_ok n \<and> edges_ok (md_id m) (md_states m) n) (md_states m)"
    using nodes by (fastforce simp: list_all_iff dest: validateNode_ok)
  ultimately show ?thesis by (simp add: references_ok_def)
qed

lemma finalize_ok:
  assumes "finalizeAndValidateMachineIR raw = Inr m" "forest_ok [] (rm_states raw)"
  shows "machine_ok m"
proof -
  from assms(1) have "m = to_machine raw"
    by (auto simp: finalizeAndValidateMachineIR_def Let_def split: if_splits)
  then have "forest_ok [] (md_states m)" using forest_ok_with_error [OF assms(2)] by (simp add: to_machine_def)
  with finalize_references [OF assms(1)] show ?thesis by (simp add: machine_ok_parts)
qed

end
