(* ===== verification/Statechart.thy ===== *)
theory Statechart
  imports IR
begin

text \<open>
  The statechart engine of \<^verbatim>\<open>engine/statechart.ts\<close>, function by function: node lookup, entering a
  subtree, the initial state, the active leaf paths of a state value, the exit effects, event
  dispatch with bubbling and parallel broadcast, the target transition with its lowest common
  ancestor, automatic \<open>onDone\<close> completion, the settled status, the available events and the terminal
  state descriptors. The object spread of a state map is \<^const>\<open>AList.update\<close>.
\<close>

section \<open>Lookup and entry\<close>

definition getNodeByPath :: "machine \<Rightarrow> string \<Rightarrow> state_node option" where
  "getNodeByPath machine dotPath = walk_parts (md_states machine) None (path_parts dotPath)"

lemma map_of_node_less [termination_simp]:
  "map_of d k = Some n \<Longrightarrow> size n < Suc (size_list (\<lambda>x. Suc (size (snd x))) d)"
  by (induction d) (auto split: if_splits)

definition child_value :: "string \<Rightarrow> state_value option \<Rightarrow> state_value" where
  "child_value k sub = (case sub of None \<Rightarrow> SLeaf k | Some v \<Rightarrow> SMap [(k, v)])"

definition region_value :: "string \<Rightarrow> state_value option \<Rightarrow> state_value" where
  "region_value k sub = (case sub of None \<Rightarrow> SLeaf k | Some v \<Rightarrow> v)"

text \<open>
  The result pairs the sub-value (\<open>None\<close> for the code's \<open>null\<close>) with the entry effects. The missing
  \<open>initial\<close> of \<open>node.states[node.initial!]\<close> looks up no child.
\<close>

fun enterSubtree :: "state_node \<Rightarrow> state_value option \<times> string list" where
  "enterSubtree (StateNode k path ty desc init en ex on od sts imp) =
     (case ty of
        Atomic \<Rightarrow> (None, en)
      | Final \<Rightarrow> (None, en)
      | Compound \<Rightarrow>
          (case init of
             None \<Rightarrow> (None, en)
           | Some i \<Rightarrow>
               (case map_of sts i of
                  None \<Rightarrow> (None, en)
                | Some child \<Rightarrow>
                    (let (sub, effs) = enterSubtree child
                     in (Some (child_value (sn_key child) sub), en @ effs))))
      | Parallel \<Rightarrow>
          (let entered = map (\<lambda>(rk, rn). (rk, enterSubtree rn)) sts
           in (Some (SMap (map (\<lambda>(rk, sub, _). (rk, region_value rk sub)) entered)),
               en @ concat (map (\<lambda>(_, _, effs). effs) entered))))"

definition resolveInitialState :: "machine \<Rightarrow> (state_value \<times> string list) option" where
  "resolveInitialState machine =
     (case md_type machine of
        RootParallel \<Rightarrow>
          (let entered = map (\<lambda>(rk, rn). (rk, enterSubtree rn))
                 (filter (\<lambda>(_, rn). \<not> sn_isImplicitError rn) (md_states machine))
           in Some (SMap (map (\<lambda>(rk, sub, _). (rk, region_value rk sub)) entered),
                concat (map (\<lambda>(_, _, effs). effs) entered)))
      | RootCompound \<Rightarrow>
          (case Option.bind (md_initial machine) (map_of (md_states machine)) of
             None \<Rightarrow> None
           | Some node \<Rightarrow>
               (let (sub, effs) = enterSubtree node in Some (child_value (sn_key node) sub, effs))))"

section \<open>Active leaves\<close>

definition sub_path :: "string \<Rightarrow> string \<Rightarrow> string" where
  "sub_path parentPath k = (if parentPath \<noteq> [] then parentPath @ dot @ k else k)"

definition leaf_type :: "node_type \<Rightarrow> bool" where
  "leaf_type ty \<longleftrightarrow> ty = Atomic \<or> ty = Final"

definition is_leaf_node :: "state_node option \<Rightarrow> bool" where
  "is_leaf_node n = (case n of Some nd \<Rightarrow> leaf_type (sn_type nd) | None \<Rightarrow> False)"

definition is_parallel_node :: "state_node option \<Rightarrow> bool" where
  "is_parallel_node n = (case n of Some nd \<Rightarrow> sn_type nd = Parallel | None \<Rightarrow> False)"

definition is_final_node :: "state_node option \<Rightarrow> bool" where
  "is_final_node n = (case n of Some nd \<Rightarrow> sn_type nd = Final | None \<Rightarrow> False)"

fun getActiveLeafPaths :: "machine \<Rightarrow> state_value \<Rightarrow> string \<Rightarrow> string list"
  and entry_leaf_paths :: "machine \<Rightarrow> string \<Rightarrow> state_value \<Rightarrow> string list"
  and region_leaf_paths :: "machine \<Rightarrow> string \<Rightarrow> state_value \<Rightarrow> string list" where
  "getActiveLeafPaths machine (SLeaf s) parentPath = [sub_path parentPath s]"
| "getActiveLeafPaths machine (SMap kvs) parentPath =
     concat (map (\<lambda>(k, v). entry_leaf_paths machine (sub_path parentPath k) v) kvs)"
| "entry_leaf_paths machine currentPath (SLeaf s) =
     [sub_path currentPath s]"
| "entry_leaf_paths machine currentPath (SMap kvs) =
     (if is_parallel_node (getNodeByPath machine currentPath)
      then concat (map (\<lambda>(rk, rv). region_leaf_paths machine (currentPath @ dot @ rk) rv) kvs)
      else concat (map (\<lambda>(k, v). entry_leaf_paths machine (sub_path currentPath k) v) kvs))"
| "region_leaf_paths machine regionPath (SLeaf s) =
     (if is_leaf_node (getNodeByPath machine regionPath) then [regionPath]
      else [regionPath @ dot @ s])"
| "region_leaf_paths machine regionPath (SMap kvs) =
     (if is_leaf_node (getNodeByPath machine regionPath) then [regionPath]
      else concat (map (\<lambda>(k, v). entry_leaf_paths machine (sub_path regionPath k) v) kvs))"

section \<open>Exit effects\<close>

definition in_subtree :: "string \<Rightarrow> string \<Rightarrow> bool" where
  "in_subtree subtreePrefix p \<longleftrightarrow>
     subtreePrefix = [] \<or> p = subtreePrefix \<or> starts_with p (subtreePrefix @ dot)"

fun exit_walk ::
  "machine \<Rightarrow> string \<Rightarrow> string list \<Rightarrow> nat \<Rightarrow> string list \<times> string list \<Rightarrow> string list \<times> string list"
where
  "exit_walk machine pre segments 0 st = st"
| "exit_walk machine pre segments (Suc len) (visited, exitEffects) =
     (let candidatePath = join_dot (take (Suc len) segments) in
      if \<not> in_subtree pre candidatePath then (visited, exitEffects)
      else exit_walk machine pre segments len
        (if candidatePath \<in> set visited then (visited, exitEffects)
         else (visited @ [candidatePath],
               exitEffects @ (case getNodeByPath machine candidatePath of
                                Some n \<Rightarrow> sn_exit n | None \<Rightarrow> []))))"

definition collectBottomUpExitEffects :: "machine \<Rightarrow> state_value \<Rightarrow> string \<Rightarrow> string list" where
  "collectBottomUpExitEffects machine stateValue subtreePrefix =
     snd (fold
       (\<lambda>leafPath st.
          if \<not> in_subtree subtreePrefix leafPath then st
          else (let segments = split_dot leafPath
                in exit_walk machine subtreePrefix segments (length segments) st))
       (getActiveLeafPaths machine stateValue []) ([], []))"

section \<open>Event dispatch\<close>

type_synonym matched_transition = "state_node \<times> transition_edge"

definition first_nonempty :: "'a list list \<Rightarrow> 'a list" where
  "first_nonempty xss = (case filter (\<lambda>xs. xs \<noteq> []) xss of [] \<Rightarrow> [] | xs # _ \<Rightarrow> xs)"

definition self_match :: "string \<Rightarrow> state_node \<Rightarrow> matched_transition list" where
  "self_match event node = (case map_of (sn_on node) event of Some e \<Rightarrow> [(node, e)] | None \<Rightarrow> [])"

fun searchInSubtree ::
  "string \<Rightarrow> state_node \<Rightarrow> state_value option \<Rightarrow> matched_transition list" where
  "searchInSubtree event (StateNode k path ty desc init en ex on od sts imp) subVal =
     (let node = StateNode k path ty desc init en ex on od sts imp in
      case ty of
        Atomic \<Rightarrow> self_match event node
      | Final \<Rightarrow> self_match event node
      | Compound \<Rightarrow>
          (let childMatches =
             (case subVal of
                Some (SLeaf s) \<Rightarrow>
                  (case map_of sts s of
                     Some child \<Rightarrow> searchInSubtree event child None | None \<Rightarrow> [])
              | Some (SMap kvs) \<Rightarrow>
                  first_nonempty (map (\<lambda>(childKey, grandVal).
                    case map_of sts childKey of
                      Some child \<Rightarrow> searchInSubtree event child (Some grandVal) | None \<Rightarrow> []) kvs)
              | None \<Rightarrow> [])
           in if childMatches \<noteq> [] then childMatches else self_match event node)
      | Parallel \<Rightarrow>
          (let regionMap = (case subVal of Some (SMap kvs) \<Rightarrow> kvs | _ \<Rightarrow> []);
               regionMatches = concat (map (\<lambda>(regionKey, regionNode).
                 searchInSubtree event regionNode
                   (if leaf_type (sn_type regionNode) then None else map_of regionMap regionKey)) sts)
           in if regionMatches \<noteq> [] then regionMatches else self_match event node))"

definition resolveTransitionsForEvent ::
  "machine \<Rightarrow> state_value \<Rightarrow> string \<Rightarrow> matched_transition list" where
  "resolveTransitionsForEvent machine stateValue event =
     (case stateValue of
        SLeaf s \<Rightarrow>
          (case map_of (md_states machine) s of
             Some rootChild \<Rightarrow> searchInSubtree event rootChild None | None \<Rightarrow> [])
      | SMap kvs \<Rightarrow>
          concat (map (\<lambda>(topKey, topSubVal).
            case map_of (md_states machine) topKey of
              None \<Rightarrow> []
            | Some rootChild \<Rightarrow>
                searchInSubtree event rootChild
                  (if leaf_type (sn_type rootChild) then None else Some topSubVal)) kvs))"

section \<open>Target transitions\<close>

fun walk_value :: "state_value \<Rightarrow> string list \<Rightarrow> state_value option" where
  "walk_value cursor [] = Some cursor"
| "walk_value (SLeaf s) (part # parts) = None"
| "walk_value (SMap kvs) (part # parts) =
     (case map_of kvs part of None \<Rightarrow> None | Some v \<Rightarrow> walk_value v parts)"

definition extractSubStateObject :: "state_value \<Rightarrow> string \<Rightarrow> state_value dict" where
  "extractSubStateObject rootVal dotPath =
     (case walk_value rootVal (path_parts dotPath) of Some (SMap kvs) \<Rightarrow> kvs | _ \<Rightarrow> [])"

definition assign :: "state_value \<Rightarrow> string \<Rightarrow> state_value \<Rightarrow> state_value" where
  "assign current k v =
     (case current of SMap kvs \<Rightarrow> SMap (AList.update k v kvs) | SLeaf _ \<Rightarrow> SMap [(k, v)])"

text \<open>
  \<open>depth\<close> is the length of \<open>pre\<close>, the part of \<open>lcaParts\<close> already walked; the last argument but one is
  the rest. The only throw is the destructuring of an empty replacement object.
\<close>

fun replaceAtLca ::
  "machine \<Rightarrow> state_value \<Rightarrow> string list \<Rightarrow> string list \<Rightarrow> state_value \<Rightarrow> js_error + state_value" where
  "replaceAtLca machine current pre [] replacementBranch = Inr replacementBranch"
| "replaceAtLca machine current pre [key] replacementBranch =
     (case (is_parallel_node (getNodeByPath machine (join_dot (pre @ [key]))), current, replacementBranch) of
        (True, SMap kvs, SMap []) \<Rightarrow> Inl (JsError ''undefined is not iterable'')
      | (True, SMap kvs, SMap ((repRegionKey, repRegionVal) # _)) \<Rightarrow>
          (let parallelRegions = (case map_of kvs key of Some (SMap rs) \<Rightarrow> rs | _ \<Rightarrow> [])
           in Inr (SMap (AList.update key
                (SMap (AList.update repRegionKey repRegionVal parallelRegions)) kvs)))
      | _ \<Rightarrow> Inr (assign current key replacementBranch))"
| "replaceAtLca machine current pre (key # k' # rest) replacementBranch =
     (let childCurrent = (case current of
            SMap kvs \<Rightarrow> (case map_of kvs key of Some v \<Rightarrow> v | None \<Rightarrow> SLeaf [])
          | SLeaf _ \<Rightarrow> SLeaf [])
      in case replaceAtLca machine childCurrent (pre @ [key]) (k' # rest) replacementBranch of
           Inl e \<Rightarrow> Inl e
         | Inr updatedChild \<Rightarrow> Inr (assign current key updatedChild))"

fun common_len :: "nat \<Rightarrow> string list \<Rightarrow> string list \<Rightarrow> nat" where
  "common_len (Suc b) (x # xs) (y # ys) = (if x = y then Suc (common_len b xs ys) else 0)"
| "common_len _ _ _ = 0"

definition pick_region :: "string \<Rightarrow> state_value \<Rightarrow> state_value" where
  "pick_region rk b =
     (case b of SMap kvs \<Rightarrow> (case map_of kvs rk of Some v \<Rightarrow> v | None \<Rightarrow> b) | SLeaf _ \<Rightarrow> b)"

definition wrap_ancestor ::
  "machine \<Rightarrow> state_value \<Rightarrow> string list \<Rightarrow> nat \<Rightarrow> state_value \<Rightarrow> js_error + state_value" where
  "wrap_ancestor machine currentStateValue tgtParts i builtBranch =
     (let ancestorKey = tgtParts ! i;
          ancestorPath = join_dot (take (Suc i) tgtParts)
      in case getNodeByPath machine ancestorPath of
           None \<Rightarrow> Inl (JsError ''Cannot read properties of undefined'')
         | Some ancestorNode \<Rightarrow>
             if sn_type ancestorNode = Parallel then
               (let existingParallelObj = extractSubStateObject currentStateValue ancestorPath;
                    regionKey = tgtParts ! Suc i
                in Inr (SMap [(ancestorKey,
                     SMap (AList.update regionKey (pick_region regionKey builtBranch)
                       existingParallelObj))]))
             else Inr (SMap [(ancestorKey, builtBranch)]))"

definition build_branch ::
  "machine \<Rightarrow> state_value \<Rightarrow> string list \<Rightarrow> nat \<Rightarrow> state_value \<Rightarrow> js_error + state_value" where
  "build_branch machine currentStateValue tgtParts commonLen b0 =
     fold (\<lambda>i acc. case acc of Inl e \<Rightarrow> Inl e
                    | Inr b \<Rightarrow> wrap_ancestor machine currentStateValue tgtParts i b)
       (rev [commonLen..<length tgtParts - 1]) (Inr b0)"

record applied_transition =
  ap_targetPath :: string
  ap_nextStateValue :: state_value
  ap_exitEffects :: "string list"
  ap_entryEffects :: "string list"

definition ancestor_entry_effects :: "machine \<Rightarrow> string list \<Rightarrow> nat \<Rightarrow> string list" where
  "ancestor_entry_effects machine tgtParts commonLen =
     concat (map (\<lambda>i. case getNodeByPath machine (join_dot (take (Suc i) tgtParts)) of
                        Some n \<Rightarrow> sn_entry n | None \<Rightarrow> [])
       [commonLen..<length tgtParts - 1])"

text \<open>Installing the built branch: at the root, in a root region, or below the common ancestor.\<close>

definition install_branch ::
  "machine \<Rightarrow> state_value \<Rightarrow> string list \<Rightarrow> nat \<Rightarrow> state_value \<Rightarrow> js_error + state_value" where
  "install_branch machine currentStateValue tgtParts commonLen builtBranch =
     (if take commonLen tgtParts = [] then
        (case (md_type machine, currentStateValue) of
           (RootParallel, SMap kvs) \<Rightarrow>
             (let topRegionKey = hd tgtParts
              in Inr (SMap (AList.update topRegionKey (pick_region topRegionKey builtBranch) kvs)))
         | _ \<Rightarrow> Inr builtBranch)
      else replaceAtLca machine currentStateValue [] (take commonLen tgtParts) builtBranch)"

definition cannot_resolve :: "machine \<Rightarrow> string \<Rightarrow> string \<Rightarrow> js_error" where
  "cannot_resolve machine sourceStatePath targetRef =
     JsError (''Cannot resolve target '' @ quoted targetRef @ '' from state '' @
       quoted sourceStatePath @ '' in machine '' @ quoted (md_id machine))"

definition applyTargetTransition ::
  "machine \<Rightarrow> state_value \<Rightarrow> string \<Rightarrow> string \<Rightarrow> js_error + applied_transition" where
  "applyTargetTransition machine currentStateValue sourceStatePath targetRef =
     (case truthy (resolveTargetStatePath (md_id machine) (md_states machine) sourceStatePath targetRef) of
        None \<Rightarrow> Inl (cannot_resolve machine sourceStatePath targetRef)
      | Some targetPath \<Rightarrow>
          (let srcParts = path_parts sourceStatePath;
               tgtParts = path_parts targetPath;
               maxCommon = min (length srcParts) (length tgtParts) - 1;
               commonLen = common_len maxCommon srcParts tgtParts;
               exitingRootPath = (if length srcParts > commonLen
                                  then join_dot (take (Suc commonLen) srcParts)
                                  else sourceStatePath);
               exitEffects = collectBottomUpExitEffects machine currentStateValue exitingRootPath
           in case getNodeByPath machine targetPath of
                None \<Rightarrow> Inl (JsError ''Cannot read properties of undefined'')
              | Some targetNode \<Rightarrow>
                  (let (sub, effs) = enterSubtree targetNode;
                       entryEffects = ancestor_entry_effects machine tgtParts commonLen @ effs
                   in case build_branch machine currentStateValue tgtParts commonLen
                             (child_value (sn_key targetNode) sub) of
                        Inl e \<Rightarrow> Inl e
                      | Inr builtBranch \<Rightarrow>
                          (case install_branch machine currentStateValue tgtParts commonLen builtBranch of
                             Inl e \<Rightarrow> Inl e
                           | Inr nextStateValue \<Rightarrow>
                               Inr \<lparr>ap_targetPath = targetPath, ap_nextStateValue = nextStateValue,
                                    ap_exitEffects = exitEffects, ap_entryEffects = entryEffects\<rparr>))))"

section \<open>Completion, status and introspection\<close>

definition isBranchFinalAt :: "machine \<Rightarrow> string \<Rightarrow> string \<Rightarrow> bool" where
  "isBranchFinalAt machine regionPath leafPath =
     (case getNodeByPath machine leafPath of
        None \<Rightarrow> False
      | Some leafNode \<Rightarrow>
          if sn_type leafNode \<noteq> Final then False
          else (case getNodeByPath machine regionPath of
                  None \<Rightarrow> False
                | Some regionNode \<Rightarrow>
                    (case sn_type regionNode of
                       Final \<Rightarrow> True
                     | Compound \<Rightarrow> leafPath = regionPath @ dot @ sn_key leafNode
                     | _ \<Rightarrow> False)))"

definition candidate_containers :: "string list \<Rightarrow> string list" where
  "candidate_containers leaves =
     dedup (concat (map (\<lambda>leaf. let parts = split_dot leaf
                                in map (\<lambda>i. join_dot (take i parts)) (rev [1..<length parts])) leaves))"

definition container_done :: "machine \<Rightarrow> string list \<Rightarrow> string \<Rightarrow> matched_transition option" where
  "container_done machine leaves containerPath =
     (case getNodeByPath machine containerPath of
        None \<Rightarrow> None
      | Some containerNode \<Rightarrow>
          (case sn_onDone containerNode of
             None \<Rightarrow> None
           | Some edge \<Rightarrow>
               (case sn_type containerNode of
                  Compound \<Rightarrow>
                    (case filter (\<lambda>l. starts_with l (containerPath @ dot)) leaves of
                       [l] \<Rightarrow> if is_final_node (getNodeByPath machine l)
                              then Some (containerNode, edge) else None
                     | _ \<Rightarrow> None)
                | Parallel \<Rightarrow>
                    (if list_all (\<lambda>region.
                          let regionLeaves = filter (\<lambda>l. l = sn_path region \<or>
                                starts_with l (sn_path region @ dot)) leaves
                          in regionLeaves \<noteq> [] \<and>
                             list_all (isBranchFinalAt machine (sn_path region)) regionLeaves)
                        (vals (sn_states containerNode))
                     then Some (containerNode, edge) else None)
                | _ \<Rightarrow> None)))"

definition first_some :: "('a \<Rightarrow> 'b option) \<Rightarrow> 'a list \<Rightarrow> 'b option" where
  "first_some f xs = (case filter (\<lambda>y. y \<noteq> None) (map f xs) of [] \<Rightarrow> None | y # _ \<Rightarrow> y)"

definition findPendingOnDone :: "machine \<Rightarrow> state_value \<Rightarrow> matched_transition option" where
  "findPendingOnDone machine stateValue =
     (let leaves = getActiveLeafPaths machine stateValue [];
          sortedContainers = sort_key (\<lambda>p. - int (length (split_dot p))) (candidate_containers leaves)
      in first_some (container_done machine leaves) sortedContainers)"

definition resolveSettledTransactionStatus :: "machine \<Rightarrow> state_value \<Rightarrow> bool \<Rightarrow> tx_status" where
  "resolveSettledTransactionStatus machine stateValue wasCompensated =
     (if wasCompensated then COMPENSATED
      else if stateValue = SLeaf ''error'' \<and> map_of (md_states machine) ''error'' \<noteq> None then FAILED
      else (let leaves = getActiveLeafPaths machine stateValue [] in
            if leaves \<noteq> [] \<and> list_all (\<lambda>l. is_final_node (getNodeByPath machine l)) leaves
            then COMPLETED else IDLE))"

definition leaf_events :: "machine \<Rightarrow> string \<Rightarrow> string list" where
  "leaf_events machine leafPath =
     (let parts = path_parts leafPath in
      concat (map (\<lambda>len.
        case getNodeByPath machine (join_dot (take len parts)) of
          None \<Rightarrow> []
        | Some node \<Rightarrow> if sn_type node = Final then [] else keys (sn_on node))
        (rev [1..<Suc (length parts)])))"

definition getAvailableEvents :: "machine \<Rightarrow> state_value \<Rightarrow> string list" where
  "getAvailableEvents machine stateValue =
     dedup (concat (map (leaf_events machine) (getActiveLeafPaths machine stateValue [])))"

datatype terminal_kind = KindFinal | KindError

record terminal_descriptor =
  td_path :: string
  td_key :: string
  td_kind :: terminal_kind
  td_isTopLevel :: bool
  td_isImplicitDefaultError :: bool
  td_isRecoverableError :: bool
  td_recoveryEvents :: "string list"

fun terminal_walk :: "nat \<Rightarrow> state_node \<Rightarrow> terminal_descriptor list" where
  "terminal_walk depth (StateNode k path ty desc init en ex on od sts imp) =
     (let isErrorNode = (depth = 0 \<and> k = ''error'') in
      (if ty = Final \<or> isErrorNode then
         [\<lparr>td_path = path, td_key = k,
           td_kind = (if isErrorNode then KindError else KindFinal),
           td_isTopLevel = (depth = 0), td_isImplicitDefaultError = imp,
           td_isRecoverableError = (isErrorNode \<and> ty \<noteq> Final \<and> keys on \<noteq> []),
           td_recoveryEvents = keys on\<rparr>]
       else []) @
      concat (map (\<lambda>(ck, child). terminal_walk (Suc depth) child) sts))"

definition getTerminalStates :: "machine \<Rightarrow> terminal_descriptor list" where
  "getTerminalStates machine = concat (map (\<lambda>(k, root). terminal_walk 0 root) (md_states machine))"

end
