(* ===== verification/Merger.thy ===== *)
theory Merger
  imports Types
begin

text \<open>
  Policy merging: \<^verbatim>\<open>policy/merger.ts\<close>, which folds the four policy layers over the SDK defaults, and
  the merge of decorator metadata in \<^verbatim>\<open>decorators/metadata.ts\<close>. The specification is precedence
  field by field: the value of the highest layer that defines the field, else the default.
\<close>

section \<open>The SDK default and the fold over the layers\<close>

definition default_backoff :: norm_backoff where
  "default_backoff = \<lparr>nb_strategy = Exponential, nb_initialDelayMs = 100, nb_maxDelayMs = 5000,
     nb_multiplier = 2\<rparr>"

definition SDK_DEFAULT_POLICY :: "string \<Rightarrow> norm_policy" where
  "SDK_DEFAULT_POLICY breakerKey = \<lparr>
     np_retry = \<lparr>nr_maxAttempts = 1, nr_backoff = default_backoff, nr_retryIf = None\<rparr>,
     np_circuitBreaker = \<lparr>nc_enabled = False, nc_key = breakerKey, nc_failureThreshold = 5,
       nc_slidingWindowSize = 10, nc_openDurationMs = 30000, nc_halfOpenMaxCalls = 1\<rparr>,
     np_onFail = \<lparr>no_compensate = False, no_target = ''error''\<rparr>,
     np_benchmark = \<lparr>nm_enabled = True\<rparr>,
     np_compensateHandler = None\<rparr>"

record merge_inputs =
  mi_defaultBreakerKey :: string
  mi_globalDefaults :: "partial_policy option"
  mi_machineDefaults :: "partial_policy option"
  mi_transitionPolicy :: "partial_policy option"
  mi_decoratorPolicy :: "partial_policy option"

definition apply_backoff :: "partial_backoff \<Rightarrow> norm_backoff \<Rightarrow> norm_backoff" where
  "apply_backoff l b = \<lparr>
     nb_strategy = or_else (pb_strategy l) (nb_strategy b),
     nb_initialDelayMs = or_else (pb_initialDelayMs l) (nb_initialDelayMs b),
     nb_maxDelayMs = or_else (pb_maxDelayMs l) (nb_maxDelayMs b),
     nb_multiplier = or_else (pb_multiplier l) (nb_multiplier b)\<rparr>"

definition apply_retry :: "partial_retry \<Rightarrow> norm_retry \<Rightarrow> norm_retry" where
  "apply_retry l r = \<lparr>
     nr_maxAttempts = or_else (pr_maxAttempts l) (nr_maxAttempts r),
     nr_backoff = (case pr_backoff l of None \<Rightarrow> nr_backoff r | Some b \<Rightarrow> apply_backoff b (nr_backoff r)),
     nr_retryIf = or_elseo (pr_retryIf l) (nr_retryIf r)\<rparr>"

definition apply_breaker :: "partial_breaker \<Rightarrow> norm_breaker \<Rightarrow> norm_breaker" where
  "apply_breaker l c = \<lparr>
     nc_enabled = or_else (pc_enabled l) (nc_enabled c),
     nc_key = or_else (pc_key l) (nc_key c),
     nc_failureThreshold = or_else (pc_failureThreshold l) (nc_failureThreshold c),
     nc_slidingWindowSize = or_else (pc_slidingWindowSize l) (nc_slidingWindowSize c),
     nc_openDurationMs = or_else (pc_openDurationMs l) (nc_openDurationMs c),
     nc_halfOpenMaxCalls = or_else (pc_halfOpenMaxCalls l) (nc_halfOpenMaxCalls c)\<rparr>"

definition apply_onfail :: "partial_onfail \<Rightarrow> norm_onfail \<Rightarrow> norm_onfail" where
  "apply_onfail l f = \<lparr>
     no_compensate = or_else (po_compensate l) (no_compensate f),
     no_target = or_else (po_target l) (no_target f)\<rparr>"

definition apply_layer :: "partial_policy option \<Rightarrow> norm_policy \<Rightarrow> norm_policy" where
  "apply_layer layer p =
     (case layer of
        None \<Rightarrow> p
      | Some l \<Rightarrow> \<lparr>
          np_retry = (case pp_retry l of None \<Rightarrow> np_retry p | Some r \<Rightarrow> apply_retry r (np_retry p)),
          np_circuitBreaker = (case pp_circuitBreaker l of
             None \<Rightarrow> np_circuitBreaker p | Some c \<Rightarrow> apply_breaker c (np_circuitBreaker p)),
          np_onFail = (case pp_onFail l of None \<Rightarrow> np_onFail p | Some f \<Rightarrow> apply_onfail f (np_onFail p)),
          np_benchmark = (case Option.bind (pp_benchmark l) pm_enabled of
             None \<Rightarrow> np_benchmark p | Some e \<Rightarrow> \<lparr>nm_enabled = e\<rparr>),
          np_compensateHandler = or_elseo (pp_compensateHandler l) (np_compensateHandler p)\<rparr>)"

definition normalizeTransitionPolicy :: "merge_inputs \<Rightarrow> norm_policy" where
  "normalizeTransitionPolicy inputs =
     fold apply_layer
       [mi_globalDefaults inputs, mi_machineDefaults inputs, mi_transitionPolicy inputs,
        mi_decoratorPolicy inputs]
       (SDK_DEFAULT_POLICY (mi_defaultBreakerKey inputs))"

section \<open>Merging decorator metadata\<close>

definition merge_backoff :: "partial_backoff \<Rightarrow> partial_backoff \<Rightarrow> partial_backoff" where
  "merge_backoff target patch = \<lparr>
     pb_strategy = or_elseo (pb_strategy patch) (pb_strategy target),
     pb_initialDelayMs = or_elseo (pb_initialDelayMs patch) (pb_initialDelayMs target),
     pb_maxDelayMs = or_elseo (pb_maxDelayMs patch) (pb_maxDelayMs target),
     pb_multiplier = or_elseo (pb_multiplier patch) (pb_multiplier target)\<rparr>"

text \<open>A merge of two optional objects: present when one of them is.\<close>

definition merge_opt :: "('a \<Rightarrow> 'a \<Rightarrow> 'a) \<Rightarrow> 'a option \<Rightarrow> 'a option \<Rightarrow> 'a option" where
  "merge_opt f target patch =
     (case (target, patch) of
        (Some t, Some p) \<Rightarrow> Some (f t p) | (Some t, None) \<Rightarrow> Some t
      | (None, p) \<Rightarrow> p)"

definition merge_retry :: "partial_retry \<Rightarrow> partial_retry \<Rightarrow> partial_retry" where
  "merge_retry target patch = \<lparr>
     pr_maxAttempts = or_elseo (pr_maxAttempts patch) (pr_maxAttempts target),
     pr_backoff = merge_opt merge_backoff (pr_backoff target) (pr_backoff patch),
     pr_retryIf = or_elseo (pr_retryIf patch) (pr_retryIf target)\<rparr>"

definition merge_breaker :: "partial_breaker \<Rightarrow> partial_breaker \<Rightarrow> partial_breaker" where
  "merge_breaker target patch = \<lparr>
     pc_enabled = or_elseo (pc_enabled patch) (pc_enabled target),
     pc_key = or_elseo (pc_key patch) (pc_key target),
     pc_failureThreshold = or_elseo (pc_failureThreshold patch) (pc_failureThreshold target),
     pc_slidingWindowSize = or_elseo (pc_slidingWindowSize patch) (pc_slidingWindowSize target),
     pc_openDurationMs = or_elseo (pc_openDurationMs patch) (pc_openDurationMs target),
     pc_halfOpenMaxCalls = or_elseo (pc_halfOpenMaxCalls patch) (pc_halfOpenMaxCalls target)\<rparr>"

definition merge_onfail :: "partial_onfail \<Rightarrow> partial_onfail \<Rightarrow> partial_onfail" where
  "merge_onfail target patch = \<lparr>
     po_compensate = or_elseo (po_compensate patch) (po_compensate target),
     po_target = or_elseo (po_target patch) (po_target target)\<rparr>"

definition merge_benchmark :: "partial_benchmark \<Rightarrow> partial_benchmark \<Rightarrow> partial_benchmark" where
  "merge_benchmark target patch = \<lparr>pm_enabled = or_elseo (pm_enabled patch) (pm_enabled target)\<rparr>"

definition mergePartialInto :: "partial_policy \<Rightarrow> partial_policy \<Rightarrow> partial_policy" where
  "mergePartialInto target patch = \<lparr>
     pp_retry = merge_opt merge_retry (pp_retry target) (pp_retry patch),
     pp_circuitBreaker = merge_opt merge_breaker (pp_circuitBreaker target) (pp_circuitBreaker patch),
     pp_onFail = merge_opt merge_onfail (pp_onFail target) (pp_onFail patch),
     pp_benchmark = merge_opt merge_benchmark (pp_benchmark target) (pp_benchmark patch),
     pp_compensateHandler = or_elseo (pp_compensateHandler patch) (pp_compensateHandler target)\<rparr>"

section \<open>Precedence\<close>

text \<open>\<open>pick f layers d\<close>: the last layer that defines the field, else \<open>d\<close>.\<close>

definition pick :: "(partial_policy \<Rightarrow> 'a option) \<Rightarrow> partial_policy option list \<Rightarrow> 'a \<Rightarrow> 'a" where
  "pick f layers d = fold (\<lambda>l acc. or_else (Option.bind l f) acc) layers d"

definition picko :: "(partial_policy \<Rightarrow> 'a option) \<Rightarrow> partial_policy option list \<Rightarrow> 'a option" where
  "picko f layers = fold (\<lambda>l acc. or_elseo (Option.bind l f) acc) layers None"

abbreviation retry_field :: "(partial_retry \<Rightarrow> 'a option) \<Rightarrow> partial_policy \<Rightarrow> 'a option" where
  "retry_field f p \<equiv> Option.bind (pp_retry p) f"

abbreviation backoff_field :: "(partial_backoff \<Rightarrow> 'a option) \<Rightarrow> partial_policy \<Rightarrow> 'a option" where
  "backoff_field f p \<equiv> Option.bind (Option.bind (pp_retry p) pr_backoff) f"

abbreviation breaker_field :: "(partial_breaker \<Rightarrow> 'a option) \<Rightarrow> partial_policy \<Rightarrow> 'a option" where
  "breaker_field f p \<equiv> Option.bind (pp_circuitBreaker p) f"

abbreviation onfail_field :: "(partial_onfail \<Rightarrow> 'a option) \<Rightarrow> partial_policy \<Rightarrow> 'a option" where
  "onfail_field f p \<equiv> Option.bind (pp_onFail p) f"

text \<open>The specification: every field by precedence.\<close>

definition precedence_policy :: "string \<Rightarrow> partial_policy option list \<Rightarrow> norm_policy" where
  "precedence_policy key ls = \<lparr>
     np_retry = \<lparr>
       nr_maxAttempts = pick (retry_field pr_maxAttempts) ls 1,
       nr_backoff = \<lparr>
         nb_strategy = pick (backoff_field pb_strategy) ls Exponential,
         nb_initialDelayMs = pick (backoff_field pb_initialDelayMs) ls 100,
         nb_maxDelayMs = pick (backoff_field pb_maxDelayMs) ls 5000,
         nb_multiplier = pick (backoff_field pb_multiplier) ls 2\<rparr>,
       nr_retryIf = picko (retry_field pr_retryIf) ls\<rparr>,
     np_circuitBreaker = \<lparr>
       nc_enabled = pick (breaker_field pc_enabled) ls False,
       nc_key = pick (breaker_field pc_key) ls key,
       nc_failureThreshold = pick (breaker_field pc_failureThreshold) ls 5,
       nc_slidingWindowSize = pick (breaker_field pc_slidingWindowSize) ls 10,
       nc_openDurationMs = pick (breaker_field pc_openDurationMs) ls 30000,
       nc_halfOpenMaxCalls = pick (breaker_field pc_halfOpenMaxCalls) ls 1\<rparr>,
     np_onFail = \<lparr>
       no_compensate = pick (onfail_field po_compensate) ls False,
       no_target = pick (onfail_field po_target) ls ''error''\<rparr>,
     np_benchmark = \<lparr>nm_enabled = pick (\<lambda>p. Option.bind (pp_benchmark p) pm_enabled) ls True\<rparr>,
     np_compensateHandler = picko pp_compensateHandler ls\<rparr>"

lemma pick_Nil [simp]: "pick f [] d = d"
  by (simp add: pick_def)

lemma pick_snoc: "pick f (ls @ [l]) d = or_else (Option.bind l f) (pick f ls d)"
  by (simp add: pick_def)

lemma picko_Nil [simp]: "picko f [] = None"
  by (simp add: picko_def)

lemma picko_snoc: "picko f (ls @ [l]) = or_elseo (Option.bind l f) (picko f ls)"
  by (simp add: picko_def)

lemma precedence_snoc:
  "precedence_policy key (ls @ [l]) = apply_layer l (precedence_policy key ls)"
  by (auto simp: precedence_policy_def apply_layer_def apply_retry_def apply_backoff_def
      apply_breaker_def apply_onfail_def pick_snoc picko_snoc or_else_def or_elseo_def
      split: option.splits)

lemma fold_precedence:
  "fold apply_layer ls (SDK_DEFAULT_POLICY key) = precedence_policy key ls"
proof (induction ls rule: rev_induct)
  case Nil
  show ?case by (simp add: precedence_policy_def SDK_DEFAULT_POLICY_def default_backoff_def)
next
  case (snoc l ls)
  then show ?case by (simp add: precedence_snoc)
qed

text \<open>Merging two decorator policies and applying the result is applying them one after the other.\<close>

lemma apply_merge:
  "apply_layer (Some (mergePartialInto target patch)) p =
     apply_layer (Some patch) (apply_layer (Some target) p)"
proof -
  have "(case merge_opt merge_retry (pp_retry target) (pp_retry patch) of
      None \<Rightarrow> np_retry p | Some r \<Rightarrow> apply_retry r (np_retry p)) =
    (case pp_retry patch of None \<Rightarrow> (case pp_retry target of None \<Rightarrow> np_retry p
       | Some r \<Rightarrow> apply_retry r (np_retry p))
     | Some r' \<Rightarrow> apply_retry r' (case pp_retry target of None \<Rightarrow> np_retry p
       | Some r \<Rightarrow> apply_retry r (np_retry p)))"
    by (auto simp: merge_opt_def merge_retry_def apply_retry_def apply_backoff_def merge_backoff_def
        or_else_def or_elseo_def split: option.splits)
  then show ?thesis
    by (auto simp: apply_layer_def mergePartialInto_def merge_opt_def merge_breaker_def merge_onfail_def
        merge_benchmark_def apply_breaker_def apply_onfail_def or_else_def or_elseo_def
        split: option.splits)
qed

end
