(* ===== verification/CircuitBreaker.thy ===== *)
theory CircuitBreaker
  imports Types
begin

text \<open>
  The circuit breaker of \<^verbatim>\<open>policy/circuit-breaker.ts\<close>. Time is the clock reading at each call.
  \<open>execute\<close> awaits the protected call between its admission and the settling of the outcome, so other
  calls on the same instance may run in between: the two halves are separate operations, the
  sequential \<open>execute\<close> composes them, and the relation \<open>breaker_step\<close> interleaves any number of calls.
  Trimming the window loops as long as the window is longer than \<open>slidingWindowSize\<close>, also when that is
  negative; \<open>None\<close> is the loop that never ends.
\<close>

section \<open>State and operations\<close>

datatype circuit_status = CLOSED | OPEN | HALF_OPEN

record breaker =
  cb_key :: string
  cb_policy :: norm_breaker
  cb_status :: circuit_status
  cb_openedAt :: int
  cb_outcomesWindow :: "bool list"
  cb_halfOpenInFlight :: int
  cb_halfOpenSuccesses :: int

definition new_breaker :: "norm_breaker \<Rightarrow> breaker" where
  "new_breaker policy = \<lparr>cb_key = nc_key policy, cb_policy = policy, cb_status = CLOSED,
     cb_openedAt = 0, cb_outcomesWindow = [], cb_halfOpenInFlight = 0, cb_halfOpenSuccesses = 0\<rparr>"

definition updatePolicy :: "norm_breaker \<Rightarrow> breaker \<Rightarrow> breaker" where
  "updatePolicy policy b = b\<lparr>cb_policy := policy\<rparr>"

definition breaker_reset :: "breaker \<Rightarrow> breaker" where
  "breaker_reset b = b\<lparr>cb_status := CLOSED, cb_openedAt := 0, cb_outcomesWindow := [],
     cb_halfOpenInFlight := 0, cb_halfOpenSuccesses := 0\<rparr>"

definition evaluateTimerTransition :: "int \<Rightarrow> breaker \<Rightarrow> breaker" where
  "evaluateTimerTransition now b =
     (if cb_status b = OPEN \<and> now - cb_openedAt b \<ge> nc_openDurationMs (cb_policy b)
      then b\<lparr>cb_status := HALF_OPEN, cb_halfOpenInFlight := 0, cb_halfOpenSuccesses := 0\<rparr>
      else b)"

definition breaker_getStatus :: "int \<Rightarrow> breaker \<Rightarrow> circuit_status \<times> breaker" where
  "breaker_getStatus now b =
     (let b' = evaluateTimerTransition now b in (cb_status b', b'))"

partial_function (option) trim_window :: "int \<Rightarrow> bool list \<Rightarrow> bool list option" where
  "trim_window cap w = (if int (length w) > cap then trim_window cap (tl w) else Some w)"

definition pushOutcome :: "bool \<Rightarrow> breaker \<Rightarrow> breaker option" where
  "pushOutcome ok b =
     (case trim_window (nc_slidingWindowSize (cb_policy b)) (cb_outcomesWindow b @ [ok]) of
        None \<Rightarrow> None | Some w \<Rightarrow> Some (b\<lparr>cb_outcomesWindow := w\<rparr>))"

definition tripOpen :: "int \<Rightarrow> breaker \<Rightarrow> breaker" where
  "tripOpen now b = b\<lparr>cb_status := OPEN, cb_openedAt := now, cb_halfOpenInFlight := 0,
     cb_halfOpenSuccesses := 0, cb_outcomesWindow := []\<rparr>"

definition onSuccess :: "breaker \<Rightarrow> breaker option" where
  "onSuccess b =
     (if cb_status b = HALF_OPEN then
        (let b' = b\<lparr>cb_halfOpenInFlight := max 0 (cb_halfOpenInFlight b - 1),
                    cb_halfOpenSuccesses := cb_halfOpenSuccesses b + 1\<rparr>
         in Some (if cb_halfOpenSuccesses b' \<ge> nc_halfOpenMaxCalls (cb_policy b')
                  then breaker_reset b' else b'))
      else pushOutcome True b)"

definition failures :: "bool list \<Rightarrow> int" where
  "failures w = int (length (filter (\<lambda>ok. \<not> ok) w))"

definition onFailure :: "int \<Rightarrow> breaker \<Rightarrow> breaker option" where
  "onFailure now b =
     (if cb_status b = HALF_OPEN then Some (tripOpen now b)
      else (case pushOutcome False b of
              None \<Rightarrow> None
            | Some b' \<Rightarrow> Some (if failures (cb_outcomesWindow b') \<ge> nc_failureThreshold (cb_policy b')
                               then tripOpen now b' else b')))"

text \<open>The part of \<open>execute\<close> before the protected call: a rejection or an admission.\<close>

definition breaker_admit :: "int \<Rightarrow> breaker \<Rightarrow> js_error option \<times> breaker" where
  "breaker_admit now b =
     (if \<not> nc_enabled (cb_policy b) then (None, b)
      else (let b' = evaluateTimerTransition now b in
        case cb_status b' of
          OPEN \<Rightarrow> (Some (CircuitOpenError (cb_key b')
                     (of_int (nc_openDurationMs (cb_policy b') - (now - cb_openedAt b')))), b')
        | HALF_OPEN \<Rightarrow>
            if cb_halfOpenInFlight b' \<ge> nc_halfOpenMaxCalls (cb_policy b')
            then (Some (CircuitOpenError (cb_key b') (of_int (nc_openDurationMs (cb_policy b')))), b')
            else (None, b'\<lparr>cb_halfOpenInFlight := cb_halfOpenInFlight b' + 1\<rparr>)
        | CLOSED \<Rightarrow> (None, b')))"

datatype call_outcome = Succeeded | FailedValidation | FailedOther

definition outcome_of :: "js_error + 'a \<Rightarrow> call_outcome" where
  "outcome_of r = (case r of Inr _ \<Rightarrow> Succeeded
     | Inl e \<Rightarrow> if is_validation_error e then FailedValidation else FailedOther)"

text \<open>The part after it; a call admitted by a disabled policy settles nothing.\<close>

definition breaker_settle :: "int \<Rightarrow> call_outcome \<Rightarrow> breaker \<Rightarrow> breaker option" where
  "breaker_settle now r b =
     (case r of
        Succeeded \<Rightarrow> onSuccess b
      | FailedOther \<Rightarrow> onFailure now b
      | FailedValidation \<Rightarrow>
          Some (if cb_status b = HALF_OPEN
                then b\<lparr>cb_halfOpenInFlight := max 0 (cb_halfOpenInFlight b - 1)\<rparr> else b))"

text \<open>\<open>execute\<close> without interleaving, around a call on an outside state read by the clock.\<close>

definition breaker_execute ::
  "('u \<Rightarrow> int) \<Rightarrow> ('u \<Rightarrow> (js_error + 'a) \<times> 'u) \<Rightarrow> breaker \<Rightarrow> 'u \<Rightarrow> ((js_error + 'a) \<times> breaker \<times> 'u) option"
where
  "breaker_execute now fn b u =
     (if \<not> nc_enabled (cb_policy b) then (case fn u of (r, u') \<Rightarrow> Some (r, b, u'))
      else (case breaker_admit (now u) b of
              (Some e, b') \<Rightarrow> Some (Inl e, b', u)
            | (None, b') \<Rightarrow>
                (case fn u of (r, u') \<Rightarrow>
                   (case breaker_settle (now u') (outcome_of r) b' of
                      None \<Rightarrow> None | Some b'' \<Rightarrow> Some (r, b'', u')))))"

section \<open>The manager\<close>

type_synonym breakers = "breaker dict"

definition getOrCreate :: "norm_breaker \<Rightarrow> breakers \<Rightarrow> breaker \<times> breakers" where
  "getOrCreate policy bs =
     (case map_of bs (nc_key policy) of
        None \<Rightarrow> (let b = new_breaker policy in (b, AList.update (nc_key policy) b bs))
      | Some b0 \<Rightarrow> (let b = updatePolicy policy b0 in (b, AList.update (nc_key policy) b bs)))"

definition manager_getStatus :: "int \<Rightarrow> string \<Rightarrow> breakers \<Rightarrow> circuit_status \<times> breakers" where
  "manager_getStatus now key bs =
     (case map_of bs key of
        None \<Rightarrow> (CLOSED, bs)
      | Some b \<Rightarrow> (case breaker_getStatus now b of (s, b') \<Rightarrow> (s, AList.update key b' bs)))"

definition manager_reset :: "string option \<Rightarrow> breakers \<Rightarrow> breakers" where
  "manager_reset key bs =
     (case truthy key of
        Some k \<Rightarrow> (case map_of bs k of None \<Rightarrow> bs | Some b \<Rightarrow> AList.update k (breaker_reset b) bs)
      | None \<Rightarrow> map (\<lambda>(k, b). (k, breaker_reset b)) bs)"

section \<open>The window\<close>

declare trim_window.simps [code]

lemma trim_window_ok:
  "0 \<le> cap \<Longrightarrow> trim_window cap w = Some (drop (length w - nat cap) w)"
proof (induction "length w" arbitrary: w)
  case 0
  then show ?case by (subst trim_window.simps) simp
next
  case (Suc n)
  then obtain x xs where w: "w = x # xs" "length xs = n" by (cases w) auto
  show ?case
  proof (cases "int (length w) > cap")
    case True
    then have "length w - nat cap = Suc (length xs - nat cap)" using w Suc.prems by (simp add: Suc_diff_le)
    moreover have "trim_window cap w = trim_window cap xs"
      using True w(1) by (subst trim_window.simps) simp
    moreover have "trim_window cap xs = Some (drop (length xs - nat cap) xs)"
      using Suc.hyps(1) [of xs] Suc.prems w(2) by simp
    ultimately show ?thesis using w(1) by simp
  next
    case False
    then show ?thesis by (subst trim_window.simps) simp
  qed
qed

text \<open>With a negative window size the loop never ends.\<close>

lemma trim_window_raw: "trim_window cap w = Some r \<Longrightarrow> int (length r) \<le> cap"
  by (rule trim_window.raw_induct [where P = "\<lambda>c w r. int (length r) \<le> c"]) (auto split: if_splits)

lemma trim_window_diverges: "cap < 0 \<Longrightarrow> trim_window cap w = None"
  using trim_window_raw by (cases "trim_window cap w") fastforce+

lemma pushOutcome_ok:
  "0 \<le> nc_slidingWindowSize (cb_policy b) \<Longrightarrow>
     pushOutcome ok b = Some (b\<lparr>cb_outcomesWindow :=
       drop (Suc (length (cb_outcomesWindow b)) - nat (nc_slidingWindowSize (cb_policy b)))
         (cb_outcomesWindow b @ [ok])\<rparr>)"
  by (simp add: pushOutcome_def trim_window_ok)

lemma failures_nonneg [simp]: "0 \<le> failures w"
  by (simp add: failures_def)

lemma failures_drop: "failures (drop n w) \<le> failures w"
proof -
  have "failures w = failures (take n w) + failures (drop n w)"
    unfolding failures_def by (metis append_take_drop_id filter_append length_append of_nat_add)
  then show ?thesis using failures_nonneg [of "take n w"] by linarith
qed

lemma failures_snoc: "failures (w @ [ok]) = failures w + (if ok then 0 else 1)"
  by (simp add: failures_def)

lemma failures_le: "failures w \<le> int (length w)"
  by (simp add: failures_def)

section \<open>Invariant\<close>

definition policy_ok :: "norm_breaker \<Rightarrow> bool" where
  "policy_ok p \<longleftrightarrow> nc_enabled p \<and> 1 \<le> nc_failureThreshold p \<and> 0 \<le> nc_slidingWindowSize p \<and>
     1 \<le> nc_halfOpenMaxCalls p"

definition breaker_inv :: "breaker \<Rightarrow> bool" where
  "breaker_inv b \<longleftrightarrow> policy_ok (cb_policy b) \<and>
     int (length (cb_outcomesWindow b)) \<le> nc_slidingWindowSize (cb_policy b) \<and>
     failures (cb_outcomesWindow b) < nc_failureThreshold (cb_policy b) \<and>
     0 \<le> cb_halfOpenInFlight b \<and> 0 \<le> cb_halfOpenSuccesses b \<and>
     (cb_status b = HALF_OPEN \<longrightarrow>
        cb_halfOpenSuccesses b < nc_halfOpenMaxCalls (cb_policy b) \<and>
        cb_halfOpenInFlight b \<le> nc_halfOpenMaxCalls (cb_policy b)) \<and>
     (cb_status b \<noteq> HALF_OPEN \<longrightarrow> cb_halfOpenInFlight b = 0 \<and> cb_halfOpenSuccesses b = 0) \<and>
     (cb_status b \<noteq> CLOSED \<longrightarrow> cb_outcomesWindow b = [])"

lemmas breaker_op_defs = breaker_inv_def policy_ok_def breaker_reset_def tripOpen_def
  evaluateTimerTransition_def failures_def

lemma new_breaker_inv: "policy_ok p \<Longrightarrow> breaker_inv (new_breaker p)"
  by (simp add: new_breaker_def breaker_op_defs)

lemma evaluate_inv: "breaker_inv b \<Longrightarrow> breaker_inv (evaluateTimerTransition now b)"
  by (auto simp: breaker_op_defs)

lemma reset_inv: "breaker_inv b \<Longrightarrow> breaker_inv (breaker_reset b)"
  by (auto simp: breaker_op_defs)

lemma trip_inv: "policy_ok (cb_policy b) \<Longrightarrow> breaker_inv (tripOpen now b)"
  by (auto simp: breaker_op_defs)

lemma evaluate_policy [simp]: "cb_policy (evaluateTimerTransition now b) = cb_policy b"
  by (simp add: evaluateTimerTransition_def)

lemma admit_inv:
  assumes "breaker_inv b"
  shows "breaker_inv (snd (breaker_admit now b))" "cb_policy (snd (breaker_admit now b)) = cb_policy b"
proof -
  have i: "breaker_inv (evaluateTimerTransition now b)" by (rule evaluate_inv [OF assms])
  then show "breaker_inv (snd (breaker_admit now b))"
    using assms by (auto simp: breaker_admit_def Let_def breaker_inv_def split: circuit_status.splits)
  show "cb_policy (snd (breaker_admit now b)) = cb_policy b"
    by (auto simp: breaker_admit_def Let_def split: circuit_status.splits)
qed

text \<open>
  A late outcome may arrive in any status: a call admitted before the breaker opened. Outside
  \<open>HALF_OPEN\<close> it is pushed to the window also when the breaker is open, so the open breaker's window
  is empty only until then; the invariant is kept when the breaker is not open.
\<close>

lemma push_inv:
  assumes "breaker_inv b" "cb_status b = CLOSED"
  shows "\<exists>w. pushOutcome ok b = Some (b\<lparr>cb_outcomesWindow := w\<rparr>) \<and>
    int (length w) \<le> nc_slidingWindowSize (cb_policy b) \<and>
    failures w \<le> failures (cb_outcomesWindow b) + (if ok then 0 else 1)"
proof -
  let ?n = "Suc (length (cb_outcomesWindow b)) - nat (nc_slidingWindowSize (cb_policy b))"
  let ?w = "drop ?n (cb_outcomesWindow b @ [ok])"
  have s: "0 \<le> nc_slidingWindowSize (cb_policy b)" using assms(1) by (simp add: breaker_inv_def policy_ok_def)
  have "int (length ?w) \<le> nc_slidingWindowSize (cb_policy b)" using s by (simp add: nat_le_iff)
  moreover have "failures ?w \<le> failures (cb_outcomesWindow b) + (if ok then 0 else 1)"
    using failures_drop [of ?n "cb_outcomesWindow b @ [ok]"] failures_snoc by simp
  ultimately show ?thesis using pushOutcome_ok [OF s] by blast
qed

lemma settle_inv:
  assumes "breaker_inv b" "cb_status b \<noteq> OPEN"
  shows "\<exists>b'. breaker_settle now r b = Some b' \<and> breaker_inv b' \<and> cb_policy b' = cb_policy b"
proof (cases "cb_status b")
  case CLOSED
  from push_inv [OF assms(1) CLOSED, of True] obtain wt where
    t: "pushOutcome True b = Some (b\<lparr>cb_outcomesWindow := wt\<rparr>)"
    "int (length wt) \<le> nc_slidingWindowSize (cb_policy b)"
    "failures wt \<le> failures (cb_outcomesWindow b)"
    by auto
  from push_inv [OF assms(1) CLOSED, of False] obtain wf where
    f: "pushOutcome False b = Some (b\<lparr>cb_outcomesWindow := wf\<rparr>)"
    "int (length wf) \<le> nc_slidingWindowSize (cb_policy b)"
    by auto
  have p: "policy_ok (cb_policy b)" using assms(1) by (simp add: breaker_inv_def)
  show ?thesis
  proof (cases r)
    case Succeeded
    have "breaker_inv (b\<lparr>cb_outcomesWindow := wt\<rparr>)"
      using assms(1) CLOSED t by (simp add: breaker_inv_def)
    then show ?thesis using Succeeded CLOSED t(1) by (simp add: breaker_settle_def onSuccess_def)
  next
    case FailedValidation
    then show ?thesis using CLOSED assms(1) by (simp add: breaker_settle_def)
  next
    case FailedOther
    show ?thesis
    proof (cases "failures wf \<ge> nc_failureThreshold (cb_policy b)")
      case True
      have "breaker_inv (tripOpen now (b\<lparr>cb_outcomesWindow := wf\<rparr>))"
        using p by (intro trip_inv) simp
      then show ?thesis
        using FailedOther CLOSED f(1) True by (simp add: breaker_settle_def onFailure_def tripOpen_def)
    next
      case False
      then have "breaker_inv (b\<lparr>cb_outcomesWindow := wf\<rparr>)"
        using assms(1) CLOSED f by (simp add: breaker_inv_def)
      then show ?thesis
        using FailedOther CLOSED f(1) False by (simp add: breaker_settle_def onFailure_def)
    qed
  qed
next
  case HALF_OPEN
  then show ?thesis
    using assms(1) trip_inv [of b now]
    by (cases r) (auto simp: breaker_settle_def onSuccess_def onFailure_def Let_def breaker_op_defs)
qed (use assms(2) in simp)

lemma admit_not_open: "breaker_admit now b = (None, b') \<Longrightarrow> nc_enabled (cb_policy b) \<Longrightarrow> cb_status b' \<noteq> OPEN"
  by (auto simp: breaker_admit_def Let_def split: circuit_status.splits if_splits)

lemma execute_inv:
  assumes "breaker_inv b"
  shows "\<exists>r b' u'. breaker_execute now fn b u = Some (r, b', u') \<and> breaker_inv b' \<and>
    cb_policy b' = cb_policy b"
proof -
  have e: "nc_enabled (cb_policy b)" using assms by (simp add: breaker_inv_def policy_ok_def)
  obtain eo b1 where a: "breaker_admit (now u) b = (eo, b1)" by (cases "breaker_admit (now u) b")
  from admit_inv [OF assms, of "now u"] a have b1: "breaker_inv b1" "cb_policy b1 = cb_policy b" by auto
  show ?thesis
  proof (cases eo)
    case None
    obtain r u' where f: "fn u = (r, u')" by (cases "fn u")
    have "cb_status b1 \<noteq> OPEN" using admit_not_open a None e by blast
    from settle_inv [OF b1(1) this, of "now u'" "outcome_of r"] obtain b2 where
      "breaker_settle (now u') (outcome_of r) b1 = Some b2" "breaker_inv b2" "cb_policy b2 = cb_policy b1"
      by auto
    then show ?thesis using a None f e b1 by (simp add: breaker_execute_def)
  next
    case (Some er)
    then show ?thesis using a e b1 by (simp add: breaker_execute_def)
  qed
qed

section \<open>Behaviour\<close>

lemma open_rejects:
  assumes "nc_enabled (cb_policy b)" "cb_status b = OPEN"
    "now u - cb_openedAt b < nc_openDurationMs (cb_policy b)"
  shows "breaker_execute now fn b u =
    Some (Inl (CircuitOpenError (cb_key b)
      (of_int (nc_openDurationMs (cb_policy b) - (now u - cb_openedAt b)))), b, u)"
  using assms by (simp add: breaker_execute_def breaker_admit_def evaluateTimerTransition_def Let_def)

lemma half_open_trial:
  assumes "policy_ok (cb_policy b)" "cb_status b = OPEN"
    "now u - cb_openedAt b \<ge> nc_openDurationMs (cb_policy b)"
    "fn u = (Inl e, u')" "\<not> is_validation_error e"
  shows "\<exists>b'. breaker_execute now fn b u = Some (Inl e, b', u') \<and> cb_status b' = OPEN \<and>
    cb_openedAt b' = now u'"
  using assms
  by (simp add: breaker_execute_def breaker_admit_def evaluateTimerTransition_def Let_def policy_ok_def
      breaker_settle_def outcome_of_def onFailure_def tripOpen_def)

text \<open>Consecutive failing calls: the breaker opens at the call that reaches the threshold.\<close>

fun run_outcomes :: "int \<Rightarrow> call_outcome list \<Rightarrow> breaker \<Rightarrow> breaker option" where
  "run_outcomes now [] b = Some b"
| "run_outcomes now (r # rs) b =
     (case breaker_settle now r b of None \<Rightarrow> None | Some b' \<Rightarrow> run_outcomes now rs b')"

lemma failure_run:
  assumes "policy_ok (cb_policy b)" "cb_status b = CLOSED" "cb_outcomesWindow b = replicate k False"
    "k + n < nat (nc_failureThreshold (cb_policy b))"
    "nc_failureThreshold (cb_policy b) \<le> nc_slidingWindowSize (cb_policy b)"
  shows "run_outcomes now (replicate n FailedOther) b = Some (b\<lparr>cb_outcomesWindow := replicate (k + n) False\<rparr>)"
  using assms
proof (induction n arbitrary: k b)
  case (Suc n)
  let ?b = "b\<lparr>cb_outcomesWindow := replicate (Suc k) False\<rparr>"
  have s: "0 \<le> nc_slidingWindowSize (cb_policy b)" using Suc.prems(1) by (simp add: policy_ok_def)
  have "Suc k \<le> nat (nc_slidingWindowSize (cb_policy b))" using Suc.prems(4,5) by linarith
  then have "pushOutcome False b = Some ?b"
    using pushOutcome_ok [OF s, of False] Suc.prems(3) by (simp add: replicate_append_same)
  moreover have "failures (replicate (Suc k) False) < nc_failureThreshold (cb_policy b)"
    using Suc.prems(4) by (simp add: failures_def)
  ultimately have "breaker_settle now FailedOther b = Some ?b"
    using Suc.prems(2) by (simp add: breaker_settle_def onFailure_def)
  moreover have "run_outcomes now (replicate n FailedOther) ?b =
      Some (?b\<lparr>cb_outcomesWindow := replicate (Suc k + n) False\<rparr>)"
    using Suc.prems by (intro Suc.IH) simp_all
  ultimately show ?case by simp
qed simp

lemma threshold_opens:
  assumes "policy_ok (cb_policy b)" "cb_status b = CLOSED" "cb_outcomesWindow b = []"
    "nc_failureThreshold (cb_policy b) \<le> nc_slidingWindowSize (cb_policy b)"
    "n = nat (nc_failureThreshold (cb_policy b))"
  shows "\<exists>b'. run_outcomes now (replicate n FailedOther) b = Some b' \<and> cb_status b' = OPEN \<and>
    cb_openedAt b' = now"
proof -
  have "0 < n" using assms(1,5) by (simp add: policy_ok_def)
  then obtain k where n: "n = Suc k" by (cases n) simp_all
  let ?b = "b\<lparr>cb_outcomesWindow := replicate k False\<rparr>"
  let ?w = "b\<lparr>cb_outcomesWindow := replicate n False\<rparr>"
  have r: "run_outcomes now (replicate k FailedOther) b = Some ?b"
    using failure_run [of b 0 k now] assms n by simp
  have s: "0 \<le> nc_slidingWindowSize (cb_policy b)" using assms(1) by (simp add: policy_ok_def)
  have "Suc k \<le> nat (nc_slidingWindowSize (cb_policy b))" using assms(4,5) n by linarith
  then have "pushOutcome False ?b = Some ?w"
    using pushOutcome_ok [of ?b False] s n by (simp add: replicate_append_same)
  moreover have "failures (replicate n False) \<ge> nc_failureThreshold (cb_policy b)"
    using assms(5) by (simp add: failures_def)
  ultimately have l: "breaker_settle now FailedOther ?b = Some (tripOpen now ?w)"
    using assms(2) by (simp add: breaker_settle_def onFailure_def)
  have app: "run_outcomes now (xs @ ys) c =
      (case run_outcomes now xs c of None \<Rightarrow> None | Some c' \<Rightarrow> run_outcomes now ys c')" for xs ys c
    by (induction xs arbitrary: c) (auto split: option.splits)
  have "run_outcomes now (replicate k FailedOther @ [FailedOther]) b = Some (tripOpen now ?w)"
    unfolding app r using l by simp
  moreover have "replicate n FailedOther = replicate k FailedOther @ [FailedOther]"
    by (simp add: n replicate_append_same)
  ultimately show ?thesis by (simp add: tripOpen_def)
qed

text \<open>A threshold above the window size is never reached.\<close>

lemma small_window_settle:
  assumes "0 \<le> nc_slidingWindowSize (cb_policy b)"
    "nc_slidingWindowSize (cb_policy b) < nc_failureThreshold (cb_policy b)" "cb_status b = CLOSED"
    "breaker_settle now r b = Some b'"
  shows "cb_status b' = CLOSED \<and> cb_policy b' = cb_policy b"
proof -
  let ?n = "Suc (length (cb_outcomesWindow b)) - nat (nc_slidingWindowSize (cb_policy b))"
  have "failures (drop ?n (cb_outcomesWindow b @ [False])) < nc_failureThreshold (cb_policy b)"
  proof -
    have "int (length (drop ?n (cb_outcomesWindow b @ [False]))) \<le> nc_slidingWindowSize (cb_policy b)"
      using assms(1) by simp
    then show ?thesis using failures_le [of "drop ?n (cb_outcomesWindow b @ [False])"] assms(2) by linarith
  qed
  then show ?thesis
    using assms(3,4) pushOutcome_ok [OF assms(1)]
    by (auto simp: breaker_settle_def onSuccess_def onFailure_def split: call_outcome.splits)
qed

lemma small_window_never_opens:
  assumes "0 \<le> nc_slidingWindowSize (cb_policy b)"
    "nc_slidingWindowSize (cb_policy b) < nc_failureThreshold (cb_policy b)" "cb_status b = CLOSED"
    "run_outcomes now rs b = Some b'"
  shows "cb_status b' = CLOSED"
  using assms
proof (induction now rs b rule: run_outcomes.induct)
  case (2 now r rs b)
  then obtain b1 where b1: "breaker_settle now r b = Some b1" "run_outcomes now rs b1 = Some b'"
    by (auto split: option.splits)
  from small_window_settle [OF "2.prems"(1-3) b1(1)] show ?case
    using "2.IH" [OF b1(1) _ _ _ b1(2)] "2.prems" by simp
qed simp

section \<open>Recovery\<close>

text \<open>A number of calls, one after the other: the answers, the breaker and the world after them.\<close>

fun execute_repeatedly ::
  "nat \<Rightarrow> ('u \<Rightarrow> int) \<Rightarrow> ('u \<Rightarrow> (js_error + 'a) \<times> 'u) \<Rightarrow> breaker \<Rightarrow> 'u \<Rightarrow>
     ((js_error + 'a) list \<times> breaker \<times> 'u) option"
where
  "execute_repeatedly 0 now fn b u = Some ([], b, u)"
| "execute_repeatedly (Suc n) now fn b u =
     (case breaker_execute now fn b u of None \<Rightarrow> None
      | Some (r, b', u') \<Rightarrow>
          (case execute_repeatedly n now fn b' u' of None \<Rightarrow> None
           | Some (rs, b'', u'') \<Rightarrow> Some (r # rs, b'', u'')))"

text \<open>
  How many successful calls a breaker still needs to close, when no other call is running and an
  open one is past its time.
\<close>

definition trials_left :: "breaker \<Rightarrow> nat" where
  "trials_left b = (case cb_status b of CLOSED \<Rightarrow> 0
     | OPEN \<Rightarrow> nat (nc_halfOpenMaxCalls (cb_policy b))
     | HALF_OPEN \<Rightarrow> nat (nc_halfOpenMaxCalls (cb_policy b) - cb_halfOpenSuccesses b))"

definition recovering :: "int \<Rightarrow> breaker \<Rightarrow> bool" where
  "recovering t b \<longleftrightarrow> policy_ok (cb_policy b) \<and>
     (cb_status b = OPEN \<longrightarrow> t - cb_openedAt b \<ge> nc_openDurationMs (cb_policy b)) \<and>
     (cb_status b = HALF_OPEN \<longrightarrow> cb_halfOpenInFlight b = 0)"

lemma success_progress:
  assumes "recovering (now u) b" "fn u = (Inr x, u')"
  shows "\<exists>b'. breaker_execute now fn b u = Some (Inr x, b', u') \<and> recovering t b' \<and>
    cb_status b' \<noteq> OPEN \<and> cb_policy b' = cb_policy b \<and> trials_left b' = trials_left b - 1 \<and>
    (trials_left b' = 0 \<longrightarrow> cb_status b' = CLOSED)"
proof (cases "cb_status b")
  case CLOSED
  have s: "0 \<le> nc_slidingWindowSize (cb_policy b)"
    using assms(1) by (simp add: recovering_def policy_ok_def)
  show ?thesis
    using assms CLOSED pushOutcome_ok [OF s, of True]
    by (simp add: breaker_execute_def breaker_admit_def evaluateTimerTransition_def breaker_settle_def
        outcome_of_def onSuccess_def trials_left_def recovering_def)
next
  case OPEN
  then show ?thesis
    using assms
    by (auto simp: breaker_execute_def breaker_admit_def evaluateTimerTransition_def breaker_settle_def
        outcome_of_def onSuccess_def trials_left_def recovering_def Let_def breaker_reset_def policy_ok_def)
next
  case HALF_OPEN
  then show ?thesis
    using assms
    by (auto simp: breaker_execute_def breaker_admit_def evaluateTimerTransition_def breaker_settle_def
        outcome_of_def onSuccess_def trials_left_def recovering_def Let_def breaker_reset_def policy_ok_def)
qed

lemma successes_close:
  assumes "recovering (now u) b" "\<And>u. \<exists>x u'. fn u = (Inr x, u')" "trials_left b \<le> n"
    "0 < n \<or> cb_status b = CLOSED"
  shows "\<exists>rs b' u'. execute_repeatedly n now fn b u = Some (rs, b', u') \<and> length rs = n \<and>
    (\<forall>r \<in> set rs. \<exists>x. r = Inr x) \<and> cb_status b' = CLOSED"
  using assms
proof (induction n arbitrary: b u)
  case 0
  then show ?case by simp
next
  case (Suc n)
  obtain x u' where f: "fn u = (Inr x, u')" using Suc.prems(2) by blast
  from success_progress [where now = now and b = b and u = u and fn = fn, OF Suc.prems(1) f, of "now u'"] obtain b' where
    b': "breaker_execute now fn b u = Some (Inr x, b', u')" "recovering (now u') b'"
      "trials_left b' = trials_left b - 1" "trials_left b' = 0 \<longrightarrow> cb_status b' = CLOSED"
    by (elim exE conjE) (rule that)
  have "trials_left b' \<le> n" "0 < n \<or> cb_status b' = CLOSED"
    using b'(3,4) Suc.prems(3) by auto
  from Suc.IH [where b = b' and u = u', OF b'(2) Suc.prems(2) this] b'(1) show ?case by auto
qed

lemma healthy_calls_close:
  assumes "breaker_inv b" "cb_status b = OPEN \<longrightarrow> now u - cb_openedAt b \<ge> nc_openDurationMs (cb_policy b)"
    "cb_status b = HALF_OPEN \<longrightarrow> cb_halfOpenInFlight b = 0" "\<And>u. \<exists>x u'. fn u = (Inr x, u')"
    "nat (nc_halfOpenMaxCalls (cb_policy b)) \<le> n"
  shows "\<exists>rs b' u'. execute_repeatedly n now fn b u = Some (rs, b', u') \<and> length rs = n \<and>
    (\<forall>r \<in> set rs. \<exists>x. r = Inr x) \<and> cb_status b' = CLOSED"
proof (rule successes_close [where now = now and b = b and u = u])
  show "\<And>u. \<exists>x u'. fn u = (Inr x, u')" by (rule assms(4))
  show "recovering (now u) b" using assms(1-3) by (simp add: recovering_def breaker_inv_def)
  show "trials_left b \<le> n" "0 < n \<or> cb_status b = CLOSED"
    using assms(1,5) by (auto simp: trials_left_def breaker_inv_def policy_ok_def split: circuit_status.splits)
qed
section \<open>Interleaved calls\<close>

text \<open>
  Breaker, clock, and the admitted calls still running, each marked when it was admitted as a trial
  of a half-open breaker.
\<close>

type_synonym breaker_system = "breaker \<times> int \<times> bool list"

definition drop_nth :: "nat \<Rightarrow> 'a list \<Rightarrow> 'a list" where
  "drop_nth i xs = take i xs @ drop (Suc i) xs"

inductive breaker_step :: "breaker_system \<Rightarrow> breaker_system \<Rightarrow> bool" where
  Tick: "0 \<le> d \<Longrightarrow> breaker_step (b, t, ps) (b, t + d, ps)"
| Admit: "breaker_admit t b = (None, b') \<Longrightarrow>
    breaker_step (b, t, ps) (b', t, (cb_status b' = HALF_OPEN) # ps)"
| Reject: "breaker_admit t b = (Some e, b') \<Longrightarrow> breaker_step (b, t, ps) (b', t, ps)"
| Settle: "i < length ps \<Longrightarrow> breaker_settle t r b = Some b' \<Longrightarrow>
    breaker_step (b, t, ps) (b', t, drop_nth i ps)"

inductive_cases breaker_stepE: "breaker_step s s'"

definition breaker_reach :: "norm_breaker \<Rightarrow> breaker_system \<Rightarrow> bool" where
  "breaker_reach p s \<longleftrightarrow> breaker_step\<^sup>*\<^sup>* (new_breaker p, 0, []) s"

definition breaker_bounds :: "norm_breaker \<Rightarrow> breaker \<Rightarrow> bool" where
  "breaker_bounds p b \<longleftrightarrow> cb_policy b = p \<and>
     int (length (cb_outcomesWindow b)) \<le> nc_slidingWindowSize p \<and>
     0 \<le> cb_halfOpenInFlight b \<and> cb_halfOpenInFlight b \<le> nc_halfOpenMaxCalls p \<and>
     0 \<le> cb_halfOpenSuccesses b \<and> cb_halfOpenSuccesses b < nc_halfOpenMaxCalls p"

lemma bounds_admit:
  "policy_ok p \<Longrightarrow> breaker_bounds p b \<Longrightarrow> breaker_bounds p (snd (breaker_admit t b))"
  by (auto simp: breaker_admit_def breaker_bounds_def evaluateTimerTransition_def Let_def policy_ok_def
      split: circuit_status.splits)

lemma bounds_push:
  assumes "policy_ok p" "breaker_bounds p b" "pushOutcome ok b = Some b'"
  shows "breaker_bounds p b'"
proof -
  have s: "0 \<le> nc_slidingWindowSize (cb_policy b)" "cb_policy b = p"
    using assms(1,2) by (auto simp: policy_ok_def breaker_bounds_def)
  then show ?thesis using assms(2) pushOutcome_ok [OF s(1), of ok] assms(3)
    by (auto simp: breaker_bounds_def)
qed

lemma bounds_trip: "policy_ok p \<Longrightarrow> breaker_bounds p b \<Longrightarrow> breaker_bounds p (tripOpen t b)"
  by (simp add: breaker_bounds_def tripOpen_def policy_ok_def)

lemma bounds_settle:
  assumes "policy_ok p" "breaker_bounds p b" "breaker_settle t r b = Some b'"
  shows "breaker_bounds p b'"
proof (cases r)
  case Succeeded
  show ?thesis
  proof (cases "cb_status b = HALF_OPEN")
    case True
    then show ?thesis using assms Succeeded
      by (auto simp: breaker_settle_def onSuccess_def breaker_bounds_def Let_def breaker_reset_def
          policy_ok_def)
  next
    case False
    then show ?thesis using assms Succeeded bounds_push [OF assms(1,2)]
      by (simp add: breaker_settle_def onSuccess_def)
  qed
next
  case FailedValidation
  then show ?thesis using assms by (auto simp: breaker_settle_def breaker_bounds_def)
next
  case FailedOther
  show ?thesis
  proof (cases "cb_status b = HALF_OPEN")
    case True
    then show ?thesis using assms FailedOther bounds_trip by (auto simp: breaker_settle_def onFailure_def)
  next
    case False
    then obtain b1 where b1: "pushOutcome False b = Some b1"
      using assms(3) FailedOther by (auto simp: breaker_settle_def onFailure_def split: option.splits)
    have i: "breaker_bounds p b1" by (rule bounds_push [OF assms(1,2) b1])
    from i bounds_trip [OF assms(1) i] show ?thesis
      using assms(3) FailedOther False b1
      by (auto simp: breaker_settle_def onFailure_def split: if_splits)
  qed
qed

lemma breaker_reach_bounds:
  assumes "policy_ok p" "breaker_reach p (b, t, ps)"
  shows "breaker_bounds p b"
  using assms(2) unfolding breaker_reach_def
proof (induction "(b, t, ps)" arbitrary: b t ps rule: rtranclp_induct)
  case base
  then show ?case using assms(1) by (simp add: breaker_bounds_def new_breaker_def policy_ok_def)
next
  case (step s)
  obtain b0 t0 ps0 where s: "s = (b0, t0, ps0)" by (cases s)
  have "breaker_bounds p b0" using step.hyps(3) s by blast
  with step.hyps(2) s show ?case
    using bounds_admit [OF assms(1), of b0 t0] bounds_settle [OF assms(1)]
    by (auto elim!: breaker_stepE)
qed

end
