(* ===== verification/Pipeline.thy ===== *)
theory Pipeline
  imports Merger CircuitBreaker
begin

text \<open>
  Validation (\<^verbatim>\<open>validation.ts\<close>), the retry loop with back-off (\<^verbatim>\<open>policy/retry.ts\<close>) and the decorated
  transition pipeline of \<^verbatim>\<open>policy/pipeline.ts\<close>: the user function inside a retry loop inside a circuit
  breaker inside the fallback. The outside world of user code, clock and random numbers is a value
  of type \<open>'u\<close> that every call may change. Contexts and inputs are JSON values, so the clone a handler
  works on is a value of its own; a handler returns its output together with the \<open>data\<close> it left in its
  request. The property \<open>__dfsmAttempts\<close> that the retry loop writes on a thrown object is the second
  component of a thrown error.
\<close>

section \<open>Validators\<close>

record validation_issue =
  vi_path :: "string option"
  vi_message :: string

text \<open>Validators of contexts work on JSON values, validators of inputs on optional ones (\<open>undefined\<close>).\<close>

type_synonym 'a schema_validator = "'a \<Rightarrow> validation_issue list + 'a"

record parse_issue =
  pi_path :: "string list option"
  pi_message :: string

datatype 'a safe_parse_result =
    ParseOk 'a
  | ParseError "parse_issue list option" "string option"

definition zodValidator :: "('a \<Rightarrow> 'a safe_parse_result) \<Rightarrow> 'a schema_validator" where
  "zodValidator safeParse value =
     (case safeParse value of
        ParseOk d \<Rightarrow> Inr d
      | ParseError (Some issues) _ \<Rightarrow>
          Inl (map (\<lambda>i. \<lparr>vi_path = Some (case pi_path i of Some p \<Rightarrow> join dot p | None \<Rightarrow> []),
                        vi_message = pi_message i\<rparr>) issues)
      | ParseError None m \<Rightarrow>
          Inl [\<lparr>vi_path = None, vi_message = or_else m ''Schema validation failed''\<rparr>])"

datatype 'a custom_result =
    Verdict bool "'a option" "string list option"
  | PlainResult 'a

text \<open>\<open>nullish\<close> tells the values that \<open>??\<close> replaces.\<close>

definition customValidator ::
  "('a \<Rightarrow> bool) \<Rightarrow> ('a \<Rightarrow> js_error + 'a custom_result) \<Rightarrow> 'a schema_validator" where
  "customValidator nullish fn value =
     (case fn value of
        Inl e \<Rightarrow> Inl [\<lparr>vi_path = None, vi_message = error_message e\<rparr>]
      | Inr (PlainResult d) \<Rightarrow> Inr d
      | Inr (Verdict True d _) \<Rightarrow>
          Inr (case d of Some d' \<Rightarrow> if nullish d' then value else d' | None \<Rightarrow> value)
      | Inr (Verdict False _ errs) \<Rightarrow>
          Inl (map (\<lambda>m. \<lparr>vi_path = None, vi_message = m\<rparr>) (or_else errs [''Validation failed''])))"

datatype 'a validator_input =
    SchemaV "'a \<Rightarrow> validation_issue list + 'a"
  | SafeParseV "'a \<Rightarrow> 'a safe_parse_result"

definition toSchemaValidator :: "'a validator_input option \<Rightarrow> 'a schema_validator option" where
  "toSchemaValidator v =
     (case v of None \<Rightarrow> None | Some (SafeParseV p) \<Rightarrow> Some (zodValidator p) | Some (SchemaV s) \<Rightarrow> Some s)"

definition issue_detail :: "validation_issue \<Rightarrow> string" where
  "issue_detail i =
     (case truthy (vi_path i) of Some p \<Rightarrow> p @ '': '' @ vi_message i | None \<Rightarrow> vi_message i)"

definition enforceValidation ::
  "validation_target \<Rightarrow> 'a \<Rightarrow> 'a schema_validator option \<Rightarrow> js_error + 'a" where
  "enforceValidation target value validator =
     (case validator of
        None \<Rightarrow> Inr value
      | Some v \<Rightarrow>
          (case v value of
             Inr d \<Rightarrow> Inr d
           | Inl issues \<Rightarrow>
               (let details = map issue_detail issues in
                Inl (ValidationError target
                  (''Validation failed for '' @ target_name target @ '': '' @ join ''; '' details)
                  details))))"

lemma enforceValidation_error:
  "enforceValidation t v s = Inl e \<Longrightarrow> is_validation_error e"
  by (auto simp: enforceValidation_def is_validation_error_def Let_def split: option.splits sum.splits)

section \<open>Back-off\<close>

text \<open>The outside world: clock, timer and random source.\<close>

record 'u world_ops =
  wo_now :: "'u \<Rightarrow> int"
  wo_sleep :: "rat \<Rightarrow> 'u \<Rightarrow> 'u"
  wo_random :: "'u \<Rightarrow> rat \<times> 'u"

definition js_round :: "rat \<Rightarrow> rat" where
  "js_round r = of_int \<lfloor>r + 1/2\<rfloor>"

definition computeBackoffDelayMs ::
  "('u \<Rightarrow> rat \<times> 'u) \<Rightarrow> int \<Rightarrow> norm_backoff \<Rightarrow> 'u \<Rightarrow> rat \<times> 'u" where
  "computeBackoffDelayMs randomFn retryIndex backoff u =
     (let initialDelayMs = nb_initialDelayMs backoff; maxDelayMs = nb_maxDelayMs backoff;
          grown = initialDelayMs * nb_multiplier backoff ^ nat (retryIndex - 1)
      in if initialDelayMs \<le> 0 \<or> maxDelayMs \<le> 0 then (0, u)
         else (let (raw, u') =
                 (case nb_strategy backoff of
                    Fixed \<Rightarrow> (initialDelayMs, u)
                  | Linear \<Rightarrow> (initialDelayMs * of_int retryIndex, u)
                  | Exponential \<Rightarrow> (grown, u)
                  | ExponentialJitter \<Rightarrow>
                      (case randomFn u of (r, u1) \<Rightarrow>
                         (min maxDelayMs grown * (1/2 + 1/2 * r), u1)))
               in (min maxDelayMs (max 0 (js_round raw)), u')))"

definition isRetryableByDefault :: "js_error \<Rightarrow> bool" where
  "isRetryableByDefault err \<longleftrightarrow> \<not> is_validation_error err \<and> \<not> is_circuit_open_error err"

section \<open>The retry loop\<close>

type_synonym thrown = "js_error \<times> int option"

definition can_retry :: "norm_retry \<Rightarrow> int \<Rightarrow> int \<Rightarrow> js_error \<Rightarrow> bool" where
  "can_retry policy maxAttempts attempt err \<longleftrightarrow>
     attempt < maxAttempts \<and> isRetryableByDefault err \<and>
     (case nr_retryIf policy of Some f \<Rightarrow> f err | None \<Rightarrow> True)"

definition backoff_pause :: "'u world_ops \<Rightarrow> norm_retry \<Rightarrow> int \<Rightarrow> 'u \<Rightarrow> 'u" where
  "backoff_pause ops policy attempt u =
     (case computeBackoffDelayMs (wo_random ops) attempt (nr_backoff policy) u of
        (delayMs, u') \<Rightarrow> if delayMs > 0 then wo_sleep ops delayMs u' else u')"

function retry_loop ::
  "'u world_ops \<Rightarrow> norm_retry \<Rightarrow> int \<Rightarrow> (int \<Rightarrow> 'u \<Rightarrow> (js_error + 'a) \<times> 'u) \<Rightarrow> int \<Rightarrow> 'u \<Rightarrow>
     (thrown + 'a \<times> int) \<times> 'u"
where
  "retry_loop ops policy maxAttempts operation attempt u =
     (case operation attempt u of
        (Inr result, u') \<Rightarrow> (Inr (result, attempt), u')
      | (Inl err, u') \<Rightarrow>
          if \<not> can_retry policy maxAttempts attempt err
          then (Inl (err, if is_object_error err then Some attempt else None), u')
          else retry_loop ops policy maxAttempts operation (attempt + 1)
                 (backoff_pause ops policy attempt u'))"
  by pat_completeness auto
termination
  by (relation "measure (\<lambda>(_, _, maxAttempts, _, attempt, _). nat (maxAttempts - attempt))")
    (auto simp: can_retry_def)

declare retry_loop.simps [simp del]

definition runWithRetryPolicy ::
  "'u world_ops \<Rightarrow> norm_retry \<Rightarrow> (int \<Rightarrow> 'u \<Rightarrow> (js_error + 'a) \<times> 'u) \<Rightarrow> 'u \<Rightarrow>
     (thrown + 'a \<times> int) \<times> 'u" where
  "runWithRetryPolicy ops policy operation u =
     retry_loop ops policy (max 1 (nr_maxAttempts policy)) operation 1 u"

section \<open>The pipeline\<close>

record exec_ctx =
  ec_transactionId :: string
  ec_machineId :: string
  ec_actorId :: string
  ec_event :: string
  ec_transitionHandlerName :: "string option"
  ec_currentState :: state_value
  ec_input :: "jval option"
  ec_contextData :: jval
  ec_startedAt :: int
  ec_metadata :: "jval dict"

datatype pipeline_outcome =
    PipeOk (po_output: transition_output) (po_nextContext: jval) (po_attempts: int)
  | PipeFail (po_error: js_error) (po_compensateRequested: bool) (po_fallbackTarget: string)
      (po_attempts: int)

text \<open>A transition handler: an error, or its output (none for a non-object) and the data it leaves.\<close>

type_synonym 'u transition_fn =
  "transition_request \<Rightarrow> 'u \<Rightarrow> (js_error + transition_output option \<times> jval) \<times> 'u"

definition handler_request :: "exec_ctx \<Rightarrow> int \<Rightarrow> transition_request" where
  "handler_request c attempt = \<lparr>tr_currentState = ec_currentState c, tr_input = ec_input c,
     tr_context = \<lparr>tc_transactionId = ec_transactionId c, tc_machineId = ec_machineId c,
       tc_actorId = ec_actorId c, tc_event = ec_event c, tc_attempt = attempt,
       tc_startedAt = ec_startedAt c, tc_data = ec_contextData c, tc_metadata = ec_metadata c\<rparr>\<rparr>"

definition userFunction_execute ::
  "'u transition_fn option \<Rightarrow> jval schema_validator option \<Rightarrow> exec_ctx \<Rightarrow> int \<Rightarrow> 'u \<Rightarrow>
     (js_error + transition_output \<times> jval) \<times> 'u" where
  "userFunction_execute fn contextValidator c attempt u =
     (case fn of
        None \<Rightarrow> (Inr (empty_output, ec_contextData c), u)
      | Some f \<Rightarrow>
          (case f (handler_request c attempt) u of
             (Inl e, u') \<Rightarrow> (Inl e, u')
           | (Inr (rawResult, data), u') \<Rightarrow>
               (let output = or_else rawResult empty_output;
                    candidateContext = or_else (to_context output) data
                in case enforceValidation Context candidateContext contextValidator of
                     Inl e \<Rightarrow> (Inl e, u')
                   | Inr validated \<Rightarrow> (Inr (output, validated), u'))))"

definition retry_execute ::
  "'u world_ops \<Rightarrow> norm_policy \<Rightarrow> 'u transition_fn option \<Rightarrow> jval schema_validator option \<Rightarrow> exec_ctx \<Rightarrow> 'u \<Rightarrow>
     (thrown + pipeline_outcome) \<times> 'u" where
  "retry_execute ops policy fn contextValidator c u =
     (case runWithRetryPolicy ops (np_retry policy) (userFunction_execute fn contextValidator c) u of
        (Inl t, u') \<Rightarrow> (Inl t, u')
      | (Inr ((output, ctx), attempts), u') \<Rightarrow> (Inr (PipeOk output ctx attempts), u'))"

text \<open>The breaker around a call that throws with an attempt count; its own rejection carries none.\<close>

definition breaker_execute_thrown ::
  "('u \<Rightarrow> int) \<Rightarrow> ('u \<Rightarrow> (thrown + 'a) \<times> 'u) \<Rightarrow> breaker \<Rightarrow> 'u \<Rightarrow> ((thrown + 'a) \<times> breaker \<times> 'u) option"
where
  "breaker_execute_thrown now fn b u =
     (let plain = (\<lambda>u. case fn u of
            (Inl (e, n), u') \<Rightarrow> (Inl e, (n, u')) | (Inr r, u') \<Rightarrow> (Inr r, (None, u')))
      in case breaker_execute (\<lambda>(_, u). now u) (\<lambda>(_, u). plain u) b (None, u) of
           None \<Rightarrow> None
         | Some (Inl e, b', (n, u')) \<Rightarrow> Some (Inl (e, n), b', u')
         | Some (Inr r, b', (_, u')) \<Rightarrow> Some (Inr r, b', u'))"

definition to_error :: "js_error \<Rightarrow> js_error" where
  "to_error err = (if is_error_instance err then err else JsError (error_message err))"

definition fallback_outcome :: "norm_policy \<Rightarrow> thrown \<Rightarrow> pipeline_outcome" where
  "fallback_outcome policy t =
     (case t of (err, attempts) \<Rightarrow>
        PipeFail (to_error err) (no_compensate (np_onFail policy))
          (if no_target (np_onFail policy) = [] then ''error'' else no_target (np_onFail policy))
          (or_else attempts 1))"

definition pipeline_execute ::
  "'u world_ops \<Rightarrow> norm_policy \<Rightarrow> 'u transition_fn option \<Rightarrow> jval schema_validator option \<Rightarrow> exec_ctx \<Rightarrow>
     breaker \<Rightarrow> 'u \<Rightarrow> (pipeline_outcome \<times> breaker \<times> 'u) option" where
  "pipeline_execute ops policy fn contextValidator c b u =
     (case breaker_execute_thrown (wo_now ops)
             (retry_execute ops policy fn contextValidator c) b u of
        None \<Rightarrow> None
      | Some (Inl t, b', u') \<Rightarrow> Some (fallback_outcome policy t, b', u')
      | Some (Inr out, b', u') \<Rightarrow> Some (out, b', u'))"

definition pipeline_validateInput ::
  "jval option schema_validator option \<Rightarrow> jval option \<Rightarrow> js_error + jval option" where
  "pipeline_validateInput inputValidator rawInput = enforceValidation Input rawInput inputValidator"

section \<open>Back-off bounds\<close>

lemma backoff_bounds:
  "0 \<le> fst (computeBackoffDelayMs rnd i b u) \<and>
   fst (computeBackoffDelayMs rnd i b u) \<le> max 0 (nb_maxDelayMs b)"
  by (auto simp: computeBackoffDelayMs_def Let_def split_beta)

lemma js_round_mono: "x \<le> y \<Longrightarrow> js_round x \<le> js_round y"
  by (simp add: js_round_def floor_mono)

lemma backoff_exponential_mono:
  assumes "nb_strategy b = Exponential" "1 \<le> nb_multiplier b" "1 \<le> i" "i \<le> j"
  shows "fst (computeBackoffDelayMs rnd i b u) \<le> fst (computeBackoffDelayMs rnd j b v)"
proof (cases "nb_initialDelayMs b \<le> 0 \<or> nb_maxDelayMs b \<le> 0")
  case False
  have "nb_multiplier b ^ nat (i - 1) \<le> nb_multiplier b ^ nat (j - 1)"
    using assms by (intro power_increasing) auto
  then have "nb_initialDelayMs b * nb_multiplier b ^ nat (i - 1) \<le>
      nb_initialDelayMs b * nb_multiplier b ^ nat (j - 1)"
    using False by (intro mult_left_mono) auto
  from js_round_mono [OF this] show ?thesis
    using False assms(1) by (auto simp: computeBackoffDelayMs_def Let_def)
qed (auto simp: computeBackoffDelayMs_def Let_def)

section \<open>What the retry loop does\<close>

text \<open>
  Recording the attempts: the operation over a world with a log of the attempt numbers it was called
  with, under outside operations that leave the log alone.
\<close>

definition logged ::
  "(int \<Rightarrow> 'u \<Rightarrow> (js_error + 'a) \<times> 'u) \<Rightarrow> int \<Rightarrow> 'u \<times> int list \<Rightarrow> (js_error + 'a) \<times> ('u \<times> int list)"
where
  "logged op a w = (case op a (fst w) of (r, u') \<Rightarrow> (r, (u', snd w @ [a])))"

definition log_ops :: "'u world_ops \<Rightarrow> ('u \<times> int list) world_ops" where
  "log_ops ops = \<lparr>wo_now = (\<lambda>w. wo_now ops (fst w)),
     wo_sleep = (\<lambda>d w. (wo_sleep ops d (fst w), snd w)),
     wo_random = (\<lambda>w. case wo_random ops (fst w) of (r, u') \<Rightarrow> (r, (u', snd w)))\<rparr>"

definition attempts_made :: "thrown + 'a \<times> int \<Rightarrow> int option" where
  "attempts_made r = (case r of Inr (_, n) \<Rightarrow> Some n | Inl (_, n) \<Rightarrow> n)"

lemma backoff_log:
  "backoff_pause (log_ops ops) p a (u, l) = (backoff_pause ops p a u, l)"
  by (auto simp: backoff_pause_def computeBackoffDelayMs_def log_ops_def Let_def
      split: backoff_strategy.splits prod.splits)

lemma retry_loop_log:
  assumes "a \<le> m"
  shows "\<exists>n. a \<le> n \<and> n \<le> m \<and>
    snd (snd (retry_loop (log_ops ops) p m (logged op) a (u, l))) = l @ [a..n] \<and>
    fst (retry_loop (log_ops ops) p m (logged op) a (u, l)) = fst (retry_loop ops p m op a u) \<and>
    fst (snd (retry_loop (log_ops ops) p m (logged op) a (u, l))) = snd (retry_loop ops p m op a u) \<and>
    (case fst (retry_loop ops p m op a u) of
       Inr (_, k) \<Rightarrow> k = n
     | Inl (e, k) \<Rightarrow> (k = Some n \<or> k = None \<and> \<not> is_object_error e) \<and> \<not> can_retry p m n e)"
  using assms
proof (induction ops p m op a u arbitrary: l rule: retry_loop.induct)
  case (1 ops p m op a u)
  obtain r u' where op: "op a u = (r, u')" by (cases "op a u")
  show ?case
  proof (cases r)
    case (Inr x)
    then show ?thesis using op 1(2)
      by (intro exI [of _ a]) (simp add: retry_loop.simps [of _ _ _ _ a] logged_def)
  next
    case (Inl e)
    show ?thesis
    proof (cases "can_retry p m a e")
      case False
      then show ?thesis using op Inl 1(2)
        by (intro exI [of _ a]) (simp add: retry_loop.simps [of _ _ _ _ a] logged_def)
    next
      case True
      then have al: "a + 1 \<le> m" by (simp add: can_retry_def)
      let ?u = "backoff_pause ops p a u'"
      from 1(1) [OF op [symmetric] Inl _ al, of "l @ [a]"] True obtain n where
        n: "a + 1 \<le> n" "n \<le> m"
        "snd (snd (retry_loop (log_ops ops) p m (logged op) (a + 1) (?u, l @ [a]))) = (l @ [a]) @ [a + 1..n]"
        "fst (retry_loop (log_ops ops) p m (logged op) (a + 1) (?u, l @ [a])) =
           fst (retry_loop ops p m op (a + 1) ?u)"
        "fst (snd (retry_loop (log_ops ops) p m (logged op) (a + 1) (?u, l @ [a]))) =
           snd (retry_loop ops p m op (a + 1) ?u)"
        "case fst (retry_loop ops p m op (a + 1) ?u) of Inr (_, k) \<Rightarrow> k = n
         | Inl (e, k) \<Rightarrow> (k = Some n \<or> k = None \<and> \<not> is_object_error e) \<and> \<not> can_retry p m n e"
        by auto
      have s: "retry_loop ops p m op a u = retry_loop ops p m op (a + 1) ?u"
        using op Inl True by (subst retry_loop.simps) simp
      have sl: "retry_loop (log_ops ops) p m (logged op) a (u, l) =
          retry_loop (log_ops ops) p m (logged op) (a + 1) (?u, l @ [a])"
        using op Inl True by (subst retry_loop.simps) (simp add: logged_def backoff_log)
      have "[a..n] = a # [a + 1..n]" using n(1) by (simp add: upto_rec1)
      then show ?thesis unfolding s sl using n by (intro exI [of _ n]) auto
    qed
  qed
qed

lemma retry_log:
  "\<exists>n. 1 \<le> n \<and> n \<le> max 1 (nr_maxAttempts p) \<and>
    snd (snd (runWithRetryPolicy (log_ops ops) p (logged op) (u, []))) = [1..n] \<and>
    fst (runWithRetryPolicy (log_ops ops) p (logged op) (u, [])) = fst (runWithRetryPolicy ops p op u) \<and>
    (case fst (runWithRetryPolicy ops p op u) of
       Inr (_, k) \<Rightarrow> k = n
     | Inl (e, k) \<Rightarrow> (k = Some n \<or> k = None \<and> \<not> is_object_error e) \<and>
         (n = max 1 (nr_maxAttempts p) \<or> \<not> isRetryableByDefault e \<or>
          (\<exists>f. nr_retryIf p = Some f \<and> \<not> f e)))"
proof -
  have "(1::int) \<le> max 1 (nr_maxAttempts p)" by simp
  from retry_loop_log [OF this, of ops p op u "[]"] obtain n where
    n: "1 \<le> n" "n \<le> max 1 (nr_maxAttempts p)"
    "snd (snd (runWithRetryPolicy (log_ops ops) p (logged op) (u, []))) = [1..n]"
    "fst (runWithRetryPolicy (log_ops ops) p (logged op) (u, [])) = fst (runWithRetryPolicy ops p op u)"
    "case fst (runWithRetryPolicy ops p op u) of Inr (_, k) \<Rightarrow> k = n
     | Inl (e, k) \<Rightarrow> (k = Some n \<or> k = None \<and> \<not> is_object_error e) \<and>
         \<not> can_retry p (max 1 (nr_maxAttempts p)) n e"
    by (auto simp: runWithRetryPolicy_def)
  then show ?thesis
    by (intro exI [of _ n]) (auto simp: can_retry_def split: sum.splits option.splits prod.splits)
qed

section \<open>What the pipeline guarantees\<close>

lemma thrown_execute:
  "breaker_execute_thrown now fn b u =
     (if \<not> nc_enabled (cb_policy b) then (case fn u of (r, u') \<Rightarrow> Some (r, b, u'))
      else (case breaker_admit (now u) b of
              (Some e, b') \<Rightarrow> Some (Inl (e, None), b', u)
            | (None, b') \<Rightarrow>
                (case fn u of (r, u') \<Rightarrow>
                   (case breaker_settle (now u')
                          (outcome_of (case r of Inl (e, _) \<Rightarrow> Inl e | Inr x \<Rightarrow> Inr x)) b' of
                      None \<Rightarrow> None | Some b'' \<Rightarrow> Some (r, b'', u')))))"
  by (auto simp: breaker_execute_thrown_def breaker_execute_def Let_def outcome_of_def
      split: prod.splits sum.splits option.splits)

lemma pipeline_total:
  assumes "breaker_inv b \<or> \<not> nc_enabled (cb_policy b)"
  shows "\<exists>out b' u'. pipeline_execute ops p fn v c b u = Some (out, b', u') \<and>
    cb_policy b' = cb_policy b \<and> (breaker_inv b \<longrightarrow> breaker_inv b')"
proof (cases "nc_enabled (cb_policy b)")
  case False
  then show ?thesis
    by (auto simp: pipeline_execute_def thrown_execute split: prod.splits sum.splits)
next
  case True
  then have i: "breaker_inv b" using assms by simp
  let ?fn = "retry_execute ops p fn v c"
  obtain eo b1 where a: "breaker_admit (wo_now ops u) b = (eo, b1)" by (cases "breaker_admit (wo_now ops u) b")
  from admit_inv [OF i, of "wo_now ops u"] a have b1: "breaker_inv b1" "cb_policy b1 = cb_policy b" by auto
  show ?thesis
  proof (cases eo)
    case None
    obtain r u' where f: "?fn u = (r, u')" by (cases "?fn u")
    have "cb_status b1 \<noteq> OPEN" using admit_not_open a None True by blast
    from settle_inv [OF b1(1) this, of "wo_now ops u'"
        "outcome_of (case r of Inl (e, _) \<Rightarrow> Inl e | Inr x \<Rightarrow> Inr x)"]
    obtain b2 where "breaker_settle (wo_now ops u')
        (outcome_of (case r of Inl (e, _) \<Rightarrow> Inl e | Inr x \<Rightarrow> Inr x)) b1 = Some b2"
      "breaker_inv b2" "cb_policy b2 = cb_policy b1" by auto
    then show ?thesis using a None f True b1
      by (cases r) (auto simp: pipeline_execute_def thrown_execute)
  next
    case (Some e)
    then show ?thesis using a True b1 by (simp add: pipeline_execute_def thrown_execute)
  qed
qed

lemma pipeline_open:
  assumes "nc_enabled (cb_policy b)" "cb_status b = OPEN"
    "wo_now ops u - cb_openedAt b < nc_openDurationMs (cb_policy b)"
  shows "\<exists>rem. pipeline_execute ops p fn v c b u =
    Some (PipeFail (CircuitOpenError (cb_key b) rem) (no_compensate (np_onFail p))
      (if no_target (np_onFail p) = [] then ''error'' else no_target (np_onFail p)) 1, b, u)"
  using assms
  by (simp add: pipeline_execute_def thrown_execute breaker_admit_def evaluateTimerTransition_def Let_def
      fallback_outcome_def to_error_def is_error_instance_def)

lemma retry_loop_result:
  "fst (retry_loop ops p m op a u) = Inr (x, n) \<Longrightarrow> \<exists>u1 u2 k. op k u1 = (Inr x, u2)"
proof (induction ops p m op a u rule: retry_loop.induct)
  case (1 ops p m op a u)
  obtain r u' where op: "op a u = (r, u')" by (cases "op a u")
  show ?case
  proof (cases r)
    case (Inr y)
    then show ?thesis using op 1(2) by (subst (asm) retry_loop.simps) auto
  next
    case (Inl e)
    show ?thesis
    proof (cases "can_retry p m a e")
      case False
      then show ?thesis using op Inl 1(2) by (subst (asm) retry_loop.simps) simp
    next
      case True
      then have "fst (retry_loop ops p m op (a + 1) (backoff_pause ops p a u')) = Inr (x, n)"
        using op Inl 1(2) by (subst (asm) retry_loop.simps) simp
      with 1(1) [OF op [symmetric] Inl] True show ?thesis by simp
    qed
  qed
qed

text \<open>A successful outcome carries a validated context, or the unchanged one without a handler.\<close>

lemma pipeline_ok_context:
  assumes "pipeline_execute ops p fn v c b u = Some (PipeOk out ctx n, b', u')"
  shows "if fn = None then ctx = ec_contextData c \<and> out = empty_output
    else \<exists>cand. enforceValidation Context cand v = Inr ctx"
proof -
  from assms obtain u1 where "fst (retry_execute ops p fn v c u1) = Inr (PipeOk out ctx n)"
    by (auto simp: pipeline_execute_def thrown_execute fallback_outcome_def
        split: option.splits sum.splits prod.splits if_splits) (metis fst_conv)+
  then have "fst (runWithRetryPolicy ops (np_retry p) (userFunction_execute fn v c) u1) = Inr ((out, ctx), n)"
    by (auto simp: retry_execute_def split: sum.splits prod.splits)
  from retry_loop_result [OF this [unfolded runWithRetryPolicy_def]] obtain k w w' where
    "userFunction_execute fn v c k w = (Inr (out, ctx), w')" by auto
  then show ?thesis
    by (auto simp: userFunction_execute_def Let_def split: option.splits sum.splits prod.splits)
qed

text \<open>An invalid context is neither retried nor counted by a closed breaker.\<close>

lemma invalid_context_once:
  assumes f: "f (handler_request c 1) u = (Inr (raw, data), u')"
    and v: "enforceValidation Context (or_else (to_context (or_else raw empty_output)) data) v = Inl e"
    and b: "cb_status b = CLOSED"
  shows "pipeline_execute ops p (Some f) v c b u =
    Some (PipeFail e (no_compensate (np_onFail p))
      (if no_target (np_onFail p) = [] then ''error'' else no_target (np_onFail p)) 1, b, u')"
proof -
  have ve: "is_validation_error e" by (rule enforceValidation_error [OF v])
  then have obj: "is_object_error e" "to_error e = e" "\<not> isRetryableByDefault e"
    by (cases e; simp add: is_validation_error_def is_object_error_def to_error_def
        is_error_instance_def isRetryableByDefault_def)+
  have "userFunction_execute (Some f) v c 1 u = (Inl e, u')"
    using f v by (simp add: userFunction_execute_def Let_def)
  then have r: "retry_execute ops p (Some f) v c u = (Inl (e, Some 1), u')"
    using obj by (simp add: retry_execute_def runWithRetryPolicy_def retry_loop.simps can_retry_def)
  show ?thesis
    using r b ve obj
    by (cases "nc_enabled (cb_policy b)")
      (simp_all add: pipeline_execute_def thrown_execute breaker_admit_def evaluateTimerTransition_def
        Let_def breaker_settle_def outcome_of_def fallback_outcome_def)
qed

end
