(* ===== verification/Store.thy ===== *)
theory Store
  imports Types "HOL-Library.Multiset"
begin

text \<open>
  The store contract of \<^verbatim>\<open>store/store.ts\<close>: filters, update patches, the operations of a store as a
  record of state-passing functions, and the interface \<open>state_store\<close>: what every driver promises of
  its transactions and compensation stacks, seen through the map of records \<open>txs\<close> and the ascending
  stack \<open>comps\<close>. Client lemmas are proved once inside the locale.
\<close>

section \<open>Filters and patches\<close>

record query_filter =
  qf_machineId :: "string option"
  qf_actorId :: "string option"
  qf_transactionIds :: "string list option"
  qf_statuses :: "tx_status list option"
  qf_stuckBeforeTimestamp :: "int option"
  qf_olderThanTimestamp :: "int option"
  qf_stateEquals :: "state_value option"
  qf_limit :: "int option"
  qf_offset :: "int option"

definition no_filter :: query_filter where
  "no_filter = \<lparr>qf_machineId = None, qf_actorId = None, qf_transactionIds = None, qf_statuses = None,
     qf_stuckBeforeTimestamp = None, qf_olderThanTimestamp = None, qf_stateEquals = None,
     qf_limit = None, qf_offset = None\<rparr>"

text \<open>A patch: outer \<open>None\<close> leaves a field alone, \<open>Some None\<close> writes \<open>null\<close>.\<close>

record update_patch =
  pt_stateValue :: "state_value option"
  pt_context :: "jval option"
  pt_status :: "tx_status option"
  pt_activeStep :: "active_step option option"
  pt_lastError :: "string option option"
  pt_leaseOwner :: "string option option"
  pt_leaseExpiresAt :: "int option option"
  pt_updatedAt :: int

definition touch :: "int \<Rightarrow> update_patch" where
  "touch now = \<lparr>pt_stateValue = None, pt_context = None, pt_status = None, pt_activeStep = None,
     pt_lastError = None, pt_leaseOwner = None, pt_leaseExpiresAt = None, pt_updatedAt = now\<rparr>"

definition apply_patch :: "update_patch \<Rightarrow> int \<Rightarrow> tx_record \<Rightarrow> tx_record" where
  "apply_patch p nextVersion r = r\<lparr>
     tx_stateValue := or_else (pt_stateValue p) (tx_stateValue r),
     tx_context := or_else (pt_context p) (tx_context r),
     tx_status := or_else (pt_status p) (tx_status r),
     tx_activeStep := or_else (pt_activeStep p) (tx_activeStep r),
     tx_lastError := or_else (pt_lastError p) (tx_lastError r),
     tx_version := nextVersion,
     tx_leaseOwner := or_else (pt_leaseOwner p) (tx_leaseOwner r),
     tx_leaseExpiresAt := or_else (pt_leaseExpiresAt p) (tx_leaseExpiresAt r),
     tx_updatedAt := pt_updatedAt p\<rparr>"

section \<open>Selection\<close>

text \<open>
  What a filter selects: every clause it has. Empty strings and empty lists make no clause; states
  are compared as JSON text.
\<close>

definition selects :: "query_filter \<Rightarrow> tx_record \<Rightarrow> bool" where
  "selects f r \<longleftrightarrow>
     (case truthy (qf_machineId f) of Some m \<Rightarrow> tx_machineId r = m | None \<Rightarrow> True) \<and>
     (case truthy (qf_actorId f) of Some a \<Rightarrow> tx_actorId r = a | None \<Rightarrow> True) \<and>
     (case qf_transactionIds f of Some ids \<Rightarrow> ids = [] \<or> tx_transactionId r \<in> set ids | None \<Rightarrow> True) \<and>
     (case qf_statuses f of Some sts \<Rightarrow> sts = [] \<or> tx_status r \<in> set sts | None \<Rightarrow> True) \<and>
     (case qf_stuckBeforeTimestamp f of Some t \<Rightarrow> tx_updatedAt r \<le> t | None \<Rightarrow> True) \<and>
     (case qf_olderThanTimestamp f of Some t \<Rightarrow> tx_updatedAt r \<le> t | None \<Rightarrow> True) \<and>
     (case qf_stateEquals f of Some sv \<Rightarrow> json_state (tx_stateValue r) = json_state sv | None \<Rightarrow> True)"

definition is_stuck :: "int \<Rightarrow> int \<Rightarrow> tx_record \<Rightarrow> bool" where
  "is_stuck now threshold r \<longleftrightarrow>
     (tx_status r = IN_FLIGHT \<or> tx_status r = COMPENSATING) \<and> now - tx_updatedAt r \<ge> threshold"

definition uncompensated :: "comp_entry list \<Rightarrow> comp_entry list" where
  "uncompensated es = filter (\<lambda>e. ce_compensatedAt e = None) es"

definition summary_of :: "int \<Rightarrow> int \<Rightarrow> comp_entry list \<Rightarrow> tx_record \<Rightarrow> tx_summary" where
  "summary_of now threshold es r = \<lparr>
     su_transactionId = tx_transactionId r, su_machineId = tx_machineId r, su_actorId = tx_actorId r,
     su_stateValue = tx_stateValue r, su_status = tx_status r, su_context = tx_context r,
     su_isStuck = is_stuck now threshold r, su_activeStep = tx_activeStep r,
     su_compensationDepth = length (uncompensated es), su_version = tx_version r,
     su_createdAt = tx_createdAt r, su_updatedAt = tx_updatedAt r\<rparr>"

definition snapshot_of :: "tx_record \<Rightarrow> comp_entry list \<Rightarrow> tx_snapshot" where
  "snapshot_of r stack = tx_record.extend r \<lparr>ts_compensationStack = stack\<rparr>"

section \<open>Stacks\<close>

definition max_seq :: "comp_entry list \<Rightarrow> int" where
  "max_seq es = (case es of [] \<Rightarrow> 0 | _ \<Rightarrow> Max (set (map ce_stepSeq es)))"

definition new_entry :: "string \<Rightarrow> int \<Rightarrow> comp_new \<Rightarrow> comp_entry" where
  "new_entry txId seq n = \<lparr>ce_id = None, ce_transactionId = txId, ce_stepSeq = seq,
     ce_transitionKey = cn_transitionKey n, ce_compensateKey = cn_compensateKey n,
     ce_fromState = cn_fromState n, ce_inputSnapshot = or_else (cn_inputSnapshot n) JNull,
     ce_contextBefore = cn_contextBefore n, ce_createdAt = cn_createdAt n,
     ce_compensatedAt = cn_compensatedAt n\<rparr>"

fun numbered :: "string \<Rightarrow> int \<Rightarrow> comp_new list \<Rightarrow> comp_entry list" where
  "numbered txId seq [] = []"
| "numbered txId seq (n # ns) = new_entry txId seq n # numbered txId (seq + 1) ns"

text \<open>An entry without the id a database may have given its row, and the ids given in order.\<close>

definition no_id :: "comp_entry \<Rightarrow> comp_entry" where
  "no_id e = e\<lparr>ce_id := None\<rparr>"

fun identified :: "int \<Rightarrow> comp_entry list \<Rightarrow> comp_entry list" where
  "identified nextId [] = []"
| "identified nextId (e # es) = e\<lparr>ce_id := Some (RowNumber nextId)\<rparr> # identified (nextId + 1) es"

lemma no_id_sel [simp]:
  "ce_id (no_id e) = None" "ce_transactionId (no_id e) = ce_transactionId e"
  "ce_stepSeq (no_id e) = ce_stepSeq e" "ce_compensatedAt (no_id e) = ce_compensatedAt e"
  by (simp_all add: no_id_def)

lemma no_id_numbered [simp]: "map no_id (numbered i k ns) = numbered i k ns"
  by (induction ns arbitrary: k) (simp_all add: new_entry_def no_id_def)

lemma no_id_identified [simp]: "map no_id (identified k es) = map no_id es"
  by (induction es arbitrary: k) (simp_all add: no_id_def)

lemma map_no_id_sel:
  assumes "map no_id es = map no_id fs"
  shows "map ce_stepSeq es = map ce_stepSeq fs" "map ce_transactionId es = map ce_transactionId fs"
proof -
  have "map ce_stepSeq (map no_id xs) = map ce_stepSeq xs" "map ce_transactionId (map no_id xs) = map ce_transactionId xs"
    for xs by (simp_all add: comp_def)
  then show "map ce_stepSeq es = map ce_stepSeq fs" "map ce_transactionId es = map ce_transactionId fs"
    using assms by metis+
qed

definition mark_entry :: "int \<Rightarrow> int \<Rightarrow> comp_entry \<Rightarrow> comp_entry" where
  "mark_entry seq t e = (if ce_stepSeq e = seq then e\<lparr>ce_compensatedAt := Some t\<rparr> else e)"

definition stack_ok :: "string \<Rightarrow> comp_entry list \<Rightarrow> bool" where
  "stack_ok txId es \<longleftrightarrow> sorted_wrt (<) (map ce_stepSeq es) \<and>
     list_all (\<lambda>e. ce_transactionId e = txId \<and> 1 \<le> ce_stepSeq e) es"

lemma numbered_props:
  "e \<in> set (numbered txId k ns) \<Longrightarrow> ce_transactionId e = txId \<and> k \<le> ce_stepSeq e"
  by (induction ns arbitrary: k) (fastforce simp: new_entry_def)+

lemma numbered_sorted: "sorted_wrt (<) (map ce_stepSeq (numbered txId k ns))"
proof (induction ns arbitrary: k)
  case (Cons n ns)
  then show ?case using numbered_props [of _ txId "k + 1" ns] by (fastforce simp: new_entry_def)
qed simp

lemma max_seq_ge: "e \<in> set es \<Longrightarrow> ce_stepSeq e \<le> max_seq es"
  by (cases es) (auto simp: max_seq_def)

lemma max_seq_nonneg: "stack_ok txId es \<Longrightarrow> 0 \<le> max_seq es"
proof (cases es)
  case (Cons e es')
  assume "stack_ok txId es"
  then have "1 \<le> ce_stepSeq e" using Cons by (simp add: stack_ok_def)
  with max_seq_ge [of e es] Cons show ?thesis by simp
qed (simp add: max_seq_def)

lemma stack_ok_append:
  assumes "stack_ok txId es"
  shows "stack_ok txId (es @ numbered txId (max_seq es + 1) ns)"
proof -
  let ?n = "numbered txId (max_seq es + 1) ns"
  have "sorted_wrt (<) (map ce_stepSeq ?n)" by (rule numbered_sorted)
  moreover have "ce_stepSeq e < ce_stepSeq e'" if "e \<in> set es" "e' \<in> set ?n" for e e'
    using max_seq_ge [OF that(1)] numbered_props [OF that(2)] by simp
  moreover have "ce_transactionId e = txId \<and> 1 \<le> ce_stepSeq e" if "e \<in> set ?n" for e
    using numbered_props [OF that] max_seq_nonneg [OF assms] by auto
  ultimately show ?thesis using assms
    by (auto simp: stack_ok_def sorted_wrt_append list_all_iff)
qed

lemma stack_ok_append_new:
  assumes "stack_ok i es" "map no_id new = numbered i (max_seq es + 1) ns"
  shows "stack_ok i (es @ new)"
proof -
  let ?n = "numbered i (max_seq es + 1) ns"
  from map_no_id_sel [of new ?n] assms(2)
  have "map ce_stepSeq (es @ new) = map ce_stepSeq (es @ ?n)"
    and m: "map ce_transactionId (es @ new) = map ce_transactionId (es @ ?n)" by simp_all
  moreover have "list_all (\<lambda>e. ce_transactionId e = i \<and> 1 \<le> ce_stepSeq e) xs \<longleftrightarrow>
      list_all (\<lambda>j. j = i) (map ce_transactionId xs) \<and> list_all (\<lambda>k. 1 \<le> k) (map ce_stepSeq xs)" for xs
    by (induction xs) auto
  ultimately show ?thesis using stack_ok_append [OF assms(1), of ns] unfolding stack_ok_def by metis
qed

lemma mark_entry_seq [simp]: "ce_stepSeq (mark_entry s t e) = ce_stepSeq e"
  by (simp add: mark_entry_def)

lemma stack_ok_mark: "stack_ok txId es \<Longrightarrow> stack_ok txId (map (mark_entry s t) es)"
proof -
  assume a: "stack_ok txId es"
  have "map ce_stepSeq (map (mark_entry s t) es) = map ce_stepSeq es" by simp
  moreover have "list_all (\<lambda>e. ce_transactionId e = txId \<and> 1 \<le> ce_stepSeq e) (map (mark_entry s t) es)"
    using a by (auto simp: stack_ok_def list_all_iff mark_entry_def)
  ultimately show ?thesis using a unfolding stack_ok_def by metis
qed

lemma stack_ok_distinct: "stack_ok txId es \<Longrightarrow> distinct (map ce_stepSeq es)"
  unfolding stack_ok_def using strict_sorted_iff by blast

text \<open>Both kinds of driver read a stack in descending order of the step numbers.\<close>

lemma sort_seq_desc_rev:
  assumes "stack_ok i es"
  shows "sort_key (\<lambda>e. - ce_stepSeq e) es = rev es"
proof -
  have s: "sorted_wrt (<) (map ce_stepSeq es)" using assms by (simp add: stack_ok_def)
  have "sorted (map (\<lambda>e. - ce_stepSeq e) (rev es))"
    using s by (induction es) (fastforce simp: sorted_append)+
  moreover have "inj_on (\<lambda>e. - ce_stepSeq e) (set es)"
    using s by (auto simp: inj_on_def strict_sorted_iff distinct_map dest: inj_onD)
  ultimately show ?thesis by (intro sort_key_inj_key_eq) auto
qed

lemma stack_ok_uncompensated: "stack_ok i es \<Longrightarrow> stack_ok i (uncompensated es)"
  by (induction es) (auto simp: stack_ok_def uncompensated_def)

section \<open>Windows\<close>

definition take_int :: "int option \<Rightarrow> 'a list \<Rightarrow> 'a list" where
  "take_int n xs = (case n of None \<Rightarrow> xs | Some k \<Rightarrow> take (nat (max 0 k)) xs)"

definition drop_int :: "int option \<Rightarrow> 'a list \<Rightarrow> 'a list" where
  "drop_int n xs = (case n of None \<Rightarrow> xs | Some k \<Rightarrow> drop (nat (max 0 k)) xs)"

text \<open>The windows every driver understands: a positive limit, or neither limit nor offset.\<close>

definition windowed :: "query_filter \<Rightarrow> bool" where
  "windowed f = (case qf_limit f of None \<Rightarrow> qf_offset f = None | Some n \<Rightarrow> 0 < n)"

section \<open>The operations of a store\<close>

record 's store_ops =
  so_initialize :: "'s \<Rightarrow> 's"
  so_createTransaction :: "tx_record \<Rightarrow> 's \<Rightarrow> (js_error + unit) \<times> 's"
  so_getTransaction :: "string \<Rightarrow> 's \<Rightarrow> (js_error + tx_snapshot option) \<times> 's"
  so_updateTransaction :: "string \<Rightarrow> int \<Rightarrow> update_patch \<Rightarrow> comp_new list \<Rightarrow> 's \<Rightarrow> (js_error + int) \<times> 's"
  so_getUncompensatedStack :: "string \<Rightarrow> 's \<Rightarrow> (js_error + comp_entry list) \<times> 's"
  so_markCompensationExecuted :: "string \<Rightarrow> int \<Rightarrow> int \<Rightarrow> 's \<Rightarrow> (js_error + unit) \<times> 's"
  so_countTransactions :: "query_filter \<Rightarrow> 's \<Rightarrow> (js_error + nat) \<times> 's"
  so_queryTransactions :: "query_filter \<Rightarrow> int \<Rightarrow> int \<Rightarrow> 's \<Rightarrow> (js_error + tx_summary list) \<times> 's"
  so_deleteTransactions :: "string list \<Rightarrow> 's \<Rightarrow> (js_error + nat) \<times> 's"
  so_close :: "'s \<Rightarrow> 's"

section \<open>The contract\<close>

locale state_store =
  fixes ops :: "'s store_ops"
    and ok :: "'s \<Rightarrow> bool"
    and txs :: "'s \<Rightarrow> string \<Rightarrow> tx_record option"
    and comps :: "'s \<Rightarrow> string \<Rightarrow> comp_entry list"
  assumes initialize: "ok s \<Longrightarrow> ok (so_initialize ops s) \<and> txs (so_initialize ops s) = txs s \<and>
      comps (so_initialize ops s) = comps s"
    and create_new: "ok s \<Longrightarrow> txs s (tx_transactionId r) = None \<Longrightarrow>
      \<exists>s'. so_createTransaction ops r s = (Inr (), s') \<and> ok s' \<and>
        txs s' = (txs s)(tx_transactionId r \<mapsto> r) \<and> comps s' = comps s"
    and create_old: "ok s \<Longrightarrow> txs s (tx_transactionId r) \<noteq> None \<Longrightarrow>
      \<exists>e s'. so_createTransaction ops r s = (Inl e, s') \<and> ok s' \<and> txs s' = txs s \<and> comps s' = comps s"
    and get: "ok s \<Longrightarrow> \<exists>s'. so_getTransaction ops i s =
        (Inr (map_option (\<lambda>r. snapshot_of r (rev (comps s i))) (txs s i)), s') \<and>
      ok s' \<and> txs s' = txs s \<and> comps s' = comps s"
    and update_current: "ok s \<Longrightarrow> txs s i = Some r \<Longrightarrow> tx_version r = v \<Longrightarrow>
      \<exists>s' new. so_updateTransaction ops i v p ns s = (Inr (v + 1), s') \<and> ok s' \<and>
        txs s' = (txs s)(i \<mapsto> apply_patch p (v + 1) r) \<and>
        comps s' = (comps s)(i := comps s i @ new) \<and>
        map no_id new = numbered i (max_seq (comps s i) + 1) ns"
    and update_stale: "ok s \<Longrightarrow> \<forall>r. txs s i = Some r \<longrightarrow> tx_version r \<noteq> v \<Longrightarrow>
      \<exists>s'. so_updateTransaction ops i v p ns s = (Inl (StaleTransactionVersionError i v), s') \<and> ok s' \<and>
        txs s' = txs s \<and> comps s' = comps s"
    and stack: "ok s \<Longrightarrow> \<exists>s'. so_getUncompensatedStack ops i s =
        (Inr (rev (uncompensated (comps s i))), s') \<and>
      ok s' \<and> txs s' = txs s \<and> comps s' = comps s"
    and mark: "ok s \<Longrightarrow> \<exists>s'. so_markCompensationExecuted ops i q t s = (Inr (), s') \<and> ok s' \<and>
      txs s' = txs s \<and> comps s' = (comps s)(i := map (mark_entry q t) (comps s i))"
    and delete: "ok s \<Longrightarrow> \<exists>n s'. so_deleteTransactions ops ids s = (Inr n, s') \<and> ok s' \<and>
      txs s' = (txs s) |` (- set ids) \<and>
      (\<forall>i. comps s' i = (if i \<in> set ids then [] else comps s i))"
    and delete_count: "ok s \<Longrightarrow>
      fst (so_deleteTransactions ops ids s) = Inr (card {i \<in> set ids. txs s i \<noteq> None})"
    and query: "ok s \<Longrightarrow> qf_offset f = None \<Longrightarrow>
      \<exists>xs s'. so_queryTransactions ops f now th s = (Inr xs, s') \<and> ok s' \<and> txs s' = txs s \<and>
        comps s' = comps s \<and> distinct (map su_transactionId xs) \<and>
        sorted (map su_updatedAt xs) \<and>
        (\<forall>x \<in> set xs. \<exists>r. txs s (su_transactionId x) = Some r \<and> selects f r \<and>
           x = summary_of now th (comps s (su_transactionId x)) r) \<and>
        ((\<forall>n. qf_limit f = Some n \<longrightarrow> int (length xs) < n) \<longrightarrow>
           (\<forall>i r. txs s i = Some r \<and> selects f r \<longrightarrow> i \<in> su_transactionId ` set xs))"
    and query_window: "ok s \<Longrightarrow> windowed f \<Longrightarrow>
      \<exists>rs s'. so_queryTransactions ops f now th s =
          (Inr (map (\<lambda>r. summary_of now th (comps s (tx_transactionId r)) r)
             (take_int (qf_limit f) (drop_int (qf_offset f) rs))), s') \<and>
        ok s' \<and> txs s' = txs s \<and> comps s' = comps s \<and>
        distinct rs \<and> sorted (map tx_updatedAt rs) \<and> set rs = {r. \<exists>i. txs s i = Some r \<and> selects f r}"
    and query_any: "ok s \<Longrightarrow> \<exists>r s'. so_queryTransactions ops f now th s = (r, s') \<and> ok s' \<and>
      txs s' = txs s \<and> comps s' = comps s \<and>
      (\<forall>xs. r = Inr xs \<longrightarrow> (\<forall>x \<in> set xs. \<exists>t. txs s (su_transactionId x) = Some t \<and> selects f t))"
    and count: "ok s \<Longrightarrow> \<exists>n s'. so_countTransactions ops f s = (Inr n, s') \<and> ok s' \<and> txs s' = txs s \<and>
      comps s' = comps s \<and> n = card {i. \<exists>r. txs s i = Some r \<and> selects f r}"
    and ids: "ok s \<Longrightarrow> txs s i = Some r \<Longrightarrow> tx_transactionId r = i"
    and stacks: "ok s \<Longrightarrow> stack_ok i (comps s i)"
    and orphans: "ok s \<Longrightarrow> txs s i = None \<Longrightarrow> comps s i = []"
begin

lemma update_cases:
  assumes "ok s"
  obtains r s' new where "txs s i = Some r" "tx_version r = v"
    "so_updateTransaction ops i v p ns s = (Inr (v + 1), s')" "ok s'"
    "txs s' = (txs s)(i \<mapsto> apply_patch p (v + 1) r)"
    "comps s' = (comps s)(i := comps s i @ new)" "map no_id new = numbered i (max_seq (comps s i) + 1) ns"
  | s' where "so_updateTransaction ops i v p ns s = (Inl (StaleTransactionVersionError i v), s')"
    "ok s'" "txs s' = txs s" "comps s' = comps s"
proof (cases "\<exists>r. txs s i = Some r \<and> tx_version r = v")
  case True
  then obtain r where "txs s i = Some r" "tx_version r = v" by auto
  from this update_current [OF assms this, of p ns] show thesis using that(1) by blast
next
  case False
  then have "\<forall>r. txs s i = Some r \<longrightarrow> tx_version r \<noteq> v" by auto
  from update_stale [OF assms this, of p ns] show thesis using that(2) by blast
qed

text \<open>Two writers that read the same version: after one has written, the other is refused.\<close>

lemma second_writer_stale:
  assumes "ok s" "so_updateTransaction ops i v p ns s = (Inr w, s1)"
  shows "\<exists>s2. so_updateTransaction ops i v p' ns' s1 = (Inl (StaleTransactionVersionError i v), s2) \<and>
    txs s2 = txs s1 \<and> comps s2 = comps s1"
proof (rule update_cases [OF assms(1), of i v p ns])
  fix r s'
  assume r: "so_updateTransaction ops i v p ns s = (Inr (v + 1), s')" "ok s'"
    "txs s' = (txs s)(i \<mapsto> apply_patch p (v + 1) r)"
  have "tx_version (apply_patch p (v + 1) r) \<noteq> v" by (simp add: apply_patch_def)
  then show ?thesis using update_stale [OF r(2), of i v p' ns'] r assms(2) by auto
next
  fix s' assume "so_updateTransaction ops i v p ns s = (Inl (StaleTransactionVersionError i v), s')"
  then show ?thesis using assms(2) by simp
qed

lemma marked_not_returned:
  assumes "ok s" "so_markCompensationExecuted ops i q t s = (r, s1)"
  shows "\<exists>es s2. so_getUncompensatedStack ops i s1 = (Inr es, s2) \<and> q \<notin> ce_stepSeq ` set es \<and>
    es = filter (\<lambda>e. ce_stepSeq e \<noteq> q) (rev (uncompensated (comps s i)))"
proof -
  from mark [OF assms(1), of i q t] assms(2) have m: "ok s1"
    "comps s1 = (comps s)(i := map (mark_entry q t) (comps s i))" by auto
  from stack [OF m(1), of i] obtain s2 where
    s2: "so_getUncompensatedStack ops i s1 = (Inr (rev (uncompensated (comps s1 i))), s2)" by auto
  have "uncompensated (map (mark_entry q t) es) = filter (\<lambda>e. ce_stepSeq e \<noteq> q) (uncompensated es)" for es
    by (induction es) (auto simp: uncompensated_def mark_entry_def)
  then have "rev (uncompensated (comps s1 i)) =
      filter (\<lambda>e. ce_stepSeq e \<noteq> q) (rev (uncompensated (comps s i)))"
    using m(2) by (simp add: rev_filter)
  with s2 show ?thesis by auto
qed

end

end
