(* ===== verification/Effects.thy ===== *)
theory Effects
  imports Types
begin

text \<open>
  Asynchronous code as state-passing functions: from a world to an error or a value and the next
  world, or to nothing when the fuel of user programs ran out. The combinators mirror \<open>await\<close>,
  \<open>throw\<close>, \<open>try/catch\<close> and \<open>try/finally\<close>; \<open>hoare\<close> is partial correctness for any outcome, with one rule
  per combinator, and \<open>less_run\<close> compares runs with less and more fuel.
\<close>

type_synonym ('a, 'w) eff = "'w \<Rightarrow> ((js_error + 'a) \<times> 'w) option"

definition ret :: "'a \<Rightarrow> ('a, 'w) eff" where
  "ret x = (\<lambda>w. Some (Inr x, w))"

definition throw :: "js_error \<Rightarrow> ('a, 'w) eff" where
  "throw e = (\<lambda>w. Some (Inl e, w))"

definition out_of_fuel :: "('a, 'w) eff" where
  "out_of_fuel = (\<lambda>w. None)"

definition bind :: "('a, 'w) eff \<Rightarrow> ('a \<Rightarrow> ('b, 'w) eff) \<Rightarrow> ('b, 'w) eff" where
  "bind m f = (\<lambda>w. case m w of
     None \<Rightarrow> None | Some (Inl e, w') \<Rightarrow> Some (Inl e, w') | Some (Inr x, w') \<Rightarrow> f x w')"

definition seq :: "('a, 'w) eff \<Rightarrow> ('b, 'w) eff \<Rightarrow> ('b, 'w) eff" where
  "seq m n = bind m (\<lambda>_. n)"

text \<open>The outcome as a value: \<open>try { ... } catch\<close>.\<close>

definition attempt :: "('a, 'w) eff \<Rightarrow> (js_error + 'a, 'w) eff" where
  "attempt m = (\<lambda>w. case m w of None \<Rightarrow> None | Some (r, w') \<Rightarrow> Some (Inr r, w'))"

definition try_finally :: "('a, 'w) eff \<Rightarrow> ('w \<Rightarrow> 'w) \<Rightarrow> ('a, 'w) eff" where
  "try_finally m f = (\<lambda>w. case m w of None \<Rightarrow> None | Some (r, w') \<Rightarrow> Some (r, f w'))"

definition reads :: "('w \<Rightarrow> 'a) \<Rightarrow> ('a, 'w) eff" where
  "reads f = (\<lambda>w. Some (Inr (f w), w))"

definition modify :: "('w \<Rightarrow> 'w) \<Rightarrow> (unit, 'w) eff" where
  "modify f = (\<lambda>w. Some (Inr (), f w))"

definition result :: "js_error + 'a \<Rightarrow> ('a, 'w) eff" where
  "result r = (\<lambda>w. Some (r, w))"

fun for_each :: "'a list \<Rightarrow> ('a \<Rightarrow> (unit, 'w) eff) \<Rightarrow> (unit, 'w) eff" where
  "for_each [] f = ret ()"
| "for_each (x # xs) f = seq (f x) (for_each xs f)"

fun fold_each :: "('a \<Rightarrow> 'b \<Rightarrow> ('b, 'w) eff) \<Rightarrow> 'a list \<Rightarrow> 'b \<Rightarrow> ('b, 'w) eff" where
  "fold_each f [] acc = ret acc"
| "fold_each f (x # xs) acc = bind (f x acc) (fold_each f xs)"

lemmas eff_defs = ret_def throw_def bind_def seq_def attempt_def try_finally_def reads_def modify_def
  result_def out_of_fuel_def

section \<open>Partial correctness\<close>

definition hoare :: "('w \<Rightarrow> bool) \<Rightarrow> ('a, 'w) eff \<Rightarrow> (js_error + 'a \<Rightarrow> 'w \<Rightarrow> bool) \<Rightarrow> bool" where
  "hoare P m Q \<longleftrightarrow> (\<forall>w r w'. P w \<longrightarrow> m w = Some (r, w') \<longrightarrow> Q r w')"

abbreviation keeps :: "('w \<Rightarrow> bool) \<Rightarrow> ('a, 'w) eff \<Rightarrow> bool" where
  "keeps P m \<equiv> hoare P m (\<lambda>_. P)"

named_theorems keeps_intros \<open>preservation of an invariant by the combinators and operations\<close>

lemma hoareD: "hoare P m Q \<Longrightarrow> P w \<Longrightarrow> m w = Some (r, w') \<Longrightarrow> Q r w'"
  by (simp add: hoare_def)

lemma hoare_pre: "hoare P m Q \<Longrightarrow> (\<And>w. P' w \<Longrightarrow> P w) \<Longrightarrow> hoare P' m Q"
  by (auto simp: hoare_def)

lemma hoare_post: "hoare P m Q \<Longrightarrow> (\<And>r w. Q r w \<Longrightarrow> Q' r w) \<Longrightarrow> hoare P m Q'"
  by (auto simp: hoare_def)

lemma hoare_bind:
  assumes "hoare P m R" "\<And>x. hoare (R (Inr x)) (f x) Q" "\<And>e w. R (Inl e) w \<Longrightarrow> Q (Inl e) w"
  shows "hoare P (bind m f) Q"
  using assms by (fastforce simp: hoare_def bind_def split: option.splits sum.splits prod.splits)

lemma keeps_ret [keeps_intros]: "keeps P (ret x)"
  by (simp add: hoare_def ret_def)

lemma keeps_throw [keeps_intros]: "keeps P (throw e)"
  by (simp add: hoare_def throw_def)

lemma keeps_fuel [keeps_intros]: "keeps P out_of_fuel"
  by (simp add: hoare_def out_of_fuel_def)

lemma keeps_result [keeps_intros]: "keeps P (result r)"
  by (simp add: hoare_def result_def)

lemma keeps_reads [keeps_intros]: "keeps P (reads f)"
  by (simp add: hoare_def reads_def)

lemma keeps_bind [keeps_intros]: "keeps P m \<Longrightarrow> (\<And>x. keeps P (f x)) \<Longrightarrow> keeps P (bind m f)"
  by (rule hoare_bind) auto

lemma keeps_seq [keeps_intros]: "keeps P m \<Longrightarrow> keeps P n \<Longrightarrow> keeps P (seq m n)"
  by (simp add: seq_def keeps_bind)

lemma keeps_attempt [keeps_intros]: "keeps P m \<Longrightarrow> keeps P (attempt m)"
  by (auto simp: hoare_def attempt_def split: option.splits)

lemma keeps_finally [keeps_intros]:
  "keeps P m \<Longrightarrow> (\<And>w. P w \<Longrightarrow> P (f w)) \<Longrightarrow> keeps P (try_finally m f)"
  by (auto simp: hoare_def try_finally_def split: option.splits)

lemma keeps_modify [keeps_intros]: "(\<And>w. P w \<Longrightarrow> P (f w)) \<Longrightarrow> keeps P (modify f)"
  by (auto simp: hoare_def modify_def)

lemma keeps_for_each [keeps_intros]: "(\<And>x. x \<in> set xs \<Longrightarrow> keeps P (f x)) \<Longrightarrow> keeps P (for_each xs f)"
  by (induction xs) (auto intro: keeps_ret keeps_seq)

lemma keeps_fold_each [keeps_intros]:
  "(\<And>x acc. x \<in> set xs \<Longrightarrow> keeps P (f x acc)) \<Longrightarrow> keeps P (fold_each f xs acc)"
  by (induction xs arbitrary: acc) (auto intro: keeps_ret keeps_bind)

lemma keeps_if [keeps_intros]: "(b \<Longrightarrow> keeps P m) \<Longrightarrow> (\<not> b \<Longrightarrow> keeps P n) \<Longrightarrow> keeps P (if b then m else n)"
  by simp

lemma keeps_option [keeps_intros]:
  "(x = None \<Longrightarrow> keeps P m) \<Longrightarrow> (\<And>y. x = Some y \<Longrightarrow> keeps P (f y)) \<Longrightarrow>
     keeps P (case x of None \<Rightarrow> m | Some y \<Rightarrow> f y)"
  by (cases x) auto

lemma keeps_sum [keeps_intros]:
  "(\<And>e. x = Inl e \<Longrightarrow> keeps P (g e)) \<Longrightarrow> (\<And>y. x = Inr y \<Longrightarrow> keeps P (f y)) \<Longrightarrow>
     keeps P (case x of Inl e \<Rightarrow> g e | Inr y \<Rightarrow> f y)"
  by (cases x) auto

lemma keeps_prod [keeps_intros]:
  "(\<And>a b. x = (a, b) \<Longrightarrow> keeps P (f a b)) \<Longrightarrow> keeps P (case x of (a, b) \<Rightarrow> f a b)"
  by (cases x) auto

section \<open>More fuel\<close>

definition less_run :: "('a, 'w) eff \<Rightarrow> ('a, 'w) eff \<Rightarrow> bool" where
  "less_run m n \<longleftrightarrow> (\<forall>w. m w \<noteq> None \<longrightarrow> n w = m w)"

named_theorems run_mono \<open>monotonicity of the combinators and operations in the runner\<close>

lemma less_run_refl [run_mono]: "less_run m m"
  by (simp add: less_run_def)

lemma less_run_fuel [run_mono]: "less_run out_of_fuel m"
  by (simp add: less_run_def out_of_fuel_def)

lemma less_run_bind [run_mono]:
  "less_run m m' \<Longrightarrow> (\<And>x. less_run (f x) (f' x)) \<Longrightarrow> less_run (bind m f) (bind m' f')"
  by (fastforce simp: less_run_def bind_def split: option.splits sum.splits prod.splits)

lemma less_run_seq [run_mono]: "less_run m m' \<Longrightarrow> less_run n n' \<Longrightarrow> less_run (seq m n) (seq m' n')"
  by (simp add: seq_def less_run_bind)

lemma less_run_attempt [run_mono]: "less_run m m' \<Longrightarrow> less_run (attempt m) (attempt m')"
  by (fastforce simp: less_run_def attempt_def split: option.splits)

lemma less_run_finally [run_mono]: "less_run m m' \<Longrightarrow> less_run (try_finally m f) (try_finally m' f)"
  by (fastforce simp: less_run_def try_finally_def split: option.splits)

lemma less_run_for_each [run_mono]:
  "(\<And>x. less_run (f x) (f' x)) \<Longrightarrow> less_run (for_each xs f) (for_each xs f')"
  by (induction xs) (auto intro: run_mono)

lemma less_run_fold_each [run_mono]:
  "(\<And>x acc. less_run (f x acc) (f' x acc)) \<Longrightarrow> less_run (fold_each f xs acc) (fold_each f' xs acc)"
  by (induction xs arbitrary: acc) (auto intro: run_mono)

lemma less_run_if [run_mono]:
  "less_run m m' \<Longrightarrow> less_run n n' \<Longrightarrow> less_run (if b then m else n) (if b then m' else n')"
  by simp

lemma less_run_option [run_mono]:
  "less_run m m' \<Longrightarrow> (\<And>y. less_run (f y) (f' y)) \<Longrightarrow>
     less_run (case x of None \<Rightarrow> m | Some y \<Rightarrow> f y) (case x of None \<Rightarrow> m' | Some y \<Rightarrow> f' y)"
  by (cases x) auto

lemma less_run_sum [run_mono]:
  "(\<And>e. less_run (g e) (g' e)) \<Longrightarrow> (\<And>y. less_run (f y) (f' y)) \<Longrightarrow>
     less_run (case x of Inl e \<Rightarrow> g e | Inr y \<Rightarrow> f y) (case x of Inl e \<Rightarrow> g' e | Inr y \<Rightarrow> f' y)"
  by (cases x) auto

lemma less_run_prod [run_mono]:
  "(\<And>a b. less_run (f a b) (f' a b)) \<Longrightarrow>
     less_run (case x of (a, b) \<Rightarrow> f a b) (case x of (a, b) \<Rightarrow> f' a b)"
  by (cases x) auto

end
