(* ===== verification/Actor.thy ===== *)
theory Actor
  imports Statechart Pipeline Store Effects
begin

text \<open>
  The actor of \<^verbatim>\<open>runtime/actor.ts\<close>: compiled bindings, lifecycle hooks, starting a transaction, a
  transition with its pipeline, compensation stack and effects, the recovery sweep, forced clean-up
  and the scheduler's state. Everything the actor mutates is the world: the store, the outside world
  of user code, the breakers, the effect-chain depths and transition revisions, and the counters.
  Transition and compensation handlers are functions on the outside world. Effects and hooks may
  call back into the actor: they are programs (\<open>prog\<close>) whose calls a runner executes, and every
  operation takes the runner as an argument; \<open>run_prog\<close> ties the knot by fuel.
\<close>

section \<open>User programs and hook events\<close>

record start_event =
  hs_transactionId :: string
  hs_machineId :: string
  hs_actorId :: string
  hs_initialState :: state_value
  hs_status :: tx_status
  hs_context :: jval

record before_event =
  hb_transactionId :: string
  hb_machineId :: string
  hb_actorId :: string
  hb_event :: string
  hb_input :: "jval option"
  hb_currentState :: state_value
  hb_context :: jval

record after_event =
  ha_transactionId :: string
  ha_machineId :: string
  ha_actorId :: string
  ha_event :: string
  ha_input :: "jval option"
  ha_previousState :: state_value
  ha_currentState :: state_value
  ha_status :: tx_status
  ha_value :: "jval option"
  ha_context :: jval
  ha_compensatedSteps :: nat
  ha_durationMs :: int
  ha_error :: "string option"

record compensate_event =
  hc_transactionId :: string
  hc_machineId :: string
  hc_actorId :: string
  hc_stepSeq :: int
  hc_compensateHandler :: string
  hc_fromState :: state_value
  hc_inputSnapshot :: jval
  hc_updatedContext :: jval
  hc_reason :: "string option"

record complete_event =
  hf_transactionId :: string
  hf_machineId :: string
  hf_actorId :: string
  hf_finalState :: state_value
  hf_context :: jval

record terminal_event =
  ht_transactionId :: string
  ht_machineId :: string
  ht_actorId :: string
  ht_finalState :: state_value
  ht_status :: tx_status
  ht_context :: jval
  ht_error :: "string option"

datatype hook_event =
    HookStart start_event
  | HookBefore before_event
  | HookAfter after_event
  | HookCompensate compensate_event
  | HookComplete complete_event
  | HookTerminal terminal_event

text \<open>
  A user program: it ends, throws, acts on the outside world, or awaits a call on the actor and goes
  on with the call's outcome.
\<close>

datatype 'u prog =
    PDone
  | PThrow js_error
  | PAct "'u \<Rightarrow> 'u prog \<times> 'u"
  | PTransition string string "jval option" "(string \<times> jval) list" "js_error + execution_result \<Rightarrow> 'u prog"
  | PStart jval "string option" "js_error + string \<Rightarrow> 'u prog"
  | PRunEffect string "jval option" "js_error + unit \<Rightarrow> 'u prog"

record effect_request =
  er_transactionId :: string
  er_machineId :: string
  er_actorId :: string
  er_state :: state_value
  er_context :: jval
  er_payload :: "jval option"

type_synonym 'u compensate_fn = "compensation_request \<Rightarrow> 'u \<Rightarrow> (js_error + jval option) \<times> 'u"
type_synonym 'u effect_fn = "effect_request \<Rightarrow> 'u prog"
type_synonym 'u hook_fn = "hook_event \<Rightarrow> 'u prog"

section \<open>Configuration and world\<close>

record 'u registered_transition =
  re_fn :: "'u transition_fn"
  re_policy :: partial_policy
  re_inputValidator :: "jval option schema_validator option"

text \<open>The lookups of \<open>HandlerLookupProvider\<close>; each returns the resolved name with the handler.\<close>

record 'u handlers =
  hp_resolveTransition :: "string \<Rightarrow> string option \<Rightarrow> (string \<times> 'u registered_transition) option"
  hp_resolveCompensate :: "string \<Rightarrow> string option \<Rightarrow> (string \<times> 'u compensate_fn) option"
  hp_resolveEffect :: "string \<Rightarrow> string option \<Rightarrow> (string \<times> 'u effect_fn) option"
  hp_resolveHook :: "string \<Rightarrow> string option \<Rightarrow> (string \<times> 'u hook_fn) option"
  hp_globalPolicyDefaults :: partial_policy

record 'u binding =
  bd_statePath :: string
  bd_event :: string
  bd_edge :: transition_edge
  bd_resolvedTransitionName :: "string option"
  bd_resolvedCompensateName :: "string option"
  bd_policy :: norm_policy
  bd_fn :: "'u transition_fn option"
  bd_inputValidator :: "jval option schema_validator option"

text \<open>A hook subscription: the listeners it has for a slot, run in order.\<close>

type_synonym 'u hook_subscription = "hook_slot \<Rightarrow> 'u hook_fn list"

record ('s, 'u) actor =
  ac_machine :: machine
  ac_actorId :: string
  ac_store :: "'s store_ops"
  ac_world :: "'u world_ops"
  ac_uuid :: "'u \<Rightarrow> string \<times> 'u"
  ac_handlers :: "'u handlers"
  ac_contextValidator :: "jval schema_validator option"
  ac_bindings :: "'u binding dict"
  ac_recovery :: recovery_config
  ac_maxEffectChainDepth :: rat
  ac_hooks :: "'u hook_subscription list"

datatype log_outcome = LogSuccess | LogCompensated | LogFallback | LogFailed

record transition_log =
  tl_timestamp :: int
  tl_transactionId :: string
  tl_machineId :: string
  tl_actorId :: string
  tl_event :: string
  tl_transitionHandler :: "string option"
  tl_fromState :: state_value
  tl_toState :: state_value
  tl_attempts :: int
  tl_durationMs :: int
  tl_outcome :: log_outcome
  tl_error :: "string option"

record ('s, 'u) world =
  w_store :: 's
  w_user :: 'u
  w_breakers :: breakers
  w_depth :: "int dict"
  w_revision :: "int dict"
  w_log :: "transition_log list"
  w_initialized :: bool
  w_stoppedByRecovery :: bool
  w_scheduler :: scheduler_config
  w_timerRunning :: bool
  w_lastRunAt :: "int option"
  w_nextRunAt :: "int option"
  w_totalSweeps :: nat
  w_totalRecovered :: nat
  w_totalRetentionCleaned :: nat
  w_lastReport :: "recovery_report option"

type_synonym ('a, 's, 'u) act = "('a, ('s, 'u) world) eff"

text \<open>What \<open>runEffect\<close> closes over: transaction, state, context, and baseline revision.\<close>

type_synonym effect_env = "string \<times> state_value \<times> jval \<times> int"

type_synonym ('s, 'u) runner = "effect_env option \<Rightarrow> 'u prog \<Rightarrow> (unit, 's, 'u) act"

definition store_call :: "('s \<Rightarrow> (js_error + 'a) \<times> 's) \<Rightarrow> ('a, 's, 'u) act" where
  "store_call f = (\<lambda>w. case f (w_store w) of (r, s) \<Rightarrow> Some (r, w\<lparr>w_store := s\<rparr>))"

definition user_call :: "('u \<Rightarrow> (js_error + 'a) \<times> 'u) \<Rightarrow> ('a, 's, 'u) act" where
  "user_call f = (\<lambda>w. case f (w_user w) of (r, u) \<Rightarrow> Some (r, w\<lparr>w_user := u\<rparr>))"

definition now :: "('s, 'u) actor \<Rightarrow> (int, 's, 'u) act" where
  "now a = reads (\<lambda>w. wo_now (ac_world a) (w_user w))"

definition store_update ::
  "('s, 'u) actor \<Rightarrow> string \<Rightarrow> int \<Rightarrow> update_patch \<Rightarrow> comp_new list \<Rightarrow> (int, 's, 'u) act" where
  "store_update a txId v p ns = store_call (so_updateTransaction (ac_store a) txId v p ns)"

definition store_get :: "('s, 'u) actor \<Rightarrow> string \<Rightarrow> (tx_snapshot option, 's, 'u) act" where
  "store_get a txId = store_call (so_getTransaction (ac_store a) txId)"

section \<open>Compiling the machine's bindings\<close>

definition bindingKey :: "string \<Rightarrow> string \<Rightarrow> string" where
  "bindingKey statePath event = statePath @ ''::'' @ event"

record 'u compiling =
  cp_missing :: "string list"
  cp_effects :: "string list"
  cp_breakers :: breakers
  cp_bindings :: "'u binding dict"

definition verifyEffectList :: "machine \<Rightarrow> 'u handlers \<Rightarrow> string list \<Rightarrow> 'u compiling \<Rightarrow> 'u compiling" where
  "verifyEffectList m h effects c =
     fold (\<lambda>eff c. let ns = rb_namespace (md_registry m) in
       case hp_resolveEffect h eff ns of
         None \<Rightarrow> if rb_strict (md_registry m)
                 then c\<lparr>cp_missing := cp_missing c @ [qualifyHandlerName eff ns]\<rparr> else c
       | Some (name, _) \<Rightarrow> c\<lparr>cp_effects := set_add name (cp_effects c)\<rparr>) effects c"

definition hook_slots :: "hook_slot list" where
  "hook_slots = [OnStart, BeforeTransition, AfterTransition, OnCompensate, OnComplete, OnTerminal]"

definition compile_hooks ::
  "machine \<Rightarrow> 'u handlers \<Rightarrow> 'u compiling \<Rightarrow> 'u compiling \<times> 'u hook_subscription option" where
  "compile_hooks m h c =
     (let ns = rb_namespace (md_registry m);
          found = (\<lambda>slot. concat (map (\<lambda>ref. case hp_resolveHook h ref ns of
                     Some (_, fn) \<Rightarrow> [fn] | None \<Rightarrow> []) (md_hooks m slot)));
          missing = concat (map (\<lambda>slot. concat (map (\<lambda>ref.
             if hp_resolveHook h ref ns = None \<and> rb_strict (md_registry m)
             then [qualifyHandlerName ref ns] else []) (md_hooks m slot))) hook_slots)
      in (c\<lparr>cp_missing := cp_missing c @ missing\<rparr>,
          if list_all (\<lambda>slot. found slot = []) hook_slots then None else Some found))"

definition compileEdge ::
  "machine \<Rightarrow> 'u handlers \<Rightarrow> jval option schema_validator dict \<Rightarrow> string \<Rightarrow> string \<times> transition_edge \<Rightarrow>
     'u compiling \<Rightarrow> 'u compiling" where
  "compileEdge m h inputValidators statePath ev c =
     (let (event, edge) = ev; ns = rb_namespace (md_registry m); strict = rb_strict (md_registry m);
          txName = truthy (te_transition edge);
          resolvedTx = Option.bind txName (\<lambda>t. hp_resolveTransition h t ns);
          missTx = (case txName of Some t \<Rightarrow> if resolvedTx = None \<and> strict
                      then [qualifyHandlerName t ns] else [] | None \<Rightarrow> []);
          policy = normalizeTransitionPolicy \<lparr>
             mi_defaultBreakerKey = md_id m @ '':'' @ statePath @ '':'' @ event,
             mi_globalDefaults = Some (hp_globalPolicyDefaults h),
             mi_machineDefaults = Some (md_defaults m), mi_transitionPolicy = Some (te_policy edge),
             mi_decoratorPolicy = map_option (\<lambda>(_, e). re_policy e) resolvedTx\<rparr>;
          compName = truthy (or_elseo (np_compensateHandler policy) (te_compensate edge));
          foundComp = Option.bind compName (\<lambda>n. hp_resolveCompensate h n ns);
          missComp = (case compName of Some n \<Rightarrow> if foundComp = None \<and> strict
                      then [qualifyHandlerName n ns] else [] | None \<Rightarrow> []);
          c1 = verifyEffectList m h (te_effects edge)
                 (c\<lparr>cp_missing := cp_missing c @ missTx @ missComp\<rparr>);
          inputValidator = or_elseo (map_of inputValidators event)
             (or_elseo (Option.bind txName (map_of inputValidators))
               (Option.bind resolvedTx (\<lambda>(_, e). re_inputValidator e)));
          (_, breakers) = getOrCreate (np_circuitBreaker policy) (cp_breakers c1);
          b = \<lparr>bd_statePath = statePath, bd_event = event, bd_edge = edge,
             bd_resolvedTransitionName = map_option fst resolvedTx,
             bd_resolvedCompensateName = map_option fst foundComp, bd_policy = policy,
             bd_fn = map_option (\<lambda>(_, e). re_fn e) resolvedTx, bd_inputValidator = inputValidator\<rparr>
      in c1\<lparr>cp_breakers := breakers,
            cp_bindings := AList.update (bindingKey statePath event) b (cp_bindings c1)\<rparr>)"

fun walkState ::
  "machine \<Rightarrow> 'u handlers \<Rightarrow> jval option schema_validator dict \<Rightarrow> state_node \<Rightarrow> 'u compiling \<Rightarrow> 'u compiling"
where
  "walkState m h ivs (StateNode k path ty desc init en ex on od sts imp) c =
     (let c1 = verifyEffectList m h ex (verifyEffectList m h en c);
          c2 = fold (compileEdge m h ivs path) on c1;
          c3 = (case od of None \<Rightarrow> c2 | Some e \<Rightarrow> compileEdge m h ivs path (''$onDone'', e) c2)
      in fold (\<lambda>(ck, child). walkState m h ivs child) sts c3)"

definition compileMachineBindings ::
  "machine \<Rightarrow> 'u handlers \<Rightarrow> jval option schema_validator dict \<Rightarrow>
     js_error + 'u compiling \<times> 'u hook_subscription option" where
  "compileMachineBindings m h ivs =
     (let c0 = \<lparr>cp_missing = [], cp_effects = [], cp_breakers = [], cp_bindings = []\<rparr>;
          (c1, hooks) = compile_hooks m h (verifyEffectList m h (md_effects m) c0);
          c2 = fold (\<lambda>(k, n). walkState m h ivs n) (md_states m) c1
      in if cp_missing c2 \<noteq> [] then Inl (UnregisteredHandlerError (md_id m) (dedup (cp_missing c2)))
         else Inr (c2, hooks))"

section \<open>Hooks\<close>

definition emit :: "('s, 'u) actor \<Rightarrow> ('s, 'u) runner \<Rightarrow> hook_slot \<Rightarrow> hook_event \<Rightarrow> (unit, 's, 'u) act" where
  "emit a run slot ev = for_each (ac_hooks a) (\<lambda>sub. for_each (sub slot) (\<lambda>fn. run None (fn ev)))"

definition emitSettledTerminalHooks ::
  "('s, 'u) actor \<Rightarrow> ('s, 'u) runner \<Rightarrow> string \<Rightarrow> state_value \<Rightarrow> tx_status \<Rightarrow> jval \<Rightarrow> string option \<Rightarrow>
     (unit, 's, 'u) act" where
  "emitSettledTerminalHooks a run txId finalState status ctx err =
     (if \<not> isTerminalStatus status then ret ()
      else seq
        (if status = COMPLETED
         then emit a run OnComplete (HookComplete \<lparr>hf_transactionId = txId,
                hf_machineId = md_id (ac_machine a), hf_actorId = ac_actorId a,
                hf_finalState = finalState, hf_context = ctx\<rparr>)
         else ret ())
        (emit a run OnTerminal (HookTerminal \<lparr>ht_transactionId = txId,
           ht_machineId = md_id (ac_machine a), ht_actorId = ac_actorId a,
           ht_finalState = finalState, ht_status = status, ht_context = ctx, ht_error = err\<rparr>)))"

definition getTransitionRevision :: "string \<Rightarrow> ('s, 'u) world \<Rightarrow> int" where
  "getTransitionRevision txId w = or_else (map_of (w_revision w) txId) 0"

definition bumpTransitionRevision :: "string \<Rightarrow> (unit, 's, 'u) act" where
  "bumpTransitionRevision txId = modify (\<lambda>w. w\<lparr>w_revision :=
     AList.update txId (getTransitionRevision txId w + 1) (w_revision w)\<rparr>)"

section \<open>Effects\<close>

definition depth_of :: "string \<Rightarrow> ('s, 'u) world \<Rightarrow> int" where
  "depth_of txId w = or_else (map_of (w_depth w) txId) 0"

definition leave_effect :: "string \<Rightarrow> ('s, 'u) world \<Rightarrow> ('s, 'u) world" where
  "leave_effect txId w =
     (let remaining = or_else (map_of (w_depth w) txId) 1 - 1 in
      if remaining \<le> 0 then w\<lparr>w_depth := AList.delete txId (w_depth w)\<rparr>
      else w\<lparr>w_depth := AList.update txId remaining (w_depth w)\<rparr>)"

definition depth_exceeded :: "('s, 'u) actor \<Rightarrow> string \<Rightarrow> string \<Rightarrow> js_error" where
  "depth_exceeded a txId name = DfsmError ''DFSM_MAX_EFFECT_CHAIN_DEPTH''
     (''Effect / automatic transition chain exceeded maximum depth ('' @
      show_num (ac_maxEffectChainDepth a) @ '') for transaction '' @ quoted txId @
      '' while invoking effect '' @ quoted name)"

definition invokeSingleEffect ::
  "('s, 'u) actor \<Rightarrow> ('s, 'u) runner \<Rightarrow> string \<Rightarrow> state_value \<Rightarrow> jval \<Rightarrow> string \<Rightarrow> jval option \<Rightarrow> int \<Rightarrow>
     (unit, 's, 'u) act" where
  "invokeSingleEffect a run txId fallbackState fallbackContext handlerName payload baselineRevision =
     (let ns = rb_namespace (md_registry (ac_machine a)) in
      case hp_resolveEffect (ac_handlers a) handlerName ns of
        None \<Rightarrow>
          if rb_strict (md_registry (ac_machine a))
          then throw (UnregisteredHandlerError (md_id (ac_machine a)) [qualifyHandlerName handlerName ns])
          else ret ()
      | Some (resolvedName, fn) \<Rightarrow>
          bind (reads (\<lambda>w. depth_of txId w + 1)) (\<lambda>nextDepth.
            if of_int nextDepth > ac_maxEffectChainDepth a then throw (depth_exceeded a txId resolvedName)
            else
              bind (reads (getTransitionRevision txId)) (\<lambda>rev.
              bind (if rev \<noteq> baselineRevision then store_get a txId else ret None) (\<lambda>latest.
                let (st, ctx) = (case latest of
                      Some snap \<Rightarrow> (tx_stateValue snap, tx_context snap)
                    | None \<Rightarrow> (fallbackState, fallbackContext))
                in seq (modify (\<lambda>w. w\<lparr>w_depth := AList.update txId nextDepth (w_depth w)\<rparr>))
                     (try_finally
                        (run (Some (txId, st, ctx, baselineRevision))
                           (fn \<lparr>er_transactionId = txId, er_machineId = md_id (ac_machine a),
                                er_actorId = ac_actorId a, er_state = st, er_context = ctx,
                                er_payload = payload\<rparr>))
                        (leave_effect txId))))))"

definition effect_parts :: "effect_item \<Rightarrow> string \<times> jval option" where
  "effect_parts item = (case item of EffectName n \<Rightarrow> (n, None) | EffectInvocation n p \<Rightarrow> (n, p))"

definition invokeEffects ::
  "('s, 'u) actor \<Rightarrow> ('s, 'u) runner \<Rightarrow> string \<Rightarrow> state_value \<Rightarrow> jval \<Rightarrow> effect_item list \<Rightarrow>
     (unit, 's, 'u) act" where
  "invokeEffects a run txId st ctx effects =
     bind (reads (getTransitionRevision txId)) (\<lambda>baselineRevision.
       for_each effects (\<lambda>item. case effect_parts item of (name, payload) \<Rightarrow>
         invokeSingleEffect a run txId st ctx name payload baselineRevision))"

section \<open>Compensation\<close>

definition unwind_entry ::
  "('s, 'u) actor \<Rightarrow> ('s, 'u) runner \<Rightarrow> string \<Rightarrow> string option \<Rightarrow> comp_entry \<Rightarrow> jval \<times> nat \<Rightarrow>
     (jval \<times> nat, 's, 'u) act" where
  "unwind_entry a run txId failureError entry acc =
     (let (ctx, count) = acc;
          resolved = hp_resolveCompensate (ac_handlers a) (ce_compensateKey entry)
                       (rb_namespace (md_registry (ac_machine a)))
      in bind (case resolved of
             None \<Rightarrow> ret ctx
           | Some (_, fn) \<Rightarrow>
               bind (user_call (fn \<lparr>cr_transactionId = txId, cr_machineId = md_id (ac_machine a),
                   cr_actorId = ac_actorId a, cr_stepSeq = ce_stepSeq entry,
                   cr_fromState = ce_fromState entry, cr_inputSnapshot = Some (ce_inputSnapshot entry),
                   cr_contextBefore = ce_contextBefore entry, cr_currentContext = ctx,
                   cr_failureError = failureError\<rparr>)) (\<lambda>updated. ret (or_else updated ctx)))
           (\<lambda>ctx'.
           bind (now a) (\<lambda>t.
           seq (store_call (so_markCompensationExecuted (ac_store a) txId (ce_stepSeq entry) t))
           (seq (emit a run OnCompensate (HookCompensate \<lparr>hc_transactionId = txId,
                  hc_machineId = md_id (ac_machine a), hc_actorId = ac_actorId a,
                  hc_stepSeq = ce_stepSeq entry,
                  hc_compensateHandler = (case resolved of Some (n, _) \<Rightarrow> n | None \<Rightarrow> ce_compensateKey entry),
                  hc_fromState = ce_fromState entry, hc_inputSnapshot = ce_inputSnapshot entry,
                  hc_updatedContext = ctx', hc_reason = failureError\<rparr>))
             (ret (ctx', count + 1))))))"

definition unwindCompensationStack ::
  "('s, 'u) actor \<Rightarrow> ('s, 'u) runner \<Rightarrow> string \<Rightarrow> jval \<Rightarrow> string option \<Rightarrow> (jval \<times> nat, 's, 'u) act" where
  "unwindCompensationStack a run txId currentContext failureError =
     bind (store_call (so_getUncompensatedStack (ac_store a) txId)) (\<lambda>stack.
       fold_each (unwind_entry a run txId failureError) stack (currentContext, 0))"

section \<open>A transition\<close>

text \<open>The local variables of \<open>executeTransitionOnSnapshot\<close>.\<close>

record work =
  wk_version :: int
  wk_state :: state_value
  wk_context :: jval
  wk_value :: "jval option"
  wk_effects :: "effect_item list"
  wk_comps :: "comp_new list"

datatype step_result = StepOk work | StepFail work nat tx_status string

definition names :: "string list \<Rightarrow> effect_item list" where
  "names = map EffectName"

definition run_pipeline :: "('s, 'u) actor \<Rightarrow> 'u binding \<Rightarrow> exec_ctx \<Rightarrow> (pipeline_outcome, 's, 'u) act" where
  "run_pipeline a b c = (\<lambda>w.
     let key = nc_key (np_circuitBreaker (bd_policy b));
         br = or_else (map_of (w_breakers w) key) (new_breaker (np_circuitBreaker (bd_policy b)))
     in case pipeline_execute (ac_world a) (bd_policy b) (bd_fn b) (ac_contextValidator a) c br (w_user w) of
          None \<Rightarrow> None
        | Some (out, br', u') \<Rightarrow>
            Some (Inr out, w\<lparr>w_user := u', w_breakers := AList.update key br' (w_breakers w)\<rparr>))"

definition telemetry_outcome :: "pipeline_outcome \<Rightarrow> state_value \<Rightarrow> bool \<Rightarrow> log_outcome" where
  "telemetry_outcome out finalState compensated =
     (case out of PipeOk _ _ _ \<Rightarrow> LogSuccess
      | PipeFail _ _ _ _ \<Rightarrow> if compensated then LogCompensated
          else if finalState \<noteq> SLeaf ''error'' then LogFallback else LogFailed)"

definition executeWithTelemetry ::
  "('s, 'u) actor \<Rightarrow> 'u binding \<Rightarrow> exec_ctx \<Rightarrow> (pipeline_outcome \<Rightarrow> (state_value \<times> bool \<times> 'a, 's, 'u) act) \<Rightarrow>
     ('a, 's, 'u) act" where
  "executeWithTelemetry a b c resolveFinalStateAndCompensate =
     bind (now a) (\<lambda>t0.
     bind (run_pipeline a b c) (\<lambda>out.
     bind (resolveFinalStateAndCompensate out) (\<lambda>(finalState, compensated, x).
     bind (now a) (\<lambda>t1.
       seq (if nm_enabled (np_benchmark (bd_policy b))
            then modify (\<lambda>w. w\<lparr>w_log := w_log w @ [\<lparr>tl_timestamp = t1,
              tl_transactionId = ec_transactionId c, tl_machineId = ec_machineId c,
              tl_actorId = ec_actorId c, tl_event = ec_event c,
              tl_transitionHandler = ec_transitionHandlerName c, tl_fromState = ec_currentState c,
              tl_toState = finalState,
              tl_attempts = (case out of PipeOk _ _ n \<Rightarrow> n | PipeFail _ _ _ n \<Rightarrow> n),
              tl_durationMs = max 0 (t1 - t0),
              tl_outcome = telemetry_outcome out finalState compensated,
              tl_error = (case out of PipeOk _ _ _ \<Rightarrow> None | PipeFail e _ _ _ \<Rightarrow> Some (error_message e))\<rparr>]\<rparr>)
            else ret ())
         (ret x)))))"

text \<open>The effects of a successful step, and the step itself.\<close>

definition step_success ::
  "('s, 'u) actor \<Rightarrow> string \<Rightarrow> 'u binding \<Rightarrow> string \<Rightarrow> string \<Rightarrow> jval option \<Rightarrow>
     transition_output \<Rightarrow> jval \<Rightarrow> work \<Rightarrow> (work, 's, 'u) act" where
  "step_success a txId b sourcePath event input output nextContext wk =
     (let own = names (te_effects (bd_edge b)) @ or_else (to_effects output) [] in
      bind (case truthy (or_elseo (to_targetState output) (te_target (bd_edge b))) of
          Some target \<Rightarrow>
            bind (result (applyTargetTransition (ac_machine a) (wk_state wk) sourcePath target)) (\<lambda>ap.
              ret (ap_nextStateValue ap,
                   names (ap_exitEffects ap) @ own @ names (ap_entryEffects ap)))
        | None \<Rightarrow> ret (wk_state wk, own))
      (\<lambda>(st, effs). bind (now a) (\<lambda>t.
        ret (wk\<lparr>wk_state := st, wk_context := nextContext,
          wk_value := or_elseo (to_value output) (wk_value wk),
          wk_effects := wk_effects wk @ effs,
          wk_comps := wk_comps wk @ (case bd_resolvedCompensateName b of
              None \<Rightarrow> []
            | Some cname \<Rightarrow> [\<lparr>cn_transitionKey = or_else (bd_resolvedTransitionName b)
                               (sourcePath @ dot @ event),
                             cn_compensateKey = cname, cn_fromState = wk_state wk,
                             cn_inputSnapshot = input, cn_contextBefore = wk_context wk,
                             cn_createdAt = t, cn_compensatedAt = None\<rparr>])\<rparr>))))"

definition compensating_patch :: "string option \<Rightarrow> int \<Rightarrow> update_patch" where
  "compensating_patch err t = (touch t)\<lparr>pt_status := Some COMPENSATING,
     pt_lastError := map_option Some err\<rparr>"

definition step_failure ::
  "('s, 'u) actor \<Rightarrow> ('s, 'u) runner \<Rightarrow> string \<Rightarrow> string \<Rightarrow> js_error \<Rightarrow> bool \<Rightarrow> string \<Rightarrow> work \<Rightarrow>
     (state_value \<times> bool \<times> step_result, 's, 'u) act" where
  "step_failure a run txId sourcePath err compensateRequested fallbackTarget wk =
     (let msg = error_message err in
      bind (if wk_comps wk \<noteq> []
            then bind (now a) (\<lambda>t. store_update a txId (wk_version wk) (touch t) (wk_comps wk))
            else ret (wk_version wk)) (\<lambda>v1.
      bind (if compensateRequested
            then bind (now a) (\<lambda>t.
                 bind (store_update a txId v1 (compensating_patch (Some msg) t) []) (\<lambda>v2.
                 bind (unwindCompensationStack a run txId (wk_context wk) (Some msg)) (\<lambda>(ctx, n).
                   ret (v2, ctx, n))))
            else ret (v1, wk_context wk, 0)) (\<lambda>(v, ctx, n).
      bind (result (applyTargetTransition (ac_machine a) (wk_state wk) sourcePath fallbackTarget)) (\<lambda>ap.
        let st = ap_nextStateValue ap in
        ret (st, compensateRequested,
          StepFail (wk\<lparr>wk_version := v, wk_state := st, wk_context := ctx, wk_comps := [],
              wk_effects := names (ap_exitEffects ap) @ names (ap_entryEffects ap)\<rparr>)
            n (resolveSettledTransactionStatus (ac_machine a) st compensateRequested) msg)))))"

definition missing_binding :: js_error where
  "missing_binding = JsError ''Cannot read properties of undefined''"

definition find_binding :: "('s, 'u) actor \<Rightarrow> string \<Rightarrow> string \<Rightarrow> ('u binding, 's, 'u) act" where
  "find_binding a statePath event =
     (case map_of (ac_bindings a) (bindingKey statePath event) of
        None \<Rightarrow> throw missing_binding | Some b \<Rightarrow> ret b)"

definition exec_context ::
  "('s, 'u) actor \<Rightarrow> string \<Rightarrow> string \<Rightarrow> 'u binding \<Rightarrow> work \<Rightarrow> jval option \<Rightarrow> int \<Rightarrow> jval dict \<Rightarrow> exec_ctx" where
  "exec_context a txId event b wk input startedAt metadata = \<lparr>ec_transactionId = txId,
     ec_machineId = md_id (ac_machine a), ec_actorId = ac_actorId a, ec_event = event,
     ec_transitionHandlerName = bd_resolvedTransitionName b, ec_currentState = wk_state wk,
     ec_input = input, ec_contextData = wk_context wk, ec_startedAt = startedAt, ec_metadata = metadata\<rparr>"

fun run_matches ::
  "('s, 'u) actor \<Rightarrow> ('s, 'u) runner \<Rightarrow> string \<Rightarrow> string \<Rightarrow> int \<Rightarrow> jval dict \<Rightarrow>
     (matched_transition \<times> jval option) list \<Rightarrow> work \<Rightarrow> (step_result, 's, 'u) act" where
  "run_matches a run txId event startedAt metadata [] wk = ret (StepOk wk)"
| "run_matches a run txId event startedAt metadata (((node, edge), input) # rest) wk =
     bind (find_binding a (sn_path node) (te_event edge)) (\<lambda>b.
     bind (executeWithTelemetry a b (exec_context a txId event b wk input startedAt metadata)
             (\<lambda>out. case out of
                PipeOk output nextContext _ \<Rightarrow>
                  bind (step_success a txId b (sn_path node) event input output nextContext wk)
                    (\<lambda>wk'. ret (wk_state wk', False, StepOk wk'))
              | PipeFail err compensateRequested fallbackTarget _ \<Rightarrow>
                  step_failure a run txId (sn_path node) err compensateRequested fallbackTarget wk))
       (\<lambda>r. case r of
          StepOk wk' \<Rightarrow> run_matches a run txId event startedAt metadata rest wk'
        | StepFail wk' n st msg \<Rightarrow> ret (StepFail wk' n st msg)))"

text \<open>Automatic completion, at most twenty times.\<close>

fun cascade_done ::
  "nat \<Rightarrow> ('s, 'u) actor \<Rightarrow> string \<Rightarrow> jval dict \<Rightarrow> work \<Rightarrow> (work, 's, 'u) act" where
  "cascade_done 0 a txId metadata wk = ret wk"
| "cascade_done (Suc n) a txId metadata wk =
     (case findPendingOnDone (ac_machine a) (wk_state wk) of
        None \<Rightarrow> ret wk
      | Some (node, edge) \<Rightarrow>
          bind (case map_of (ac_bindings a) (bindingKey (sn_path node) ''$onDone'') of
              None \<Rightarrow> ret wk
            | Some b \<Rightarrow>
                if truthy (bd_resolvedTransitionName b) = None then ret wk
                else bind (now a) (\<lambda>t.
                  bind (run_pipeline a b (exec_context a txId ''$onDone'' b wk None t metadata)) (\<lambda>out.
                    case out of
                      PipeOk output nextContext _ \<Rightarrow>
                        ret (wk\<lparr>wk_context := nextContext,
                          wk_effects := wk_effects wk @ or_else (to_effects output) []\<rparr>)
                    | PipeFail _ _ _ _ \<Rightarrow> ret wk)))
            (\<lambda>wk1. case truthy (te_target edge) of
               Some target \<Rightarrow>
                 bind (result (applyTargetTransition (ac_machine a) (wk_state wk1) (sn_path node) target))
                   (\<lambda>ap. cascade_done n a txId metadata (wk1\<lparr>wk_state := ap_nextStateValue ap,
                      wk_effects := wk_effects wk1 @ names (ap_exitEffects ap) @
                        names (te_effects edge) @ names (ap_entryEffects ap)\<rparr>))
             | None \<Rightarrow> ret (wk1\<lparr>wk_effects := wk_effects wk1 @ names (te_effects edge)\<rparr>)))"

definition settle_patch :: "state_value \<Rightarrow> jval \<Rightarrow> tx_status \<Rightarrow> string option \<Rightarrow> int \<Rightarrow> update_patch" where
  "settle_patch st ctx status err t = \<lparr>pt_stateValue = Some st, pt_context = Some ctx,
     pt_status = Some status, pt_activeStep = Some None, pt_lastError = Some err,
     pt_leaseOwner = Some None, pt_leaseExpiresAt = Some None, pt_updatedAt = t\<rparr>"

definition in_flight_patch ::
  "('s, 'u) actor \<Rightarrow> string \<Rightarrow> jval option \<Rightarrow> int \<Rightarrow> update_patch" where
  "in_flight_patch a event rawInput t = (touch t)\<lparr>pt_status := Some IN_FLIGHT,
     pt_activeStep := Some (Some \<lparr>as_event = event, as_input = rawInput, as_startedAt = t\<rparr>),
     pt_leaseOwner := Some (Some (ac_actorId a)),
     pt_leaseExpiresAt := Some (Some (t + max 30000 (rc_stuckThresholdMs (ac_recovery a))))\<rparr>"

text \<open>After the commit: hooks, effects, and the result, read again if an effect moved the transaction.\<close>

definition after_commit ::
  "('s, 'u) actor \<Rightarrow> ('s, 'u) runner \<Rightarrow> string \<Rightarrow> after_event \<Rightarrow> effect_item list \<Rightarrow>
     (execution_result, 's, 'u) act" where
  "after_commit a run txId ev effects =
     seq (emit a run AfterTransition (HookAfter ev))
     (seq (emitSettledTerminalHooks a run txId (ha_currentState ev) (ha_status ev) (ha_context ev) (ha_error ev))
     (bind (reads (getTransitionRevision txId)) (\<lambda>revBefore.
      seq (invokeEffects a run txId (ha_currentState ev) (ha_context ev) effects)
     (bind (reads (getTransitionRevision txId)) (\<lambda>revAfter.
      seq (modify (\<lambda>w. if map_of (w_depth w) txId = None
                       then w\<lparr>w_revision := AList.delete txId (w_revision w)\<rparr> else w))
     (bind (if revAfter \<noteq> revBefore then store_get a txId else ret None) (\<lambda>latest.
      ret (case latest of
          Some snap \<Rightarrow> \<lparr>xr_transactionId = txId, xr_previousState = ha_previousState ev,
            xr_currentState = tx_stateValue snap, xr_status = tx_status snap, xr_value = ha_value ev,
            xr_context = tx_context snap, xr_compensatedSteps = ha_compensatedSteps ev,
            xr_error = truthy (tx_lastError snap)\<rparr>
        | None \<Rightarrow> \<lparr>xr_transactionId = txId, xr_previousState = ha_previousState ev,
            xr_currentState = ha_currentState ev, xr_status = ha_status ev, xr_value = ha_value ev,
            xr_context = ha_context ev, xr_compensatedSteps = ha_compensatedSteps ev,
            xr_error = ha_error ev\<rparr>))))))))"

definition nullish_or :: "jval option \<Rightarrow> jval option \<Rightarrow> jval option" where
  "nullish_or x y = (if x = None \<or> x = Some JNull then y else x)"

definition validate_inputs ::
  "('s, 'u) actor \<Rightarrow> jval option \<Rightarrow> matched_transition list \<Rightarrow> ((matched_transition \<times> jval option) list, 's, 'u) act"
where
  "validate_inputs a rawInput matches =
     fold_each (\<lambda>(node, edge) acc.
         bind (find_binding a (sn_path node) (te_event edge)) (\<lambda>b.
         bind (result (pipeline_validateInput (bd_inputValidator b) rawInput)) (\<lambda>v.
           ret (acc @ [((node, edge), v)])))) matches []"

text \<open>The commit of a step, failed or not, and what follows it.\<close>

definition commit_step ::
  "('s, 'u) actor \<Rightarrow> ('s, 'u) runner \<Rightarrow> tx_snapshot \<Rightarrow> string \<Rightarrow> jval option \<Rightarrow> int \<Rightarrow> work \<Rightarrow> tx_status \<Rightarrow>
     jval option \<Rightarrow> comp_new list \<Rightarrow> nat \<Rightarrow> string option \<Rightarrow> (execution_result, 's, 'u) act" where
  "commit_step a run snapshot event firstInput stepStartedAt wk status value comps compensated err =
     (let txId = tx_transactionId snapshot in
      bind (now a) (\<lambda>completedAt.
      seq (store_update a txId (wk_version wk)
            (settle_patch (wk_state wk) (wk_context wk) status err completedAt) comps)
      (seq (bumpTransitionRevision txId)
       (after_commit a run txId \<lparr>ha_transactionId = txId, ha_machineId = md_id (ac_machine a),
          ha_actorId = ac_actorId a, ha_event = event, ha_input = firstInput,
          ha_previousState = tx_stateValue snapshot, ha_currentState = wk_state wk,
          ha_status = status, ha_value = value, ha_context = wk_context wk,
          ha_compensatedSteps = compensated, ha_durationMs = max 0 (completedAt - stepStartedAt),
          ha_error = err\<rparr> (wk_effects wk)))))"

definition executeTransitionOnSnapshot ::
  "('s, 'u) actor \<Rightarrow> ('s, 'u) runner \<Rightarrow> tx_snapshot \<Rightarrow> string \<Rightarrow> jval option \<Rightarrow> jval dict \<Rightarrow>
     (execution_result, 's, 'u) act" where
  "executeTransitionOnSnapshot a run snapshot event rawInput metadata =
     (let m = ac_machine a; previousState = tx_stateValue snapshot; txId = tx_transactionId snapshot;
          matches = resolveTransitionsForEvent m previousState event
      in if matches = [] then
           throw (InvalidTransitionError (md_id m) event previousState (getAvailableEvents m previousState))
         else
           bind (validate_inputs a rawInput matches) (\<lambda>validated.
           let firstInput = nullish_or (snd (hd validated)) rawInput in
           seq (emit a run BeforeTransition (HookBefore \<lparr>hb_transactionId = txId,
                  hb_machineId = md_id m, hb_actorId = ac_actorId a, hb_event = event,
                  hb_input = firstInput, hb_currentState = previousState,
                  hb_context = tx_context snapshot\<rparr>))
           (bind (now a) (\<lambda>stepStartedAt.
            bind (if tx_status snapshot \<noteq> IN_FLIGHT
                  then store_update a txId (tx_version snapshot)
                         (in_flight_patch a event rawInput stepStartedAt) []
                  else ret (tx_version snapshot)) (\<lambda>v.
            bind (run_matches a run txId event stepStartedAt metadata validated
                    \<lparr>wk_version = v, wk_state = previousState, wk_context = tx_context snapshot,
                     wk_value = None, wk_effects = [], wk_comps = []\<rparr>) (\<lambda>r.
            case r of
              StepFail wk n status msg \<Rightarrow>
                commit_step a run snapshot event firstInput stepStartedAt wk status None [] n (Some msg)
            | StepOk wk0 \<Rightarrow>
                bind (cascade_done 20 a txId metadata wk0) (\<lambda>wk.
                commit_step a run snapshot event firstInput stepStartedAt wk
                  (resolveSettledTransactionStatus m (wk_state wk) False) (wk_value wk) (wk_comps wk) 0 None)))))))"

section \<open>Recovery\<close>

definition lookup_action :: "recovery_config \<Rightarrow> string \<Rightarrow> on_restart_mode option" where
  "lookup_action rc k = map_of (rc_stateActions rc) k"

definition resolveRecoveryModeForState :: "recovery_config \<Rightarrow> state_value \<Rightarrow> on_restart_mode" where
  "resolveRecoveryModeForState rc stateValue =
     (let topKey = (case stateValue of SLeaf s \<Rightarrow> s | SMap [] \<Rightarrow> [] | SMap ((k, _) # _) \<Rightarrow> k);
          serialized = (case stateValue of SLeaf s \<Rightarrow> s | SMap _ \<Rightarrow> json_state stateValue)
      in or_else (or_elseo (if topKey = [] then None else lookup_action rc topKey)
           (lookup_action rc serialized)) (rc_defaultAction rc))"

definition clear_patch :: "int \<Rightarrow> update_patch" where
  "clear_patch t = (touch t)\<lparr>pt_activeStep := Some None, pt_leaseOwner := Some None,
     pt_leaseExpiresAt := Some None\<rparr>"

definition mark_failed_patch :: "string \<Rightarrow> int \<Rightarrow> update_patch" where
  "mark_failed_patch msg t = (clear_patch t)\<lparr>pt_stateValue := Some (SLeaf ''error''),
     pt_status := Some FAILED, pt_lastError := Some (Some msg)\<rparr>"

definition compensated_patch :: "string \<Rightarrow> jval \<Rightarrow> int \<Rightarrow> update_patch" where
  "compensated_patch msg ctx t = (clear_patch t)\<lparr>pt_stateValue := Some (SLeaf ''error''),
     pt_context := Some ctx, pt_status := Some COMPENSATED, pt_lastError := Some (Some msg)\<rparr>"

definition unlock_patch :: "int \<Rightarrow> update_patch" where
  "unlock_patch t = (clear_patch t)\<lparr>pt_status := Some IDLE\<rparr>"

definition release_patch :: "int \<Rightarrow> update_patch" where
  "release_patch t = (touch t)\<lparr>pt_status := Some IDLE, pt_leaseOwner := Some None,
     pt_leaseExpiresAt := Some None\<rparr>"

text \<open>Marking the stack compensating, unwinding it, and settling the transaction as compensated.\<close>

definition compensate_item ::
  "('s, 'u) actor \<Rightarrow> ('s, 'u) runner \<Rightarrow> string \<Rightarrow> tx_summary \<Rightarrow> (unit, 's, 'u) act" where
  "compensate_item a run msg item =
     bind (now a) (\<lambda>t.
     bind (store_update a (su_transactionId item) (su_version item) (compensating_patch None t) []) (\<lambda>ver.
     bind (unwindCompensationStack a run (su_transactionId item) (su_context item) (Some msg)) (\<lambda>(ctx, n).
     bind (now a) (\<lambda>t'.
     seq (store_update a (su_transactionId item) ver (compensated_patch msg ctx t') []) (ret ())))))"

definition continue_item ::
  "('s, 'u) actor \<Rightarrow> ('s, 'u) runner \<Rightarrow> tx_summary \<Rightarrow> (bool, 's, 'u) act" where
  "continue_item a run item =
     bind (store_get a (su_transactionId item)) (\<lambda>full. case full of
         None \<Rightarrow> ret False
       | Some snap \<Rightarrow>
           (case tx_activeStep snap of
              Some step \<Rightarrow>
                bind (now a) (\<lambda>t.
                bind (store_update a (tx_transactionId snap) (tx_version snap) (unlock_patch t) []) (\<lambda>v.
                seq (executeTransitionOnSnapshot a run (snap\<lparr>tx_status := IDLE, tx_version := v\<rparr>)
                      (as_event step) (as_input step)
                      [(''recoveredByActor'', JStr (ac_actorId a))])
                  (ret True)))
            | None \<Rightarrow>
                bind (now a) (\<lambda>t.
                seq (store_update a (tx_transactionId snap) (tx_version snap) (release_patch t) [])
                  (ret True))))"

definition recovery_failed_message :: string where
  "recovery_failed_message = ''Marked FAILED by Actor stuck-transaction recovery''"

definition recovery_compensated_message :: string where
  "recovery_compensated_message = ''Compensated by Actor stuck-transaction recovery''"

text \<open>The action for one stuck transaction; whether it is recorded as taken.\<close>

definition recover_item ::
  "('s, 'u) actor \<Rightarrow> ('s, 'u) runner \<Rightarrow> on_restart_mode \<Rightarrow> tx_summary \<Rightarrow> (bool, 's, 'u) act" where
  "recover_item a run action item =
     (case action of
        STOP \<Rightarrow> ret True
      | DELETE \<Rightarrow>
          seq (store_call (so_deleteTransactions (ac_store a) [su_transactionId item])) (ret True)
      | MARK_FAIL \<Rightarrow>
          bind (now a) (\<lambda>t.
          seq (store_update a (su_transactionId item) (su_version item)
                (mark_failed_patch recovery_failed_message t) []) (ret True))
      | COMPENSATE \<Rightarrow> seq (compensate_item a run recovery_compensated_message item) (ret True)
      | CONTINUE \<Rightarrow> continue_item a run item)"

definition add_action :: "on_restart_mode \<Rightarrow> string \<Rightarrow> recovery_report \<Rightarrow> recovery_report" where
  "add_action mode txId rep = rep\<lparr>rr_actionsTaken :=
     (rr_actionsTaken rep)(mode := rr_actionsTaken rep mode @ [txId])\<rparr>"

definition sweep_item ::
  "('s, 'u) actor \<Rightarrow> ('s, 'u) runner \<Rightarrow> tx_summary \<Rightarrow> recovery_report \<Rightarrow> (recovery_report, 's, 'u) act" where
  "sweep_item a run item rep =
     (if \<not> su_isStuck item then ret rep
      else
        (let rep1 = rep\<lparr>rr_stuckDetected := rr_stuckDetected rep + 1\<rparr>;
             action = resolveRecoveryModeForState (ac_recovery a) (su_stateValue item)
         in bind (attempt (recover_item a run action item)) (\<lambda>r. ret (case r of
              Inr True \<Rightarrow> add_action action (su_transactionId item) rep1
            | Inr False \<Rightarrow> rep1
            | Inl e \<Rightarrow> rep1\<lparr>rr_errors := rr_errors rep1 @ [(su_transactionId item, error_message e)]\<rparr>))))"

definition empty_report :: "int \<Rightarrow> recovery_report" where
  "empty_report t = \<lparr>rr_sweptAt = t, rr_scannedInFlight = 0, rr_stuckDetected = 0,
     rr_actionsTaken = (\<lambda>_. []), rr_retentionDeleted = 0, rr_errors = []\<rparr>"

definition machine_filter :: "('s, 'u) actor \<Rightarrow> tx_status list \<Rightarrow> query_filter" where
  "machine_filter a statuses = no_filter\<lparr>qf_machineId := Some (md_id (ac_machine a)),
     qf_statuses := Some statuses\<rparr>"

definition store_query ::
  "('s, 'u) actor \<Rightarrow> query_filter \<Rightarrow> int \<Rightarrow> int \<Rightarrow> (tx_summary list, 's, 'u) act" where
  "store_query a f t threshold = store_call (so_queryTransactions (ac_store a) f t threshold)"

definition retention_sweep :: "('s, 'u) actor \<Rightarrow> int \<Rightarrow> int \<Rightarrow> (nat, 's, 'u) act" where
  "retention_sweep a t threshold =
     bind (reads w_scheduler) (\<lambda>sc. case sc_retentionMs sc of
         None \<Rightarrow> ret 0
       | Some keep \<Rightarrow>
           if keep < 0 then ret 0
           else bind (store_query a ((machine_filter a [COMPLETED, FAILED, COMPENSATED])\<lparr>
                  qf_olderThanTimestamp := Some (t - keep), qf_limit := Some (sc_batchSize sc)\<rparr>)
                  t threshold) (\<lambda>expired.
                if expired = [] then ret 0
                else store_call (so_deleteTransactions (ac_store a) (map su_transactionId expired))))"

definition executeRecoverySweep ::
  "('s, 'u) actor \<Rightarrow> ('s, 'u) runner \<Rightarrow> int \<Rightarrow> (recovery_report, 's, 'u) act" where
  "executeRecoverySweep a run stuckThresholdMs =
     bind (now a) (\<lambda>t.
     bind (reads w_scheduler) (\<lambda>sc.
     bind (store_query a ((machine_filter a [IN_FLIGHT, COMPENSATING])\<lparr>qf_limit := Some (sc_batchSize sc)\<rparr>)
             t stuckThresholdMs) (\<lambda>inFlight.
     bind (fold_each (sweep_item a run) inFlight ((empty_report t)\<lparr>rr_scannedInFlight := length inFlight\<rparr>))
       (\<lambda>rep1.
     bind (retention_sweep a t stuckThresholdMs) (\<lambda>deleted.
     let rep = rep1\<lparr>rr_retentionDeleted := deleted\<rparr> in
     seq (modify (\<lambda>w. w\<lparr>w_lastRunAt := Some t, w_totalSweeps := w_totalSweeps w + 1,
            w_totalRecovered := w_totalRecovered w + length (rr_actionsTaken rep DELETE) +
              length (rr_actionsTaken rep MARK_FAIL) + length (rr_actionsTaken rep COMPENSATE) +
              length (rr_actionsTaken rep CONTINUE),
            w_totalRetentionCleaned := w_totalRetentionCleaned w + deleted,
            w_lastReport := Some rep\<rparr>))
       (if rr_actionsTaken rep STOP \<noteq> [] \<and> rc_haltActorOnStop (ac_recovery a)
        then seq (modify (\<lambda>w. w\<lparr>w_stoppedByRecovery := True\<rparr>))
               (throw (ActorStoppedByRecoveryError (ac_actorId a) (rr_actionsTaken rep STOP)))
        else ret rep))))))"

section \<open>Scheduler state\<close>

definition startScheduler :: "('s, 'u) actor \<Rightarrow> (unit, 's, 'u) act" where
  "startScheduler a = modify (\<lambda>w.
     if w_timerRunning w then w
     else w\<lparr>w_scheduler := (w_scheduler w)\<lparr>sc_enabled := True\<rparr>, w_timerRunning := True,
            w_nextRunAt := Some (wo_now (ac_world a) (w_user w) + max 25 (sc_sweepIntervalMs (w_scheduler w)))\<rparr>)"

definition stopScheduler :: "(unit, 's, 'u) act" where
  "stopScheduler = modify (\<lambda>w. w\<lparr>w_timerRunning := False, w_nextRunAt := None\<rparr>)"

text \<open>A partial configuration; \<open>Some None\<close> as retention is an explicit \<open>undefined\<close>.\<close>

record scheduler_options =
  sx_enabled :: "bool option"
  sx_sweepIntervalMs :: "int option"
  sx_stuckThresholdMs :: "int option"
  sx_retentionMs :: "int option option"
  sx_batchSize :: "int option"

definition spread_scheduler :: "scheduler_config \<Rightarrow> scheduler_options \<Rightarrow> scheduler_config" where
  "spread_scheduler sc p = \<lparr>sc_enabled = or_else (sx_enabled p) (sc_enabled sc),
     sc_sweepIntervalMs = or_else (sx_sweepIntervalMs p) (sc_sweepIntervalMs sc),
     sc_stuckThresholdMs = or_else (sx_stuckThresholdMs p) (sc_stuckThresholdMs sc),
     sc_retentionMs = or_else (sx_retentionMs p) (sc_retentionMs sc),
     sc_batchSize = or_else (sx_batchSize p) (sc_batchSize sc)\<rparr>"

definition updateSchedulerConfig ::
  "('s, 'u) actor \<Rightarrow> scheduler_options \<Rightarrow> (scheduler_config, 's, 'u) act" where
  "updateSchedulerConfig a patch =
     bind (reads w_timerRunning) (\<lambda>wasRunning.
     seq (if wasRunning then stopScheduler else ret ())
    (seq (modify (\<lambda>w. w\<lparr>w_scheduler := spread_scheduler (w_scheduler w) patch\<rparr>))
     (bind (reads w_scheduler) (\<lambda>sc.
      seq (if sc_enabled sc then startScheduler a else ret ()) (reads w_scheduler)))))"

text \<open>One tick of the timer: a sweep whose error is logged and dropped.\<close>

definition scheduler_tick :: "('s, 'u) actor \<Rightarrow> ('s, 'u) runner \<Rightarrow> (unit, 's, 'u) act" where
  "scheduler_tick a run =
     bind (reads w_scheduler) (\<lambda>sc.
     seq (attempt (executeRecoverySweep a run (sc_stuckThresholdMs sc)))
       (modify (\<lambda>w. if w_timerRunning w
          then w\<lparr>w_nextRunAt := Some (wo_now (ac_world a) (w_user w) + max 25 (sc_sweepIntervalMs sc))\<rparr>
          else w)))"

section \<open>The public operations\<close>

definition initialize :: "('s, 'u) actor \<Rightarrow> ('s, 'u) runner \<Rightarrow> (recovery_report option, 's, 'u) act" where
  "initialize a run =
     bind (reads w_initialized) (\<lambda>done.
       if done then reads w_lastReport
       else
         seq (store_call (\<lambda>s. (Inr (), so_initialize (ac_store a) s)))
        (seq (modify (\<lambda>w. w\<lparr>w_initialized := True\<rparr>))
        (bind (if rc_enabled (ac_recovery a)
               then bind (executeRecoverySweep a run (rc_stuckThresholdMs (ac_recovery a))) (\<lambda>r. ret (Some r))
               else ret None) (\<lambda>report.
         bind (reads w_scheduler) (\<lambda>sc.
         seq (if sc_enabled sc then startScheduler a else ret ()) (ret report))))))"

definition ensureReady :: "('s, 'u) actor \<Rightarrow> ('s, 'u) runner \<Rightarrow> (unit, 's, 'u) act" where
  "ensureReady a run =
     bind (reads w_initialized) (\<lambda>done.
     seq (if done then ret () else seq (initialize a run) (ret ()))
     (bind (reads w_stoppedByRecovery) (\<lambda>stopped.
        if stopped then throw (ActorStoppedByRecoveryError (ac_actorId a) []) else ret ())))"

definition no_initial_state :: "machine \<Rightarrow> js_error" where
  "no_initial_state m = JsError ''Cannot read properties of undefined''"

definition startTransaction ::
  "('s, 'u) actor \<Rightarrow> ('s, 'u) runner \<Rightarrow> jval \<Rightarrow> string option \<Rightarrow> (string, 's, 'u) act" where
  "startTransaction a run initialContext customTransactionId =
     seq (ensureReady a run)
     (bind (result (enforceValidation InitialContext initialContext (ac_contextValidator a))) (\<lambda>ctx.
      bind (case customTransactionId of
          Some i \<Rightarrow> ret i
        | None \<Rightarrow> user_call (\<lambda>u. case ac_uuid a u of (i, u') \<Rightarrow> (Inr i, u'))) (\<lambda>txId.
      bind (now a) (\<lambda>t.
      case resolveInitialState (ac_machine a) of
        None \<Rightarrow> throw (no_initial_state (ac_machine a))
      | Some (stateValue, entryEffects) \<Rightarrow>
          (let status = resolveSettledTransactionStatus (ac_machine a) stateValue False in
           seq (store_call (so_createTransaction (ac_store a) \<lparr>tx_transactionId = txId,
                 tx_machineId = md_id (ac_machine a), tx_machineVersion = md_version (ac_machine a),
                 tx_actorId = ac_actorId a, tx_stateValue = stateValue, tx_context = ctx,
                 tx_status = status, tx_activeStep = None, tx_lastError = None, tx_version = 1,
                 tx_leaseOwner = None, tx_leaseExpiresAt = None, tx_createdAt = t, tx_updatedAt = t\<rparr>))
          (seq (emit a run OnStart (HookStart \<lparr>hs_transactionId = txId,
                 hs_machineId = md_id (ac_machine a), hs_actorId = ac_actorId a,
                 hs_initialState = stateValue, hs_status = status, hs_context = ctx\<rparr>))
          (seq (emitSettledTerminalHooks a run txId stateValue status ctx None)
          (seq (invokeEffects a run txId stateValue ctx (names entryEffects)) (ret txId))))))))) "

definition transition ::
  "('s, 'u) actor \<Rightarrow> ('s, 'u) runner \<Rightarrow> string \<Rightarrow> string \<Rightarrow> jval option \<Rightarrow> jval dict \<Rightarrow>
     (execution_result, 's, 'u) act" where
  "transition a run txId event input metadata =
     seq (ensureReady a run)
     (bind (store_get a txId) (\<lambda>snapshot. case snapshot of
        None \<Rightarrow> throw (TransactionNotFoundError txId)
      | Some snap \<Rightarrow>
          if tx_machineId snap \<noteq> md_id (ac_machine a) then throw (TransactionNotFoundError txId)
          else executeTransitionOnSnapshot a run snap event input metadata))"

definition triggerSweepNow :: "('s, 'u) actor \<Rightarrow> ('s, 'u) runner \<Rightarrow> (recovery_report, 's, 'u) act" where
  "triggerSweepNow a run =
     seq (store_call (\<lambda>s. (Inr (), so_initialize (ac_store a) s)))
     (bind (reads w_scheduler) (\<lambda>sc. executeRecoverySweep a run (sc_stuckThresholdMs sc)))"

section \<open>Forced clean-up\<close>

definition cleanup_filter :: "('s, 'u) actor \<Rightarrow> cleanup_options \<Rightarrow> int \<Rightarrow> int \<Rightarrow> query_filter" where
  "cleanup_filter a opts t threshold = \<lparr>
     qf_machineId = Some (md_id (ac_machine a)), qf_actorId = co_actorId opts,
     qf_transactionIds = co_transactionIds opts,
     qf_statuses = Some (or_else (co_statuses opts)
       (if or_else (co_includeInFlight opts) False
        then [IDLE, IN_FLIGHT, COMPENSATING, COMPLETED, FAILED, COMPENSATED]
        else [COMPLETED, FAILED, COMPENSATED])),
     qf_stuckBeforeTimestamp = (if or_else (co_stuckOnly opts) False then Some (t - threshold) else None),
     qf_olderThanTimestamp = map_option (\<lambda>d. t - d) (co_olderThanMs opts),
     qf_stateEquals = None, qf_limit = None, qf_offset = None\<rparr>"

definition cleanup_failed_message :: string where
  "cleanup_failed_message = ''Marked FAILED via administrative forceCleanUp''"

definition cleanup_compensated_message :: string where
  "cleanup_compensated_message = ''Compensated via administrative forceCleanUp''"

definition cleanup_item ::
  "('s, 'u) actor \<Rightarrow> ('s, 'u) runner \<Rightarrow> cleanup_action \<Rightarrow> tx_summary \<Rightarrow> cleanup_report \<Rightarrow>
     (cleanup_report, 's, 'u) act" where
  "cleanup_item a run action item rep =
     bind (attempt (case action of
         CMarkFail \<Rightarrow> bind (now a) (\<lambda>t. seq (store_update a (su_transactionId item) (su_version item)
                        (mark_failed_patch cleanup_failed_message t) []) (ret ()))
       | CForceUnlock \<Rightarrow> bind (now a) (\<lambda>t. seq (store_update a (su_transactionId item) (su_version item)
                        (unlock_patch t) []) (ret ()))
       | CCompensate \<Rightarrow> compensate_item a run cleanup_compensated_message item
       | CDelete \<Rightarrow> ret ()))
     (\<lambda>r. ret (case r of
        Inl e \<Rightarrow> rep\<lparr>cl_errors := cl_errors rep @ [(su_transactionId item, error_message e)]\<rparr>
      | Inr _ \<Rightarrow> (case action of
            CMarkFail \<Rightarrow> rep\<lparr>cl_markedFailed := cl_markedFailed rep @ [su_transactionId item]\<rparr>
          | CForceUnlock \<Rightarrow> rep\<lparr>cl_unlocked := cl_unlocked rep @ [su_transactionId item]\<rparr>
          | CCompensate \<Rightarrow> rep\<lparr>cl_compensated := cl_compensated rep @ [su_transactionId item]\<rparr>
          | CDelete \<Rightarrow> rep)))"

definition forceCleanUp ::
  "('s, 'u) actor \<Rightarrow> ('s, 'u) runner \<Rightarrow> cleanup_options \<Rightarrow> (cleanup_report, 's, 'u) act" where
  "forceCleanUp a run opts =
     (let action = or_else (co_action opts) CDelete; dryRun = or_else (co_dryRun opts) False;
          threshold = or_else (co_stuckThresholdMs opts) (rc_stuckThresholdMs (ac_recovery a)) in
      seq (store_call (\<lambda>s. (Inr (), so_initialize (ac_store a) s)))
      (bind (now a) (\<lambda>t.
       bind (store_query a (cleanup_filter a opts t threshold) t threshold) (\<lambda>candidates.
       let rep = \<lparr>cl_scanned = length candidates, cl_matched = length candidates, cl_deleted = [],
             cl_markedFailed = [], cl_compensated = [], cl_unlocked = [], cl_dryRun = dryRun,
             cl_errors = []\<rparr>;
           ids = map su_transactionId candidates
       in if dryRun \<or> candidates = [] then ret rep
          else if action = CDelete then
            seq (store_call (so_deleteTransactions (ac_store a) ids)) (ret (rep\<lparr>cl_deleted := ids\<rparr>))
          else fold_each (cleanup_item a run action) candidates rep))))"

definition forceCleanUpTransaction ::
  "('s, 'u) actor \<Rightarrow> ('s, 'u) runner \<Rightarrow> string \<Rightarrow> cleanup_action option \<Rightarrow> (cleanup_report, 's, 'u) act" where
  "forceCleanUpTransaction a run txId action =
     forceCleanUp a run \<lparr>co_machineId = None, co_actorId = None, co_transactionIds = Some [txId],
       co_statuses = None, co_includeInFlight = Some True, co_stuckOnly = None,
       co_stuckThresholdMs = None, co_olderThanMs = None, co_action = Some (or_else action CDelete),
       co_dryRun = None\<rparr>"

section \<open>Introspection\<close>

definition getActiveCount :: "('s, 'u) actor \<Rightarrow> state_value option \<Rightarrow> (nat, 's, 'u) act" where
  "getActiveCount a st =
     seq (store_call (\<lambda>s. (Inr (), so_initialize (ac_store a) s)))
       (store_call (so_countTransactions (ac_store a)
          ((machine_filter a NON_TERMINAL_STATUSES)\<lparr>qf_stateEquals := st\<rparr>)))"

definition listActiveTransactions ::
  "('s, 'u) actor \<Rightarrow> int option \<Rightarrow> int option \<Rightarrow> (tx_summary list, 's, 'u) act" where
  "listActiveTransactions a limit offset =
     seq (store_call (\<lambda>s. (Inr (), so_initialize (ac_store a) s)))
     (bind (now a) (\<lambda>t. store_query a ((machine_filter a NON_TERMINAL_STATUSES)\<lparr>qf_limit := limit,
        qf_offset := offset\<rparr>) t (rc_stuckThresholdMs (ac_recovery a))))"

definition listInFlightTransactions ::
  "('s, 'u) actor \<Rightarrow> bool \<Rightarrow> int option \<Rightarrow> int option \<Rightarrow> (tx_summary list, 's, 'u) act" where
  "listInFlightTransactions a stuckOnly limit offset =
     seq (store_call (\<lambda>s. (Inr (), so_initialize (ac_store a) s)))
     (bind (now a) (\<lambda>t. store_query a ((machine_filter a [IN_FLIGHT, COMPENSATING])\<lparr>
        qf_stuckBeforeTimestamp := (if stuckOnly then Some (t - rc_stuckThresholdMs (ac_recovery a)) else None),
        qf_limit := limit, qf_offset := offset\<rparr>) t (rc_stuckThresholdMs (ac_recovery a))))"

definition actor_getTransaction :: "('s, 'u) actor \<Rightarrow> string \<Rightarrow> (tx_snapshot option, 's, 'u) act" where
  "actor_getTransaction a txId =
     seq (store_call (\<lambda>s. (Inr (), so_initialize (ac_store a) s)))
     (bind (store_get a txId) (\<lambda>snap. ret (case snap of
        Some s \<Rightarrow> if tx_machineId s \<noteq> md_id (ac_machine a) then None else Some s | None \<Rightarrow> None)))"

section \<open>Running user programs\<close>

text \<open>
  The runner of a program with the given fuel. Each call of the program on the actor and each action
  uses one unit; the calls run their own programs with what is left. Outside an effect there is no
  \<open>runEffect\<close> to call.
\<close>

fun run_prog :: "nat \<Rightarrow> ('s, 'u) actor \<Rightarrow> ('s, 'u) runner" where
  "run_prog 0 a env p = out_of_fuel"
| "run_prog (Suc n) a env p =
     (case p of
        PDone \<Rightarrow> ret ()
      | PThrow e \<Rightarrow> throw e
      | PAct f \<Rightarrow> bind (user_call (\<lambda>u. case f u of (p', u') \<Rightarrow> (Inr p', u'))) (run_prog n a env)
      | PTransition txId event input metadata k \<Rightarrow>
          bind (attempt (transition a (run_prog n a) txId event input metadata)) (\<lambda>r. run_prog n a env (k r))
      | PStart ctx txId k \<Rightarrow>
          bind (attempt (startTransaction a (run_prog n a) ctx txId)) (\<lambda>r. run_prog n a env (k r))
      | PRunEffect name payload k \<Rightarrow>
          (case env of
             None \<Rightarrow> run_prog n a env (k (Inl (JsError ''runEffect is not a function'')))
           | Some (txId, st, ctx, baseline) \<Rightarrow>
               bind (attempt (invokeSingleEffect a (run_prog n a) txId st ctx name payload baseline))
                 (\<lambda>r. run_prog n a env (k r))))"

section \<open>What a client may do with an actor\<close>

datatype actor_call =
    CallInitialize
  | CallStart jval "string option"
  | CallTransition string string "jval option" "jval dict"
  | CallSweep
  | CallTick
  | CallCleanUp cleanup_options
  | CallSchedule scheduler_options
  | CallStartScheduler
  | CallStopScheduler
  | CallGet string
  | CallActiveCount "state_value option"
  | CallListActive "int option" "int option"
  | CallListInFlight bool "int option" "int option"

definition finished :: "('a, 's, 'u) act \<Rightarrow> (unit, 's, 'u) act" where
  "finished m = bind m (\<lambda>_. ret ())"

fun perform :: "nat \<Rightarrow> ('s, 'u) actor \<Rightarrow> actor_call \<Rightarrow> (unit, 's, 'u) act" where
  "perform n a CallInitialize = finished (initialize a (run_prog n a))"
| "perform n a (CallStart ctx i) = finished (startTransaction a (run_prog n a) ctx i)"
| "perform n a (CallTransition i ev input md) = finished (transition a (run_prog n a) i ev input md)"
| "perform n a CallSweep = finished (triggerSweepNow a (run_prog n a))"
| "perform n a CallTick = scheduler_tick a (run_prog n a)"
| "perform n a (CallCleanUp opts) = finished (forceCleanUp a (run_prog n a) opts)"
| "perform n a (CallSchedule patch) = finished (updateSchedulerConfig a patch)"
| "perform n a CallStartScheduler = startScheduler a"
| "perform n a CallStopScheduler = stopScheduler"
| "perform n a (CallGet i) = finished (actor_getTransaction a i)"
| "perform n a (CallActiveCount st) = finished (getActiveCount a st)"
| "perform n a (CallListActive l off) = finished (listActiveTransactions a l off)"
| "perform n a (CallListInFlight b l off) = finished (listInFlightTransactions a b l off)"

text \<open>
  The worlds a client reaches: calls one after another with any fuel and any outcome, and steps of
  the outside world in between.
\<close>

inductive actor_reach :: "('s, 'u) actor \<Rightarrow> ('s, 'u) world \<Rightarrow> ('s, 'u) world \<Rightarrow> bool"
  for a where
  here: "actor_reach a w w"
| call: "actor_reach a w w' \<Longrightarrow> perform n a c w' = Some (r, w'') \<Longrightarrow> actor_reach a w w''"
| outside: "actor_reach a w w' \<Longrightarrow> actor_reach a w (w'\<lparr>w_user := u\<rparr>)"

end
