(* ===== verification/ActorKept.thy ===== *)
theory ActorKept
  imports Actor
begin

text \<open>
  Two families of facts about every operation of the actor. With more fuel an operation that ended
  ends the same way (\<open>run_mono\<close>). And the interface \<open>kept\<close>: an invariant of the world that the store
  operations the actor uses and a single effect preserve is preserved by every operation and, by
  induction on the fuel, by every user program that calls back into the actor.
\<close>

section \<open>More fuel\<close>

definition less_runner :: "('s, 'u) runner \<Rightarrow> ('s, 'u) runner \<Rightarrow> bool" where
  "less_runner run run' \<longleftrightarrow> (\<forall>env p. less_run (run env p) (run' env p))"

lemma less_runnerD: "less_runner run run' \<Longrightarrow> less_run (run env p) (run' env p)"
  by (simp add: less_runner_def)

lemma less_run_step [run_mono]:
  "(\<And>wk. less_run (f wk) (f' wk)) \<Longrightarrow> (\<And>wk n st msg. less_run (g wk n st msg) (g' wk n st msg)) \<Longrightarrow>
     less_run (case r of StepOk wk \<Rightarrow> f wk | StepFail wk n st msg \<Rightarrow> g wk n st msg)
       (case r of StepOk wk \<Rightarrow> f' wk | StepFail wk n st msg \<Rightarrow> g' wk n st msg)"
  by (cases r) auto

lemma less_run_outcome [run_mono]:
  "(\<And>x c n. less_run (f x c n) (f' x c n)) \<Longrightarrow> (\<And>e c t n. less_run (g e c t n) (g' e c t n)) \<Longrightarrow>
     less_run (case out of PipeOk x c n \<Rightarrow> f x c n | PipeFail e c t n \<Rightarrow> g e c t n)
       (case out of PipeOk x c n \<Rightarrow> f' x c n | PipeFail e c t n \<Rightarrow> g' e c t n)"
  by (cases out) auto

lemma emit_mono [run_mono]:
  "less_runner run run' \<Longrightarrow> less_run (emit a run slot ev) (emit a run' slot ev)"
  unfolding emit_def by (intro run_mono less_runnerD)

lemma terminal_mono [run_mono]:
  "less_runner run run' \<Longrightarrow>
     less_run (emitSettledTerminalHooks a run t st s c e) (emitSettledTerminalHooks a run' t st s c e)"
  unfolding emitSettledTerminalHooks_def by (intro run_mono)

lemma effect_mono [run_mono]:
  "less_runner run run' \<Longrightarrow>
     less_run (invokeSingleEffect a run t st c n p b) (invokeSingleEffect a run' t st c n p b)"
  unfolding invokeSingleEffect_def Let_def by (intro run_mono less_runnerD)

lemma effects_mono [run_mono]:
  "less_runner run run' \<Longrightarrow> less_run (invokeEffects a run t st c es) (invokeEffects a run' t st c es)"
  unfolding invokeEffects_def by (intro run_mono)

lemma unwind_mono [run_mono]:
  "less_runner run run' \<Longrightarrow>
     less_run (unwindCompensationStack a run t c e) (unwindCompensationStack a run' t c e)"
  unfolding unwindCompensationStack_def unwind_entry_def Let_def by (intro run_mono)

lemma step_failure_mono [run_mono]:
  "less_runner run run' \<Longrightarrow> less_run (step_failure a run t p e c f wk) (step_failure a run' t p e c f wk)"
  unfolding step_failure_def Let_def by (intro run_mono)

lemma telemetry_mono [run_mono]:
  "(\<And>out. less_run (k out) (k' out)) \<Longrightarrow>
     less_run (executeWithTelemetry a b c k) (executeWithTelemetry a b c k')"
  unfolding executeWithTelemetry_def Let_def by (intro run_mono)

lemma matches_mono [run_mono]:
  "less_runner run run' \<Longrightarrow> less_run (run_matches a run t ev s md vs wk) (run_matches a run' t ev s md vs wk)"
proof (induction vs arbitrary: wk)
  case (Cons v vs)
  obtain node edge input where v: "v = ((node, edge), input)" by (metis surj_pair)
  from Cons show ?case unfolding v run_matches.simps by (intro run_mono)
qed (simp add: less_run_refl)

lemma after_commit_mono [run_mono]:
  "less_runner run run' \<Longrightarrow> less_run (after_commit a run t ev es) (after_commit a run' t ev es)"
  unfolding after_commit_def by (intro run_mono)

lemma execute_mono [run_mono]:
  "less_runner run run' \<Longrightarrow>
     less_run (executeTransitionOnSnapshot a run snap ev i md) (executeTransitionOnSnapshot a run' snap ev i md)"
  unfolding executeTransitionOnSnapshot_def commit_step_def Let_def by (intro run_mono)

lemma compensate_mono [run_mono]:
  "less_runner run run' \<Longrightarrow> less_run (compensate_item a run msg item) (compensate_item a run' msg item)"
  unfolding compensate_item_def by (intro run_mono)

lemma continue_mono [run_mono]:
  "less_runner run run' \<Longrightarrow> less_run (continue_item a run item) (continue_item a run' item)"
  unfolding continue_item_def by (intro run_mono)

lemma recover_mono [run_mono]:
  "less_runner run run' \<Longrightarrow> less_run (recover_item a run act item) (recover_item a run' act item)"
  unfolding recover_item_def by (cases act) (auto intro: run_mono)

lemma sweep_mono [run_mono]:
  "less_runner run run' \<Longrightarrow> less_run (executeRecoverySweep a run th) (executeRecoverySweep a run' th)"
  unfolding executeRecoverySweep_def sweep_item_def Let_def by (intro run_mono)

lemma initialize_mono [run_mono]:
  "less_runner run run' \<Longrightarrow> less_run (initialize a run) (initialize a run')"
  unfolding initialize_def by (intro run_mono)

lemma ready_mono [run_mono]: "less_runner run run' \<Longrightarrow> less_run (ensureReady a run) (ensureReady a run')"
  unfolding ensureReady_def by (intro run_mono)

lemma start_mono [run_mono]:
  "less_runner run run' \<Longrightarrow> less_run (startTransaction a run c i) (startTransaction a run' c i)"
  unfolding startTransaction_def Let_def by (intro run_mono)

lemma transition_mono [run_mono]:
  "less_runner run run' \<Longrightarrow> less_run (transition a run t ev i md) (transition a run' t ev i md)"
  unfolding transition_def by (intro run_mono)

lemma cleanup_item_mono [run_mono]:
  "less_runner run run' \<Longrightarrow> less_run (cleanup_item a run act item rep) (cleanup_item a run' act item rep)"
  unfolding cleanup_item_def
  by (cases act) (auto intro!: less_run_bind less_run_attempt less_run_refl compensate_mono)

lemma cleanup_mono [run_mono]:
  "less_runner run run' \<Longrightarrow> less_run (forceCleanUp a run opts) (forceCleanUp a run' opts)"
  unfolding forceCleanUp_def Let_def by (intro run_mono)

text \<open>A program that ends with some fuel ends the same way with more.\<close>

lemma run_prog_Suc: "less_run (run_prog n a env p) (run_prog (Suc n) a env p)"
proof (induction n arbitrary: env p)
  case (Suc n)
  have le: "less_runner (run_prog n a) (run_prog (Suc n) a)"
    using Suc by (simp add: less_runner_def del: run_prog.simps)
  have one: "less_run (run_prog n a env q) (run_prog (Suc n) a env q)" for env q
    by (rule Suc)
  show ?case
    unfolding run_prog.simps(2) [of "Suc n" a env p] run_prog.simps(2) [of n a env p]
    by (cases p; cases env) (auto simp del: run_prog.simps intro!: less_run_bind less_run_attempt
        less_run_refl effect_mono transition_mono start_mono one le)
qed (simp add: less_run_fuel)

lemma run_prog_more: "n \<le> m \<Longrightarrow> less_runner (run_prog n a) (run_prog m a)"
proof (induction rule: dec_induct)
  case (step m)
  then show ?case
    using run_prog_Suc [of m a] by (simp add: less_runner_def less_run_def del: run_prog.simps)
qed (simp add: less_runner_def less_run_refl)

section \<open>Invariants of the actor\<close>

text \<open>
  What an actor writes to a transaction: nothing about its run, its start, or its end.
\<close>

definition tidy_patch :: "update_patch \<Rightarrow> bool" where
  "tidy_patch p \<longleftrightarrow>
     pt_status p = Some IN_FLIGHT \<or> pt_status p = Some COMPENSATING \<or>
     pt_status p = None \<and> pt_activeStep p = None \<and> pt_leaseOwner p = None \<and> pt_leaseExpiresAt p = None \<or>
     pt_activeStep p = Some None \<and> pt_leaseOwner p = Some None \<and> pt_leaseExpiresAt p = Some None"

definition fresh_record :: "('s, 'u) actor \<Rightarrow> tx_record \<Rightarrow> bool" where
  "fresh_record a r \<longleftrightarrow> tx_machineId r = md_id (ac_machine a) \<and> tx_activeStep r = None \<and>
     tx_leaseOwner r = None \<and> tx_leaseExpiresAt r = None"

lemma tidy_patches [simp]:
  "tidy_patch (touch t)" "tidy_patch (in_flight_patch a ev i t)" "tidy_patch (compensating_patch e t)"
  "tidy_patch (settle_patch st ctx status e t)" "tidy_patch (mark_failed_patch msg t)"
  "tidy_patch (compensated_patch msg ctx t)" "tidy_patch (unlock_patch t)"
  by (simp_all add: tidy_patch_def touch_def in_flight_patch_def compensating_patch_def settle_patch_def
      mark_failed_patch_def compensated_patch_def unlock_patch_def clear_patch_def)

text \<open>
  The interface of an invariant of one actor: \<open>P j\<close> holds between operations for every \<open>j\<close>,
  \<open>mine j i\<close> that the actor may write transaction \<open>i\<close>, \<open>got j\<close> that a snapshot is current.
\<close>

locale kept =
  fixes a :: "('s, 'u) actor"
    and P :: "'i \<Rightarrow> ('s, 'u) world \<Rightarrow> bool"
    and mine :: "'i \<Rightarrow> string \<Rightarrow> bool"
    and got :: "'i \<Rightarrow> tx_snapshot \<Rightarrow> ('s, 'u) world \<Rightarrow> bool"
  assumes frame: "P j w \<Longrightarrow> w_store w' = w_store w \<Longrightarrow> w_depth w' = w_depth w \<Longrightarrow> P j w'"
    and got_frame: "got j snap w \<Longrightarrow> w_store w' = w_store w \<Longrightarrow> got j snap w'"
    and init: "keeps (P j) (store_call (\<lambda>s. (Inr (), so_initialize (ac_store a) s)))"
    and create: "fresh_record a r \<Longrightarrow> keeps (P j) (store_call (so_createTransaction (ac_store a) r))"
    and get: "hoare (P j) (store_get a i) (\<lambda>r w. P j w \<and> (\<forall>snap. r = Inr (Some snap) \<longrightarrow>
      got j snap w \<and> (mine j i \<or> tx_machineId snap = md_id (ac_machine a) \<longrightarrow> mine j (tx_transactionId snap))))"
    and update: "mine j i \<Longrightarrow> tidy_patch p \<Longrightarrow> keeps (P j) (store_update a i v p ns)"
    and release: "mine j (tx_transactionId snap) \<Longrightarrow> tx_activeStep snap = None \<Longrightarrow>
      hoare (\<lambda>w. P j w \<and> got j snap w)
        (store_update a (tx_transactionId snap) (tx_version snap) (release_patch t) []) (\<lambda>_. P j)"
    and stack: "keeps (P j) (store_call (so_getUncompensatedStack (ac_store a) i))"
    and mark: "mine j i \<Longrightarrow> keeps (P j) (store_call (so_markCompensationExecuted (ac_store a) i q t))"
    and query: "qf_machineId f = Some (md_id (ac_machine a)) \<Longrightarrow>
      hoare (P j) (store_query a f t th) (\<lambda>r w. P j w \<and>
        (\<forall>xs x. r = Inr xs \<longrightarrow> x \<in> set xs \<longrightarrow> mine j (su_transactionId x)))"
    and count: "keeps (P j) (store_call (so_countTransactions (ac_store a) f))"
    and delete: "(\<And>i. i \<in> set ids \<Longrightarrow> mine j i) \<Longrightarrow>
      keeps (P j) (store_call (so_deleteTransactions (ac_store a) ids))"
    and effect: "(\<And>j env p. keeps (P j) (run env p)) \<Longrightarrow>
      keeps (P j) (invokeSingleEffect a run i st c n pl b)"
begin

lemma keeps_modify_frame [keeps_intros]:
  "(\<And>w. w_store (f w) = w_store w) \<Longrightarrow> (\<And>w. w_depth (f w) = w_depth w) \<Longrightarrow> keeps (P j) (modify f)"
  using frame by (intro keeps_modify) metis

lemma keeps_user [keeps_intros]: "keeps (P j) (user_call f)"
  unfolding hoare_def user_call_def using frame by (auto split: prod.splits)

lemma keeps_now [keeps_intros]: "keeps (P j) (now a)"
  unfolding now_def by (rule keeps_reads)

lemma keeps_find [keeps_intros]: "keeps (P j) (find_binding a p ev)"
  unfolding find_binding_def by (intro keeps_intros)

lemma keeps_get [keeps_intros]: "keeps (P j) (store_get a i)"
  using get by (rule hoare_post) auto

lemma keeps_query [keeps_intros]:
  "qf_machineId f = Some (md_id (ac_machine a)) \<Longrightarrow> keeps (P j) (store_query a f t th)"
  using query by (rule hoare_post) auto

lemmas store_keeps = init create update stack mark count delete

lemma keeps_pipeline [keeps_intros]: "keeps (P j) (run_pipeline a b c)"
  unfolding hoare_def run_pipeline_def Let_def
  using frame by (auto split: option.splits prod.splits)

lemma keeps_step [keeps_intros]:
  "(\<And>wk. r = StepOk wk \<Longrightarrow> keeps (P j) (f wk)) \<Longrightarrow>
   (\<And>wk n st msg. r = StepFail wk n st msg \<Longrightarrow> keeps (P j) (g wk n st msg)) \<Longrightarrow>
     keeps (P j) (case r of StepOk wk \<Rightarrow> f wk | StepFail wk n st msg \<Rightarrow> g wk n st msg)"
  by (cases r) auto

lemma keeps_outcome [keeps_intros]:
  "(\<And>x c n. keeps (P j) (f x c n)) \<Longrightarrow> (\<And>e c t n. keeps (P j) (g e c t n)) \<Longrightarrow>
     keeps (P j) (case out of PipeOk x c n \<Rightarrow> f x c n | PipeFail e c t n \<Rightarrow> g e c t n)"
  by (cases out) auto

lemma keeps_telemetry [keeps_intros]:
  "(\<And>out. keeps (P j) (k out)) \<Longrightarrow> keeps (P j) (executeWithTelemetry a b c k)"
  unfolding executeWithTelemetry_def Let_def by (intro keeps_intros) simp_all

lemma keeps_bump [keeps_intros]: "keeps (P j) (bumpTransitionRevision i)"
  unfolding bumpTransitionRevision_def by (intro keeps_intros) simp_all

lemma keeps_success [keeps_intros]: "keeps (P j) (step_success a i b p ev input out ctx wk)"
  unfolding step_success_def Let_def by (intro keeps_intros)

lemma keeps_validate [keeps_intros]: "keeps (P j) (validate_inputs a input ms)"
  unfolding validate_inputs_def case_prod_beta by (intro keeps_intros)

lemma keeps_cascade [keeps_intros]: "keeps (P j) (cascade_done n a i md wk)"
proof (induction n arbitrary: wk)
  case (Suc n)
  then show ?case unfolding cascade_done.simps Let_def by (intro keeps_intros)
qed (simp add: keeps_ret)

text \<open>The operations that run programs, for a runner that keeps the invariant.\<close>

lemma keeps_emit [keeps_intros]: "(\<And>j env p. keeps (P j) (run env p)) \<Longrightarrow> keeps (P j) (emit a run slot ev)"
  unfolding emit_def by (intro keeps_for_each) blast

lemma keeps_terminal [keeps_intros]: "(\<And>j env p. keeps (P j) (run env p)) \<Longrightarrow> keeps (P j) (emitSettledTerminalHooks a run i st s c e)"
  unfolding emitSettledTerminalHooks_def by (intro keeps_intros) blast+

lemma keeps_effects [keeps_intros]: "(\<And>j env p. keeps (P j) (run env p)) \<Longrightarrow> keeps (P j) (invokeEffects a run i st c es)"
  unfolding invokeEffects_def by (intro keeps_intros effect) blast+

lemma keeps_unwind [keeps_intros]:
  "(\<And>j env p. keeps (P j) (run env p)) \<Longrightarrow> mine j i \<Longrightarrow> keeps (P j) (unwindCompensationStack a run i c e)"
  unfolding unwindCompensationStack_def unwind_entry_def Let_def case_prod_beta
  by (intro keeps_intros store_keeps) blast+

lemma keeps_failure [keeps_intros]:
  "(\<And>j env p. keeps (P j) (run env p)) \<Longrightarrow> mine j i \<Longrightarrow> keeps (P j) (step_failure a run i p e c f wk)"
  unfolding step_failure_def Let_def store_update_def [symmetric]
  by (intro keeps_intros store_keeps tidy_patches) blast+

lemma keeps_matches [keeps_intros]:
  "(\<And>j env p. keeps (P j) (run env p)) \<Longrightarrow> mine j i \<Longrightarrow> keeps (P j) (run_matches a run i ev s md vs wk)"
proof (induction vs arbitrary: wk)
  case (Cons v vs)
  obtain node edge input where v: "v = ((node, edge), input)" by (metis surj_pair)
  from Cons show ?case unfolding v run_matches.simps by (intro keeps_intros) blast+
qed (simp add: keeps_ret)

lemma keeps_commit [keeps_intros]: "(\<And>j env p. keeps (P j) (run env p)) \<Longrightarrow> keeps (P j) (after_commit a run i ev es)"
  unfolding after_commit_def by (intro keeps_intros) (blast | simp)+

lemma keeps_execute [keeps_intros]:
  "(\<And>j env p. keeps (P j) (run env p)) \<Longrightarrow> mine j (tx_transactionId snap) \<Longrightarrow>
     keeps (P j) (executeTransitionOnSnapshot a run snap ev input md)"
  unfolding executeTransitionOnSnapshot_def commit_step_def Let_def
  by (intro keeps_intros store_keeps tidy_patches) blast+

lemma keeps_compensate [keeps_intros]:
  "(\<And>j env p. keeps (P j) (run env p)) \<Longrightarrow> mine j (su_transactionId item) \<Longrightarrow> keeps (P j) (compensate_item a run msg item)"
  unfolding compensate_item_def case_prod_beta
  by (intro keeps_intros store_keeps tidy_patches) blast+

lemma keeps_continue [keeps_intros]:
  assumes run: "\<And>j env p. keeps (P j) (run env p)" and m: "mine j (su_transactionId item)"
  shows "keeps (P j) (continue_item a run item)"
proof -
  let ?G = "\<lambda>r w. P j w \<and> (\<forall>snap. r = Inr (Some snap) \<longrightarrow> got j snap w \<and>
      (mine j (su_transactionId item) \<or> tx_machineId snap = md_id (ac_machine a) \<longrightarrow>
         mine j (tx_transactionId snap)))"
  have rel: "hoare (\<lambda>w. P j w \<and> got j snap w)
      (bind (now a) (\<lambda>t. seq (store_update a (tx_transactionId snap) (tx_version snap) (release_patch t) [])
         (ret True))) (\<lambda>_. P j)" if "mine j (tx_transactionId snap)" "tx_activeStep snap = None" for snap
  proof (rule hoare_bind [where R = "\<lambda>_ w. P j w \<and> got j snap w"])
    show "keeps (\<lambda>w. P j w \<and> got j snap w) (now a)"
      unfolding now_def by (rule keeps_reads)
    show "hoare (\<lambda>w. P j w \<and> got j snap w)
        (seq (store_update a (tx_transactionId snap) (tx_version snap) (release_patch t) []) (ret True))
        (\<lambda>_. P j)" for t
      unfolding seq_def by (rule hoare_bind [OF release [OF that]]) (simp_all add: keeps_ret)
  qed simp
  let ?K = "\<lambda>snap. (case tx_activeStep snap of
              Some step \<Rightarrow>
                bind (now a) (\<lambda>t.
                bind (store_update a (tx_transactionId snap) (tx_version snap) (unlock_patch t) []) (\<lambda>v.
                seq (executeTransitionOnSnapshot a run (snap\<lparr>tx_status := IDLE, tx_version := v\<rparr>)
                      (as_event step) (as_input step)
                      [(''recoveredByActor'', JStr (ac_actorId a))])
                  (ret True)))
            | None \<Rightarrow>
                bind (now a) (\<lambda>t.
                seq (store_update a (tx_transactionId snap) (tx_version snap) (release_patch t) [])
                  (ret True)))"
  have branch: "hoare (\<lambda>w. P j w \<and> got j snap w) (?K snap) (\<lambda>_. P j)"
    if "mine j (tx_transactionId snap)" for snap
  proof (cases "tx_activeStep snap")
    case None
    then show ?thesis using rel [OF that] by simp
  next
    case (Some step)
    have "keeps (P j) (?K snap)"
      unfolding Some option.case
      by (intro keeps_intros update tidy_patches run) (simp_all add: that)
    then show ?thesis by (rule hoare_pre) simp
  qed
  show ?thesis
    unfolding continue_item_def
  proof (rule hoare_bind [OF get])
    show "hoare (?G (Inr x)) (case x of None \<Rightarrow> ret False | Some snap \<Rightarrow> ?K snap) (\<lambda>_. P j)" for x
      using m branch by (cases x) (auto simp: hoare_def ret_def)
  qed simp
qed

lemma keeps_recover [keeps_intros]:
  "(\<And>j env p. keeps (P j) (run env p)) \<Longrightarrow> mine j (su_transactionId item) \<Longrightarrow> keeps (P j) (recover_item a run act item)"
  unfolding recover_item_def
  by (cases act) (auto intro!: keeps_intros store_keeps)

lemma keeps_sweep_item [keeps_intros]:
  "(\<And>j env p. keeps (P j) (run env p)) \<Longrightarrow> mine j (su_transactionId item) \<Longrightarrow> keeps (P j) (sweep_item a run item rep)"
  unfolding sweep_item_def Let_def by (intro keeps_intros) blast+

lemma hoare_query_bind:
  assumes "qf_machineId f = Some (md_id (ac_machine a))"
    and "\<And>xs. (\<And>x. x \<in> set xs \<Longrightarrow> mine j (su_transactionId x)) \<Longrightarrow> keeps (P j) (k xs)"
  shows "keeps (P j) (bind (store_query a f t th) k)"
proof (rule hoare_bind [OF query [OF assms(1)]])
  show "hoare (\<lambda>w. P j w \<and> (\<forall>ys y. Inr xs = Inr ys \<longrightarrow> y \<in> set ys \<longrightarrow> mine j (su_transactionId y)))
      (k xs) (\<lambda>_. P j)" for xs
    using assms(2) [of xs] by (auto simp: hoare_def)
qed simp

lemma keeps_retention [keeps_intros]: "keeps (P j) (retention_sweep a t th)"
  unfolding retention_sweep_def
  by (intro keeps_intros hoare_query_bind delete) (auto simp: machine_filter_def)

lemma keeps_sweep [keeps_intros]: "(\<And>j env p. keeps (P j) (run env p)) \<Longrightarrow> keeps (P j) (executeRecoverySweep a run th)"
  unfolding executeRecoverySweep_def Let_def
  by (rule keeps_bind [OF keeps_now], rule keeps_bind [OF keeps_reads], rule hoare_query_bind,
      simp add: machine_filter_def, intro keeps_intros) (blast | (erule frame, simp, simp))+

lemma keeps_scheduler [keeps_intros]:
  "keeps (P j) (startScheduler a)" "keeps (P j) stopScheduler"
  unfolding startScheduler_def stopScheduler_def by (rule keeps_modify_frame; simp)+

lemma keeps_initialize [keeps_intros]: "(\<And>j env p. keeps (P j) (run env p)) \<Longrightarrow> keeps (P j) (initialize a run)"
  unfolding initialize_def by (intro keeps_intros init) (blast | (erule frame, simp, simp))+

lemma keeps_ready [keeps_intros]: "(\<And>j env p. keeps (P j) (run env p)) \<Longrightarrow> keeps (P j) (ensureReady a run)"
  unfolding ensureReady_def by (intro keeps_intros) blast+

lemma keeps_create [keeps_intros]:
  "keeps (P j) (store_call (so_createTransaction (ac_store a) \<lparr>tx_transactionId = txId,
     tx_machineId = md_id (ac_machine a), tx_machineVersion = ver, tx_actorId = act,
     tx_stateValue = st, tx_context = ctx, tx_status = status, tx_activeStep = None,
     tx_lastError = e, tx_version = 1, tx_leaseOwner = None, tx_leaseExpiresAt = None,
     tx_createdAt = t, tx_updatedAt = t\<rparr>))"
  by (rule create) (simp add: fresh_record_def)

lemma keeps_start [keeps_intros]: "(\<And>j env p. keeps (P j) (run env p)) \<Longrightarrow> keeps (P j) (startTransaction a run ctx txId)"
  unfolding startTransaction_def Let_def by (intro keeps_intros) blast+

lemma keeps_transition [keeps_intros]: 
  assumes run: "\<And>j env p. keeps (P j) (run env p)"
  shows "keeps (P j) (transition a run txId ev input md)"
proof -
  have exec: "keeps (P j) (executeTransitionOnSnapshot a run snap ev input md)"
    if "mine j (tx_transactionId snap)" for snap
    using run that by (rule keeps_execute)
  have "keeps (P j) (bind (store_get a txId) (\<lambda>snapshot. case snapshot of
        None \<Rightarrow> throw (TransactionNotFoundError txId)
      | Some snap \<Rightarrow>
          if tx_machineId snap \<noteq> md_id (ac_machine a) then throw (TransactionNotFoundError txId)
          else executeTransitionOnSnapshot a run snap ev input md))"
  proof (rule hoare_bind [OF get])
    fix x
    show "hoare (\<lambda>w. P j w \<and> (\<forall>snap. Inr x = Inr (Some snap) \<longrightarrow> got j snap w \<and>
           (mine j txId \<or> tx_machineId snap = md_id (ac_machine a) \<longrightarrow> mine j (tx_transactionId snap))))
        (case x of
        None \<Rightarrow> throw (TransactionNotFoundError txId)
      | Some snap \<Rightarrow>
          if tx_machineId snap \<noteq> md_id (ac_machine a) then throw (TransactionNotFoundError txId)
          else executeTransitionOnSnapshot a run snap ev input md) (\<lambda>_. P j)"
      using exec by (cases x) (auto simp: hoare_def throw_def)
  qed simp
  then show ?thesis
    unfolding transition_def by (intro keeps_seq keeps_ready run)
qed

lemma keeps_trigger [keeps_intros]: "(\<And>j env p. keeps (P j) (run env p)) \<Longrightarrow> keeps (P j) (triggerSweepNow a run)"
  unfolding triggerSweepNow_def by (intro keeps_intros init) blast

lemma keeps_cleanup_item [keeps_intros]:
  "(\<And>j env p. keeps (P j) (run env p)) \<Longrightarrow> mine j (su_transactionId item) \<Longrightarrow> keeps (P j) (cleanup_item a run act item rep)"
  unfolding cleanup_item_def by (cases act) (auto intro!: keeps_intros store_keeps)

lemma keeps_cleanup [keeps_intros]: "(\<And>j env p. keeps (P j) (run env p)) \<Longrightarrow> keeps (P j) (forceCleanUp a run opts)"
  unfolding forceCleanUp_def Let_def
  by (intro keeps_seq init, rule keeps_bind [OF keeps_now], rule hoare_query_bind,
      simp add: cleanup_filter_def, intro keeps_intros delete) auto

lemma keeps_tick [keeps_intros]: "(\<And>j env p. keeps (P j) (run env p)) \<Longrightarrow> keeps (P j) (scheduler_tick a run)"
  unfolding scheduler_tick_def by (intro keeps_intros) (blast | simp)+

lemma keeps_reconfigure [keeps_intros]: "keeps (P j) (updateSchedulerConfig a patch)"
  unfolding updateSchedulerConfig_def by (intro keeps_intros) simp_all

text \<open>Programs, by induction on the fuel.\<close>

theorem keeps_program: "keeps (P j) (run_prog n a env p)"
proof (induction n arbitrary: j env p)
  case (Suc n)
  have step: "keeps (P j) (run_prog n a env p)" for j env p by (rule Suc)
  show ?case
    by (cases p; cases env) (auto simp del: run_prog.simps(1) intro!: keeps_ret keeps_throw keeps_bind
        keeps_attempt keeps_user keeps_transition keeps_start effect step)
qed (simp add: keeps_fuel)

text \<open>The calls of a client, one after another.\<close>

lemma keeps_introspection [keeps_intros]:
  "keeps (P j) (actor_getTransaction a i)" "keeps (P j) (getActiveCount a st)"
  "keeps (P j) (listActiveTransactions a l off)" "keeps (P j) (listInFlightTransactions a b l off)"
  unfolding actor_getTransaction_def getActiveCount_def listActiveTransactions_def
    listInFlightTransactions_def
  by (intro keeps_seq init keeps_bind keeps_get keeps_ret count keeps_now keeps_query;
      simp add: machine_filter_def)+

lemma keeps_perform: "keeps (P j) (perform n a c)"
  by (cases c) (simp_all add: finished_def, (intro keeps_intros keeps_program)+)

lemma keeps_reach: "actor_reach a w w' \<Longrightarrow> P j w \<Longrightarrow> P j w'"
proof (induction rule: actor_reach.induct)
  case (call w w' n c r w'')
  then show ?case using hoareD [OF keeps_perform] by blast
next
  case (outside w w' u)
  then show ?case using frame [of j w' "w'\<lparr>w_user := u\<rparr>"] by simp
qed

end

end
