(* ===== verification/SqliteStore.thy ===== *)
theory SqliteStore
  imports Store
begin

text \<open>
  The SQLite driver of \<^verbatim>\<open>store/sqlite-store.ts\<close>. The two tables are lists of rows in insertion order;
  each SQL statement is its effect on the lists, with the primary key of the transactions, the unique
  step numbers and the cascading delete of the schema. JSON columns hold the value they encode. A
  closed in-memory database is empty when it is opened again. SQL leaves the order of rows with
  equal \<open>updated_at\<close> open: in what order the engine finds the rows of a query is \<open>sq_scan\<close>, of which
  only that it is some order of the rows is ever used (\<open>sqlite_ok\<close>).
\<close>

section \<open>Tables\<close>

record sqlite =
  sq_memory :: bool
  sq_open :: bool
  sq_transactions :: "tx_record list"
  sq_compensations :: "comp_entry list"
  sq_nextId :: int
  sq_scan :: "tx_record list \<Rightarrow> tx_record list"

definition new_sqlite :: "(tx_record list \<Rightarrow> tx_record list) \<Rightarrow> string option \<Rightarrow> sqlite" where
  "new_sqlite scan filename = \<lparr>sq_memory = (or_else filename '':memory:'' = '':memory:''), sq_open = False,
     sq_transactions = [], sq_compensations = [], sq_nextId = 1, sq_scan = scan\<rparr>"

definition ensureDb :: "sqlite \<Rightarrow> sqlite" where
  "ensureDb s =
     (if sq_open s then s
      else if sq_memory s then s\<lparr>sq_open := True, sq_transactions := [], sq_compensations := [], sq_nextId := 1\<rparr>
      else s\<lparr>sq_open := True\<rparr>)"

definition row_of :: "string \<Rightarrow> tx_record list \<Rightarrow> tx_record option" where
  "row_of i rows = (case filter (\<lambda>r. tx_transactionId r = i) rows of [] \<Rightarrow> None | r # _ \<Rightarrow> Some r)"

definition stack_rows :: "string \<Rightarrow> comp_entry list \<Rightarrow> comp_entry list" where
  "stack_rows i es = filter (\<lambda>e. ce_transactionId e = i) es"

text \<open>\<open>ORDER BY step_seq DESC\<close>\<close>

definition by_seq_desc :: "comp_entry list \<Rightarrow> comp_entry list" where
  "by_seq_desc es = sort_key (\<lambda>e. - ce_stepSeq e) es"

section \<open>Operations\<close>

definition sql_createTransaction :: "tx_record \<Rightarrow> sqlite \<Rightarrow> (js_error + unit) \<times> sqlite" where
  "sql_createTransaction r s =
     (let db = ensureDb s in
      if row_of (tx_transactionId r) (sq_transactions db) \<noteq> None
      then (Inl (JsError ''UNIQUE constraint failed: dfsm_transactions.transaction_id''), db)
      else (Inr (), db\<lparr>sq_transactions := sq_transactions db @ [r]\<rparr>))"

definition sql_getTransaction :: "string \<Rightarrow> sqlite \<Rightarrow> (js_error + tx_snapshot option) \<times> sqlite" where
  "sql_getTransaction i s =
     (let db = ensureDb s in
      case row_of i (sq_transactions db) of
        None \<Rightarrow> (Inr None, db)
      | Some r \<Rightarrow> (Inr (Some (snapshot_of r (by_seq_desc (stack_rows i (sq_compensations db))))), db))"

definition sql_updateTransaction ::
  "string \<Rightarrow> int \<Rightarrow> update_patch \<Rightarrow> comp_new list \<Rightarrow> sqlite \<Rightarrow> (js_error + int) \<times> sqlite" where
  "sql_updateTransaction i expectedVersion p ns s =
     (let db = ensureDb s;
          nextVersion = expectedVersion + 1;
          hit = (\<lambda>r. tx_transactionId r = i \<and> tx_version r = expectedVersion);
          changes = length (filter hit (sq_transactions db))
      in if changes \<noteq> 1 then (Inl (StaleTransactionVersionError i expectedVersion), db)
         else (Inr nextVersion,
           db\<lparr>sq_transactions :=
                map (\<lambda>r. if hit r then apply_patch p nextVersion r else r) (sq_transactions db),
              sq_compensations := sq_compensations db @ identified (sq_nextId db)
                (numbered i (max_seq (stack_rows i (sq_compensations db)) + 1) ns),
              sq_nextId := sq_nextId db + int (length ns)\<rparr>))"

definition sql_getUncompensatedStack ::
  "string \<Rightarrow> sqlite \<Rightarrow> (js_error + comp_entry list) \<times> sqlite" where
  "sql_getUncompensatedStack i s =
     (let db = ensureDb s in
      (Inr (by_seq_desc (filter (\<lambda>e. ce_transactionId e = i \<and> ce_compensatedAt e = None)
         (sq_compensations db))), db))"

definition sql_markCompensationExecuted ::
  "string \<Rightarrow> int \<Rightarrow> int \<Rightarrow> sqlite \<Rightarrow> (js_error + unit) \<times> sqlite" where
  "sql_markCompensationExecuted i stepSeq compensatedAt s =
     (let db = ensureDb s in
      (Inr (), db\<lparr>sq_compensations :=
         map (\<lambda>e. if ce_transactionId e = i \<and> ce_stepSeq e = stepSeq
                  then e\<lparr>ce_compensatedAt := Some compensatedAt\<rparr> else e) (sq_compensations db)\<rparr>))"

definition sql_countTransactions :: "query_filter \<Rightarrow> sqlite \<Rightarrow> (js_error + nat) \<times> sqlite" where
  "sql_countTransactions f s =
     (let db = ensureDb s in (Inr (length (filter (selects f) (sq_transactions db))), db))"

text \<open>\<open>OFFSET\<close> without \<open>LIMIT\<close> is no SQL: the statement does not prepare.\<close>

definition sql_queryTransactions ::
  "query_filter \<Rightarrow> int \<Rightarrow> int \<Rightarrow> sqlite \<Rightarrow> (js_error + tx_summary list) \<times> sqlite" where
  "sql_queryTransactions f nowTimestamp stuckThresholdMs s =
     (let db = ensureDb s in
      if qf_limit f = None \<and> qf_offset f \<noteq> None then (Inl (JsError ''near OFFSET: syntax error''), db)
      else (Inr (map (\<lambda>r. summary_of nowTimestamp stuckThresholdMs
                        (stack_rows (tx_transactionId r) (sq_compensations db)) r)
                  (take_int (qf_limit f) (drop_int (qf_offset f)
                    (sort_key tx_updatedAt (sq_scan db (filter (selects f) (sq_transactions db))))))), db))"

definition sql_deleteTransactions :: "string list \<Rightarrow> sqlite \<Rightarrow> (js_error + nat) \<times> sqlite" where
  "sql_deleteTransactions ids s =
     (if ids = [] then (Inr 0, s)
      else (let db = ensureDb s in
        (Inr (length (filter (\<lambda>r. tx_transactionId r \<in> set ids) (sq_transactions db))),
         db\<lparr>sq_transactions := filter (\<lambda>r. tx_transactionId r \<notin> set ids) (sq_transactions db),
            sq_compensations := filter (\<lambda>e. ce_transactionId e \<notin> set ids) (sq_compensations db)\<rparr>)))"

definition sql_close :: "sqlite \<Rightarrow> sqlite" where
  "sql_close s = s\<lparr>sq_open := False\<rparr>"

definition sqlite_ops :: "sqlite store_ops" where
  "sqlite_ops = \<lparr>so_initialize = ensureDb, so_createTransaction = sql_createTransaction,
     so_getTransaction = sql_getTransaction, so_updateTransaction = sql_updateTransaction,
     so_getUncompensatedStack = sql_getUncompensatedStack,
     so_markCompensationExecuted = sql_markCompensationExecuted,
     so_countTransactions = sql_countTransactions, so_queryTransactions = sql_queryTransactions,
     so_deleteTransactions = sql_deleteTransactions, so_close = sql_close\<rparr>"

section \<open>The schema's constraints\<close>

text \<open>
  Unique ids, no orphan entries, step numbers ascending per transaction in insertion order; and the
  engine's scan returns each row it is asked for, once.
\<close>

definition sqlite_ok :: "sqlite \<Rightarrow> bool" where
  "sqlite_ok s \<longleftrightarrow>
     (let db = ensureDb s in
      distinct (map tx_transactionId (sq_transactions db)) \<and>
      (\<forall>e \<in> set (sq_compensations db). row_of (ce_transactionId e) (sq_transactions db) \<noteq> None) \<and>
      (\<forall>e \<in> set (sq_compensations db).
         stack_ok (ce_transactionId e) (stack_rows (ce_transactionId e) (sq_compensations db))) \<and>
      (\<forall>rs. mset (sq_scan db rs) = mset rs))"

definition sqlite_txs :: "sqlite \<Rightarrow> string \<Rightarrow> tx_record option" where
  "sqlite_txs s i = row_of i (sq_transactions (ensureDb s))"

definition sqlite_comps :: "sqlite \<Rightarrow> string \<Rightarrow> comp_entry list" where
  "sqlite_comps s i = stack_rows i (sq_compensations (ensureDb s))"

lemma ensureDb_idem [simp]: "ensureDb (ensureDb s) = ensureDb s"
  by (simp add: ensureDb_def)

lemma ensureDb_update [simp]:
  "ensureDb (ensureDb s\<lparr>sq_transactions := ts\<rparr>) = ensureDb s\<lparr>sq_transactions := ts\<rparr>"
  "ensureDb (ensureDb s\<lparr>sq_compensations := es\<rparr>) = ensureDb s\<lparr>sq_compensations := es\<rparr>"
  "ensureDb (ensureDb s\<lparr>sq_transactions := ts, sq_compensations := es\<rparr>) =
     ensureDb s\<lparr>sq_transactions := ts, sq_compensations := es\<rparr>"
  "ensureDb (ensureDb s\<lparr>sq_transactions := ts, sq_compensations := es, sq_nextId := k\<rparr>) =
     ensureDb s\<lparr>sq_transactions := ts, sq_compensations := es, sq_nextId := k\<rparr>"
  by (simp_all add: ensureDb_def)

lemma row_of_Nil [simp]: "row_of i [] = None"
  by (simp add: row_of_def)

lemma row_of_Cons: "row_of i (r # rs) = (if tx_transactionId r = i then Some r else row_of i rs)"
  by (simp add: row_of_def)

lemma row_of_append: "row_of i (rs @ rs') = (case row_of i rs of Some r \<Rightarrow> Some r | None \<Rightarrow> row_of i rs')"
  by (induction rs) (auto simp: row_of_Cons)

lemma row_of_append_not_None:
  "row_of i (rs @ rs') = None \<longleftrightarrow> row_of i rs = None \<and> row_of i rs' = None"
  by (simp add: row_of_append split: option.splits)

lemma row_of_SomeD: "row_of i rs = Some r \<Longrightarrow> r \<in> set rs \<and> tx_transactionId r = i"
  by (induction rs) (auto simp: row_of_Cons split: if_splits)

lemma row_of_None: "row_of i rs = None \<longleftrightarrow> i \<notin> tx_transactionId ` set rs"
  by (induction rs) (auto simp: row_of_Cons)

lemma row_of_mem:
  "distinct (map tx_transactionId rs) \<Longrightarrow> r \<in> set rs \<Longrightarrow> row_of (tx_transactionId r) rs = Some r"
  by (induction rs) (auto simp: row_of_Cons rev_image_eqI)

lemma row_of_filter:
  "row_of i (filter (\<lambda>r. tx_transactionId r \<notin> A) rs) = (if i \<in> A then None else row_of i rs)"
  by (induction rs) (auto simp: row_of_Cons)

lemma stack_rows_append: "stack_rows i (es @ es') = stack_rows i es @ stack_rows i es'"
  by (simp add: stack_rows_def)

lemma stack_rows_numbered: "stack_rows i (numbered j k ns) = (if i = j then numbered j k ns else [])"
  by (induction ns arbitrary: k) (auto simp: stack_rows_def new_entry_def)

lemma stack_rows_new: "stack_rows i (identified k (numbered j q ns)) =
    (if i = j then identified k (numbered j q ns) else [])"
  by (induction ns arbitrary: k q) (auto simp: stack_rows_def new_entry_def)

lemma stack_rows_filter:
  "stack_rows i (filter (\<lambda>e. ce_transactionId e \<notin> A) es) = (if i \<in> A then [] else stack_rows i es)"
  by (induction es) (auto simp: stack_rows_def)

lemma stack_rows_mark:
  "stack_rows j (map (\<lambda>e. if ce_transactionId e = i \<and> ce_stepSeq e = q
       then e\<lparr>ce_compensatedAt := Some t\<rparr> else e) es) =
     (if j = i then map (mark_entry q t) (stack_rows i es) else stack_rows j es)"
  by (induction es) (auto simp: stack_rows_def mark_entry_def)

lemma sqlite_stacks: "sqlite_ok s \<Longrightarrow> stack_ok i (sqlite_comps s i)"
proof (cases "sqlite_comps s i")
  case Nil
  then show ?thesis by (simp add: stack_ok_def)
next
  case (Cons e es)
  assume ok: "sqlite_ok s"
  have "e \<in> set (stack_rows i (sq_compensations (ensureDb s)))"
    using Cons by (simp add: sqlite_comps_def)
  then have "e \<in> set (sq_compensations (ensureDb s))" "ce_transactionId e = i"
    by (auto simp: stack_rows_def)
  with ok show ?thesis by (auto simp: sqlite_ok_def sqlite_comps_def Let_def)
qed

text \<open>The invariant through the two views.\<close>

lemma sqlite_okI:
  assumes "ensureDb s = s" "distinct (map tx_transactionId (sq_transactions s))"
    "\<And>e. e \<in> set (sq_compensations s) \<Longrightarrow> row_of (ce_transactionId e) (sq_transactions s) \<noteq> None"
    "\<And>i. stack_ok i (stack_rows i (sq_compensations s))" "\<And>rs. mset (sq_scan s rs) = mset rs"
  shows "sqlite_ok s"
  using assms by (simp add: sqlite_ok_def Let_def)

lemma sqlite_okD:
  assumes "sqlite_ok s"
  shows "distinct (map tx_transactionId (sq_transactions (ensureDb s)))"
    "e \<in> set (sq_compensations (ensureDb s)) \<Longrightarrow>
       row_of (ce_transactionId e) (sq_transactions (ensureDb s)) \<noteq> None"
    "stack_ok i (stack_rows i (sq_compensations (ensureDb s)))"
    "mset (sq_scan (ensureDb s) rs) = mset rs"
proof -
  show "distinct (map tx_transactionId (sq_transactions (ensureDb s)))"
    using assms by (simp add: sqlite_ok_def Let_def)
  show "mset (sq_scan (ensureDb s) rs) = mset rs"
    using assms by (simp add: sqlite_ok_def Let_def)
  show "stack_ok i (stack_rows i (sq_compensations (ensureDb s)))"
    using sqlite_stacks [OF assms, of i] by (simp add: sqlite_comps_def)
  show "row_of (ce_transactionId e) (sq_transactions (ensureDb s)) \<noteq> None"
    if "e \<in> set (sq_compensations (ensureDb s))"
    using assms that unfolding sqlite_ok_def Let_def by blast
qed

lemma by_seq_desc_rev: "stack_ok i es \<Longrightarrow> by_seq_desc es = rev es"
  by (simp add: by_seq_desc_def sort_seq_desc_rev)

section \<open>The driver keeps the contract\<close>

lemma sql_init: "sqlite_ok s \<Longrightarrow>
    sqlite_ok (ensureDb s) \<and> sqlite_txs (ensureDb s) = sqlite_txs s \<and> sqlite_comps (ensureDb s) = sqlite_comps s"
  by (auto simp: sqlite_ok_def sqlite_txs_def sqlite_comps_def Let_def fun_eq_iff)

lemma sql_create_new:
  assumes "sqlite_ok s" "sqlite_txs s (tx_transactionId r) = None"
  shows "\<exists>s'. sql_createTransaction r s = (Inr (), s') \<and> sqlite_ok s' \<and>
    sqlite_txs s' = (sqlite_txs s)(tx_transactionId r \<mapsto> r) \<and> sqlite_comps s' = sqlite_comps s"
proof -
  let ?db = "ensureDb s"
  let ?s = "?db\<lparr>sq_transactions := sq_transactions ?db @ [r]\<rparr>"
  note d = sqlite_okD [OF assms(1)]
  have n: "row_of (tx_transactionId r) (sq_transactions ?db) = None"
    using assms(2) by (simp add: sqlite_txs_def)
  have "sqlite_ok ?s"
  proof (rule sqlite_okI)
    show "distinct (map tx_transactionId (sq_transactions ?s))"
      using d(1) n by (auto simp: row_of_None)
    show "row_of (ce_transactionId e) (sq_transactions ?s) \<noteq> None" if "e \<in> set (sq_compensations ?s)" for e
      using d(2) [of e] that by (simp add: row_of_append_not_None del: not_None_eq)
  qed (use d(3,4) in simp_all)
  moreover have "sqlite_txs ?s = (sqlite_txs s)(tx_transactionId r \<mapsto> r)"
    using n by (auto simp: sqlite_txs_def row_of_append row_of_Cons fun_eq_iff split: option.splits)
  moreover have "sqlite_comps ?s = sqlite_comps s" by (simp add: sqlite_comps_def fun_eq_iff)
  ultimately show ?thesis using n by (simp add: sql_createTransaction_def Let_def)
qed

lemma sql_create_old:
  assumes "sqlite_ok s" "sqlite_txs s (tx_transactionId r) \<noteq> None"
  shows "\<exists>e s'. sql_createTransaction r s = (Inl e, s') \<and> sqlite_ok s' \<and>
    sqlite_txs s' = sqlite_txs s \<and> sqlite_comps s' = sqlite_comps s"
  using assms sql_init [OF assms(1)] by (simp add: sql_createTransaction_def Let_def sqlite_txs_def)

lemma sql_get:
  assumes "sqlite_ok s"
  shows "\<exists>s'. sql_getTransaction i s =
      (Inr (map_option (\<lambda>r. snapshot_of r (rev (sqlite_comps s i))) (sqlite_txs s i)), s') \<and>
    sqlite_ok s' \<and> sqlite_txs s' = sqlite_txs s \<and> sqlite_comps s' = sqlite_comps s"
  using sql_init [OF assms] by_seq_desc_rev [OF sqlite_okD(3) [OF assms, of i]]
  by (auto simp: sql_getTransaction_def Let_def sqlite_txs_def sqlite_comps_def split: option.splits)

lemma filter_hit:
  "distinct (map tx_transactionId rs) \<Longrightarrow>
     length (filter (\<lambda>r. tx_transactionId r = i \<and> tx_version r = v) rs) =
       (case row_of i rs of Some r \<Rightarrow> if tx_version r = v then 1 else 0 | None \<Rightarrow> 0)"
proof (induction rs)
  case (Cons r rs)
  have "filter (\<lambda>r. tx_transactionId r = i \<and> tx_version r = v) rs = []" if "tx_transactionId r = i"
    unfolding filter_empty_conv
  proof (intro ballI notI)
    fix x assume "x \<in> set rs" "tx_transactionId x = i \<and> tx_version x = v"
    then have "tx_transactionId r \<in> tx_transactionId ` set rs"
      using that by (intro image_eqI [of _ _ x]) auto
    then show False using Cons.prems by simp
  qed
  then show ?case using Cons by (auto simp: row_of_Cons)
qed simp

lemma apply_patch_id [simp]: "tx_transactionId (apply_patch p v r) = tx_transactionId r"
  by (simp add: apply_patch_def)

lemma row_of_patch:
  "distinct (map tx_transactionId rs) \<Longrightarrow>
     row_of j (map (\<lambda>r. if tx_transactionId r = i \<and> tx_version r = v then apply_patch p w r else r) rs) =
       (case row_of j rs of None \<Rightarrow> None
        | Some r \<Rightarrow> Some (if j = i \<and> tx_version r = v then apply_patch p w r else r))"
  by (induction rs) (auto simp: row_of_Cons)

lemma sql_update_current:
  assumes "sqlite_ok s" "sqlite_txs s i = Some r" "tx_version r = v"
  shows "\<exists>s' new. sql_updateTransaction i v p ns s = (Inr (v + 1), s') \<and> sqlite_ok s' \<and>
    sqlite_txs s' = (sqlite_txs s)(i \<mapsto> apply_patch p (v + 1) r) \<and>
    sqlite_comps s' = (sqlite_comps s)(i := sqlite_comps s i @ new) \<and>
    map no_id new = numbered i (max_seq (sqlite_comps s i) + 1) ns"
proof -
  let ?db = "ensureDb s"
  let ?rows = "map (\<lambda>r. if tx_transactionId r = i \<and> tx_version r = v then apply_patch p (v + 1) r else r)
    (sq_transactions ?db)"
  let ?n = "numbered i (max_seq (stack_rows i (sq_compensations ?db)) + 1) ns"
  let ?new = "identified (sq_nextId ?db) ?n"
  let ?s = "?db\<lparr>sq_transactions := ?rows, sq_compensations := sq_compensations ?db @ ?new,
    sq_nextId := sq_nextId ?db + int (length ns)\<rparr>"
  note d = sqlite_okD [OF assms(1)]
  have r: "row_of i (sq_transactions ?db) = Some r" using assms(2) by (simp add: sqlite_txs_def)
  have row: "row_of j ?rows = (if j = i then Some (apply_patch p (v + 1) r)
      else row_of j (sq_transactions ?db))" for j
    using row_of_patch [OF d(1), of j i v p "v + 1"] r assms(3) by (auto split: option.splits)
  have stk: "stack_rows j (sq_compensations ?s) = (if j = i
      then stack_rows i (sq_compensations ?db) @ ?new else stack_rows j (sq_compensations ?db))" for j
    by (simp add: stack_rows_append stack_rows_new)
  have new: "ce_transactionId e = i" if "e \<in> set ?new" for e
  proof -
    have "stack_rows i ?new = ?new" by (simp add: stack_rows_new)
    with that have "e \<in> set (stack_rows i ?new)" by simp
    then show ?thesis by (simp add: stack_rows_def)
  qed
  have "sqlite_ok ?s"
  proof (rule sqlite_okI)
    have m: "map tx_transactionId ?rows = map tx_transactionId (sq_transactions ?db)" by simp
    have "distinct (map tx_transactionId ?rows)" unfolding m by (rule d(1))
    then show "distinct (map tx_transactionId (sq_transactions ?s))" by simp
    show "row_of (ce_transactionId e) (sq_transactions ?s) \<noteq> None" if "e \<in> set (sq_compensations ?s)" for e
      using that d(2) [of e] new [of e] row by auto
    show "stack_ok j (stack_rows j (sq_compensations ?s))" for j
      unfolding stk using d(3) stack_ok_append_new [OF d(3) [of i], of ?new ns] by simp
  qed (use d(4) in simp_all)
  moreover have "sqlite_txs ?s = (sqlite_txs s)(i \<mapsto> apply_patch p (v + 1) r)"
    by (auto simp: sqlite_txs_def row fun_eq_iff)
  moreover have "sqlite_comps ?s = (sqlite_comps s)(i := sqlite_comps s i @ ?new)"
    using stk by (auto simp: sqlite_comps_def fun_eq_iff)
  moreover have "map no_id ?new = numbered i (max_seq (sqlite_comps s i) + 1) ns"
    by (simp add: sqlite_comps_def)
  moreover have "sql_updateTransaction i v p ns s = (Inr (v + 1), ?s)"
    using filter_hit [OF d(1), of i v] r assms(3) by (simp add: sql_updateTransaction_def Let_def)
  ultimately show ?thesis by blast
qed

lemma sql_update_stale:
  assumes "sqlite_ok s" "\<forall>r. sqlite_txs s i = Some r \<longrightarrow> tx_version r \<noteq> v"
  shows "\<exists>s'. sql_updateTransaction i v p ns s = (Inl (StaleTransactionVersionError i v), s') \<and>
    sqlite_ok s' \<and> sqlite_txs s' = sqlite_txs s \<and> sqlite_comps s' = sqlite_comps s"
proof -
  have "length (filter (\<lambda>r. tx_transactionId r = i \<and> tx_version r = v) (sq_transactions (ensureDb s))) = 0"
    using filter_hit [OF sqlite_okD(1) [OF assms(1)], of i v] assms(2)
    by (auto simp: sqlite_txs_def split: option.splits)
  then show ?thesis using sql_init [OF assms(1)] by (simp add: sql_updateTransaction_def Let_def)
qed

lemma sql_stack:
  assumes "sqlite_ok s"
  shows "\<exists>s'. sql_getUncompensatedStack i s = (Inr (rev (uncompensated (sqlite_comps s i))), s') \<and>
    sqlite_ok s' \<and> sqlite_txs s' = sqlite_txs s \<and> sqlite_comps s' = sqlite_comps s"
proof -
  let ?es = "stack_rows i (sq_compensations (ensureDb s))"
  have f: "filter (\<lambda>e. ce_transactionId e = i \<and> ce_compensatedAt e = None) (sq_compensations (ensureDb s)) =
      uncompensated ?es"
    by (auto simp: uncompensated_def stack_rows_def intro: filter_cong)
  show ?thesis
    using sql_init [OF assms] by_seq_desc_rev [OF stack_ok_uncompensated [OF sqlite_okD(3) [OF assms, of i]]]
    by (simp add: sql_getUncompensatedStack_def Let_def f sqlite_comps_def)
qed

lemma sql_mark:
  assumes "sqlite_ok s"
  shows "\<exists>s'. sql_markCompensationExecuted i q t s = (Inr (), s') \<and> sqlite_ok s' \<and>
    sqlite_txs s' = sqlite_txs s \<and>
    sqlite_comps s' = (sqlite_comps s)(i := map (mark_entry q t) (sqlite_comps s i))"
proof -
  let ?db = "ensureDb s"
  let ?es = "map (\<lambda>e. if ce_transactionId e = i \<and> ce_stepSeq e = q
    then e\<lparr>ce_compensatedAt := Some t\<rparr> else e) (sq_compensations ?db)"
  let ?s = "?db\<lparr>sq_compensations := ?es\<rparr>"
  note d = sqlite_okD [OF assms]
  have "sqlite_ok ?s"
  proof (rule sqlite_okI)
    show "row_of (ce_transactionId e) (sq_transactions ?s) \<noteq> None" if "e \<in> set (sq_compensations ?s)" for e
      using that d(2) by auto
    show "stack_ok j (stack_rows j (sq_compensations ?s))" for j
      using d(3) by (simp add: stack_rows_mark stack_ok_mark)
  qed (use d(1,4) in simp_all)
  moreover have "sqlite_txs ?s = sqlite_txs s" by (simp add: sqlite_txs_def fun_eq_iff)
  moreover have "sqlite_comps ?s = (sqlite_comps s)(i := map (mark_entry q t) (sqlite_comps s i))"
    by (auto simp: sqlite_comps_def stack_rows_mark fun_eq_iff)
  ultimately show ?thesis by (simp add: sql_markCompensationExecuted_def Let_def)
qed

lemma sql_delete:
  assumes "sqlite_ok s"
  shows "\<exists>n s'. sql_deleteTransactions ids s = (Inr n, s') \<and> sqlite_ok s' \<and>
    sqlite_txs s' = (sqlite_txs s) |` (- set ids) \<and>
    (\<forall>i. sqlite_comps s' i = (if i \<in> set ids then [] else sqlite_comps s i))"
proof (cases "ids = []")
  case True
  then show ?thesis using assms by (simp add: sql_deleteTransactions_def restrict_map_def)
next
  case False
  let ?db = "ensureDb s"
  let ?s = "?db\<lparr>sq_transactions := filter (\<lambda>r. tx_transactionId r \<notin> set ids) (sq_transactions ?db),
    sq_compensations := filter (\<lambda>e. ce_transactionId e \<notin> set ids) (sq_compensations ?db)\<rparr>"
  note d = sqlite_okD [OF assms]
  have "sqlite_ok ?s"
  proof (rule sqlite_okI)
    show "distinct (map tx_transactionId (sq_transactions ?s))" using d(1) by (simp add: distinct_map_filter)
    show "row_of (ce_transactionId e) (sq_transactions ?s) \<noteq> None" if "e \<in> set (sq_compensations ?s)" for e
      using that d(2) by (auto simp: row_of_filter)
    show "stack_ok j (stack_rows j (sq_compensations ?s))" for j
      using d(3) by (simp add: stack_rows_filter stack_ok_def)
  qed (use d(4) in simp_all)
  moreover have "sqlite_txs ?s = (sqlite_txs s) |` (- set ids)"
    by (auto simp: sqlite_txs_def row_of_filter restrict_map_def fun_eq_iff)
  moreover have "\<forall>i. sqlite_comps ?s i = (if i \<in> set ids then [] else sqlite_comps s i)"
    by (simp add: sqlite_comps_def stack_rows_filter)
  ultimately show ?thesis using False by (simp add: sql_deleteTransactions_def Let_def)
qed

lemma sql_delete_count:
  assumes "sqlite_ok s"
  shows "fst (sql_deleteTransactions ids s) = Inr (card {i \<in> set ids. sqlite_txs s i \<noteq> None})"
proof -
  let ?rs = "sq_transactions (ensureDb s)" and ?P = "\<lambda>r. tx_transactionId r \<in> set ids"
  have "{i \<in> set ids. sqlite_txs s i \<noteq> None} = set (map tx_transactionId (filter ?P ?rs))"
    by (auto simp: sqlite_txs_def row_of_None)
  moreover have "card (set (map tx_transactionId (filter ?P ?rs))) = length (filter ?P ?rs)"
    using distinct_card [OF distinct_map_filter [OF sqlite_okD(1) [OF assms], of ?P]] by simp
  ultimately show ?thesis by (simp add: sql_deleteTransactions_def Let_def)
qed

lemma set_take_drop_int: "set (take_int a (drop_int b xs)) \<subseteq> set xs"
  unfolding take_int_def drop_int_def
  by (auto split: option.splits dest!: in_set_takeD in_set_dropD)

lemma take_drop_int_map:
  "\<exists>n k. take_int a (drop_int b xs) = take n (drop k xs)"
  unfolding take_int_def drop_int_def
  by (cases a; cases b) (metis drop0 take_all order_refl option.simps)+

lemma scan_selected:
  fixes s f
  defines "rs \<equiv> sort_key tx_updatedAt (sq_scan (ensureDb s) (filter (selects f) (sq_transactions (ensureDb s))))"
  assumes "sqlite_ok s"
  shows "set rs = set (filter (selects f) (sq_transactions (ensureDb s)))"
    "distinct (map tx_transactionId rs)" "sorted (map tx_updatedAt rs)"
proof -
  let ?fs = "filter (selects f) (sq_transactions (ensureDb s))"
  have m: "mset rs = mset ?fs" using sqlite_okD(4) [OF assms(2)] by (simp add: rs_def)
  show "set rs = set ?fs" by (rule mset_eq_setD [OF m])
  have "mset (map tx_transactionId rs) = mset (map tx_transactionId ?fs)" by (simp only: mset_map m)
  moreover have "distinct (map tx_transactionId ?fs)"
    using sqlite_okD(1) [OF assms(2)] by (simp add: distinct_map_filter)
  ultimately show "distinct (map tx_transactionId rs)" by (metis mset_eq_imp_distinct_iff)
  show "sorted (map tx_updatedAt rs)" by (simp add: rs_def)
qed

lemma sql_query:
  assumes "sqlite_ok s" "qf_offset f = None"
  shows "\<exists>xs s'. sql_queryTransactions f now th s = (Inr xs, s') \<and> sqlite_ok s' \<and>
    sqlite_txs s' = sqlite_txs s \<and> sqlite_comps s' = sqlite_comps s \<and>
    distinct (map su_transactionId xs) \<and> sorted (map su_updatedAt xs) \<and>
    (\<forall>x \<in> set xs. \<exists>r. sqlite_txs s (su_transactionId x) = Some r \<and> selects f r \<and>
       x = summary_of now th (sqlite_comps s (su_transactionId x)) r) \<and>
    ((\<forall>n. qf_limit f = Some n \<longrightarrow> int (length xs) < n) \<longrightarrow>
       (\<forall>i r. sqlite_txs s i = Some r \<and> selects f r \<longrightarrow> i \<in> su_transactionId ` set xs))"
proof -
  let ?db = "ensureDb s"
  let ?rs = "sort_key tx_updatedAt (sq_scan ?db (filter (selects f) (sq_transactions ?db)))"
  let ?sum = "\<lambda>r. summary_of now th (stack_rows (tx_transactionId r) (sq_compensations ?db)) r"
  let ?out = "take_int (qf_limit f) (drop_int (qf_offset f) ?rs)"
  obtain n k where out: "?out = take n (drop k ?rs)" using take_drop_int_map by blast
  note d = sqlite_okD [OF assms(1)]
  note sel = scan_selected [OF assms(1), of f]
  have "map tx_transactionId ?out = take n (drop k (map tx_transactionId ?rs))"
    by (simp add: out take_map drop_map)
  with sel(2) have "distinct (map su_transactionId (map ?sum ?out))"
    by (simp add: comp_def summary_of_def)
  moreover have "sorted (map su_updatedAt (map ?sum ?out))"
  proof -
    have "sorted (take n (drop k (map tx_updatedAt ?rs)))" by (intro sorted_wrt_take sorted_wrt_drop) simp
    then show ?thesis by (simp add: out take_map drop_map comp_def summary_of_def)
  qed
  moreover have "\<exists>r. sqlite_txs s (su_transactionId x) = Some r \<and> selects f r \<and>
      x = summary_of now th (sqlite_comps s (su_transactionId x)) r" if x: "x \<in> set (map ?sum ?out)" for x
  proof -
    from x obtain r where r: "r \<in> set ?out" "x = ?sum r" by auto
    then have "r \<in> set ?rs" using set_take_drop_int by fastforce
    then have "r \<in> set (sq_transactions ?db)" "selects f r" unfolding sel(1) by simp_all
    then show ?thesis using row_of_mem [OF d(1)] r(2)
      by (intro exI [of _ r]) (simp add: sqlite_txs_def sqlite_comps_def summary_of_def)
  qed
  moreover have "i \<in> su_transactionId ` set (map ?sum ?out)"
    if "\<forall>n. qf_limit f = Some n \<longrightarrow> int (length (map ?sum ?out)) < n" "sqlite_txs s i = Some r"
      "selects f r" for i r
  proof -
    have "r \<in> set (sq_transactions ?db)" "tx_transactionId r = i"
      using row_of_SomeD that(2) by (auto simp: sqlite_txs_def)
    moreover have "?out = ?rs"
      using that(1) assms(2) by (auto simp: take_int_def drop_int_def min_def split: option.splits if_splits)
    ultimately have "r \<in> set ?out" using that(3) sel(1) by simp
    then show ?thesis using \<open>tx_transactionId r = i\<close> by (force simp: summary_of_def)
  qed
  moreover have "sql_queryTransactions f now th s = (Inr (map ?sum ?out), ?db)"
    using assms(2) by (simp add: sql_queryTransactions_def Let_def)
  ultimately show ?thesis using sql_init [OF assms(1)] by blast
qed

lemma sql_query_window:
  assumes "sqlite_ok s" "windowed f"
  shows "\<exists>rs s'. sql_queryTransactions f now th s =
      (Inr (map (\<lambda>r. summary_of now th (sqlite_comps s (tx_transactionId r)) r)
         (take_int (qf_limit f) (drop_int (qf_offset f) rs))), s') \<and>
    sqlite_ok s' \<and> sqlite_txs s' = sqlite_txs s \<and> sqlite_comps s' = sqlite_comps s \<and>
    distinct rs \<and> sorted (map tx_updatedAt rs) \<and> set rs = {r. \<exists>i. sqlite_txs s i = Some r \<and> selects f r}"
proof -
  let ?db = "ensureDb s"
  let ?rs = "sort_key tx_updatedAt (sq_scan ?db (filter (selects f) (sq_transactions ?db)))"
  note sel = scan_selected [OF assms(1), of f]
  have "set ?rs = {r. \<exists>i. sqlite_txs s i = Some r \<and> selects f r}"
    unfolding sel(1) using row_of_mem [OF sqlite_okD(1) [OF assms(1)]] row_of_SomeD
    by (fastforce simp: sqlite_txs_def)
  moreover have "\<not> (qf_limit f = None \<and> qf_offset f \<noteq> None)"
    using assms(2) by (cases "qf_limit f") (simp_all add: windowed_def)
  then have "sql_queryTransactions f now th s =
      (Inr (map (\<lambda>r. summary_of now th (sqlite_comps s (tx_transactionId r)) r)
         (take_int (qf_limit f) (drop_int (qf_offset f) ?rs))), ?db)"
    by (simp only: sql_queryTransactions_def Let_def sqlite_comps_def if_False)
  moreover have "distinct ?rs" using sel(2) by (simp only: distinct_map)
  ultimately show ?thesis
    using sel(3) sql_init [OF assms(1)] by (intro exI [of _ ?rs] exI [of _ ?db] conjI) simp_all
qed

lemma sql_query_any:
  assumes "sqlite_ok s"
  shows "\<exists>r s'. sql_queryTransactions f now th s = (r, s') \<and> sqlite_ok s' \<and>
    sqlite_txs s' = sqlite_txs s \<and> sqlite_comps s' = sqlite_comps s \<and>
    (\<forall>xs. r = Inr xs \<longrightarrow> (\<forall>x \<in> set xs. \<exists>t. sqlite_txs s (su_transactionId x) = Some t \<and> selects f t))"
proof -
  let ?db = "ensureDb s"
  have *: "\<exists>t. sqlite_txs s (tx_transactionId r) = Some t \<and> selects f t"
    if "r \<in> set (take_int a (drop_int b (sort_key tx_updatedAt (sq_scan ?db (filter (selects f) (sq_transactions ?db))))))"
    for r a b
    using subsetD [OF set_take_drop_int that] scan_selected(1) [OF assms, of f] row_of_mem [OF sqlite_okD(1) [OF assms]]
    by (auto simp: sqlite_txs_def)
  show ?thesis
    using sql_init [OF assms] * by (auto simp: sql_queryTransactions_def Let_def summary_of_def)
qed

lemma sql_count:
  assumes "sqlite_ok s"
  shows "\<exists>n s'. sql_countTransactions f s = (Inr n, s') \<and> sqlite_ok s' \<and> sqlite_txs s' = sqlite_txs s \<and>
    sqlite_comps s' = sqlite_comps s \<and> n = card {i. \<exists>r. sqlite_txs s i = Some r \<and> selects f r}"
proof -
  let ?rs = "sq_transactions (ensureDb s)"
  have d: "distinct (map tx_transactionId ?rs)" by (rule sqlite_okD(1) [OF assms])
  have "{i. \<exists>r. sqlite_txs s i = Some r \<and> selects f r} = set (map tx_transactionId (filter (selects f) ?rs))"
    using row_of_mem [OF d] row_of_SomeD [of _ ?rs] by (fastforce simp: sqlite_txs_def)
  moreover have "card (set (map tx_transactionId (filter (selects f) ?rs))) = length (filter (selects f) ?rs)"
    using distinct_card [OF distinct_map_filter [OF d, of "selects f"]] by simp
  ultimately show ?thesis using sql_init [OF assms] by (simp add: sql_countTransactions_def Let_def)
qed

lemma sql_orphans: "sqlite_ok s \<Longrightarrow> sqlite_txs s i = None \<Longrightarrow> sqlite_comps s i = []"
  using sqlite_okD(2) [of s] by (fastforce simp: sqlite_txs_def sqlite_comps_def stack_rows_def filter_empty_conv)

interpretation sqlite: state_store sqlite_ops sqlite_ok sqlite_txs sqlite_comps
proof unfold_locales
  fix s i r
  show "sqlite_ok s \<Longrightarrow> sqlite_txs s i = Some r \<Longrightarrow> tx_transactionId r = i"
    using row_of_SomeD by (auto simp: sqlite_txs_def)
qed (unfold sqlite_ops_def store_ops.select_convs,
    (rule sql_init sql_create_new sql_create_old sql_get sql_update_current sql_update_stale sql_stack
       sql_mark sql_delete sql_delete_count sql_query sql_query_window sql_query_any sql_count sqlite_stacks sql_orphans; assumption)+)

end
