(* ===== verification/ActorInv.thy ===== *)
theory ActorInv
  imports ActorKept SqliteStore
begin

text \<open>
  Invariants of an actor, as instances of \<open>kept\<close>: the nesting depth of effects is bounded and
  restored; a transaction nobody works on holds no active step and no lease; the transactions of
  other machines in the same store are never written. The last two hold on every store that keeps
  the contract (locale \<open>actor_store\<close>), and so on the SQLite driver.
\<close>

section \<open>Nesting of effects\<close>

lemma bind_reads: "bind (reads f) k w = k (f w) w"
  by (simp add: bind_def reads_def)

definition depth_is :: "('s, 'u) actor \<Rightarrow> (string \<Rightarrow> int option) \<Rightarrow> ('s, 'u) world \<Rightarrow> bool" where
  "depth_is a d w \<longleftrightarrow> map_of (w_depth w) = d \<and>
     (\<forall>i n. d i = Some n \<longrightarrow> 1 \<le> n \<and> of_int n \<le> ac_maxEffectChainDepth a)"

lemma depth_keeps_effect:
  assumes run: "\<And>d env p. keeps (depth_is a d) (run env p)"
  shows "keeps (depth_is a d) (invokeSingleEffect a run i st c n pl b)"
proof (cases "hp_resolveEffect (ac_handlers a) n (rb_namespace (md_registry (ac_machine a)))")
  case None
  then show ?thesis unfolding invokeSingleEffect_def Let_def by (auto intro: keeps_throw keeps_ret)
next
  case (Some h)
  obtain name fn where h: "h = (name, fn)" by (cases h)
  have frame: "depth_is a d w' = depth_is a d w" if "w_depth w' = w_depth w" for d w w'
    using that by (simp add: depth_is_def)
  have get: "keeps (depth_is a d) (store_get a i)" for d
    by (auto simp: hoare_def store_get_def store_call_def depth_is_def split: prod.splits)
  show ?thesis
    unfolding hoare_def
  proof (intro allI impI)
    fix w r w'
    assume P: "depth_is a d w" and e: "invokeSingleEffect a run i st c n pl b w = Some (r, w')"
    let ?n = "depth_of i w + 1"
    show "depth_is a d w'"
    proof (cases "of_int ?n > ac_maxEffectChainDepth a")
      case True
      then show ?thesis using e Some P h by (auto simp: invokeSingleEffect_def eff_defs)
    next
      case False
      let ?d = "d(i \<mapsto> ?n)"
      have n: "1 \<le> ?n" "of_int ?n \<le> ac_maxEffectChainDepth a"
        using P False by (cases "map_of (w_depth w) i"; fastforce simp: depth_is_def depth_of_def)+
      have enter: "depth_is a ?d (v\<lparr>w_depth := AList.update i ?n (w_depth v)\<rparr>)" if "depth_is a d v" for v
        using that n by (auto simp: depth_is_def update_conv')
      have leave: "depth_is a d (leave_effect i v)" if v: "depth_is a ?d v" for v
      proof (cases "d i")
        case None
        then have "depth_of i w = 0" using P by (simp add: depth_is_def depth_of_def)
        then have "map_of (w_depth (leave_effect i v)) = (map_of (w_depth v))(i := None)"
          using v by (simp add: leave_effect_def depth_is_def delete_conv')
        then show ?thesis using v P None by (auto simp: depth_is_def fun_eq_iff)
      next
        case (Some k)
        then have k: "depth_of i w = k" "1 \<le> k" using P by (auto simp: depth_is_def depth_of_def)
        then have "map_of (w_depth (leave_effect i v)) = (map_of (w_depth v))(i \<mapsto> k)"
          using v by (simp add: leave_effect_def depth_is_def update_conv')
        then show ?thesis using v P Some by (auto simp: depth_is_def fun_eq_iff)
      qed
      have main: "keeps (depth_is a d) (seq (modify (\<lambda>w. w\<lparr>w_depth := AList.update i ?n (w_depth w)\<rparr>))
          (try_finally (run env p) (leave_effect i)))" for env p
        using enter leave run [of ?d env p]
        by (fastforce simp: hoare_def eff_defs split: option.splits)
      let ?M = "bind (reads (getTransitionRevision i)) (\<lambda>rev.
              bind (if rev \<noteq> b then store_get a i else ret None) (\<lambda>latest.
                let (s, x) = (case latest of
                      Some snap \<Rightarrow> (tx_stateValue snap, tx_context snap) | None \<Rightarrow> (st, c))
                in seq (modify (\<lambda>w. w\<lparr>w_depth := AList.update i ?n (w_depth w)\<rparr>))
                     (try_finally (run (Some (i, s, x, b))
                        (fn \<lparr>er_transactionId = i, er_machineId = md_id (ac_machine a),
                          er_actorId = ac_actorId a, er_state = s, er_context = x, er_payload = pl\<rparr>))
                        (leave_effect i))))"
      have k: "keeps (depth_is a d) ?M"
        unfolding Let_def case_prod_beta by (intro keeps_bind keeps_if keeps_reads get keeps_ret main)
      have m: "?M w = Some (r, w')"
        using e Some h False by (simp add: invokeSingleEffect_def bind_reads)
      show ?thesis by (rule hoareD [OF k P m])
    qed
  qed
qed

interpretation depth: kept a "depth_is a" "\<lambda>_ _. True" "\<lambda>_ _ _. True" for a
proof
  have store: "keeps (depth_is a d) (store_call f)" for d f
    by (auto simp: hoare_def store_call_def depth_is_def split: prod.splits)
  show "depth_is a d w \<Longrightarrow> w_store w' = w_store w \<Longrightarrow> w_depth w' = w_depth w \<Longrightarrow> depth_is a d w'" for d w w'
    by (simp add: depth_is_def)
  show "(\<And>j env p. keeps (depth_is a j) (run env p)) \<Longrightarrow>
      keeps (depth_is a d) (invokeSingleEffect a run i st c n pl b)" for d run i st c n pl b
    by (rule depth_keeps_effect)
qed (auto simp: store_get_def store_update_def store_query_def hoare_def store_call_def depth_is_def split: prod.splits)

section \<open>Invariants of the stored transactions\<close>

text \<open>A transaction that is not being worked on has no active step and no lease.\<close>

definition settled :: "tx_record \<Rightarrow> bool" where
  "settled r \<longleftrightarrow> tx_status r = IN_FLIGHT \<or> tx_status r = COMPENSATING \<or>
     tx_activeStep r = None \<and> tx_leaseOwner r = None \<and> tx_leaseExpiresAt r = None"

lemma settled_fresh: "fresh_record a r \<Longrightarrow> settled r"
  by (simp add: settled_def fresh_record_def)

lemma settled_patch: "settled r \<Longrightarrow> tidy_patch p \<Longrightarrow> settled (apply_patch p v r)"
  unfolding settled_def tidy_patch_def apply_patch_def
  by (elim disjE conjE) simp_all

lemma settled_release: "settled r \<Longrightarrow> tx_activeStep r = None \<Longrightarrow> settled (apply_patch (release_patch t) v r)"
  by (simp add: settled_def apply_patch_def release_patch_def touch_def)

locale actor_store = state_store ops ok txs comps
  for ops :: "'s store_ops" and ok txs comps +
  fixes a :: "('s, 'u) actor"
  assumes stored: "ac_store a = ops"
begin

definition all_settled :: "unit \<Rightarrow> ('s, 'u) world \<Rightarrow> bool" where
  "all_settled u w \<longleftrightarrow> ok (w_store w) \<and> (\<forall>i r. txs (w_store w) i = Some r \<longrightarrow> settled r)"

definition current :: "unit \<Rightarrow> tx_snapshot \<Rightarrow> ('s, 'u) world \<Rightarrow> bool" where
  "current u snap w \<longleftrightarrow> (\<forall>r. txs (w_store w) (tx_transactionId snap) = Some r \<longrightarrow>
     tx_activeStep r = tx_activeStep snap)"

definition untouched :: "string \<times> tx_record \<times> comp_entry list \<Rightarrow> ('s, 'u) world \<Rightarrow> bool" where
  "untouched j w \<longleftrightarrow> (case j of (i, r, es) \<Rightarrow> ok (w_store w) \<and> txs (w_store w) i = Some r \<and>
     comps (w_store w) i = es \<and> tx_machineId r \<noteq> md_id (ac_machine a) \<and> md_id (ac_machine a) \<noteq> [])"

text \<open>A store call that changes neither view keeps any property of the two views.\<close>

lemma quiet_call:
  assumes "\<And>s. ok s \<Longrightarrow> \<exists>r s'. f s = (r, s') \<and> ok s' \<and> txs s' = txs s \<and> comps s' = comps s"
  shows "keeps (all_settled u) (store_call f)" "keeps (untouched j) (store_call f)"
proof -
  have "ok (snd (f s)) \<and> txs (snd (f s)) = txs s \<and> comps (snd (f s)) = comps s" if "ok s" for s
    using assms [OF that] by auto
  then show "keeps (all_settled u) (store_call f)" "keeps (untouched j) (store_call f)"
    by (auto simp: hoare_def store_call_def all_settled_def untouched_def split: prod.splits)
      (metis snd_conv)+
qed

lemma quiet_ops:
  "ok s \<Longrightarrow> \<exists>r s'. (\<lambda>s. (Inr (), so_initialize ops s)) s = (r, s') \<and> ok s' \<and> txs s' = txs s \<and> comps s' = comps s"
  "ok s \<Longrightarrow> \<exists>r s'. so_getTransaction ops i s = (r, s') \<and> ok s' \<and> txs s' = txs s \<and> comps s' = comps s"
  "ok s \<Longrightarrow> \<exists>r s'. so_getUncompensatedStack ops i s = (r, s') \<and> ok s' \<and> txs s' = txs s \<and> comps s' = comps s"
  "ok s \<Longrightarrow> \<exists>r s'. so_countTransactions ops f s = (r, s') \<and> ok s' \<and> txs s' = txs s \<and> comps s' = comps s"
  "ok s \<Longrightarrow> \<exists>r s'. so_queryTransactions ops f t th s = (r, s') \<and> ok s' \<and> txs s' = txs s \<and> comps s' = comps s"
  using initialize [of s] get [of s i] stack [of s i] count [of s f] query_any [of s f t th] by blast+

lemma effect_frame:
  assumes "\<And>w w'. Q w \<Longrightarrow> w_store w' = w_store w \<Longrightarrow> Q w'" "\<And>i. keeps Q (store_get a i)"
    and "\<And>env nm fn req ns. hp_resolveEffect (ac_handlers a) n ns = Some (nm, fn) \<Longrightarrow>
      keeps Q (run env (fn req))"
  shows "keeps Q (invokeSingleEffect a run i st c n pl b)"
proof -
  have m: "keeps Q (modify f)" if "\<And>w. w_store (f w) = w_store w" for f
    using assms(1) that by (blast intro: keeps_modify)
  have f: "w_store (leave_effect i w) = w_store w" for w
    by (simp add: leave_effect_def Let_def)
  have r: "keeps Q (run env (snd p req))" if "hp_resolveEffect (ac_handlers a) n ns = Some p" for env p req ns
    using assms(3) [of ns "fst p" "snd p"] that by simp
  show ?thesis
    unfolding invokeSingleEffect_def Let_def case_prod_beta
    by (intro keeps_option keeps_if keeps_bind keeps_seq keeps_finally keeps_throw keeps_ret keeps_reads
        m assms(2) r) (simp, assumption, rule assms(1), assumption, rule f)
qed

subsection \<open>Settled transactions\<close>

lemma settled_create:
  "fresh_record a r \<Longrightarrow> keeps (all_settled u) (store_call (so_createTransaction ops r))"
  unfolding hoare_def
proof (intro allI impI)
  fix w x w' assume f: "fresh_record a r" and P: "all_settled u w"
    and e: "store_call (so_createTransaction ops r) w = Some (x, w')"
  then have ok: "ok (w_store w)" by (simp add: all_settled_def)
  show "all_settled u w'"
    using create_new [OF ok, of r] create_old [OF ok, of r] e P settled_fresh [OF f]
    by (cases "txs (w_store w) (tx_transactionId r)")
      (auto simp: store_call_def all_settled_def split: prod.splits if_splits)
qed

lemma settled_update:
  assumes "\<And>w r. P w \<Longrightarrow> txs (w_store w) i = Some r \<Longrightarrow> tx_version r = v \<Longrightarrow> settled (apply_patch p (v + 1) r)"
    and "\<And>w. P w \<Longrightarrow> all_settled u w"
  shows "hoare P (store_update a i v p ns) (\<lambda>_. all_settled u)"
  unfolding hoare_def store_update_def stored
proof (intro allI impI)
  fix w x w' assume P: "P w" and e: "store_call (so_updateTransaction ops i v p ns) w = Some (x, w')"
  then have ok: "ok (w_store w)" using assms(2) by (auto simp: all_settled_def)
  show "all_settled u w'"
    using assms(2) [OF P] assms(1) [OF P] e
    by (rule_tac update_cases [OF ok, of i v p ns])
      (auto simp: store_call_def all_settled_def split: if_splits)
qed

lemma settled_mark: "keeps (all_settled u) (store_call (so_markCompensationExecuted ops i q t))"
  unfolding hoare_def
proof (intro allI impI)
  fix w x w' assume P: "all_settled u w"
    and e: "store_call (so_markCompensationExecuted ops i q t) w = Some (x, w')"
  then have "ok (w_store w)" by (simp add: all_settled_def)
  from mark [OF this, of i q t] e P show "all_settled u w'"
    by (auto simp: store_call_def all_settled_def split: prod.splits)
qed

lemma settled_delete: "keeps (all_settled u) (store_call (so_deleteTransactions ops ids))"
  unfolding hoare_def
proof (intro allI impI)
  fix w x w' assume P: "all_settled u w" and e: "store_call (so_deleteTransactions ops ids) w = Some (x, w')"
  then have "ok (w_store w)" by (simp add: all_settled_def)
  from delete [OF this, of ids] e P show "all_settled u w'"
    by (auto simp: store_call_def all_settled_def restrict_map_def split: prod.splits if_splits)
qed

lemma settled_get:
  "hoare (all_settled u) (store_get a i) (\<lambda>r w. all_settled u w \<and> (\<forall>snap. r = Inr (Some snap) \<longrightarrow>
     current u snap w))"
  unfolding hoare_def store_get_def stored
proof (intro allI impI)
  fix w x w' assume P: "all_settled u w" and e: "store_call (so_getTransaction ops i) w = Some (x, w')"
  then have ok: "ok (w_store w)" by (simp add: all_settled_def)
  from get [OF ok, of i] e P ids [OF ok] show "all_settled u w' \<and> (\<forall>snap. x = Inr (Some snap) \<longrightarrow>
     current u snap w')"
    by (auto simp: store_call_def all_settled_def current_def snapshot_of_def tx_record.extend_def
        split: prod.splits)
qed

sublocale settled: kept a all_settled "\<lambda>_ _. True" current
proof (unfold_locales; (unfold stored)?)
  fix w w' :: "('s, 'u) world" and j assume "all_settled j w" "w_store w' = w_store w"
  then show "all_settled j w'" by (simp add: all_settled_def)
next
  fix w w' :: "('s, 'u) world" and j snap assume "current j snap w" "w_store w' = w_store w"
  then show "current j snap w'" by (simp add: current_def)
next
  fix j and i :: string
  show "hoare (all_settled j) (store_get a i) (\<lambda>r w. all_settled j w \<and> (\<forall>snap. r = Inr (Some snap) \<longrightarrow>
      current j snap w \<and> (True \<or> tx_machineId snap = md_id (ac_machine a) \<longrightarrow> True)))"
    using settled_get by (rule hoare_post) auto
next
  fix j i v p ns assume "tidy_patch p"
  then show "keeps (all_settled j) (store_update a i v p ns)"
    by (intro settled_update) (auto simp: all_settled_def intro: settled_patch)
next
  fix j and snap :: tx_snapshot and t assume "tx_activeStep snap = None"
  then show "hoare (\<lambda>w. all_settled j w \<and> current j snap w)
      (store_update a (tx_transactionId snap) (tx_version snap) (release_patch t) []) (\<lambda>_. all_settled j)"
    by (intro settled_update) (auto simp: all_settled_def current_def intro!: settled_release)
next
  fix f j t th
  have "keeps (all_settled j) (store_query a f t th)"
    unfolding store_query_def stored by (rule quiet_call(1) [OF quiet_ops(5)])
  then show "hoare (all_settled j) (store_query a f t th) (\<lambda>r w. all_settled j w \<and>
      (\<forall>xs x. r = Inr xs \<longrightarrow> x \<in> set xs \<longrightarrow> True))" by simp
next
  fix run :: "('s, 'u) runner" and j i st c n pl b
  assume run: "\<And>j env p. keeps (all_settled j) (run env p)"
  show "keeps (all_settled j) (invokeSingleEffect a run i st c n pl b)"
  proof (rule effect_frame [OF _ _ run])
    show "keeps (all_settled j) (store_get a i)" for i
      unfolding store_get_def stored by (rule quiet_call(1) [OF quiet_ops(2)])
  qed (simp add: all_settled_def)
qed (rule settled_create settled_mark settled_delete quiet_call(1) [OF quiet_ops(1)]
    quiet_call(1) [OF quiet_ops(3)] quiet_call(1) [OF quiet_ops(4)]; assumption?)+

subsection \<open>Transactions of other machines\<close>

lemma untouched_call:
  assumes "\<And>s. ok s \<Longrightarrow> \<exists>r s'. f s = (r, s') \<and> ok s' \<and> txs s' i = txs s i \<and> comps s' i = comps s i"
  shows "keeps (untouched (i, r, es)) (store_call f)"
proof -
  have "ok (snd (f s)) \<and> txs (snd (f s)) i = txs s i \<and> comps (snd (f s)) i = comps s i" if "ok s" for s
    using assms [OF that] by auto
  then show ?thesis
    by (auto simp: hoare_def store_call_def untouched_def split: prod.splits) (metis snd_conv)+
qed

lemma untouched_create:
  assumes "fresh_record a r"
  shows "keeps (untouched j) (store_call (so_createTransaction ops r))"
  unfolding hoare_def
proof (intro allI impI)
  fix w x w' assume P: "untouched j w" and e: "store_call (so_createTransaction ops r) w = Some (x, w')"
  then have ok: "ok (w_store w)" by (simp add: untouched_def split: prod.splits)
  show "untouched j w'"
    using create_new [OF ok, of r] create_old [OF ok, of r] e P
    by (cases "txs (w_store w) (tx_transactionId r)")
      (auto simp: store_call_def untouched_def split: prod.splits)
qed

lemma untouched_update: "i \<noteq> fst j \<Longrightarrow> keeps (untouched j) (store_call (so_updateTransaction ops i v p ns))"
proof (cases j)
  case (fields k r es)
  assume "i \<noteq> fst j"
  then have k: "k \<noteq> i" using fields by simp
  have "\<exists>x s'. so_updateTransaction ops i v p ns s = (x, s') \<and> ok s' \<and> txs s' k = txs s k \<and>
      comps s' k = comps s k" if "ok s" for s
    by (rule update_cases [OF that, of i v p ns]) (use k in auto)
  then show ?thesis unfolding fields by (rule untouched_call)
qed

lemma untouched_mark: "i \<noteq> fst j \<Longrightarrow> keeps (untouched j) (store_call (so_markCompensationExecuted ops i q t))"
proof (cases j)
  case (fields k r es)
  assume "i \<noteq> fst j"
  then have k: "k \<noteq> i" using fields by simp
  have "\<exists>x s'. so_markCompensationExecuted ops i q t s = (x, s') \<and> ok s' \<and> txs s' k = txs s k \<and>
      comps s' k = comps s k" if "ok s" for s
    using mark [OF that, of i q t] k by auto
  then show ?thesis unfolding fields by (rule untouched_call)
qed

lemma untouched_delete: "fst j \<notin> set ids \<Longrightarrow> keeps (untouched j) (store_call (so_deleteTransactions ops ids))"
proof (cases j)
  case (fields k r es)
  assume "fst j \<notin> set ids"
  then have k: "k \<notin> set ids" using fields by simp
  have "\<exists>x s'. so_deleteTransactions ops ids s = (x, s') \<and> ok s' \<and> txs s' k = txs s k \<and>
      comps s' k = comps s k" if "ok s" for s
    using delete [OF that, of ids] k by (auto simp: restrict_map_def)
  then show ?thesis unfolding fields by (rule untouched_call)
qed

lemma untouched_get:
  "hoare (untouched j) (store_get a i) (\<lambda>r w. untouched j w \<and> (\<forall>snap. r = Inr (Some snap) \<longrightarrow>
     tx_transactionId snap = i \<and> (tx_machineId snap = md_id (ac_machine a) \<longrightarrow> i \<noteq> fst j)))"
  unfolding hoare_def store_get_def stored
proof (intro allI impI)
  fix w x w' assume P: "untouched j w" and e: "store_call (so_getTransaction ops i) w = Some (x, w')"
  then have ok: "ok (w_store w)" by (simp add: untouched_def split: prod.splits)
  from get [OF ok, of i] e P ids [OF ok] show "untouched j w' \<and> (\<forall>snap. x = Inr (Some snap) \<longrightarrow>
     tx_transactionId snap = i \<and> (tx_machineId snap = md_id (ac_machine a) \<longrightarrow> i \<noteq> fst j))"
    by (auto simp: store_call_def untouched_def snapshot_of_def tx_record.extend_def split: prod.splits)
qed

lemma untouched_query:
  assumes "qf_machineId f = Some (md_id (ac_machine a))"
  shows "hoare (untouched j) (store_query a f t th) (\<lambda>r w. untouched j w \<and>
    (\<forall>xs x. r = Inr xs \<longrightarrow> x \<in> set xs \<longrightarrow> su_transactionId x \<noteq> fst j))"
  unfolding hoare_def store_query_def stored
proof (intro allI impI)
  fix w x w' assume P: "untouched j w"
    and e: "store_call (so_queryTransactions ops f t th) w = Some (x, w')"
  then have ok: "ok (w_store w)" by (simp add: untouched_def split: prod.splits)
  have "md_id (ac_machine a) \<noteq> []" using P by (simp add: untouched_def split: prod.splits)
  then have m: "tx_machineId r = md_id (ac_machine a)" if "selects f r" for r
    using that assms by (simp add: selects_def truthy_def)
  from query_any [OF ok, of f t th] e P show "untouched j w' \<and>
      (\<forall>xs y. x = Inr xs \<longrightarrow> y \<in> set xs \<longrightarrow> su_transactionId y \<noteq> fst j)"
    by (auto simp: store_call_def untouched_def split: prod.splits dest!: m) (fastforce dest!: m)
qed

sublocale foreign: kept a untouched "\<lambda>j i. i \<noteq> fst j" "\<lambda>_ _ _. True"
proof (unfold_locales; (unfold stored)?)
  fix w w' :: "('s, 'u) world" and j assume "untouched j w" "w_store w' = w_store w"
  then show "untouched j w'" by (simp add: untouched_def)
next
  fix j :: "string \<times> tx_record \<times> comp_entry list" and i :: string
  show "hoare (untouched j) (store_get a i) (\<lambda>r w. untouched j w \<and> (\<forall>snap. r = Inr (Some snap) \<longrightarrow>
      True \<and> (i \<noteq> fst j \<or> tx_machineId snap = md_id (ac_machine a) \<longrightarrow> tx_transactionId snap \<noteq> fst j)))"
    using untouched_get by (rule hoare_post) auto
next
  fix j :: "string \<times> tx_record \<times> comp_entry list" and i :: string and v p ns assume "i \<noteq> fst j"
  then show "keeps (untouched j) (store_update a i v p ns)"
    unfolding store_update_def stored by (rule untouched_update)
next
  fix j :: "string \<times> tx_record \<times> comp_entry list" and snap :: tx_snapshot and t assume "tx_transactionId snap \<noteq> fst j"
  then show "hoare (\<lambda>w. untouched j w \<and> True)
      (store_update a (tx_transactionId snap) (tx_version snap) (release_patch t) []) (\<lambda>_. untouched j)"
    unfolding store_update_def stored by (simp add: untouched_update)
next
  fix run :: "('s, 'u) runner" and j i st c n pl b
  assume run: "\<And>j env p. keeps (untouched j) (run env p)"
  show "keeps (untouched j) (invokeSingleEffect a run i st c n pl b)"
  proof (rule effect_frame [OF _ _ run])
    show "keeps (untouched j) (store_get a i)" for i
      unfolding store_get_def stored by (rule quiet_call(2) [OF quiet_ops(2)])
  qed (simp add: untouched_def)
next
  fix ids and j :: "string \<times> tx_record \<times> comp_entry list" assume "\<And>i. i \<in> set ids \<Longrightarrow> i \<noteq> fst j"
  then show "keeps (untouched j) (store_call (so_deleteTransactions ops ids))"
    by (intro untouched_delete) blast
qed (rule untouched_create untouched_mark untouched_query quiet_call(2) [OF quiet_ops(1)]
    quiet_call(2) [OF quiet_ops(3)] quiet_call(2) [OF quiet_ops(4)] TrueI; assumption?)+

end

text \<open>The contract of the store holds for the driver, so both invariants hold of an actor on it.\<close>

interpretation on_sqlite: actor_store sqlite_ops sqlite_ok sqlite_txs sqlite_comps
  "a\<lparr>ac_store := sqlite_ops\<rparr>" for a
  by unfold_locales simp

lemma store_same: "ac_store a = sqlite_ops \<Longrightarrow> a\<lparr>ac_store := sqlite_ops\<rparr> = a"
  by (metis actor.surjective actor.update_convs(3))

lemma on_driver: "ac_store a = sqlite_ops \<Longrightarrow> actor_store sqlite_ops sqlite_ok sqlite_txs sqlite_comps a"
  using on_sqlite.actor_store_axioms [of a] by (simp add: store_same)

end
