(* ===== verification/ActorTotal.thy ===== *)
theory ActorTotal
  imports ActorKept
begin

text \<open>
  Total correctness of the actor for user programs that do not call back: every operation returns
  for every fuel from some point on. The pipelines return because the breakers' windows are trimmed
  to a size that is not negative, retries are bounded, and the chain of completions is cut at twenty.
\<close>

section \<open>Returning with enough fuel\<close>

definition ends :: "('w \<Rightarrow> bool) \<Rightarrow> (nat \<Rightarrow> ('a, 'w) eff) \<Rightarrow> bool" where
  "ends P F \<longleftrightarrow> (\<forall>w. P w \<longrightarrow> (\<exists>r w' n. (\<forall>m\<ge>n. F m w = Some (r, w')) \<and> P w'))"

named_theorems ends_intros \<open>returning of the combinators and operations\<close>

lemma ends_const: "(\<And>w. P w \<Longrightarrow> \<exists>r w'. f w = Some (r, w') \<and> P w') \<Longrightarrow> ends P (\<lambda>n. f)"
  unfolding ends_def by blast

lemma ends_simple [ends_intros]:
  "ends P (\<lambda>n. ret x)" "ends P (\<lambda>n. throw e)" "ends P (\<lambda>n. reads g)" "ends P (\<lambda>n. result r)"
  by (rule ends_const, simp add: eff_defs)+

lemma ends_modify [ends_intros]: "(\<And>w. P w \<Longrightarrow> P (f w)) \<Longrightarrow> ends P (\<lambda>n. modify f)"
  by (rule ends_const) (simp add: eff_defs)

lemma ends_bind [ends_intros]:
  assumes "ends P F" "\<And>x. ends P (\<lambda>n. G n x)"
  shows "ends P (\<lambda>n. bind (F n) (G n))"
  unfolding ends_def
proof (intro allI impI)
  fix w assume "P w"
  then obtain r w1 n where f: "\<And>m. m \<ge> n \<Longrightarrow> F m w = Some (r, w1)" "P w1"
    using assms(1) unfolding ends_def by blast
  show "\<exists>r w' n. (\<forall>m\<ge>n. bind (F m) (G m) w = Some (r, w')) \<and> P w'"
  proof (cases r)
    case (Inl e)
    then show ?thesis using f by (intro exI [of _ "Inl e"] exI [of _ w1] exI [of _ n]) (simp add: bind_def)
  next
    case (Inr x)
    obtain r2 w2 n2 where g: "\<And>m. m \<ge> n2 \<Longrightarrow> G m x w1 = Some (r2, w2)" "P w2"
      using assms(2) [of x] f(2) unfolding ends_def by blast
    then show ?thesis using f Inr
      by (intro exI [of _ r2] exI [of _ w2] exI [of _ "max n n2"]) (simp add: bind_def)
  qed
qed

lemma ends_seq [ends_intros]: "ends P F \<Longrightarrow> ends P G \<Longrightarrow> ends P (\<lambda>n. seq (F n) (G n))"
  unfolding seq_def by (rule ends_bind)

lemma ends_attempt [ends_intros]: "ends P F \<Longrightarrow> ends P (\<lambda>n. attempt (F n))"
  unfolding ends_def attempt_def by (fastforce split: option.splits)

lemma ends_finally [ends_intros]:
  "ends P F \<Longrightarrow> (\<And>w. P w \<Longrightarrow> P (f w)) \<Longrightarrow> ends P (\<lambda>n. try_finally (F n) f)"
  unfolding ends_def try_finally_def by (fastforce split: option.splits)

lemma ends_for_each [ends_intros]:
  "(\<And>x. x \<in> set xs \<Longrightarrow> ends P (\<lambda>n. F n x)) \<Longrightarrow> ends P (\<lambda>n. for_each xs (F n))"
  by (induction xs) (auto intro: ends_intros)

lemma ends_fold_each [ends_intros]:
  "(\<And>x acc. x \<in> set xs \<Longrightarrow> ends P (\<lambda>n. F n x acc)) \<Longrightarrow> ends P (\<lambda>n. fold_each (F n) xs acc)"
  by (induction xs arbitrary: acc) (auto intro: ends_intros)

lemma ends_if [ends_intros]:
  "(b \<Longrightarrow> ends P F) \<Longrightarrow> (\<not> b \<Longrightarrow> ends P G) \<Longrightarrow> ends P (\<lambda>n. if b then F n else G n)"
  by (cases b) simp_all

lemma ends_option [ends_intros]:
  "(x = None \<Longrightarrow> ends P F) \<Longrightarrow> (\<And>y. x = Some y \<Longrightarrow> ends P (\<lambda>n. G n y)) \<Longrightarrow>
     ends P (\<lambda>n. case x of None \<Rightarrow> F n | Some y \<Rightarrow> G n y)"
  by (cases x) auto

lemma ends_sum [ends_intros]:
  "(\<And>e. ends P (\<lambda>n. F n e)) \<Longrightarrow> (\<And>y. ends P (\<lambda>n. G n y)) \<Longrightarrow>
     ends P (\<lambda>n. case x of Inl e \<Rightarrow> F n e | Inr y \<Rightarrow> G n y)"
  by (cases x) auto

lemma ends_step [ends_intros]:
  "(\<And>wk. ends P (\<lambda>n. F n wk)) \<Longrightarrow> (\<And>wk k st msg. ends P (\<lambda>n. G n wk k st msg)) \<Longrightarrow>
     ends P (\<lambda>n. case r of StepOk wk \<Rightarrow> F n wk | StepFail wk k st msg \<Rightarrow> G n wk k st msg)"
  by (cases r) auto

lemma ends_outcome [ends_intros]:
  "(\<And>x c k. ends P (\<lambda>n. F n x c k)) \<Longrightarrow> (\<And>e c t k. ends P (\<lambda>n. G n e c t k)) \<Longrightarrow>
     ends P (\<lambda>n. case out of PipeOk x c k \<Rightarrow> F n x c k | PipeFail e c t k \<Rightarrow> G n e c t k)"
  by (cases out) auto

section \<open>Actors whose hooks and effects do not call back\<close>

text \<open>A program that only acts on the outside world.\<close>

inductive plain :: "'u prog \<Rightarrow> bool" where
  "plain PDone"
| "plain (PThrow e)"
| "(\<And>u. plain (fst (f u))) \<Longrightarrow> plain (PAct f)"

inductive_simps plain_simps [simp]: "plain PDone" "plain (PThrow e)" "plain (PAct f)"
  "plain (PTransition i ev inp md k)" "plain (PStart ctx i k)" "plain (PRunEffect nm pl k)"

definition plain_actor :: "('s, 'u) actor \<Rightarrow> bool" where
  "plain_actor a \<longleftrightarrow>
     (\<forall>n ns nm fn. hp_resolveEffect (ac_handlers a) n ns = Some (nm, fn) \<longrightarrow> (\<forall>req. plain (fn req))) \<and>
     (\<forall>sub \<in> set (ac_hooks a). \<forall>slot. \<forall>fn \<in> set (sub slot). \<forall>ev. plain (fn ev)) \<and>
     (\<forall>(k, b) \<in> set (ac_bindings a). policy_ok (np_circuitBreaker (bd_policy b)) \<or>
       \<not> nc_enabled (np_circuitBreaker (bd_policy b)))"

definition breakers_ok :: "('s, 'u) world \<Rightarrow> bool" where
  "breakers_ok w \<longleftrightarrow>
     (\<forall>k b. map_of (w_breakers w) k = Some b \<longrightarrow> breaker_inv b \<or> \<not> nc_enabled (cb_policy b))"

lemma breakers_ok_frame:
  "w_breakers w' = w_breakers w \<Longrightarrow> breakers_ok w \<Longrightarrow> breakers_ok w'"
  by (simp add: breakers_ok_def)

lemma breakers_ok_updates [simp]:
  "breakers_ok (w_store_update f w) = breakers_ok w" "breakers_ok (w_user_update g w) = breakers_ok w"
  by (simp_all add: breakers_ok_def)

lemma ends_store [ends_intros]: "ends breakers_ok (\<lambda>n. store_call f)"
  by (rule ends_const) (auto simp: store_call_def split: prod.splits)

lemma ends_user [ends_intros]: "ends breakers_ok (\<lambda>n. user_call f)"
  by (rule ends_const) (auto simp: user_call_def split: prod.splits)

lemma ends_store_ops [ends_intros]:
  "ends breakers_ok (\<lambda>n. now a)" "ends breakers_ok (\<lambda>n. store_get a i)"
  "ends breakers_ok (\<lambda>n. store_update a i v p ns)" "ends breakers_ok (\<lambda>n. store_query a f t th)"
  unfolding now_def store_get_def store_update_def store_query_def by (intro ends_intros)+

lemma plain_ends:
  fixes a :: "('s, 'u) actor"
  shows "plain p \<Longrightarrow> ends breakers_ok (\<lambda>n. run_prog n a env p)"
proof (induction rule: plain.induct)
  case (3 f)
  show ?case
    unfolding ends_def
  proof (intro allI impI)
    fix w :: "('s, 'u) world" assume P: "breakers_ok w"
    obtain p u where f: "f (w_user w) = (p, u)" by (cases "f (w_user w)")
    then have "ends breakers_ok (\<lambda>n. run_prog n a env p)" using 3(2) [of "w_user w"] by simp
    moreover have "breakers_ok (w\<lparr>w_user := u\<rparr>)" using P by simp
    ultimately obtain r w' n where n: "\<And>m. m \<ge> n \<Longrightarrow> run_prog m a env p (w\<lparr>w_user := u\<rparr>) = Some (r, w')"
      "breakers_ok w'" unfolding ends_def by blast
    have "run_prog m a env (PAct f) w = Some (r, w')" if "m \<ge> Suc n" for m
      using that n(1) f by (cases m) (simp_all add: bind_def user_call_def)
    then show "\<exists>r w' n. (\<forall>m\<ge>n. run_prog m a env (PAct f) w = Some (r, w')) \<and> breakers_ok w'"
      using n(2) by blast
  qed
next
  case 1
  show ?case unfolding ends_def
    by (intro allI impI exI [of _ "Inr ()"] exI exI [of _ "1 :: nat"]) (auto simp: ret_def Suc_le_eq gr0_conv_Suc)
next
  case (2 e)
  show ?case unfolding ends_def
    by (intro allI impI exI [of _ "Inl e"] exI exI [of _ "1 :: nat"]) (auto simp: throw_def Suc_le_eq gr0_conv_Suc)
qed

lemma ends_pipeline [ends_intros]:
  fixes a :: "('s, 'u) actor"
  assumes "plain_actor a" "(k, b) \<in> set (ac_bindings a)"
  shows "ends breakers_ok (\<lambda>n. run_pipeline a b c)"
proof (rule ends_const)
  fix w :: "('s, 'u) world" assume P: "breakers_ok w"
  let ?key = "nc_key (np_circuitBreaker (bd_policy b))"
  let ?br = "or_else (map_of (w_breakers w) ?key) (new_breaker (np_circuitBreaker (bd_policy b)))"
  have "policy_ok (np_circuitBreaker (bd_policy b)) \<or> \<not> nc_enabled (np_circuitBreaker (bd_policy b))"
    using assms by (auto simp: plain_actor_def)
  then have "breaker_inv ?br \<or> \<not> nc_enabled (cb_policy ?br)"
    using P new_breaker_inv
    by (cases "map_of (w_breakers w) ?key") (auto simp: breakers_ok_def new_breaker_def)
  with pipeline_total [of ?br "ac_world a" "bd_policy b" "bd_fn b" "ac_contextValidator a" c "w_user w"]
  obtain out b' u' where e: "pipeline_execute (ac_world a) (bd_policy b) (bd_fn b) (ac_contextValidator a) c
      ?br (w_user w) = Some (out, b', u')" "breaker_inv b' \<or> \<not> nc_enabled (cb_policy b')" by auto
  have "breakers_ok (w\<lparr>w_user := u', w_breakers := AList.update ?key b' (w_breakers w)\<rparr>)"
    using P e(2) by (auto simp: breakers_ok_def update_conv')
  with e(1) show "\<exists>r w'. run_pipeline a b c w = Some (r, w') \<and> breakers_ok w'"
    by (simp add: run_pipeline_def Let_def)
qed

section \<open>Every operation of a plain actor returns\<close>

lemma ends_frame [ends_intros]:
  "(\<And>w. w_breakers (f w) = w_breakers w) \<Longrightarrow> ends breakers_ok (\<lambda>n. modify f)"
  by (rule ends_modify) (rule breakers_ok_frame)

lemma ends_emit [ends_intros]: "plain_actor a \<Longrightarrow> ends breakers_ok (\<lambda>n. emit a (run_prog n a) slot ev)"
  unfolding emit_def by (intro ends_for_each plain_ends) (auto simp: plain_actor_def)

lemma ends_terminal [ends_intros]:
  "plain_actor a \<Longrightarrow> ends breakers_ok (\<lambda>n. emitSettledTerminalHooks a (run_prog n a) i st s c e)"
  unfolding emitSettledTerminalHooks_def by (intro ends_intros)

lemma leave_breakers [simp]: "w_breakers (leave_effect i w) = w_breakers w"
  by (simp add: leave_effect_def Let_def)

lemma ends_effect [ends_intros]:
  assumes "plain_actor a"
  shows "ends breakers_ok (\<lambda>n. invokeSingleEffect a (run_prog n a) i st c nm pl b)"
proof -
  have run: "ends breakers_ok (\<lambda>n. run_prog n a env (fn req))"
    if "hp_resolveEffect (ac_handlers a) nm ns = Some (x, fn)" for env fn req ns x
    using assms that by (intro plain_ends) (auto simp: plain_actor_def)
  show ?thesis
    unfolding invokeSingleEffect_def Let_def case_prod_beta
    by (intro ends_option ends_if ends_bind ends_seq ends_simple ends_store_ops ends_frame ends_finally)
      (auto intro!: run breakers_ok_frame [OF leave_breakers])
qed

lemma ends_effects [ends_intros]:
  "plain_actor a \<Longrightarrow> ends breakers_ok (\<lambda>n. invokeEffects a (run_prog n a) i st c es)"
  unfolding invokeEffects_def case_prod_beta by (intro ends_intros)

lemma ends_unwind [ends_intros]:
  "plain_actor a \<Longrightarrow> ends breakers_ok (\<lambda>n. unwindCompensationStack a (run_prog n a) i c e)"
  unfolding unwindCompensationStack_def unwind_entry_def Let_def case_prod_beta by (intro ends_intros)

lemma ends_find [ends_intros]:
  "(\<And>k b. (k, b) \<in> set (ac_bindings a) \<Longrightarrow> ends P (\<lambda>n. G n b)) \<Longrightarrow>
     ends P (\<lambda>n. bind (find_binding a p ev) (G n))"
proof (cases "map_of (ac_bindings a) (bindingKey p ev)")
  case None
  then have "bind (find_binding a p ev) (G n) = throw missing_binding" for n
    by (simp add: find_binding_def bind_def throw_def fun_eq_iff)
  then show ?thesis by (simp add: ends_simple)
next
  case (Some b)
  assume "\<And>k b. (k, b) \<in> set (ac_bindings a) \<Longrightarrow> ends P (\<lambda>n. G n b)"
  moreover have "bind (find_binding a p ev) (G n) = G n b" for n
    using Some by (simp add: find_binding_def bind_def ret_def fun_eq_iff)
  ultimately show ?thesis using map_of_SomeD [OF Some] by simp
qed

lemma ends_validate [ends_intros]: "ends breakers_ok (\<lambda>n. validate_inputs a input ms)"
  unfolding validate_inputs_def case_prod_beta by (intro ends_intros)

lemma ends_failure [ends_intros]:
  "plain_actor a \<Longrightarrow> ends breakers_ok (\<lambda>n. step_failure a (run_prog n a) i p e c f wk)"
  unfolding step_failure_def Let_def case_prod_beta by (intro ends_intros)

lemma ends_success [ends_intros]: "ends breakers_ok (\<lambda>n. step_success a i b p ev input out ctx wk)"
  unfolding step_success_def Let_def case_prod_beta by (intro ends_intros)

lemma ends_telemetry [ends_intros]:
  "plain_actor a \<Longrightarrow> (k, b) \<in> set (ac_bindings a) \<Longrightarrow> (\<And>out. ends breakers_ok (\<lambda>n. K n out)) \<Longrightarrow>
     ends breakers_ok (\<lambda>n. executeWithTelemetry a b c (K n))"
  unfolding executeWithTelemetry_def case_prod_beta by (intro ends_intros) simp_all

lemma ends_matches [ends_intros]:
  "plain_actor a \<Longrightarrow> ends breakers_ok (\<lambda>n. run_matches a (run_prog n a) i ev s md vs wk)"
proof (induction vs arbitrary: wk)
  case (Cons v vs)
  obtain node edge input where v: "v = ((node, edge), input)" by (metis surj_pair)
  from Cons show ?case unfolding v run_matches.simps by (intro ends_find ends_intros)
qed (simp add: ends_simple)

lemma ends_cascade [ends_intros]:
  "plain_actor a \<Longrightarrow> ends breakers_ok (\<lambda>n. cascade_done k a i md wk)"
proof (induction k arbitrary: wk)
  case (Suc k)
  then show ?case unfolding cascade_done.simps case_prod_beta
    by (intro ends_intros) (auto dest: map_of_SomeD)
qed (simp add: ends_simple)

lemma ends_commit [ends_intros]:
  "plain_actor a \<Longrightarrow> ends breakers_ok (\<lambda>n. after_commit a (run_prog n a) i ev es)"
  unfolding after_commit_def by (intro ends_intros) simp_all

lemma ends_execute [ends_intros]:
  "plain_actor a \<Longrightarrow> ends breakers_ok (\<lambda>n. executeTransitionOnSnapshot a (run_prog n a) snap ev input md)"
  unfolding executeTransitionOnSnapshot_def commit_step_def bumpTransitionRevision_def Let_def by (intro ends_intros) simp_all

lemma ends_compensate [ends_intros]:
  "plain_actor a \<Longrightarrow> ends breakers_ok (\<lambda>n. compensate_item a (run_prog n a) msg item)"
  unfolding compensate_item_def case_prod_beta by (intro ends_intros)

lemma ends_continue [ends_intros]:
  "plain_actor a \<Longrightarrow> ends breakers_ok (\<lambda>n. continue_item a (run_prog n a) item)"
  unfolding continue_item_def by (intro ends_intros)

lemma ends_recover [ends_intros]:
  "plain_actor a \<Longrightarrow> ends breakers_ok (\<lambda>n. recover_item a (run_prog n a) act item)"
  unfolding recover_item_def by (cases act) (auto intro!: ends_intros)

lemma ends_sweep [ends_intros]:
  "plain_actor a \<Longrightarrow> ends breakers_ok (\<lambda>n. executeRecoverySweep a (run_prog n a) th)"
  unfolding executeRecoverySweep_def sweep_item_def retention_sweep_def Let_def
  by (intro ends_intros) simp_all

lemma ends_scheduler [ends_intros]:
  "ends breakers_ok (\<lambda>n. startScheduler a)" "ends breakers_ok (\<lambda>n. stopScheduler)"
  "ends breakers_ok (\<lambda>n. updateSchedulerConfig a patch)"
  unfolding updateSchedulerConfig_def startScheduler_def stopScheduler_def by (intro ends_intros; simp)+

lemma ends_initialize [ends_intros]:
  "plain_actor a \<Longrightarrow> ends breakers_ok (\<lambda>n. initialize a (run_prog n a))"
  unfolding initialize_def by (intro ends_intros) simp_all

lemma ends_ready [ends_intros]:
  "plain_actor a \<Longrightarrow> ends breakers_ok (\<lambda>n. ensureReady a (run_prog n a))"
  unfolding ensureReady_def by (intro ends_intros)

lemma ends_start [ends_intros]:
  "plain_actor a \<Longrightarrow> ends breakers_ok (\<lambda>n. startTransaction a (run_prog n a) ctx i)"
  unfolding startTransaction_def Let_def case_prod_beta by (intro ends_intros)

lemma ends_transition [ends_intros]:
  "plain_actor a \<Longrightarrow> ends breakers_ok (\<lambda>n. transition a (run_prog n a) i ev input md)"
  unfolding transition_def by (intro ends_intros)

lemma ends_cleanup [ends_intros]:
  "plain_actor a \<Longrightarrow> ends breakers_ok (\<lambda>n. forceCleanUp a (run_prog n a) opts)"
proof -
  assume p: "plain_actor a"
  have item: "ends breakers_ok (\<lambda>n. cleanup_item a (run_prog n a) act item rep)" for act item rep
    unfolding cleanup_item_def by (cases act) (simp_all, (intro ends_intros p)+)
  show ?thesis unfolding forceCleanUp_def Let_def by (intro ends_intros item)
qed

lemma ends_perform: "plain_actor a \<Longrightarrow> ends breakers_ok (\<lambda>n. perform n a c)"
  by (cases c) (simp_all add: finished_def triggerSweepNow_def scheduler_tick_def actor_getTransaction_def
      getActiveCount_def listActiveTransactions_def listInFlightTransactions_def,
      (intro ends_intros; simp?)+)

theorem perform_returns:
  assumes "plain_actor a" "breakers_ok w"
  shows "\<exists>r w' n. (\<forall>m\<ge>n. perform m a c w = Some (r, w')) \<and> breakers_ok w'"
  using ends_perform [OF assms(1)] assms(2) unfolding ends_def by blast

end
