(* ===== verification/ActorProps.thy ===== *)
theory ActorProps
  imports ActorInv ActorTotal
begin

text \<open>
  What the operations of the actor do on a store that keeps the contract: refusals that change
  nothing, the unwinding of the compensation stack, what a transition reports, the recovery sweep,
  and forced clean-up.
\<close>

section \<open>Refusals\<close>

lemma unhandled_event:
  assumes "resolveTransitionsForEvent (ac_machine a) (tx_stateValue snap) ev = []"
  shows "executeTransitionOnSnapshot a run snap ev input md w =
    Some (Inl (InvalidTransitionError (md_id (ac_machine a)) ev (tx_stateValue snap)
      (getAvailableEvents (ac_machine a) (tx_stateValue snap))), w)"
  using assms by (simp add: executeTransitionOnSnapshot_def Let_def throw_def)

lemma validate_pure: "\<exists>r. fold_each (\<lambda>(node, edge) acc.
         bind (find_binding a (sn_path node) (te_event edge)) (\<lambda>b.
         bind (result (pipeline_validateInput (bd_inputValidator b) input)) (\<lambda>v.
           ret (acc @ [((node, edge), v)])))) ms acc w = Some (r, w)"
proof (induction ms arbitrary: acc)
  case (Cons m ms)
  obtain node edge where m: "m = (node, edge)" by (cases m)
  let ?f = "map_of (ac_bindings a) (bindingKey (sn_path node) (te_event edge))"
  show ?case
  proof (cases ?f)
    case (Some b)
    then show ?thesis
      using Cons [of "acc @ [((node, edge), v)]" for v]
      by (cases "pipeline_validateInput (bd_inputValidator b) input")
        (auto simp: m eff_defs find_binding_def split: option.splits sum.splits prod.splits)
  qed (simp add: m eff_defs find_binding_def)
qed (simp add: ret_def)

lemma validate_inputs_pure: "\<exists>r. validate_inputs a input ms w = Some (r, w)"
  unfolding validate_inputs_def by (rule validate_pure)

lemma validate_rejects:
  assumes "(node, edge) \<in> set ms"
    and "map_of (ac_bindings a) (bindingKey (sn_path node) (te_event edge)) = Some b"
    and "pipeline_validateInput (bd_inputValidator b) input = Inl e"
  shows "\<exists>e'. fold_each (\<lambda>(node, edge) acc.
         bind (find_binding a (sn_path node) (te_event edge)) (\<lambda>b.
         bind (result (pipeline_validateInput (bd_inputValidator b) input)) (\<lambda>v.
           ret (acc @ [((node, edge), v)])))) ms acc w = Some (Inl e', w)"
  using assms(1)
proof (induction ms arbitrary: acc)
  case (Cons m ms)
  obtain n' e' where m: "m = (n', e')" by (cases m)
  show ?case
  proof (cases "m = (node, edge)")
    case True
    then show ?thesis using assms(2,3) by (simp add: eff_defs find_binding_def)
  next
    case False
    then have "(node, edge) \<in> set ms" using Cons.prems by auto
    from Cons.IH [OF this] show ?thesis
      by (cases "map_of (ac_bindings a) (bindingKey (sn_path n') (te_event e'))")
        (auto simp: m eff_defs find_binding_def split: option.splits sum.splits prod.splits)
  qed
qed simp

lemma invalid_input:
  assumes "(node, edge) \<in> set (resolveTransitionsForEvent (ac_machine a) (tx_stateValue snap) ev)"
    and "map_of (ac_bindings a) (bindingKey (sn_path node) (te_event edge)) = Some b"
    and "pipeline_validateInput (bd_inputValidator b) input = Inl e"
  shows "\<exists>e'. executeTransitionOnSnapshot a run snap ev input md w = Some (Inl e', w)"
proof -
  obtain e' where "validate_inputs a input
      (resolveTransitionsForEvent (ac_machine a) (tx_stateValue snap) ev) w = Some (Inl e', w)"
    using validate_rejects [OF assms] unfolding validate_inputs_def by blast
  then show ?thesis using assms(1) by (auto simp: executeTransitionOnSnapshot_def Let_def bind_def)
qed

text \<open>Getting a call as far as the transition.\<close>

lemma ready_noop: "w_initialized w \<Longrightarrow> \<not> w_stoppedByRecovery w \<Longrightarrow> ensureReady a run w = Some (Inr (), w)"
  by (simp add: ensureReady_def eff_defs)

lemma stopped_refuses:
  "w_initialized w \<Longrightarrow> w_stoppedByRecovery w \<Longrightarrow>
     transition a run i ev input md w = Some (Inl (ActorStoppedByRecoveryError (ac_actorId a) []), w) \<and>
     startTransaction a run ctx j w = Some (Inl (ActorStoppedByRecoveryError (ac_actorId a) []), w)"
  by (simp add: transition_def startTransaction_def ensureReady_def eff_defs)

context actor_store
begin

lemma transition_unknown:
  assumes "w_initialized w" "\<not> w_stoppedByRecovery w" "ok (w_store w)"
    and "\<And>r. txs (w_store w) i = Some r \<Longrightarrow> tx_machineId r \<noteq> md_id (ac_machine a)"
  shows "\<exists>s'. transition a run i ev input md w =
      Some (Inl (TransactionNotFoundError i), w\<lparr>w_store := s'\<rparr>) \<and> txs s' = txs (w_store w)"
proof -
  from get [OF assms(3), of i] obtain s' where s: "so_getTransaction ops i (w_store w) =
      (Inr (map_option (\<lambda>r. snapshot_of r (rev (comps (w_store w) i))) (txs (w_store w) i)), s')"
      "txs s' = txs (w_store w)" by blast
  then show ?thesis
    using assms(4) ready_noop [OF assms(1,2), of a run]
    by (cases "txs (w_store w) i") (auto simp: transition_def seq_def bind_def store_get_def stored
        store_call_def throw_def snapshot_of_def tx_record.extend_def)
qed

lemma transition_known:
  assumes "w_initialized w" "\<not> w_stoppedByRecovery w" "ok (w_store w)"
    and "txs (w_store w) i = Some r" "tx_machineId r = md_id (ac_machine a)"
  shows "\<exists>s'. transition a run i ev input md w =
      executeTransitionOnSnapshot a run (snapshot_of r (rev (comps (w_store w) i))) ev input md
        (w\<lparr>w_store := s'\<rparr>) \<and> ok s' \<and> txs s' = txs (w_store w) \<and> comps s' = comps (w_store w)"
proof -
  from get [OF assms(3), of i] assms(4) obtain s' where s: "so_getTransaction ops i (w_store w) =
      (Inr (Some (snapshot_of r (rev (comps (w_store w) i)))), s')" "ok s'"
      "txs s' = txs (w_store w)" "comps s' = comps (w_store w)" by auto
  then show ?thesis
    using assms(5) ready_noop [OF assms(1,2), of a run]
    by (auto simp: transition_def seq_def bind_def store_get_def stored
        store_call_def throw_def snapshot_of_def tx_record.extend_def)
qed

text \<open>
  A stale snapshot is refused before any handler runs: what \<open>onBeforeTransition\<close> hooks did stays, and
  if one of them throws, the transition ends with that error.
\<close>

lemma stale_snapshot:
  assumes "ok (w_store w1)" "tx_status snap \<noteq> IN_FLIGHT"
    and "\<And>r. txs (w_store w1) (tx_transactionId snap) = Some r \<Longrightarrow> tx_version r \<noteq> tx_version snap"
    and "resolveTransitionsForEvent (ac_machine a) (tx_stateValue snap) ev \<noteq> []"
    and "validate_inputs a input (resolveTransitionsForEvent (ac_machine a) (tx_stateValue snap) ev) w =
      Some (Inr vs, w)"
    and "emit a run BeforeTransition (HookBefore \<lparr>hb_transactionId = tx_transactionId snap,
        hb_machineId = md_id (ac_machine a), hb_actorId = ac_actorId a, hb_event = ev,
        hb_input = nullish_or (snd (hd vs)) input, hb_currentState = tx_stateValue snap,
        hb_context = tx_context snap\<rparr>) w = Some (x, w1)"
  shows "\<exists>s'. executeTransitionOnSnapshot a run snap ev input md w =
      Some (case x of
          Inl e \<Rightarrow> (Inl e, w1)
        | Inr _ \<Rightarrow> (Inl (StaleTransactionVersionError (tx_transactionId snap) (tx_version snap)),
            w1\<lparr>w_store := s'\<rparr>)) \<and>
    txs s' = txs (w_store w1)"
proof -
  let ?p = "in_flight_patch a ev input (wo_now (ac_world a) (w_user w1))"
  from update_stale [OF assms(1), of "tx_transactionId snap" "tx_version snap" ?p "[]"] assms(3)
  obtain s' where s: "so_updateTransaction ops (tx_transactionId snap) (tx_version snap) ?p [] (w_store w1) =
      (Inl (StaleTransactionVersionError (tx_transactionId snap) (tx_version snap)), s')"
      "txs s' = txs (w_store w1)" by blast
  show ?thesis
    using assms(2,4,5,6) s
    by (intro exI [of _ s'] conjI; cases x)
      (simp_all add: executeTransitionOnSnapshot_def Let_def bind_def [of "validate_inputs _ _ _"]
        seq_def bind_def ret_def now_def reads_def store_update_def store_call_def stored)
qed

end

section \<open>Compensation\<close>

text \<open>
  To see which compensation handlers ran, the outside world keeps a log to which every handler that
  is registered appends its step. A step whose handler does not resolve is skipped and marked all
  the same; \<open>has_compensator\<close> tells them apart.
\<close>

definition has_compensator :: "('s, 'u) actor \<Rightarrow> comp_entry \<Rightarrow> bool" where
  "has_compensator a e \<longleftrightarrow>
     hp_resolveCompensate (ac_handlers a) (ce_compensateKey e) (rb_namespace (md_registry (ac_machine a))) \<noteq> None"

definition compensators_log :: "('s, 'u) actor \<Rightarrow> ('u \<Rightarrow> int list) \<Rightarrow> bool" where
  "compensators_log a lg \<longleftrightarrow>
     (\<forall>key name fn. hp_resolveCompensate (ac_handlers a) key (rb_namespace (md_registry (ac_machine a))) =
        Some (name, fn) \<longrightarrow> (\<forall>req u. lg (snd (fn req u)) = lg u @ [cr_stepSeq req]))"

text \<open>The \<open>onCompensate\<close> hooks may do and throw what they like outside the store and the log.\<close>

definition hooks_apart :: "('s, 'u) actor \<Rightarrow> ('s, 'u) runner \<Rightarrow> ('u \<Rightarrow> int list) \<Rightarrow> bool" where
  "hooks_apart a run lg \<longleftrightarrow>
     (\<forall>sub \<in> set (ac_hooks a). \<forall>fn \<in> set (sub OnCompensate). \<forall>ev w r w'.
        run None (fn ev) w = Some (r, w') \<longrightarrow> w_store w' = w_store w \<and> lg (w_user w') = lg (w_user w))"

lemma emit_apart:
  "hooks_apart a run lg \<Longrightarrow> keeps (\<lambda>v. w_store v = s \<and> lg (w_user v) = l) (emit a run OnCompensate ev)"
  unfolding emit_def by (intro keeps_for_each) (auto simp: hoare_def hooks_apart_def)

text \<open>The steps of a list of entries whose handlers are run.\<close>

definition compensated_steps :: "('s, 'u) actor \<Rightarrow> comp_entry list \<Rightarrow> int list" where
  "compensated_steps a es = map ce_stepSeq (filter (has_compensator a) es)"

lemma compensated_steps_simps [simp]:
  "compensated_steps a [] = []"
  "compensated_steps a (e # es) =
     (if has_compensator a e then [ce_stepSeq e] else []) @ compensated_steps a es"
  by (simp_all add: compensated_steps_def)

lemma uncompensated_mark:
  "uncompensated (map (mark_entry q t) es) = filter (\<lambda>e. ce_stepSeq e \<noteq> q) (uncompensated es)"
  by (induction es) (auto simp: uncompensated_def mark_entry_def)

lemma distinct_filter_hd:
  "distinct (map f (x # xs)) \<Longrightarrow> filter (\<lambda>e. f e \<noteq> f x) (x # xs) = xs"
  by (auto simp: filter_id_conv image_iff)

context actor_store
begin

lemma bind_value: "m w = Some (Inr x, v) \<Longrightarrow> bind m f w = f x v"
  by (simp add: bind_def)

lemma mark_and_emit:
  assumes "ok (w_store w)" "hooks_apart a run lg"
    and "bind (now a) (\<lambda>t. seq (store_call (so_markCompensationExecuted (ac_store a) i q t))
      (seq (emit a run OnCompensate ev) (ret x))) w = Some (r, w')"
  shows "ok (w_store w') \<and> txs (w_store w') = txs (w_store w) \<and> lg (w_user w') = lg (w_user w) \<and>
    (\<exists>t. comps (w_store w') = (comps (w_store w))(i := map (mark_entry q t) (comps (w_store w) i))) \<and>
    (case r of Inl _ \<Rightarrow> ac_hooks a \<noteq> [] | Inr y \<Rightarrow> y = x)"
proof -
  let ?t = "wo_now (ac_world a) (w_user w)"
  obtain s' where s': "so_markCompensationExecuted ops i q ?t (w_store w) = (Inr (), s')" "ok s'"
      "txs s' = txs (w_store w)"
      "comps s' = (comps (w_store w))(i := map (mark_entry q ?t) (comps (w_store w) i))"
    using mark [OF assms(1)] by blast
  have e: "seq (emit a run OnCompensate ev) (ret x) (w\<lparr>w_store := s'\<rparr>) = Some (r, w')"
    using assms(3) s'(1) by (simp add: eff_defs now_def store_call_def stored)
  then obtain z where z: "emit a run OnCompensate ev (w\<lparr>w_store := s'\<rparr>) = Some (z, w')"
    "case z of Inl y \<Rightarrow> r = Inl y | Inr _ \<Rightarrow> r = Inr x"
    by (auto simp: eff_defs split: option.splits sum.splits)
  have k: "w_store w' = s' \<and> lg (w_user w') = lg (w_user w)"
    using hoareD [OF emit_apart [OF assms(2), of s' "lg (w_user w)"] _ z(1)] by simp
  have "ac_hooks a \<noteq> []" if "z = Inl y" for y
    using z(1) that by (auto simp: emit_def ret_def)
  then show ?thesis using k s' z(2) by (auto split: sum.splits)
qed

lemma unwind_entry_apart:
  assumes "ok (w_store w)" "hooks_apart a run lg" "compensators_log a lg"
    and "unwind_entry a run i err e (ctx, n) w = Some (r, w')"
  shows "ok (w_store w') \<and> txs (w_store w') = txs (w_store w) \<and>
    lg (w_user w') = lg (w_user w) @ compensated_steps a [e] \<and>
    ((\<exists>x. r = Inl x) \<and> has_compensator a e \<and> comps (w_store w') = comps (w_store w) \<or>
     (\<exists>t. comps (w_store w') =
         (comps (w_store w))(i := map (mark_entry (ce_stepSeq e) t) (comps (w_store w) i))) \<and>
       (case r of Inl _ \<Rightarrow> ac_hooks a \<noteq> [] | Inr (c, n') \<Rightarrow> n' = n + 1))"
proof (cases "hp_resolveCompensate (ac_handlers a) (ce_compensateKey e)
    (rb_namespace (md_registry (ac_machine a)))")
  case None
  then have "compensated_steps a [e] = []" by (simp add: compensated_steps_def has_compensator_def)
  moreover from assms(4) None have "bind (now a) (\<lambda>t. seq (store_call (so_markCompensationExecuted (ac_store a) i
      (ce_stepSeq e) t)) (seq (emit a run OnCompensate (HookCompensate \<lparr>hc_transactionId = i,
      hc_machineId = md_id (ac_machine a), hc_actorId = ac_actorId a, hc_stepSeq = ce_stepSeq e,
      hc_compensateHandler = ce_compensateKey e, hc_fromState = ce_fromState e,
      hc_inputSnapshot = ce_inputSnapshot e, hc_updatedContext = ctx, hc_reason = err\<rparr>))
      (ret (ctx, n + 1)))) w = Some (r, w')"
    by (simp add: unwind_entry_def Let_def bind_def [of "ret _"] ret_def [of ctx])
  note mark_and_emit [OF assms(1,2) this]
  ultimately show ?thesis by (cases r) simp_all
next
  case (Some nf)
  obtain name fn where nf: "nf = (name, fn)" by (cases nf)
  let ?req = "\<lparr>cr_transactionId = i, cr_machineId = md_id (ac_machine a),
     cr_actorId = ac_actorId a, cr_stepSeq = ce_stepSeq e, cr_fromState = ce_fromState e,
     cr_inputSnapshot = Some (ce_inputSnapshot e), cr_contextBefore = ce_contextBefore e,
     cr_currentContext = ctx, cr_failureError = err\<rparr>"
  obtain x u where x: "fn ?req (w_user w) = (x, u)" by (cases "fn ?req (w_user w)")
  have c: "compensated_steps a [e] = [ce_stepSeq e]" "has_compensator a e"
    using Some by (simp_all add: compensated_steps_def has_compensator_def)
  have l: "lg u = lg (w_user w) @ [ce_stepSeq e]"
  proof -
    have "lg (snd (fn ?req (w_user w))) = lg (w_user w) @ [cr_stepSeq ?req]"
      using assms(3) Some unfolding compensators_log_def nf by blast
    then show ?thesis by (simp add: x)
  qed
  show ?thesis
  proof (cases x)
    case (Inl e')
    then show ?thesis using assms(1,4) Some x l c
      by (auto simp: unwind_entry_def Let_def eff_defs user_call_def nf)
  next
    case (Inr y)
    let ?w = "w\<lparr>w_user := u\<rparr>"
    have called: "bind (user_call (fn ?req)) (\<lambda>updated. ret (or_else updated ctx)) w = Some (Inr (or_else y ctx), ?w)"
      by (simp add: eff_defs user_call_def x Inr)
    from assms(4) Some have "bind (now a) (\<lambda>t. seq (store_call (so_markCompensationExecuted (ac_store a) i
        (ce_stepSeq e) t)) (seq (emit a run OnCompensate (HookCompensate \<lparr>hc_transactionId = i,
        hc_machineId = md_id (ac_machine a), hc_actorId = ac_actorId a, hc_stepSeq = ce_stepSeq e,
        hc_compensateHandler = name, hc_fromState = ce_fromState e, hc_inputSnapshot = ce_inputSnapshot e,
        hc_updatedContext = or_else y ctx, hc_reason = err\<rparr>)) (ret (or_else y ctx, n + 1)))) ?w = Some (r, w')"
      by (simp add: unwind_entry_def Let_def nf
          bind_value [where m = "bind (user_call (fn ?req)) (\<lambda>updated. ret (or_else updated ctx))", OF called])
    from mark_and_emit [OF _ assms(2) this] assms(1) l c show ?thesis by (cases r) simp_all
  qed
qed

text \<open>
  The stack is unwound from the last step down; each handler runs once; a handler that throws stops
  the unwinding and leaves its own entry and the earlier ones to be unwound, a hook that throws only
  the earlier ones.
\<close>

lemma unwind_stack:
  assumes "hooks_apart a run lg" "compensators_log a lg"
    and "fold_each (unwind_entry a run i err) es acc w = Some (r, w')"
    and "ok (w_store w)" "rev (uncompensated (comps (w_store w) i)) = es"
  shows "\<exists>k \<le> length es. rev (uncompensated (comps (w_store w') i)) = drop k es \<and>
    txs (w_store w') = txs (w_store w) \<and>
    (case r of
       Inr (c, n) \<Rightarrow> k = length es \<and> n = snd acc + k \<and> lg (w_user w') = lg (w_user w) @ compensated_steps a es
     | Inl _ \<Rightarrow>
         k < length es \<and> has_compensator a (es ! k) \<and>
           lg (w_user w') = lg (w_user w) @ compensated_steps a (take (k + 1) es) \<or>
         0 < k \<and> ac_hooks a \<noteq> [] \<and> lg (w_user w') = lg (w_user w) @ compensated_steps a (take k es))"
  using assms(3-)
proof (induction es arbitrary: acc w)
  case Nil
  then show ?case by (cases acc) (auto simp: ret_def)
next
  case (Cons e es)
  obtain ctx n where acc: "acc = (ctx, n)" by (cases acc)
  obtain r1 w1 where e1: "unwind_entry a run i err e (ctx, n) w = Some (r1, w1)"
    using Cons.prems(1) by (auto simp: acc bind_def split: option.splits)
  note q = unwind_entry_apart [OF Cons.prems(2) assms(1,2) e1]
  have "distinct (map ce_stepSeq (e # es))"
  proof -
    have "distinct (map ce_stepSeq (uncompensated (comps (w_store w) i)))"
      unfolding uncompensated_def
      by (rule distinct_map_filter) (rule stack_ok_distinct [OF stacks [OF Cons.prems(2)]])
    then show ?thesis unfolding Cons.prems(3) [symmetric] by (simp add: rev_map [symmetric])
  qed
  then have tl: "filter (\<lambda>x. ce_stepSeq x \<noteq> ce_stepSeq e) (e # es) = es" by (rule distinct_filter_hd)
  have marked: "rev (uncompensated (comps (w_store w1) i)) = es"
    if "comps (w_store w1) = (comps (w_store w))(i := map (mark_entry (ce_stepSeq e) t) (comps (w_store w) i))" for t
  proof -
    have "rev (uncompensated (comps (w_store w1) i)) =
        filter (\<lambda>x. ce_stepSeq x \<noteq> ce_stepSeq e) (rev (uncompensated (comps (w_store w) i)))"
      by (simp add: that uncompensated_mark rev_filter)
    then show ?thesis using tl Cons.prems(3) by simp
  qed
  show ?case
  proof (cases r1)
    case (Inl x)
    then have r: "r = Inl x" "w' = w1" using Cons.prems(1) e1 by (auto simp: acc bind_def)
    let ?marked = "\<lambda>t. comps (w_store w1) =
        (comps (w_store w))(i := map (mark_entry (ce_stepSeq e) t) (comps (w_store w) i))"
    from q [THEN conjunct2, THEN conjunct2, THEN conjunct2] Inl
    have "has_compensator a e \<and> comps (w_store w1) = comps (w_store w) \<or> (\<exists>t. ?marked t) \<and> ac_hooks a \<noteq> []"
      by simp
    then consider "has_compensator a e" "comps (w_store w1) = comps (w_store w)" | t where "?marked t" "ac_hooks a \<noteq> []"
      by blast
    then show ?thesis
    proof cases
      case 1
      then show ?thesis using q r Cons.prems(3) by (intro exI [of _ 0]) auto
    next
      case 2
      then show ?thesis using q r marked by (intro exI [of _ 1]) auto
    qed
  next
    case (Inr y)
    obtain c n' where y: "y = (c, n')" by (cases y)
    obtain t where t: "comps (w_store w1) =
        (comps (w_store w))(i := map (mark_entry (ce_stepSeq e) t) (comps (w_store w) i))" "n' = n + 1"
      using q Inr y by auto
    have rest: "fold_each (unwind_entry a run i err) es (c, n') w1 = Some (r, w')"
      using Cons.prems(1) e1 Inr y by (simp add: acc bind_def)
    from Cons.IH [OF rest _ marked [OF t(1)]] q obtain k where k: "k \<le> length es"
      "rev (uncompensated (comps (w_store w') i)) = drop k es" "txs (w_store w') = txs (w_store w)"
      "case r of
         Inr (c, m) \<Rightarrow> k = length es \<and> m = n' + k \<and> lg (w_user w') = lg (w_user w1) @ compensated_steps a es
       | Inl _ \<Rightarrow>
           k < length es \<and> has_compensator a (es ! k) \<and>
             lg (w_user w') = lg (w_user w1) @ compensated_steps a (take (k + 1) es) \<or>
           0 < k \<and> ac_hooks a \<noteq> [] \<and> lg (w_user w') = lg (w_user w1) @ compensated_steps a (take k es)"
      by (cases r) (auto simp: case_prod_beta)
    then show ?thesis using q t by (intro exI [of _ "Suc k"]) (auto simp: acc split: sum.splits)
  qed
qed

lemma unwind_all:
  assumes "hooks_apart a run lg" "compensators_log a lg" "ok (w_store w)"
    and "unwindCompensationStack a run i ctx err w = Some (r, w')"
  defines "es \<equiv> rev (uncompensated (comps (w_store w) i))"
  shows "\<exists>k \<le> length es. rev (uncompensated (comps (w_store w') i)) = drop k es \<and>
    txs (w_store w') = txs (w_store w) \<and>
    (case r of
       Inr (c, n) \<Rightarrow> k = length es \<and> n = k \<and> lg (w_user w') = lg (w_user w) @ compensated_steps a es
     | Inl _ \<Rightarrow>
         k < length es \<and> has_compensator a (es ! k) \<and>
           lg (w_user w') = lg (w_user w) @ compensated_steps a (take (k + 1) es) \<or>
         0 < k \<and> ac_hooks a \<noteq> [] \<and> lg (w_user w') = lg (w_user w) @ compensated_steps a (take k es))"
proof -
  from stack [OF assms(3), of i] obtain s where s: "so_getUncompensatedStack ops i (w_store w) = (Inr es, s)"
    "ok s" "txs s = txs (w_store w)" "comps s = comps (w_store w)" by (auto simp: es_def)
  have "fold_each (unwind_entry a run i err) es (ctx, 0) (w\<lparr>w_store := s\<rparr>) = Some (r, w')"
    using assms(4) s by (simp add: unwindCompensationStack_def bind_def store_call_def stored)
  from unwind_stack [OF assms(1,2) this] s show ?thesis
    by (cases r) (simp_all add: es_def [symmetric] case_prod_beta)
qed

end

section \<open>What a transition reports\<close>

lemma hoare_bind_keeps:
  "keeps P m \<Longrightarrow> (\<And>x. hoare P (f x) Q) \<Longrightarrow> (\<And>e w. P w \<Longrightarrow> Q (Inl e) w) \<Longrightarrow> hoare P (bind m f) Q"
  by (rule hoare_bind)

lemma hoare_seq_keeps:
  "keeps P m \<Longrightarrow> hoare P n Q \<Longrightarrow> (\<And>e w. P w \<Longrightarrow> Q (Inl e) w) \<Longrightarrow> hoare P (seq m n) Q"
  unfolding seq_def by (rule hoare_bind)

lemma hoare_throw: "(\<And>w. P w \<Longrightarrow> Q (Inl e) w) \<Longrightarrow> hoare P (throw e) Q"
  by (simp add: hoare_def throw_def)

lemma hoare_ret: "(\<And>w. P w \<Longrightarrow> Q (Inr x) w) \<Longrightarrow> hoare P (ret x) Q"
  by (simp add: hoare_def ret_def)

lemma truthy_idem [simp]: "truthy (truthy x) = truthy x"
  by (auto simp: truthy_def split: option.splits list.splits)

context actor_store
begin

text \<open>A runner of programs that leave the stored transactions alone.\<close>

definition frozen :: "(string \<Rightarrow> tx_record option) \<Rightarrow> ('s, 'u) world \<Rightarrow> bool" where
  "frozen T w \<longleftrightarrow> ok (w_store w) \<and> txs (w_store w) = T"

definition reports :: "string \<Rightarrow> execution_result \<Rightarrow> ('s, 'u) world \<Rightarrow> bool" where
  "reports i res w \<longleftrightarrow> (\<exists>r. txs (w_store w) i = Some r \<and> tx_stateValue r = xr_currentState res \<and>
     tx_status r = xr_status res \<and> tx_context r = xr_context res \<and>
     truthy (tx_lastError r) = truthy (xr_error res) \<and> tx_activeStep r = None \<and>
     tx_leaseOwner r = None \<and> tx_leaseExpiresAt r = None)"

lemma frozen_get:
  "hoare (frozen T) (store_get a i) (\<lambda>x w. frozen T w \<and> (\<forall>snap. x = Inr (Some snap) \<longrightarrow>
     (\<exists>r. T i = Some r \<and> tx_stateValue snap = tx_stateValue r \<and> tx_status snap = tx_status r \<and>
        tx_context snap = tx_context r \<and> tx_lastError snap = tx_lastError r)))"
  unfolding hoare_def store_get_def stored
proof (intro allI impI)
  fix w x w' assume P: "frozen T w" and e: "store_call (so_getTransaction ops i) w = Some (x, w')"
  then have ok: "ok (w_store w)" by (simp add: frozen_def)
  from get [OF ok, of i] e P show "frozen T w' \<and> (\<forall>snap. x = Inr (Some snap) \<longrightarrow>
     (\<exists>r. T i = Some r \<and> tx_stateValue snap = tx_stateValue r \<and> tx_status snap = tx_status r \<and>
        tx_context snap = tx_context r \<and> tx_lastError snap = tx_lastError r))"
    by (auto simp: store_call_def frozen_def snapshot_of_def tx_record.extend_def split: prod.splits)
qed

definition quiet_runner :: "('s, 'u) runner \<Rightarrow> bool" where
  "quiet_runner run \<longleftrightarrow> (\<forall>u env p. keeps (all_settled u) (run env p)) \<and>
     (\<forall>T env p. plain p \<longrightarrow> keeps (frozen T) (run env p))"

lemma frozen_runs:
  assumes pl: "plain_actor a" and run: "quiet_runner run"
  shows "keeps (frozen T) (emit a run slot ev)"
    and "keeps (frozen T) (emitSettledTerminalHooks a run t st s c e)"
    and "keeps (frozen T) (invokeEffects a run t st c es)"
proof -
  have r: "keeps (frozen T) (run env p)" if "plain p" for env p
    using run that by (simp add: quiet_runner_def)
  have eff: "keeps (frozen T) (invokeSingleEffect a run t st c n pl b)" for t st c n pl b
    using pl by (intro effect_frame [OF _ hoare_post [OF frozen_get]] r)
      (auto simp: frozen_def plain_actor_def)
  show e: "keeps (frozen T) (emit a run slot ev)" for slot ev
    unfolding emit_def using pl by (intro keeps_for_each r) (auto simp: plain_actor_def)
  show "keeps (frozen T) (emitSettledTerminalHooks a run t st s c e)"
    unfolding emitSettledTerminalHooks_def by (intro keeps_if keeps_ret keeps_seq e)
  show "keeps (frozen T) (invokeEffects a run t st c es)"
    unfolding invokeEffects_def case_prod_beta by (intro keeps_bind keeps_reads keeps_for_each eff)
qed

lemma program_quiet: "quiet_runner (run_prog n a)"
proof -
  have "keeps (frozen T) (run_prog n a env p)" if "plain p" for T env p
    using that
  proof (induction n arbitrary: env p)
    case (Suc n)
    from Suc.prems show ?case
    proof cases
      case (3 f)
      have "keeps (frozen T) (bind (user_call (\<lambda>u. case f u of (p', u') \<Rightarrow> (Inr p', u'))) (run_prog n a env))"
      proof (rule hoare_bind [where R = "\<lambda>r w. frozen T w \<and> (\<forall>p. r = Inr p \<longrightarrow> plain p)"])
        show "hoare (frozen T) (user_call (\<lambda>u. case f u of (p', u') \<Rightarrow> (Inr p', u')))
            (\<lambda>r w. frozen T w \<and> (\<forall>p. r = Inr p \<longrightarrow> plain p))"
          using 3 by (auto simp: hoare_def user_call_def frozen_def split: prod.splits) (metis fst_conv)
        show "hoare (\<lambda>w. frozen T w \<and> (\<forall>q. Inr p = Inr q \<longrightarrow> plain q)) (run_prog n a env p) (\<lambda>_. frozen T)" for p
          using Suc.IH [of p env] by (cases "plain p") (auto simp: hoare_def)
      qed simp
      then show ?thesis by (simp add: 3)
    qed (simp_all add: keeps_ret keeps_throw)
  qed (simp add: keeps_fuel)
  then show ?thesis using settled.keeps_program by (simp add: quiet_runner_def)
qed

lemma after_commit_reports:
  assumes run: "plain_actor a" "quiet_runner run"
    and r: "T i = Some r" "tx_stateValue r = ha_currentState ev" "tx_status r = ha_status ev"
      "tx_context r = ha_context ev" "tx_lastError r = ha_error ev" "tx_activeStep r = None"
      "tx_leaseOwner r = None" "tx_leaseExpiresAt r = None"
  shows "hoare (frozen T) (after_commit a run i ev es) (\<lambda>x w. \<forall>res. x = Inr res \<longrightarrow> reports i res w)"
proof -
  note k = frozen_runs [OF run]
  have m: "keeps (frozen T) (modify f)" if "\<And>w. w_store (f w) = w_store w" for f
    using that by (intro keeps_modify) (simp add: frozen_def)
  have get: "hoare (frozen T) (if b then store_get a i else ret None)
      (\<lambda>x w. frozen T w \<and> (\<forall>snap. x = Inr (Some snap) \<longrightarrow>
     (\<exists>r. T i = Some r \<and> tx_stateValue snap = tx_stateValue r \<and> tx_status snap = tx_status r \<and>
        tx_context snap = tx_context r \<and> tx_lastError snap = tx_lastError r)))" for b
    using frozen_get by (cases b) (simp_all add: hoare_def ret_def)
  show ?thesis
    unfolding after_commit_def
    by (rule hoare_seq_keeps hoare_bind_keeps [OF keeps_reads] k(1,2,3) m |
        (rule hoare_bind [OF get], rule hoare_ret) | simp)+
      (auto simp: frozen_def reports_def r split: option.splits)
qed


lemma settle_reports:
  assumes run: "plain_actor a" "quiet_runner run"
  shows "hoare (all_settled ())
    (seq (store_update a i v (settle_patch (ha_currentState ev) (ha_context ev) (ha_status ev) (ha_error ev) t) ns)
      (seq (bumpTransitionRevision i) (after_commit a run i ev es)))
    (\<lambda>x w. \<forall>res. x = Inr res \<longrightarrow> reports i res w)"
  unfolding hoare_def
proof (intro allI impI)
  let ?p = "settle_patch (ha_currentState ev) (ha_context ev) (ha_status ev) (ha_error ev) t"
  fix w x w' res
  assume P: "all_settled () w" and x: "x = Inr res"
    and e: "seq (store_update a i v ?p ns) (seq (bumpTransitionRevision i) (after_commit a run i ev es)) w =
      Some (x, w')"
  then have ok: "ok (w_store w)" by (simp add: all_settled_def)
  show "reports i res w'"
  proof (rule update_cases [OF ok, of i v ?p ns])
    fix r s'
    assume u: "so_updateTransaction ops i v ?p ns (w_store w) = (Inr (v + 1), s')" "ok s'"
      "txs s' = (txs (w_store w))(i \<mapsto> apply_patch ?p (v + 1) r)"
    let ?w = "w\<lparr>w_store := s', w_revision := AList.update i (getTransitionRevision i (w\<lparr>w_store := s'\<rparr>) + 1)
      (w_revision w)\<rparr>"
    have "after_commit a run i ev es ?w = Some (Inr res, w')"
      using e u(1) x by (simp add: seq_def bind_def store_update_def store_call_def stored
          bumpTransitionRevision_def modify_def)
    moreover have "frozen (txs s') ?w" using u(2) by (simp add: frozen_def)
    ultimately show ?thesis
      using hoareD [OF after_commit_reports [OF run, where r = "apply_patch ?p (v + 1) r" and T = "txs s'"]]
      by (simp add: u(3) apply_patch_def settle_patch_def)
  next
    fix s' assume "so_updateTransaction ops i v ?p ns (w_store w) = (Inl (StaleTransactionVersionError i v), s')"
    then show ?thesis using e x
      by (simp add: seq_def bind_def store_update_def store_call_def stored)
  qed
qed

lemma execute_reports:
  assumes run: "plain_actor a" "quiet_runner run"
  shows "hoare (all_settled ()) (executeTransitionOnSnapshot a run snap ev input md)
    (\<lambda>x w. \<forall>res. x = Inr res \<longrightarrow> reports (tx_transactionId snap) res w)"
proof -
  have r: "keeps (all_settled u) (run env p)" for u env p using run(2) by (simp add: quiet_runner_def)
  have settle: "hoare (all_settled ())
      (seq (store_update a (tx_transactionId snap) v (settle_patch st ctx status err t) ns)
        (seq (bumpTransitionRevision (tx_transactionId snap))
          (after_commit a run (tx_transactionId snap) ev' es)))
      (\<lambda>x w. \<forall>res. x = Inr res \<longrightarrow> reports (tx_transactionId snap) res w)"
    if "ha_currentState ev' = st" "ha_context ev' = ctx" "ha_status ev' = status" "ha_error ev' = err"
    for v st ctx status err t ns ev' es
    using that by (auto intro!: settle_reports run)
  have emit: "keeps (all_settled ()) (emit a run slot e)" for slot e by (rule settled.keeps_emit) (rule r)
  have matches: "keeps (all_settled ()) (run_matches a run i e s mt vs wk)" for i e s mt vs wk
    by (rule settled.keeps_matches) (simp_all add: r)
  have start: "keeps (all_settled ()) (if b then store_update a i v (in_flight_patch a e inp t) [] else ret n)"
    for b i v e inp t n
    by (cases b) (auto intro: settled.update keeps_ret)
  have step: "hoare (all_settled ()) (case x of StepFail wk n st msg \<Rightarrow> f wk n st msg | StepOk wk \<Rightarrow> g wk) Q"
    if "\<And>wk n st msg. hoare (all_settled ()) (f wk n st msg) Q" "\<And>wk. hoare (all_settled ()) (g wk) Q"
    for x and f :: "work \<Rightarrow> nat \<Rightarrow> tx_status \<Rightarrow> string \<Rightarrow> (execution_result, 's, 'u) act" and g Q
    using that by (cases x) auto
  show ?thesis
    unfolding executeTransitionOnSnapshot_def commit_step_def Let_def
    by (cases "resolveTransitionsForEvent (ac_machine a) (tx_stateValue snap) ev = []")
      (simp add: hoare_throw, simp only: if_False,
        (rule hoare_bind_keeps [OF settled.keeps_validate] hoare_seq_keeps [OF emit]
          hoare_bind_keeps [OF settled.keeps_now] hoare_bind_keeps [OF start]
          hoare_bind_keeps [OF matches] hoare_bind_keeps [OF settled.keeps_cascade] step settle | simp)+)
qed

end

section \<open>Recovery\<close>

definition failed_now :: "int \<Rightarrow> tx_record \<Rightarrow> tx_record" where
  "failed_now t r = apply_patch (mark_failed_patch recovery_failed_message t) (tx_version r + 1) r"

lemma failed_now_settled:
  "tx_status (failed_now t r) = FAILED \<and> tx_stateValue (failed_now t r) = SLeaf ''error'' \<and>
   tx_activeStep (failed_now t r) = None \<and> tx_leaseOwner (failed_now t r) = None \<and>
   tx_leaseExpiresAt (failed_now t r) = None \<and> tx_version (failed_now t r) = tx_version r + 1 \<and>
   tx_lastError (failed_now t r) = Some recovery_failed_message"
  by (simp add: failed_now_def apply_patch_def mark_failed_patch_def clear_patch_def touch_def)

lemma summary_version: "x = summary_of t th es r \<Longrightarrow> su_version x = tx_version r \<and> su_isStuck x = is_stuck t th r"
  by (simp add: summary_of_def)

context actor_store
begin

lemma mark_fail_item:
  assumes "ok (w_store w)" "su_isStuck x"
    and "resolveRecoveryModeForState (ac_recovery a) (su_stateValue x) = MARK_FAIL"
    and "txs (w_store w) (su_transactionId x) = Some r" "tx_version r = su_version x"
  shows "\<exists>s'. sweep_item a run x rep w = Some (Inr (add_action MARK_FAIL (su_transactionId x)
      (rep\<lparr>rr_stuckDetected := rr_stuckDetected rep + 1\<rparr>)), w\<lparr>w_store := s'\<rparr>) \<and> ok s' \<and>
    txs s' = (txs (w_store w))(su_transactionId x \<mapsto> failed_now (wo_now (ac_world a) (w_user w)) r)"
proof -
  let ?p = "mark_failed_patch recovery_failed_message (wo_now (ac_world a) (w_user w))"
  from update_current [OF assms(1,4,5), of ?p "[]"] obtain s' where
    "so_updateTransaction ops (su_transactionId x) (su_version x) ?p [] (w_store w) =
       (Inr (su_version x + 1), s')" "ok s'"
    "txs s' = (txs (w_store w))(su_transactionId x \<mapsto> apply_patch ?p (su_version x + 1) r)" by blast
  then show ?thesis using assms(2,3,5)
    by (intro exI [of _ s'] conjI)
      (simp_all add: sweep_item_def Let_def recover_item_def eff_defs now_def store_update_def store_call_def
        stored failed_now_def)
qed

definition marked :: "('s, 'u) world \<Rightarrow> tx_summary list \<Rightarrow> recovery_report \<Rightarrow> recovery_report \<Rightarrow> 's \<Rightarrow> bool" where
  "marked w xs rep rep' s' \<longleftrightarrow> ok s' \<and> rr_scannedInFlight rep' = rr_scannedInFlight rep \<and>
    rr_stuckDetected rep' = rr_stuckDetected rep + length (filter su_isStuck xs) \<and>
    rr_errors rep' = rr_errors rep \<and>
    (\<forall>m. rr_actionsTaken rep' m = (if m = MARK_FAIL
       then rr_actionsTaken rep m @ map su_transactionId (filter su_isStuck xs)
       else rr_actionsTaken rep m)) \<and>
    (\<forall>i. txs s' i = (if i \<in> su_transactionId ` {x \<in> set xs. su_isStuck x}
       then map_option (failed_now (wo_now (ac_world a) (w_user w))) (txs (w_store w) i)
       else txs (w_store w) i))"

lemma marked_skip: "\<not> su_isStuck x \<Longrightarrow> marked w (x # xs) rep = marked w xs rep"
proof -
  assume "\<not> su_isStuck x"
  then have "{y \<in> set (x # xs). su_isStuck y} = {y \<in> set xs. su_isStuck y}" by auto
  then show ?thesis using \<open>\<not> su_isStuck x\<close> by (simp add: marked_def fun_eq_iff)
qed

lemma mark_fail_items:
  assumes "\<And>st. resolveRecoveryModeForState (ac_recovery a) st = MARK_FAIL"
    and "ok (w_store w)" "distinct (map su_transactionId xs)"
    and "\<And>x. x \<in> set xs \<Longrightarrow>
      \<exists>r. txs (w_store w) (su_transactionId x) = Some r \<and> tx_version r = su_version x"
  shows "\<exists>rep' s'. fold_each (sweep_item a run) xs rep w = Some (Inr rep', w\<lparr>w_store := s'\<rparr>) \<and>
    marked w xs rep rep' s'"
  using assms(2-)
proof (induction xs arbitrary: rep w)
  case Nil
  then show ?case by (intro exI [of _ rep] exI [of _ "w_store w"]) (simp add: ret_def marked_def)
next
  case (Cons x xs)
  show ?case
  proof (cases "su_isStuck x")
    case False
    have "\<exists>rep' s'. fold_each (sweep_item a run) xs rep w = Some (Inr rep', w\<lparr>w_store := s'\<rparr>) \<and>
      marked w xs rep rep' s'"
      using Cons.prems by (intro Cons.IH) simp_all
    moreover have "sweep_item a run x rep w = Some (Inr rep, w)"
      using False by (simp add: sweep_item_def ret_def)
    ultimately show ?thesis using False by (simp add: bind_def marked_skip)
  next
    case True
    obtain r where r: "txs (w_store w) (su_transactionId x) = Some r" "tx_version r = su_version x"
      using Cons.prems(3) by auto
    let ?t = "wo_now (ac_world a) (w_user w)" and ?rep = "add_action MARK_FAIL (su_transactionId x)
      (rep\<lparr>rr_stuckDetected := rr_stuckDetected rep + 1\<rparr>)"
    from mark_fail_item [OF Cons.prems(1) True assms(1) r, of run rep] obtain s1 where
      s1: "sweep_item a run x rep w = Some (Inr ?rep, w\<lparr>w_store := s1\<rparr>)" "ok s1"
      "txs s1 = (txs (w_store w))(su_transactionId x \<mapsto> failed_now ?t r)" by blast
    have "\<exists>r. txs s1 (su_transactionId y) = Some r \<and> tx_version r = su_version y" if "y \<in> set xs" for y
      using that Cons.prems(2,3) s1(3) by (auto simp: rev_image_eqI)
    then have "\<exists>rep' s'. fold_each (sweep_item a run) xs ?rep (w\<lparr>w_store := s1\<rparr>) =
        Some (Inr rep', (w\<lparr>w_store := s1\<rparr>)\<lparr>w_store := s'\<rparr>) \<and> marked (w\<lparr>w_store := s1\<rparr>) xs ?rep rep' s'"
      using s1 Cons.prems(2) by (intro Cons.IH) simp_all
    then obtain rep' s' where rest: "fold_each (sweep_item a run) xs ?rep (w\<lparr>w_store := s1\<rparr>) =
        Some (Inr rep', w\<lparr>w_store := s'\<rparr>)" "marked (w\<lparr>w_store := s1\<rparr>) xs ?rep rep' s'" by auto
    have n: "su_transactionId x \<notin> su_transactionId ` {y \<in> set xs. su_isStuck y}"
      using Cons.prems(2) by auto
    have set: "su_transactionId ` {y \<in> set (x # xs). su_isStuck y} =
        insert (su_transactionId x) (su_transactionId ` {y \<in> set xs. su_isStuck y})" using True by auto
    have "marked w (x # xs) rep rep' s'"
      using rest(2) n r True unfolding marked_def set by (auto simp: s1(3) add_action_def)
    then show ?thesis using s1 rest(1) by (auto simp: bind_def)
  qed
qed


text \<open>
  A sweep that fails what is stuck, on a store read whole by one batch: afterwards no transaction of
  the machine is stuck, and nothing else has changed.
\<close>

lemma sweep_marks_stuck:
  assumes "\<And>st. resolveRecoveryModeForState (ac_recovery a) st = MARK_FAIL"
    and "sc_retentionMs (w_scheduler w) = None" "ok (w_store w)" "md_id (ac_machine a) \<noteq> []"
  defines "t \<equiv> wo_now (ac_world a) (w_user w)"
  shows "\<exists>rep w'. executeRecoverySweep a run th w = Some (Inr rep, w') \<and> ok (w_store w') \<and>
    rr_errors rep = [] \<and> length (rr_actionsTaken rep MARK_FAIL) = rr_stuckDetected rep \<and>
    (\<forall>i r. txs (w_store w) i = Some r \<longrightarrow>
       txs (w_store w') i = Some (if i \<in> set (rr_actionsTaken rep MARK_FAIL) then failed_now t r else r)) \<and>
    (\<forall>i r. txs (w_store w) i = Some r \<and> i \<in> set (rr_actionsTaken rep MARK_FAIL) \<longrightarrow>
       is_stuck t th r \<and> tx_machineId r = md_id (ac_machine a)) \<and>
    (int (rr_scannedInFlight rep) < sc_batchSize (w_scheduler w) \<longrightarrow>
      (\<forall>i r. txs (w_store w) i = Some r \<and> is_stuck t th r \<and> tx_machineId r = md_id (ac_machine a) \<longrightarrow>
         i \<in> set (rr_actionsTaken rep MARK_FAIL)))"
proof -
  let ?f = "(machine_filter a [IN_FLIGHT, COMPENSATING])\<lparr>qf_limit := Some (sc_batchSize (w_scheduler w))\<rparr>"
  have o: "qf_offset ?f = None" by (simp add: machine_filter_def no_filter_def)
  from query [OF assms(3) o, of t th] obtain xs s where q':
    "so_queryTransactions ops ?f t th (w_store w) = (Inr xs, s)" "ok s" "txs s = txs (w_store w)"
    "distinct (map su_transactionId xs)"
    "\<forall>x \<in> set xs. \<exists>r. txs (w_store w) (su_transactionId x) = Some r \<and> selects ?f r \<and>
       x = summary_of t th (comps (w_store w) (su_transactionId x)) r"
    "(\<forall>n. qf_limit ?f = Some n \<longrightarrow> int (length xs) < n) \<longrightarrow>
       (\<forall>i r. txs (w_store w) i = Some r \<and> selects ?f r \<longrightarrow> i \<in> su_transactionId ` set xs)"
    by blast
  have q6: "\<forall>i r. txs (w_store w) i = Some r \<and> selects ?f r \<longrightarrow> i \<in> su_transactionId ` set xs"
    if "int (length xs) < sc_batchSize (w_scheduler w)" using q'(6) that by simp
  have q5: "\<exists>r. txs (w_store w) (su_transactionId x) = Some r \<and> selects ?f r \<and>
       su_version x = tx_version r \<and> su_isStuck x = is_stuck t th r" if x: "x \<in> set xs" for x
  proof -
    from q'(5) x obtain r where r: "txs (w_store w) (su_transactionId x) = Some r" "selects ?f r"
      "x = summary_of t th (comps (w_store w) (su_transactionId x)) r" by blast
    with summary_version [OF r(3)] show ?thesis by blast
  qed
  note q = q'(1-4) q5 q6
  let ?w = "w\<lparr>w_store := s\<rparr>"
  have cur: "\<exists>r. txs (w_store ?w) (su_transactionId x) = Some r \<and> tx_version r = su_version x"
    if "x \<in> set xs" for x
    using q(5) [OF that] by (auto simp: q(3))
  from mark_fail_items [OF assms(1) _ q(4) cur, of run "(empty_report t)\<lparr>rr_scannedInFlight := length xs\<rparr>"] q(2)
  obtain rep s' where m: "fold_each (sweep_item a run) xs ((empty_report t)\<lparr>rr_scannedInFlight := length xs\<rparr>) ?w =
      Some (Inr rep, ?w\<lparr>w_store := s'\<rparr>)"
    "marked ?w xs ((empty_report t)\<lparr>rr_scannedInFlight := length xs\<rparr>) rep s'" by auto
  have sel: "selects ?f r \<longleftrightarrow> tx_machineId r = md_id (ac_machine a) \<and> tx_status r \<in> {IN_FLIGHT, COMPENSATING}"
    for r using assms(4) by (auto simp: selects_def machine_filter_def no_filter_def truthy_def)
  let ?ids = "su_transactionId ` {x \<in> set xs. su_isStuck x}"
  have ids: "set (rr_actionsTaken rep MARK_FAIL) = ?ids" "rr_actionsTaken rep STOP = []"
    "rr_errors rep = []" "rr_scannedInFlight rep = length xs" "ok s'"
    "length (rr_actionsTaken rep MARK_FAIL) = rr_stuckDetected rep"
    "\<And>i. txs s' i = (if i \<in> ?ids then map_option (failed_now t) (txs (w_store w) i) else txs (w_store w) i)"
    using m(2) by (auto simp: marked_def empty_report_def q(3) t_def)
  have stuck: "is_stuck t th r \<and> tx_machineId r = md_id (ac_machine a)"
    if "txs (w_store w) i = Some r" "i \<in> ?ids" for i r
    using that q(5) by (fastforce simp: sel)
  have all: "i \<in> ?ids" if "int (length xs) < sc_batchSize (w_scheduler w)" "txs (w_store w) i = Some r"
    "is_stuck t th r" "tx_machineId r = md_id (ac_machine a)" for i r
  proof -
    have "selects ?f r" using that(3,4) by (auto simp: sel is_stuck_def)
    with q(6) [OF that(1)] that(2) obtain x where x: "x \<in> set xs" "i = su_transactionId x" by auto
    with q(5) [OF x(1)] that(2,3) have "su_isStuck x" by auto
    with x show ?thesis by blast
  qed
  have "executeRecoverySweep a run th w = Some (Inr (rep\<lparr>rr_retentionDeleted := 0\<rparr>),
      w\<lparr>w_store := s', w_lastRunAt := Some t, w_totalSweeps := w_totalSweeps w + 1,
        w_totalRecovered := w_totalRecovered w + length (rr_actionsTaken rep DELETE) +
              length (rr_actionsTaken rep MARK_FAIL) + length (rr_actionsTaken rep COMPENSATE) +
              length (rr_actionsTaken rep CONTINUE),
        w_totalRetentionCleaned := w_totalRetentionCleaned w + 0,
        w_lastReport := Some (rep\<lparr>rr_retentionDeleted := 0\<rparr>)\<rparr>)"
    using q(1) m(1) assms(2) ids(2)
    by (simp add: executeRecoverySweep_def bind_def seq_def now_def reads_def ret_def modify_def Let_def
        store_query_def store_call_def stored retention_sweep_def t_def)
  then show ?thesis
    using ids stuck all by (intro exI conjI) (assumption | auto)+
qed

end

section \<open>Forced clean-up\<close>

context state_store
begin

text \<open>One transaction by its id: the query finds just it.\<close>

lemma query_one:
  assumes "ok s" "txs s i = Some r" "selects f r" "qf_transactionIds f = Some [i]" "qf_offset f = None"
    "qf_limit f = None"
  shows "\<exists>s'. so_queryTransactions ops f t th s = (Inr [summary_of t th (comps s i) r], s') \<and> ok s' \<and>
    txs s' = txs s \<and> comps s' = comps s"
proof -
  from query [OF assms(1,5), of t th] obtain xs s' where q:
    "so_queryTransactions ops f t th s = (Inr xs, s')" "ok s'" "txs s' = txs s" "comps s' = comps s"
    "distinct (map su_transactionId xs)"
    "\<forall>x \<in> set xs. \<exists>r. txs s (su_transactionId x) = Some r \<and> selects f r \<and>
       x = summary_of t th (comps s (su_transactionId x)) r"
    "(\<forall>n. qf_limit f = Some n \<longrightarrow> int (length xs) < n) \<longrightarrow>
       (\<forall>i r. txs s i = Some r \<and> selects f r \<longrightarrow> i \<in> su_transactionId ` set xs)" by blast
  have only: "x = summary_of t th (comps s i) r" if "x \<in> set xs" for x
  proof -
    from q(6) that obtain r' where r': "txs s (su_transactionId x) = Some r'" "selects f r'"
      "x = summary_of t th (comps s (su_transactionId x)) r'" by blast
    then have "su_transactionId x = i"
      using assms(4) ids [OF assms(1) r'(1)] by (simp add: selects_def)
    then show ?thesis using r' assms(2) by simp
  qed
  moreover have "i \<in> su_transactionId ` set xs" using q(7) assms(2,3,6) by simp
  ultimately have "set xs = {summary_of t th (comps s i) r}" by auto
  moreover have "distinct xs" using q(5) by (simp add: distinct_map)
  ultimately have "length xs = 1" "set xs = {summary_of t th (comps s i) r}"
    using distinct_card [of xs] by simp_all
  then have "xs = [summary_of t th (comps s i) r]" by (cases xs) auto
  then show ?thesis using q by blast
qed

end

context actor_store
begin

lemma dry_run_changes_nothing:
  assumes "ok (w_store w)" "co_dryRun opts = Some True"
  shows "\<exists>r s'. forceCleanUp a run opts w = Some (r, w\<lparr>w_store := s'\<rparr>) \<and>
    txs s' = txs (w_store w) \<and> comps s' = comps (w_store w)"
proof -
  let ?t = "wo_now (ac_world a) (w_user w)" and ?s = "so_initialize ops (w_store w)"
  let ?th = "or_else (co_stuckThresholdMs opts) (rc_stuckThresholdMs (ac_recovery a))"
  from initialize [OF assms(1)] have i: "ok ?s" "txs ?s = txs (w_store w)" "comps ?s = comps (w_store w)"
    by auto
  from query_any [OF i(1), of "cleanup_filter a opts ?t ?th" ?t ?th] obtain r s' where
    "so_queryTransactions ops (cleanup_filter a opts ?t ?th) ?t ?th ?s = (r, s')"
    "txs s' = txs ?s" "comps s' = comps ?s" by blast
  then show ?thesis using assms(2) i
    by (cases r) (auto intro!: exI [of _ s'] simp: forceCleanUp_def Let_def seq_def bind_def store_call_def now_def
        reads_def store_query_def stored ret_def)
qed

lemma force_unlock:
  assumes "ok (w_store w)" "txs (w_store w) i = Some r" "tx_machineId r = md_id (ac_machine a)"
  defines "t \<equiv> wo_now (ac_world a) (w_user w)"
  shows "\<exists>rep s'. forceCleanUpTransaction a run i (Some CForceUnlock) w = Some (Inr rep, w\<lparr>w_store := s'\<rparr>) \<and>
    cl_unlocked rep = [i] \<and> cl_errors rep = [] \<and>
    txs s' = (txs (w_store w))(i \<mapsto> apply_patch (unlock_patch t) (tx_version r + 1) r)"
proof -
  let ?s = "so_initialize ops (w_store w)" and ?th = "rc_stuckThresholdMs (ac_recovery a)"
  let ?o = "\<lparr>co_machineId = None, co_actorId = None, co_transactionIds = Some [i],
       co_statuses = None, co_includeInFlight = Some True, co_stuckOnly = None,
       co_stuckThresholdMs = None, co_olderThanMs = None, co_action = Some CForceUnlock, co_dryRun = None\<rparr>"
  let ?f = "cleanup_filter a ?o t ?th"
  from initialize [OF assms(1)] have n: "ok ?s" "txs ?s = txs (w_store w)" "comps ?s = comps (w_store w)"
    by auto
  have "tx_transactionId r = i" by (rule ids [OF assms(1,2)])
  moreover have "tx_status r \<in> {IDLE, IN_FLIGHT, COMPENSATING, COMPLETED, FAILED, COMPENSATED}"
    by (cases "tx_status r") simp_all
  ultimately have sel: "selects ?f r"
    using assms(3) by (simp add: selects_def cleanup_filter_def truthy_def split: option.splits list.splits)
  from query_one [OF n(1) _ sel, of i t ?th] assms(2) n(2) obtain s1 where q:
    "so_queryTransactions ops ?f t ?th ?s = (Inr [summary_of t ?th (comps ?s i) r], s1)"
    "ok s1" "txs s1 = txs (w_store w)" by (auto simp: cleanup_filter_def)
  let ?x = "summary_of t ?th (comps ?s i) r"
  have x: "su_transactionId ?x = i" "su_version ?x = tx_version r"
    using \<open>tx_transactionId r = i\<close> by (simp_all add: summary_of_def)
  from update_current [OF q(2), of i r "tx_version r" "unlock_patch t" "[]"] q(3) assms(2) obtain s2 where
    u: "so_updateTransaction ops i (tx_version r) (unlock_patch t) [] s1 = (Inr (tx_version r + 1), s2)"
    "txs s2 = (txs (w_store w))(i \<mapsto> apply_patch (unlock_patch t) (tx_version r + 1) r)" by auto
  show ?thesis
    using q(1) u x
    by (auto intro!: exI [of _ s2] simp: forceCleanUpTransaction_def forceCleanUp_def Let_def eff_defs
        store_call_def now_def store_query_def store_update_def stored t_def [symmetric] cleanup_item_def)
qed

end

end
