(* ===== verification/StatechartInv.thy ===== *)
theory StatechartInv
  imports Statechart
begin

text \<open>
  The invariant of the statechart engine: legal configurations, that the initial state is one and
  that every transition to a structural target keeps one with the target active; that event
  dispatch finds an edge exactly when an active state handles the event; and that the leaf paths
  the code computes from a state value are the paths of the tree's active leaves.
\<close>

section \<open>Legal configurations\<close>

text \<open>
  \<open>conf n sub\<close>: \<open>sub\<close> is a legal value below the active node \<open>n\<close>: nothing below a leaf, exactly one
  child of a compound node, every region of a parallel node, in declaration order. The machine
  itself is a node of its root type whose children are the top-level states (the regions, without
  the injected \<open>error\<close> state, for a parallel machine).
\<close>

fun conf :: "state_node \<Rightarrow> state_value option \<Rightarrow> bool" where
  "conf (StateNode k path ty desc init en ex on od sts imp) sub \<longleftrightarrow>
     (case ty of
        Atomic \<Rightarrow> sub = None
      | Final \<Rightarrow> sub = None
      | Compound \<Rightarrow>
          (case sub of
             Some (SLeaf s) \<Rightarrow>
               (case map_of sts s of Some child \<Rightarrow> conf child None | None \<Rightarrow> False)
           | Some (SMap [(ck, v)]) \<Rightarrow>
               (case map_of sts ck of Some child \<Rightarrow> conf child (Some v) | None \<Rightarrow> False)
           | _ \<Rightarrow> False)
      | Parallel \<Rightarrow>
          (case sub of
             Some (SMap kvs) \<Rightarrow> keys kvs = keys sts \<and>
               list_all (\<lambda>(rk, rn).
                 case map_of kvs rk of
                   None \<Rightarrow> False
                 | Some v \<Rightarrow> if leaf_type (sn_type rn) then v = SLeaf rk else conf rn (Some v)) sts
           | _ \<Rightarrow> False))"

definition root_node :: "machine \<Rightarrow> state_node" where
  "root_node m =
     (case md_type m of
        RootCompound \<Rightarrow>
          StateNode [] [] Compound None (md_initial m) [] [] [] None (md_states m) False
      | RootParallel \<Rightarrow>
          StateNode [] [] Parallel None None [] [] [] None
            (filter (\<lambda>(_, n). \<not> sn_isImplicitError n) (md_states m)) False)"

definition conf_root :: "machine \<Rightarrow> state_value \<Rightarrow> bool" where
  "conf_root m sv \<longleftrightarrow> conf (root_node m) (Some sv)"

text \<open>The regions of a parallel node hold their own key (leaf regions) or their sub-value.\<close>

definition region_conf :: "string \<Rightarrow> state_node \<Rightarrow> state_value \<Rightarrow> bool" where
  "region_conf rk rn v \<longleftrightarrow> (if leaf_type (sn_type rn) then v = SLeaf rk else conf rn (Some v))"

lemma conf_leaf: "leaf_type (sn_type n) \<Longrightarrow> conf n sub \<longleftrightarrow> sub = None"
  by (cases n) (auto simp: leaf_type_def)

lemma conf_None: "conf n None \<longleftrightarrow> leaf_type (sn_type n)"
  by (cases n) (auto simp: leaf_type_def split: node_type.splits)

lemma conf_compound:
  "sn_type n = Compound \<Longrightarrow>
     conf n (Some v) \<longleftrightarrow>
       (\<exists>k child sub. map_of (sn_states n) k = Some child \<and> v = child_value k sub \<and> conf child sub)"
  by (cases n) (force simp: child_value_def split: option.splits state_value.splits list.splits)

lemma conf_parallel:
  "sn_type n = Parallel \<Longrightarrow>
     conf n (Some v) \<longleftrightarrow>
       (\<exists>kvs. v = SMap kvs \<and> keys kvs = keys (sn_states n) \<and>
         (\<forall>(rk, rn) \<in> set (sn_states n). \<exists>w. map_of kvs rk = Some w \<and> region_conf rk rn w))"
proof (cases n; cases v)
  fix k path ty desc init en ex on od sts imp kvs
  assume p: "sn_type n = Parallel" and n: "n = StateNode k path ty desc init en ex on od sts imp"
    and v: "v = SMap kvs"
  have "(case map_of kvs rk of None \<Rightarrow> False
         | Some w \<Rightarrow> if leaf_type (sn_type rn) then w = SLeaf rk else conf rn (Some w)) \<longleftrightarrow>
        (\<exists>w. map_of kvs rk = Some w \<and> region_conf rk rn w)" for rk rn
    by (auto simp: region_conf_def split: option.splits)
  then show ?thesis using p n v by (simp add: list_all_iff)
qed auto

lemma region_conf_value:
  "conf rn sub \<Longrightarrow> region_conf rk rn (region_value rk sub)"
  by (cases sub) (auto simp: region_conf_def region_value_def conf_None conf_leaf)

lemma conf_parallel_update:
  assumes "sn_type n = Parallel" "distinct (keys (sn_states n))" "conf n (Some (SMap kvs))"
    "map_of (sn_states n) rk = Some rn" "region_conf rk rn w"
  shows "conf n (Some (SMap (AList.update rk w kvs)))"
proof -
  from assms(1,3) have k: "keys kvs = keys (sn_states n)"
    and c: "\<forall>(rk, rn) \<in> set (sn_states n). \<exists>w. map_of kvs rk = Some w \<and> region_conf rk rn w"
    by (auto simp: conf_parallel)
  have "rk \<in> set (keys kvs)"
    using assms(4) k by (metis domI dom_map_of_conv_image_fst set_map)
  then have "keys (AList.update rk w kvs) = keys (sn_states n)"
    using k by (simp add: keys_update_old)
  moreover have "\<exists>w'. map_of (AList.update rk w kvs) q = Some w' \<and> region_conf q qn w'"
    if "(q, qn) \<in> set (sn_states n)" for q qn
  proof (cases "q = rk")
    case True
    then have "qn = rn" using that assms(2,4) map_of_is_SomeI by fastforce
    then show ?thesis using True assms(5) by (simp add: map_of_update)
  next
    case False
    then show ?thesis using c that by (auto simp: map_of_update)
  qed
  ultimately show ?thesis using assms(1) by (auto simp: conf_parallel)
qed

section \<open>Entering\<close>

lemma map_of_map_entered:
  "map_of (map (\<lambda>(rk, rn). (rk, f rk rn)) d) k = map_option (f k) (map_of d k)"
  by (induction d) auto

lemma enterSubtree_conf:
  "shape_ok n \<Longrightarrow> tree_ok pre name n \<Longrightarrow> conf n (fst (enterSubtree n))"
proof (induction n arbitrary: pre name rule: enterSubtree.induct)
  case (1 k path ty desc init en ex on od sts imp)
  let ?n = "StateNode k path ty desc init en ex on od sts imp"
  have f: "forest_ok (pre @ [name]) sts"
    using tree_okD(4) [OF "1.prems"(2)] by simp
  then have dist: "distinct (keys sts)" by (simp add: forest_ok_def)
  have sh: "\<forall>(ck, c) \<in> set sts. shape_ok c"
    using "1.prems"(1) by (auto simp: list_all_iff)
  show ?case
  proof (cases ty)
    case Compound
    then obtain i where i: "init = Some i" "i \<in> set (keys sts)"
      using "1.prems"(1) by (auto split: option.splits)
    then obtain c where c: "map_of sts i = Some c"
      by (metis map_of_eq_None_iff not_Some_eq set_map)
    have "shape_ok c" using sh map_of_SomeD [OF c] by auto
    moreover note tc = forest_ok_lookup [OF f c]
    ultimately have "conf c (fst (enterSubtree c))"
      using "1.IH"(1) [OF Compound i(1) c] by blast
    then have "conf ?n (Some (child_value i (fst (enterSubtree c))))"
      using Compound c conf_compound [of ?n] by auto
    then show ?thesis
      using Compound i c tree_okD(2) [OF tc] by (simp add: split_beta)
  next
    case Parallel
    let ?kvs = "map (\<lambda>(rk, rn). (rk, region_value rk (fst (enterSubtree rn)))) sts"
    have "region_conf rk rn (region_value rk (fst (enterSubtree rn)))"
      if m: "(rk, rn) \<in> set sts" for rk rn
    proof -
      have l: "map_of sts rk = Some rn" using m dist by simp
      have "conf rn (fst (enterSubtree rn))"
        using "1.IH"(2) [OF Parallel m refl] sh m forest_ok_lookup [OF f l] by blast
      then show ?thesis by (rule region_conf_value)
    qed
    moreover have "map_of ?kvs rk = Some (region_value rk (fst (enterSubtree rn)))"
      if "(rk, rn) \<in> set sts" for rk rn
      using that dist by (simp add: map_of_map_entered)
    moreover have "keys ?kvs = keys sts" by (induction sts) auto
    ultimately have "conf ?n (Some (SMap ?kvs))"
      using Parallel conf_parallel [of ?n] by fastforce
    moreover have "fst (enterSubtree ?n) = Some (SMap ?kvs)"
      using Parallel by (simp add: Let_def split_beta comp_def)
    ultimately show ?thesis by simp
  qed auto
qed

lemma resolveInitialState_root:
  "resolveInitialState m =
     (case (md_type m, enterSubtree (root_node m)) of
        (_, None, _) \<Rightarrow> None
      | (_, Some sv, effs) \<Rightarrow> Some (sv, effs))"
  by (auto simp: resolveInitialState_def root_node_def Let_def split_beta
      split: root_type.splits option.splits)

lemma root_forest:
  assumes "forest_ok [] (md_states m)"
  shows "forest_ok [] (sn_states (root_node m))"
proof -
  have "distinct (map fst (filter P (md_states m)))" for P
    using assms by (auto simp: forest_ok_def distinct_map_filter)
  then show ?thesis
    using assms by (auto simp: root_node_def forest_ok_def list_all_iff split: root_type.splits)
qed

lemma map_of_filter_snd:
  "distinct (keys d) \<Longrightarrow>
     map_of (filter (\<lambda>(_, n). P n) d) k =
       (case map_of d k of Some n \<Rightarrow> if P n then Some n else None | None \<Rightarrow> None)"
  by (induction d) (auto split: option.splits simp: map_of_eq_None_iff dest: map_of_SomeD)

lemma root_lookup:
  assumes "forest_ok [] (md_states m)" "map_of (sn_states (root_node m)) k = Some n"
  shows "map_of (md_states m) k = Some n"
  using assms by (auto simp: root_node_def forest_ok_def map_of_filter_snd
      split: root_type.splits option.splits if_splits)

lemma root_shape:
  assumes "machine_ok m" "map_of (md_states m) k = Some n"
  shows "shape_ok n" "tree_ok [] k n"
proof -
  show "shape_ok n" using assms map_of_SomeD [OF assms(2)] by (auto simp: machine_ok_def list_all_iff)
  show "tree_ok [] k n" using assms by (auto simp: machine_ok_def intro: forest_ok_lookup)
qed

lemma root_node_compound [simp]:
  "md_type m = RootCompound \<Longrightarrow> sn_type (root_node m) = Compound"
  "md_type m = RootCompound \<Longrightarrow> sn_states (root_node m) = md_states m"
  by (simp_all add: root_node_def)

lemma root_node_parallel [simp]:
  "md_type m = RootParallel \<Longrightarrow> sn_type (root_node m) = Parallel"
  by (simp add: root_node_def)

lemma resolveInitialState_conf:
  assumes "machine_ok m"
  shows "\<exists>sv effs. resolveInitialState m = Some (sv, effs) \<and> conf_root m sv"
proof (cases "md_type m")
  case RootCompound
  then obtain i n where i: "md_initial m = Some i" "map_of (md_states m) i = Some n"
    using assms by (auto simp: machine_ok_def root_ok_def split: option.splits)
  note s = root_shape [OF assms i(2)]
  have "conf n (fst (enterSubtree n))" by (rule enterSubtree_conf [OF s])
  then have "conf_root m (child_value i (fst (enterSubtree n)))"
    using i RootCompound by (auto simp: conf_root_def conf_compound)
  then show ?thesis
    using i RootCompound tree_okD(2) [OF s(2)] by (simp add: resolveInitialState_def split_beta)
next
  case RootParallel
  let ?sts = "sn_states (root_node m)"
  let ?kvs = "map (\<lambda>(rk, rn). (rk, region_value rk (fst (enterSubtree rn)))) ?sts"
  have f: "forest_ok [] (md_states m)" using assms by (simp add: machine_ok_def)
  then have dist: "distinct (keys ?sts)" using root_forest by (simp add: forest_ok_def)
  have "\<exists>w. map_of ?kvs rk = Some w \<and> region_conf rk rn w" if "(rk, rn) \<in> set ?sts" for rk rn
  proof -
    have l: "map_of ?sts rk = Some rn" using that dist by simp
    note s = root_shape [OF assms root_lookup [OF f l]]
    show ?thesis
      using l region_conf_value [OF enterSubtree_conf [OF s]] by (simp add: map_of_map_entered)
  qed
  moreover have "keys ?kvs = keys ?sts" by (simp add: comp_def split_beta)
  ultimately have "conf_root m (SMap ?kvs)"
    using RootParallel conf_parallel [of "root_node m"] by (fastforce simp: conf_root_def)
  then show ?thesis
    using RootParallel
    by (simp add: resolveInitialState_def root_node_def Let_def case_prod_unfold comp_def)
qed

section \<open>Active paths\<close>

text \<open>\<open>active_below n sub ps\<close>: the node at \<open>ps\<close> below \<open>n\<close> is active in the value \<open>sub\<close> of \<open>n\<close>.\<close>

fun active_below :: "state_node \<Rightarrow> state_value option \<Rightarrow> string list \<Rightarrow> bool" where
  "active_below n sub [] \<longleftrightarrow> True"
| "active_below n sub (p # ps) \<longleftrightarrow>
     (case (map_of (sn_states n) p, sn_type n, sub) of
        (Some c, Compound, Some (SLeaf s)) \<Rightarrow> s = p \<and> active_below c None ps
      | (Some c, Compound, Some (SMap kvs)) \<Rightarrow>
          (case map_of kvs p of Some v \<Rightarrow> active_below c (Some v) ps | None \<Rightarrow> False)
      | (Some c, Parallel, Some (SMap kvs)) \<Rightarrow>
          (case map_of kvs p of
             Some v \<Rightarrow> active_below c (if leaf_type (sn_type c) then None else Some v) ps
           | None \<Rightarrow> False)
      | _ \<Rightarrow> False)"

definition active_path :: "machine \<Rightarrow> state_value \<Rightarrow> string list \<Rightarrow> bool" where
  "active_path m sv ps \<longleftrightarrow> active_below (root_node m) (Some sv) ps"

lemma active_step_compound:
  assumes "sn_type n = Compound" "conf n (Some v)" "active_below n (Some v) (p # ps)"
  shows "\<exists>c sub. map_of (sn_states n) p = Some c \<and> v = child_value p sub \<and> conf c sub \<and>
    active_below c sub ps"
proof -
  from assms(1,2) obtain k c sub where
    k: "map_of (sn_states n) k = Some c" "v = child_value k sub" "conf c sub"
    by (auto simp: conf_compound)
  have "k = p \<and> active_below c sub ps"
    using assms(1,3) k by (cases sub) (auto simp: child_value_def active_below.simps(2) split: option.splits if_splits)
  with k show ?thesis by auto
qed

lemma active_step_parallel:
  assumes "sn_type n = Parallel" "conf n (Some v)" "active_below n (Some v) (p # ps)"
  shows "\<exists>c sub kvs. map_of (sn_states n) p = Some c \<and> v = SMap kvs \<and> conf c sub \<and>
    map_of kvs p = Some (region_value p sub) \<and> active_below c sub ps"
proof -
  from assms(1,2) obtain kvs where
    v: "v = SMap kvs" "keys kvs = keys (sn_states n)"
    "\<forall>(rk, rn) \<in> set (sn_states n). \<exists>w. map_of kvs rk = Some w \<and> region_conf rk rn w"
    by (auto simp: conf_parallel)
  from assms(1,3) v obtain c w where
    c: "map_of (sn_states n) p = Some c" "map_of kvs p = Some w"
    "active_below c (if leaf_type (sn_type c) then None else Some w) ps"
    by (auto split: option.splits)
  have "region_conf p c w" using v(3) c(1,2) map_of_SomeD [OF c(1)] by fastforce
  then show ?thesis
    using c v(1)
    by (intro exI [of _ c] exI [of _ "if leaf_type (sn_type c) then None else Some w"] exI [of _ kvs])
      (auto simp: region_conf_def region_value_def conf_None)
qed

lemma active_not_leaf:
  assumes "active_below n sub (p # ps)"
  shows "sn_type n = Compound \<or> sn_type n = Parallel"
  using assms by (cases "sn_type n") (auto split: option.splits)

lemma active_leaf_end: "active_below n sub ps \<Longrightarrow> leaf_type (sn_type n) \<Longrightarrow> ps = []"
  by (cases ps) (auto simp: leaf_type_def simp del: active_below.simps(2) dest: active_not_leaf)

declare active_below.simps(2) [simp del]

lemma active_compoundI:
  "sn_type n = Compound \<Longrightarrow> map_of (sn_states n) p = Some c \<Longrightarrow> active_below c sub ps \<Longrightarrow>
     active_below n (Some (child_value p sub)) (p # ps)"
  by (cases sub) (auto simp: active_below.simps(2) child_value_def)

lemma active_parallelI:
  "sn_type n = Parallel \<Longrightarrow> map_of (sn_states n) p = Some c \<Longrightarrow>
     map_of kvs p = Some (region_value p sub) \<Longrightarrow> conf c sub \<Longrightarrow> active_below c sub ps \<Longrightarrow>
     active_below n (Some (SMap kvs)) (p # ps)"
  by (cases sub) (auto simp: active_below.simps(2) region_value_def conf_None conf_leaf)

lemma active_prefix: "active_below n sub (ps @ qs) \<Longrightarrow> active_below n sub ps"
  by (induction n sub ps rule: active_below.induct)
    (auto simp: active_below.simps(2) split: option.splits node_type.splits state_value.splits)

text \<open>The walk through a state value follows the walk through the tree.\<close>

lemma walk_value_active:
  assumes "conf n (Some cur)" "active_below n (Some cur) ps" "ps \<noteq> []"
    "walk_parts (sn_states n) None ps = Some c" "\<not> leaf_type (sn_type c)"
  shows "\<exists>v. walk_value cur ps = Some v \<and> conf c (Some v)"
  using assms
proof (induction ps arbitrary: n cur)
  case (Cons p ps)
  have step: "\<exists>d v. map_of (sn_states n) p = Some d \<and> conf d (Some v) \<and>
      active_below d (Some v) ps \<and> (\<exists>kvs. cur = SMap kvs \<and> map_of kvs p = Some v)"
    if sub: "map_of (sn_states n) p = Some d" "conf d sub" "active_below d sub ps"
      "\<And>v. sub = Some v \<Longrightarrow> \<exists>kvs. cur = SMap kvs \<and> map_of kvs p = Some v" for d sub
  proof (cases sub)
    case None
    then have "leaf_type (sn_type d)" using sub(2) by (simp add: conf_None)
    then have "ps = []" using sub(3) active_leaf_end by blast
    then show ?thesis using Cons.prems(4,5) sub(1) \<open>leaf_type (sn_type d)\<close> by simp
  next
    case (Some v)
    then show ?thesis using sub by auto
  qed
  from active_not_leaf [OF Cons.prems(2)] obtain d v kvs where
    d: "map_of (sn_states n) p = Some d" "conf d (Some v)" "active_below d (Some v) ps"
    "cur = SMap kvs" "map_of kvs p = Some v"
  proof
    assume "sn_type n = Compound"
    from active_step_compound [OF this Cons.prems(1,2)] step
    show thesis using that by (fastforce simp: child_value_def)
  next
    assume "sn_type n = Parallel"
    from active_step_parallel [OF this Cons.prems(1,2)] step
    show thesis using that by (fastforce simp: region_value_def)
  qed
  show ?case
  proof (cases ps)
    case Nil
    then show ?thesis using d Cons.prems(4) by auto
  next
    case (Cons q qs)
    then have "walk_parts (sn_states d) None ps = Some c"
      using Cons.prems(4) d(1) walk_parts_current [of ps _ "Some d" None] by simp
    then show ?thesis using Cons.IH [OF d(2,3) _ _ Cons.prems(5)] Cons d by simp
  qed
qed simp

section \<open>Positions in a machine\<close>

definition node_at :: "machine \<Rightarrow> string list \<Rightarrow> state_node option" where
  "node_at m ps = walk_parts (md_states m) None ps"

lemma machine_forest: "machine_ok m \<Longrightarrow> forest_ok [] (md_states m)"
  by (simp add: machine_ok_def)

lemma node_at_tree:
  assumes "machine_ok m" "node_at m ps = Some n"
  shows "ps \<noteq> []" "\<forall>p \<in> set ps. wf_key p" "sn_path n = join_dot ps" "sn_key n = last ps"
    "forest_ok ps (sn_states n)"
  using walk_parts_tree [OF machine_forest [OF assms(1)]] assms(2) by (simp_all add: node_at_def)

lemma getNodeByPath_at:
  assumes "machine_ok m" "node_at m ps = Some n"
  shows "getNodeByPath m (join_dot ps) = Some n"
  using node_at_tree [OF assms] assms(2) by (simp add: getNodeByPath_def node_at_def path_simps)

lemma getNodeByPath_node_at:
  assumes "machine_ok m" "getNodeByPath m p = Some n"
  shows "node_at m (path_parts p) = Some n"
  using assms by (simp add: getNodeByPath_def node_at_def)

text \<open>\<open>here m pre n\<close>: the children of \<open>n\<close> are the machine's nodes at \<open>pre\<close> followed by their key.\<close>

definition here :: "machine \<Rightarrow> string list \<Rightarrow> state_node \<Rightarrow> bool" where
  "here m pre n \<longleftrightarrow> (\<forall>k c. map_of (sn_states n) k = Some c \<longrightarrow> node_at m (pre @ [k]) = Some c)"

lemma here_root: "machine_ok m \<Longrightarrow> here m [] (root_node m)"
  using root_lookup machine_forest by (auto simp: here_def node_at_def)

lemma here_child:
  assumes "node_at m ps = Some n" "ps \<noteq> []"
  shows "here m ps n"
  using assms walk_parts_append [OF assms(2)] by (auto simp: here_def node_at_def)

lemma here_step: "here m pre n \<Longrightarrow> map_of (sn_states n) k = Some c \<Longrightarrow> here m (pre @ [k]) c"
  by (rule here_child) (auto simp: here_def)

section \<open>Replacing below the common ancestor\<close>

text \<open>
  What the built branch must be: for a compound ancestor a legal value, for a parallel ancestor one
  region with a legal value below it; \<open>ks\<close> is active in it.
\<close>

definition branch_ok :: "state_node \<Rightarrow> state_value \<Rightarrow> string list \<Rightarrow> bool" where
  "branch_ok l b ks \<longleftrightarrow>
     (\<exists>k c sub qs. map_of (sn_states l) k = Some c \<and> b = child_value k sub \<and> conf c sub \<and>
        ks = k # qs \<and> active_below c sub qs \<and>
        (sn_type l = Compound \<or> sn_type l = Parallel \<and> sub \<noteq> None))"

lemma branch_ok_not_leaf: "branch_ok l b ks \<Longrightarrow> \<not> leaf_type (sn_type l)"
  by (auto simp: branch_ok_def leaf_type_def)

lemma branch_ok_compound:
  "branch_ok l b ks \<Longrightarrow> sn_type l = Compound \<Longrightarrow> conf l (Some b) \<and> active_below l (Some b) ks"
  by (auto simp: branch_ok_def conf_compound intro: active_compoundI)

lemma branch_ok_region:
  assumes "branch_ok l b ks" "sn_type l = Parallel" "distinct (keys (sn_states l))"
    "conf l (Some (SMap rs))"
  shows "\<exists>k w. b = SMap [(k, w)] \<and> conf l (Some (SMap (AList.update k w rs))) \<and>
    active_below l (Some (SMap (AList.update k w rs))) ks"
proof -
  from assms(1,2) obtain k c w qs where
    k: "map_of (sn_states l) k = Some c" "b = child_value k (Some w)" "conf c (Some w)"
    "ks = k # qs" "active_below c (Some w) qs"
    by (auto simp: branch_ok_def)
  have "\<not> leaf_type (sn_type c)" using k(3) conf_leaf by auto
  then have "conf l (Some (SMap (AList.update k w rs)))"
    using conf_parallel_update [OF assms(2,3,4) k(1)] k(3) by (simp add: region_conf_def)
  moreover have "active_below l (Some (SMap (AList.update k w rs))) ks"
    unfolding k(4) by (rule active_parallelI [OF assms(2) k(1) _ k(3,5)])
      (simp add: map_of_update region_value_def)
  ultimately show ?thesis using k(2) by (simp add: child_value_def)
qed

text \<open>Replacing the value of a non-leaf child.\<close>

lemma conf_put:
  assumes "distinct (keys (sn_states n))" "conf n (Some cur)" "map_of (sn_states n) p = Some c"
    "sn_type n = Compound \<and> cur = child_value p (Some v) \<or>
     sn_type n = Parallel \<and> (\<exists>kvs. cur = SMap kvs \<and> map_of kvs p = Some v)"
    "conf c (Some w)"
  shows "\<exists>kvs. cur = SMap kvs \<and> map_of kvs p = Some v \<and>
    conf n (Some (SMap (AList.update p w kvs))) \<and>
    (\<forall>qs. active_below c (Some w) qs \<longrightarrow> active_below n (Some (SMap (AList.update p w kvs))) (p # qs))"
  using assms(4)
proof
  assume h: "sn_type n = Compound \<and> cur = child_value p (Some v)"
  moreover have "AList.update p w [(p, v)] = [(p, w)]" by simp
  ultimately have "conf n (Some (child_value p (Some w)))" using assms(3,5) conf_compound by blast
  with h show ?thesis
    using active_compoundI [of n p c "Some w"] assms(3) by (simp add: child_value_def)
next
  assume "sn_type n = Parallel \<and> (\<exists>kvs. cur = SMap kvs \<and> map_of kvs p = Some v)"
  then obtain kvs where h: "sn_type n = Parallel" "cur = SMap kvs" "map_of kvs p = Some v" by auto
  have "\<not> leaf_type (sn_type c)" using assms(5) conf_leaf by auto
  then have "conf n (Some (SMap (AList.update p w kvs)))"
    using conf_parallel_update [OF h(1) assms(1)] assms(2,3,5) h(2) by (simp add: region_conf_def)
  moreover have "active_below n (Some (SMap (AList.update p w kvs))) (p # qs)"
    if "active_below c (Some w) qs" for qs
    by (rule active_parallelI [OF h(1) assms(3) _ assms(5) that])
      (simp add: map_of_update region_value_def)
  ultimately show ?thesis using h by simp
qed

lemma replaceAtLca_conf:
  assumes "machine_ok m" "here m pre n" "distinct (keys (sn_states n))"
    "conf n (Some cur)" "active_below n (Some cur) lca" "lca \<noteq> []"
    "walk_parts (sn_states n) None lca = Some l" "branch_ok l b ks"
  shows "\<exists>cur'. replaceAtLca m cur pre lca b = Inr cur' \<and> conf n (Some cur') \<and>
    active_below n (Some cur') (lca @ ks)"
  using assms
proof (induction lca arbitrary: n cur pre)
  case (Cons p ps)
  obtain c sub where c: "map_of (sn_states n) p = Some c" "conf c sub" "active_below c sub ps"
    and cur: "sn_type n = Compound \<and> cur = child_value p sub \<or>
      sn_type n = Parallel \<and> (\<exists>kvs. cur = SMap kvs \<and> map_of kvs p = Some (region_value p sub))"
    using active_not_leaf [OF Cons.prems(5)] active_step_compound [OF _ Cons.prems(4,5)]
      active_step_parallel [OF _ Cons.prems(4,5)] by blast
  have at: "node_at m (pre @ [p]) = Some c" using Cons.prems(2) c(1) by (simp add: here_def)
  note get = getNodeByPath_at [OF Cons.prems(1) at]
  have dc: "distinct (keys (sn_states c))"
    using node_at_tree(5) [OF Cons.prems(1) at] by (simp add: forest_ok_def)
  have cl: "\<not> leaf_type (sn_type c)"
    using Cons.prems(7,8) c(1,3) branch_ok_not_leaf active_leaf_end by (cases ps) force+
  then obtain v where v: "sub = Some v" using c(2) by (cases sub) (auto simp: conf_None)
  note put = conf_put [OF Cons.prems(3,4) c(1), of v]
  have hv: "sn_type n = Compound \<and> cur = child_value p (Some v) \<or>
     sn_type n = Parallel \<and> (\<exists>kvs. cur = SMap kvs \<and> map_of kvs p = Some v)"
    using cur v by (auto simp: region_value_def)
  show ?case
  proof (cases ps)
    case Nil
    then have l: "l = c" using Cons.prems(7) c(1) by simp
    show ?thesis
    proof (cases "sn_type c = Parallel")
      case False
      then have "sn_type c = Compound" using cl by (cases "sn_type c") (auto simp: leaf_type_def)
      with branch_ok_compound [OF Cons.prems(8)] l
      have "conf c (Some b)" "active_below c (Some b) ks" by auto
      with put [OF hv this(1)] False Nil get show ?thesis
        by (auto simp: is_parallel_node_def assign_def)
    next
      case True
      with c(2) v obtain rs where rs: "v = SMap rs" by (auto simp: conf_parallel)
      from branch_ok_region [OF Cons.prems(8)] l True dc c(2) v rs obtain k w where
        k: "b = SMap [(k, w)]" "conf c (Some (SMap (AList.update k w rs)))"
        "active_below c (Some (SMap (AList.update k w rs))) ks"
        by blast
      with put [OF hv k(2)] True Nil get rs show ?thesis
        by (auto simp: is_parallel_node_def)
    qed
  next
    case (Cons q qs)
    have "walk_parts (sn_states c) None ps = Some l"
      using Cons.prems(7) c(1) Cons walk_parts_current [of ps _ "Some c" None] by simp
    then obtain cur' where cur':
      "replaceAtLca m v (pre @ [p]) ps b = Inr cur'" "conf c (Some cur')"
      "active_below c (Some cur') (ps @ ks)"
      using Cons.IH [OF Cons.prems(1) here_step [OF Cons.prems(2) c(1)] dc, of v] c v Cons Cons.prems(8)
      by auto
    with put [OF hv cur'(2)] Cons show ?thesis by (auto simp: assign_def)
  qed
qed simp

section \<open>Target transitions keep the configuration legal\<close>

text \<open>
  The targets the engine can install: every parallel state it enters on the way to the target is
  already active (the code fills its other regions from the current value), the target is not a
  leaf region of the common ancestor, and in a machine with parallel root it lies in a region.
\<close>

definition lca_len :: "string list \<Rightarrow> string list \<Rightarrow> nat" where
  "lca_len src tgt = common_len (min (length src) (length tgt) - 1) src tgt"

definition structural_target ::
  "machine \<Rightarrow> state_value \<Rightarrow> string list \<Rightarrow> string list \<Rightarrow> bool" where
  "structural_target m cur src tgt \<longleftrightarrow>
     (let c = lca_len src tgt in
      list_all (\<lambda>i. is_parallel_node (node_at m (take (Suc i) tgt)) \<longrightarrow>
        active_path m cur (take (Suc i) tgt)) [c..<length tgt - 1] \<and>
      \<not> (0 < c \<and> is_parallel_node (node_at m (take c tgt)) \<and> Suc c = length tgt \<and>
         is_leaf_node (node_at m tgt)) \<and>
      map_of (sn_states (root_node m)) (hd tgt) \<noteq> None)"

lemma common_len_bound: "common_len b xs ys \<le> b \<and> common_len b xs ys \<le> length xs \<and>
    common_len b xs ys \<le> length ys \<and> take (common_len b xs ys) xs = take (common_len b xs ys) ys"
  by (induction b xs ys rule: common_len.induct) auto

lemma lca_len_less: "tgt \<noteq> [] \<Longrightarrow> lca_len src tgt < length tgt"
proof -
  assume "tgt \<noteq> []"
  then have "min (length src) (length tgt) - 1 < length tgt" by (cases tgt) auto
  then show ?thesis using common_len_bound le_less_trans unfolding lca_len_def by blast
qed

lemma lca_take: "take (lca_len src tgt) tgt = take (lca_len src tgt) src"
  unfolding lca_len_def by (metis common_len_bound)

lemma node_at_take:
  assumes "node_at m ps = Some n" "i < length ps"
  shows "\<exists>a. node_at m (take (Suc i) ps) = Some a"
proof -
  have "take (Suc i) ps \<noteq> []" using assms(2) by (cases ps) auto
  moreover have "node_at m (take (Suc i) ps @ drop (Suc i) ps) = Some n" using assms(1) by simp
  ultimately show ?thesis
    unfolding node_at_def by (subst (asm) walk_parts_append) (auto split: option.splits)
qed

lemma take_Suc_snoc: "i < length ps \<Longrightarrow> take (Suc i) ps = take i ps @ [ps ! i]"
  by (rule take_Suc_conv_app_nth)

lemma node_at_next:
  assumes "node_at m (take (Suc i) ps) = Some a" "node_at m (take (Suc (Suc i)) ps) = Some b"
    "Suc i < length ps"
  shows "map_of (sn_states a) (ps ! Suc i) = Some b"
proof -
  have "take (Suc (Suc i)) ps = take (Suc i) ps @ [ps ! Suc i]" using assms(3) by (rule take_Suc_snoc)
  then show ?thesis
    using assms walk_parts_append [of "take (Suc i) ps"]
    by (cases ps) (auto simp: node_at_def split: option.splits)
qed

lemma parent_not_leaf:
  "machine_ok m \<Longrightarrow> node_at m ps = Some a \<Longrightarrow> map_of (sn_states a) k = Some b \<Longrightarrow>
     shape_ok a \<Longrightarrow> \<not> leaf_type (sn_type a)"
  by (cases a) (auto simp: leaf_type_def split: node_type.splits)

lemma shape_ok_child: "shape_ok n \<Longrightarrow> map_of (sn_states n) k = Some c \<Longrightarrow> shape_ok c"
  by (cases n) (auto simp: list_all_iff dest!: map_of_SomeD)

lemma walk_shape:
  "list_all (\<lambda>(k, n). shape_ok n) states \<Longrightarrow> walk_parts states None ps = Some n \<Longrightarrow> shape_ok n"
proof (induction ps arbitrary: states)
  case (Cons p ps)
  then obtain c where c: "map_of states p = Some c" "walk_parts (sn_states c) (Some c) ps = Some n"
    by (auto split: option.splits)
  then have s: "shape_ok c" using Cons.prems(1) by (auto simp: list_all_iff dest!: map_of_SomeD)
  show ?case
  proof (cases ps)
    case Nil
    then show ?thesis using c s by simp
  next
    case (Cons q qs)
    then show ?thesis
      using Cons.IH [of "sn_states c"] s c(2) walk_parts_current [of ps _ "Some c" None]
      by (cases c) (auto simp: list_all_iff)
  qed
qed simp

lemma node_at_shape: "machine_ok m \<Longrightarrow> node_at m ps = Some n \<Longrightarrow> shape_ok n"
  unfolding node_at_def by (rule walk_shape) (auto simp: machine_ok_def list_all_iff)

lemma root_walk:
  assumes "machine_ok m" "active_path m sv ps" "ps \<noteq> []" "conf_root m sv"
  shows "walk_parts (sn_states (root_node m)) None ps = node_at m ps"
proof -
  obtain p qs where p: "ps = p # qs" using assms(3) by (cases ps) auto
  have "\<exists>c. map_of (sn_states (root_node m)) p = Some c"
    using assms(2) p by (auto simp: active_path_def active_below.simps(2) split: option.splits)
  then show ?thesis using p root_lookup [OF machine_forest [OF assms(1)]]
    by (auto simp: node_at_def)
qed

lemma active_value:
  assumes "machine_ok m" "conf_root m cur" "active_path m cur ps" "node_at m ps = Some a"
    "\<not> leaf_type (sn_type a)"
  shows "\<exists>v. walk_value cur ps = Some v \<and> conf a (Some v)"
  using walk_value_active [of "root_node m" cur ps a] root_walk [OF assms(1,3) _ assms(2)]
    assms node_at_tree(1) [OF assms(1,4)]
  by (auto simp: conf_root_def active_path_def)

definition branch_at :: "machine \<Rightarrow> string list \<Rightarrow> nat \<Rightarrow> state_value \<Rightarrow> bool" where
  "branch_at m tgt j b \<longleftrightarrow>
     (\<exists>a sub. node_at m (take (Suc j) tgt) = Some a \<and> b = child_value (tgt ! j) sub \<and> conf a sub \<and>
        active_below a sub (drop (Suc j) tgt) \<and> (Suc j < length tgt \<longrightarrow> sub \<noteq> None))"

lemma pick_region_child [simp]: "pick_region k (child_value k sub) = region_value k sub"
  by (cases sub) (auto simp: pick_region_def child_value_def region_value_def)

lemma wrap_ancestor_branch:
  assumes m: "machine_ok m" "conf_root m cur" "node_at m tgt = Some t" "Suc i < length tgt"
    and b: "branch_at m tgt (Suc i) b"
    and act: "is_parallel_node (node_at m (take (Suc i) tgt)) \<longrightarrow>
      active_path m cur (take (Suc i) tgt)"
  shows "\<exists>b'. wrap_ancestor m cur tgt i b = Inr b' \<and> branch_at m tgt i b'"
proof -
  obtain a where a: "node_at m (take (Suc i) tgt) = Some a"
    using node_at_take [OF m(3)] m(4) by (meson Suc_lessD)
  obtain d sub where d: "node_at m (take (Suc (Suc i)) tgt) = Some d"
    "b = child_value (tgt ! Suc i) sub" "conf d sub" "active_below d sub (drop (Suc (Suc i)) tgt)"
    using b by (auto simp: branch_at_def)
  note ch = node_at_next [OF a d(1) m(4)]
  have sa: "shape_ok a" by (rule node_at_shape [OF m(1) a])
  note get = getNodeByPath_at [OF m(1) a]
  have dr: "drop (Suc i) tgt = tgt ! Suc i # drop (Suc (Suc i)) tgt"
    using m(4) by (simp add: Cons_nth_drop_Suc)
  have nl: "\<not> leaf_type (sn_type a)" by (rule parent_not_leaf [OF m(1) a ch sa])
  show ?thesis
  proof (cases "sn_type a = Parallel")
    case True
    then have act': "active_path m cur (take (Suc i) tgt)" using act a by (simp add: is_parallel_node_def)
    from active_value [OF m(1,2) act' a nl] obtain v where
      v: "walk_value cur (take (Suc i) tgt) = Some v" "conf a (Some v)"
      by auto
    then obtain rs where rs: "v = SMap rs" using True by (auto simp: conf_parallel)
    have "extractSubStateObject cur (join_dot (take (Suc i) tgt)) = rs"
      using v(1) rs node_at_tree(2) [OF m(1) a] by (simp add: extractSubStateObject_def path_simps)
    moreover let ?w = "AList.update (tgt ! Suc i) (region_value (tgt ! Suc i) sub) rs"
    have "conf a (Some (SMap ?w))"
      using conf_parallel_update [OF True _ _ ch] node_at_tree(5) [OF m(1) a] v(2) rs
        region_conf_value [OF d(3)] by (simp add: forest_ok_def)
    moreover have "active_below a (Some (SMap ?w)) (drop (Suc i) tgt)"
      unfolding dr by (rule active_parallelI [OF True ch _ d(3,4)]) (simp add: map_of_update)
    moreover have "wrap_ancestor m cur tgt i b =
        Inr (child_value (tgt ! i) (Some (SMap
          (AList.update (tgt ! Suc i) (region_value (tgt ! Suc i) sub)
            (extractSubStateObject cur (join_dot (take (Suc i) tgt)))))))"
      using get True d(2) by (simp add: wrap_ancestor_def child_value_def Let_def
          pick_region_child [unfolded child_value_def])
    ultimately show ?thesis using a by (auto simp: branch_at_def)
  next
    case False
    then have ty: "sn_type a = Compound" using nl by (cases "sn_type a") (auto simp: leaf_type_def)
    have "conf a (Some b)" using ch d(2,3) conf_compound [OF ty] by auto
    moreover have "active_below a (Some b) (drop (Suc i) tgt)"
      unfolding dr d(2) by (rule active_compoundI [OF ty ch d(4)])
    moreover have "wrap_ancestor m cur tgt i b = Inr (child_value (tgt ! i) (Some b))"
      using get False by (simp add: wrap_ancestor_def child_value_def Let_def)
    ultimately show ?thesis using a by (auto simp: branch_at_def)
  qed
qed

lemma build_branch_at:
  assumes m: "machine_ok m" "conf_root m cur" "node_at m tgt = Some t"
    and act: "\<forall>i \<in> {c..<length tgt - 1}. is_parallel_node (node_at m (take (Suc i) tgt)) \<longrightarrow>
      active_path m cur (take (Suc i) tgt)"
    and b0: "branch_at m tgt (length tgt - 1) b0" and c: "c < length tgt"
  shows "\<exists>b. build_branch m cur tgt c b0 = Inr b \<and> branch_at m tgt c b"
  using c act
proof (induction "length tgt - 1 - c" arbitrary: c)
  case 0
  then have "c = length tgt - 1" by simp
  then show ?case using b0 by (simp add: build_branch_def)
next
  case (Suc k)
  then have c: "Suc c < length tgt" by simp
  have "k = length tgt - 1 - Suc c" using Suc(2) by simp
  from Suc(1) [OF this c] Suc(4) obtain b where
    b: "build_branch m cur tgt (Suc c) b0 = Inr b" "branch_at m tgt (Suc c) b"
    by auto
  have "is_parallel_node (node_at m (take (Suc c) tgt)) \<longrightarrow> active_path m cur (take (Suc c) tgt)"
    using Suc(4) c by auto
  from wrap_ancestor_branch [OF m c b(2) this] obtain b' where
    "wrap_ancestor m cur tgt c b = Inr b'" "branch_at m tgt c b'" by auto
  moreover have "[c..<length tgt - 1] = c # [Suc c..<length tgt - 1]"
    using c by (simp add: upt_conv_Cons)
  ultimately show ?case using b(1) by (simp add: build_branch_def)
qed

lemma install_branch_conf:
  assumes m: "machine_ok m" "conf_root m cur" "node_at m tgt = Some t"
    and c: "c < length tgt" "active_path m cur (take c tgt)"
    and b: "branch_at m tgt c b"
    and ok: "\<not> (0 < c \<and> is_parallel_node (node_at m (take c tgt)) \<and> Suc c = length tgt \<and>
       is_leaf_node (node_at m tgt))"
      "map_of (sn_states (root_node m)) (hd tgt) \<noteq> None"
  shows "\<exists>sv. install_branch m cur tgt c b = Inr sv \<and> conf_root m sv \<and> active_path m sv tgt"
proof -
  obtain a sub where a: "node_at m (take (Suc c) tgt) = Some a" "b = child_value (tgt ! c) sub"
    "conf a sub" "active_below a sub (drop (Suc c) tgt)" "Suc c < length tgt \<longrightarrow> sub \<noteq> None"
    using b by (auto simp: branch_at_def)
  have f: "forest_ok [] (md_states m)" by (rule machine_forest [OF m(1)])
  have dr: "drop c tgt = tgt ! c # drop (Suc c) tgt" using c(1) by (simp add: Cons_nth_drop_Suc)
  show ?thesis
  proof (cases "c = 0")
    case True
    obtain r where r: "map_of (sn_states (root_node m)) (hd tgt) = Some r" using ok(2) by auto
    have h: "tgt ! 0 = hd tgt" "take (Suc 0) tgt = [hd tgt]" "tgt = hd tgt # drop (Suc 0) tgt"
      using c(1) True by (cases tgt; simp)+
    have ra: "r = a" using a(1) r root_lookup [OF f r] h True by (simp add: node_at_def)
    show ?thesis
    proof (cases "md_type m")
      case RootCompound
      then have ty: "sn_type (root_node m) = Compound" by simp
      have "conf_root m b" using a(2,3) r ra ty True h by (auto simp: conf_root_def conf_compound)
      moreover have "active_below (root_node m) (Some b) (hd tgt # drop (Suc 0) tgt)"
        using active_compoundI [OF ty r] a(2,4) ra True h(1) by simp
      ultimately show ?thesis using True RootCompound h(3)
        by (simp add: install_branch_def active_path_def)
    next
      case RootParallel
      then have ty: "sn_type (root_node m) = Parallel" by simp
      with m(2) obtain kvs where kvs: "cur = SMap kvs" by (auto simp: conf_root_def conf_parallel)
      let ?w = "AList.update (hd tgt) (region_value (hd tgt) sub) kvs"
      have "conf_root m (SMap ?w)"
        using conf_parallel_update [OF ty _ _ r region_conf_value] root_forest [OF f] m(2) kvs a(3) ra
        by (auto simp: conf_root_def forest_ok_def)
      moreover have "active_below (root_node m) (Some (SMap ?w)) (hd tgt # drop (Suc 0) tgt)"
        by (rule active_parallelI [OF ty r]) (use a(3,4) ra True in \<open>simp_all add: map_of_update\<close>)
      ultimately show ?thesis using True RootParallel kvs h a(2)
        by (simp add: install_branch_def active_path_def Let_def)
    qed
  next
    case False
    then obtain c' where c': "c = Suc c'" by (cases c) auto
    obtain l where l: "node_at m (take c tgt) = Some l"
      using node_at_take [OF m(3), of c'] c(1) c' by auto
    have ch: "map_of (sn_states l) (tgt ! c) = Some a"
      using node_at_next [of m c' tgt l a] l a(1) c(1) c' by simp
    have nl: "\<not> leaf_type (sn_type l)" by (rule parent_not_leaf [OF m(1) l ch node_at_shape [OF m(1) l]])
    have "sub \<noteq> None" if "sn_type l = Parallel"
    proof
      assume "sub = None"
      then have "leaf_type (sn_type a)" "Suc c = length tgt" using a(3,5) c(1) by (auto simp: conf_None)
      then show False using ok(1) that l a(1) False
        by (auto simp: is_parallel_node_def is_leaf_node_def)
    qed
    then have br: "branch_ok l b (drop c tgt)"
      using ch a nl dr by (cases "sn_type l") (auto simp: branch_ok_def leaf_type_def)
    have ne: "take c tgt \<noteq> []" using False c(1) by auto
    have "walk_parts (sn_states (root_node m)) None (take c tgt) = Some l"
      using root_walk [OF m(1) c(2) ne m(2)] l by simp
    from replaceAtLca_conf [OF m(1) here_root [OF m(1)] _ _ _ ne this br]
      m(2) c(2) root_forest [OF f] ne
    show ?thesis by (auto simp: install_branch_def conf_root_def active_path_def forest_ok_def)
  qed
qed

lemma target_branch:
  assumes "machine_ok m" "node_at m tgt = Some t"
  shows "branch_at m tgt (length tgt - 1) (child_value (sn_key t) (fst (enterSubtree t)))"
proof -
  note t = node_at_tree [OF assms]
  have tree: "\<exists>pre name. tree_ok pre name t"
  proof -
    have "shape_ok t" by (rule node_at_shape [OF assms])
    obtain n path ty desc init en ex on od sts imp where
      "t = StateNode n path ty desc init en ex on od sts imp" by (cases t)
    moreover have "tgt = butlast tgt @ [last tgt]" using t(1) by simp
    ultimately have "tree_ok (butlast tgt) (last tgt) t"
      using t by (auto simp: forest_ok_def)
    then show ?thesis by blast
  qed
  then have "conf t (fst (enterSubtree t))" using enterSubtree_conf node_at_shape [OF assms] by blast
  then show ?thesis using t(1,4) assms(2) by (auto simp: branch_at_def last_conv_nth)
qed

lemma resolve_node:
  assumes "machine_ok m" "resolveTargetStatePath (md_id m) (md_states m) src ref = Some p"
  shows "\<exists>t. node_at m (path_parts p) = Some t \<and> p = join_dot (path_parts p) \<and> p \<noteq> []"
  using resolve_sound [OF machine_forest [OF assms(1)] assms(2)]
    lookupByDotPath_tree(1) [OF machine_forest [OF assms(1)]]
  by (auto simp: node_at_def lookupByDotPath_def)

lemma applyTargetTransition_conf:
  assumes m: "machine_ok m" "conf_root m cur" "active_path m cur src" "\<forall>k \<in> set src. wf_key k"
    and r: "resolveTargetStatePath (md_id m) (md_states m) (join_dot src) ref = Some p"
    and ok: "structural_target m cur src (path_parts p)"
  shows "\<exists>ap. applyTargetTransition m cur (join_dot src) ref = Inr ap \<and> ap_targetPath ap = p \<and>
    conf_root m (ap_nextStateValue ap) \<and> active_path m (ap_nextStateValue ap) (path_parts p)"
proof -
  let ?tgt = "path_parts p"
  let ?c = "lca_len src ?tgt"
  obtain t where t: "node_at m ?tgt = Some t" "p = join_dot ?tgt" "p \<noteq> []"
    using resolve_node [OF m(1) r] by auto
  have ne: "?tgt \<noteq> []" by (rule node_at_tree(1) [OF m(1) t(1)])
  have c: "?c < length ?tgt" by (rule lca_len_less [OF ne])
  have "active_path m cur (take ?c src)"
    using m(3) active_prefix [of _ _ "take ?c src" "drop ?c src"] by (simp add: active_path_def)
  then have act: "active_path m cur (take ?c ?tgt)" by (simp add: lca_take)
  from build_branch_at [OF m(1,2) t(1) _ target_branch [OF m(1) t(1)] c] ok obtain b where
    b: "build_branch m cur ?tgt ?c (child_value (sn_key t) (fst (enterSubtree t))) = Inr b"
    "branch_at m ?tgt ?c b"
    by (fastforce simp: structural_target_def Let_def list_all_iff)
  from install_branch_conf [OF m(1,2) t(1) c act b(2)] ok obtain sv where
    sv: "install_branch m cur ?tgt ?c b = Inr sv" "conf_root m sv" "active_path m sv ?tgt"
    by (auto simp: structural_target_def Let_def)
  have src: "path_parts (join_dot src) = src" by (rule path_parts_join_dot [OF m(4)])
  have get: "getNodeByPath m p = Some t" using t(1) by (simp add: getNodeByPath_def node_at_def)
  have tr: "truthy (Some p) = Some p" using t(3) by simp
  show ?thesis
    using b(1) sv unfolding applyTargetTransition_def
    by (simp add: r tr Let_def src get split_beta lca_len_def)
qed

section \<open>Dispatch finds exactly the active handlers\<close>

text \<open>Induction over a state tree along child lookups.\<close>

lemma state_node_induct [case_names Node]:
  assumes "\<And>n. (\<And>k c. map_of (sn_states n) k = Some c \<Longrightarrow> P c) \<Longrightarrow> P n"
  shows "P n"
proof (induction n rule: measure_induct_rule [where f = size])
  case (less n)
  show ?case
  proof (rule assms)
    fix k c assume "map_of (sn_states n) k = Some c"
    then have "size c < size n"
      using map_of_size [of "sn_states n" k c size "\<lambda>_. 0"] by (cases n) simp
    then show "P c" by (rule less)
  qed
qed

definition sub_node :: "state_node \<Rightarrow> string list \<Rightarrow> state_node option" where
  "sub_node n qs = walk_parts (sn_states n) (Some n) qs"

lemma sub_node_simps [simp]:
  "sub_node n [] = Some n"
  "sub_node n (q # qs) =
     (case map_of (sn_states n) q of None \<Rightarrow> None | Some c \<Rightarrow> sub_node c qs)"
  by (auto simp: sub_node_def split: option.splits)

lemma search_leaf:
  "leaf_type (sn_type n) \<Longrightarrow> searchInSubtree ev n sub = self_match ev n"
  by (cases n) (auto simp: leaf_type_def)

lemma search_compound:
  "sn_type n = Compound \<Longrightarrow> map_of (sn_states n) k = Some c \<Longrightarrow>
     searchInSubtree ev n (Some (child_value k sub)) =
       (if searchInSubtree ev c sub \<noteq> [] then searchInSubtree ev c sub else self_match ev n)"
  by (cases n; cases sub) (auto simp: child_value_def first_nonempty_def Let_def)

lemma search_parallel:
  "sn_type n = Parallel \<Longrightarrow>
     searchInSubtree ev n (Some (SMap kvs)) =
       (let rm = concat (map (\<lambda>(rk, rn). searchInSubtree ev rn
            (if leaf_type (sn_type rn) then None else map_of kvs rk)) (sn_states n))
        in if rm \<noteq> [] then rm else self_match ev n)"
  by (cases n) (simp add: Let_def)

text \<open>Cases for a legal value.\<close>

lemma conf_cases [consumes 1, case_names leaf compound parallel]:
  assumes "conf n sub"
  obtains "leaf_type (sn_type n)" "sub = None"
  | k c s where "sn_type n = Compound" "map_of (sn_states n) k = Some c"
      "sub = Some (child_value k s)" "conf c s"
  | kvs where "sn_type n = Parallel" "sub = Some (SMap kvs)" "keys kvs = keys (sn_states n)"
      "\<And>rk rn. (rk, rn) \<in> set (sn_states n) \<Longrightarrow> \<exists>w. map_of kvs rk = Some w \<and> region_conf rk rn w"
proof (cases "sn_type n")
  case Compound
  with assms that(2) show ?thesis
    by (cases sub) (auto simp: conf_None leaf_type_def conf_compound)
next
  case Parallel
  with assms that(3) show ?thesis
    by (cases sub) (fastforce simp: conf_None leaf_type_def conf_parallel)+
qed (use assms that(1) conf_leaf in \<open>auto simp: leaf_type_def\<close>)

definition region_sub :: "state_node \<Rightarrow> state_value \<Rightarrow> state_value option" where
  "region_sub rn w = (if leaf_type (sn_type rn) then None else Some w)"

lemma region_conf_sub: "region_conf rk rn w \<Longrightarrow> conf rn (region_sub rn w)"
  by (auto simp: region_conf_def region_sub_def conf_None)

lemma region_conf_region_value: "region_conf rk rn w \<Longrightarrow> w = region_value rk (region_sub rn w)"
  by (auto simp: region_conf_def region_sub_def region_value_def)

lemma active_region:
  "sn_type n = Parallel \<Longrightarrow> map_of (sn_states n) rk = Some rn \<Longrightarrow> map_of kvs rk = Some w \<Longrightarrow>
     active_below n (Some (SMap kvs)) (rk # qs) \<longleftrightarrow> active_below rn (region_sub rn w) qs"
  by (simp add: active_below.simps(2) region_sub_def)

lemma active_child:
  "sn_type n = Compound \<Longrightarrow> map_of (sn_states n) k = Some c \<Longrightarrow>
     active_below n (Some (child_value k s)) (q # qs) \<longleftrightarrow> q = k \<and> active_below c s qs"
  by (cases s) (auto simp: active_below.simps(2) child_value_def split: option.splits)

text \<open>\<open>handles n sub ev s e\<close>: an active descendant \<open>s\<close> of \<open>n\<close> handles the event by the edge \<open>e\<close>.\<close>

definition handles ::
  "state_node \<Rightarrow> state_value option \<Rightarrow> string \<Rightarrow> string list \<Rightarrow> state_node \<Rightarrow> transition_edge \<Rightarrow> bool"
where
  "handles n sub ev qs s e \<longleftrightarrow>
     active_below n sub qs \<and> sub_node n qs = Some s \<and> map_of (sn_on s) ev = Some e"

lemma handles_self: "(s, e) \<in> set (self_match ev n) \<longleftrightarrow> s = n \<and> handles n sub ev [] s e"
  by (auto simp: self_match_def handles_def split: option.splits)

lemma handles_leaf:
  "leaf_type (sn_type n) \<Longrightarrow> handles n sub ev qs s e \<longleftrightarrow>
     qs = [] \<and> s = n \<and> map_of (sn_on n) ev = Some e"
  by (auto simp: handles_def dest: active_leaf_end)

lemma search_sound:
  "conf n sub \<Longrightarrow> distinct (keys (sn_states n)) \<Longrightarrow> forest_ok pre (sn_states n) \<Longrightarrow>
     (s, e) \<in> set (searchInSubtree ev n sub) \<Longrightarrow> \<exists>qs. handles n sub ev qs s e"
proof (induction n arbitrary: sub pre rule: state_node_induct)
  case (Node n)
  have self: ?case if "(s, e) \<in> set (self_match ev n)"
    using that handles_self by blast
  have child: "\<exists>qs. handles c t ev qs s e"
    if "map_of (sn_states n) k = Some c" "conf c t" "(s, e) \<in> set (searchInSubtree ev c t)" for k c t
    using Node.IH [OF that(1,2) _ _ that(3)] forest_ok_child [OF Node.prems(3) that(1)]
    by (auto simp: forest_ok_def)
  from Node.prems(1) show ?case
  proof (cases rule: conf_cases)
    case leaf
    then show ?thesis using Node.prems(4) self by (simp add: search_leaf)
  next
    case (compound k c t)
    show ?thesis
    proof (cases "searchInSubtree ev c t = []")
      case True
      then show ?thesis using Node.prems(4) compound self by (simp add: search_compound)
    next
      case False
      then obtain qs where "handles c t ev qs s e"
        using child [OF compound(2,4)] Node.prems(4) compound by (auto simp: search_compound)
      then have "handles n sub ev (k # qs) s e"
        using compound by (simp add: handles_def active_child)
      then show ?thesis by blast
    qed
  next
    case (parallel kvs)
    show ?thesis
    proof (cases "(s, e) \<in> set (self_match ev n)")
      case False
      then obtain rk rn where r: "(rk, rn) \<in> set (sn_states n)"
        "(s, e) \<in> set (searchInSubtree ev rn (if leaf_type (sn_type rn) then None else map_of kvs rk))"
        using Node.prems(4) parallel by (auto simp: search_parallel Let_def split: if_splits)
      obtain w where w: "map_of kvs rk = Some w" "region_conf rk rn w" using parallel(4) r(1) by blast
      have l: "map_of (sn_states n) rk = Some rn" using r(1) Node.prems(2) by simp
      have "(s, e) \<in> set (searchInSubtree ev rn (region_sub rn w))"
        using r(2) w(1) by (simp add: region_sub_def split: if_splits)
      from child [OF l region_conf_sub [OF w(2)] this]
      obtain qs where "handles rn (region_sub rn w) ev qs s e" by blast
      then have "handles n sub ev (rk # qs) s e"
        using parallel l w(1) by (simp add: handles_def active_region)
      then show ?thesis by blast
    qed (rule self)
  qed
qed

lemma search_complete:
  "conf n sub \<Longrightarrow> handles n sub ev qs s e \<Longrightarrow> searchInSubtree ev n sub \<noteq> []"
proof (induction qs arbitrary: n sub)
  case Nil
  then have self: "self_match ev n \<noteq> []" by (auto simp: handles_def self_match_def)
  from Nil.prems(1) show ?case
    by (cases rule: conf_cases) (use self in \<open>auto simp: search_leaf search_compound search_parallel Let_def\<close>)
next
  case (Cons q qs)
  from Cons.prems(1) show ?case
  proof (cases rule: conf_cases)
    case leaf
    then show ?thesis using Cons.prems(2) by (simp add: handles_leaf)
  next
    case (compound k c t)
    then have "handles c t ev qs s e" using Cons.prems(2) by (auto simp: handles_def active_child)
    then show ?thesis using Cons.IH compound by (simp add: search_compound)
  next
    case (parallel kvs)
    from Cons.prems(2) obtain rn where rn: "map_of (sn_states n) q = Some rn"
      by (auto simp: handles_def split: option.splits)
    then obtain w where w: "map_of kvs q = Some w" "region_conf q rn w"
      using parallel(4) map_of_SomeD [OF rn] by blast
    have "handles rn (region_sub rn w) ev qs s e"
      using Cons.prems(2) rn parallel w(1) by (simp add: handles_def active_region)
    then have "searchInSubtree ev rn (region_sub rn w) \<noteq> []"
      using Cons.IH region_conf_sub [OF w(2)] by blast
    then have "searchInSubtree ev rn (if leaf_type (sn_type rn) then None else map_of kvs q) \<noteq> []"
      using w(1) by (simp add: region_sub_def split: if_splits)
    with map_of_SomeD [OF rn] show ?thesis
      using parallel by (auto simp: search_parallel Let_def)
  qed
qed

text \<open>The top-level dispatch is a search below the machine's root, which handles nothing itself.\<close>

lemma map_aligned:
  "keys xs = keys ys \<Longrightarrow> distinct (keys ys) \<Longrightarrow>
     (\<And>k v w. map_of xs k = Some v \<Longrightarrow> map_of ys k = Some w \<Longrightarrow> f (k, v) = g (k, w)) \<Longrightarrow>
     map f xs = map g ys"
proof (induction xs arbitrary: ys)
  case (Cons x xs)
  then obtain k v w ys' where x: "x = (k, v)" "ys = (k, w) # ys'" "keys xs = keys ys'"
    "distinct (keys ys')" "k \<notin> set (keys ys')"
    by (cases x; cases ys) auto
  have "map f xs = map g ys'"
  proof (rule Cons.IH [OF x(3,4)])
    fix k' v' w' assume "map_of xs k' = Some v'" "map_of ys' k' = Some w'"
    moreover from this have "k' \<in> set (keys ys')" by (force dest: map_of_SomeD)
    then have "k' \<noteq> k" using x(5) by auto
    ultimately show "f (k', v') = g (k', w')" using Cons.prems(3) [of k' v' w'] x by simp
  qed
  moreover have "f (k, v) = g (k, w)" using Cons.prems(3) [of k v w] x by simp
  ultimately show ?case using x by simp
qed simp

lemma root_node_on [simp]: "sn_on (root_node m) = []"
  by (simp add: root_node_def split: root_type.splits)

lemma resolve_root_search:
  assumes m: "machine_ok m" "conf_root m sv"
  shows "resolveTransitionsForEvent m sv ev = searchInSubtree ev (root_node m) (Some sv)"
proof -
  let ?n = "root_node m"
  have f: "forest_ok [] (md_states m)" by (rule machine_forest [OF m(1)])
  note up = root_lookup [OF f]
  have self: "self_match ev ?n = []" by (simp add: self_match_def)
  from m(2) have "conf ?n (Some sv)" by (simp add: conf_root_def)
  then show ?thesis
  proof (cases rule: conf_cases)
    case leaf
    then show ?thesis by simp
  next
    case (compound k c t)
    then show ?thesis
      using up [OF compound(2)] conf_leaf [of c t] self search_compound [OF compound(1,2), of ev t]
      by (cases t) (auto simp: resolveTransitionsForEvent_def child_value_def)
  next
    case (parallel kvs)
    have d: "distinct (keys (sn_states ?n))" using root_forest [OF f] by (simp add: forest_ok_def)
    let ?F = "\<lambda>(topKey, topSubVal). case map_of (md_states m) topKey of None \<Rightarrow> []
        | Some rootChild \<Rightarrow> searchInSubtree ev rootChild
            (if leaf_type (sn_type rootChild) then None else Some topSubVal)"
    let ?G = "\<lambda>(rk, rn). searchInSubtree ev rn (if leaf_type (sn_type rn) then None else map_of kvs rk)"
    have "map ?F kvs = map ?G (sn_states ?n)"
      by (rule map_aligned [OF parallel(3) d]) (simp add: up)
    then show ?thesis
      using parallel self by (simp add: resolveTransitionsForEvent_def search_parallel Let_def)
  qed
qed

lemma sub_node_root:
  assumes "machine_ok m" "sub_node (root_node m) qs = Some s" "qs \<noteq> []"
  shows "node_at m qs = Some s"
proof -
  obtain q rs where q: "qs = q # rs" using assms(3) by (cases qs) auto
  then obtain c where "map_of (sn_states (root_node m)) q = Some c"
    using assms(2) by (auto split: option.splits)
  with root_lookup [OF machine_forest [OF assms(1)] this] assms(2) q show ?thesis
    by (simp add: node_at_def sub_node_def)
qed

lemma resolve_sound_path:
  assumes m: "machine_ok m" "conf_root m sv" and r: "(s, e) \<in> set (resolveTransitionsForEvent m sv ev)"
  shows "\<exists>qs. active_path m sv qs \<and> node_at m qs = Some s \<and> sn_path s = join_dot qs \<and>
    (\<forall>k \<in> set qs. wf_key k) \<and> map_of (sn_on s) ev = Some e"
proof -
  have f: "forest_ok [] (sn_states (root_node m))" by (rule root_forest [OF machine_forest [OF m(1)]])
  have "conf (root_node m) (Some sv)" "(s, e) \<in> set (searchInSubtree ev (root_node m) (Some sv))"
    using m r resolve_root_search [OF m] by (auto simp: conf_root_def)
  from search_sound [OF this(1) _ f this(2)] f obtain qs where
    h: "handles (root_node m) (Some sv) ev qs s e"
    by (auto simp: forest_ok_def)
  then have "qs \<noteq> []" by (cases qs) (auto simp: handles_def)
  then have "node_at m qs = Some s" using sub_node_root [OF m(1)] h by (simp add: handles_def)
  with node_at_tree [OF m(1) this] h show ?thesis by (auto simp: handles_def active_path_def)
qed

lemma resolve_complete_path:
  assumes m: "machine_ok m" "conf_root m sv"
    and "active_path m sv qs" "node_at m qs = Some s" "map_of (sn_on s) ev = Some e"
  shows "resolveTransitionsForEvent m sv ev \<noteq> []"
proof -
  have "qs \<noteq> []" using assms(4) by (auto simp: node_at_def)
  then have "sub_node (root_node m) qs = Some s"
    using root_walk [OF m(1) assms(3) _ m(2)] assms(4)
      walk_parts_current [of qs _ None "Some (root_node m)"]
    by (simp add: sub_node_def)
  then have "handles (root_node m) (Some sv) ev qs s e"
    using assms(3,5) by (simp add: handles_def active_path_def)
  with search_complete [of "root_node m" "Some sv"] m(2) show ?thesis
    by (simp add: resolve_root_search [OF m] conf_root_def)
qed

section \<open>Active leaves\<close>

text \<open>The active leaves of a value below a node, as a walk of the tree: the reference for the path strings.\<close>

fun active_leaves :: "state_node \<Rightarrow> state_value option \<Rightarrow> string list list" where
  "active_leaves (StateNode k path ty desc init en ex on od sts imp) sub =
     (case ty of
        Atomic \<Rightarrow> [[]]
      | Final \<Rightarrow> [[]]
      | Compound \<Rightarrow>
          (case sub of
             Some (SLeaf s) \<Rightarrow>
               (case map_of sts s of Some c \<Rightarrow> map (Cons s) (active_leaves c None) | None \<Rightarrow> [])
           | Some (SMap kvs) \<Rightarrow>
               concat (map (\<lambda>(ck, v). case map_of sts ck of
                 Some c \<Rightarrow> map (Cons ck) (active_leaves c (Some v)) | None \<Rightarrow> []) kvs)
           | None \<Rightarrow> [])
      | Parallel \<Rightarrow>
          concat (map (\<lambda>(rk, rn). map (Cons rk) (active_leaves rn
            (if leaf_type (sn_type rn) then None
             else (case sub of Some (SMap kvs) \<Rightarrow> map_of kvs rk | _ \<Rightarrow> None)))) sts))"

lemma active_leaves_leaf: "leaf_type (sn_type n) \<Longrightarrow> active_leaves n sub = [[]]"
  by (cases n) (auto simp: leaf_type_def)

lemma active_leaves_compound:
  "sn_type n = Compound \<Longrightarrow> map_of (sn_states n) k = Some c \<Longrightarrow>
     active_leaves n (Some (child_value k t)) = map (Cons k) (active_leaves c t)"
  by (cases n; cases t) (auto simp: child_value_def)

lemma active_leaves_parallel:
  "sn_type n = Parallel \<Longrightarrow>
     active_leaves n (Some (SMap kvs)) =
       concat (map (\<lambda>(rk, rn). map (Cons rk) (active_leaves rn
         (if leaf_type (sn_type rn) then None else map_of kvs rk))) (sn_states n))"
  by (cases n) (simp cong: if_cong)

lemma list_all2_aligned:
  "keys xs = keys ys \<Longrightarrow> distinct (keys ys) \<Longrightarrow>
     (\<And>k v w. map_of xs k = Some v \<Longrightarrow> map_of ys k = Some w \<Longrightarrow> R (f (k, v)) (g (k, w))) \<Longrightarrow>
     list_all2 R (map f xs) (map g ys)"
proof (induction xs arbitrary: ys)
  case (Cons x xs)
  then obtain k v w ys' where x: "x = (k, v)" "ys = (k, w) # ys'" "keys xs = keys ys'"
    "distinct (keys ys')" "k \<notin> set (keys ys')"
    by (cases x; cases ys) auto
  have "list_all2 R (map f xs) (map g ys')"
  proof (rule Cons.IH [OF x(3,4)])
    fix k' v' w' assume "map_of xs k' = Some v'" "map_of ys' k' = Some w'"
    moreover from this have "k' \<in> set (keys ys')" by (force dest: map_of_SomeD)
    then have "k' \<noteq> k" using x(5) by auto
    ultimately show "R (f (k', v')) (g (k', w'))" using Cons.prems(3) [of k' v' w'] x by simp
  qed
  moreover have "R (f (k, v)) (g (k, w))" using Cons.prems(3) [of k v w] x by simp
  ultimately show ?case using x by simp
qed simp

lemma list_all2_concat:
  "list_all2 (list_all2 R) xss yss \<Longrightarrow> list_all2 R (concat xss) (concat yss)"
  by (induction rule: list_all2_induct) (auto intro: list_all2_appendI)

text \<open>No parallel state, the root included, has a leaf as a region.\<close>

fun no_leaf_regions :: "state_node \<Rightarrow> bool" where
  "no_leaf_regions (StateNode k path ty desc init en ex on od sts imp) \<longleftrightarrow>
     (ty = Parallel \<longrightarrow> list_all (\<lambda>(rk, rn). \<not> leaf_type (sn_type rn)) sts) \<and>
     list_all (\<lambda>(ck, c). no_leaf_regions c) sts"

definition regions_compound :: "machine \<Rightarrow> bool" where
  "regions_compound m \<longleftrightarrow> no_leaf_regions (root_node m)"

text \<open>
  A leaf path of the code: the dotted path of the active leaf, or that path with the last key
  repeated, which the code produces for a leaf that is a region.
\<close>

definition leaf_match :: "machine \<Rightarrow> string list \<Rightarrow> string \<Rightarrow> string list \<Rightarrow> bool" where
  "leaf_match m ps s qs \<longleftrightarrow> s = join_dot (ps @ qs) \<or>
     \<not> regions_compound m \<and> s = join_dot (ps @ qs @ [last (ps @ qs)])"

lemma leaf_match_Cons: "leaf_match m ps s (k # qs) \<longleftrightarrow> leaf_match m (ps @ [k]) s qs"
  by (simp add: leaf_match_def)

lemma list_all2_leaf_match_Cons:
  "list_all2 (leaf_match m ps) ss (map (Cons k) qss) \<longleftrightarrow> list_all2 (leaf_match m (ps @ [k])) ss qss"
  by (simp add: list_all2_map2 leaf_match_Cons)

lemma no_leaf_regions_sub:
  "no_leaf_regions n \<Longrightarrow> map_of (sn_states n) k = Some c \<Longrightarrow>
     no_leaf_regions c \<and> (sn_type n = Parallel \<longrightarrow> \<not> leaf_type (sn_type c))"
  by (cases n) (auto simp: list_all_iff dest!: map_of_SomeD)

lemma sub_path_join:
  "\<forall>p \<in> set ps. wf_key p \<Longrightarrow> ps \<noteq> [] \<Longrightarrow> sub_path (join_dot ps) k = join_dot (ps @ [k])"
  using join_dot_eq_Nil [of ps] by (simp add: sub_path_def path_simps)

definition entry_match :: "machine \<Rightarrow> state_node \<Rightarrow> bool" where
  "entry_match m n \<longleftrightarrow>
     (\<forall>ps v. node_at m ps = Some n \<longrightarrow> conf n (Some v) \<longrightarrow>
        list_all2 (leaf_match m ps) (entry_leaf_paths m (join_dot ps) v) (active_leaves n (Some v)))"

definition region_match :: "machine \<Rightarrow> state_node \<Rightarrow> bool" where
  "region_match m n \<longleftrightarrow>
     (\<forall>ps k v. node_at m ps = Some n \<longrightarrow> region_conf k n v \<longrightarrow>
        list_all2 (leaf_match m ps) (region_leaf_paths m (join_dot ps) v)
          (active_leaves n (region_sub n v)))"

text \<open>A region value reached without the region check: exact unless the region is a leaf.\<close>

lemma entry_of_region:
  assumes "entry_match m rn" "node_at m (ps @ [rk]) = Some rn" "region_conf rk rn w" "machine_ok m"
    "regions_compound m \<longrightarrow> \<not> leaf_type (sn_type rn)"
  shows "list_all2 (leaf_match m (ps @ [rk])) (entry_leaf_paths m (join_dot (ps @ [rk])) w)
    (active_leaves rn (region_sub rn w))"
proof (cases "leaf_type (sn_type rn)")
  case True
  then have w: "w = SLeaf rk" using assms(3) by (simp add: region_conf_def)
  have "sub_path (join_dot (ps @ [rk])) rk = join_dot (ps @ [rk, rk])"
    using sub_path_join [of "ps @ [rk]" rk] node_at_tree(1,2) [OF assms(4,2)] by simp
  then show ?thesis
    using True assms(5) w by (simp add: active_leaves_leaf leaf_match_def)
next
  case False
  then have "conf rn (Some w)" "region_sub rn w = Some w"
    using assms(3) by (simp_all add: region_conf_def region_sub_def)
  then show ?thesis using assms(1,2) by (auto simp: entry_match_def)
qed

lemma concat_regions_match:
  assumes "keys kvs = keys sts" "distinct (keys sts)"
    "\<And>rk rn. (rk, rn) \<in> set sts \<Longrightarrow> \<exists>w. map_of kvs rk = Some w \<and> region_conf rk rn w"
    "\<And>rk rn w. map_of sts rk = Some rn \<Longrightarrow> map_of kvs rk = Some w \<Longrightarrow> region_conf rk rn w \<Longrightarrow>
       list_all2 (leaf_match m (ps @ [rk])) (F rk w) (active_leaves rn (region_sub rn w))"
  shows "list_all2 (leaf_match m ps) (concat (map (\<lambda>(rk, w). F rk w) kvs))
    (concat (map (\<lambda>(rk, rn). map (Cons rk) (active_leaves rn
       (if leaf_type (sn_type rn) then None else map_of kvs rk))) sts))"
proof (rule list_all2_concat, rule list_all2_aligned [OF assms(1,2)])
  fix rk w rn assume l: "map_of kvs rk = Some w" "map_of sts rk = Some rn"
  then have "region_conf rk rn w" using assms(3) map_of_SomeD [OF l(2)] by fastforce
  from assms(4) [OF l(2,1) this]
  show "list_all2 (leaf_match m ps) (case (rk, w) of (rk, w) \<Rightarrow> F rk w)
    (case (rk, rn) of (rk, rn) \<Rightarrow> map (Cons rk) (active_leaves rn
       (if leaf_type (sn_type rn) then None else map_of kvs rk)))"
    using l by (simp add: list_all2_leaf_match_Cons region_sub_def split: if_splits)
qed

lemma leaf_paths_match:
  assumes m: "machine_ok m"
  shows "(regions_compound m \<longrightarrow> no_leaf_regions n) \<Longrightarrow> entry_match m n \<and> region_match m n"
proof (induction n rule: state_node_induct)
  case (Node n)
  have IH: "entry_match m c" "region_match m c"
    "regions_compound m \<longrightarrow> sn_type n = Parallel \<longrightarrow> \<not> leaf_type (sn_type c)"
    if "map_of (sn_states n) k = Some c" for k c
    using Node.IH [OF that] Node.prems no_leaf_regions_sub [OF _ that] by auto
  have child: "node_at m (ps @ [k]) = Some c"
    if "node_at m ps = Some n" "map_of (sn_states n) k = Some c" for ps k c
    using here_child [OF that(1) node_at_tree(1) [OF m that(1)]] that(2) by (simp add: here_def)
  have "entry_match m n"
    unfolding entry_match_def
  proof (intro allI impI)
    fix ps v assume at: "node_at m ps = Some n" and cf: "conf n (Some v)"
    note t = node_at_tree [OF m at]
    note sp = sub_path_join [OF t(2,1)] and get = getNodeByPath_at [OF m at]
    from cf show "list_all2 (leaf_match m ps) (entry_leaf_paths m (join_dot ps) v)
        (active_leaves n (Some v))"
    proof (cases rule: conf_cases)
      case (compound k c s)
      show ?thesis
      proof (cases s)
        case None
        then have "leaf_type (sn_type c)" using compound(4) by (simp add: conf_None)
        then show ?thesis using compound None sp
          by (simp add: active_leaves_compound active_leaves_leaf child_value_def
              leaf_match_def active_leaves_compound [unfolded child_value_def, of _ _ _ "None", simplified])
      next
        case (Some w)
        then have "list_all2 (leaf_match m (ps @ [k])) (entry_leaf_paths m (join_dot (ps @ [k])) w)
            (active_leaves c (Some w))"
          using IH(1) [OF compound(2)] child [OF at compound(2)] compound(4) by (simp add: entry_match_def)
        then show ?thesis
          using compound Some sp get active_leaves_compound [OF compound(1,2), of "Some w"]
          by (simp add: child_value_def is_parallel_node_def list_all2_leaf_match_Cons)
      qed
    next
      case (parallel kvs)
      have "list_all2 (leaf_match m ps)
        (concat (map (\<lambda>(rk, w). region_leaf_paths m (join_dot (ps @ [rk])) w) kvs))
        (concat (map (\<lambda>(rk, rn). map (Cons rk) (active_leaves rn
           (if leaf_type (sn_type rn) then None else map_of kvs rk))) (sn_states n)))"
        using t(5) parallel(4) IH(2) child [OF at]
        by (intro concat_regions_match [OF parallel(3)]) (auto simp: forest_ok_def region_match_def)
      then show ?thesis
        using parallel get t(1) by (simp add: is_parallel_node_def active_leaves_parallel path_simps)
    qed simp
  qed
  moreover have "region_match m n"
    unfolding region_match_def
  proof (intro allI impI)
    fix ps k v assume at: "node_at m ps = Some n" and rc: "region_conf k n v"
    note t = node_at_tree [OF m at]
    note sp = sub_path_join [OF t(2,1)] and get = getNodeByPath_at [OF m at]
    have eq: "list_all2 (leaf_match m ps) (region_leaf_paths m (join_dot ps) v)
        (active_leaves n (region_sub n v))" if "leaf_type (sn_type n)"
      using that get by (cases v) (simp_all add: active_leaves_leaf leaf_match_def is_leaf_node_def)
    show "list_all2 (leaf_match m ps) (region_leaf_paths m (join_dot ps) v)
        (active_leaves n (region_sub n v))"
    proof (cases "leaf_type (sn_type n)")
      case False
      then have cf: "conf n (Some v)" "region_sub n v = Some v"
        using rc by (simp_all add: region_conf_def region_sub_def)
      from cf(1) show ?thesis
      proof (cases rule: conf_cases)
        case (compound ck c s)
        show ?thesis
        proof (cases s)
          case None
          then have "leaf_type (sn_type c)" using compound(4) by (simp add: conf_None)
          then show ?thesis using compound None False t(1) cf(2) get
              active_leaves_compound [OF compound(1,2), of None]
            by (simp add: active_leaves_leaf child_value_def leaf_match_def path_simps is_leaf_node_def)
        next
          case (Some w)
          then have "list_all2 (leaf_match m (ps @ [ck])) (entry_leaf_paths m (join_dot (ps @ [ck])) w)
              (active_leaves c (Some w))"
            using IH(1) [OF compound(2)] child [OF at compound(2)] compound(4) by (simp add: entry_match_def)
          then show ?thesis
            using compound Some sp get False cf(2) active_leaves_compound [OF compound(1,2), of "Some w"]
            by (simp add: child_value_def is_leaf_node_def list_all2_leaf_match_Cons)
        qed
      next
        case (parallel kvs)
        have "list_all2 (leaf_match m ps)
          (concat (map (\<lambda>(rk, w). entry_leaf_paths m (join_dot (ps @ [rk])) w) kvs))
          (concat (map (\<lambda>(rk, rn). map (Cons rk) (active_leaves rn
             (if leaf_type (sn_type rn) then None else map_of kvs rk))) (sn_states n)))"
          using t(5) parallel(1,4) IH(1,3) child [OF at] m
          by (intro concat_regions_match [OF parallel(3)] entry_of_region) (auto simp: forest_ok_def)
        then show ?thesis
          using parallel get sp False cf(2) by (simp add: is_leaf_node_def active_leaves_parallel)
      qed simp
    qed (rule eq)
  qed
  ultimately show ?case ..
qed

definition machine_leaves :: "machine \<Rightarrow> state_value \<Rightarrow> string list list" where
  "machine_leaves m sv = active_leaves (root_node m) (Some sv)"

lemma getActiveLeafPaths_match:
  assumes m: "machine_ok m" "conf_root m sv"
  shows "list_all2 (leaf_match m []) (getActiveLeafPaths m sv []) (machine_leaves m sv)"
proof -
  let ?n = "root_node m"
  have f: "forest_ok [] (sn_states ?n)" by (rule root_forest [OF machine_forest [OF m(1)]])
  have nl: "regions_compound m \<longrightarrow> no_leaf_regions ?n" by (simp add: regions_compound_def)
  have IH: "entry_match m c" "node_at m [k] = Some c"
    "regions_compound m \<longrightarrow> sn_type ?n = Parallel \<longrightarrow> \<not> leaf_type (sn_type c)"
    if "map_of (sn_states ?n) k = Some c" for k c
    using leaf_paths_match [OF m(1), of c] nl no_leaf_regions_sub [OF _ that] here_root [OF m(1)] that
    by (auto simp: here_def)
  from m(2) have "conf ?n (Some sv)" by (simp add: conf_root_def)
  then show ?thesis
  proof (cases rule: conf_cases)
    case (compound k c s)
    show ?thesis
    proof (cases s)
      case None
      then have "leaf_type (sn_type c)" using compound(4) by (simp add: conf_None)
      then show ?thesis using compound None active_leaves_compound [OF compound(1,2), of None]
        by (simp add: machine_leaves_def active_leaves_leaf child_value_def leaf_match_def sub_path_def)
    next
      case (Some w)
      then have "list_all2 (leaf_match m [k]) (entry_leaf_paths m (join_dot [k]) w)
          (active_leaves c (Some w))"
        using IH [OF compound(2)] compound(4) unfolding entry_match_def by blast
      then show ?thesis
        using compound Some active_leaves_compound [OF compound(1,2), of "Some w"]
          list_all2_leaf_match_Cons [of m "[]"]
        by (simp add: machine_leaves_def child_value_def sub_path_def)
    qed
  next
    case (parallel kvs)
    have "list_all2 (leaf_match m [])
      (concat (map (\<lambda>(rk, w). entry_leaf_paths m (join_dot ([] @ [rk])) w) kvs))
      (concat (map (\<lambda>(rk, rn). map (Cons rk) (active_leaves rn
         (if leaf_type (sn_type rn) then None else map_of kvs rk))) (sn_states ?n)))"
      using f parallel(1,4) IH m(1)
      by (intro concat_regions_match [OF parallel(3)] entry_of_region) (auto simp: forest_ok_def)
    then show ?thesis
      using parallel by (simp add: machine_leaves_def active_leaves_parallel sub_path_def)
  qed simp
qed

lemma getActiveLeafPaths_exact:
  assumes "machine_ok m" "conf_root m sv" "regions_compound m"
  shows "getActiveLeafPaths m sv [] = map join_dot (machine_leaves m sv)"
  using getActiveLeafPaths_match [OF assms(1,2)] assms(3)
  by (simp add: leaf_match_def list_all2_conv_all_nth list_eq_iff_nth_eq)

end
