(* ===== verification/Completion.thy ===== *)
theory Completion
  imports StatechartInv
begin

text \<open>
  What the engine reports about a legal configuration: the available events are exactly the events
  that dispatch to an edge, the settled status is \<open>COMPLETED\<close> only when every active leaf is a final
  state, and the exit effects of a transition run once for every active state at or below the
  exited root.
\<close>

section \<open>Active leaves and active states\<close>

lemma region_leaves_mem:
  assumes "distinct (keys sts)" "map_of sts q = Some rn"
  shows "q # rs \<in> set (concat (map (\<lambda>(rk, rn). map (Cons rk) (F rk rn)) sts)) \<longleftrightarrow> rs \<in> set (F q rn)"
proof -
  have "rn' = rn" if "(q, rn') \<in> set sts" for rn'
    using map_of_is_SomeI [OF assms(1) that] assms(2) by simp
  then have u: "(q, r) \<in> set sts \<longleftrightarrow> r = rn" for r using map_of_SomeD [OF assms(2)] by blast
  have "q # rs \<in> Cons rk ` S \<longleftrightarrow> rk = q \<and> rs \<in> S" for rk S by auto
  then have "q # rs \<in> set (concat (map (\<lambda>(rk, rn). map (Cons rk) (F rk rn)) sts)) \<longleftrightarrow>
      (\<exists>r. (q, r) \<in> set sts \<and> rs \<in> set (F q r))"
    by (simp add: case_prod_unfold) (metis fst_conv snd_conv surjective_pairing)
  then show ?thesis using u by simp
qed

lemma active_leaves_set:
  "conf n sub \<Longrightarrow> forest_ok pre (sn_states n) \<Longrightarrow> qs \<in> set (active_leaves n sub) \<longleftrightarrow>
     active_below n sub qs \<and> (\<exists>s. sub_node n qs = Some s \<and> leaf_type (sn_type s))"
proof (induction n arbitrary: sub pre qs rule: state_node_induct)
  case (Node n)
  note IH = Node.IH [OF _ _ forest_ok_child [OF Node.prems(2)]]
  from Node.prems(1) show ?case
  proof (cases rule: conf_cases)
    case leaf
    then show ?thesis by (cases qs) (auto simp: active_leaves_leaf dest: active_leaf_end)
  next
    case (compound k c t)
    then show ?thesis using IH [OF compound(2,4) compound(2)]
      by (cases qs) (auto simp: active_leaves_compound active_child leaf_type_def)
  next
    case (parallel kvs)
    have d: "distinct (keys (sn_states n))" using Node.prems(2) by (simp add: forest_ok_def)
    show ?thesis
    proof (cases qs)
      case Nil
      then show ?thesis using parallel by (auto simp: active_leaves_parallel leaf_type_def)
    next
      case (Cons q rs)
      show ?thesis
      proof (cases "map_of (sn_states n) q")
        case None
        then have "q \<notin> set (keys (sn_states n))" by (simp add: map_of_eq_None_iff)
        then have "qs \<notin> set (active_leaves n sub)"
          using Cons parallel by (force simp: active_leaves_parallel)
        then show ?thesis using Cons None by simp
      next
        case (Some rn)
        then obtain w where w: "map_of kvs q = Some w" "region_conf q rn w"
          using parallel(4) map_of_SomeD [OF Some] by blast
        have eq: "(if leaf_type (sn_type rn) then None else map_of kvs q) = region_sub rn w"
          using w(1) by (simp add: region_sub_def)
        have "qs \<in> set (active_leaves n sub) \<longleftrightarrow> rs \<in> set (active_leaves rn (region_sub rn w))"
          using region_leaves_mem [OF d Some] eq
          unfolding Cons parallel(2) active_leaves_parallel [OF parallel(1)] by simp
        then show ?thesis
          using IH [OF Some region_conf_sub [OF w(2)] Some] Cons parallel Some w(1)
          by (simp add: active_region)
      qed
    qed
  qed
qed

lemma active_extends:
  "conf n sub \<Longrightarrow> shape_ok n \<Longrightarrow> active_below n sub qs \<Longrightarrow> distinct (keys (sn_states n)) \<Longrightarrow>
     forest_ok pre (sn_states n) \<Longrightarrow> \<exists>rs. qs @ rs \<in> set (active_leaves n sub)"
proof (induction n arbitrary: sub qs pre rule: state_node_induct)
  case (Node n)
  have IH: "\<exists>rs. ts @ rs \<in> set (active_leaves c t)"
    if "map_of (sn_states n) k = Some c" "conf c t" "active_below c t ts" for k c t ts
    using Node.IH [OF that(1,2) shape_ok_child [OF Node.prems(2) that(1)] that(3)]
      forest_ok_child [OF Node.prems(5) that(1)]
    by (auto simp: forest_ok_def)
  from Node.prems(1) show ?case
  proof (cases rule: conf_cases)
    case leaf
    then show ?thesis using Node.prems(3) by (auto simp: active_leaves_leaf dest: active_leaf_end)
  next
    case (compound k c t)
    have "active_below c t (tl qs)" "qs = [] \<or> hd qs = k"
      using Node.prems(3) compound by (cases qs; simp add: active_child)+
    with IH [OF compound(2,4), of "tl qs"] compound show ?thesis
      by (cases qs) (auto simp: active_leaves_compound)
  next
    case (parallel kvs)
    obtain q rn w where q: "map_of (sn_states n) q = Some rn" "map_of kvs q = Some w"
      "region_conf q rn w" "active_below rn (region_sub rn w) (tl qs)" "qs = [] \<or> hd qs = q"
    proof (cases qs)
      case Nil
      have "sn_states n \<noteq> []" using Node.prems(2) parallel(1) by (cases n) simp
      then obtain q rn where r: "(q, rn) \<in> set (sn_states n)" by (cases "sn_states n") auto
      then have "map_of (sn_states n) q = Some rn" using Node.prems(4) by simp
      with parallel(4) [OF r] that Nil show thesis by auto
    next
      case (Cons q ts)
      then obtain rn where r: "map_of (sn_states n) q = Some rn"
        using Node.prems(3) by (auto simp: active_below.simps(2) split: option.splits)
      with parallel(4) [OF map_of_SomeD [OF r]] Node.prems(3) Cons that parallel show thesis
        by (auto simp: active_region)
    qed
    from IH [OF q(1) region_conf_sub [OF q(3)] q(4)] obtain rs where
      "tl qs @ rs \<in> set (active_leaves rn (region_sub rn w))" by blast
    then have "q # (tl qs @ rs) \<in> set (active_leaves n sub)"
      using parallel map_of_SomeD [OF q(1)] q(2)
      by (force simp: active_leaves_parallel region_sub_def split: if_splits)
    then show ?thesis using q(5) by (cases qs) auto
  qed
qed

lemma active_extends_root:
  assumes m: "machine_ok m" "conf_root m sv" "active_path m sv qs" "qs \<noteq> []"
  shows "\<exists>rs. qs @ rs \<in> set (machine_leaves m sv)"
proof -
  let ?n = "root_node m"
  have f: "forest_ok [] (sn_states ?n)" by (rule root_forest [OF machine_forest [OF m(1)]])
  then have d: "distinct (keys (sn_states ?n))" by (simp add: forest_ok_def)
  obtain q ts where q: "qs = q # ts" using m(4) by (cases qs) auto
  have IH: "\<exists>rs. ts @ rs \<in> set (active_leaves c t)"
    if l: "map_of (sn_states ?n) k = Some c" and "conf c t" "active_below c t ts" for k c t
    using active_extends [OF that(2) _ that(3), of "[k]"] forest_ok_child [OF f l]
      root_shape(1) [OF m(1) root_lookup [OF machine_forest [OF m(1)] l]]
    by (auto simp: forest_ok_def)
  from m(2) have "conf ?n (Some sv)" by (simp add: conf_root_def)
  then show ?thesis
  proof (cases rule: conf_cases)
    case (compound k c t)
    then have "q = k" "active_below c t ts" using m(3) q by (simp_all add: active_path_def active_child)
    with IH [OF compound(2,4)] compound q show ?thesis
      by (auto simp: machine_leaves_def active_leaves_compound)
  next
    case (parallel kvs)
    obtain rn where r: "map_of (sn_states ?n) q = Some rn"
      using m(3) q by (auto simp: active_path_def active_below.simps(2) split: option.splits)
    then obtain w where w: "map_of kvs q = Some w" "region_conf q rn w"
      using parallel(4) [OF map_of_SomeD [OF r]] by auto
    have "active_below rn (region_sub rn w) ts"
      using m(3) q r w(1) parallel by (simp add: active_path_def active_region)
    from IH [OF r region_conf_sub [OF w(2)] this] obtain rs where
      "ts @ rs \<in> set (active_leaves rn (region_sub rn w))" by blast
    then have "q # (ts @ rs) \<in> set (active_leaves ?n (Some sv))"
      using parallel map_of_SomeD [OF r] w(1)
      by (force simp: active_leaves_parallel region_sub_def split: if_splits)
    then show ?thesis using q by (auto simp: machine_leaves_def)
  qed simp
qed

lemma machine_leaves_active:
  assumes m: "machine_ok m" "conf_root m sv"
  shows "qs \<in> set (machine_leaves m sv) \<longleftrightarrow>
    active_path m sv qs \<and> (\<exists>s. node_at m qs = Some s \<and> leaf_type (sn_type s))"
proof -
  let ?n = "root_node m"
  have c: "conf ?n (Some sv)" using m(2) by (simp add: conf_root_def)
  have nl: "\<not> leaf_type (sn_type ?n)"
    by (cases "md_type m") (auto simp: leaf_type_def)
  have "sub_node ?n qs = node_at m qs" if "active_path m sv qs" "qs \<noteq> []"
    using root_walk [OF m(1) that m(2)] walk_parts_current [OF that(2), of _ "Some ?n" None]
    by (simp add: sub_node_def)
  moreover have "node_at m [] = None" by (simp add: node_at_def)
  ultimately show ?thesis
    using active_leaves_set [OF c root_forest [OF machine_forest [OF m(1)]]] nl
    unfolding machine_leaves_def active_path_def by (cases "qs = []"; cases "node_at m qs") auto
qed

section \<open>Available events\<close>

lemma node_at_shape_final: "machine_ok m \<Longrightarrow> node_at m ps = Some n \<Longrightarrow> sn_type n = Final \<Longrightarrow> sn_on n = []"
  using node_at_shape [of m ps n] by (cases n) auto

lemma leaf_no_child:
  "machine_ok m \<Longrightarrow> node_at m qs = Some s \<Longrightarrow> leaf_type (sn_type s) \<Longrightarrow> node_at m (qs @ [k]) = None"
proof -
  assume a: "machine_ok m" "node_at m qs = Some s" "leaf_type (sn_type s)"
  then have "sn_states s = []" using node_at_shape [OF a(1,2)] by (cases s) (auto simp: leaf_type_def)
  then show ?thesis using a(2) walk_parts_append [of qs] node_at_tree(1) [OF a(1,2)]
    by (simp add: node_at_def)
qed

definition prefix_nodes :: "machine \<Rightarrow> string list \<Rightarrow> (string list \<times> state_node) set" where
  "prefix_nodes m qs = {(p, n). \<exists>j. p = take j qs \<and> node_at m p = Some n}"

lemma match_parts:
  assumes "machine_ok m" "leaf_match m [] l qs" "node_at m qs = Some s"
  shows "path_parts l = qs \<or> path_parts l = qs @ [last qs]"
    "split_dot l = qs \<or> split_dot l = qs @ [last qs]"
proof -
  note t = node_at_tree(1,2) [OF assms(1,3)]
  then have "\<forall>k \<in> set (qs @ [last qs]). wf_key k" by simp
  with t assms(2) show "path_parts l = qs \<or> path_parts l = qs @ [last qs]"
    "split_dot l = qs \<or> split_dot l = qs @ [last qs]"
    using path_parts_join_dot [of qs] path_parts_join_dot [of "qs @ [last qs]"]
      split_dot_join_dot [of qs] split_dot_join_dot [of "qs @ [last qs]"]
    by (auto simp: leaf_match_def)
qed

lemma prefix_nodes_dup:
  assumes "machine_ok m" "node_at m qs = Some s" "leaf_type (sn_type s)"
  shows "prefix_nodes m (qs @ [last qs]) = prefix_nodes m qs"
proof -
  have "node_at m (take j (qs @ [last qs])) = Some n \<longleftrightarrow>
      take j (qs @ [last qs]) = take j qs \<and> node_at m (take j qs) = Some n" for j n
    using leaf_no_child [OF assms] by (cases "j \<le> length qs") auto
  note key = this
  show ?thesis
  proof (rule set_eqI, clarify)
    fix p n
    show "(p, n) \<in> prefix_nodes m (qs @ [last qs]) \<longleftrightarrow> (p, n) \<in> prefix_nodes m qs"
    proof
      assume "(p, n) \<in> prefix_nodes m (qs @ [last qs])"
      then show "(p, n) \<in> prefix_nodes m qs" using key unfolding prefix_nodes_def by blast
    next
      assume "(p, n) \<in> prefix_nodes m qs"
      then obtain j where j: "p = take j qs" "node_at m p = Some n" unfolding prefix_nodes_def by blast
      then have "p = take (min j (length qs)) (qs @ [last qs])" by (simp add: min_def)
      with j(2) show "(p, n) \<in> prefix_nodes m (qs @ [last qs])" unfolding prefix_nodes_def by blast
    qed
  qed
qed

lemma node_at_path:
  assumes "machine_ok m" "\<forall>k \<in> set ps. wf_key k"
  shows "getNodeByPath m (join_dot ps) = node_at m ps"
  using assms(2) by (simp add: getNodeByPath_def node_at_def path_simps)

lemma take_nonempty_ex:
  "(\<exists>j \<in> set (rev [1..<Suc (length ps)]). P (take j ps)) \<longleftrightarrow> (\<exists>j. take j ps \<noteq> [] \<and> P (take j ps))"
proof
  assume "\<exists>j. take j ps \<noteq> [] \<and> P (take j ps)"
  then obtain j where "take j ps \<noteq> []" "P (take j ps)" by auto
  then show "\<exists>j \<in> set (rev [1..<Suc (length ps)]). P (take j ps)"
    by (intro bexI [of _ "min j (length ps)"]) (cases ps; cases j; auto simp: min_def)+
qed (auto simp: Suc_le_eq)

lemma leaf_events_set:
  assumes "machine_ok m" "\<forall>k \<in> set (path_parts l). wf_key k"
  shows "ev \<in> set (leaf_events m l) \<longleftrightarrow>
    (\<exists>(p, n) \<in> prefix_nodes m (path_parts l). ev \<in> set (keys (sn_on n)))"
proof -
  let ?ps = "path_parts l"
  let ?P = "\<lambda>p. \<exists>n. node_at m p = Some n \<and> ev \<in> set (keys (sn_on n))"
  have wf: "\<forall>k \<in> set (take j ?ps). wf_key k" for j using assms(2) set_take_subset by fastforce
  have "ev \<in> set (case getNodeByPath m (join_dot (take j ?ps)) of None \<Rightarrow> []
      | Some node \<Rightarrow> if sn_type node = Final then [] else keys (sn_on node)) \<longleftrightarrow> ?P (take j ?ps)" for j
    using node_at_shape_final [OF assms(1), of "take j ?ps"]
    by (cases "node_at m (take j ?ps)") (auto simp: node_at_path [OF assms(1) wf])
  moreover have ne: "take j ?ps \<noteq> []" if "?P (take j ?ps)" for j
    using that by (metis node_at_tree(1) [OF assms(1)])
  ultimately have "ev \<in> set (leaf_events m l) \<longleftrightarrow>
      (\<exists>j \<in> set (rev [1..<Suc (length ?ps)]). ?P (take j ?ps))"
    by (simp add: leaf_events_def Let_def del: upt_Suc)
  also have "\<dots> \<longleftrightarrow> (\<exists>j. ?P (take j ?ps))"
    unfolding take_nonempty_ex [of ?ps ?P] using ne by blast
  finally show ?thesis by (auto simp: prefix_nodes_def)
qed

lemma list_all2_in1: "list_all2 R xs ys \<Longrightarrow> x \<in> set xs \<Longrightarrow> \<exists>y \<in> set ys. R x y"
  by (induction rule: list_all2_induct) auto

lemma list_all2_in2: "list_all2 R xs ys \<Longrightarrow> y \<in> set ys \<Longrightarrow> \<exists>x \<in> set xs. R x y"
  by (induction rule: list_all2_induct) auto

lemma getAvailableEvents_iff:
  assumes m: "machine_ok m" "conf_root m sv"
  shows "ev \<in> set (getAvailableEvents m sv) \<longleftrightarrow> resolveTransitionsForEvent m sv ev \<noteq> []"
proof -
  let ?L = "getActiveLeafPaths m sv []" and ?A = "machine_leaves m sv"
  note lm = getActiveLeafPaths_match [OF m]
  have leaf: "ev \<in> set (leaf_events m l) \<longleftrightarrow>
      (\<exists>j n. node_at m (take j qs) = Some n \<and> ev \<in> set (keys (sn_on n)))"
    if "leaf_match m [] l qs" "qs \<in> set ?A" for l qs
  proof -
    from that(2) machine_leaves_active [OF m] obtain s where
      s: "node_at m qs = Some s" "leaf_type (sn_type s)" by auto
    note t = node_at_tree(1,2) [OF m(1) s(1)]
    have "prefix_nodes m (path_parts l) = prefix_nodes m qs" "\<forall>k \<in> set (path_parts l). wf_key k"
      using match_parts(1) [OF m(1) that(1) s(1)] prefix_nodes_dup [OF m(1) s] t by auto
    then show ?thesis using leaf_events_set [OF m(1), of l ev] unfolding prefix_nodes_def by auto
  qed
  show ?thesis
  proof
    assume "ev \<in> set (getAvailableEvents m sv)"
    then obtain l where l: "l \<in> set ?L" "ev \<in> set (leaf_events m l)"
      by (auto simp: getAvailableEvents_def)
    from list_all2_in1 [OF lm l(1)] obtain qs where qs: "qs \<in> set ?A" "leaf_match m [] l qs"
      by auto
    from l(2) leaf [OF qs(2,1)] obtain j n where
      n: "node_at m (take j qs) = Some n" "ev \<in> set (keys (sn_on n))" by auto
    then obtain e where e: "map_of (sn_on n) ev = Some e"
      by (metis map_of_eq_None_iff not_None_eq set_map)
    have "active_path m sv (take j qs @ drop j qs)"
      using qs(1) machine_leaves_active [OF m] by simp
    then have "active_path m sv (take j qs)"
      unfolding active_path_def by (rule active_prefix)
    from resolve_complete_path [OF m this n(1) e] show "resolveTransitionsForEvent m sv ev \<noteq> []" .
  next
    assume "resolveTransitionsForEvent m sv ev \<noteq> []"
    then obtain s e where "(s, e) \<in> set (resolveTransitionsForEvent m sv ev)"
      by (cases "resolveTransitionsForEvent m sv ev") auto
    from resolve_sound_path [OF m this] obtain qs where
      qs: "active_path m sv qs" "node_at m qs = Some s" "map_of (sn_on s) ev = Some e" by auto
    from active_extends_root [OF m qs(1) node_at_tree(1) [OF m(1) qs(2)]] obtain rs where
      rs: "qs @ rs \<in> set ?A" by auto
    from list_all2_in2 [OF lm this] obtain l where l: "l \<in> set ?L" "leaf_match m [] l (qs @ rs)"
      by auto
    have "ev \<in> set (keys (sn_on s))" using map_of_SomeD [OF qs(3)] by force
    then have "ev \<in> set (leaf_events m l)"
      using leaf [OF l(2) rs] qs(2) by (auto intro!: exI [of _ "length qs"] exI [of _ s])
    then show "ev \<in> set (getAvailableEvents m sv)" using l(1) by (auto simp: getAvailableEvents_def)
  qed
qed

section \<open>Settled status\<close>

lemma final_leaf_match:
  assumes m: "machine_ok m" "conf_root m sv" and q: "qs \<in> set (machine_leaves m sv)"
    and l: "leaf_match m [] l qs"
  shows "is_final_node (getNodeByPath m l) \<longrightarrow> is_final_node (node_at m qs)"
    "regions_compound m \<longrightarrow> getNodeByPath m l = node_at m qs"
proof -
  from q machine_leaves_active [OF m] obtain s where
    s: "node_at m qs = Some s" "leaf_type (sn_type s)" by auto
  note t = node_at_tree(1,2) [OF m(1) s(1)]
  have "node_at m (qs @ [last qs]) = None" by (rule leaf_no_child [OF m(1) s])
  moreover have "getNodeByPath m (join_dot (qs @ [last qs])) = node_at m (qs @ [last qs])"
    using t by (intro node_at_path [OF m(1)]) simp
  moreover have "getNodeByPath m (join_dot qs) = node_at m qs" by (rule node_at_path [OF m(1) t(2)])
  ultimately show "is_final_node (getNodeByPath m l) \<longrightarrow> is_final_node (node_at m qs)"
    "regions_compound m \<longrightarrow> getNodeByPath m l = node_at m qs"
    using l by (auto simp: leaf_match_def is_final_node_def)
qed

lemma list_all2_list_all:
  "list_all2 R xs ys \<Longrightarrow> (\<And>x y. R x y \<Longrightarrow> y \<in> set ys \<Longrightarrow> P x \<longrightarrow> Q y) \<Longrightarrow> list_all P xs \<Longrightarrow> list_all Q ys"
  by (auto simp: list_all2_conv_all_nth list_all_length)

lemma settled_completed_sound:
  assumes m: "machine_ok m" "conf_root m sv"
    and st: "resolveSettledTransactionStatus m sv wc = COMPLETED"
  shows "machine_leaves m sv \<noteq> [] \<and> list_all (\<lambda>qs. is_final_node (node_at m qs)) (machine_leaves m sv)"
proof -
  let ?L = "getActiveLeafPaths m sv []"
  note lm = getActiveLeafPaths_match [OF m]
  have L: "?L \<noteq> []" "list_all (\<lambda>l. is_final_node (getNodeByPath m l)) ?L"
    using st by (auto simp: resolveSettledTransactionStatus_def Let_def split: if_splits)
  have "list_all (\<lambda>qs. is_final_node (node_at m qs)) (machine_leaves m sv)"
    by (rule list_all2_list_all [OF lm _ L(2)]) (use final_leaf_match(1) [OF m] in blast)
  moreover have "machine_leaves m sv \<noteq> []" using lm L(1) by auto
  ultimately show ?thesis by simp
qed

lemma settled_completed_iff:
  assumes m: "machine_ok m" "conf_root m sv" "regions_compound m"
  shows "resolveSettledTransactionStatus m sv False = COMPLETED \<longleftrightarrow>
    sv \<noteq> SLeaf ''error'' \<and> machine_leaves m sv \<noteq> [] \<and>
    list_all (\<lambda>qs. is_final_node (node_at m qs)) (machine_leaves m sv)"
proof -
  have "getNodeByPath m (join_dot qs) = node_at m qs" if "qs \<in> set (machine_leaves m sv)" for qs
    using final_leaf_match(2) [OF m(1,2) that, of "join_dot qs"] m(3) by (simp add: leaf_match_def)
  then have "list_all (\<lambda>l. is_final_node (getNodeByPath m l)) (getActiveLeafPaths m sv []) \<longleftrightarrow>
      list_all (\<lambda>qs. is_final_node (node_at m qs)) (machine_leaves m sv)"
    by (simp add: getActiveLeafPaths_exact [OF m] list_all_iff)
  moreover have "map_of (md_states m) ''error'' \<noteq> None" using m(1) by (simp add: machine_ok_def)
  ultimately show ?thesis
    by (simp add: resolveSettledTransactionStatus_def Let_def getActiveLeafPaths_exact [OF m])
qed

section \<open>Exit effects\<close>

definition node_exit :: "machine \<Rightarrow> string \<Rightarrow> string list" where
  "node_exit m p = (case getNodeByPath m p of Some n \<Rightarrow> sn_exit n | None \<Rightarrow> [])"

definition exit_inv :: "machine \<Rightarrow> string list \<times> string list \<Rightarrow> bool" where
  "exit_inv m st \<longleftrightarrow> distinct (fst st) \<and> snd st = concat (map (node_exit m) (fst st))"

definition candidates :: "string \<Rightarrow> string list \<Rightarrow> nat \<Rightarrow> string set" where
  "candidates pre segs len =
     {join_dot (take j segs) | j. 1 \<le> j \<and> j \<le> len \<and> in_subtree pre (join_dot (take j segs))}"

lemma in_subtree_mono:
  assumes "in_subtree pre (join_dot (take j segs))" "1 \<le> j" "j \<le> k" "k \<le> length segs"
  shows "in_subtree pre (join_dot (take k segs))"
proof (cases "j = k")
  case False
  then have e: "take k segs = take j segs @ take (k - j) (drop j segs)"
    using assms(3) by (metis le_add_diff_inverse take_add)
  have "take j segs \<noteq> []" "take (k - j) (drop j segs) \<noteq> []" using assms False by auto
  then have "join_dot (take k segs) =
      join_dot (take j segs) @ dot @ join_dot (take (k - j) (drop j segs))"
    unfolding e by (rule join_dot_append)
  then show ?thesis using assms(1)
    unfolding in_subtree_def starts_with_iff by (metis append.assoc)
qed (use assms(1) in simp)

lemma candidates_none:
  assumes "\<not> in_subtree pre (join_dot (take len segs))" "len \<le> length segs"
  shows "candidates pre segs len = {}"
  using in_subtree_mono [of pre _ segs len] assms unfolding candidates_def by blast

lemma candidates_Suc:
  "candidates pre segs (Suc len) =
     (if in_subtree pre (join_dot (take (Suc len) segs)) then {join_dot (take (Suc len) segs)} else {})
     \<union> candidates pre segs len"
  unfolding candidates_def by (auto simp: le_Suc_eq)

lemma exit_walk_inv:
  "exit_inv m st \<Longrightarrow> len \<le> length segs \<Longrightarrow>
     exit_inv m (exit_walk m pre segs len st) \<and>
     set (fst (exit_walk m pre segs len st)) = set (fst st) \<union> candidates pre segs len"
proof (induction m pre segs len st rule: exit_walk.induct)
  case (1 m pre segs st)
  then show ?case by (simp add: candidates_def)
next
  case (2 m pre segs len visited exitEffects)
  let ?c = "join_dot (take (Suc len) segs)"
  let ?st = "if ?c \<in> set visited then (visited, exitEffects)
    else (visited @ [?c], exitEffects @ (case getNodeByPath m ?c of Some n \<Rightarrow> sn_exit n | None \<Rightarrow> []))"
  show ?case
  proof (cases "in_subtree pre ?c")
    case True
    have i: "exit_inv m ?st" using "2.prems"(1) by (auto simp: exit_inv_def node_exit_def)
    have e: "exit_walk m pre segs (Suc len) (visited, exitEffects) = exit_walk m pre segs len ?st"
      using True by (simp add: Let_def)
    have s: "set (fst ?st) = insert ?c (set visited)" by auto
    have n: "\<not> \<not> in_subtree pre ?c" using True by simp
    have "len \<le> length segs" using "2.prems"(2) by simp
    from "2.IH" [OF refl n i this] show ?thesis
      unfolding e s candidates_Suc using True by simp
  next
    case False
    then show ?thesis using "2.prems" candidates_none [OF False] by (simp add: Let_def)
  qed
qed

definition exit_step :: "machine \<Rightarrow> string \<Rightarrow> string \<Rightarrow> string list \<times> string list \<Rightarrow> string list \<times> string list" where
  "exit_step m pre leafPath st =
     (if \<not> in_subtree pre leafPath then st
      else (let segments = split_dot leafPath in exit_walk m pre segments (length segments) st))"

lemma collect_fold:
  "collectBottomUpExitEffects m sv pre = snd (fold (exit_step m pre) (getActiveLeafPaths m sv []) ([], []))"
  by (simp add: collectBottomUpExitEffects_def exit_step_def [abs_def])

lemma exit_step_inv:
  assumes "exit_inv m st" "join_dot (split_dot l) = l"
  shows "exit_inv m (exit_step m pre l st) \<and>
    set (fst (exit_step m pre l st)) = set (fst st) \<union> candidates pre (split_dot l) (length (split_dot l))"
proof (cases "in_subtree pre l")
  case True
  then show ?thesis using exit_walk_inv [OF assms(1) le_refl] by (simp add: exit_step_def Let_def)
next
  case False
  then show ?thesis using assms candidates_none [of pre "length (split_dot l)" "split_dot l"]
    by (simp add: exit_step_def)
qed

lemma exit_fold_inv:
  "exit_inv m st \<Longrightarrow> \<forall>l \<in> set ls. join_dot (split_dot l) = l \<Longrightarrow>
     exit_inv m (fold (exit_step m pre) ls st) \<and>
     set (fst (fold (exit_step m pre) ls st)) =
       set (fst st) \<union> (\<Union>l \<in> set ls. candidates pre (split_dot l) (length (split_dot l)))"
proof (induction ls arbitrary: st)
  case (Cons l ls)
  then show ?case using exit_step_inv [of m st l pre] by (auto simp: Un_assoc)
qed simp

lemma active_node:
  "machine_ok m \<Longrightarrow> conf_root m sv \<Longrightarrow> active_path m sv qs \<Longrightarrow> qs \<noteq> [] \<Longrightarrow>
     \<exists>n. node_at m qs = Some n"
proof -
  assume m: "machine_ok m" "conf_root m sv" "active_path m sv qs" "qs \<noteq> []"
  have "\<exists>s. sub_node n ps = Some s" if "active_below n sub ps" for n sub ps
    using that by (induction n sub ps rule: active_below.induct)
      (auto simp: active_below.simps(2) split: option.splits node_type.splits state_value.splits)
  from this [OF m(3) [unfolded active_path_def]] obtain s where
    "sub_node (root_node m) qs = Some s" by auto
  then show ?thesis using sub_node_root [OF m(1) _ m(4)] by auto
qed

lemma leaf_join_split:
  assumes m: "machine_ok m" "conf_root m sv" and l: "l \<in> set (getActiveLeafPaths m sv [])"
  shows "join_dot (split_dot l) = l"
proof -
  from list_all2_in1 [OF getActiveLeafPaths_match [OF m] l] obtain qs where
    qs: "qs \<in> set (machine_leaves m sv)" "leaf_match m [] l qs" by auto
  then obtain s where s: "node_at m qs = Some s" using machine_leaves_active [OF m] by auto
  note t = node_at_tree(1,2) [OF m(1) s]
  then have "split_dot (join_dot qs) = qs" "split_dot (join_dot (qs @ [last qs])) = qs @ [last qs]"
    by (auto intro!: split_dot_join_dot)
  then show ?thesis using qs(2) by (auto simp: leaf_match_def)
qed

text \<open>The existing nodes among the candidates are the active nodes.\<close>

lemma candidate_nodes:
  assumes m: "machine_ok m" "conf_root m sv"
  shows "{path_parts p | p. getNodeByPath m p \<noteq> None \<and>
      (\<exists>l \<in> set (getActiveLeafPaths m sv []). p \<in> candidates pre (split_dot l) (length (split_dot l)))} =
    {qs. qs \<noteq> [] \<and> active_path m sv qs \<and> in_subtree pre (join_dot qs)}" (is "?L = ?R")
proof (intro equalityI subsetI)
  fix qs assume "qs \<in> ?L"
  then obtain p l j where p: "qs = path_parts p" "getNodeByPath m p \<noteq> None"
    "l \<in> set (getActiveLeafPaths m sv [])" "p = join_dot (take j (split_dot l))" "in_subtree pre p"
    by (auto simp: candidates_def)
  from list_all2_in1 [OF getActiveLeafPaths_match [OF m] p(3)] obtain ls where
    ls: "ls \<in> set (machine_leaves m sv)" "leaf_match m [] l ls" by auto
  then obtain s where s: "node_at m ls = Some s" "leaf_type (sn_type s)" "active_path m sv ls"
    using machine_leaves_active [OF m] by auto
  note t = node_at_tree(1,2) [OF m(1) s(1)]
  note sd = match_parts(2) [OF m(1) ls(2) s(1)]
  then have wf: "\<forall>k \<in> set (take j (split_dot l)). wf_key k"
    using t set_take_subset [of j] by fastforce
  then have q: "qs = take j (split_dot l)" using p(1,4) by (simp add: path_parts_join_dot)
  then have n: "node_at m qs \<noteq> None" using p(2,4) wf node_at_path [OF m(1)] by simp
  then have ne: "qs \<noteq> []" by (auto simp: node_at_def)
  have "qs = take j ls"
  proof (rule ccontr)
    assume "qs \<noteq> take j ls"
    then have "qs = ls @ [last ls]" using q sd by (cases "j \<le> length ls") auto
    then show False using n leaf_no_child [OF m(1) s(1,2)] by simp
  qed
  then have "active_path m sv qs"
    using s(3) active_prefix [of _ _ "take j ls" "drop j ls"] by (simp add: active_path_def)
  then show "qs \<in> ?R" using ne p(4,5) q by simp
next
  fix qs assume "qs \<in> ?R"
  then have q: "qs \<noteq> []" "active_path m sv qs" "in_subtree pre (join_dot qs)" by auto
  obtain n where n: "node_at m qs = Some n" using active_node [OF m q(2,1)] by auto
  note t = node_at_tree(1,2) [OF m(1) n]
  from active_extends_root [OF m q(2,1)] obtain rs where
    rs: "qs @ rs \<in> set (machine_leaves m sv)" by auto
  from list_all2_in2 [OF getActiveLeafPaths_match [OF m] this] obtain l where
    l: "l \<in> set (getActiveLeafPaths m sv [])" "leaf_match m [] l (qs @ rs)" by auto
  obtain s where s: "node_at m (qs @ rs) = Some s" using rs machine_leaves_active [OF m] by auto
  have "take (length qs) (split_dot l) = qs" "length qs \<le> length (split_dot l)"
    using match_parts(2) [OF m(1) l(2) s] by auto
  moreover from this have "1 \<le> length qs" using q(1) by (cases qs) auto
  ultimately have "join_dot qs \<in> candidates pre (split_dot l) (length (split_dot l))"
    using q(3) unfolding candidates_def by (intro CollectI exI [of _ "length qs"]) simp
  moreover have "getNodeByPath m (join_dot qs) \<noteq> None" "path_parts (join_dot qs) = qs"
    using node_at_path [OF m(1) t(2)] n path_parts_join_dot [OF t(2)] by auto
  ultimately show "qs \<in> ?L" using l(1) by (intro CollectI exI [of _ "join_dot qs"]) auto
qed

lemma exit_effects_once:
  assumes m: "machine_ok m" "conf_root m sv"
  shows "\<exists>V. distinct V \<and>
    set V = {qs. qs \<noteq> [] \<and> active_path m sv qs \<and> in_subtree pre (join_dot qs)} \<and>
    collectBottomUpExitEffects m sv pre =
      concat (map (\<lambda>qs. case node_at m qs of Some n \<Rightarrow> sn_exit n | None \<Rightarrow> []) V)"
proof -
  let ?st = "fold (exit_step m pre) (getActiveLeafPaths m sv []) ([], [])"
  let ?ex = "\<lambda>p. getNodeByPath m p \<noteq> None"
  let ?V = "filter ?ex (fst ?st)"
  have "exit_inv m ([], [])" by (simp add: exit_inv_def)
  from exit_fold_inv [OF this, of "getActiveLeafPaths m sv []" pre] leaf_join_split [OF m]
  have inv: "exit_inv m ?st"
    and V: "set (fst ?st) = (\<Union>l \<in> set (getActiveLeafPaths m sv []).
      candidates pre (split_dot l) (length (split_dot l)))"
    by auto
  have pp: "p = join_dot (path_parts p) \<and> node_at m (path_parts p) = getNodeByPath m p"
    if p: "p \<in> set ?V" for p
  proof -
    from p V obtain l j where l: "l \<in> set (getActiveLeafPaths m sv [])"
      "p = join_dot (take j (split_dot l))" by (auto simp: candidates_def)
    from list_all2_in1 [OF getActiveLeafPaths_match [OF m] l(1)] obtain ls where
      ls: "ls \<in> set (machine_leaves m sv)" "leaf_match m [] l ls" by auto
    then obtain s where s: "node_at m ls = Some s" using machine_leaves_active [OF m] by auto
    have "\<forall>k \<in> set (take j (split_dot l)). wf_key k"
      using match_parts(2) [OF m(1) ls(2) s] node_at_tree(1,2) [OF m(1) s] set_take_subset [of j]
      by fastforce
    then show ?thesis using l(2) path_parts_join_dot by (simp add: getNodeByPath_def node_at_def)
  qed
  have "inj_on path_parts (set ?V)" by (rule inj_onI) (metis pp)
  then have d: "distinct (map path_parts ?V)" using inv by (simp add: exit_inv_def distinct_map)
  have "set (map path_parts ?V) = {path_parts p | p. getNodeByPath m p \<noteq> None \<and>
      (\<exists>l \<in> set (getActiveLeafPaths m sv []). p \<in> candidates pre (split_dot l) (length (split_dot l)))}"
    using V by auto
  then have s: "set (map path_parts ?V) =
      {qs. qs \<noteq> [] \<and> active_path m sv qs \<and> in_subtree pre (join_dot qs)}"
    by (simp only: candidate_nodes [OF m])
  have "concat (map (node_exit m) ps) = concat (map (node_exit m) (filter ?ex ps))" for ps
    by (induction ps) (auto simp: node_exit_def)
  moreover have "map (node_exit m) ?V =
      map (\<lambda>qs. case node_at m qs of Some n \<Rightarrow> sn_exit n | None \<Rightarrow> []) (map path_parts ?V)"
    using pp by (auto simp: node_exit_def)
  ultimately have "collectBottomUpExitEffects m sv pre =
      concat (map (\<lambda>qs. case node_at m qs of Some n \<Rightarrow> sn_exit n | None \<Rightarrow> []) (map path_parts ?V))"
    using inv unfolding collect_fold exit_inv_def by metis
  with d s show ?thesis by blast
qed

section \<open>Transitions of a validated machine\<close>

lemma walk_edges:
  "list_all (\<lambda>(k, n). edges_ok mid all n) states \<Longrightarrow> walk_parts states None ps = Some n \<Longrightarrow>
     edges_ok mid all n"
proof (induction ps arbitrary: states)
  case (Cons p ps)
  then obtain c where c: "map_of states p = Some c" "walk_parts (sn_states c) (Some c) ps = Some n"
    by (auto split: option.splits)
  then have s: "edges_ok mid all c" using Cons.prems(1) by (auto simp: list_all_iff dest!: map_of_SomeD)
  show ?case
  proof (cases ps)
    case Nil
    then show ?thesis using c s by simp
  next
    case (Cons q qs)
    then show ?thesis
      using Cons.IH [of "sn_states c"] s c(2) walk_parts_current [of ps _ "Some c" None]
      by (cases c) (auto simp: list_all_iff)
  qed
qed simp

lemma edge_target_resolves:
  assumes m: "machine_ok m" "node_at m ps = Some n" "map_of (sn_on n) ev = Some e"
    and t: "te_target e = Some ref" "ref \<noteq> []"
  shows "\<exists>p. resolveTargetStatePath (md_id m) (md_states m) (sn_path n) ref = Some p"
proof -
  have "edges_ok (md_id m) (md_states m) n"
    using m(1,2) unfolding node_at_def machine_ok_def by (intro walk_edges) (auto simp: list_all_iff)
  then have "edge_ok (md_id m) (md_states m) (sn_path n) e"
    using map_of_SomeD [OF m(3)] by (cases n) (auto simp: list_all_iff)
  then show ?thesis using t by (auto simp: edge_ok_def target_ok_def truthy_def)
qed

text \<open>A dispatched edge with a structural target is applied and keeps the configuration legal.\<close>

lemma dispatched_transition:
  assumes m: "machine_ok m" "conf_root m cur"
    and d: "(s, e) \<in> set (resolveTransitionsForEvent m cur ev)"
    and t: "te_target e = Some ref" "ref \<noteq> []"
    and ok: "\<And>p. resolveTargetStatePath (md_id m) (md_states m) (sn_path s) ref = Some p \<Longrightarrow>
      structural_target m cur (path_parts (sn_path s)) (path_parts p)"
  shows "\<exists>ap. applyTargetTransition m cur (sn_path s) ref = Inr ap \<and>
    conf_root m (ap_nextStateValue ap) \<and>
    active_path m (ap_nextStateValue ap) (path_parts (ap_targetPath ap))"
proof -
  from resolve_sound_path [OF m d] obtain qs where
    q: "active_path m cur qs" "node_at m qs = Some s" "sn_path s = join_dot qs"
    "\<forall>k \<in> set qs. wf_key k" "map_of (sn_on s) ev = Some e"
    by auto
  from edge_target_resolves [OF m(1) q(2,5) t] obtain p where
    p: "resolveTargetStatePath (md_id m) (md_states m) (sn_path s) ref = Some p" by auto
  have "structural_target m cur qs (path_parts p)"
    using ok [OF p] path_parts_join_dot [OF q(4)] q(3) by simp
  from applyTargetTransition_conf [OF m q(1,4) p [unfolded q(3)] this] show ?thesis
    unfolding q(3) by auto
qed

text \<open>A machine with parallel root keeps a map of regions and so never settles as \<open>FAILED\<close>.\<close>

lemma replaceAtLca_map:
  "replaceAtLca m (SMap kvs) pre (k # ks) b = Inr sv \<Longrightarrow> \<exists>kvs'. sv = SMap kvs'"
  by (cases ks) (auto simp: assign_def Let_def split: if_splits sum.splits state_value.splits list.splits bool.splits)

lemma parallel_root_map:
  assumes "md_type m = RootParallel" "applyTargetTransition m (SMap kvs) src ref = Inr ap"
  shows "\<exists>kvs'. ap_nextStateValue ap = SMap kvs'"
proof -
  from assms(2) obtain tgt c b where
    "install_branch m (SMap kvs) tgt c b = Inr (ap_nextStateValue ap)"
    by (auto simp: applyTargetTransition_def Let_def split: option.splits sum.splits prod.splits)
  then show ?thesis using assms(1) replaceAtLca_map
    by (cases "take c tgt") (auto simp: install_branch_def Let_def dest!: sym [of "SMap _"])
qed

lemma parallel_root_not_failed:
  assumes "md_type m = RootParallel" "applyTargetTransition m (SMap kvs) src ref = Inr ap"
  shows "resolveSettledTransactionStatus m (ap_nextStateValue ap) False \<noteq> FAILED"
  using parallel_root_map [OF assms] by (auto simp: resolveSettledTransactionStatus_def Let_def)

end
