(* ===== verification/Samples.thy ===== *)
theory Samples
  imports Completion
begin

text \<open>
  Concrete machines at which the theorems with hypotheses are applied: an order machine with a
  parallel fulfilment state, and the same regions as a machine with parallel root.
\<close>

definition sample_edge :: "string \<Rightarrow> string option \<Rightarrow> transition_edge" where
  "sample_edge ev target = \<lparr>te_event = ev, te_target = target, te_transition = None,
     te_compensate = None, te_effects = [], te_description = None, te_policy = empty_policy\<rparr>"

definition sample_leaf ::
  "string \<Rightarrow> string \<Rightarrow> node_type \<Rightarrow> string list \<Rightarrow> (string \<times> transition_edge) list \<Rightarrow> string \<times> state_node" where
  "sample_leaf path k ty ex on =
     (k, StateNode k (path @ k) ty None None [] ex on None [] False)"

definition sample_regions :: "string \<Rightarrow> state_node dict" where
  "sample_regions path = [
     (''payment'', StateNode ''payment'' (path @ ''payment'') Compound None (Some ''pending'')
        [] [''closePayment''] [] None
        [sample_leaf (path @ ''payment.'') ''pending'' Atomic [''exitPending'']
           [(''PAY'', sample_edge ''PAY'' (Some ''paid''))],
         sample_leaf (path @ ''payment.'') ''paid'' Final [] []] False),
     (''shipping'', StateNode ''shipping'' (path @ ''shipping'') Compound None (Some ''queued'')
        [] [''closeShipping''] [] None
        [sample_leaf (path @ ''shipping.'') ''queued'' Atomic [''exitQueued'']
           [(''SHIP'', sample_edge ''SHIP'' (Some ''sent''))],
         sample_leaf (path @ ''shipping.'') ''sent'' Final [] []] False)]"

definition order_states :: "state_node dict" where
  "order_states = [
     sample_leaf [] ''draft'' Atomic [''exitDraft'']
       [(''SUBMIT'', sample_edge ''SUBMIT'' (Some ''fulfil''))],
     (''fulfil'', StateNode ''fulfil'' ''fulfil'' Parallel None None [''enterFulfil''] [''exitFulfil'']
        [(''CANCEL'', sample_edge ''CANCEL'' (Some ''cancelled''))]
        (Some (sample_edge ''onDone'' (Some ''done''))) (sample_regions ''fulfil.'') False),
     sample_leaf [] ''done'' Final [] [],
     sample_leaf [] ''cancelled'' Final [] []]"

definition sample_raw :: "root_type \<Rightarrow> string option \<Rightarrow> state_node dict \<Rightarrow> raw_machine" where
  "sample_raw ty init sts = \<lparr>rm_id = ''order'', rm_version = ''1.0.0'', rm_description = None,
     rm_source = SourceYaml, rm_type = ty, rm_initial = init,
     rm_registry = \<lparr>rb_namespace = None, rb_strict = True\<rparr>, rm_defaults = empty_policy,
     rm_hooks = None, rm_effects = None, rm_maxEffectChainDepth = None, rm_states = sts\<rparr>"

definition order_raw :: raw_machine where
  "order_raw = sample_raw RootCompound (Some ''draft'') order_states"

definition parallel_raw :: raw_machine where
  "parallel_raw = sample_raw RootParallel None (sample_regions [])"

definition order_machine :: machine where
  "order_machine = to_machine order_raw"

definition parallel_machine :: machine where
  "parallel_machine = to_machine parallel_raw"

lemmas sample_defs = order_machine_def order_raw_def parallel_machine_def parallel_raw_def sample_raw_def
  order_states_def sample_regions_def sample_leaf_def sample_edge_def empty_policy_def

definition fulfilling :: state_value where
  "fulfilling = SMap [(''fulfil'', SMap [(''payment'', SLeaf ''pending''), (''shipping'', SLeaf ''queued'')])]"

end
