(* ===== verification/ActorSamples.thy ===== *)
theory ActorSamples
  imports ActorProps Samples
begin

text \<open>
  A concrete actor: the order machine on a SQLite store, a clock that stands still, compensators
  that log their step, effects that do nothing.
\<close>

definition order_binding :: "string \<Rightarrow> string \<Rightarrow> string option \<Rightarrow> string \<times> int list binding" where
  "order_binding p ev target = (bindingKey p ev, \<lparr>bd_statePath = p, bd_event = ev,
     bd_edge = sample_edge ev target, bd_resolvedTransitionName = None,
     bd_resolvedCompensateName = None, bd_policy = SDK_DEFAULT_POLICY (p @ ev), bd_fn = None,
     bd_inputValidator = None\<rparr>)"

definition order_handlers :: "int list handlers" where
  "order_handlers = \<lparr>hp_resolveTransition = (\<lambda>_ _. None),
     hp_resolveCompensate = (\<lambda>n _. Some (n, \<lambda>req u. (Inr None, u @ [cr_stepSeq req]))),
     hp_resolveEffect = (\<lambda>n _. Some (n, \<lambda>_. PDone)), hp_resolveHook = (\<lambda>_ _. None),
     hp_globalPolicyDefaults = empty_policy\<rparr>"

definition order_actor :: "(sqlite, int list) actor" where
  "order_actor = \<lparr>ac_machine = order_machine, ac_actorId = ''actor-1'', ac_store = sqlite_ops,
     ac_world = \<lparr>wo_now = (\<lambda>_. 100000), wo_sleep = (\<lambda>_ u. u), wo_random = (\<lambda>u. (0, u))\<rparr>,
     ac_uuid = (\<lambda>u. (''tx-new'', u)), ac_handlers = order_handlers, ac_contextValidator = None,
     ac_bindings = [order_binding ''draft'' ''SUBMIT'' (Some ''fulfil''),
       order_binding ''fulfil'' ''CANCEL'' (Some ''cancelled''),
       order_binding ''fulfil'' ''$onDone'' (Some ''done''),
       order_binding ''fulfil.payment.pending'' ''PAY'' (Some ''paid''),
       order_binding ''fulfil.shipping.queued'' ''SHIP'' (Some ''sent'')],
     ac_recovery = \<lparr>rc_enabled = True, rc_stuckThresholdMs = 30000, rc_defaultAction = MARK_FAIL,
       rc_stateActions = [], rc_haltActorOnStop = False\<rparr>,
     ac_maxEffectChainDepth = 25, ac_hooks = []\<rparr>"

definition order_tx :: "string \<Rightarrow> string \<Rightarrow> tx_status \<Rightarrow> state_value \<Rightarrow> tx_record" where
  "order_tx i m status st = \<lparr>tx_transactionId = i, tx_machineId = m, tx_machineVersion = ''1.0.0'',
     tx_actorId = ''actor-1'', tx_stateValue = st, tx_context = JNull, tx_status = status,
     tx_activeStep = None, tx_lastError = None, tx_version = 3, tx_leaseOwner = None,
     tx_leaseExpiresAt = None, tx_createdAt = 0, tx_updatedAt = 10\<rparr>"

definition order_comp :: "int \<Rightarrow> comp_entry" where
  "order_comp q = \<lparr>ce_id = Some (RowNumber q), ce_transactionId = ''t1'', ce_stepSeq = q, ce_transitionKey = ''reserve'',
     ce_compensateKey = ''release'', ce_fromState = SLeaf ''draft'', ce_inputSnapshot = JNull,
     ce_contextBefore = JNull, ce_createdAt = 5, ce_compensatedAt = None\<rparr>"

text \<open>
  Four transactions: one at its start with two recorded steps, one in flight for too long, one
  completed, and one of another machine.
\<close>

definition order_store :: sqlite where
  "order_store = \<lparr>sq_memory = True, sq_open = True,
     sq_transactions = [order_tx ''t1'' ''order'' IDLE (SLeaf ''draft''),
       order_tx ''t2'' ''order'' IN_FLIGHT fulfilling,
       order_tx ''t3'' ''order'' COMPLETED (SLeaf ''done''),
       order_tx ''t4'' ''invoice'' IDLE (SLeaf ''draft'')],
     sq_compensations = [order_comp 1, order_comp 2], sq_nextId = 3, sq_scan = rev\<rparr>"

definition order_world :: "(sqlite, int list) world" where
  "order_world = \<lparr>w_store = order_store, w_user = [], w_breakers = [], w_depth = [], w_revision = [],
     w_log = [], w_initialized = True, w_stoppedByRecovery = False,
     w_scheduler = \<lparr>sc_enabled = False, sc_sweepIntervalMs = 15000, sc_stuckThresholdMs = 30000,
       sc_retentionMs = None, sc_batchSize = 100\<rparr>,
     w_timerRunning = False, w_lastRunAt = None, w_nextRunAt = None, w_totalSweeps = 0,
     w_totalRecovered = 0, w_totalRetentionCleaned = 0, w_lastReport = None\<rparr>"

lemma order_world_simps [simp]:
  "w_store order_world = order_store" "w_user order_world = []" "w_breakers order_world = []"
  "w_depth order_world = []" "w_initialized order_world" "\<not> w_stoppedByRecovery order_world"
  "sc_retentionMs (w_scheduler order_world) = None"
  by (simp_all add: order_world_def)

lemma order_actor_simps [simp]:
  "ac_store order_actor = sqlite_ops" "ac_hooks order_actor = []" "ac_machine order_actor = order_machine"
  "ac_recovery order_actor = \<lparr>rc_enabled = True, rc_stuckThresholdMs = 30000, rc_defaultAction = MARK_FAIL,
       rc_stateActions = [], rc_haltActorOnStop = False\<rparr>" "ac_handlers order_actor = order_handlers"
  by (simp_all add: order_actor_def)

lemma order_id [simp]: "md_id order_machine = ''order''"
  by (simp add: sample_defs to_machine_def)

lemma order_tx_simps [simp]:
  "tx_transactionId (order_tx i m status st) = i" "tx_machineId (order_tx i m status st) = m"
  "tx_status (order_tx i m status st) = status" "tx_stateValue (order_tx i m status st) = st"
  "tx_version (order_tx i m status st) = 3" "tx_updatedAt (order_tx i m status st) = 10"
  "settled (order_tx i m status st)"
  by (simp_all add: order_tx_def settled_def)

lemma order_store_ok: "sqlite_ok order_store"
  by (simp add: sqlite_ok_def order_store_def ensureDb_def order_comp_def row_of_Cons
      stack_rows_def stack_ok_def)

lemma order_txs:
  "sqlite_txs order_store i =
     (if i = ''t1'' then Some (order_tx ''t1'' ''order'' IDLE (SLeaf ''draft''))
      else if i = ''t2'' then Some (order_tx ''t2'' ''order'' IN_FLIGHT fulfilling)
      else if i = ''t3'' then Some (order_tx ''t3'' ''order'' COMPLETED (SLeaf ''done''))
      else if i = ''t4'' then Some (order_tx ''t4'' ''invoice'' IDLE (SLeaf ''draft'')) else None)"
  unfolding sqlite_txs_def order_store_def ensureDb_def by (simp add: row_of_Cons eq_commute [of _ i])

lemma order_comps: "sqlite_comps order_store ''t1'' = [order_comp 1, order_comp 2]"
  by (simp add: sqlite_comps_def order_store_def ensureDb_def stack_rows_def order_comp_def)

lemma order_settled: "sqlite_txs order_store i = Some r \<Longrightarrow> settled r"
  by (auto simp: order_txs split: if_splits)

lemma order_plain: "plain_actor order_actor"
  by (auto simp: plain_actor_def order_handlers_def order_actor_def order_binding_def
      policy_ok_def SDK_DEFAULT_POLICY_def)

lemma order_breakers: "breakers_ok order_world"
  by (simp add: breakers_ok_def)

lemma order_logs: "compensators_log order_actor (\<lambda>u. u)"
  by (simp add: compensators_log_def order_handlers_def)

lemma order_recovery: "resolveRecoveryModeForState (ac_recovery order_actor) st = MARK_FAIL"
  by (simp add: resolveRecoveryModeForState_def lookup_action_def Let_def)

definition order_snapshot :: tx_snapshot where
  "order_snapshot = snapshot_of (order_tx ''t1'' ''order'' IDLE (SLeaf ''draft'')) []"

text \<open>Submitting the order, by evaluation.\<close>

lemma order_submit_runs:
  "case executeTransitionOnSnapshot order_actor (run_prog 5 order_actor) order_snapshot ''SUBMIT'' None []
      order_world of
     Some (Inr res, w') \<Rightarrow> xr_status res = IDLE \<and> xr_currentState res = fulfilling | _ \<Rightarrow> False"
  by code_simp

lemma order_submit:
  "\<exists>res w'. executeTransitionOnSnapshot order_actor (run_prog 5 order_actor) order_snapshot ''SUBMIT'' None []
      order_world = Some (Inr res, w') \<and> xr_status res = IDLE \<and> xr_currentState res = fulfilling"
  using order_submit_runs by (auto split: option.splits sum.splits)

lemma order_snapshot_id [simp]: "tx_transactionId order_snapshot = ''t1''"
  by (simp add: order_snapshot_def snapshot_of_def tx_record.extend_def order_tx_def)

end
