(* ===== verification/ActorDepth.thy ===== *)
theory ActorDepth
  imports ActorInv
begin

text \<open>
  The limit on nested effects, observed from outside: \<open>within_depth\<close> is a runner that gets stuck when
  the program of an effect is about to start while the counter of its transaction is missing or
  above \<open>maxEffectChainDepth\<close>, \<open>run_within\<close> and \<open>perform_within\<close> put it at every level of nesting. The
  calls with that runner are the calls of the actor (\<open>perform_within_same\<close>): no effect ever starts
  beyond the limit.
\<close>

section \<open>A runner that watches the counter\<close>

definition within_depth :: "('s, 'u) actor \<Rightarrow> ('s, 'u) runner \<Rightarrow> ('s, 'u) runner" where
  "within_depth a run env p = (case env of
       None \<Rightarrow> run None p
     | Some (txId, st, ctx, baseline) \<Rightarrow> (\<lambda>w. case map_of (w_depth w) txId of
           Some n \<Rightarrow> if of_int n \<le> ac_maxEffectChainDepth a then run env p w else None
         | None \<Rightarrow> None))"

fun run_within :: "nat \<Rightarrow> ('s, 'u) actor \<Rightarrow> ('s, 'u) runner" where
  "run_within 0 a env p = out_of_fuel"
| "run_within (Suc n) a env p =
     (case p of
        PDone \<Rightarrow> ret ()
      | PThrow e \<Rightarrow> throw e
      | PAct f \<Rightarrow> bind (user_call (\<lambda>u. case f u of (p', u') \<Rightarrow> (Inr p', u'))) (run_within n a env)
      | PTransition txId event input metadata k \<Rightarrow>
          bind (attempt (transition a (within_depth a (run_within n a)) txId event input metadata))
            (\<lambda>r. run_within n a env (k r))
      | PStart ctx txId k \<Rightarrow>
          bind (attempt (startTransaction a (within_depth a (run_within n a)) ctx txId))
            (\<lambda>r. run_within n a env (k r))
      | PRunEffect name payload k \<Rightarrow>
          (case env of
             None \<Rightarrow> run_within n a env (k (Inl (JsError ''runEffect is not a function'')))
           | Some (txId, st, ctx, baseline) \<Rightarrow>
               bind (attempt (invokeSingleEffect a (within_depth a (run_within n a)) txId st ctx name payload
                   baseline))
                 (\<lambda>r. run_within n a env (k r))))"

fun perform_within :: "nat \<Rightarrow> ('s, 'u) actor \<Rightarrow> actor_call \<Rightarrow> (unit, 's, 'u) act" where
  "perform_within n a CallInitialize = finished (initialize a (within_depth a (run_within n a)))"
| "perform_within n a (CallStart ctx i) = finished (startTransaction a (within_depth a (run_within n a)) ctx i)"
| "perform_within n a (CallTransition i ev input md) =
     finished (transition a (within_depth a (run_within n a)) i ev input md)"
| "perform_within n a CallSweep = finished (triggerSweepNow a (within_depth a (run_within n a)))"
| "perform_within n a CallTick = scheduler_tick a (within_depth a (run_within n a))"
| "perform_within n a (CallCleanUp opts) = finished (forceCleanUp a (within_depth a (run_within n a)) opts)"
| "perform_within n a c = perform n a c"

section \<open>It never gets stuck\<close>

lemma effect_within:
  "invokeSingleEffect a (within_depth a run) i st ctx nm pl b = invokeSingleEffect a run i st ctx nm pl b"
proof -
  have step: "seq (modify (\<lambda>w. w\<lparr>w_depth := AList.update i n (w_depth w)\<rparr>))
      (try_finally (within_depth a run (Some (i, x)) p) l) =
    seq (modify (\<lambda>w. w\<lparr>w_depth := AList.update i n (w_depth w)\<rparr>)) (try_finally (run (Some (i, x)) p) l)"
    if "\<not> of_int n > ac_maxEffectChainDepth a" for n x p l
    using that by (cases x) (auto simp: fun_eq_iff seq_def bind_def modify_def try_finally_def within_depth_def
        update_conv')
  show ?thesis
    unfolding invokeSingleEffect_def Let_def
    by (auto simp: step fun_eq_iff bind_def reads_def split: option.splits prod.splits)
qed

lemma run_none_within [simp]: "within_depth a run None p = run None p"
  by (simp add: within_depth_def)

lemma hooks_within:
  "emit a (within_depth a run) slot ev = emit a run slot ev"
  "emitSettledTerminalHooks a (within_depth a run) i st status ctx err =
     emitSettledTerminalHooks a run i st status ctx err"
  by (simp_all add: emit_def emitSettledTerminalHooks_def)

lemma effects_within:
  "invokeEffects a (within_depth a run) i st ctx es = invokeEffects a run i st ctx es"
  by (simp add: invokeEffects_def effect_within)

lemma unwind_within:
  "unwindCompensationStack a (within_depth a run) i ctx err = unwindCompensationStack a run i ctx err"
proof -
  have "unwind_entry a (within_depth a run) i err = unwind_entry a run i err"
    by (intro ext) (simp add: unwind_entry_def hooks_within)
  then show ?thesis by (simp add: unwindCompensationStack_def)
qed

lemma matches_within:
  "run_matches a (within_depth a run) i ev t md ms wk = run_matches a run i ev t md ms wk"
proof (induction ms arbitrary: wk)
  case (Cons m ms)
  have s: "step_failure a (within_depth a run) = step_failure a run"
    by (intro ext) (simp add: step_failure_def unwind_within cong: if_cong)
  obtain node edge input where "m = ((node, edge), input)" by (metis surj_pair)
  then show ?case by (simp add: s ext [OF Cons])
qed simp

text \<open>Rewriting inside the branches of the actor's case distinctions.\<close>

lemmas branch_congs = if_cong option.case_cong on_restart_mode.case_cong cleanup_action.case_cong
  step_result.case_cong

lemma execute_within:
  "executeTransitionOnSnapshot a (within_depth a run) s ev inp md = executeTransitionOnSnapshot a run s ev inp md"
proof -
  have "commit_step a (within_depth a run) = commit_step a run"
    by (intro ext) (simp add: commit_step_def after_commit_def hooks_within effects_within cong: branch_congs)
  then show ?thesis
    by (simp add: Let_def executeTransitionOnSnapshot_def hooks_within matches_within cong: branch_congs)
qed

lemma sweep_within:
  "executeRecoverySweep a (within_depth a run) t = executeRecoverySweep a run t"
proof -
  have "compensate_item a (within_depth a run) = compensate_item a run"
    by (intro ext) (simp add: compensate_item_def unwind_within cong: branch_congs)
  then have "sweep_item a (within_depth a run) = sweep_item a run"
    by (intro ext) (simp add: sweep_item_def Let_def recover_item_def continue_item_def execute_within cong: branch_congs)
  then show ?thesis by (simp add: executeRecoverySweep_def cong: branch_congs)
qed

lemma calls_within:
  "initialize a (within_depth a run) = initialize a run"
  "transition a (within_depth a run) = transition a run"
  "startTransaction a (within_depth a run) = startTransaction a run"
  "triggerSweepNow a (within_depth a run) = triggerSweepNow a run"
  "scheduler_tick a (within_depth a run) = scheduler_tick a run"
  "forceCleanUp a (within_depth a run) = forceCleanUp a run"
proof -
  show i: "initialize a (within_depth a run) = initialize a run"
    by (simp add: initialize_def sweep_within cong: branch_congs)
  then have r: "ensureReady a (within_depth a run) = ensureReady a run" by (simp add: ensureReady_def cong: branch_congs)
  show "transition a (within_depth a run) = transition a run"
    by (intro ext) (simp add: transition_def r execute_within cong: branch_congs)
  show "startTransaction a (within_depth a run) = startTransaction a run"
    by (intro ext) (simp add: Let_def startTransaction_def r hooks_within effects_within cong: branch_congs)
  show "triggerSweepNow a (within_depth a run) = triggerSweepNow a run"
    by (simp add: triggerSweepNow_def sweep_within cong: branch_congs)
  show "scheduler_tick a (within_depth a run) = scheduler_tick a run"
    by (simp add: scheduler_tick_def sweep_within cong: branch_congs)
  have "compensate_item a (within_depth a run) = compensate_item a run"
    by (intro ext) (simp add: compensate_item_def unwind_within cong: branch_congs)
  then have "cleanup_item a (within_depth a run) = cleanup_item a run"
    by (intro ext) (simp add: cleanup_item_def cong: branch_congs)
  then show "forceCleanUp a (within_depth a run) = forceCleanUp a run"
    by (intro ext) (simp add: Let_def forceCleanUp_def cong: branch_congs)
qed

lemma run_within_same: "run_within n a = run_prog n a"
proof (induction n)
  case (Suc n)
  have "run_within (Suc n) a env p = run_prog (Suc n) a env p" for env p
    by (cases p; cases env) (simp_all add: Suc.IH calls_within effect_within split: prod.split)
  then show ?case by (simp add: fun_eq_iff del: run_within.simps run_prog.simps)
qed (auto simp: fun_eq_iff)

lemma perform_within_same: "perform_within n a c = perform n a c"
  by (cases c) (simp_all add: run_within_same calls_within)

end
