(* ===== verification/ActorAdmin.thy ===== *)
theory ActorAdmin
  imports Actor
begin

text \<open>
  Building an actor (the constructor of \<^verbatim>\<open>runtime/actor.ts\<close>) and the operations that only look at
  it: configuration, effective transitions, counts and lists.
\<close>

section \<open>Construction\<close>

record recovery_options =
  rx_enabled :: "bool option"
  rx_stuckThresholdMs :: "int option"
  rx_defaultAction :: "on_restart_mode option"
  rx_stateActions :: "on_restart_mode dict option"
  rx_haltActorOnStop :: "bool option"

record ('s, 'u) actor_config =
  af_actorId :: "string option"
  af_store :: "'s store_ops option"
  af_clock :: "'u world_ops option"
  af_contextValidator :: "jval validator_input option"
  af_inputValidators :: "jval option validator_input dict option"
  af_recovery :: "recovery_options option"
  af_scheduler :: "scheduler_options option"
  af_hooks :: "'u hook_subscription option"
  af_maxEffectChainDepth :: "rat option"

record ('s, 'u) actor_defaults =
  ad_store :: "'s store_ops"
  ad_clock :: "'u world_ops"
  ad_hooks :: "'u hook_subscription option"

definition no_recovery_options :: recovery_options where
  "no_recovery_options = \<lparr>rx_enabled = None, rx_stuckThresholdMs = None, rx_defaultAction = None,
     rx_stateActions = None, rx_haltActorOnStop = None\<rparr>"

definition no_scheduler_options :: scheduler_options where
  "no_scheduler_options = \<lparr>sx_enabled = None, sx_sweepIntervalMs = None, sx_stuckThresholdMs = None,
     sx_retentionMs = None, sx_batchSize = None\<rparr>"

definition recovery_of :: "recovery_options option \<Rightarrow> recovery_config" where
  "recovery_of ro =
     (let p = or_else ro no_recovery_options in
      \<lparr>rc_enabled = or_else (rx_enabled p) True,
       rc_stuckThresholdMs = or_else (rx_stuckThresholdMs p) 30000,
       rc_defaultAction = or_else (rx_defaultAction p) MARK_FAIL,
       rc_stateActions = or_else (rx_stateActions p) [],
       rc_haltActorOnStop = or_else (rx_haltActorOnStop p) False\<rparr>)"

definition scheduler_of :: "recovery_config \<Rightarrow> scheduler_options option \<Rightarrow> scheduler_config" where
  "scheduler_of rc so =
     (let p = or_else so no_scheduler_options in
      \<lparr>sc_enabled = or_else (sx_enabled p) False,
       sc_sweepIntervalMs = or_else (sx_sweepIntervalMs p) 15000,
       sc_stuckThresholdMs = or_else (sx_stuckThresholdMs p) (rc_stuckThresholdMs rc),
       sc_retentionMs = or_else (sx_retentionMs p) None,
       sc_batchSize = or_else (sx_batchSize p) 100\<rparr>)"

definition the_list :: "'a option \<Rightarrow> 'a list" where
  "the_list x = (case x of None \<Rightarrow> [] | Some y \<Rightarrow> [y])"

definition input_validators :: "('s, 'u) actor_config \<Rightarrow> jval option schema_validator dict" where
  "input_validators config = List.map_filter (\<lambda>(k, v). map_option (Pair k) (toSchemaValidator (Some v)))
     (or_else (af_inputValidators config) [])"

text \<open>The random part of a default id is the first eight characters of a UUID.\<close>

definition newActor ::
  "machine \<Rightarrow> 'u handlers \<Rightarrow> ('s, 'u) actor_defaults \<Rightarrow> ('s, 'u) actor_config \<Rightarrow> ('u \<Rightarrow> string \<times> 'u) \<Rightarrow>
     's \<Rightarrow> 'u \<Rightarrow> (js_error + ('s, 'u) actor \<times> ('s, 'u) world) \<times> 'u" where
  "newActor m h defaults config uuid s u =
     (let (freshId, u') = (case af_actorId config of
             Some i \<Rightarrow> (i, u)
           | None \<Rightarrow> (case uuid u of (r, u1) \<Rightarrow> (md_id m @ ''-actor-'' @ take 8 r, u1)));
          rc = recovery_of (af_recovery config)
      in case compileMachineBindings m h (input_validators config) of
           Inl e \<Rightarrow> (Inl e, u')
         | Inr (compiled, yamlHooks) \<Rightarrow>
             (Inr (\<lparr>ac_machine = m, ac_actorId = freshId, ac_store = or_else (af_store config) (ad_store defaults),
                ac_world = or_else (af_clock config) (ad_clock defaults), ac_uuid = uuid, ac_handlers = h,
                ac_contextValidator = toSchemaValidator (af_contextValidator config),
                ac_bindings = cp_bindings compiled, ac_recovery = rc,
                ac_maxEffectChainDepth = max 1 (or_else (or_elseo (af_maxEffectChainDepth config)
                  (md_maxEffectChainDepth m)) 25),
                ac_hooks = the_list (ad_hooks defaults) @ the_list yamlHooks @ the_list (af_hooks config)\<rparr>,
              \<lparr>w_store = s, w_user = u', w_breakers = cp_breakers compiled, w_depth = [], w_revision = [],
                w_log = [], w_initialized = False, w_stoppedByRecovery = False,
                w_scheduler = scheduler_of rc (af_scheduler config), w_timerRunning = False,
                w_lastRunAt = None, w_nextRunAt = None, w_totalSweeps = 0, w_totalRecovered = 0,
                w_totalRetentionCleaned = 0, w_lastReport = None\<rparr>), u'))"

definition addHooks :: "'u hook_subscription \<Rightarrow> ('s, 'u) actor \<Rightarrow> ('s, 'u) actor" where
  "addHooks hooks a = a\<lparr>ac_hooks := ac_hooks a @ [hooks]\<rparr>"

text \<open>The function \<open>addHooks\<close> returns takes out the first subscription of that listener.\<close>

definition removeHooks :: "nat \<Rightarrow> ('s, 'u) actor \<Rightarrow> ('s, 'u) actor" where
  "removeHooks idx a = a\<lparr>ac_hooks := take idx (ac_hooks a) @ drop (Suc idx) (ac_hooks a)\<rparr>"

section \<open>Introspection\<close>

record effective_transition =
  ef_statePath :: string
  ef_event :: string
  ef_target :: "string option"
  ef_resolvedTransitionHandler :: "string option"
  ef_resolvedCompensateHandler :: "string option"
  ef_policy :: norm_policy
  ef_circuitBreakerState :: circuit_status

text \<open>The effective transitions; asking a breaker for its status may move it to \<open>HALF_OPEN\<close>.\<close>

definition effectiveTransitions :: "('s, 'u) actor \<Rightarrow> (effective_transition list, 's, 'u) act" where
  "effectiveTransitions a =
     fold_each (\<lambda>(_, b) acc.
        if bd_event b = ''$onDone'' \<and> truthy (te_transition (bd_edge b)) = None \<and>
           truthy (te_target (bd_edge b)) = None
        then ret acc
        else bind (now a) (\<lambda>t. (\<lambda>w.
          case manager_getStatus t (nc_key (np_circuitBreaker (bd_policy b))) (w_breakers w) of
            (st, bs) \<Rightarrow> Some (Inr (acc @ [\<lparr>ef_statePath = bd_statePath b, ef_event = bd_event b,
               ef_target = te_target (bd_edge b),
               ef_resolvedTransitionHandler = bd_resolvedTransitionName b,
               ef_resolvedCompensateHandler = bd_resolvedCompensateName b,
               ef_policy = bd_policy b, ef_circuitBreakerState = st\<rparr>]),
             w\<lparr>w_breakers := bs\<rparr>)))) (ac_bindings a) []"

record effective_config =
  ec_machineId :: string
  ec_version :: string
  ec_source :: definition_source
  ec_hasCustomErrorState :: bool
  ec_maxEffectChainDepth :: rat
  ec_resolvedHooks :: "hook_slot \<Rightarrow> string list"
  ec_registeredEffects :: "string list"
  ec_transitions :: "effective_transition list"

text \<open>The names resolved at construction are kept beside the actor; a slot without hooks is empty.\<close>

definition actor_getEffectiveConfig ::
  "('s, 'u) actor \<Rightarrow> (hook_slot \<Rightarrow> string list) \<Rightarrow> string list \<Rightarrow> (effective_config, 's, 'u) act" where
  "actor_getEffectiveConfig a hookNames effectNames =
     bind (effectiveTransitions a) (\<lambda>ts. ret \<lparr>ec_machineId = md_id (ac_machine a),
       ec_version = md_version (ac_machine a), ec_source = md_source (ac_machine a),
       ec_hasCustomErrorState = md_hasCustomErrorState (ac_machine a),
       ec_maxEffectChainDepth = ac_maxEffectChainDepth a, ec_resolvedHooks = hookNames,
       ec_registeredEffects = effectNames, ec_transitions = ts\<rparr>)"

definition resetCircuitBreaker :: "string option \<Rightarrow> (unit, 's, 'u) act" where
  "resetCircuitBreaker key = modify (\<lambda>w. w\<lparr>w_breakers := manager_reset key (w_breakers w)\<rparr>)"

record terminal_summary =
  sm_machineId :: string
  sm_terminalStatuses :: "tx_status list"
  sm_nonTerminalStatuses :: "tx_status list"
  sm_topLevelTerminalStates :: "string list"
  sm_states :: "terminal_descriptor list"

definition actor_getTerminalStates :: "machine \<Rightarrow> terminal_summary" where
  "actor_getTerminalStates m = (let states = getTerminalStates m in
     \<lparr>sm_machineId = md_id m, sm_terminalStatuses = TERMINAL_STATUSES,
      sm_nonTerminalStatuses = NON_TERMINAL_STATUSES,
      sm_topLevelTerminalStates = map td_path (filter td_isTopLevel states), sm_states = states\<rparr>)"

definition listTransactions ::
  "('s, 'u) actor \<Rightarrow> tx_status list option \<Rightarrow> int option \<Rightarrow> int option \<Rightarrow> (tx_summary list, 's, 'u) act" where
  "listTransactions a statuses limit offset =
     seq (store_call (\<lambda>s. (Inr (), so_initialize (ac_store a) s)))
     (bind (now a) (\<lambda>t. store_query a (no_filter\<lparr>qf_machineId := Some (md_id (ac_machine a)),
        qf_statuses := statuses, qf_limit := limit, qf_offset := offset\<rparr>) t
        (rc_stuckThresholdMs (ac_recovery a))))"

record status_breakdown =
  sb_nonTerminalCount :: nat
  sb_terminalCount :: nat
  sb_byStatus :: "tx_status \<Rightarrow> nat"

definition count_status :: "('s, 'u) actor \<Rightarrow> tx_status \<Rightarrow> (nat, 's, 'u) act" where
  "count_status a st = store_call (so_countTransactions (ac_store a) (machine_filter a [st]))"

definition getStatusBreakdown :: "('s, 'u) actor \<Rightarrow> (status_breakdown, 's, 'u) act" where
  "getStatusBreakdown a =
     seq (store_call (\<lambda>s. (Inr (), so_initialize (ac_store a) s)))
     (bind (fold_each (\<lambda>st acc. bind (count_status a st) (\<lambda>n. ret (acc(st := n))))
        [IDLE, IN_FLIGHT, COMPENSATING, COMPLETED, COMPENSATED, FAILED] (\<lambda>_. 0)) (\<lambda>c.
      ret \<lparr>sb_nonTerminalCount = c IDLE + c IN_FLIGHT + c COMPENSATING,
           sb_terminalCount = c COMPLETED + c COMPENSATED + c FAILED, sb_byStatus = c\<rparr>))"

definition getInFlightCount ::
  "('s, 'u) actor \<Rightarrow> bool \<Rightarrow> state_value option \<Rightarrow> bool option \<Rightarrow> (nat, 's, 'u) act" where
  "getInFlightCount a stuckOnly st includeCompensating =
     seq (store_call (\<lambda>s. (Inr (), so_initialize (ac_store a) s)))
     (bind (now a) (\<lambda>t. store_call (so_countTransactions (ac_store a)
        ((machine_filter a (if includeCompensating = Some False then [IN_FLIGHT]
           else [IN_FLIGHT, COMPENSATING]))\<lparr>
          qf_stuckBeforeTimestamp := (if stuckOnly then Some (t - rc_stuckThresholdMs (ac_recovery a)) else None),
          qf_stateEquals := st\<rparr>))))"

definition actor_close :: "(unit, 's, 'u) act" where
  "actor_close = stopScheduler"

text \<open>Reports of the actor's own state; the name of its driver is a constant of the store's class.\<close>

record actor_configuration =
  rv_actorId :: string
  rv_machineId :: string
  rv_machineVersion :: string
  rv_storeDriver :: string
  rv_hasContextValidator :: bool
  rv_recovery :: recovery_config
  rv_scheduler :: scheduler_config

definition getActorConfig :: "('s, 'u) actor \<Rightarrow> string \<Rightarrow> (actor_configuration, 's, 'u) act" where
  "getActorConfig a driverName = reads (\<lambda>w. \<lparr>rv_actorId = ac_actorId a, rv_machineId = md_id (ac_machine a),
     rv_machineVersion = md_version (ac_machine a), rv_storeDriver = driverName,
     rv_hasContextValidator = (ac_contextValidator a \<noteq> None), rv_recovery = ac_recovery a,
     rv_scheduler = w_scheduler w\<rparr>)"

definition getLoadedMachine ::
  "('s, 'u) actor \<Rightarrow> (hook_slot \<Rightarrow> string list) \<Rightarrow> string list \<Rightarrow> (machine \<times> effective_config, 's, 'u) act" where
  "getLoadedMachine a hookNames effectNames =
     bind (actor_getEffectiveConfig a hookNames effectNames) (\<lambda>c. ret (ac_machine a, c))"

definition actor_getAvailableEvents :: "('s, 'u) actor \<Rightarrow> state_value \<Rightarrow> string list" where
  "actor_getAvailableEvents a stateValue = getAvailableEvents (ac_machine a) stateValue"

definition getSchedulerConfig :: "(scheduler_config, 's, 'u) act" where
  "getSchedulerConfig = reads w_scheduler"

record scheduler_status =
  sk_isRunning :: bool
  sk_config :: scheduler_config
  sk_lastRunAt :: "int option"
  sk_nextRunAt :: "int option"
  sk_totalSweeps :: nat
  sk_totalRecoveredCount :: nat
  sk_totalRetentionCleanedCount :: nat
  sk_lastSweepReport :: "recovery_report option"

definition getSchedulerStatus :: "(scheduler_status, 's, 'u) act" where
  "getSchedulerStatus = reads (\<lambda>w. \<lparr>sk_isRunning = w_timerRunning w, sk_config = w_scheduler w,
     sk_lastRunAt = w_lastRunAt w, sk_nextRunAt = w_nextRunAt w, sk_totalSweeps = w_totalSweeps w,
     sk_totalRecoveredCount = w_totalRecovered w, sk_totalRetentionCleanedCount = w_totalRetentionCleaned w,
     sk_lastSweepReport = w_lastReport w\<rparr>)"

end
