(* ===== verification/Parser.thy ===== *)
theory Parser
  imports IR
begin

text \<open>
  The YAML parser of \<^verbatim>\<open>definition/parser.ts\<close>: the JSON schema of a definition as data, the meaning the
  JSON-Schema specification gives to the keywords it uses, the reading of policies, edges, states and
  hooks, and \<open>parseYamlMachine\<close>. The YAML parser and the schema validator are libraries: the record
  \<open>parser_lib\<close> passes them in. A document is a JSON value; an object field of another type than the
  schema demands is read as absent, which the schema check has excluded.
\<close>

section \<open>JSON schemas\<close>

datatype string_check = ConstString string | EnumString "string list" | MinLength nat | IdPattern

datatype schema =
    StringS "string_check list"
  | BoolS
  | NumberS "rat option"
  | IntegerS "rat option"
  | ArrayS nat schema
  | ObjectS "string list" nat "(string \<times> schema) list" "schema option"
  | OneOfS "schema list"
  | RefS string

fun string_check_ok :: "string \<Rightarrow> string_check \<Rightarrow> bool" where
  "string_check_ok s (ConstString c) = (s = c)"
| "string_check_ok s (EnumString cs) = (s \<in> set cs)"
| "string_check_ok s (MinLength n) = (n \<le> length s)"
| "string_check_ok s IdPattern = valid_machine_id s"

definition at_least :: "rat option \<Rightarrow> rat \<Rightarrow> bool" where
  "at_least lo r = (case lo of None \<Rightarrow> True | Some l \<Rightarrow> l \<le> r)"

text \<open>
  Whether a value conforms to a schema: the meaning of the keywords. \<open>k\<close> bounds the references
  followed without going down into the value; a chain of more than all definitions is circular.
\<close>

function (sequential) conforms :: "schema dict \<Rightarrow> nat \<Rightarrow> schema \<Rightarrow> jval \<Rightarrow> bool" where
  "conforms D k (StringS cs) (JStr s) = list_all (string_check_ok s) cs"
| "conforms D k BoolS (JBool b) = True"
| "conforms D k (NumberS lo) (JNum r) = at_least lo r"
| "conforms D k (IntegerS lo) (JNum r) = (is_integer r \<and> at_least lo r)"
| "conforms D k (ArrayS n S) (JArr xs) = (n \<le> length xs \<and> list_all (conforms D (length D) S) xs)"
| "conforms D k (ObjectS req n props extra) (JObj es) =
     (set req \<subseteq> set (keys es) \<and> n \<le> length es \<and>
      list_all (\<lambda>(key, v). case map_of props key of
         Some S \<Rightarrow> conforms D (length D) S v
       | None \<Rightarrow> (case extra of None \<Rightarrow> False | Some S \<Rightarrow> conforms D (length D) S v)) es)"
| "conforms D k (OneOfS Ss) v = (length (filter (\<lambda>S. conforms D k S v) Ss) = 1)"
| "conforms D (Suc k) (RefS name) v =
     (case map_of D name of None \<Rightarrow> False | Some S \<Rightarrow> conforms D k S v)"
| "conforms D k S v = False"
  by pat_completeness auto
termination
  by (relation "inv_image (less_than <*lex*> less_than <*lex*> less_than) (\<lambda>(D, k, S, v). (size v, k, size S))")
    (auto simp: less_Suc_eq_le size_list_estimation')

declare conforms.simps [simp del]

section \<open>The schema of a definition\<close>

definition nonempty_string :: schema where
  "nonempty_string = StringS [MinLength 1]"

definition object_of :: "(string \<times> schema) list \<Rightarrow> schema" where
  "object_of props = ObjectS [] 0 props None"

definition HookHandlerRef :: schema where
  "HookHandlerRef = OneOfS [nonempty_string, ArrayS 1 nonempty_string]"

definition MachineHooksConfig :: schema where
  "MachineHooksConfig = object_of
     [(''onStart'', RefS ''HookHandlerRef''), (''beforeTransition'', RefS ''HookHandlerRef''),
      (''afterTransition'', RefS ''HookHandlerRef''), (''onCompensate'', RefS ''HookHandlerRef''),
      (''onComplete'', RefS ''HookHandlerRef''), (''onTerminal'', RefS ''HookHandlerRef'')]"

definition BackoffConfig :: schema where
  "BackoffConfig = object_of
     [(''strategy'', StringS [EnumString [''fixed'', ''linear'', ''exponential'', ''exponential_jitter'']]),
      (''initialDelayMs'', NumberS (Some 0)), (''maxDelayMs'', NumberS (Some 0)),
      (''multiplier'', NumberS (Some 1))]"

definition RetryConfig :: schema where
  "RetryConfig = object_of
     [(''maxAttempts'', IntegerS (Some 1)), (''backoff'', RefS ''BackoffConfig'')]"

definition CircuitBreakerConfig :: schema where
  "CircuitBreakerConfig = object_of
     [(''enabled'', BoolS), (''key'', nonempty_string), (''failureThreshold'', IntegerS (Some 1)),
      (''slidingWindowSize'', IntegerS (Some 1)), (''openDurationMs'', IntegerS (Some 1)),
      (''halfOpenMaxCalls'', IntegerS (Some 1))]"

definition OnFailConfig :: schema where
  "OnFailConfig = object_of [(''compensate'', BoolS), (''target'', nonempty_string)]"

definition BenchmarkConfig :: schema where
  "BenchmarkConfig = object_of [(''enabled'', BoolS)]"

definition policy_properties :: "(string \<times> schema) list" where
  "policy_properties =
     [(''retry'', RefS ''RetryConfig''), (''circuitBreaker'', RefS ''CircuitBreakerConfig''),
      (''onFail'', RefS ''OnFailConfig''), (''benchmark'', RefS ''BenchmarkConfig'')]"

definition TransitionPolicy :: schema where
  "TransitionPolicy = object_of policy_properties"

definition TransitionDefinition :: schema where
  "TransitionDefinition = OneOfS [nonempty_string, object_of
     ([(''target'', nonempty_string), (''transition'', nonempty_string),
       (''compensate'', nonempty_string), (''effects'', ArrayS 0 nonempty_string),
       (''description'', StringS [])] @ policy_properties)]"

definition StateNodeS :: schema where
  "StateNodeS = object_of
     [(''type'', StringS [EnumString [''atomic'', ''compound'', ''parallel'', ''final'']]),
      (''description'', StringS []), (''initial'', nonempty_string),
      (''entry'', ArrayS 0 nonempty_string), (''exit'', ArrayS 0 nonempty_string),
      (''on'', ObjectS [] 0 [] (Some (RefS ''TransitionDefinition''))),
      (''onDone'', RefS ''TransitionDefinition''),
      (''states'', ObjectS [] 1 [] (Some (RefS ''StateNode'')))]"

definition schema_definitions :: "schema dict" where
  "schema_definitions =
     [(''HookHandlerRef'', HookHandlerRef), (''MachineHooksConfig'', MachineHooksConfig),
      (''BackoffConfig'', BackoffConfig), (''RetryConfig'', RetryConfig),
      (''CircuitBreakerConfig'', CircuitBreakerConfig), (''OnFailConfig'', OnFailConfig),
      (''BenchmarkConfig'', BenchmarkConfig), (''TransitionPolicy'', TransitionPolicy),
      (''TransitionDefinition'', TransitionDefinition), (''StateNode'', StateNodeS)]"

definition DFSM_V1_SCHEMA :: schema where
  "DFSM_V1_SCHEMA = ObjectS [''dfsm'', ''id'', ''states''] 0
     [(''dfsm'', StringS [ConstString ''1.0'']), (''id'', StringS [IdPattern, MinLength 1]),
      (''version'', StringS []), (''description'', StringS []),
      (''type'', StringS [EnumString [''compound'', ''parallel'']]), (''initial'', nonempty_string),
      (''registry'', object_of [(''namespace'', nonempty_string), (''strict'', BoolS)]),
      (''defaults'', RefS ''TransitionPolicy''), (''hooks'', RefS ''MachineHooksConfig''),
      (''effects'', ArrayS 0 nonempty_string), (''maxEffectChainDepth'', IntegerS (Some 1)),
      (''states'', ObjectS [] 1 [] (Some (RefS ''StateNode'')))] None"

abbreviation dfsm_conforms :: "jval \<Rightarrow> bool" where
  "dfsm_conforms \<equiv> conforms schema_definitions (length schema_definitions) DFSM_V1_SCHEMA"

section \<open>Reading fields\<close>

definition object_fields :: "jval option \<Rightarrow> jval dict" where
  "object_fields v = (case v of Some (JObj es) \<Rightarrow> es | _ \<Rightarrow> [])"

definition string_value :: "jval option \<Rightarrow> string option" where
  "string_value v = (case v of Some (JStr s) \<Rightarrow> Some s | _ \<Rightarrow> None)"

definition bool_value :: "jval option \<Rightarrow> bool option" where
  "bool_value v = (case v of Some (JBool b) \<Rightarrow> Some b | _ \<Rightarrow> None)"

definition number_value :: "jval option \<Rightarrow> rat option" where
  "number_value v = (case v of Some (JNum r) \<Rightarrow> Some r | _ \<Rightarrow> None)"

definition integer_value :: "jval option \<Rightarrow> int option" where
  "integer_value v = map_option floor (number_value v)"

definition string_items :: "jval option \<Rightarrow> string list" where
  "string_items v =
     (case v of Some (JArr xs) \<Rightarrow> List.map_filter (\<lambda>x. string_value (Some x)) xs | _ \<Rightarrow> [])"

text \<open>A value in a condition: \<open>undefined\<close>, \<open>null\<close>, \<open>false\<close>, zero and the empty string are falsy.\<close>

definition js_true :: "jval option \<Rightarrow> bool" where
  "js_true v = (case v of None \<Rightarrow> False | Some JNull \<Rightarrow> False | Some (JBool b) \<Rightarrow> b
     | Some (JNum r) \<Rightarrow> r \<noteq> 0 | Some (JStr s) \<Rightarrow> s \<noteq> [] | Some _ \<Rightarrow> True)"

definition strategy_value :: "jval option \<Rightarrow> backoff_strategy option" where
  "strategy_value v =
     (case string_value v of
        None \<Rightarrow> None
      | Some s \<Rightarrow> map_of [(''fixed'', Fixed), (''linear'', Linear), (''exponential'', Exponential),
                        (''exponential_jitter'', ExponentialJitter)] s)"

definition node_type_value :: "jval option \<Rightarrow> node_type option" where
  "node_type_value v =
     (case string_value v of
        None \<Rightarrow> None
      | Some s \<Rightarrow> map_of [(''atomic'', Atomic), (''compound'', Compound), (''parallel'', Parallel),
                        (''final'', Final)] s)"

section \<open>Policies, edges, states and hooks\<close>

definition read_backoff :: "jval dict \<Rightarrow> partial_backoff" where
  "read_backoff b = \<lparr>pb_strategy = strategy_value (map_of b ''strategy''),
     pb_initialDelayMs = number_value (map_of b ''initialDelayMs''),
     pb_maxDelayMs = number_value (map_of b ''maxDelayMs''),
     pb_multiplier = number_value (map_of b ''multiplier'')\<rparr>"

definition read_retry :: "jval dict \<Rightarrow> partial_retry" where
  "read_retry r = \<lparr>pr_maxAttempts = integer_value (map_of r ''maxAttempts''),
     pr_backoff = (if js_true (map_of r ''backoff'')
                   then Some (read_backoff (object_fields (map_of r ''backoff''))) else None),
     pr_retryIf = None\<rparr>"

definition read_breaker :: "jval dict \<Rightarrow> partial_breaker" where
  "read_breaker c = \<lparr>pc_enabled = bool_value (map_of c ''enabled''),
     pc_key = string_value (map_of c ''key''),
     pc_failureThreshold = integer_value (map_of c ''failureThreshold''),
     pc_slidingWindowSize = integer_value (map_of c ''slidingWindowSize''),
     pc_openDurationMs = integer_value (map_of c ''openDurationMs''),
     pc_halfOpenMaxCalls = integer_value (map_of c ''halfOpenMaxCalls'')\<rparr>"

definition read_onfail :: "jval dict \<Rightarrow> partial_onfail" where
  "read_onfail f = \<lparr>po_compensate = bool_value (map_of f ''compensate''),
     po_target = string_value (map_of f ''target'')\<rparr>"

definition read_benchmark :: "jval dict \<Rightarrow> partial_benchmark" where
  "read_benchmark b = \<lparr>pm_enabled = bool_value (map_of b ''enabled'')\<rparr>"

definition when_true :: "(jval dict \<Rightarrow> 'a) \<Rightarrow> jval option \<Rightarrow> 'a option" where
  "when_true f v = (if js_true v then Some (f (object_fields v)) else None)"

definition extractPolicy :: "jval dict \<Rightarrow> partial_policy" where
  "extractPolicy raw = \<lparr>
     pp_retry = when_true read_retry (map_of raw ''retry''),
     pp_circuitBreaker = when_true read_breaker (map_of raw ''circuitBreaker''),
     pp_onFail = when_true read_onfail (map_of raw ''onFail''),
     pp_benchmark = when_true read_benchmark (map_of raw ''benchmark''),
     pp_compensateHandler = string_value (map_of raw ''compensate'')\<rparr>"

definition parseTransitionEdge :: "string \<Rightarrow> jval \<Rightarrow> transition_edge" where
  "parseTransitionEdge event rawDef =
     (case rawDef of
        JStr s \<Rightarrow> \<lparr>te_event = event, te_target = Some s, te_transition = None, te_compensate = None,
           te_effects = [], te_description = None, te_policy = empty_policy\<rparr>
      | _ \<Rightarrow> (let obj = object_fields (Some rawDef) in
         \<lparr>te_event = event, te_target = string_value (map_of obj ''target''),
          te_transition = string_value (map_of obj ''transition''),
          te_compensate = string_value (map_of obj ''compensate''),
          te_effects = string_items (map_of obj ''effects''),
          te_description = string_value (map_of obj ''description''),
          te_policy = extractPolicy obj\<rparr>))"

text \<open>Assigning the entries of a list to a fresh object.\<close>

definition assign_all :: "(string \<times> 'a) list \<Rightarrow> 'a dict" where
  "assign_all kvs = fold (\<lambda>(k, v). AList.update k v) kvs []"

abbreviation fields_size :: "jval dict \<Rightarrow> nat" where
  "fields_size \<equiv> size_list (size_prod (\<lambda>_. 0) size)"

lemma entry_size: "(k, v) \<in> set es \<Longrightarrow> size v < fields_size es"
  by (induction es) auto

lemma object_fields_le: "fields_size (object_fields (Some v)) \<le> size v"
  by (cases v) (auto simp: object_fields_def)

lemma object_fields_size:
  assumes "(k, v) \<in> set (object_fields (map_of es key))"
  shows "fields_size (object_fields (Some v)) < fields_size es"
proof -
  obtain w where w: "map_of es key = Some w" using assms by (cases "map_of es key") (auto simp: object_fields_def)
  have "fields_size (object_fields (Some v)) < fields_size (object_fields (Some w))"
    using entry_size [of k v "object_fields (Some w)"] object_fields_le [of v] assms w by simp
  also have "\<dots> < fields_size es"
    using entry_size [OF map_of_SomeD [OF w]] object_fields_le [of w] by simp
  finally show ?thesis .
qed

function parseStateNode :: "string \<Rightarrow> string \<Rightarrow> jval dict \<Rightarrow> state_node" where
  "parseStateNode key parentPath rawNode =
     (let path = (if parentPath \<noteq> [] then parentPath @ dot @ key else key);
          rawStates = object_fields (map_of rawNode ''states'');
          inferredType = or_else (node_type_value (map_of rawNode ''type''))
             (if rawStates \<noteq> [] then Compound else Atomic)
      in StateNode key path inferredType
           (string_value (map_of rawNode ''description'')) (string_value (map_of rawNode ''initial''))
           (string_items (map_of rawNode ''entry'')) (string_items (map_of rawNode ''exit''))
           (assign_all (map (\<lambda>(event, e). (event, parseTransitionEdge event e))
              (object_fields (map_of rawNode ''on''))))
           (if js_true (map_of rawNode ''onDone'')
            then map_option (parseTransitionEdge ''$onDone'') (map_of rawNode ''onDone'') else None)
           (assign_all (map (\<lambda>(childKey, childRaw).
              (childKey, parseStateNode childKey path (object_fields (Some childRaw)))) rawStates))
           False)"
  by pat_completeness auto
termination
  by (relation "measure (\<lambda>(_, _, rawNode). fields_size rawNode)")
    (auto intro: object_fields_size)

declare parseStateNode.simps [simp del]

text \<open>Evaluation goes down only into fields that are there.\<close>

lemmas parseStateNode_eval [code] =
  parseStateNode.simps [where rawNode = "[]"] parseStateNode.simps [where rawNode = "kv # kvs" for kv kvs]

definition toStringList :: "jval option \<Rightarrow> string list" where
  "toStringList v =
     (case v of Some (JStr s) \<Rightarrow> [s] | Some (JArr _) \<Rightarrow> string_items v | _ \<Rightarrow> [])"

definition slot_name :: "hook_slot \<Rightarrow> string" where
  "slot_name slot =
     (case slot of OnStart \<Rightarrow> ''onStart'' | BeforeTransition \<Rightarrow> ''beforeTransition''
      | AfterTransition \<Rightarrow> ''afterTransition'' | OnCompensate \<Rightarrow> ''onCompensate''
      | OnComplete \<Rightarrow> ''onComplete'' | OnTerminal \<Rightarrow> ''onTerminal'')"

definition extractHooks :: "jval option \<Rightarrow> machine_hooks" where
  "extractHooks rawHooks =
     (case rawHooks of
        Some (JObj hs) \<Rightarrow> (\<lambda>slot. toStringList (map_of hs (slot_name slot)))
      | _ \<Rightarrow> createEmptyMachineHooksIR)"

section \<open>The parser\<close>

text \<open>
  The libraries: \<open>parse\<close> of \<^verbatim>\<open>yaml\<close>, which throws or returns a value, and the validator \<^verbatim>\<open>ajv\<close> compiles
  from a schema, which returns the violations (instance path and message).
\<close>

record parser_lib =
  pl_parseYaml :: "string \<Rightarrow> js_error + jval"
  pl_validate :: "schema dict \<Rightarrow> schema \<Rightarrow> jval \<Rightarrow> (string \<times> string option) list"

text \<open>What the validator promises: no violation exactly when the value conforms to the schema.\<close>

definition validates :: "parser_lib \<Rightarrow> bool" where
  "validates lib \<longleftrightarrow> (\<forall>D S v. pl_validate lib D S v = [] \<longleftrightarrow> conforms D (length D) S v)"

definition violation_text :: "string \<times> string option \<Rightarrow> string" where
  "violation_text e = (case e of (p, m) \<Rightarrow>
     (if p = [] then ''/'' else p) @ '' '' @ or_else m ''schema violation'')"

definition context_forbidden :: js_error where
  "context_forbidden = MachineValidationError
     (''Untyped '' @ quoted ''context'' @
      '' is not allowed in DFSM YAML. Define generic TContext and validation in source code.'')
     [''root.context: Untyped context in YAML is disallowed; define typed TContext in code.'']"

definition root_type_value :: "jval option \<Rightarrow> root_type option" where
  "root_type_value v =
     (case string_value v of
        None \<Rightarrow> None
      | Some s \<Rightarrow> map_of [(''compound'', RootCompound), (''parallel'', RootParallel)] s)"

definition raw_of_document :: "jval dict \<Rightarrow> raw_machine" where
  "raw_of_document doc = \<lparr>
     rm_id = or_else (string_value (map_of doc ''id'')) [],
     rm_version = or_else (string_value (map_of doc ''version'')) ''1.0.0'',
     rm_description = string_value (map_of doc ''description''),
     rm_source = SourceYaml,
     rm_type = or_else (root_type_value (map_of doc ''type'')) RootCompound,
     rm_initial = string_value (map_of doc ''initial''),
     rm_registry = (let reg = object_fields (map_of doc ''registry'') in
       \<lparr>rb_namespace = string_value (map_of reg ''namespace''),
        rb_strict = or_else (bool_value (map_of reg ''strict'')) True\<rparr>),
     rm_defaults = extractPolicy (object_fields (map_of doc ''defaults'')),
     rm_hooks = Some (\<lambda>slot. Some (extractHooks (map_of doc ''hooks'') slot)),
     rm_effects = Some (string_items (map_of doc ''effects'')),
     rm_maxEffectChainDepth = number_value (map_of doc ''maxEffectChainDepth''),
     rm_states = assign_all (map (\<lambda>(stateKey, rawState).
       (stateKey, parseStateNode stateKey [] (object_fields (Some rawState))))
         (object_fields (map_of doc ''states'')))\<rparr>"

definition parseYamlMachine :: "parser_lib \<Rightarrow> string \<Rightarrow> js_error + machine" where
  "parseYamlMachine lib yamlContent =
     (case pl_parseYaml lib yamlContent of
        Inl err \<Rightarrow> Inl (MachineValidationError (''Failed to parse DFSM YAML: '' @ error_message err) [])
      | Inr (JObj doc) \<Rightarrow>
          if ''context'' \<in> set (keys doc) then Inl context_forbidden
          else
            (let issues = map violation_text (pl_validate lib schema_definitions DFSM_V1_SCHEMA (JObj doc)) in
             if issues \<noteq> [] then
               Inl (MachineValidationError
                 (''DFSM YAML schema validation failed: '' @ join ''; '' issues) issues)
             else finalizeAndValidateMachineIR (raw_of_document doc))
      | Inr _ \<Rightarrow> Inl (MachineValidationError ''DFSM YAML root must be a mapping object.'' []))"

text \<open>Reading the file is an operation of the file system: an error or the content.\<close>

definition loadYamlMachineFromFile ::
  "parser_lib \<Rightarrow> (string \<Rightarrow> js_error + string) \<Rightarrow> string \<Rightarrow> js_error + machine" where
  "loadYamlMachineFromFile lib readFile filePath =
     (case readFile filePath of Inl e \<Rightarrow> Inl e | Inr content \<Rightarrow> parseYamlMachine lib content)"

section \<open>Parsed trees keep the path discipline\<close>

text \<open>Keys that can be path segments, at every level; the schema does not demand it.\<close>

fun keys_wf :: "state_node \<Rightarrow> bool" where
  "keys_wf (StateNode k path ty desc init en ex on od sts imp) \<longleftrightarrow>
     list_all (\<lambda>(ck, child). wf_key ck \<and> keys_wf child) sts"

definition forest_keys_wf :: "state_node dict \<Rightarrow> bool" where
  "forest_keys_wf states \<longleftrightarrow> list_all (\<lambda>(k, n). wf_key k \<and> keys_wf n) states"

lemma assign_all_distinct [simp]: "distinct (keys (assign_all kvs))"
proof -
  have "distinct (keys d) \<Longrightarrow> distinct (keys (fold (\<lambda>(k, v). AList.update k v) kvs d))" for d :: "'a dict"
    by (induction kvs arbitrary: d) (auto intro: distinct_keys_update)
  then show ?thesis by (simp add: assign_all_def)
qed

lemma assign_all_subset: "set (assign_all kvs) \<subseteq> set kvs"
proof -
  have "set (fold (\<lambda>(k, v). AList.update k v) kvs d) \<subseteq> set d \<union> set kvs" for d :: "'a dict"
  proof (induction kvs arbitrary: d)
    case (Cons kv kvs)
    show ?case using Cons [of "AList.update (fst kv) (snd kv) d"] set_update_subset [of "fst kv" "snd kv" d]
      by (cases kv) auto
  qed simp
  from this [of "[]"] show ?thesis by (simp add: assign_all_def)
qed

lemma parse_tree_ok:
  assumes "wf_key key" "\<forall>p \<in> set pre. wf_key p" "keys_wf (parseStateNode key (join_dot pre) raw)"
  shows "tree_ok pre key (parseStateNode key (join_dot pre) raw)"
  using assms
proof (induction key "join_dot pre" raw arbitrary: pre rule: parseStateNode.induct)
  case (1 key raw pre)
  let ?kids = "map (\<lambda>(ck, c). (ck, parseStateNode ck (join_dot (pre @ [key])) (object_fields (Some c))))
    (object_fields (map_of raw ''states''))"
  have path: "(if join_dot pre \<noteq> [] then join_dot pre @ dot @ key else key) = join_dot (pre @ [key])"
    using 1(3) by (auto simp: join_dot_eq_Nil join_dot_snoc)
  have wf: "\<forall>p \<in> set (pre @ [key]). wf_key p" using 1(2,3) by auto
  have "tree_ok (pre @ [key]) ck child" if c: "(ck, child) \<in> set (assign_all ?kids)" for ck child
  proof -
    from c assign_all_subset obtain v where v: "(ck, v) \<in> set (object_fields (map_of raw ''states''))"
      "child = parseStateNode ck (join_dot (pre @ [key])) (object_fields (Some v))" by fastforce
    have "wf_key ck" "keys_wf child"
      using 1(4) c unfolding parseStateNode.simps [of key _ raw] Let_def path by (auto simp: list_all_iff)
    with 1(1) [of "pre @ [key]" "object_fields (map_of raw ''states'')" _ "(ck, v)" ck v] path v wf
    show ?thesis by auto
  qed
  then show ?case
    unfolding parseStateNode.simps [of key _ raw] Let_def path using 1(2) by (auto simp: list_all_iff)
qed

lemma forest_keys_wf_error: "forest_keys_wf (with_error_state sts) \<Longrightarrow> forest_keys_wf sts"
  by (auto simp: with_error_state_def forest_keys_wf_def split: if_splits)

lemma finalize_states: "finalizeAndValidateMachineIR raw = Inr m \<Longrightarrow> m = to_machine raw"
  by (auto simp: finalizeAndValidateMachineIR_def Let_def split: if_splits)

lemma raw_of_document_forest:
  assumes "forest_keys_wf (rm_states (raw_of_document doc))"
  shows "forest_ok [] (rm_states (raw_of_document doc))"
proof -
  have "tree_ok [] k n" if kn: "(k, n) \<in> set (rm_states (raw_of_document doc))" for k n
  proof -
    have "\<exists>raw. n = parseStateNode k (join_dot []) raw"
      using kn assign_all_subset by (fastforce simp: raw_of_document_def)
    with kn assms parse_tree_ok [of k "[]"] show ?thesis
      by (auto simp: forest_keys_wf_def list_all_iff)
  qed
  then show ?thesis by (auto simp: forest_ok_def list_all_iff raw_of_document_def)
qed

lemma parse_machine:
  assumes "parseYamlMachine lib content = Inr m"
  shows "\<exists>doc. pl_parseYaml lib content = Inr (JObj doc) \<and>
    pl_validate lib schema_definitions DFSM_V1_SCHEMA (JObj doc) = [] \<and>
    finalizeAndValidateMachineIR (raw_of_document doc) = Inr m"
  using assms by (auto simp: parseYamlMachine_def Let_def split: sum.splits jval.splits if_splits)

theorem parsed_machine:
  assumes "parseYamlMachine lib content = Inr m" "forest_keys_wf (md_states m)"
  shows "machine_ok m"
proof -
  from parse_machine [OF assms(1)] obtain doc where d: "finalizeAndValidateMachineIR (raw_of_document doc) = Inr m"
    by blast
  have "forest_keys_wf (rm_states (raw_of_document doc))"
    using assms(2) finalize_states [OF d] forest_keys_wf_error by (simp add: to_machine_def)
  from finalize_ok [OF d raw_of_document_forest [OF this]] show ?thesis .
qed

lemma parsed_references: "parseYamlMachine lib content = Inr m \<Longrightarrow> references_ok m"
  using parse_machine finalize_references by blast

lemma tree_keys: "tree_ok pre k n \<Longrightarrow> wf_key k \<and> keys_wf n"
proof (induction n arbitrary: pre k rule: keys_wf.induct)
  case (1 k' path ty desc init en ex on od sts imp)
  then show ?case by (fastforce simp: list_all_iff)
qed

lemma machine_keys: "machine_ok m \<Longrightarrow> forest_keys_wf (md_states m)"
  using tree_keys by (fastforce simp: machine_ok_def forest_ok_def forest_keys_wf_def list_all_iff)

lemma parse_errors:
  "parseYamlMachine lib content = Inl e \<Longrightarrow> \<exists>msg issues. e = MachineValidationError msg issues"
  by (auto simp: parseYamlMachine_def finalizeAndValidateMachineIR_def context_forbidden_def Let_def
      split: sum.splits jval.splits if_splits)

end
