(* ===== verification/Builder.thy ===== *)
theory Builder
  imports Parser
begin

text \<open>
  The fluent builders of \<^verbatim>\<open>definition/builder.ts\<close>: \<open>StateNodeBuilder\<close> and \<open>MachineBuilder\<close> as records with
  one function per method. A \<open>configure\<close> callback is a function on the builder it receives; the calls
  a callback can make are the data type \<open>node_call\<close>, whose runs are what a fluent program does. The
  lemmas show that built trees keep the path discipline and that a fluent program made from a YAML
  document builds the machine the parser reads.
\<close>

section \<open>Edges\<close>

record edge_input =
  ei_target :: "string option"
  ei_transition :: "string option"
  ei_compensate :: "string option"
  ei_effects :: "string list option"
  ei_description :: "string option"
  ei_policy :: partial_policy

datatype target_or_config = TargetRef string | EdgeConfig edge_input

definition toEdge :: "string \<Rightarrow> target_or_config \<Rightarrow> transition_edge" where
  "toEdge event t =
     (case t of
        TargetRef s \<Rightarrow> \<lparr>te_event = event, te_target = Some s, te_transition = None, te_compensate = None,
          te_effects = [], te_description = None, te_policy = empty_policy\<rparr>
      | EdgeConfig c \<Rightarrow>
          (let comp = or_elseo (ei_compensate c) (pp_compensateHandler (ei_policy c)) in
           \<lparr>te_event = event, te_target = ei_target c, te_transition = ei_transition c,
            te_compensate = comp, te_effects = or_else (ei_effects c) [],
            te_description = ei_description c,
            te_policy = (ei_policy c)\<lparr>pp_compensateHandler := truthy comp\<rparr>\<rparr>))"

section \<open>State builders\<close>

record state_builder =
  sb_key :: string
  sb_path :: string
  sb_nodeType :: node_type
  sb_initialChild :: "string option"
  sb_desc :: "string option"
  sb_entryEffects :: "string list"
  sb_exitEffects :: "string list"
  sb_transitions :: "transition_edge dict"
  sb_onDoneEdge :: "transition_edge option"
  sb_children :: "state_node dict"

definition newStateBuilder :: "string \<Rightarrow> string \<Rightarrow> node_type \<Rightarrow> string option \<Rightarrow> state_builder" where
  "newStateBuilder key parentPath ty init = \<lparr>sb_key = key,
     sb_path = (if parentPath \<noteq> [] then parentPath @ dot @ key else key), sb_nodeType = ty,
     sb_initialChild = init, sb_desc = None, sb_entryEffects = [], sb_exitEffects = [],
     sb_transitions = [], sb_onDoneEdge = None, sb_children = []\<rparr>"

definition sb_describe :: "string \<Rightarrow> state_builder \<Rightarrow> state_builder" where
  "sb_describe txt b = b\<lparr>sb_desc := Some txt\<rparr>"

definition sb_entry :: "string list \<Rightarrow> state_builder \<Rightarrow> state_builder" where
  "sb_entry hs b = b\<lparr>sb_entryEffects := sb_entryEffects b @ hs\<rparr>"

definition sb_exit :: "string list \<Rightarrow> state_builder \<Rightarrow> state_builder" where
  "sb_exit hs b = b\<lparr>sb_exitEffects := sb_exitEffects b @ hs\<rparr>"

definition sb_on :: "string \<Rightarrow> target_or_config \<Rightarrow> state_builder \<Rightarrow> state_builder" where
  "sb_on event t b = b\<lparr>sb_transitions := AList.update event (toEdge event t) (sb_transitions b)\<rparr>"

definition sb_onDone :: "target_or_config \<Rightarrow> state_builder \<Rightarrow> state_builder" where
  "sb_onDone t b = b\<lparr>sb_onDoneEdge := Some (toEdge ''$onDone'' t)\<rparr>"

definition buildNode :: "state_builder \<Rightarrow> state_node" where
  "buildNode b = StateNode (sb_key b) (sb_path b) (sb_nodeType b) (sb_desc b) (sb_initialChild b)
     (sb_entryEffects b) (sb_exitEffects b) (sb_transitions b) (sb_onDoneEdge b) (sb_children b) False"

definition add_child :: "string \<Rightarrow> state_node \<Rightarrow> state_builder \<Rightarrow> state_builder" where
  "add_child childKey n b = b\<lparr>sb_children := AList.update childKey n (sb_children b),
     sb_nodeType := (if sb_nodeType b = Atomic then Compound else sb_nodeType b)\<rparr>"

definition sb_state :: "string \<Rightarrow> (state_builder \<Rightarrow> state_builder) \<Rightarrow> state_builder \<Rightarrow> state_builder" where
  "sb_state childKey configure b =
     add_child childKey (buildNode (configure (newStateBuilder childKey (sb_path b) Atomic None))) b"

definition sb_compoundState ::
  "string \<Rightarrow> string \<Rightarrow> (state_builder \<Rightarrow> state_builder) \<Rightarrow> state_builder \<Rightarrow> state_builder" where
  "sb_compoundState childKey init configure b =
     add_child childKey (buildNode (configure (newStateBuilder childKey (sb_path b) Compound (Some init)))) b"

definition sb_parallelState ::
  "string \<Rightarrow> (state_builder \<Rightarrow> state_builder) \<Rightarrow> state_builder \<Rightarrow> state_builder" where
  "sb_parallelState childKey configure b =
     add_child childKey (buildNode (configure (newStateBuilder childKey (sb_path b) Parallel None))) b"

definition sb_finalState ::
  "string \<Rightarrow> (state_builder \<Rightarrow> state_builder) \<Rightarrow> state_builder \<Rightarrow> state_builder" where
  "sb_finalState childKey configure b =
     add_child childKey (buildNode (configure (newStateBuilder childKey (sb_path b) Final None))) b"

section \<open>Machine builders\<close>

record machine_builder =
  mb_machineId :: string
  mb_version :: string
  mb_description :: "string option"
  mb_rootType :: root_type
  mb_initialKey :: "string option"
  mb_registryConfig :: registry_binding
  mb_defaultPolicy :: partial_policy
  mb_machineHooks :: machine_hooks
  mb_machineEffects :: "string list"
  mb_effectChainLimit :: "rat option"
  mb_rootStates :: "state_node dict"

definition createMachine :: "string \<Rightarrow> machine_builder" where
  "createMachine machineId = \<lparr>mb_machineId = machineId, mb_version = ''1.0.0'', mb_description = None,
     mb_rootType = RootCompound, mb_initialKey = None,
     mb_registryConfig = \<lparr>rb_namespace = None, rb_strict = True\<rparr>, mb_defaultPolicy = empty_policy,
     mb_machineHooks = createEmptyMachineHooksIR, mb_machineEffects = [], mb_effectChainLimit = None,
     mb_rootStates = []\<rparr>"

definition mb_setVersion :: "string \<Rightarrow> machine_builder \<Rightarrow> machine_builder" where
  "mb_setVersion v b = b\<lparr>mb_version := v\<rparr>"

definition mb_describe :: "string \<Rightarrow> machine_builder \<Rightarrow> machine_builder" where
  "mb_describe txt b = b\<lparr>mb_description := Some txt\<rparr>"

definition mb_initial :: "string \<Rightarrow> machine_builder \<Rightarrow> machine_builder" where
  "mb_initial stateKey b = b\<lparr>mb_initialKey := Some stateKey, mb_rootType := RootCompound\<rparr>"

definition mb_parallelRoot :: "machine_builder \<Rightarrow> machine_builder" where
  "mb_parallelRoot b = b\<lparr>mb_rootType := RootParallel, mb_initialKey := None\<rparr>"

definition mb_registry :: "string option \<Rightarrow> bool option \<Rightarrow> machine_builder \<Rightarrow> machine_builder" where
  "mb_registry namespace strict b =
     b\<lparr>mb_registryConfig := \<lparr>rb_namespace = namespace, rb_strict = or_else strict True\<rparr>\<rparr>"

text \<open>The spread of two partial policies is shallow: a group of the later one replaces the earlier.\<close>

definition spread_policy :: "partial_policy \<Rightarrow> partial_policy \<Rightarrow> partial_policy" where
  "spread_policy base over = \<lparr>
     pp_retry = or_elseo (pp_retry over) (pp_retry base),
     pp_circuitBreaker = or_elseo (pp_circuitBreaker over) (pp_circuitBreaker base),
     pp_onFail = or_elseo (pp_onFail over) (pp_onFail base),
     pp_benchmark = or_elseo (pp_benchmark over) (pp_benchmark base),
     pp_compensateHandler = or_elseo (pp_compensateHandler over) (pp_compensateHandler base)\<rparr>"

definition mb_defaults :: "partial_policy \<Rightarrow> machine_builder \<Rightarrow> machine_builder" where
  "mb_defaults policy b = b\<lparr>mb_defaultPolicy := spread_policy (mb_defaultPolicy b) policy\<rparr>"

definition mb_hook :: "hook_slot \<Rightarrow> string list \<Rightarrow> machine_builder \<Rightarrow> machine_builder" where
  "mb_hook slot names b =
     b\<lparr>mb_machineHooks := (mb_machineHooks b)(slot := mb_machineHooks b slot @ names)\<rparr>"

datatype hook_ref = OneHook string | ManyHooks "string list"

definition hook_ref_list :: "hook_ref option \<Rightarrow> string list" where
  "hook_ref_list v =
     (case v of None \<Rightarrow> [] | Some (OneHook s) \<Rightarrow> if s = [] then [] else [s] | Some (ManyHooks hs) \<Rightarrow> hs)"

definition mb_hooks :: "(hook_slot \<times> hook_ref option) list \<Rightarrow> machine_builder \<Rightarrow> machine_builder" where
  "mb_hooks config b = fold (\<lambda>(slot, v). mb_hook slot (hook_ref_list v)) config b"

definition mb_effects :: "string list \<Rightarrow> machine_builder \<Rightarrow> machine_builder" where
  "mb_effects names b = b\<lparr>mb_machineEffects := mb_machineEffects b @ names\<rparr>"

definition mb_maxEffectChainDepth :: "rat \<Rightarrow> machine_builder \<Rightarrow> machine_builder" where
  "mb_maxEffectChainDepth d b = b\<lparr>mb_effectChainLimit := Some d\<rparr>"

definition add_root :: "string \<Rightarrow> state_node \<Rightarrow> machine_builder \<Rightarrow> machine_builder" where
  "add_root stateKey n b = b\<lparr>mb_rootStates := AList.update stateKey n (mb_rootStates b)\<rparr>"

definition mb_state :: "string \<Rightarrow> (state_builder \<Rightarrow> state_builder) \<Rightarrow> machine_builder \<Rightarrow> machine_builder" where
  "mb_state stateKey configure =
     add_root stateKey (buildNode (configure (newStateBuilder stateKey [] Atomic None)))"

definition mb_compoundState ::
  "string \<Rightarrow> string \<Rightarrow> (state_builder \<Rightarrow> state_builder) \<Rightarrow> machine_builder \<Rightarrow> machine_builder" where
  "mb_compoundState stateKey init configure =
     add_root stateKey (buildNode (configure (newStateBuilder stateKey [] Compound (Some init))))"

definition mb_parallelState ::
  "string \<Rightarrow> (state_builder \<Rightarrow> state_builder) \<Rightarrow> machine_builder \<Rightarrow> machine_builder" where
  "mb_parallelState stateKey configure =
     add_root stateKey (buildNode (configure (newStateBuilder stateKey [] Parallel None)))"

definition mb_finalState ::
  "string \<Rightarrow> (state_builder \<Rightarrow> state_builder) \<Rightarrow> machine_builder \<Rightarrow> machine_builder" where
  "mb_finalState stateKey configure =
     add_root stateKey (buildNode (configure (newStateBuilder stateKey [] Final None)))"

definition mb_errorState ::
  "node_type \<Rightarrow> (state_builder \<Rightarrow> state_builder) \<Rightarrow> machine_builder \<Rightarrow> machine_builder" where
  "mb_errorState ty configure =
     add_root ''error'' (buildNode (configure (newStateBuilder ''error'' [] ty None)))"

definition raw_of_builder :: "machine_builder \<Rightarrow> raw_machine" where
  "raw_of_builder b = \<lparr>rm_id = mb_machineId b, rm_version = mb_version b,
     rm_description = mb_description b, rm_source = SourceBuilder, rm_type = mb_rootType b,
     rm_initial = mb_initialKey b, rm_registry = mb_registryConfig b,
     rm_defaults = mb_defaultPolicy b, rm_hooks = Some (\<lambda>slot. Some (mb_machineHooks b slot)),
     rm_effects = Some (mb_machineEffects b), rm_maxEffectChainDepth = mb_effectChainLimit b,
     rm_states = mb_rootStates b\<rparr>"

definition build :: "machine_builder \<Rightarrow> js_error + machine" where
  "build b = finalizeAndValidateMachineIR (raw_of_builder b)"

section \<open>Fluent programs\<close>

text \<open>The calls a \<open>configure\<close> callback can make, and what they do.\<close>

datatype node_call =
    Describe string
  | Entry "string list"
  | Exit "string list"
  | On string target_or_config
  | OnDone target_or_config
  | State string "node_call list"
  | CompoundState string string "node_call list"
  | ParallelState string "node_call list"
  | FinalState string "node_call list"

fun run_node_call :: "node_call \<Rightarrow> state_builder \<Rightarrow> state_builder"
  and run_node_calls :: "node_call list \<Rightarrow> state_builder \<Rightarrow> state_builder" where
  "run_node_call (Describe t) b = sb_describe t b"
| "run_node_call (Entry hs) b = sb_entry hs b"
| "run_node_call (Exit hs) b = sb_exit hs b"
| "run_node_call (On ev t) b = sb_on ev t b"
| "run_node_call (OnDone t) b = sb_onDone t b"
| "run_node_call (State k cs) b = sb_state k (run_node_calls cs) b"
| "run_node_call (CompoundState k i cs) b = sb_compoundState k i (run_node_calls cs) b"
| "run_node_call (ParallelState k cs) b = sb_parallelState k (run_node_calls cs) b"
| "run_node_call (FinalState k cs) b = sb_finalState k (run_node_calls cs) b"
| "run_node_calls [] b = b"
| "run_node_calls (c # cs) b = run_node_calls cs (run_node_call c b)"

datatype machine_call =
    SetVersion string
  | DescribeMachine string
  | Initial string
  | ParallelRoot
  | Registry "string option" "bool option"
  | Defaults partial_policy
  | Hook hook_slot "string list"
  | Hooks "(hook_slot \<times> hook_ref option) list"
  | Effects "string list"
  | MaxEffectChainDepth rat
  | RootState string "node_call list"
  | RootCompoundState string string "node_call list"
  | RootParallelState string "node_call list"
  | RootFinalState string "node_call list"
  | ErrorState node_type "node_call list"

fun run_machine_call :: "machine_call \<Rightarrow> machine_builder \<Rightarrow> machine_builder" where
  "run_machine_call (SetVersion v) b = mb_setVersion v b"
| "run_machine_call (DescribeMachine t) b = mb_describe t b"
| "run_machine_call (Initial k) b = mb_initial k b"
| "run_machine_call ParallelRoot b = mb_parallelRoot b"
| "run_machine_call (Registry ns st) b = mb_registry ns st b"
| "run_machine_call (Defaults p) b = mb_defaults p b"
| "run_machine_call (Hook slot hs) b = mb_hook slot hs b"
| "run_machine_call (Hooks config) b = mb_hooks config b"
| "run_machine_call (Effects es) b = mb_effects es b"
| "run_machine_call (MaxEffectChainDepth d) b = mb_maxEffectChainDepth d b"
| "run_machine_call (RootState k cs) b = mb_state k (run_node_calls cs) b"
| "run_machine_call (RootCompoundState k i cs) b = mb_compoundState k i (run_node_calls cs) b"
| "run_machine_call (RootParallelState k cs) b = mb_parallelState k (run_node_calls cs) b"
| "run_machine_call (RootFinalState k cs) b = mb_finalState k (run_node_calls cs) b"
| "run_machine_call (ErrorState ty cs) b = mb_errorState ty (run_node_calls cs) b"

definition fluent :: "string \<Rightarrow> machine_call list \<Rightarrow> machine_builder" where
  "fluent machineId calls = fold run_machine_call calls (createMachine machineId)"

section \<open>Built trees keep the path discipline\<close>

definition builder_ok :: "string list \<Rightarrow> string \<Rightarrow> state_builder \<Rightarrow> bool" where
  "builder_ok pre name b \<longleftrightarrow> sb_key b = name \<and> sb_path b = join_dot (pre @ [name]) \<and>
     distinct (keys (sb_children b)) \<and>
     (\<forall>(ck, c) \<in> set (sb_children b). wf_key ck \<and> keys_wf c \<longrightarrow> tree_ok (pre @ [name]) ck c)"

lemmas sb_defs = sb_describe_def sb_entry_def sb_exit_def sb_on_def sb_onDone_def sb_state_def
  sb_compoundState_def sb_parallelState_def sb_finalState_def

lemma newStateBuilder_ok:
  "\<forall>p \<in> set pre. wf_key p \<Longrightarrow> builder_ok pre name (newStateBuilder name (join_dot pre) ty init)"
  by (auto simp: builder_ok_def newStateBuilder_def join_dot_eq_Nil join_dot_snoc)

lemma buildNode_ok:
  "builder_ok pre name b \<Longrightarrow> wf_key name \<Longrightarrow> keys_wf (buildNode b) \<Longrightarrow> tree_ok pre name (buildNode b)"
  by (auto simp: builder_ok_def buildNode_def list_all_iff)

lemma add_child_ok:
  assumes "builder_ok pre name b" "wf_key ck \<and> keys_wf n \<longrightarrow> tree_ok (pre @ [name]) ck n"
  shows "builder_ok pre name (add_child ck n b)"
  using assms set_update_subset [of ck n "sb_children b"]
  by (fastforce simp: builder_ok_def add_child_def intro: distinct_keys_update)

lemma run_child_ok:
  assumes "\<forall>p \<in> set (pre @ [name]). wf_key p" "builder_ok pre name b"
    and "\<And>b'. wf_key k \<Longrightarrow> builder_ok (pre @ [name]) k b' \<Longrightarrow> builder_ok (pre @ [name]) k (f b')"
  shows "builder_ok pre name (add_child k (buildNode (f (newStateBuilder k (sb_path b) ty init))) b)"
proof (rule add_child_ok [OF assms(2)], intro impI, elim conjE)
  have p: "sb_path b = join_dot (pre @ [name])" using assms(2) by (simp add: builder_ok_def)
  assume "wf_key k" "keys_wf (buildNode (f (newStateBuilder k (sb_path b) ty init)))"
  with assms(3) [OF _ newStateBuilder_ok [OF assms(1)]] show
    "tree_ok (pre @ [name]) k (buildNode (f (newStateBuilder k (sb_path b) ty init)))"
    unfolding p by (intro buildNode_ok)
qed

lemma run_calls_ok:
  "\<forall>p \<in> set (pre @ [name]). wf_key p \<Longrightarrow> builder_ok pre name b \<Longrightarrow> builder_ok pre name (run_node_call c b)"
  "\<forall>p \<in> set (pre @ [name]). wf_key p \<Longrightarrow> builder_ok pre name b \<Longrightarrow> builder_ok pre name (run_node_calls cs b)"
proof (induction c b and cs b arbitrary: pre name and pre name rule: run_node_call_run_node_calls.induct)
  case (6 k cs b)
  from run_child_ok [OF 6(2,3)] 6(1) 6(2) show ?case by (simp add: sb_defs)
next
  case (7 k i cs b)
  from run_child_ok [OF 7(2,3)] 7(1) 7(2) show ?case by (simp add: sb_defs)
next
  case (8 k cs b)
  from run_child_ok [OF 8(2,3)] 8(1) 8(2) show ?case by (simp add: sb_defs)
next
  case (9 k cs b)
  from run_child_ok [OF 9(2,3)] 9(1) 9(2) show ?case by (simp add: sb_defs)
next
  case (11 c cs b)
  then show ?case by simp
qed (simp_all add: sb_defs builder_ok_def)

definition roots_ok :: "machine_builder \<Rightarrow> bool" where
  "roots_ok b \<longleftrightarrow> distinct (keys (mb_rootStates b)) \<and>
     (\<forall>(k, n) \<in> set (mb_rootStates b). wf_key k \<and> keys_wf n \<longrightarrow> tree_ok [] k n)"

lemmas mb_defs = mb_setVersion_def mb_describe_def mb_initial_def mb_parallelRoot_def mb_registry_def
  mb_defaults_def mb_hook_def mb_effects_def mb_maxEffectChainDepth_def
  mb_state_def mb_compoundState_def mb_parallelState_def mb_finalState_def mb_errorState_def

lemma add_root_ok:
  assumes "roots_ok b"
  shows "roots_ok (add_root k (buildNode (run_node_calls cs (newStateBuilder k [] ty init))) b)"
proof -
  let ?n = "buildNode (run_node_calls cs (newStateBuilder k [] ty init))"
  have "wf_key k \<and> keys_wf ?n \<longrightarrow> tree_ok [] k ?n"
    using run_calls_ok(2) [of "[]" k] newStateBuilder_ok [of "[]" k ty init] buildNode_ok by simp
  then show ?thesis using assms set_update_subset [of k ?n "mb_rootStates b"]
    by (fastforce simp: roots_ok_def add_root_def intro: distinct_keys_update)
qed

lemma mb_hooks_roots [simp]: "mb_rootStates (mb_hooks config b) = mb_rootStates b"
  unfolding mb_hooks_def by (induction config arbitrary: b) (auto simp: mb_hook_def)

lemma run_machine_call_ok: "roots_ok b \<Longrightarrow> roots_ok (run_machine_call c b)"
proof (cases c)
  case (Hooks config)
  assume "roots_ok b"
  then show ?thesis unfolding Hooks roots_ok_def by simp
qed (simp_all add: mb_defs add_root_ok, simp_all add: roots_ok_def)

lemma fluent_ok: "roots_ok (fluent machineId calls)"
proof -
  have "roots_ok b \<Longrightarrow> roots_ok (fold run_machine_call calls b)" for b
    by (induction calls arbitrary: b) (simp_all add: run_machine_call_ok)
  from this [of "createMachine machineId"] show ?thesis
    unfolding fluent_def by (simp add: createMachine_def roots_ok_def)
qed

theorem built_machine:
  assumes "build (fluent machineId calls) = Inr m" "forest_keys_wf (md_states m)"
  shows "machine_ok m"
proof -
  let ?raw = "raw_of_builder (fluent machineId calls)"
  have f: "finalizeAndValidateMachineIR ?raw = Inr m" using assms(1) by (simp add: build_def)
  have "forest_keys_wf (rm_states ?raw)"
    using assms(2) finalize_states [OF f] forest_keys_wf_error by (simp add: to_machine_def)
  then have "forest_ok [] (rm_states ?raw)" using fluent_ok [of machineId calls]
    by (fastforce simp: raw_of_builder_def roots_ok_def forest_ok_def forest_keys_wf_def list_all_iff)
  from finalize_ok [OF f this] show ?thesis .
qed

section \<open>The fluent program of a document\<close>

definition edge_config :: "jval \<Rightarrow> target_or_config" where
  "edge_config v =
     (case v of
        JStr s \<Rightarrow> TargetRef s
      | _ \<Rightarrow> (let obj = object_fields (Some v) in EdgeConfig
         \<lparr>ei_target = string_value (map_of obj ''target''),
          ei_transition = string_value (map_of obj ''transition''),
          ei_compensate = string_value (map_of obj ''compensate''),
          ei_effects = Some (string_items (map_of obj ''effects'')),
          ei_description = string_value (map_of obj ''description''),
          ei_policy = extractPolicy obj\<rparr>))"

definition inferred_type :: "jval dict \<Rightarrow> node_type" where
  "inferred_type raw = or_else (node_type_value (map_of raw ''type''))
     (if object_fields (map_of raw ''states'') \<noteq> [] then Compound else Atomic)"

definition child_call :: "string \<Rightarrow> jval dict \<Rightarrow> node_call list \<Rightarrow> node_call" where
  "child_call k raw cs =
     (case inferred_type raw of
        Atomic \<Rightarrow> State k cs
      | Compound \<Rightarrow> CompoundState k (or_else (string_value (map_of raw ''initial'')) []) cs
      | Parallel \<Rightarrow> ParallelState k cs
      | Final \<Rightarrow> FinalState k cs)"

function node_calls_of :: "jval dict \<Rightarrow> node_call list" where
  "node_calls_of raw =
     (case string_value (map_of raw ''description'') of None \<Rightarrow> [] | Some t \<Rightarrow> [Describe t]) @
     [Entry (string_items (map_of raw ''entry'')), Exit (string_items (map_of raw ''exit''))] @
     map (\<lambda>(ev, e). On ev (edge_config e)) (object_fields (map_of raw ''on'')) @
     (case map_of raw ''onDone'' of
        None \<Rightarrow> [] | Some v \<Rightarrow> if js_true (Some v) then [OnDone (edge_config v)] else []) @
     map (\<lambda>(k, v). child_call k (object_fields (Some v)) (node_calls_of (object_fields (Some v))))
       (object_fields (map_of raw ''states''))"
  by pat_completeness auto
termination
  by (relation "measure fields_size") (auto intro: object_fields_size)

declare node_calls_of.simps [simp del]

lemmas node_calls_of_eval [code] =
  node_calls_of.simps [where raw = "[]"] node_calls_of.simps [where raw = "kv # kvs" for kv kvs]

definition root_call :: "string \<Rightarrow> jval dict \<Rightarrow> machine_call" where
  "root_call k raw =
     (case inferred_type raw of
        Atomic \<Rightarrow> RootState k (node_calls_of raw)
      | Compound \<Rightarrow> RootCompoundState k (or_else (string_value (map_of raw ''initial'')) []) (node_calls_of raw)
      | Parallel \<Rightarrow> RootParallelState k (node_calls_of raw)
      | Final \<Rightarrow> RootFinalState k (node_calls_of raw))"

definition machine_calls_of :: "jval dict \<Rightarrow> machine_call list" where
  "machine_calls_of doc =
     (let raw = raw_of_document doc in
      [SetVersion (rm_version raw)] @
      (case rm_description raw of None \<Rightarrow> [] | Some t \<Rightarrow> [DescribeMachine t]) @
      (case rm_type raw of
         RootParallel \<Rightarrow> [ParallelRoot]
       | RootCompound \<Rightarrow> [Initial (or_else (rm_initial raw) [])]) @
      [Registry (rb_namespace (rm_registry raw)) (Some (rb_strict (rm_registry raw))),
       Defaults (rm_defaults raw),
       Hooks (map (\<lambda>slot. (slot, Some (ManyHooks (extractHooks (map_of doc ''hooks'') slot))))
         [OnStart, BeforeTransition, AfterTransition, OnCompensate, OnComplete, OnTerminal]),
       Effects (string_items (map_of doc ''effects''))] @
      (case rm_maxEffectChainDepth raw of None \<Rightarrow> [] | Some d \<Rightarrow> [MaxEffectChainDepth d]) @
      map (\<lambda>(k, v). root_call k (object_fields (Some v))) (object_fields (map_of doc ''states'')))"

section \<open>What the schema demands of a state\<close>

lemma object_fields_JObj [simp]: "object_fields (Some (JObj es)) = es"
  by (simp add: object_fields_def)

lemma property_conforms:
  assumes "conforms D k (ObjectS req n props None) v" "map_of (object_fields (Some v)) key = Some w"
    and "map_of props key = Some S"
  shows "conforms D (length D) S w"
  using assms by (cases v) (auto simp: object_fields_def conforms.simps list_all_iff
      split: option.splits dest!: map_of_SomeD [of _ key w] bspec)

lemma object_of_fields:
  assumes "conforms D k (object_of props) v" "map_of props key = Some S" "map_of (object_fields (Some v)) key = Some w"
  shows "conforms D (length D) S w"
  by (rule property_conforms [OF assms(1) [unfolded object_of_def] assms(3,2)])

lemma nonempty_string_conforms: "conforms D k nonempty_string v \<Longrightarrow> \<exists>s. v = JStr s \<and> s \<noteq> []"
  by (cases v) (auto simp: nonempty_string_def conforms.simps)

abbreviation "SD \<equiv> schema_definitions"

lemma ref_conforms:
  "conforms SD k (RefS n) v \<Longrightarrow> \<exists>k' S. map_of SD n = Some S \<and> conforms SD k' S v"
  by (cases k) (auto simp: conforms.simps split: option.splits)

lemma oneof_conforms: "conforms D k (OneOfS Ss) v \<Longrightarrow> \<exists>S \<in> set Ss. conforms D k S v"
  by (auto simp: conforms.simps length_Suc_conv filter_eq_Cons_iff)

lemma map_conforms:
  assumes "conforms D k (ObjectS [] n [] (Some S)) v" "(key, w) \<in> set (object_fields (Some v))"
  shows "conforms D (length D) S w"
  using assms by (cases v) (auto simp: object_fields_def conforms.simps list_all_iff)

lemma edge_agrees:
  assumes "conforms SD k (RefS ''TransitionDefinition'') v"
  shows "toEdge ev (edge_config v) = parseTransitionEdge ev v"
proof (cases "\<exists>s. v = JStr s")
  case False
  from ref_conforms [OF assms] obtain k' where "conforms SD k' TransitionDefinition v"
    by (auto simp: schema_definitions_def)
  then obtain S where "S \<in> set [nonempty_string, object_of
     ([(''target'', nonempty_string), (''transition'', nonempty_string),
       (''compensate'', nonempty_string), (''effects'', ArrayS 0 nonempty_string),
       (''description'', StringS [])] @ policy_properties)]" "conforms SD k' S v"
    unfolding TransitionDefinition_def by (blast dest: oneof_conforms)
  with False have "conforms SD k' (object_of
     ([(''target'', nonempty_string), (''transition'', nonempty_string),
       (''compensate'', nonempty_string), (''effects'', ArrayS 0 nonempty_string),
       (''description'', StringS [])] @ policy_properties)) v"
    by (auto dest: nonempty_string_conforms)
  from object_of_fields [OF this, of "''compensate''" nonempty_string]
  have "string_value (map_of (object_fields (Some v)) ''compensate'') \<noteq> Some []"
    by (cases "map_of (object_fields (Some v)) ''compensate''")
      (auto simp: string_value_def dest: nonempty_string_conforms)
  then have "truthy (string_value (map_of (object_fields (Some v)) ''compensate'')) =
      string_value (map_of (object_fields (Some v)) ''compensate'')"
    by (auto simp: truthy_def split: option.splits)
  then show ?thesis using False
    by (cases v) (auto simp: toEdge_def edge_config_def parseTransitionEdge_def extractPolicy_def Let_def
        or_elseo_def split: option.splits)
qed (auto simp: toEdge_def edge_config_def parseTransitionEdge_def)

lemma node_conforms:
  assumes "conforms SD k (RefS ''StateNode'') v" "raw = object_fields (Some v)"
  shows "string_value (map_of raw ''initial'') \<noteq> Some []"
    "(ev, e) \<in> set (object_fields (map_of raw ''on'')) \<Longrightarrow> toEdge ev (edge_config e) = parseTransitionEdge ev e"
    "map_of raw ''onDone'' = Some d \<Longrightarrow> toEdge ev (edge_config d) = parseTransitionEdge ev d"
    "(ck, c) \<in> set (object_fields (map_of raw ''states'')) \<Longrightarrow> conforms SD (length SD) (RefS ''StateNode'') c"
proof -
  from ref_conforms [OF assms(1)] obtain k' where n: "conforms SD k' StateNodeS v"
    by (auto simp: schema_definitions_def)
  note f = object_of_fields [OF n [unfolded StateNodeS_def], folded assms(2)]
  show "string_value (map_of raw ''initial'') \<noteq> Some []"
  proof (cases "map_of raw ''initial''")
    case (Some w)
    from f [OF _ Some] have "conforms SD (length SD) nonempty_string w" by simp
    from nonempty_string_conforms [OF this] Some show ?thesis by (auto simp: string_value_def)
  qed (simp add: string_value_def)
  show "toEdge ev (edge_config e) = parseTransitionEdge ev e" if "(ev, e) \<in> set (object_fields (map_of raw ''on''))"
  proof -
    from that obtain w where w: "map_of raw ''on'' = Some w"
      by (cases "map_of raw ''on''") (auto simp: object_fields_def)
    from map_conforms [OF f [OF _ w]] that w show ?thesis by (auto intro: edge_agrees)
  qed
  show "toEdge ev (edge_config d) = parseTransitionEdge ev d" if "map_of raw ''onDone'' = Some d"
    using f [OF _ that] by (auto intro: edge_agrees)
  show "conforms SD (length SD) (RefS ''StateNode'') c" if "(ck, c) \<in> set (object_fields (map_of raw ''states''))"
  proof -
    from that obtain w where w: "map_of raw ''states'' = Some w"
      by (cases "map_of raw ''states''") (auto simp: object_fields_def)
    from map_conforms [OF f [OF _ w]] that w show ?thesis by auto
  qed
qed

section \<open>The two front ends agree\<close>

text \<open>The keys of a JavaScript object are distinct.\<close>

fun jval_wf :: "jval \<Rightarrow> bool" where
  "jval_wf (JArr xs) = list_all jval_wf xs"
| "jval_wf (JObj es) \<longleftrightarrow> distinct (keys es) \<and> list_all (\<lambda>(k, v). jval_wf v) es"
| "jval_wf _ = True"

lemma jval_wf_fields:
  assumes "jval_wf v" "map_of (object_fields (Some v)) key = Some w"
  shows "jval_wf w"
  using assms by (cases v) (auto simp: object_fields_def list_all_iff dest!: map_of_SomeD)

lemma jval_wf_keys: "jval_wf v \<Longrightarrow> distinct (keys (object_fields (Some v)))"
  by (cases v) (auto simp: object_fields_def)

lemma jval_wf_entry: "jval_wf v \<Longrightarrow> (k, w) \<in> set (object_fields (Some v)) \<Longrightarrow> jval_wf w"
  by (cases v) (auto simp: object_fields_def list_all_iff)

lemma jval_wf_sub:
  assumes "jval_wf v"
  shows "distinct (keys (object_fields (map_of (object_fields (Some v)) f)))"
    "(k, w) \<in> set (object_fields (map_of (object_fields (Some v)) f)) \<Longrightarrow> jval_wf w"
proof -
  have "distinct (keys (object_fields x)) \<and> (\<forall>(k, w) \<in> set (object_fields x). jval_wf w)"
    if "x = map_of (object_fields (Some v)) f" for x
  proof (cases x)
    case (Some y)
    with jval_wf_fields [OF assms] that have "jval_wf y" by simp
    then show ?thesis using Some jval_wf_keys jval_wf_entry by blast
  qed (simp add: object_fields_def)
  then show "distinct (keys (object_fields (map_of (object_fields (Some v)) f)))"
    "(k, w) \<in> set (object_fields (map_of (object_fields (Some v)) f)) \<Longrightarrow> jval_wf w" by blast+
qed

lemma fold_update_fresh:
  "distinct (keys d @ map fst es) \<Longrightarrow> fold (\<lambda>(k, v). AList.update k (f k v)) es d = d @ map (\<lambda>(k, v). (k, f k v)) es"
proof (induction es arbitrary: d)
  case (Cons e es)
  obtain k v where e: "e = (k, v)" by (cases e)
  have "k \<notin> set (keys d)" using Cons.prems e by auto
  then have "AList.update k (f k v) d = d @ [(k, f k v)]" by (induction d) auto
  with Cons.prems Cons.IH [of "d @ [(k, f k v)]"] show ?case by (simp add: e)
qed simp

lemma assign_all_map:
  "distinct (map fst es) \<Longrightarrow> assign_all (map (\<lambda>(k, v). (k, f k v)) es) = map (\<lambda>(k, v). (k, f k v)) es"
  using fold_update_fresh [of "[]" "map (\<lambda>(k, v). (k, f k v)) es" "\<lambda>k v. v"]
  by (simp add: assign_all_def split_beta comp_def)

lemma run_node_calls_append:
  "run_node_calls (xs @ ys) b = run_node_calls ys (run_node_calls xs b)"
  by (induction xs arbitrary: b) simp_all

lemma run_ons:
  "run_node_calls (map (\<lambda>(ev, e). On ev (f e)) es) b =
     b\<lparr>sb_transitions := fold (\<lambda>(ev, e). AList.update ev (toEdge ev (f e))) es (sb_transitions b)\<rparr>"
  by (induction es arbitrary: b) (auto simp: sb_on_def)

lemma run_children:
  assumes "\<And>k v b. (k, v) \<in> set es \<Longrightarrow> sb_path b = p \<Longrightarrow> run_node_call (C k v) b = add_child k (N k v) b"
    and "sb_path b = p"
  shows "run_node_calls (map (\<lambda>(k, v). C k v) es) b =
    b\<lparr>sb_children := fold (\<lambda>(k, v). AList.update k (N k v)) es (sb_children b),
      sb_nodeType := (if es \<noteq> [] \<and> sb_nodeType b = Atomic then Compound else sb_nodeType b)\<rparr>"
  using assms
proof (induction es arbitrary: b)
  case (Cons e es)
  obtain k v where e: "e = (k, v)" by (cases e)
  let ?b = "add_child k (N k v) b"
  have "sb_path ?b = p" using Cons.prems(2) by (simp add: add_child_def)
  from Cons.IH [OF _ this] Cons.prems(1) have "run_node_calls (map (\<lambda>(k, v). C k v) es) ?b =
    ?b\<lparr>sb_children := fold (\<lambda>(k, v). AList.update k (N k v)) es (sb_children ?b),
      sb_nodeType := (if es \<noteq> [] \<and> sb_nodeType ?b = Atomic then Compound else sb_nodeType ?b)\<rparr>"
    by simp
  moreover have "run_node_call (C k v) b = ?b" using Cons.prems by (simp add: e)
  ultimately show ?case by (simp add: e add_child_def)
qed simp

definition given_initial :: "jval dict \<Rightarrow> string option" where
  "given_initial raw = (case inferred_type raw of
     Compound \<Rightarrow> Some (or_else (string_value (map_of raw ''initial'')) []) | _ \<Rightarrow> None)"

lemma run_child_call:
  "run_node_call (child_call k raw cs) b =
     add_child k (buildNode (run_node_calls cs (newStateBuilder k (sb_path b) (inferred_type raw) (given_initial raw)))) b"
  by (cases "inferred_type raw") (simp_all add: child_call_def given_initial_def sb_defs)

lemma parse_fields:
  "sn_type (parseStateNode key parent raw) = inferred_type raw"
  "sn_initial (parseStateNode key parent raw) = string_value (map_of raw ''initial'')"
  by (subst parseStateNode.simps; simp add: Let_def inferred_type_def)+

lemma given_initial_parsed:
  assumes "validateNode mid sts (parseStateNode key parent raw) = []"
    and "string_value (map_of raw ''initial'') \<noteq> Some []"
  shows "given_initial raw = string_value (map_of raw ''initial'')"
proof -
  have "validateNodeShape p (inferred_type raw) (string_value (map_of raw ''initial'')) ck ek = [] \<Longrightarrow> ?thesis" for p ck ek
    using assms(2) by (cases "inferred_type raw")
      (auto simp: given_initial_def validateNodeShape_def truthy_None split: option.splits if_splits)
  then show ?thesis
    using assms(1) unfolding parseStateNode.simps [of key parent raw] Let_def inferred_type_def [symmetric]
    by auto
qed

lemma node_agrees:
  assumes "conforms SD k (RefS ''StateNode'') v" "jval_wf v" "raw = object_fields (Some v)"
    and "validateNode mid sts (parseStateNode key parent raw) = []"
  shows "buildNode (run_node_calls (node_calls_of raw)
      (newStateBuilder key parent (inferred_type raw) (given_initial raw))) = parseStateNode key parent raw"
  using assms
proof (induction key parent raw arbitrary: v k rule: parseStateNode.induct)
  case (1 key parent raw)
  let ?path = "if parent \<noteq> [] then parent @ dot @ key else key"
  let ?kids = "object_fields (map_of raw ''states'')" and ?on = "object_fields (map_of raw ''on'')"
  let ?child = "\<lambda>ck c. parseStateNode ck ?path (object_fields (Some c))"
  note c = node_conforms [OF "1.prems"(1,3)]
  have dist: "distinct (keys ?kids)" "distinct (keys ?on)" "\<And>ck c. (ck, c) \<in> set ?kids \<Longrightarrow> jval_wf c"
    using jval_wf_sub [OF "1.prems"(2)] "1.prems"(3) by blast+
  have node: "parseStateNode key parent raw = StateNode key ?path (inferred_type raw)
      (string_value (map_of raw ''description'')) (string_value (map_of raw ''initial''))
      (string_items (map_of raw ''entry'')) (string_items (map_of raw ''exit''))
      (map (\<lambda>(ev, e). (ev, parseTransitionEdge ev e)) ?on)
      (if js_true (map_of raw ''onDone'')
       then map_option (parseTransitionEdge ''$onDone'') (map_of raw ''onDone'') else None)
      (map (\<lambda>(ck, c). (ck, ?child ck c)) ?kids) False"
    by (subst parseStateNode.simps) (simp add: Let_def inferred_type_def assign_all_map dist)
  have valid: "validateNode mid sts (?child ck w) = []" if "(ck, w) \<in> set ?kids" for ck w
    using "1.prems"(4) that unfolding node by auto
  have kid: "run_node_call (child_call ck (object_fields (Some w)) (node_calls_of (object_fields (Some w)))) b =
      add_child ck (?child ck w) b" if "(ck, w) \<in> set ?kids" "sb_path b = ?path" for ck w b
    using "1.IH" [OF refl refl refl that(1) refl c(4) [OF that(1)] dist(3) [OF that(1)] refl] valid [OF that(1)] that(2)
    by (simp add: run_child_call)
  have ty: "?kids \<noteq> [] \<Longrightarrow> inferred_type raw \<noteq> Atomic"
    using "1.prems"(4) unfolding node by (auto simp: validateNodeShape_def)
  have init: "given_initial raw = string_value (map_of raw ''initial'')"
    by (rule given_initial_parsed [OF "1.prems"(4) c(1)])
  let ?b0 = "newStateBuilder key parent (inferred_type raw) (given_initial raw)"
  let ?b1 = "run_node_calls ((case string_value (map_of raw ''description'') of None \<Rightarrow> [] | Some t \<Rightarrow> [Describe t]) @
     [Entry (string_items (map_of raw ''entry'')), Exit (string_items (map_of raw ''exit''))] @
     map (\<lambda>(ev, e). On ev (edge_config e)) ?on @
     (case map_of raw ''onDone'' of
        None \<Rightarrow> [] | Some v \<Rightarrow> if js_true (Some v) then [OnDone (edge_config v)] else [])) ?b0"
  have on: "fold (\<lambda>(ev, e). AList.update ev (toEdge ev (edge_config e))) ?on [] =
      map (\<lambda>(ev, e). (ev, parseTransitionEdge ev e)) ?on"
    using fold_update_fresh [of "[]" ?on "\<lambda>ev e. toEdge ev (edge_config e)"] dist(2) c(2) by auto
  have b1: "?b1 = \<lparr>sb_key = key, sb_path = ?path, sb_nodeType = inferred_type raw,
     sb_initialChild = string_value (map_of raw ''initial''),
     sb_desc = string_value (map_of raw ''description''),
     sb_entryEffects = string_items (map_of raw ''entry''), sb_exitEffects = string_items (map_of raw ''exit''),
     sb_transitions = map (\<lambda>(ev, e). (ev, parseTransitionEdge ev e)) ?on,
     sb_onDoneEdge = (if js_true (map_of raw ''onDone'')
       then map_option (parseTransitionEdge ''$onDone'') (map_of raw ''onDone'') else None), sb_children = []\<rparr>"
    using c(3) by (cases "string_value (map_of raw ''description'')"; cases "map_of raw ''onDone''")
      (simp_all add: run_node_calls_append run_ons sb_defs newStateBuilder_def on init js_true_def [of None])
  have "run_node_calls (node_calls_of raw) ?b0 = run_node_calls
      (map (\<lambda>(ck, c). child_call ck (object_fields (Some c)) (node_calls_of (object_fields (Some c)))) ?kids) ?b1"
    by (subst node_calls_of.simps) (simp only: run_node_calls_append append_assoc)
  also have "\<dots> = ?b1\<lparr>sb_children := fold (\<lambda>(ck, c). AList.update ck (?child ck c)) ?kids (sb_children ?b1),
      sb_nodeType := (if ?kids \<noteq> [] \<and> sb_nodeType ?b1 = Atomic then Compound else sb_nodeType ?b1)\<rparr>"
    by (rule run_children [where p = ?path]) (use kid b1 in simp_all)
  finally show ?case unfolding b1 node buildNode_def
    using ty fold_update_fresh [of "[]" ?kids ?child] dist(1) by auto
qed

lemma or_elseo_None [simp]: "or_elseo x None = x"
  by (cases x) simp_all

lemma spread_empty [simp]: "spread_policy empty_policy p = p"
  by (simp add: spread_policy_def empty_policy_def)

lemma finalize_source:
  assumes "finalizeAndValidateMachineIR raw = Inr m"
  shows "finalizeAndValidateMachineIR (raw\<lparr>rm_source := s\<rparr>) = Inr (m\<lparr>md_source := s\<rparr>)"
proof -
  have t: "to_machine (raw\<lparr>rm_source := s\<rparr>) = (to_machine raw)\<lparr>md_source := s\<rparr>"
    by (simp add: to_machine_def)
  have "machine_issues (raw\<lparr>rm_source := s\<rparr>) = machine_issues raw"
    unfolding machine_issues_def root_issues_def Let_def to_machine_def
    by (cases raw) (hypsubst, unfold raw_machine.simps machine.simps, rule refl)
  then show ?thesis using assms by (simp add: finalizeAndValidateMachineIR_def t Let_def split: if_splits)
qed

lemma run_root_call:
  "run_machine_call (root_call k raw) b =
     add_root k (buildNode (run_node_calls (node_calls_of raw)
       (newStateBuilder k [] (inferred_type raw) (given_initial raw)))) b"
  by (cases "inferred_type raw") (simp_all add: root_call_def given_initial_def mb_defs)

lemma run_roots:
  assumes "\<And>k v b. (k, v) \<in> set es \<Longrightarrow> run_machine_call (C k v) b = add_root k (N k v) b"
  shows "fold run_machine_call (map (\<lambda>(k, v). C k v) es) b =
    b\<lparr>mb_rootStates := fold (\<lambda>(k, v). AList.update k (N k v)) es (mb_rootStates b)\<rparr>"
  using assms by (induction es arbitrary: b) (auto simp: add_root_def)

lemma top_conforms:
  assumes "dfsm_conforms (JObj doc)"
  shows "string_value (map_of doc ''initial'') \<noteq> Some []"
    "(k, v) \<in> set (object_fields (map_of doc ''states'')) \<Longrightarrow> conforms SD (length SD) (RefS ''StateNode'') v"
proof -
  have f: "conforms SD (length SD) S w" if "map_of doc key = Some w"
    "map_of [(''initial'', nonempty_string), (''states'', ObjectS [] 1 [] (Some (RefS ''StateNode'')))] key = Some S"
    for key w S
    by (rule property_conforms [OF assms [unfolded DFSM_V1_SCHEMA_def], of key])
      (use that in \<open>auto split: if_splits\<close>)
  show "string_value (map_of doc ''initial'') \<noteq> Some []"
  proof (cases "map_of doc ''initial''")
    case (Some w)
    from f [OF Some] nonempty_string_conforms Some show ?thesis by (fastforce simp: string_value_def)
  qed (simp add: string_value_def)
  show "conforms SD (length SD) (RefS ''StateNode'') v" if "(k, v) \<in> set (object_fields (map_of doc ''states''))"
  proof -
    from that obtain w where w: "map_of doc ''states'' = Some w"
      by (cases "map_of doc ''states''") (auto simp: object_fields_def)
    from f [OF w] map_conforms that w show ?thesis by fastforce
  qed
qed

lemma hooks_run:
  "mb_hooks (map (\<lambda>slot. (slot, Some (ManyHooks (h slot))))
     [OnStart, BeforeTransition, AfterTransition, OnCompensate, OnComplete, OnTerminal]) b =
   b\<lparr>mb_machineHooks := (\<lambda>slot. mb_machineHooks b slot @ h slot)\<rparr>"
proof -
  have "mb_machineHooks (mb_hooks (map (\<lambda>slot. (slot, Some (ManyHooks (h slot))))
     [OnStart, BeforeTransition, AfterTransition, OnCompensate, OnComplete, OnTerminal]) b) slot =
     mb_machineHooks b slot @ h slot" for slot
    by (cases slot) (simp_all add: mb_hooks_def mb_hook_def hook_ref_list_def)
  then show ?thesis
    by (intro machine_builder.equality) (simp_all add: mb_hooks_def mb_hook_def fun_eq_iff)
qed

theorem yaml_builder:
  assumes "validates lib" "pl_parseYaml lib content = Inr (JObj doc)" "jval_wf (JObj doc)"
    and "parseYamlMachine lib content = Inr m"
  shows "build (fluent (md_id m) (machine_calls_of doc)) = Inr (m\<lparr>md_source := SourceBuilder\<rparr>)"
proof -
  let ?raw = "raw_of_document doc" and ?es = "object_fields (map_of doc ''states'')"
  from parse_machine [OF assms(4)] assms(2) have v: "dfsm_conforms (JObj doc)"
    and f: "finalizeAndValidateMachineIR ?raw = Inr m"
    using assms(1) by (auto simp: validates_def)
  have m: "m = to_machine ?raw" and iss: "machine_issues ?raw = []"
    using f by (auto simp: finalizeAndValidateMachineIR_def Let_def split: if_splits)
  note c = top_conforms [OF v]
  have wf: "distinct (keys ?es)" "\<And>k w. (k, w) \<in> set ?es \<Longrightarrow> jval_wf w"
    using jval_wf_sub [OF assms(3), where f = "''states''"] by simp_all
  have states: "rm_states ?raw = map (\<lambda>(k, v). (k, parseStateNode k [] (object_fields (Some v)))) ?es"
    by (simp add: raw_of_document_def assign_all_map wf)
  have root: "run_machine_call (root_call k (object_fields (Some w))) b =
      add_root k (parseStateNode k [] (object_fields (Some w))) b" if "(k, w) \<in> set ?es" for k w b
  proof -
    have "(k, parseStateNode k [] (object_fields (Some w))) \<in> set (md_states m)"
      using that by (force simp: m to_machine_def with_error_state_def states)
    then have "validateNode (md_id m) (md_states m) (parseStateNode k [] (object_fields (Some w))) = []"
      using iss by (auto simp: machine_issues_def Let_def m)
    from node_agrees [OF c(2) [OF that] wf(2) [OF that] refl this] show ?thesis by (simp add: run_root_call)
  qed
  have init: "(case rm_type ?raw of RootCompound \<Rightarrow> Some (or_else (rm_initial ?raw) []) | RootParallel \<Rightarrow> None) =
      rm_initial ?raw"
    using iss c(1) by (auto simp: machine_issues_def root_issues_def Let_def to_machine_def truthy_None
        raw_of_document_def split: root_type.splits option.splits if_splits)
  have "raw_of_builder (fluent (md_id m) (machine_calls_of doc)) = ?raw\<lparr>rm_source := SourceBuilder\<rparr>"
  proof -
    let ?pre = "[SetVersion (rm_version ?raw)] @
      (case rm_description ?raw of None \<Rightarrow> [] | Some t \<Rightarrow> [DescribeMachine t]) @
      (case rm_type ?raw of RootParallel \<Rightarrow> [ParallelRoot]
       | RootCompound \<Rightarrow> [Initial (or_else (rm_initial ?raw) [])]) @
      [Registry (rb_namespace (rm_registry ?raw)) (Some (rb_strict (rm_registry ?raw))),
       Defaults (rm_defaults ?raw),
       Hooks (map (\<lambda>slot. (slot, Some (ManyHooks (extractHooks (map_of doc ''hooks'') slot))))
         [OnStart, BeforeTransition, AfterTransition, OnCompensate, OnComplete, OnTerminal]),
       Effects (string_items (map_of doc ''effects''))] @
      (case rm_maxEffectChainDepth ?raw of None \<Rightarrow> [] | Some d \<Rightarrow> [MaxEffectChainDepth d])"
    let ?b = "fold run_machine_call ?pre (createMachine (md_id m))"
    have b: "?b = \<lparr>mb_machineId = md_id m, mb_version = rm_version ?raw, mb_description = rm_description ?raw,
        mb_rootType = rm_type ?raw, mb_initialKey = rm_initial ?raw, mb_registryConfig = rm_registry ?raw,
        mb_defaultPolicy = rm_defaults ?raw, mb_machineHooks = extractHooks (map_of doc ''hooks''),
        mb_machineEffects = string_items (map_of doc ''effects''),
        mb_effectChainLimit = rm_maxEffectChainDepth ?raw, mb_rootStates = []\<rparr>"
      using init by (cases "rm_description ?raw"; cases "rm_type ?raw"; cases "rm_maxEffectChainDepth ?raw")
        (simp_all only: fold_append, simp_all del: map_eq_conv list.map add: hooks_run mb_defs createMachine_def
          createEmptyMachineHooksIR_def)
    have "fluent (md_id m) (machine_calls_of doc) = fold run_machine_call
        (map (\<lambda>(k, v). root_call k (object_fields (Some v))) ?es) ?b"
      unfolding fluent_def machine_calls_of_def Let_def by (simp only: fold_append append_assoc comp_apply)
    also have "\<dots> = ?b\<lparr>mb_rootStates := rm_states ?raw\<rparr>"
      using run_roots [of ?es "\<lambda>k v. root_call k (object_fields (Some v))"
          "\<lambda>k v. parseStateNode k [] (object_fields (Some v))" ?b] root b
        fold_update_fresh [of "[]" ?es "\<lambda>k v. parseStateNode k [] (object_fields (Some v))"] wf(1)
      by (simp add: states)
    finally show ?thesis
      unfolding b raw_of_builder_def by (simp add: m to_machine_def raw_of_document_def Let_def)
  qed
  with finalize_source [OF f] show ?thesis by (simp add: build_def)
qed

end
