(* ===== verification/DefinitionProps.thy ===== *)
theory DefinitionProps
  imports Builder
begin

text \<open>
  What the two ways of defining a machine promise, at the level of whole definitions: which YAML
  documents are accepted, that what is accepted is a well-formed machine, and that a document and
  the fluent program of the same definition give the same machine. Each is applied at a document
  of a light with a compound night state.
\<close>

section \<open>A document and its library\<close>

definition light_edge :: jval where
  "light_edge = JObj [(''target'', JStr ''red''), (''effects'', JArr [JStr ''beep'']),
     (''onFail'', JObj [(''compensate'', JBool True)])]"

definition light_doc :: "jval dict" where
  "light_doc = [(''dfsm'', JStr ''1.0''), (''id'', JStr ''light''), (''initial'', JStr ''green''),
     (''hooks'', JObj [(''onStart'', JStr ''greet'')]),
     (''states'', JObj [
        (''green'', JObj [(''on'', JObj [(''NEXT'', light_edge), (''DIM'', JStr ''night'')])]),
        (''night'', JObj [(''initial'', JStr ''blink''), (''entry'', JArr [JStr ''dim'']),
           (''states'', JObj [(''blink'', JObj [(''on'', JObj [(''NEXT'', JStr ''#light.red'')])])])]),
        (''red'', JObj [(''type'', JStr ''final'')])])]"

definition light_lib :: parser_lib where
  "light_lib = \<lparr>pl_parseYaml = (\<lambda>s. if s = ''light'' then Inr (JObj light_doc) else Inr JNull),
     pl_validate = (\<lambda>D S v. if conforms D (length D) S v then [] else [([], None)])\<rparr>"

definition light_raw :: raw_machine where
  "light_raw = raw_of_document light_doc"

definition light_machine :: machine where
  "light_machine = to_machine light_raw"

lemma light_validates: "validates light_lib"
  by (simp add: validates_def light_lib_def)

lemma schema_lookup:
  "map_of schema_definitions ''StateNode'' = Some StateNodeS"
  "map_of schema_definitions ''TransitionDefinition'' = Some TransitionDefinition"
  "map_of schema_definitions ''HookHandlerRef'' = Some HookHandlerRef"
  "map_of schema_definitions ''MachineHooksConfig'' = Some MachineHooksConfig"
  "map_of schema_definitions ''OnFailConfig'' = Some OnFailConfig"
  "length schema_definitions = 10"
  by code_simp+

lemma conforms_ref [simp]:
  "conforms D (numeral n) (RefS name) v =
     (case map_of D name of None \<Rightarrow> False | Some S \<Rightarrow> conforms D (pred_numeral n) S v)"
  by (simp add: numeral_eq_Suc conforms.simps)

lemma light_conforms: "dfsm_conforms (JObj light_doc)"
  by (simp add: light_doc_def light_edge_def DFSM_V1_SCHEMA_def conforms.simps schema_lookup StateNodeS_def
      TransitionDefinition_def HookHandlerRef_def MachineHooksConfig_def OnFailConfig_def nonempty_string_def
      object_of_def policy_properties_def valid_machine_id_def id_char_def Let_def)

lemma light_parses: "parseYamlMachine light_lib ''light'' = Inr light_machine"
proof -
  have i: "machine_issues light_raw = []" by code_simp
  have x: "''context'' \<notin> set (keys light_doc)" by (simp add: light_doc_def)
  show ?thesis
    using light_conforms i x
    by (simp add: parseYamlMachine_def light_lib_def finalizeAndValidateMachineIR_def light_raw_def
        light_machine_def)
qed

lemma light_keys: "forest_keys_wf (md_states light_machine)"
  by code_simp

section \<open>Properties\<close>

text \<open>The strict object schema already refuses a \<open>context\<close>; the check before it only names the reason.\<close>

lemma conforming_no_context: "dfsm_conforms (JObj doc) \<Longrightarrow> ''context'' \<notin> set (keys doc)"
  by (fastforce simp: DFSM_V1_SCHEMA_def conforms.simps list_all_iff)

text \<open>C12: A YAML definition is accepted exactly when it is an object that conforms to the schema and
  has no semantic issue; every refusal, syntax errors included, is a \<open>MachineValidationError\<close>.\<close>

theorem parse_accepts_exactly:
  assumes "validates lib"
  shows "case parseYamlMachine lib content of
      Inr m \<Rightarrow> (\<exists>doc. pl_parseYaml lib content = Inr (JObj doc) \<and> dfsm_conforms (JObj doc) \<and>
        machine_issues (raw_of_document doc) = [] \<and> m = to_machine (raw_of_document doc))
    | Inl e \<Rightarrow> (\<exists>msg issues. e = MachineValidationError msg issues) \<and>
        (\<nexists>doc. pl_parseYaml lib content = Inr (JObj doc) \<and> dfsm_conforms (JObj doc) \<and>
           machine_issues (raw_of_document doc) = [])"
proof (cases "parseYamlMachine lib content")
  case (Inl e)
  have "machine_issues (raw_of_document doc) \<noteq> []"
    if "pl_parseYaml lib content = Inr (JObj doc)" "dfsm_conforms (JObj doc)" for doc
    using Inl that assms conforming_no_context [OF that(2)]
    by (auto simp: parseYamlMachine_def finalizeAndValidateMachineIR_def validates_def Let_def split: if_splits)
  with Inl parse_errors [OF Inl] show ?thesis by auto
next
  case (Inr m)
  from parse_machine [OF Inr] obtain doc where d: "pl_parseYaml lib content = Inr (JObj doc)"
    "pl_validate lib schema_definitions DFSM_V1_SCHEMA (JObj doc) = []"
    "finalizeAndValidateMachineIR (raw_of_document doc) = Inr m" by blast
  then show ?thesis
    using assms Inr
    by (auto simp: validates_def finalizeAndValidateMachineIR_def Let_def split: if_splits)
qed

theorem parse_accepts_exactly_witness:
  "case parseYamlMachine light_lib ''light'' of
      Inr m \<Rightarrow> (\<exists>doc. pl_parseYaml light_lib ''light'' = Inr (JObj doc) \<and> dfsm_conforms (JObj doc) \<and>
        machine_issues (raw_of_document doc) = [] \<and> m = to_machine (raw_of_document doc))
    | Inl e \<Rightarrow> (\<exists>msg issues. e = MachineValidationError msg issues) \<and>
        (\<nexists>doc. pl_parseYaml light_lib ''light'' = Inr (JObj doc) \<and> dfsm_conforms (JObj doc) \<and>
           machine_issues (raw_of_document doc) = [])"
  by (rule parse_accepts_exactly [OF light_validates])

text \<open>C13: In every parsed machine every initial child exists, every edge has a resolvable target or a
  handler, compound and parallel states have children and there is an error state. The machine is
  moreover well formed (its tree is addressed by its dotted paths) exactly when its state keys are
  path segments, not empty and without a dot; the schema does not demand that.\<close>

theorem parsed_machine_ok:
  assumes "parseYamlMachine lib content = Inr m"
  shows "references_ok m \<and> (machine_ok m \<longleftrightarrow> forest_keys_wf (md_states m))"
  using parsed_references [OF assms] parsed_machine [OF assms] machine_keys by blast

theorem parsed_machine_ok_witness: "references_ok light_machine \<and> machine_ok light_machine"
  using parsed_machine_ok [OF light_parses] light_keys by blast

text \<open>C14: Whatever the fluent calls, and whatever their order, in a machine the builder returns every
  initial child exists, every edge has a resolvable target or a handler, compound and parallel states
  have children and there is an error state; and the machine is well formed (its tree is addressed
  by its dotted paths) exactly when its state keys are path segments, not empty and without a dot,
  which the builder does not check.\<close>

theorem built_machine_ok:
  assumes "build (fluent machineId calls) = Inr m"
  shows "references_ok m \<and> (machine_ok m \<longleftrightarrow> forest_keys_wf (md_states m))"
  using finalize_references [OF assms [unfolded build_def]] built_machine [OF assms] machine_keys by blast

definition light_calls :: "machine_call list" where
  "light_calls = [RootState ''green'' [On ''NEXT'' (TargetRef ''red'')], Initial ''green'',
     RootFinalState ''red'' []]"

definition light_built :: machine where
  "light_built = to_machine (raw_of_builder (fluent ''light'' light_calls))"

lemma light_builds: "build (fluent ''light'' light_calls) = Inr light_built"
proof -
  have "machine_issues (raw_of_builder (fluent ''light'' light_calls)) = []" by code_simp
  then show ?thesis by (simp add: build_def finalizeAndValidateMachineIR_def light_built_def)
qed

theorem built_machine_ok_witness: "references_ok light_built \<and> machine_ok light_built"
proof -
  have "forest_keys_wf (md_states light_built)" by code_simp
  with built_machine_ok [OF light_builds] show ?thesis by blast
qed

text \<open>C7: The two front ends agree: the fluent program read off a document builds the machine the
  parser returns for it, up to the recorded source.\<close>

theorem builder_equals_yaml:
  assumes "validates lib" "pl_parseYaml lib content = Inr (JObj doc)" "jval_wf (JObj doc)"
    and "parseYamlMachine lib content = Inr m"
  shows "build (fluent (md_id m) (machine_calls_of doc)) = Inr (m\<lparr>md_source := SourceBuilder\<rparr>)"
  by (rule yaml_builder [OF assms])

theorem builder_equals_yaml_witness:
  "build (fluent (md_id light_machine) (machine_calls_of light_doc)) =
     Inr (light_machine\<lparr>md_source := SourceBuilder\<rparr>)"
proof -
  have "pl_parseYaml light_lib ''light'' = Inr (JObj light_doc)" by (simp add: light_lib_def)
  moreover have "jval_wf (JObj light_doc)" by code_simp
  ultimately show ?thesis by (rule builder_equals_yaml [OF light_validates _ _ light_parses])
qed

end
