(* ===== verification/Metadata.thy ===== *)
theory Metadata
  imports Actor
begin

text \<open>
  Handler metadata and decorators (\<^verbatim>\<open>decorators/metadata.ts\<close>, \<^verbatim>\<open>decorators/decorators.ts\<close>). A JavaScript
  function is what it does in each of the four roles a handler can have, with the metadata the
  weak map attaches to that function object; decorating returns the function with its metadata
  changed. An object is its chain of prototypes and its own members, each with the keys recorded
  for it.
\<close>

section \<open>Metadata of a function\<close>

datatype handler_kind = TransitionKind | CompensateKind | EffectKind | HookKind

record attached =
  am_name :: "string option"
  am_kind :: "handler_kind option"
  am_policy :: partial_policy
  am_inputValidator :: "jval option schema_validator option"
  am_autoRegister :: "bool option"

record meta_update =
  mu_name :: "string option"
  mu_kind :: "handler_kind option"
  mu_policy :: "partial_policy option"
  mu_inputValidator :: "jval option schema_validator option"
  mu_autoRegister :: "bool option"

definition no_meta :: attached where
  "no_meta = \<lparr>am_name = None, am_kind = None, am_policy = empty_policy, am_inputValidator = None,
     am_autoRegister = None\<rparr>"

definition no_update :: meta_update where
  "no_update = \<lparr>mu_name = None, mu_kind = None, mu_policy = None, mu_inputValidator = None,
     mu_autoRegister = None\<rparr>"

definition update_meta :: "meta_update \<Rightarrow> attached \<Rightarrow> attached" where
  "update_meta u existing = \<lparr>
     am_name = or_elseo (mu_name u) (am_name existing),
     am_kind = or_elseo (mu_kind u) (am_kind existing),
     am_policy = (case mu_policy u of Some p \<Rightarrow> mergePartialInto (am_policy existing) p
                  | None \<Rightarrow> am_policy existing),
     am_inputValidator = or_elseo (mu_inputValidator u) (am_inputValidator existing),
     am_autoRegister = or_elseo (mu_autoRegister u) (am_autoRegister existing)\<rparr>"

record 'u js_fn =
  jf_transition :: "'u transition_fn"
  jf_compensate :: "'u compensate_fn"
  jf_effect :: "'u effect_fn"
  jf_hook :: "'u hook_fn"
  jf_meta :: "attached option"

definition upsertFunctionMetadata :: "meta_update \<Rightarrow> 'u js_fn \<Rightarrow> 'u js_fn" where
  "upsertFunctionMetadata u fn = fn\<lparr>jf_meta := Some (update_meta u (or_else (jf_meta fn) no_meta))\<rparr>"

definition getFunctionMetadata :: "'u js_fn \<Rightarrow> attached option" where
  "getFunctionMetadata fn = jf_meta fn"

text \<open>A new function that calls the old one (an arrow function, \<open>bind\<close>): no metadata yet.\<close>

definition wrapper :: "'u js_fn \<Rightarrow> 'u js_fn" where
  "wrapper fn = fn\<lparr>jf_meta := None\<rparr>"

section \<open>Recorded members\<close>

text \<open>Members are data properties: functions, or values that are none.\<close>

record 'u js_obj =
  jo_recorded :: "string list"
  jo_members :: "'u js_fn option dict"

record 'u service =
  sv_prototypes :: "'u js_obj list"
  sv_own :: "'u js_obj"

definition recordDecoratedPrototypeMember :: "string \<Rightarrow> 'u js_obj \<Rightarrow> 'u js_obj" where
  "recordDecoratedPrototypeMember key ob = ob\<lparr>jo_recorded := set_add key (jo_recorded ob)\<rparr>"

definition getDecoratedPrototypeMembers :: "'u service \<Rightarrow> string list" where
  "getDecoratedPrototypeMembers svc =
     dedup (concat (map jo_recorded (sv_prototypes svc)) @ jo_recorded (sv_own svc))"

text \<open>Property lookup: own members first, then along the chain.\<close>

definition get_member :: "'u service \<Rightarrow> string \<Rightarrow> 'u js_fn option" where
  "get_member svc key = Option.bind
     (map_of (concat (map jo_members (sv_own svc # sv_prototypes svc))) key) id"

section \<open>Policies from options\<close>

record decorator_options =
  do_name :: "string option"
  do_inputValidator :: "jval option validator_input option"
  do_autoRegister :: "bool option"
  do_policy :: partial_policy

text \<open>The policy fields that are truthy: an empty compensation handler name is dropped.\<close>

definition explicit_policy :: "partial_policy \<Rightarrow> partial_policy" where
  "explicit_policy p = p\<lparr>pp_compensateHandler := truthy (pp_compensateHandler p)\<rparr>"

section \<open>Method decorators\<close>

text \<open>
  What a decorator does to the method it is applied to, given the member's name: the function with
  its metadata, and the automatic registration it asks for.
\<close>

type_synonym 'u registration = "handler_kind \<times> string \<times> 'u js_fn"
type_synonym 'u decorator = "string \<Rightarrow> 'u js_fn \<Rightarrow> 'u js_fn \<times> 'u registration option"

definition auto_register :: "bool option \<Rightarrow> handler_kind \<Rightarrow> string \<Rightarrow> 'u js_fn \<Rightarrow> 'u registration option" where
  "auto_register auto kind name fn = (if auto = Some True \<and> name \<noteq> [] then Some (kind, name, fn) else None)"

definition DfsmTransition :: "decorator_options \<Rightarrow> 'u decorator" where
  "DfsmTransition opts memberName fn =
     (let name = or_else (do_name opts) memberName;
          fn' = upsertFunctionMetadata \<lparr>mu_name = Some name, mu_kind = Some TransitionKind,
             mu_policy = Some (explicit_policy (do_policy opts)),
             mu_inputValidator = toSchemaValidator (do_inputValidator opts),
             mu_autoRegister = do_autoRegister opts\<rparr> fn
      in (fn', auto_register (do_autoRegister opts) TransitionKind name fn'))"

definition policy_decorator :: "partial_policy \<Rightarrow> 'u decorator" where
  "policy_decorator p memberName fn = (upsertFunctionMetadata (no_update\<lparr>mu_policy := Some p\<rparr>) fn, None)"

text \<open>A number of attempts or a whole retry policy.\<close>

datatype retry_argument = Attempts int | RetryPolicy partial_retry

definition retry_policy :: "retry_argument \<Rightarrow> partial_policy" where
  "retry_policy arg = empty_policy\<lparr>pp_retry := Some (case arg of
     Attempts n \<Rightarrow> \<lparr>pr_maxAttempts = Some n, pr_backoff = None, pr_retryIf = None\<rparr> | RetryPolicy r \<Rightarrow> r)\<rparr>"

definition backoff_policy :: "partial_backoff \<Rightarrow> partial_policy" where
  "backoff_policy b = empty_policy\<lparr>pp_retry := Some
     \<lparr>pr_maxAttempts = None, pr_backoff = Some b, pr_retryIf = None\<rparr>\<rparr>"

definition breaker_policy :: "partial_breaker option \<Rightarrow> partial_policy" where
  "breaker_policy p = empty_policy\<lparr>pp_circuitBreaker := Some (merge_breaker
     \<lparr>pc_enabled = Some True, pc_key = None, pc_failureThreshold = None, pc_slidingWindowSize = None,
      pc_openDurationMs = None, pc_halfOpenMaxCalls = None\<rparr>
     (or_else p \<lparr>pc_enabled = None, pc_key = None, pc_failureThreshold = None,
        pc_slidingWindowSize = None, pc_openDurationMs = None, pc_halfOpenMaxCalls = None\<rparr>))\<rparr>"

definition onfail_policy :: "partial_onfail \<Rightarrow> partial_policy" where
  "onfail_policy p = empty_policy\<lparr>pp_onFail := Some p\<rparr>"

definition compensation_policy :: "string \<Rightarrow> partial_policy" where
  "compensation_policy name = empty_policy\<lparr>pp_compensateHandler := Some name\<rparr>"

definition benchmark_policy :: "bool option \<Rightarrow> partial_policy" where
  "benchmark_policy enabled =
     empty_policy\<lparr>pp_benchmark := Some \<lparr>pm_enabled = Some (or_else enabled True)\<rparr>\<rparr>"

definition Retry :: "retry_argument \<Rightarrow> 'u decorator" where
  "Retry arg = policy_decorator (retry_policy arg)"

definition Backoff :: "partial_backoff \<Rightarrow> 'u decorator" where
  "Backoff b = policy_decorator (backoff_policy b)"

definition CircuitBreaker :: "partial_breaker option \<Rightarrow> 'u decorator" where
  "CircuitBreaker p = policy_decorator (breaker_policy p)"

definition OnFail :: "partial_onfail \<Rightarrow> 'u decorator" where
  "OnFail p = policy_decorator (onfail_policy p)"

definition CompensateWith :: "string \<Rightarrow> 'u decorator" where
  "CompensateWith name = policy_decorator (compensation_policy name)"

definition Benchmark :: "bool option \<Rightarrow> 'u decorator" where
  "Benchmark enabled = policy_decorator (benchmark_policy enabled)"

text \<open>The decorators of the other three kinds have a name and the automatic registration only.\<close>

definition named_decorator :: "handler_kind \<Rightarrow> string option \<Rightarrow> bool option \<Rightarrow> 'u decorator" where
  "named_decorator kind nameOpt auto memberName fn =
     (let name = or_else nameOpt memberName;
          fn' = upsertFunctionMetadata (no_update\<lparr>mu_name := Some name, mu_kind := Some kind,
             mu_autoRegister := auto\<rparr>) fn
      in (fn', auto_register auto kind name fn'))"

definition DfsmCompensate :: "string option \<Rightarrow> bool option \<Rightarrow> 'u decorator" where
  "DfsmCompensate = named_decorator CompensateKind"

definition DfsmEffect :: "string option \<Rightarrow> bool option \<Rightarrow> 'u decorator" where
  "DfsmEffect = named_decorator EffectKind"

definition DfsmHook :: "string option \<Rightarrow> bool option \<Rightarrow> 'u decorator" where
  "DfsmHook = named_decorator HookKind"

text \<open>
  How a decorator is called: by the standard protocol on a method, whose initialiser records the
  member on every instance; by the legacy protocol on a descriptor with a function, which records
  it on the object that declares it; anything else throws.
\<close>

datatype 'u decoration =
    Stage3Method string "'u js_fn"
  | LegacyMethod string "'u js_fn" "'u js_obj"
  | OtherDecoration

datatype 'u decorated =
    WithInitializer "'u js_fn" string
  | OnPrototype "'u js_obj"

definition createMethodDecorator ::
  "'u decorator \<Rightarrow> 'u decoration \<Rightarrow> js_error + 'u decorated \<times> 'u registration option" where
  "createMethodDecorator d use =
     (case use of
        Stage3Method memberName fn \<Rightarrow>
          (case d memberName fn of (fn', reg) \<Rightarrow> Inr (WithInitializer fn' memberName, reg))
      | LegacyMethod memberName fn proto \<Rightarrow>
          (case d memberName fn of (fn', reg) \<Rightarrow>
             Inr (OnPrototype (recordDecoratedPrototypeMember memberName
               (proto\<lparr>jo_members := AList.update memberName (Some fn') (jo_members proto)\<rparr>)), reg))
      | OtherDecoration \<Rightarrow> Inl (JsError
          ''DFSM decorators must be applied to class methods or via decorateTransition().''))"

text \<open>The initialisers of the standard protocol, run on a new instance.\<close>

definition run_initializers :: "string list \<Rightarrow> 'u service \<Rightarrow> 'u service" where
  "run_initializers memberNames svc = svc\<lparr>sv_own := fold recordDecoratedPrototypeMember memberNames (sv_own svc)\<rparr>"

text \<open>Stacked decorators apply from the one next to the method outwards.\<close>

fun stack_decorators :: "'u decorator list \<Rightarrow> string \<Rightarrow> 'u js_fn \<Rightarrow> 'u js_fn \<times> 'u registration list" where
  "stack_decorators [] memberName fn = (fn, [])"
| "stack_decorators (d # ds) memberName fn =
     (case d memberName fn of (fn', reg) \<Rightarrow>
        case stack_decorators ds memberName fn' of (fn'', regs) \<Rightarrow>
          (fn'', (case reg of None \<Rightarrow> regs | Some r \<Rightarrow> r # regs)))"

section \<open>Decorating standalone functions\<close>

type_synonym 'u modifier = "'u js_fn \<Rightarrow> 'u js_fn"

definition with_policy :: "partial_policy \<Rightarrow> 'u modifier" where
  "with_policy p = upsertFunctionMetadata (no_update\<lparr>mu_policy := Some p\<rparr>)"

definition withRetry :: "retry_argument \<Rightarrow> 'u modifier" where
  "withRetry arg = with_policy (retry_policy arg)"

definition withBackoff :: "partial_backoff \<Rightarrow> 'u modifier" where
  "withBackoff b = with_policy (backoff_policy b)"

definition withCircuitBreaker :: "partial_breaker option \<Rightarrow> 'u modifier" where
  "withCircuitBreaker p = with_policy (breaker_policy p)"

definition withOnFail :: "partial_onfail \<Rightarrow> 'u modifier" where
  "withOnFail p = with_policy (onfail_policy p)"

definition withCompensation :: "string \<Rightarrow> 'u modifier" where
  "withCompensation name = with_policy (compensation_policy name)"

definition withBenchmark :: "bool option \<Rightarrow> 'u modifier" where
  "withBenchmark enabled = with_policy (benchmark_policy enabled)"

definition withInputValidator :: "jval option validator_input \<Rightarrow> 'u modifier" where
  "withInputValidator validator = upsertFunctionMetadata (no_update\<lparr>mu_inputValidator :=
     toSchemaValidator (Some validator)\<rparr>)"

definition decorateTransition :: "'u js_fn \<Rightarrow> 'u modifier list \<Rightarrow> 'u js_fn" where
  "decorateTransition fn modifiers =
     fold (\<lambda>m f. m f) modifiers (upsertFunctionMetadata (no_update\<lparr>mu_kind := Some TransitionKind\<rparr>) (wrapper fn))"

definition decorate_named :: "handler_kind \<Rightarrow> string \<Rightarrow> 'u js_fn \<Rightarrow> 'u js_fn" where
  "decorate_named kind name fn =
     upsertFunctionMetadata (no_update\<lparr>mu_name := Some name, mu_kind := Some kind\<rparr>) (wrapper fn)"

definition decorateCompensate :: "string \<Rightarrow> 'u js_fn \<Rightarrow> 'u js_fn" where
  "decorateCompensate = decorate_named CompensateKind"

definition decorateEffect :: "string \<Rightarrow> 'u js_fn \<Rightarrow> 'u js_fn" where
  "decorateEffect = decorate_named EffectKind"

definition decorateHook :: "string \<Rightarrow> 'u js_fn \<Rightarrow> 'u js_fn" where
  "decorateHook = decorate_named HookKind"

section \<open>What decorating amounts to\<close>

definition fn_policy :: "'u js_fn \<Rightarrow> partial_policy" where
  "fn_policy fn = (case jf_meta fn of None \<Rightarrow> empty_policy | Some a \<Rightarrow> am_policy a)"

lemma fn_policy_upsert:
  "fn_policy (upsertFunctionMetadata u fn) =
     (case mu_policy u of None \<Rightarrow> fn_policy fn | Some p \<Rightarrow> mergePartialInto (fn_policy fn) p)"
  by (cases "jf_meta fn") (auto simp: fn_policy_def upsertFunctionMetadata_def update_meta_def
      or_else_def no_meta_def split: option.splits)

lemma fn_code_upsert [simp]:
  "jf_transition (upsertFunctionMetadata u fn) = jf_transition fn"
  "jf_compensate (upsertFunctionMetadata u fn) = jf_compensate fn"
  "jf_effect (upsertFunctionMetadata u fn) = jf_effect fn"
  "jf_hook (upsertFunctionMetadata u fn) = jf_hook fn"
  by (simp_all add: upsertFunctionMetadata_def)

text \<open>The effective policy of a decorated function: the modifiers' policies as layers, in order.\<close>

lemma decorated_policy:
  "fn_policy (decorateTransition fn (map with_policy ps)) = fold (\<lambda>p q. mergePartialInto q p) ps empty_policy"
proof -
  have f: "fn_policy (fold (\<lambda>m f. m f) (map with_policy ps) g) = fold (\<lambda>p q. mergePartialInto q p) ps (fn_policy g)" for g
    by (induction ps arbitrary: g) (simp_all add: with_policy_def fn_policy_upsert no_update_def)
  have "fn_policy (wrapper fn) = empty_policy" by (simp add: fn_policy_def wrapper_def)
  then show ?thesis
    unfolding decorateTransition_def f by (simp add: fn_policy_upsert no_update_def)
qed

lemma apply_layers:
  "apply_layer (Some (fold (\<lambda>p q. mergePartialInto q p) ps q)) n =
     fold (\<lambda>p n. apply_layer (Some p) n) ps (apply_layer (Some q) n)"
  by (induction ps arbitrary: q) (simp_all add: apply_merge)

end
