(* ===== verification/Registry.thy ===== *)
theory Registry
  imports Builder ActorAdmin Metadata
begin

text \<open>
  The registry of \<^verbatim>\<open>runtime/registry.ts\<close>: machines, handlers by name, and the actors it has built.
  Stores are objects the registry and its actors share, so the state has a heap of them; an actor's
  slot holds the address of its store, and a call on the actor runs on that store and on the outside
  world all share. Handlers are looked up when a call is made, in the registry as it is then.
\<close>

section \<open>State\<close>

record ('s, 'u) slot =
  sl_actor :: "('s, 'u) actor"
  sl_world :: "('s, 'u) world"
  sl_store :: nat
  sl_hookNames :: "hook_slot \<Rightarrow> string list"
  sl_effectNames :: "string list"

record ('s, 'u) registry =
  rg_defaultStore :: nat
  rg_clock :: "'u world_ops"
  rg_uuid :: "'u \<Rightarrow> string \<times> 'u"
  rg_globalDefaults :: partial_policy
  rg_globalHooks :: "'u hook_subscription option"
  rg_machines :: "machine dict"
  rg_transitions :: "'u registered_transition dict"
  rg_compensations :: "'u compensate_fn dict"
  rg_effects :: "'u effect_fn dict"
  rg_hooks :: "'u hook_fn dict"
  rg_activeActors :: "('s, 'u) slot dict"
  rg_stores :: "nat \<Rightarrow> 's store_ops \<times> 's"
  rg_user :: 'u

type_synonym ('a, 's, 'u) ract = "('a, ('s, 'u) registry) eff"

record 'u registry_options =
  ro_store :: "nat option"
  ro_globalDefaults :: "partial_policy option"
  ro_clock :: "'u world_ops option"
  ro_hooks :: "'u hook_subscription option"

text \<open>
  A new registry: \<open>fresh\<close> is the address of the in-memory store it makes when none is given, and
  \<open>systemClock\<close> the default clock.
\<close>

definition newRegistry ::
  "'u world_ops \<Rightarrow> ('u \<Rightarrow> string \<times> 'u) \<Rightarrow> nat \<Rightarrow> (nat \<Rightarrow> 's store_ops \<times> 's) \<Rightarrow> 'u \<Rightarrow>
     'u registry_options \<Rightarrow> ('s, 'u) registry" where
  "newRegistry systemClock uuid fresh stores u options = \<lparr>
     rg_defaultStore = or_else (ro_store options) fresh, rg_clock = or_else (ro_clock options) systemClock,
     rg_uuid = uuid, rg_globalDefaults = or_else (ro_globalDefaults options) empty_policy,
     rg_globalHooks = ro_hooks options, rg_machines = [], rg_transitions = [], rg_compensations = [],
     rg_effects = [], rg_hooks = [], rg_activeActors = [], rg_stores = stores, rg_user = u\<rparr>"

definition configure :: "'u registry_options \<Rightarrow> ('s, 'u) registry \<Rightarrow> ('s, 'u) registry" where
  "configure options rg = rg\<lparr>
     rg_defaultStore := or_else (ro_store options) (rg_defaultStore rg),
     rg_globalDefaults := (case ro_globalDefaults options of
         None \<Rightarrow> rg_globalDefaults rg | Some p \<Rightarrow> spread_policy p (rg_globalDefaults rg)),
     rg_clock := or_else (ro_clock options) (rg_clock rg),
     rg_globalHooks := or_elseo (ro_hooks options) (rg_globalHooks rg)\<rparr>"

section \<open>Looking up handlers\<close>

definition resolve_in :: "'a dict \<Rightarrow> string \<Rightarrow> string option \<Rightarrow> (string \<times> 'a) option" where
  "resolve_in table rawName namespace =
     (case truthy namespace of
        Some ns \<Rightarrow>
          (case map_of table (qualifyHandlerName rawName (Some ns)) of
             Some found \<Rightarrow> Some (qualifyHandlerName rawName (Some ns), found)
           | None \<Rightarrow> map_option (Pair rawName) (map_of table rawName))
      | None \<Rightarrow> map_option (Pair rawName) (map_of table rawName))"

definition resolveTransition ::
  "('s, 'u) registry \<Rightarrow> string \<Rightarrow> string option \<Rightarrow> (string \<times> 'u registered_transition) option" where
  "resolveTransition rg = resolve_in (rg_transitions rg)"

definition resolveCompensate ::
  "('s, 'u) registry \<Rightarrow> string \<Rightarrow> string option \<Rightarrow> (string \<times> 'u compensate_fn) option" where
  "resolveCompensate rg = resolve_in (rg_compensations rg)"

definition resolveEffect ::
  "('s, 'u) registry \<Rightarrow> string \<Rightarrow> string option \<Rightarrow> (string \<times> 'u effect_fn) option" where
  "resolveEffect rg = resolve_in (rg_effects rg)"

definition resolveHook ::
  "('s, 'u) registry \<Rightarrow> string \<Rightarrow> string option \<Rightarrow> (string \<times> 'u hook_fn) option" where
  "resolveHook rg = resolve_in (rg_hooks rg)"

definition getGlobalPolicyDefaults :: "('s, 'u) registry \<Rightarrow> partial_policy" where
  "getGlobalPolicyDefaults = rg_globalDefaults"

text \<open>The registry as the lookup provider of its actors.\<close>

definition provider :: "('s, 'u) registry \<Rightarrow> 'u handlers" where
  "provider rg = \<lparr>hp_resolveTransition = resolveTransition rg, hp_resolveCompensate = resolveCompensate rg,
     hp_resolveEffect = resolveEffect rg, hp_resolveHook = resolveHook rg,
     hp_globalPolicyDefaults = getGlobalPolicyDefaults rg\<rparr>"

section \<open>Registering handlers\<close>

record transition_options =
  xo_policy :: partial_policy
  xo_inputValidator :: "jval option validator_input option"

text \<open>
  With options the function is wrapped: the wrapper starts from the metadata attached to the
  function and the explicit policy is merged over it.
\<close>

definition explicit_fn :: "string \<Rightarrow> 'u js_fn \<Rightarrow> transition_options \<Rightarrow> 'u js_fn" where
  "explicit_fn name fn opts =
     upsertFunctionMetadata (no_update\<lparr>mu_policy := Some (explicit_policy (xo_policy opts)),
        mu_inputValidator := Option.bind (xo_inputValidator opts) (\<lambda>v. toSchemaValidator (Some v))\<rparr>)
      (upsertFunctionMetadata (no_update\<lparr>mu_name := Some name, mu_kind := Some TransitionKind,
        mu_policy := map_option am_policy (getFunctionMetadata fn),
        mu_inputValidator := Option.bind (getFunctionMetadata fn) am_inputValidator\<rparr>) (wrapper fn))"

definition transition_entry :: "'u js_fn \<Rightarrow> 'u registered_transition" where
  "transition_entry fn = \<lparr>re_fn = jf_transition fn,
     re_policy = (case getFunctionMetadata fn of None \<Rightarrow> empty_policy | Some a \<Rightarrow> am_policy a),
     re_inputValidator = Option.bind (getFunctionMetadata fn) am_inputValidator\<rparr>"

definition registerTransition ::
  "string \<Rightarrow> 'u js_fn \<Rightarrow> transition_options option \<Rightarrow> ('s, 'u) registry \<Rightarrow> ('s, 'u) registry" where
  "registerTransition name fn options rg = rg\<lparr>rg_transitions := AList.update name
     (transition_entry (case options of None \<Rightarrow> fn | Some opts \<Rightarrow> explicit_fn name fn opts))
     (rg_transitions rg)\<rparr>"

definition registerCompensate :: "string \<Rightarrow> 'u js_fn \<Rightarrow> ('s, 'u) registry \<Rightarrow> ('s, 'u) registry" where
  "registerCompensate name fn rg =
     rg\<lparr>rg_compensations := AList.update name (jf_compensate fn) (rg_compensations rg)\<rparr>"

definition registerEffect :: "string \<Rightarrow> 'u js_fn \<Rightarrow> ('s, 'u) registry \<Rightarrow> ('s, 'u) registry" where
  "registerEffect name fn rg = rg\<lparr>rg_effects := AList.update name (jf_effect fn) (rg_effects rg)\<rparr>"

definition registerHook :: "string \<Rightarrow> 'u js_fn \<Rightarrow> ('s, 'u) registry \<Rightarrow> ('s, 'u) registry" where
  "registerHook name fn rg = rg\<lparr>rg_hooks := AList.update name (jf_hook fn) (rg_hooks rg)\<rparr>"

definition register_kind ::
  "handler_kind \<Rightarrow> string \<Rightarrow> 'u js_fn \<Rightarrow> ('s, 'u) registry \<Rightarrow> ('s, 'u) registry" where
  "register_kind kind name fn =
     (case kind of
        TransitionKind \<Rightarrow> registerTransition name fn None
      | CompensateKind \<Rightarrow> registerCompensate name fn
      | EffectKind \<Rightarrow> registerEffect name fn
      | HookKind \<Rightarrow> registerHook name fn)"

text \<open>The hook decorators call on the singleton registry.\<close>

definition autoRegisterHook :: "'u registration \<Rightarrow> ('s, 'u) registry \<Rightarrow> ('s, 'u) registry" where
  "autoRegisterHook reg = (case reg of (kind, name, fn) \<Rightarrow> register_kind kind name fn)"

section \<open>Registering a service\<close>

definition has_meta :: "'u js_fn option \<Rightarrow> bool" where
  "has_meta m = (case m of Some fn \<Rightarrow> getFunctionMetadata fn \<noteq> None | None \<Rightarrow> False)"

definition service_keys :: "'u service \<Rightarrow> string list" where
  "service_keys svc = dedup (getDecoratedPrototypeMembers svc @
     concat (map (\<lambda>ob. map fst (filter (\<lambda>(k, m). k \<noteq> ''constructor'' \<and> has_meta m) (jo_members ob)))
       (sv_prototypes svc)) @
     filter (\<lambda>k. has_meta (get_member svc k)) (map fst (jo_members (sv_own svc))))"

definition register_member :: "'u service \<Rightarrow> string option \<Rightarrow> string \<Rightarrow> ('s, 'u) registry \<Rightarrow> ('s, 'u) registry" where
  "register_member svc namespace key rg =
     (case get_member svc key of
        None \<Rightarrow> rg
      | Some method \<Rightarrow>
          (case getFunctionMetadata method of
             None \<Rightarrow> rg
           | Some meta \<Rightarrow>
               (let qualified = qualifyHandlerName (or_else (am_name meta) key) namespace;
                    kind = or_else (am_kind meta) TransitionKind;
                    boundFn = upsertFunctionMetadata \<lparr>mu_name = Some qualified, mu_kind = Some kind,
                      mu_policy = Some (am_policy meta), mu_inputValidator = am_inputValidator meta,
                      mu_autoRegister = None\<rparr> (wrapper method)
                in register_kind kind qualified boundFn rg)))"

definition registerService :: "'u service \<Rightarrow> string option \<Rightarrow> ('s, 'u) registry \<Rightarrow> ('s, 'u) registry" where
  "registerService svc namespace = fold (register_member svc namespace) (service_keys svc)"

section \<open>Validating the handlers of a machine\<close>

definition missing_effects :: "('s, 'u) registry \<Rightarrow> string option \<Rightarrow> string list \<Rightarrow> string list" where
  "missing_effects rg ns effs =
     map (\<lambda>eff. qualifyHandlerName eff ns) (filter (\<lambda>eff. resolveEffect rg eff ns = None) effs)"

definition missing_hooks :: "('s, 'u) registry \<Rightarrow> machine \<Rightarrow> string list" where
  "missing_hooks rg m = (let ns = rb_namespace (md_registry m) in
     concat (map (\<lambda>slot. map (\<lambda>ref. qualifyHandlerName ref ns)
       (filter (\<lambda>ref. resolveHook rg ref ns = None) (md_hooks m slot))) hook_slots))"

definition missing_edge :: "('s, 'u) registry \<Rightarrow> string option \<Rightarrow> transition_edge \<Rightarrow> string list" where
  "missing_edge rg ns edge =
     (let txName = truthy (te_transition edge);
          resolvedTx = Option.bind txName (\<lambda>t. resolveTransition rg t ns);
          rawComp = truthy (or_elseo (Option.bind resolvedTx (\<lambda>(_, e). pp_compensateHandler (re_policy e)))
             (te_compensate edge))
      in (case txName of Some t \<Rightarrow> if resolvedTx = None then [qualifyHandlerName t ns] else [] | None \<Rightarrow> []) @
         (case rawComp of Some n \<Rightarrow> if resolveCompensate rg n ns = None then [qualifyHandlerName n ns] else []
          | None \<Rightarrow> []) @
         missing_effects rg ns (te_effects edge))"

fun missing_node :: "('s, 'u) registry \<Rightarrow> string option \<Rightarrow> state_node \<Rightarrow> string list" where
  "missing_node rg ns (StateNode k path ty desc init en ex on od sts imp) =
     missing_effects rg ns en @ missing_effects rg ns ex @
     concat (map (\<lambda>(ev, edge). missing_edge rg ns edge) on) @
     (case od of None \<Rightarrow> [] | Some edge \<Rightarrow> missing_edge rg ns edge) @
     concat (map (\<lambda>(ck, child). missing_node rg ns child) sts)"

definition validateMachineHandlers :: "machine \<Rightarrow> ('s, 'u) registry \<Rightarrow> js_error + unit" where
  "validateMachineHandlers m rg =
     (let ns = rb_namespace (md_registry m);
          missing = missing_effects rg ns (md_effects m) @ missing_hooks rg m @
            concat (map (\<lambda>(k, root). missing_node rg ns root) (md_states m))
      in if missing \<noteq> [] then Inl (UnregisteredHandlerError (md_id m) (dedup missing)) else Inr ())"

section \<open>Registering machines\<close>

record 'u handler_bindings =
  bs_namespace :: "string option"
  bs_services :: "'u service list"
  bs_transitions :: "'u js_fn dict"
  bs_compensations :: "'u js_fn dict"
  bs_effects :: "'u js_fn dict"
  bs_hooks :: "'u js_fn dict"
  bs_validateHandlersNow :: "bool option"

definition register_all ::
  "(string \<Rightarrow> 'u js_fn \<Rightarrow> ('s, 'u) registry \<Rightarrow> ('s, 'u) registry) \<Rightarrow> string option \<Rightarrow> 'u js_fn dict \<Rightarrow>
     ('s, 'u) registry \<Rightarrow> ('s, 'u) registry" where
  "register_all register ns fns = fold (\<lambda>(name, fn). register (qualifyHandlerName name ns) fn) fns"

definition applyMachineBindings :: "machine \<Rightarrow> 'u handler_bindings option \<Rightarrow> (unit, 's, 'u) ract" where
  "applyMachineBindings m bindings =
     (case bindings of
        None \<Rightarrow> ret ()
      | Some b \<Rightarrow>
          (let ns = or_elseo (bs_namespace b) (rb_namespace (md_registry m)) in
           seq (modify (\<lambda>rg.
             register_all registerHook ns (bs_hooks b)
            (register_all registerEffect ns (bs_effects b)
            (register_all registerCompensate ns (bs_compensations b)
            (register_all (\<lambda>name fn. registerTransition name fn None) ns (bs_transitions b)
            (fold (\<lambda>svc. registerService svc ns) (bs_services b) rg))))))
           (if or_else (bs_validateHandlersNow b) (rb_strict (md_registry m))
            then bind (reads (validateMachineHandlers m)) result else ret ())))"

definition set_machine :: "machine \<Rightarrow> ('s, 'u) registry \<Rightarrow> ('s, 'u) registry" where
  "set_machine m rg = rg\<lparr>rg_machines := AList.update (md_id m) m (rg_machines rg)\<rparr>"

definition registerMachine :: "machine \<Rightarrow> 'u handler_bindings option \<Rightarrow> (machine, 's, 'u) ract" where
  "registerMachine m bindings =
     seq (modify (set_machine m)) (seq (applyMachineBindings m bindings) (ret m))"

definition registerYaml ::
  "parser_lib \<Rightarrow> string \<Rightarrow> 'u handler_bindings option \<Rightarrow> (machine, 's, 'u) ract" where
  "registerYaml lib yamlContent bindings =
     bind (result (parseYamlMachine lib yamlContent)) (\<lambda>m.
     seq (modify (set_machine m)) (seq (applyMachineBindings m bindings) (ret m)))"

definition registerYamlFile ::
  "parser_lib \<Rightarrow> (string \<Rightarrow> js_error + string) \<Rightarrow> string \<Rightarrow> 'u handler_bindings option \<Rightarrow>
     (machine, 's, 'u) ract" where
  "registerYamlFile lib readFile filePath bindings =
     bind (result (loadYamlMachineFromFile lib readFile filePath)) (\<lambda>m.
     seq (modify (set_machine m)) (seq (applyMachineBindings m bindings) (ret m)))"

definition registerBuilder :: "machine_builder \<Rightarrow> 'u handler_bindings option \<Rightarrow> (machine, 's, 'u) ract" where
  "registerBuilder builder bindings =
     bind (result (build builder)) (\<lambda>m.
     seq (modify (set_machine m)) (seq (applyMachineBindings m bindings) (ret m)))"

section \<open>Building actors\<close>

datatype machine_source = ByText string | ByBuilder machine_builder | ByDefinition machine

record ('s, 'u) registry_actor_config = "('s, 'u) actor_config" +
  ax_store :: "nat option"
  ax_bindings :: "'u handler_bindings option"

definition js_space :: "char \<Rightarrow> bool" where
  "js_space c \<longleftrightarrow> c \<in> {CHR '' '', CHR 0x09, CHR 0x0A, CHR 0x0B, CHR 0x0C, CHR 0x0D, CHR 0xA0}"

fun has_substring :: "string \<Rightarrow> string \<Rightarrow> bool" where
  "has_substring [] pat \<longleftrightarrow> pat = []"
| "has_substring (c # cs) pat \<longleftrightarrow> starts_with (c # cs) pat \<or> has_substring cs pat"

definition is_yaml_text :: "string \<Rightarrow> bool" where
  "is_yaml_text s \<longleftrightarrow> (let trimmed = dropWhile js_space s in
     starts_with trimmed ''dfsm:'' \<or> starts_with trimmed ''#'' \<or> has_substring s (CHR 0x0A # ''dfsm:''))"

definition machine_not_registered :: "string \<Rightarrow> js_error" where
  "machine_not_registered machineId = DfsmError ''DFSM_MACHINE_NOT_REGISTERED''
     (''Machine '' @ quoted machineId @ '' is not registered in FSMRegistry'')"

definition find_machine :: "parser_lib \<Rightarrow> machine_source \<Rightarrow> (machine, 's, 'u) ract" where
  "find_machine lib source =
     (case source of
        ByText text \<Rightarrow>
          if is_yaml_text text
          then bind (result (parseYamlMachine lib text)) (\<lambda>m. seq (modify (set_machine m)) (ret m))
          else bind (reads (\<lambda>rg. map_of (rg_machines rg) text)) (\<lambda>found. case found of
                 None \<Rightarrow> throw (machine_not_registered text) | Some m \<Rightarrow> ret m)
      | ByBuilder builder \<Rightarrow> bind (result (build builder)) (\<lambda>m. seq (modify (\<lambda>rg.
          if md_id m \<in> set (keys (rg_machines rg)) then rg else set_machine m rg)) (ret m))
      | ByDefinition m \<Rightarrow> seq (modify (\<lambda>rg.
          if md_id m \<in> set (keys (rg_machines rg)) then rg else set_machine m rg)) (ret m))"

definition resolved_hook_names :: "('s, 'u) registry \<Rightarrow> machine \<Rightarrow> hook_slot \<Rightarrow> string list" where
  "resolved_hook_names rg m slot =
     filter (\<lambda>n. n \<noteq> []) (List.map_filter (\<lambda>ref. map_option fst
       (resolveHook rg ref (rb_namespace (md_registry m)))) (md_hooks m slot))"

text \<open>The new actor's id stands for the object; it is known to the registry under that id.\<close>

definition construct_actor ::
  "machine \<Rightarrow> ('s, 'u) registry_actor_config \<Rightarrow> (string, 's, 'u) ract" where
  "construct_actor m config = (\<lambda>rg.
     let addr = or_else (ax_store config) (rg_defaultStore rg);
         (ops, s) = rg_stores rg addr;
         defaults = \<lparr>ad_store = fst (rg_stores rg (rg_defaultStore rg)), ad_clock = rg_clock rg,
            ad_hooks = rg_globalHooks rg\<rparr>;
         config' = (actor_config.truncate config)\<lparr>af_store := Some ops\<rparr>
     in case newActor m (provider rg) defaults config' (rg_uuid rg) s (rg_user rg) of
          (Inl e, u) \<Rightarrow> Some (Inl e, rg\<lparr>rg_user := u\<rparr>)
        | (Inr (a, w), u) \<Rightarrow> Some (Inr (ac_actorId a), rg\<lparr>rg_user := u,
            rg_activeActors := AList.update (ac_actorId a)
              \<lparr>sl_actor = a, sl_world = w, sl_store = addr, sl_hookNames = resolved_hook_names rg m,
               sl_effectNames = (case compileMachineBindings m (provider rg) (input_validators config') of
                  Inr (c, _) \<Rightarrow> cp_effects c | Inl _ \<Rightarrow> [])\<rparr> (rg_activeActors rg)\<rparr>))"

definition buildActorSync ::
  "parser_lib \<Rightarrow> machine_source \<Rightarrow> ('s, 'u) registry_actor_config \<Rightarrow> (string, 's, 'u) ract" where
  "buildActorSync lib source config =
     bind (find_machine lib source) (\<lambda>m.
     seq (applyMachineBindings m (map_option (\<lambda>b. b\<lparr>bs_validateHandlersNow := Some False\<rparr>) (ax_bindings config)))
       (construct_actor m config))"

section \<open>Calls on an actor\<close>

definition enter_slot :: "('s, 'u) slot \<Rightarrow> ('s, 'u) registry \<Rightarrow> ('s, 'u) world" where
  "enter_slot sl rg =
     (sl_world sl)\<lparr>w_store := snd (rg_stores rg (sl_store sl)), w_user := rg_user rg\<rparr>"

definition leave_slot ::
  "string \<Rightarrow> ('s, 'u) slot \<Rightarrow> ('s, 'u) world \<Rightarrow> ('s, 'u) registry \<Rightarrow> ('s, 'u) registry" where
  "leave_slot actorId sl w rg = rg\<lparr>rg_user := w_user w,
     rg_stores := (rg_stores rg)(sl_store sl := (fst (rg_stores rg (sl_store sl)), w_store w)),
     rg_activeActors := AList.update actorId (sl\<lparr>sl_world := w\<rparr>) (rg_activeActors rg)\<rparr>"

definition on_actor :: "string \<Rightarrow> (('s, 'u) actor \<Rightarrow> ('a, 's, 'u) act) \<Rightarrow> ('a, 's, 'u) ract" where
  "on_actor actorId call = (\<lambda>rg.
     case map_of (rg_activeActors rg) actorId of
       None \<Rightarrow> Some (Inl (JsError ''Cannot read properties of undefined''), rg)
     | Some sl \<Rightarrow>
         (case call ((sl_actor sl)\<lparr>ac_handlers := provider rg\<rparr>) (enter_slot sl rg) of
            None \<Rightarrow> None
          | Some (r, w) \<Rightarrow> Some (r, leave_slot actorId sl w rg)))"

definition createActor ::
  "nat \<Rightarrow> parser_lib \<Rightarrow> machine_source \<Rightarrow> ('s, 'u) registry_actor_config \<Rightarrow> (string, 's, 'u) ract" where
  "createActor n lib source config =
     bind (buildActorSync lib source config) (\<lambda>actorId.
     seq (on_actor actorId (\<lambda>a. initialize a (run_prog n a))) (ret actorId))"

text \<open>Closing an actor stops its timer and calls back, which takes it out of the registry.\<close>

definition close_actor :: "string \<Rightarrow> (unit, 's, 'u) ract" where
  "close_actor actorId = seq (on_actor actorId (\<lambda>_. actor_close))
     (modify (\<lambda>rg. rg\<lparr>rg_activeActors := AList.delete actorId (rg_activeActors rg)\<rparr>))"

section \<open>The default store\<close>

definition default_call :: "('s store_ops \<Rightarrow> 's \<Rightarrow> (js_error + 'a) \<times> 's) \<Rightarrow> ('a, 's, 'u) ract" where
  "default_call f = (\<lambda>rg.
     case rg_stores rg (rg_defaultStore rg) of (ops, s) \<Rightarrow>
       (case f ops s of (r, s') \<Rightarrow>
          Some (r, rg\<lparr>rg_stores := (rg_stores rg)(rg_defaultStore rg := (ops, s'))\<rparr>)))"

definition init_default :: "(unit, 's, 'u) ract" where
  "init_default = default_call (\<lambda>ops s. (Inr (), so_initialize ops s))"

definition registry_now :: "(int, 's, 'u) ract" where
  "registry_now = reads (\<lambda>rg. wo_now (rg_clock rg) (rg_user rg))"

definition getGlobalActiveCount :: "string option \<Rightarrow> (nat, 's, 'u) ract" where
  "getGlobalActiveCount machineId =
     seq init_default (default_call (\<lambda>ops. so_countTransactions ops
       (no_filter\<lparr>qf_machineId := machineId, qf_statuses := Some NON_TERMINAL_STATUSES\<rparr>)))"

definition getGlobalInFlightCount ::
  "string option \<Rightarrow> bool \<Rightarrow> int option \<Rightarrow> (nat, 's, 'u) ract" where
  "getGlobalInFlightCount machineId stuckOnly stuckThresholdMs =
     seq init_default (bind registry_now (\<lambda>t. default_call (\<lambda>ops. so_countTransactions ops
       (no_filter\<lparr>qf_machineId := machineId, qf_statuses := Some [IN_FLIGHT, COMPENSATING],
          qf_stuckBeforeTimestamp := (if stuckOnly then Some (t - or_else stuckThresholdMs 30000) else None)\<rparr>))))"

record in_flight_bucket =
  ib_idle :: nat
  ib_inFlight :: nat
  ib_compensating :: nat
  ib_nonTerminal :: nat
  ib_stuck :: nat

record in_flight_stats =
  is_totalIdle :: nat
  is_totalInFlight :: nat
  is_totalCompensating :: nat
  is_totalNonTerminal :: nat
  is_totalStuck :: nat
  is_byMachine :: "in_flight_bucket dict"

definition empty_bucket :: in_flight_bucket where
  "empty_bucket = \<lparr>ib_idle = 0, ib_inFlight = 0, ib_compensating = 0, ib_nonTerminal = 0, ib_stuck = 0\<rparr>"

definition count_in_bucket :: "tx_summary \<Rightarrow> in_flight_bucket \<Rightarrow> in_flight_bucket" where
  "count_in_bucket r b = b\<lparr>ib_nonTerminal := ib_nonTerminal b + 1,
     ib_idle := ib_idle b + (if su_status r = IDLE then 1 else 0),
     ib_inFlight := ib_inFlight b + (if su_status r = IN_FLIGHT then 1 else 0),
     ib_compensating := ib_compensating b + (if su_status r = COMPENSATING then 1 else 0),
     ib_stuck := ib_stuck b + (if su_isStuck r then 1 else 0)\<rparr>"

definition count_row :: "tx_summary \<Rightarrow> in_flight_stats \<Rightarrow> in_flight_stats" where
  "count_row r st = st\<lparr>
     is_totalIdle := is_totalIdle st + (if su_status r = IDLE then 1 else 0),
     is_totalInFlight := is_totalInFlight st + (if su_status r = IN_FLIGHT then 1 else 0),
     is_totalCompensating := is_totalCompensating st + (if su_status r = COMPENSATING then 1 else 0),
     is_totalStuck := is_totalStuck st + (if su_isStuck r then 1 else 0),
     is_byMachine := AList.update (su_machineId r)
       (count_in_bucket r (or_else (map_of (is_byMachine st) (su_machineId r)) empty_bucket)) (is_byMachine st)\<rparr>"

definition in_flight_stats_of :: "tx_summary list \<Rightarrow> in_flight_stats" where
  "in_flight_stats_of rows =
     (let st = fold count_row rows \<lparr>is_totalIdle = 0, is_totalInFlight = 0, is_totalCompensating = 0,
            is_totalNonTerminal = 0, is_totalStuck = 0, is_byMachine = []\<rparr>
      in st\<lparr>is_totalNonTerminal := is_totalIdle st + is_totalInFlight st + is_totalCompensating st\<rparr>)"

definition getInFlightSummary :: "int option \<Rightarrow> (in_flight_stats, 's, 'u) ract" where
  "getInFlightSummary stuckThresholdMs =
     seq init_default (bind registry_now (\<lambda>t.
     bind (default_call (\<lambda>ops. so_queryTransactions ops
         (no_filter\<lparr>qf_statuses := Some NON_TERMINAL_STATUSES\<rparr>) t (or_else stuckThresholdMs 30000)))
       (\<lambda>rows. ret (in_flight_stats_of rows))))"

section \<open>Introspection\<close>

record machine_summary =
  mz_id :: string
  mz_version :: string
  mz_source :: definition_source
  mz_namespace :: "string option"
  mz_stateCount :: nat
  mz_hasCustomErrorState :: bool
  mz_boundActorCount :: nat

definition slot_machine :: "('s, 'u) slot \<Rightarrow> string" where
  "slot_machine sl = md_id (ac_machine (sl_actor sl))"

definition actorCountByMachine :: "('s, 'u) registry \<Rightarrow> nat dict" where
  "actorCountByMachine rg = fold (\<lambda>(_, sl) counts.
     AList.update (slot_machine sl) (or_else (map_of counts (slot_machine sl)) 0 + 1) counts)
     (rg_activeActors rg) []"

definition listMachines :: "('s, 'u) registry \<Rightarrow> machine_summary list" where
  "listMachines rg = map (\<lambda>(_, m). \<lparr>mz_id = md_id m, mz_version = md_version m,
     mz_source = md_source m, mz_namespace = rb_namespace (md_registry m),
     mz_stateCount = length (md_states m), mz_hasCustomErrorState = md_hasCustomErrorState m,
     mz_boundActorCount = or_else (map_of (actorCountByMachine rg) (md_id m)) 0\<rparr>) (rg_machines rg)"

definition getMachineDefinition :: "string \<Rightarrow> ('s, 'u) registry \<Rightarrow> machine option" where
  "getMachineDefinition machineId rg = map_of (rg_machines rg) machineId"

definition registry_getTerminalStates :: "string \<Rightarrow> ('s, 'u) registry \<Rightarrow> js_error + terminal_summary" where
  "registry_getTerminalStates machineId rg =
     (case map_of (rg_machines rg) machineId of
        None \<Rightarrow> Inl (machine_not_registered machineId)
      | Some m \<Rightarrow> (let states = getTerminalStates m in Inr
          \<lparr>sm_machineId = md_id m, sm_terminalStatuses = TERMINAL_STATUSES,
           sm_nonTerminalStatuses = NON_TERMINAL_STATUSES,
           sm_topLevelTerminalStates = map td_path (filter td_isTopLevel states), sm_states = states\<rparr>))"

definition effective_entry ::
  "('s, 'u) registry \<Rightarrow> machine \<Rightarrow> string \<Rightarrow> string \<times> transition_edge \<Rightarrow> effective_transition" where
  "effective_entry rg m statePath ev =
     (let (event, edge) = ev; ns = rb_namespace (md_registry m);
          resolvedTx = Option.bind (truthy (te_transition edge)) (\<lambda>t. resolveTransition rg t ns);
          policy = normalizeTransitionPolicy \<lparr>
             mi_defaultBreakerKey = md_id m @ '':'' @ statePath @ '':'' @ event,
             mi_globalDefaults = Some (rg_globalDefaults rg), mi_machineDefaults = Some (md_defaults m),
             mi_transitionPolicy = Some (te_policy edge),
             mi_decoratorPolicy = map_option (\<lambda>(_, e). re_policy e) resolvedTx\<rparr>;
          rawComp = truthy (or_elseo (np_compensateHandler policy) (te_compensate edge))
      in \<lparr>ef_statePath = statePath, ef_event = event, ef_target = te_target edge,
          ef_resolvedTransitionHandler = map_option fst resolvedTx,
          ef_resolvedCompensateHandler = Option.bind rawComp (\<lambda>n. map_option fst (resolveCompensate rg n ns)),
          ef_policy = policy,
          ef_circuitBreakerState = fst (manager_getStatus (wo_now (rg_clock rg) (rg_user rg))
             (nc_key (np_circuitBreaker policy)) [])\<rparr>)"

fun effective_node :: "('s, 'u) registry \<Rightarrow> machine \<Rightarrow> state_node \<Rightarrow> effective_transition list" where
  "effective_node rg m (StateNode k path ty desc init en ex on od sts imp) =
     map (effective_entry rg m path) on @ concat (map (\<lambda>(ck, child). effective_node rg m child) sts)"

fun node_effects :: "state_node \<Rightarrow> string list" where
  "node_effects (StateNode k path ty desc init en ex on od sts imp) =
     en @ ex @ concat (map (\<lambda>(ev, edge). te_effects edge) on) @
     (case od of None \<Rightarrow> [] | Some edge \<Rightarrow> te_effects edge) @
     concat (map (\<lambda>(ck, child). node_effects child) sts)"

text \<open>The configuration of a machine no actor runs: worked out from the registry, breakers unused.\<close>

definition offline_config :: "('s, 'u) registry \<Rightarrow> machine \<Rightarrow> effective_config" where
  "offline_config rg m = \<lparr>ec_machineId = md_id m, ec_version = md_version m, ec_source = md_source m,
     ec_hasCustomErrorState = md_hasCustomErrorState m,
     ec_maxEffectChainDepth = or_else (md_maxEffectChainDepth m) 25,
     ec_resolvedHooks = resolved_hook_names rg m,
     ec_registeredEffects = dedup (List.map_filter (\<lambda>eff.
        map_option fst (resolveEffect rg eff (rb_namespace (md_registry m))))
        (md_effects m @ concat (map (\<lambda>(k, root). node_effects root) (md_states m)))),
     ec_transitions = concat (map (\<lambda>(k, root). effective_node rg m root) (md_states m))\<rparr>"

definition bound_actor :: "string \<Rightarrow> ('s, 'u) registry \<Rightarrow> string option" where
  "bound_actor machineId rg =
     map_option fst (List.find (\<lambda>(_, sl). slot_machine sl = machineId) (rg_activeActors rg))"

definition registry_getEffectiveConfig :: "string \<Rightarrow> (effective_config, 's, 'u) ract" where
  "registry_getEffectiveConfig machineId =
     bind (reads (\<lambda>rg. bound_actor machineId rg)) (\<lambda>bound. case bound of
        Some actorId \<Rightarrow> bind (reads (\<lambda>rg. map_of (rg_activeActors rg) actorId)) (\<lambda>sl.
          on_actor actorId (\<lambda>a. case sl of
             Some slot \<Rightarrow> actor_getEffectiveConfig a (sl_hookNames slot) (sl_effectNames slot)
           | None \<Rightarrow> throw (JsError ''Cannot read properties of undefined'')))
      | None \<Rightarrow> bind (reads (\<lambda>rg. map_option (offline_config rg) (map_of (rg_machines rg) machineId))) (\<lambda>found.
          case found of None \<Rightarrow> throw (machine_not_registered machineId) | Some c \<Rightarrow> ret c))"

record handler_descriptor =
  hx_name :: string
  hx_kind :: handler_kind
  hx_policy :: "partial_policy option"

definition in_namespace :: "string option \<Rightarrow> string \<Rightarrow> bool" where
  "in_namespace namespace name =
     (case truthy namespace of
        None \<Rightarrow> True | Some ns \<Rightarrow> name = ns \<or> starts_with name (ns @ dot))"

definition listRegisteredHandlers :: "string option \<Rightarrow> ('s, 'u) registry \<Rightarrow> handler_descriptor list" where
  "listRegisteredHandlers namespace rg = filter (\<lambda>d. in_namespace namespace (hx_name d))
     (map (\<lambda>(name, e). \<lparr>hx_name = name, hx_kind = TransitionKind, hx_policy = Some (re_policy e)\<rparr>) (rg_transitions rg) @
      map (\<lambda>(name, _). \<lparr>hx_name = name, hx_kind = CompensateKind, hx_policy = None\<rparr>) (rg_compensations rg) @
      map (\<lambda>(name, _). \<lparr>hx_name = name, hx_kind = EffectKind, hx_policy = None\<rparr>) (rg_effects rg) @
      map (\<lambda>(name, _). \<lparr>hx_name = name, hx_kind = HookKind, hx_policy = None\<rparr>) (rg_hooks rg))"

record registry_config =
  gc_registeredMachineCount :: nat
  gc_registeredHandlerCount :: nat
  gc_activeActorCount :: nat
  gc_globalDefaults :: partial_policy

definition getRegistryConfig :: "('s, 'u) registry \<Rightarrow> registry_config" where
  "getRegistryConfig rg = \<lparr>gc_registeredMachineCount = length (rg_machines rg),
     gc_registeredHandlerCount = length (rg_transitions rg) + length (rg_compensations rg) +
       length (rg_effects rg) + length (rg_hooks rg),
     gc_activeActorCount = length (rg_activeActors rg), gc_globalDefaults = rg_globalDefaults rg\<rparr>"

record actor_summary =
  az_actorId :: string
  az_machineId :: string
  az_schedulerEnabled :: bool
  az_schedulerRunning :: bool
  az_recoveryPolicy :: recovery_config

definition listActors :: "('s, 'u) registry \<Rightarrow> actor_summary list" where
  "listActors rg = map (\<lambda>(_, sl). \<lparr>az_actorId = ac_actorId (sl_actor sl), az_machineId = slot_machine sl,
     az_schedulerEnabled = sc_enabled (w_scheduler (sl_world sl)),
     az_schedulerRunning = w_timerRunning (sl_world sl), az_recoveryPolicy = ac_recovery (sl_actor sl)\<rparr>)
     (rg_activeActors rg)"

section \<open>Forced clean-up across machines\<close>

definition registry_cleanup_filter :: "cleanup_options \<Rightarrow> int \<Rightarrow> int \<Rightarrow> query_filter" where
  "registry_cleanup_filter opts t threshold = \<lparr>
     qf_machineId = co_machineId opts, qf_actorId = co_actorId opts,
     qf_transactionIds = co_transactionIds opts,
     qf_statuses = Some (or_else (co_statuses opts)
       (if or_else (co_includeInFlight opts) False
        then [IDLE, IN_FLIGHT, COMPENSATING, COMPLETED, FAILED, COMPENSATED]
        else [COMPLETED, FAILED, COMPENSATED])),
     qf_stuckBeforeTimestamp = (if or_else (co_stuckOnly opts) False then Some (t - threshold) else None),
     qf_olderThanTimestamp = map_option (\<lambda>d. t - d) (co_olderThanMs opts),
     qf_stateEquals = None, qf_limit = None, qf_offset = None\<rparr>"

definition settle_row :: "tx_summary \<Rightarrow> (int \<Rightarrow> update_patch) \<Rightarrow> (unit, 's, 'u) ract" where
  "settle_row item patch = bind registry_now (\<lambda>t.
     bind (default_call (\<lambda>ops. so_updateTransaction ops (su_transactionId item) (su_version item) (patch t) []))
       (\<lambda>_. ret ()))"

text \<open>The compensated patch without a context: the row keeps the one it has.\<close>

definition registry_compensated_patch :: "int \<Rightarrow> update_patch" where
  "registry_compensated_patch t = (clear_patch t)\<lparr>pt_stateValue := Some (SLeaf ''error''),
     pt_status := Some COMPENSATED,
     pt_lastError := Some (Some ''Compensated via FSMRegistry.forceCleanUp'')\<rparr>"

definition registry_cleanup_item ::
  "nat \<Rightarrow> cleanup_action \<Rightarrow> tx_summary \<Rightarrow> cleanup_report \<Rightarrow> (cleanup_report, 's, 'u) ract" where
  "registry_cleanup_item n action item rep =
     bind (attempt (case action of
         CMarkFail \<Rightarrow> seq (settle_row item (mark_failed_patch ''Marked FAILED via FSMRegistry.forceCleanUp''))
           (ret (rep\<lparr>cl_markedFailed := cl_markedFailed rep @ [su_transactionId item]\<rparr>))
       | CForceUnlock \<Rightarrow> seq (settle_row item unlock_patch)
           (ret (rep\<lparr>cl_unlocked := cl_unlocked rep @ [su_transactionId item]\<rparr>))
       | CCompensate \<Rightarrow> bind (reads (bound_actor (su_machineId item))) (\<lambda>bound. case bound of
             Some actorId \<Rightarrow>
               bind (on_actor actorId (\<lambda>a. forceCleanUpTransaction a (run_prog n a) (su_transactionId item)
                       (Some CCompensate))) (\<lambda>sub.
                 ret (rep\<lparr>cl_compensated := cl_compensated rep @ cl_compensated sub,
                          cl_errors := cl_errors rep @ cl_errors sub\<rparr>))
           | None \<Rightarrow> seq (settle_row item registry_compensated_patch)
               (ret (rep\<lparr>cl_compensated := cl_compensated rep @ [su_transactionId item]\<rparr>)))
       | CDelete \<Rightarrow> ret rep))
     (\<lambda>r. ret (case r of
        Inl e \<Rightarrow> rep\<lparr>cl_errors := cl_errors rep @ [(su_transactionId item, error_message e)]\<rparr>
      | Inr rep' \<Rightarrow> rep'))"

definition registry_forceCleanUp :: "nat \<Rightarrow> cleanup_options \<Rightarrow> (cleanup_report, 's, 'u) ract" where
  "registry_forceCleanUp n opts =
     (let action = or_else (co_action opts) CDelete; dryRun = or_else (co_dryRun opts) False;
          threshold = or_else (co_stuckThresholdMs opts) 30000 in
      seq init_default (bind registry_now (\<lambda>t.
      bind (default_call (\<lambda>ops. so_queryTransactions ops (registry_cleanup_filter opts t threshold) t threshold))
       (\<lambda>candidates.
       let rep = \<lparr>cl_scanned = length candidates, cl_matched = length candidates, cl_deleted = [],
             cl_markedFailed = [], cl_compensated = [], cl_unlocked = [], cl_dryRun = dryRun,
             cl_errors = []\<rparr>;
           ids = map su_transactionId candidates
       in if dryRun \<or> candidates = [] then ret rep
          else if action = CDelete then
            seq (default_call (\<lambda>ops. so_deleteTransactions ops ids)) (ret (rep\<lparr>cl_deleted := ids\<rparr>))
          else fold_each (registry_cleanup_item n action) candidates rep))))"

definition shutdown :: "(unit, 's, 'u) ract" where
  "shutdown =
     bind (reads (\<lambda>rg. keys (rg_activeActors rg))) (\<lambda>ids.
     seq (for_each ids close_actor)
    (seq (modify (\<lambda>rg. rg\<lparr>rg_activeActors := []\<rparr>))
       (default_call (\<lambda>ops s. (Inr (), so_close ops s)))))"

end
