(* ===== verification/RegistryProps.thy ===== *)
theory RegistryProps
  imports Registry ActorProps
begin

text \<open>
  What the registry promises: what it registers it resolves, its early validation of a machine's
  handlers says what building an actor will say, its offline configuration is the one a new actor
  works with, and what its clean-up does to the rows of the shared store.
\<close>

section \<open>Registration and resolution\<close>

lemma qualify_truthy: "qualifyHandlerName name (truthy ns) = qualifyHandlerName name ns"
  by (simp add: qualifyHandlerName_def)

lemma resolve_registered:
  assumes "map_of table (qualifyHandlerName name ns) = Some e"
  shows "resolve_in table name ns = Some (qualifyHandlerName name ns, e)"
proof (cases "truthy ns")
  case None
  then show ?thesis using assms by (simp add: resolve_in_def qualifyHandlerName_def)
next
  case (Some x)
  then have "qualifyHandlerName name (Some x) = qualifyHandlerName name ns"
    using qualify_truthy [of name ns] by simp
  then show ?thesis using assms unfolding resolve_in_def Some by simp
qed

section \<open>Validation and construction\<close>

text \<open>
  The policy of an edge names the compensation handler of the edge itself, or none: so the parser and
  the builder make it (\<open>parsed_plain\<close>, \<open>built_plain\<close>).
\<close>

definition edge_plain :: "transition_edge \<Rightarrow> bool" where
  "edge_plain edge \<longleftrightarrow> pp_compensateHandler (te_policy edge) = None \<or>
     pp_compensateHandler (te_policy edge) = te_compensate edge"

fun node_plain :: "state_node \<Rightarrow> bool" where
  "node_plain (StateNode k path ty desc init en ex on od sts imp) \<longleftrightarrow>
     list_all (\<lambda>(ev, edge). edge_plain edge) on \<and>
     (case od of None \<Rightarrow> True | Some edge \<Rightarrow> edge_plain edge) \<and>
     list_all (\<lambda>(ck, child). node_plain child) sts"

definition machine_plain :: "machine \<Rightarrow> bool" where
  "machine_plain m \<longleftrightarrow> list_all (\<lambda>(k, n). node_plain n) (md_states m)"

definition no_default_handler :: "machine \<Rightarrow> ('s, 'u) registry \<Rightarrow> bool" where
  "no_default_handler m rg \<longleftrightarrow> pp_compensateHandler (rg_globalDefaults rg) = None \<and>
     pp_compensateHandler (md_defaults m) = None"

lemma plain_error: "list_all (\<lambda>(k, n). node_plain n) sts \<Longrightarrow> list_all (\<lambda>(k, n). node_plain n) (with_error_state sts)"
  by (simp add: with_error_state_def implicit_error_node_def)

lemma parsed_edge_plain: "edge_plain (parseTransitionEdge ev v)"
  by (cases v) (simp_all add: parseTransitionEdge_def edge_plain_def extractPolicy_def empty_policy_def Let_def)

lemma parsed_node_plain: "node_plain (parseStateNode key parent raw)"
proof (induction key parent raw rule: parseStateNode.induct)
  case (1 key parent raw)
  have "node_plain child" if "(ck, child) \<in> set (assign_all (map (\<lambda>(childKey, childRaw).
      (childKey, parseStateNode childKey path (object_fields (Some childRaw)))) (object_fields (map_of raw ''states''))))"
    and "path = (if parent \<noteq> [] then parent @ dot @ key else key)" for ck child path
    using subsetD [OF assign_all_subset that(1)] 1 that(2) by fastforce
  moreover have "edge_plain e" if "(ev, e) \<in> set (assign_all (map (\<lambda>(event, e). (event, parseTransitionEdge event e)) xs))"
    for ev e xs
    using subsetD [OF assign_all_subset that] parsed_edge_plain by fastforce
  ultimately show ?case
    unfolding parseStateNode.simps [of key parent raw] Let_def
    by (auto simp: list_all_iff parsed_edge_plain split: option.splits)
qed

lemma parsed_plain: "parseYamlMachine lib content = Inr m \<Longrightarrow> machine_plain m"
proof -
  assume "parseYamlMachine lib content = Inr m"
  then obtain doc where "m = to_machine (raw_of_document doc)" using parse_machine finalize_states by blast
  moreover have "node_plain n" if "(k, n) \<in> set (rm_states (raw_of_document doc))" for k n
  proof -
    from that assign_all_subset have "(k, n) \<in> set (map (\<lambda>(stateKey, rawState).
        (stateKey, parseStateNode stateKey [] (object_fields (Some rawState)))) (object_fields (map_of doc ''states'')))"
      unfolding raw_of_document_def raw_machine.simps by blast
    then show ?thesis using parsed_node_plain by auto
  qed
  ultimately show ?thesis
    using plain_error [of "rm_states (raw_of_document doc)"] by (auto simp: machine_plain_def to_machine_def list_all_iff)
qed

lemma built_edge_plain: "edge_plain (toEdge ev t)"
  by (cases t) (auto simp: toEdge_def edge_plain_def empty_policy_def Let_def truthy_def split: option.splits)

lemma new_plain: "node_plain (buildNode (newStateBuilder k p ty init))"
  by (simp add: buildNode_def newStateBuilder_def)

lemma update_plain:
  "list_all (\<lambda>(k, x). P x) xs \<Longrightarrow> P v \<Longrightarrow> list_all (\<lambda>(k, x). P x) (AList.update key v xs)"
  using set_update_subset [of key v xs] by (fastforce simp: list_all_iff)

lemma child_plain:
  "node_plain (buildNode b) \<Longrightarrow> node_plain n \<Longrightarrow> node_plain (buildNode (add_child k n b))"
  by (simp add: buildNode_def add_child_def update_plain)

lemma run_calls_plain:
  "node_plain (buildNode b) \<Longrightarrow> node_plain (buildNode (run_node_call c b))"
  "node_plain (buildNode b) \<Longrightarrow> node_plain (buildNode (run_node_calls cs b))"
proof (induction c b and cs b rule: run_node_call_run_node_calls.induct)
  case (4 ev t b)
  then show ?case using update_plain [of edge_plain "sb_transitions b" "toEdge ev t" ev]
    by (simp add: sb_defs buildNode_def built_edge_plain)
next
  case (5 t b)
  then show ?case by (simp add: sb_defs buildNode_def built_edge_plain)
qed (simp_all add: sb_defs child_plain new_plain, simp_all add: buildNode_def)

lemma built_plain:
  assumes "build (fluent machineId calls) = Inr m"
  shows "machine_plain m"
proof -
  let ?P = "\<lambda>b. list_all (\<lambda>(k, n). node_plain n) (mb_rootStates b)"
  have call: "?P (run_machine_call c b)" if "?P b" for c b
    using that by (cases c) (simp_all add: mb_defs add_root_def update_plain run_calls_plain new_plain)
  have "?P b \<Longrightarrow> ?P (fold run_machine_call calls b)" for b
    by (induction calls arbitrary: b) (simp_all add: call)
  then have "?P (fluent machineId calls)" by (simp add: fluent_def createMachine_def)
  from plain_error [OF this] finalize_states [OF assms [unfolded build_def]] show ?thesis
    by (simp add: machine_plain_def to_machine_def raw_of_builder_def)
qed

text \<open>Construction misses the names validation misses on a strict machine, and none on any other.\<close>

lemma verify_missing:
  "cp_missing (verifyEffectList m (provider rg) effs c) = cp_missing c @
     (if rb_strict (md_registry m) then missing_effects rg (rb_namespace (md_registry m)) effs else [])"
proof (induction effs arbitrary: c)
  case (Cons eff effs)
  then show ?case
    by (cases "resolveEffect rg eff (rb_namespace (md_registry m))")
      (auto simp: verifyEffectList_def missing_effects_def Let_def provider_def)
qed (simp add: verifyEffectList_def missing_effects_def)

lemma hooks_missing:
  "cp_missing (fst (compile_hooks m (provider rg) c)) =
     cp_missing c @ (if rb_strict (md_registry m) then missing_hooks rg m else [])"
proof -
  have "concat (map (\<lambda>ref. if resolveHook rg ref ns = None \<and> rb_strict (md_registry m)
      then [qualifyHandlerName ref ns] else []) refs) =
    (if rb_strict (md_registry m)
     then map (\<lambda>ref. qualifyHandlerName ref ns) (filter (\<lambda>ref. resolveHook rg ref ns = None) refs) else [])"
    for ns refs by (induction refs) auto
  then show ?thesis by (simp add: compile_hooks_def missing_hooks_def Let_def provider_def)
qed

lemma plain_compensate:
  "pp_compensateHandler g = None \<Longrightarrow> pp_compensateHandler d = None \<Longrightarrow>
   np_compensateHandler (normalizeTransitionPolicy \<lparr>mi_defaultBreakerKey = key, mi_globalDefaults = Some g,
     mi_machineDefaults = Some d, mi_transitionPolicy = Some e, mi_decoratorPolicy = x\<rparr>) =
   or_elseo (Option.bind x pp_compensateHandler) (pp_compensateHandler e)"
  unfolding normalizeTransitionPolicy_def fold_precedence
  by (cases x) (simp_all add: precedence_policy_def picko_def or_elseo_def split: option.splits)

lemma edge_missing:
  assumes "no_default_handler m rg" "edge_plain edge"
  shows "cp_missing (compileEdge m (provider rg) ivs path (event, edge) c) = cp_missing c @
    (if rb_strict (md_registry m) then missing_edge rg (rb_namespace (md_registry m)) edge else [])"
proof -
  let ?ns = "rb_namespace (md_registry m)"
  let ?tx = "Option.bind (truthy (te_transition edge)) (\<lambda>t. resolveTransition rg t ?ns)"
  have b: "or_elseo (or_elseo (Option.bind (map_option (\<lambda>(_, e). re_policy e) x) pp_compensateHandler)
      (pp_compensateHandler (te_policy edge))) (te_compensate edge) =
    or_elseo (Option.bind x (\<lambda>(_, e). pp_compensateHandler (re_policy e))) (te_compensate edge)"
    for x :: "(string \<times> 'u registered_transition) option"
    using assms(2) by (cases x) (auto simp: edge_plain_def or_elseo_def split: option.splits)
  have h: "hp_resolveTransition (provider rg) = resolveTransition rg"
    "hp_resolveCompensate (provider rg) = resolveCompensate rg"
    "hp_globalPolicyDefaults (provider rg) = rg_globalDefaults rg"
    by (simp_all add: provider_def getGlobalPolicyDefaults_def)
  have p: "pp_compensateHandler (rg_globalDefaults rg) = None" "pp_compensateHandler (md_defaults m) = None"
    using assms(1) by (simp_all add: no_default_handler_def)
  show ?thesis
    unfolding compileEdge_def missing_edge_def Let_def h prod.case plain_compensate [OF p] b
    by (cases "truthy (te_transition edge)";
        cases "truthy (or_elseo (Option.bind ?tx (\<lambda>(_, e). pp_compensateHandler (re_policy e))) (te_compensate edge))")
      (simp_all del: truthy_Some add: verify_missing case_prod_beta)
qed

lemma edges_missing:
  assumes "no_default_handler m rg" "list_all (\<lambda>(ev, edge). edge_plain edge) on"
  shows "cp_missing (fold (compileEdge m (provider rg) ivs path) on c) = cp_missing c @
    (if rb_strict (md_registry m)
     then concat (map (\<lambda>(ev, edge). missing_edge rg (rb_namespace (md_registry m)) edge) on) else [])"
  using assms(2) by (induction on arbitrary: c) (auto simp: edge_missing [OF assms(1)])

lemma node_missing:
  assumes "no_default_handler m rg" "node_plain n"
  shows "cp_missing (walkState m (provider rg) ivs n c) = cp_missing c @
    (if rb_strict (md_registry m) then missing_node rg (rb_namespace (md_registry m)) n else [])"
  using assms(2)
proof (induction n arbitrary: c rule: node_plain.induct)
  case (1 k path ty desc init en ex on od sts imp)
  have kids: "cp_missing (fold (\<lambda>(ck, child). walkState m (provider rg) ivs child) sts' c') = cp_missing c' @
      (if rb_strict (md_registry m)
       then concat (map (\<lambda>(ck, child). missing_node rg (rb_namespace (md_registry m)) child) sts') else [])"
    if "set sts' \<subseteq> set sts" "list_all (\<lambda>(ck, child). node_plain child) sts'" for sts' c'
    using that by (induction sts' arbitrary: c') (auto simp: 1(1))
  show ?case
    using 1(2) edge_missing [OF assms(1)] edges_missing [OF assms(1)] kids [of sts]
    by (simp add: verify_missing Let_def split: option.splits)
qed

lemma validate_compile:
  assumes "no_default_handler m rg" "machine_plain m"
  shows "map_sum id (\<lambda>_. ()) (compileMachineBindings m (provider rg) ivs) =
    (if rb_strict (md_registry m) then validateMachineHandlers m rg else Inr ())"
proof -
  have roots: "cp_missing (fold (\<lambda>(k, n). walkState m (provider rg) ivs n) sts c) = cp_missing c @
      (if rb_strict (md_registry m)
       then concat (map (\<lambda>(k, root). missing_node rg (rb_namespace (md_registry m)) root) sts) else [])"
    if "list_all (\<lambda>(k, n). node_plain n) sts" for sts c
    using that by (induction sts arbitrary: c) (auto simp: node_missing [OF assms(1)])
  show ?thesis
    using assms(2) roots [of "md_states m"] hooks_missing [of m rg]
    by (auto simp: validateMachineHandlers_def compileMachineBindings_def Let_def machine_plain_def
        verify_missing case_prod_beta)
qed

section \<open>The offline configuration\<close>

text \<open>The edges of a state and its descendants in the order they are compiled.\<close>

fun node_edges :: "state_node \<Rightarrow> (string \<times> string \<times> transition_edge) list" where
  "node_edges (StateNode k path ty desc init en ex on od sts imp) =
     map (Pair path) (on @ (case od of None \<Rightarrow> [] | Some e \<Rightarrow> [(''$onDone'', e)])) @
     concat (map (\<lambda>(ck, child). node_edges child) sts)"

definition machine_edges :: "machine \<Rightarrow> (string \<times> string \<times> transition_edge) list" where
  "machine_edges m = concat (map (\<lambda>(k, n). node_edges n) (md_states m))"

definition binding_keys :: "machine \<Rightarrow> string list" where
  "binding_keys m = map (\<lambda>(p, ev, e). bindingKey p ev) (machine_edges m)"

definition edge_binding ::
  "machine \<Rightarrow> 'u handlers \<Rightarrow> jval option schema_validator dict \<Rightarrow> string \<times> string \<times> transition_edge \<Rightarrow> 'u binding" where
  "edge_binding m h ivs pe = (case pe of (p, ev) \<Rightarrow>
     snd (hd (cp_bindings (compileEdge m h ivs p ev
       \<lparr>cp_missing = [], cp_effects = [], cp_breakers = [], cp_bindings = []\<rparr>))))"

text \<open>What compiling leaves of a binding's policy and breakers.\<close>

definition breakers_closed :: "breakers \<Rightarrow> bool" where
  "breakers_closed bs \<longleftrightarrow> (\<forall>k b. map_of bs k = Some b \<longrightarrow> cb_status b = CLOSED)"

lemma map_filter_append: "List.map_filter f (xs @ ys) = List.map_filter f xs @ List.map_filter f ys"
  by (simp add: List.map_filter_def)

lemma verify_rest:
  "cp_bindings (verifyEffectList m h effs c) = cp_bindings c"
  "cp_breakers (verifyEffectList m h effs c) = cp_breakers c"
  by (induction effs arbitrary: c) (auto simp: verifyEffectList_def Let_def split: option.splits)

lemma verify_effects:
  "cp_effects (verifyEffectList m (provider rg) effs c) =
     fold set_add (List.map_filter (\<lambda>eff. map_option fst (resolveEffect rg eff (rb_namespace (md_registry m)))) effs)
       (cp_effects c)"
  by (induction effs arbitrary: c) (auto simp: verifyEffectList_def Let_def provider_def List.map_filter_def split: option.splits)

lemma hooks_rest:
  "cp_bindings (fst (compile_hooks m h c)) = cp_bindings c"
  "cp_breakers (fst (compile_hooks m h c)) = cp_breakers c"
  "cp_effects (fst (compile_hooks m h c)) = cp_effects c"
  by (simp_all add: compile_hooks_def Let_def)

lemma compile_binding:
  "cp_bindings (compileEdge m h ivs p ev c) =
     AList.update (bindingKey p (fst ev)) (edge_binding m h ivs (p, ev)) (cp_bindings c)"
  by (cases ev) (simp add: edge_binding_def compileEdge_def Let_def verify_rest case_prod_beta)

lemma getOrCreate_closed: "breakers_closed bs \<Longrightarrow> breakers_closed (snd (getOrCreate p bs))"
  by (auto simp: breakers_closed_def getOrCreate_def Let_def new_breaker_def updatePolicy_def update_conv
      split: option.splits if_splits)

lemma compile_closed: "breakers_closed (cp_breakers c) \<Longrightarrow> breakers_closed (cp_breakers (compileEdge m h ivs p ev c))"
  using getOrCreate_closed by (cases ev) (simp add: compileEdge_def Let_def verify_rest case_prod_beta)

lemma compile_effects:
  "cp_effects (compileEdge m (provider rg) ivs p ev c) =
     cp_effects (verifyEffectList m (provider rg) (te_effects (snd ev)) c)"
  by (cases ev) (simp add: compileEdge_def Let_def case_prod_beta verify_effects)

lemma walk_bindings:
  "cp_bindings (walkState m h ivs n c) =
     fold (\<lambda>(p, ev). AList.update (bindingKey p (fst ev)) (edge_binding m h ivs (p, ev))) (node_edges n) (cp_bindings c)"
proof (induction n arbitrary: c rule: node_edges.induct)
  case (1 k path ty desc init en ex on od sts imp)
  let ?u = "\<lambda>(p, ev). AList.update (bindingKey p (fst ev)) (edge_binding m h ivs (p, ev))"
  have es: "cp_bindings (fold (compileEdge m h ivs path) evs c') = fold ?u (map (Pair path) evs) (cp_bindings c')" for evs c'
    by (induction evs arbitrary: c') (simp_all add: compile_binding)
  have kids: "cp_bindings (fold (\<lambda>(ck, child). walkState m h ivs child) sts' c') =
      fold ?u (concat (map (\<lambda>(ck, child). node_edges child) sts')) (cp_bindings c')"
    if "set sts' \<subseteq> set sts" for sts' c'
    using that by (induction sts' arbitrary: c') (auto simp: 1)
  show ?case
    using kids [of sts] es
    by (simp add: Let_def verify_rest compile_binding split: option.splits)
qed

lemma walk_closed: "breakers_closed (cp_breakers c) \<Longrightarrow> breakers_closed (cp_breakers (walkState m h ivs n c))"
proof (induction n arbitrary: c rule: node_edges.induct)
  case (1 k path ty desc init en ex on od sts imp)
  have es: "breakers_closed (cp_breakers c') \<Longrightarrow> breakers_closed (cp_breakers (fold (compileEdge m h ivs path) evs c'))" for evs c'
    by (induction evs arbitrary: c') (simp_all add: compile_closed)
  have kids: "breakers_closed (cp_breakers c') \<Longrightarrow>
      breakers_closed (cp_breakers (fold (\<lambda>(ck, child). walkState m h ivs child) sts' c'))"
    if "set sts' \<subseteq> set sts" for sts' c'
    using that by (induction sts' arbitrary: c') (auto simp: 1(1))
  show ?case unfolding walkState.simps Let_def
    by (rule kids) (auto intro!: compile_closed es simp: 1(2) verify_rest split: option.splits)
qed

lemma walk_effects:
  "cp_effects (walkState m (provider rg) ivs n c) = cp_effects (verifyEffectList m (provider rg) (node_effects n) c)"
proof (induction n arbitrary: c rule: node_edges.induct)
  case (1 k path ty desc init en ex on od sts imp)
  have es: "cp_effects (fold (compileEdge m (provider rg) ivs path) evs c') =
      cp_effects (verifyEffectList m (provider rg) (concat (map (\<lambda>(ev, edge). te_effects edge) evs)) c')" for evs c'
    by (induction evs arbitrary: c') (auto simp: compile_effects verify_effects map_filter_append)
  have kids: "cp_effects (fold (\<lambda>(ck, child). walkState m (provider rg) ivs child) sts' c') =
      cp_effects (verifyEffectList m (provider rg) (concat (map (\<lambda>(ck, child). node_effects child) sts')) c')"
    if "set sts' \<subseteq> set sts" for sts' c'
    using that by (induction sts' arbitrary: c') (auto simp: 1 verify_effects map_filter_append)
  show ?case
    using kids [of sts] es by (simp add: Let_def verify_effects compile_effects map_filter_append split: option.splits)
qed

lemma compiled_machine:
  assumes "compileMachineBindings m (provider rg) ivs = Inr (c, hooks)"
  shows "cp_bindings c = fold (\<lambda>(p, ev). AList.update (bindingKey p (fst ev))
      (edge_binding m (provider rg) ivs (p, ev))) (machine_edges m) []"
    "breakers_closed (cp_breakers c)"
    "cp_effects c = ec_registeredEffects (offline_config rg m)"
proof -
  let ?u = "\<lambda>(p, ev). AList.update (bindingKey p (fst ev)) (edge_binding m (provider rg) ivs (p, ev))"
  let ?c0 = "\<lparr>cp_missing = [], cp_effects = [], cp_breakers = [], cp_bindings = []\<rparr>"
  let ?c1 = "fst (compile_hooks m (provider rg) (verifyEffectList m (provider rg) (md_effects m) ?c0))"
  let ?walk = "fold (\<lambda>(k, n). walkState m (provider rg) ivs n)"
  have c: "c = ?walk (md_states m) ?c1"
    using assms by (auto simp: compileMachineBindings_def Let_def case_prod_beta split: if_splits)
  have b: "cp_bindings (?walk sts c') = fold ?u (concat (map (\<lambda>(k, n). node_edges n) sts)) (cp_bindings c')" for sts c'
    by (induction sts arbitrary: c') (auto simp: walk_bindings)
  show "cp_bindings c = fold ?u (machine_edges m) []"
    by (simp add: c b machine_edges_def hooks_rest verify_rest)
  have w: "breakers_closed (cp_breakers c') \<Longrightarrow> breakers_closed (cp_breakers (?walk sts c'))" for sts c'
    by (induction sts arbitrary: c') (auto simp: walk_closed)
  show "breakers_closed (cp_breakers c)"
    unfolding c by (rule w) (simp add: hooks_rest verify_rest breakers_closed_def)
  have e: "cp_effects (?walk sts c') = cp_effects (verifyEffectList m (provider rg)
      (concat (map (\<lambda>(k, n). node_effects n) sts)) c')" for sts c'
    by (induction sts arbitrary: c') (auto simp: walk_effects verify_effects map_filter_append List.map_filter_simps)
  show "cp_effects c = ec_registeredEffects (offline_config rg m)"
    unfolding c e by (simp add: hooks_rest verify_effects offline_config_def dedup_def map_filter_append)
qed

definition binding_entry :: "'u binding \<Rightarrow> effective_transition" where
  "binding_entry b = \<lparr>ef_statePath = bd_statePath b, ef_event = bd_event b, ef_target = te_target (bd_edge b),
     ef_resolvedTransitionHandler = bd_resolvedTransitionName b,
     ef_resolvedCompensateHandler = bd_resolvedCompensateName b,
     ef_policy = bd_policy b, ef_circuitBreakerState = CLOSED\<rparr>"

lemma binding_is_entry: "binding_entry (edge_binding m (provider rg) ivs (p, ev)) = effective_entry rg m p ev"
proof -
  have h: "map_option fst (Option.bind x f) = Option.bind x (\<lambda>n. map_option fst (f n))" for x :: "'x option" and f :: "'x \<Rightarrow> (string \<times> 'y) option"
    by (cases x) auto
  show ?thesis
    by (cases ev) (simp add: binding_entry_def edge_binding_def compileEdge_def effective_entry_def Let_def
        verify_rest case_prod_beta provider_def getGlobalPolicyDefaults_def manager_getStatus_def h)
qed

lemma binding_event [simp]: "bd_event (edge_binding m h ivs (p, ev)) = fst ev"
  by (cases ev) (simp add: edge_binding_def compileEdge_def Let_def verify_rest case_prod_beta)

lemma status_closed:
  assumes "breakers_closed bs"
  shows "\<exists>bs'. manager_getStatus t key bs = (CLOSED, bs') \<and> breakers_closed bs'"
  using assms by (auto simp: manager_getStatus_def breakers_closed_def breaker_getStatus_def
      evaluateTimerTransition_def Let_def update_conv split: option.splits)

lemma effective_closed:
  fixes a :: "('s, 'u) actor"
  assumes "breakers_closed (w_breakers w)"
  shows "\<exists>ts w'. effectiveTransitions a w = Some (Inr ts, w') \<and>
    filter (\<lambda>t. ef_event t \<noteq> ''$onDone'') ts =
      map binding_entry (filter (\<lambda>b. bd_event b \<noteq> ''$onDone'') (map snd (ac_bindings a)))"
proof -
  define step :: "string \<times> 'u binding \<Rightarrow> effective_transition list \<Rightarrow> (effective_transition list, 's, 'u) act"
    where "step = (\<lambda>(_, b) acc.
        if bd_event b = ''$onDone'' \<and> truthy (te_transition (bd_edge b)) = None \<and>
           truthy (te_target (bd_edge b)) = None
        then ret acc
        else bind (now a) (\<lambda>t. (\<lambda>w.
          case manager_getStatus t (nc_key (np_circuitBreaker (bd_policy b))) (w_breakers w) of
            (st, bs) \<Rightarrow> Some (Inr (acc @ [\<lparr>ef_statePath = bd_statePath b, ef_event = bd_event b,
               ef_target = te_target (bd_edge b),
               ef_resolvedTransitionHandler = bd_resolvedTransitionName b,
               ef_resolvedCompensateHandler = bd_resolvedCompensateName b,
               ef_policy = bd_policy b, ef_circuitBreakerState = st\<rparr>]),
             w\<lparr>w_breakers := bs\<rparr>))))"
  have one: "\<exists>ts w'. step (k, b) acc w = Some (Inr ts, w') \<and> breakers_closed (w_breakers w') \<and>
      filter (\<lambda>t. ef_event t \<noteq> ''$onDone'') ts = filter (\<lambda>t. ef_event t \<noteq> ''$onDone'') acc @
        map binding_entry (filter (\<lambda>b. bd_event b \<noteq> ''$onDone'') [b])"
    if closed: "breakers_closed (w_breakers w)" for k b acc w
  proof (cases "bd_event b = ''$onDone'' \<and> truthy (te_transition (bd_edge b)) = None \<and> truthy (te_target (bd_edge b)) = None")
    case True
    then show ?thesis using closed by (simp add: step_def ret_def)
  next
    case False
    obtain bs' where bs': "manager_getStatus (wo_now (ac_world a) (w_user w))
        (nc_key (np_circuitBreaker (bd_policy b))) (w_breakers w) = (CLOSED, bs')" "breakers_closed bs'"
      using status_closed [OF closed] by blast
    show ?thesis unfolding step_def prod.case if_not_P [OF False]
      by (simp add: now_def eff_defs bs' binding_entry_def)
  qed
  have "\<exists>ts w'. fold_each step bs acc w = Some (Inr ts, w') \<and>
      filter (\<lambda>t. ef_event t \<noteq> ''$onDone'') ts = filter (\<lambda>t. ef_event t \<noteq> ''$onDone'') acc @
        map binding_entry (filter (\<lambda>b. bd_event b \<noteq> ''$onDone'') (map snd bs))"
    if "breakers_closed (w_breakers w)" for bs acc w
    using that
  proof (induction bs arbitrary: acc w)
    case (Cons kb bs)
    obtain k b where kb: "kb = (k, b)" by (cases kb)
    from one [OF Cons.prems, of k b acc] obtain ts1 w1 where 1: "step (k, b) acc w = Some (Inr ts1, w1)"
      "breakers_closed (w_breakers w1)"
      "filter (\<lambda>t. ef_event t \<noteq> ''$onDone'') ts1 = filter (\<lambda>t. ef_event t \<noteq> ''$onDone'') acc @
        map binding_entry (filter (\<lambda>b. bd_event b \<noteq> ''$onDone'') [b])" by blast
    from Cons.IH [OF 1(2), of ts1] 1(3) show ?case
      unfolding kb fold_each.simps bind_def 1(1) by auto
  qed (simp add: ret_def)
  from this [OF assms, of "ac_bindings a" "[]"] show ?thesis by (simp add: effectiveTransitions_def step_def)
qed

lemma entry_event [simp]: "ef_event (effective_entry rg m p ev) = fst ev"
  by (cases ev) (simp add: effective_entry_def Let_def)

lemma binding_is_entry': "binding_entry (edge_binding m (provider rg) ivs pe) = effective_entry rg m (fst pe) (snd pe)"
  by (cases pe) (simp add: binding_is_entry)

lemma binding_event': "bd_event (edge_binding m h ivs pe) = fst (snd pe)"
  by (cases pe) simp

lemma node_entries:
  "map (\<lambda>(p, ev). effective_entry rg m p ev) (filter (\<lambda>(p, ev). fst ev \<noteq> ''$onDone'') (node_edges n)) =
     filter (\<lambda>t. ef_event t \<noteq> ''$onDone'') (effective_node rg m n)"
proof (induction n rule: node_edges.induct)
  case (1 k path ty desc init en ex on od sts imp)
  have es: "map (\<lambda>(p, ev). effective_entry rg m p ev) (filter (\<lambda>(p, ev). fst ev \<noteq> ''$onDone'') (map (Pair path) evs)) =
      filter (\<lambda>t. ef_event t \<noteq> ''$onDone'') (map (effective_entry rg m path) evs)" for evs
    by (induction evs) auto
  have kids: "map (\<lambda>(p, ev). effective_entry rg m p ev) (filter (\<lambda>(p, ev). fst ev \<noteq> ''$onDone'')
        (concat (map (\<lambda>(ck, child). node_edges child) sts'))) =
      filter (\<lambda>t. ef_event t \<noteq> ''$onDone'') (concat (map (\<lambda>(ck, child). effective_node rg m child) sts'))"
    if "set sts' \<subseteq> set sts" for sts'
    using that by (induction sts') (auto simp: 1)
  show ?case using es [of on] kids [of sts] by (simp split: option.splits)
qed

lemma machine_entries:
  "map (\<lambda>(p, ev). effective_entry rg m p ev) (filter (\<lambda>(p, ev). fst ev \<noteq> ''$onDone'') (machine_edges m)) =
     filter (\<lambda>t. ef_event t \<noteq> ''$onDone'') (ec_transitions (offline_config rg m))"
proof -
  have "map (\<lambda>(p, ev). effective_entry rg m p ev) (filter (\<lambda>(p, ev). fst ev \<noteq> ''$onDone'')
        (concat (map (\<lambda>(k, n). node_edges n) sts))) =
      filter (\<lambda>t. ef_event t \<noteq> ''$onDone'') (concat (map (\<lambda>(k, n). effective_node rg m n) sts))" for sts
    by (induction sts) (auto simp: node_entries)
  then show ?thesis by (simp add: machine_edges_def offline_config_def)
qed

lemma distinct_bindings:
  assumes "compileMachineBindings m (provider rg) ivs = Inr (c, hooks)" "distinct (binding_keys m)"
  shows "map snd (cp_bindings c) = map (edge_binding m (provider rg) ivs) (machine_edges m)"
proof -
  let ?B = "edge_binding m (provider rg) ivs"
  let ?es = "map (\<lambda>(p, ev). (bindingKey p (fst ev), (p, ev))) (machine_edges m)"
  have "distinct (map fst ?es)"
    using assms(2) by (simp add: binding_keys_def comp_def case_prod_beta')
  from fold_update_fresh [of "[]" ?es "\<lambda>k v. ?B v"] this
  have "fold (\<lambda>(k, v). AList.update k (?B v)) ?es [] = map (\<lambda>(k, v). (k, ?B v)) ?es" by simp
  then show ?thesis using compiled_machine(1) [OF assms(1)]
    by (simp add: fold_map comp_def case_prod_beta')
qed

lemma find_updated:
  "P v \<Longrightarrow> (\<And>k' v'. (k', v') \<in> set xs \<Longrightarrow> \<not> P v') \<Longrightarrow> List.find (\<lambda>(_, sl). P sl) (AList.update k v xs) = Some (k, v)"
  by (induction xs) auto

lemma bound_none: "bound_actor i rg = None \<Longrightarrow> (k, sl) \<in> set (rg_activeActors rg) \<Longrightarrow> slot_machine sl \<noteq> i"
  by (auto simp: bound_actor_def find_None_iff)

lemma newActor_compiled:
  assumes "newActor m h defaults config uuid s u = (Inr (a, w), u')"
  shows "\<exists>c hooks. compileMachineBindings m h (input_validators config) = Inr (c, hooks) \<and>
    ac_bindings a = cp_bindings c \<and> ac_machine a = m \<and> w_breakers w = cp_breakers c \<and>
    ac_maxEffectChainDepth a = max 1 (or_else (af_maxEffectChainDepth config) (or_else (md_maxEffectChainDepth m) 25))"
  using assms by (auto simp: newActor_def or_else_def or_elseo_def Let_def split: prod.splits sum.splits option.splits)

lemma construct_compiled:
  assumes "construct_actor m config rg = Some (Inr actorId, rg')"
  shows "\<exists>a w c hooks ivs u addr. compileMachineBindings m (provider rg) ivs = Inr (c, hooks) \<and>
    ac_bindings a = cp_bindings c \<and> ac_machine a = m \<and> w_breakers w = cp_breakers c \<and>
    ac_maxEffectChainDepth a = max 1 (or_else (af_maxEffectChainDepth config) (or_else (md_maxEffectChainDepth m) 25)) \<and>
    rg' = rg\<lparr>rg_user := u, rg_activeActors := AList.update actorId
       \<lparr>sl_actor = a, sl_world = w, sl_store = addr, sl_hookNames = resolved_hook_names rg m,
        sl_effectNames = cp_effects c\<rparr> (rg_activeActors rg)\<rparr>"
proof -
  let ?addr = "or_else (ax_store config) (rg_defaultStore rg)"
  let ?config = "(actor_config.truncate config)\<lparr>af_store := Some (fst (rg_stores rg ?addr))\<rparr>"
  let ?defaults = "\<lparr>ad_store = fst (rg_stores rg (rg_defaultStore rg)), ad_clock = rg_clock rg,
            ad_hooks = rg_globalHooks rg\<rparr>"
  obtain r u where n: "newActor m (provider rg) ?defaults ?config (rg_uuid rg) (snd (rg_stores rg ?addr)) (rg_user rg) = (r, u)"
    by fastforce
  obtain a w where r: "r = Inr (a, w)"
    using assms n by (cases r) (auto simp: construct_actor_def Let_def case_prod_beta)
  from newActor_compiled [OF n [unfolded r]] obtain c hooks where
    c: "compileMachineBindings m (provider rg) (input_validators ?config) = Inr (c, hooks)"
    "ac_bindings a = cp_bindings c" "ac_machine a = m" "w_breakers w = cp_breakers c"
    "ac_maxEffectChainDepth a = max 1 (or_else (af_maxEffectChainDepth ?config) (or_else (md_maxEffectChainDepth m) 25))"
    by blast
  moreover have "af_maxEffectChainDepth ?config = af_maxEffectChainDepth config"
    by (simp add: actor_config.truncate_def)
  ultimately show ?thesis
    using assms n r by (fastforce simp: construct_actor_def Let_def case_prod_beta)
qed

lemma live_is_offline:
  assumes "construct_actor m config rg = Some (Inr actorId, rg')" "bound_actor (md_id m) rg = None"
    and "distinct (binding_keys m)"
  shows "\<exists>ts rg''. registry_getEffectiveConfig (md_id m) rg' =
      Some (Inr ((offline_config rg m)\<lparr>ec_maxEffectChainDepth :=
        max 1 (or_else (af_maxEffectChainDepth config) (ec_maxEffectChainDepth (offline_config rg m))),
        ec_transitions := ts\<rparr>), rg'') \<and>
    filter (\<lambda>t. ef_event t \<noteq> ''$onDone'') ts =
      filter (\<lambda>t. ef_event t \<noteq> ''$onDone'') (ec_transitions (offline_config rg m))"
proof -
  from construct_compiled [OF assms(1)] obtain a w c hooks ivs u addr where
    n: "compileMachineBindings m (provider rg) ivs = Inr (c, hooks)"
    "ac_bindings a = cp_bindings c" "ac_machine a = m" "w_breakers w = cp_breakers c"
    "ac_maxEffectChainDepth a = max 1 (or_else (af_maxEffectChainDepth config) (or_else (md_maxEffectChainDepth m) 25))"
    and rg': "rg' = rg\<lparr>rg_user := u, rg_activeActors := AList.update actorId
       \<lparr>sl_actor = a, sl_world = w, sl_store = addr, sl_hookNames = resolved_hook_names rg m,
        sl_effectNames = cp_effects c\<rparr> (rg_activeActors rg)\<rparr>" by blast
  let ?sl = "\<lparr>sl_actor = a, sl_world = w, sl_store = addr, sl_hookNames = resolved_hook_names rg m,
        sl_effectNames = cp_effects c\<rparr>"
  have "List.find (\<lambda>(_, sl). slot_machine sl = md_id m) (AList.update actorId ?sl (rg_activeActors rg)) = Some (actorId, ?sl)"
    by (rule find_updated) (use bound_none [OF assms(2)] in \<open>auto simp: slot_machine_def n\<close>)
  then have b: "bound_actor (md_id m) rg' = Some actorId" by (simp add: bound_actor_def rg')
  have s: "map_of (rg_activeActors rg') actorId = Some ?sl" by (simp add: rg' update_conv')
  let ?a = "a\<lparr>ac_handlers := provider rg'\<rparr>" and ?w = "enter_slot ?sl rg'"
  have "breakers_closed (w_breakers ?w)"
    using compiled_machine(2) [OF n(1)] n(4) by (simp add: enter_slot_def)
  from effective_closed [OF this, of ?a] obtain ts w' where
    t: "effectiveTransitions ?a ?w = Some (Inr ts, w')"
    "filter (\<lambda>t. ef_event t \<noteq> ''$onDone'') ts =
      map binding_entry (filter (\<lambda>b. bd_event b \<noteq> ''$onDone'') (map snd (cp_bindings c)))"
    by (auto simp: n)
  have f: "filter (\<lambda>t. ef_event t \<noteq> ''$onDone'') ts = filter (\<lambda>t. ef_event t \<noteq> ''$onDone'') (ec_transitions (offline_config rg m))"
    unfolding t(2) distinct_bindings [OF n(1) assms(3)] machine_entries [symmetric]
    by (auto simp: filter_map comp_def case_prod_beta' binding_is_entry' binding_event')
  have "\<exists>rg''. registry_getEffectiveConfig (md_id m) rg' = Some (Inr \<lparr>ec_machineId = md_id m,
      ec_version = md_version m, ec_source = md_source m, ec_hasCustomErrorState = md_hasCustomErrorState m,
      ec_maxEffectChainDepth = ac_maxEffectChainDepth a, ec_resolvedHooks = resolved_hook_names rg m,
      ec_registeredEffects = cp_effects c, ec_transitions = ts\<rparr>, rg'')"
    by (simp add: registry_getEffectiveConfig_def eff_defs b s on_actor_def actor_getEffectiveConfig_def t(1) n(2-4))
  then show ?thesis using f compiled_machine(3) [OF n(1)] n(5)
    by (intro exI [of _ ts]) (auto simp: offline_config_def)
qed

section \<open>Counting what is in flight\<close>

definition bucket :: "in_flight_stats \<Rightarrow> string \<Rightarrow> in_flight_bucket" where
  "bucket st m = or_else (map_of (is_byMachine st) m) empty_bucket"

lemma count_rows:
  defines "n \<equiv> \<lambda>P rows. length (filter P rows)"
  shows "is_totalIdle (fold count_row rows st) = is_totalIdle st + n (\<lambda>x. su_status x = IDLE) rows"
    "is_totalInFlight (fold count_row rows st) = is_totalInFlight st + n (\<lambda>x. su_status x = IN_FLIGHT) rows"
    "is_totalCompensating (fold count_row rows st) = is_totalCompensating st + n (\<lambda>x. su_status x = COMPENSATING) rows"
    "is_totalStuck (fold count_row rows st) = is_totalStuck st + n su_isStuck rows"
  by (induction rows arbitrary: st) (simp_all add: count_row_def n_def)

lemma bucket_row:
  "bucket (count_row r st) m = (if su_machineId r = m then count_in_bucket r (bucket st m) else bucket st m)"
  by (simp add: bucket_def count_row_def update_conv or_else_def)

lemma count_buckets:
  defines "n \<equiv> \<lambda>m P rows. length (filter (\<lambda>x. su_machineId x = m \<and> P x) rows)"
  shows "ib_nonTerminal (bucket (fold count_row rows st) m) = ib_nonTerminal (bucket st m) + n m (\<lambda>x. True) rows"
    "ib_stuck (bucket (fold count_row rows st) m) = ib_stuck (bucket st m) + n m su_isStuck rows"
  by (induction rows arbitrary: st) (simp_all add: bucket_row count_in_bucket_def n_def)

lemma stats_of_rows:
  "is_totalIdle (in_flight_stats_of rows) = length (filter (\<lambda>x. su_status x = IDLE) rows)"
  "is_totalInFlight (in_flight_stats_of rows) = length (filter (\<lambda>x. su_status x = IN_FLIGHT) rows)"
  "is_totalCompensating (in_flight_stats_of rows) = length (filter (\<lambda>x. su_status x = COMPENSATING) rows)"
  "is_totalStuck (in_flight_stats_of rows) = length (filter su_isStuck rows)"
  "is_totalNonTerminal (in_flight_stats_of rows) = length (filter (\<lambda>x. su_status x = IDLE) rows) +
     length (filter (\<lambda>x. su_status x = IN_FLIGHT) rows) + length (filter (\<lambda>x. su_status x = COMPENSATING) rows)"
  by (simp_all add: in_flight_stats_of_def Let_def count_rows)

lemma bucket_of_rows:
  "ib_nonTerminal (bucket (in_flight_stats_of rows) m) = length (filter (\<lambda>x. su_machineId x = m) rows)"
  "ib_stuck (bucket (in_flight_stats_of rows) m) = length (filter (\<lambda>x. su_machineId x = m \<and> su_isStuck x) rows)"
proof -
  let ?st = "\<lparr>is_totalIdle = 0, is_totalInFlight = 0, is_totalCompensating = 0,
            is_totalNonTerminal = 0, is_totalStuck = 0, is_byMachine = []\<rparr>"
  have b: "bucket (in_flight_stats_of rows) m = bucket (fold count_row rows ?st) m"
    by (simp add: in_flight_stats_of_def Let_def bucket_def)
  have e: "bucket ?st m = empty_bucket" by (simp add: bucket_def)
  show "ib_nonTerminal (bucket (in_flight_stats_of rows) m) = length (filter (\<lambda>x. su_machineId x = m) rows)"
    "ib_stuck (bucket (in_flight_stats_of rows) m) = length (filter (\<lambda>x. su_machineId x = m \<and> su_isStuck x) rows)"
    unfolding b count_buckets e by (simp_all add: empty_bucket_def)
qed

text \<open>The specification: the non-terminal transactions a store holds, counted.\<close>

definition live_count :: "(string \<Rightarrow> tx_record option) \<Rightarrow> (tx_record \<Rightarrow> bool) \<Rightarrow> nat" where
  "live_count t P = card {i. \<exists>r. t i = Some r \<and> tx_status r \<in> set NON_TERMINAL_STATUSES \<and> P r}"

text \<open>Counting selected rows counts transactions.\<close>

lemma rows_card:
  assumes "distinct (map su_transactionId xs)"
    and "\<And>x. x \<in> set xs \<Longrightarrow> \<exists>r. txs (su_transactionId x) = Some r \<and> Q r \<and> (P' x \<longleftrightarrow> P r)"
    and "\<And>i r. txs i = Some r \<Longrightarrow> Q r \<Longrightarrow> i \<in> su_transactionId ` set xs"
  shows "length (filter P' xs) = card {i. \<exists>r. txs i = Some r \<and> Q r \<and> P r}"
proof -
  have "{i. \<exists>r. txs i = Some r \<and> Q r \<and> P r} = su_transactionId ` set (filter P' xs)"
    using assms(2,3) by fastforce
  moreover have "inj_on su_transactionId (set (filter P' xs))" "distinct (filter P' xs)"
    using assms(1) by (auto simp: distinct_map inj_on_def)
  ultimately show ?thesis using distinct_card [of "filter P' xs"] by (simp add: card_image)
qed

context state_store
begin

lemma in_flight_summary:
  assumes "rg_stores rg (rg_defaultStore rg) = (ops, s)" "ok s"
  defines "t \<equiv> wo_now (rg_clock rg) (rg_user rg)"
  shows "\<exists>st rg'. getInFlightSummary th rg = Some (Inr st, rg') \<and>
    is_totalIdle st = live_count (txs s) (\<lambda>r. tx_status r = IDLE) \<and>
    is_totalInFlight st = live_count (txs s) (\<lambda>r. tx_status r = IN_FLIGHT) \<and>
    is_totalCompensating st = live_count (txs s) (\<lambda>r. tx_status r = COMPENSATING) \<and>
    is_totalNonTerminal st = live_count (txs s) (\<lambda>_. True) \<and>
    is_totalStuck st = live_count (txs s) (is_stuck t (or_else th 30000)) \<and>
    (\<forall>m. ib_nonTerminal (bucket st m) = live_count (txs s) (\<lambda>r. tx_machineId r = m))"
proof -
  let ?th = "or_else th 30000" and ?f = "no_filter\<lparr>qf_statuses := Some NON_TERMINAL_STATUSES\<rparr>"
  let ?s = "so_initialize ops s"
  have i: "ok ?s" "txs ?s = txs s" "comps ?s = comps s" using initialize [OF assms(2)] by auto
  have f: "qf_offset ?f = None" "qf_limit ?f = None" by (simp_all add: no_filter_def)
  from query [OF i(1) f(1), of t ?th] obtain xs s' where q:
    "so_queryTransactions ops ?f t ?th ?s = (Inr xs, s')" "distinct (map su_transactionId xs)"
    "\<forall>x \<in> set xs. \<exists>r. txs s (su_transactionId x) = Some r \<and> selects ?f r \<and>
       x = summary_of t ?th (comps s (su_transactionId x)) r"
    "\<forall>i r. txs s i = Some r \<and> selects ?f r \<longrightarrow> i \<in> su_transactionId ` set xs"
    using f(2) unfolding i by auto
  have sel: "selects ?f r \<longleftrightarrow> tx_status r \<in> set NON_TERMINAL_STATUSES" for r
    by (simp add: selects_def no_filter_def truthy_None NON_TERMINAL_STATUSES_def truthy_def)
  have c: "length (filter P' xs) = live_count (txs s) P"
    if "\<And>r es. P' (summary_of t ?th es r) \<longleftrightarrow> P r" for P' P
    unfolding live_count_def
    by (rule rows_card [OF q(2)]) (use q(3,4) that in \<open>fastforce simp: sel\<close>)+
  have all: "length xs = length (filter (\<lambda>x. su_status x = IDLE) xs) + length (filter (\<lambda>x. su_status x = IN_FLIGHT) xs) +
      length (filter (\<lambda>x. su_status x = COMPENSATING) xs)"
  proof -
    have "su_status x = IDLE \<or> su_status x = IN_FLIGHT \<or> su_status x = COMPENSATING" if "x \<in> set xs" for x
    proof -
      from q(3) that obtain r es where r: "selects ?f r" "x = summary_of t ?th es r" by blast
      from r(1) show ?thesis unfolding sel r(2) by (auto simp: NON_TERMINAL_STATUSES_def summary_of_def)
    qed
    then show ?thesis by (induction xs) auto
  qed
  have "getInFlightSummary th rg = Some (Inr (in_flight_stats_of xs), rg\<lparr>rg_stores := (rg_stores rg)(rg_defaultStore rg := (ops, s'))\<rparr>)"
    using q(1) by (simp add: getInFlightSummary_def init_default_def registry_now_def default_call_def eff_defs assms(1) t_def)
  moreover have "length xs = live_count (txs s) (\<lambda>_. True)" using c [of "\<lambda>_. True" "\<lambda>_. True"] by simp
  moreover have "length (filter (\<lambda>x. su_status x = IDLE) xs) = live_count (txs s) (\<lambda>r. tx_status r = IDLE)"
    "length (filter (\<lambda>x. su_status x = IN_FLIGHT) xs) = live_count (txs s) (\<lambda>r. tx_status r = IN_FLIGHT)"
    "length (filter (\<lambda>x. su_status x = COMPENSATING) xs) = live_count (txs s) (\<lambda>r. tx_status r = COMPENSATING)"
    "length (filter su_isStuck xs) = live_count (txs s) (is_stuck t ?th)"
    "\<And>m. length (filter (\<lambda>x. su_machineId x = m) xs) = live_count (txs s) (\<lambda>r. tx_machineId r = m)"
    by (rule c, simp add: summary_of_def)+
  ultimately show ?thesis using all by (auto simp: stats_of_rows bucket_of_rows)
qed

end

end
