(* ===== verification/RegistryInv.thy ===== *)
theory RegistryInv
  imports RegistryProps
begin

text \<open>
  The whole program run from outside: the calls of the registry, and calls on the actors it has
  built, in any order and with any outcome. What each keeps of the stores is stated once; the
  actors' part rests on the invariants of a single actor.
\<close>

section \<open>The calls of the registry\<close>

datatype ('s, 'u) registry_call =
    RConfigure "'u registry_options"
  | RRegister handler_kind string "'u js_fn"
  | RRegisterTransition string "'u js_fn" "transition_options option"
  | RRegisterService "'u service" "string option"
  | RRegisterYaml string "'u handler_bindings option"
  | RRegisterBuilder machine_builder "'u handler_bindings option"
  | RRegisterMachine machine "'u handler_bindings option"
  | RBuildActor machine_source "('s, 'u) registry_actor_config"
  | RCreateActor machine_source "('s, 'u) registry_actor_config"
  | RCloseActor string
  | RActor string actor_call
  | RActiveCount "string option"
  | RInFlightCount "string option" bool "int option"
  | RSummary "int option"
  | RCleanUp cleanup_options

definition completed :: "('a, 's, 'u) ract \<Rightarrow> (unit, 's, 'u) ract" where
  "completed m = bind m (\<lambda>_. ret ())"

fun registry_perform :: "nat \<Rightarrow> parser_lib \<Rightarrow> ('s, 'u) registry_call \<Rightarrow> (unit, 's, 'u) ract" where
  "registry_perform n lib (RConfigure options) = modify (configure options)"
| "registry_perform n lib (RRegister kind name fn) = modify (register_kind kind name fn)"
| "registry_perform n lib (RRegisterTransition name fn opts) = modify (registerTransition name fn opts)"
| "registry_perform n lib (RRegisterService svc ns) = modify (registerService svc ns)"
| "registry_perform n lib (RRegisterYaml text bs) = completed (registerYaml lib text bs)"
| "registry_perform n lib (RRegisterBuilder b bs) = completed (registerBuilder b bs)"
| "registry_perform n lib (RRegisterMachine m bs) = completed (registerMachine m bs)"
| "registry_perform n lib (RBuildActor source config) = completed (buildActorSync lib source config)"
| "registry_perform n lib (RCreateActor source config) = completed (createActor n lib source config)"
| "registry_perform n lib (RCloseActor actorId) = close_actor actorId"
| "registry_perform n lib (RActor actorId c) = on_actor actorId (\<lambda>a. perform n a c)"
| "registry_perform n lib (RActiveCount machineId) = completed (getGlobalActiveCount machineId)"
| "registry_perform n lib (RInFlightCount machineId stuck th) = completed (getGlobalInFlightCount machineId stuck th)"
| "registry_perform n lib (RSummary th) = completed (getInFlightSummary th)"
| "registry_perform n lib (RCleanUp opts) = completed (registry_forceCleanUp n opts)"

inductive registry_reach :: "parser_lib \<Rightarrow> ('s, 'u) registry \<Rightarrow> ('s, 'u) registry \<Rightarrow> bool" for lib where
  start: "registry_reach lib rg rg"
| step: "registry_reach lib rg rg' \<Longrightarrow> registry_perform n lib c rg' = Some (r, rg'') \<Longrightarrow> registry_reach lib rg rg''"
| world: "registry_reach lib rg rg' \<Longrightarrow> registry_reach lib rg (rg'\<lparr>rg_user := u\<rparr>)"

section \<open>What registering leaves alone\<close>

definition same_stores :: "('s, 'u) registry \<Rightarrow> ('s, 'u) registry \<Rightarrow> bool" where
  "same_stores rg rg' \<longleftrightarrow> rg_stores rg' = rg_stores rg \<and> rg_activeActors rg' = rg_activeActors rg"

lemma same_refl [simp]: "same_stores rg rg"
  by (simp add: same_stores_def)

lemma same_trans: "same_stores rg rg' \<Longrightarrow> same_stores rg' rg'' \<Longrightarrow> same_stores rg rg''"
  by (simp add: same_stores_def)

lemma fold_same: "(\<And>x rg. same_stores rg (f x rg)) \<Longrightarrow> same_stores rg (fold f xs rg)"
  by (induction xs arbitrary: rg) (auto intro: same_trans)

lemma register_same:
  "same_stores rg (registerTransition name fn opts rg)" "same_stores rg (registerCompensate name fn rg)"
  "same_stores rg (registerEffect name fn rg)" "same_stores rg (registerHook name fn rg)"
  "same_stores rg (set_machine m rg)" "same_stores rg (configure options rg)"
  by (simp_all add: same_stores_def registerTransition_def registerCompensate_def registerEffect_def
      registerHook_def set_machine_def configure_def)

lemma kind_same: "same_stores rg (register_kind kind name fn rg)"
  by (cases kind) (simp_all add: register_kind_def register_same)

lemma service_same: "same_stores rg (registerService svc ns rg)"
  unfolding registerService_def
  by (rule fold_same) (auto simp: register_member_def Let_def kind_same split: option.splits)

lemma all_same: "(\<And>name fn rg. same_stores rg (register name fn rg)) \<Longrightarrow> same_stores rg (register_all register ns fns rg)"
  unfolding register_all_def by (rule fold_same) auto

section \<open>Settled transactions in every store\<close>

definition store_settled :: "sqlite \<Rightarrow> bool" where
  "store_settled s \<longleftrightarrow> sqlite_ok s \<and> (\<forall>i r. sqlite_txs s i = Some r \<longrightarrow> settled r)"

definition registry_settled :: "(sqlite, 'u) registry \<Rightarrow> bool" where
  "registry_settled rg \<longleftrightarrow> (\<forall>n. fst (rg_stores rg n) = sqlite_ops \<and> store_settled (snd (rg_stores rg n))) \<and>
     (\<forall>k sl. (k, sl) \<in> set (rg_activeActors rg) \<longrightarrow> ac_store (sl_actor sl) = sqlite_ops)"

lemma settled_same: "same_stores rg rg' \<Longrightarrow> registry_settled rg \<Longrightarrow> registry_settled rg'"
  by (simp add: same_stores_def registry_settled_def)

lemma keeps_same: "(\<And>rg. same_stores rg (f rg)) \<Longrightarrow> keeps registry_settled (modify f)"
  using settled_same by (intro keeps_modify) blast

lemma keeps_bindings:
  fixes bs :: "'u handler_bindings option"
  shows "keeps registry_settled (applyMachineBindings m bs)"
proof (cases bs)
  case None
  then show ?thesis by (simp add: applyMachineBindings_def keeps_ret)
next
  case (Some b)
  let ?ns = "or_elseo (bs_namespace b) (rb_namespace (md_registry m))"
  have "same_stores rg (register_all registerHook ?ns (bs_hooks b)
      (register_all registerEffect ?ns (bs_effects b)
      (register_all registerCompensate ?ns (bs_compensations b)
      (register_all (\<lambda>name fn. registerTransition name fn None) ?ns (bs_transitions b)
      (fold (\<lambda>svc. registerService svc ?ns) (bs_services b) rg)))))" for rg :: "(sqlite, 'u) registry"
    by (intro same_trans [OF _ all_same] fold_same service_same register_same)
  then show ?thesis
    unfolding applyMachineBindings_def Some option.case Let_def
    by (intro keeps_seq keeps_same keeps_if keeps_bind keeps_reads keeps_result keeps_ret)
qed

lemma world_settled: "on_sqlite.all_settled () w \<longleftrightarrow> store_settled (w_store w)"
  by (simp add: on_sqlite.all_settled_def store_settled_def)

lemma keeps_actor:
  assumes "\<And>a. ac_store a = sqlite_ops \<Longrightarrow> keeps (on_sqlite.all_settled ()) (call a)"
  shows "keeps registry_settled (on_actor actorId call)"
  unfolding hoare_def
proof (intro allI impI)
  fix rg r rg' assume P: "registry_settled rg" and e: "on_actor actorId call rg = Some (r, rg')"
  show "registry_settled rg'"
  proof (cases "map_of (rg_activeActors rg) actorId")
    case None
    with P e show ?thesis by (auto simp: on_actor_def)
  next
    case (Some sl)
    with e obtain w where w: "call ((sl_actor sl)\<lparr>ac_handlers := provider rg\<rparr>) (enter_slot sl rg) = Some (r, w)"
      "rg' = leave_slot actorId sl w rg" by (auto simp: on_actor_def split: option.splits prod.splits)
    have "ac_store ((sl_actor sl)\<lparr>ac_handlers := provider rg\<rparr>) = sqlite_ops"
      using P map_of_SomeD [OF Some] by (simp add: registry_settled_def)
    from hoareD [OF assms [OF this] _ w(1)] P have "store_settled (w_store w)"
      by (simp add: world_settled enter_slot_def registry_settled_def)
    moreover have "ac_store (sl_actor s') = sqlite_ops"
      if "(k, s') \<in> set (AList.update actorId (sl\<lparr>sl_world := w\<rparr>) (rg_activeActors rg))" for k s'
      using that P map_of_SomeD [OF Some] set_update_subset [of actorId "sl\<lparr>sl_world := w\<rparr>" "rg_activeActors rg"]
      by (fastforce simp: registry_settled_def)
    ultimately show ?thesis using P by (simp add: w(2) leave_slot_def registry_settled_def)
  qed
qed

lemma keeps_default:
  assumes "\<And>s. store_settled s \<Longrightarrow> store_settled (snd (f sqlite_ops s))"
  shows "keeps registry_settled (default_call f)"
  unfolding hoare_def
proof (intro allI impI)
  fix rg r rg' assume P: "registry_settled rg" and e: "default_call f rg = Some (r, rg')"
  obtain s where s: "rg_stores rg (rg_defaultStore rg) = (sqlite_ops, s)" "store_settled s"
    using P by (metis registry_settled_def prod.collapse)
  with e assms [OF s(2)] P show "registry_settled rg'"
    by (auto simp: default_call_def registry_settled_def split: prod.splits)
qed

text \<open>A property of the store that the actors' operations keep is kept by the store's operations.\<close>

lemma store_of_world:
  fixes f :: "sqlite \<Rightarrow> (js_error + 'a) \<times> sqlite"
  assumes "keeps (on_sqlite.all_settled ()) (store_call f :: ('a, sqlite, unit) act)" "store_settled s"
  shows "store_settled (snd (f s))"
proof -
  let ?w = "(undefined :: (sqlite, unit) world)\<lparr>w_store := s\<rparr>"
  obtain r s' where f: "f s = (r, s')" by (cases "f s")
  then have "store_call f ?w = Some (r, ?w\<lparr>w_store := s'\<rparr>)" by (simp add: store_call_def)
  from hoareD [OF assms(1) _ this] assms(2) show ?thesis by (simp add: world_settled f)
qed

lemma settled_calls:
  "keeps (on_sqlite.all_settled ()) (store_call (\<lambda>s. (Inr (), so_initialize sqlite_ops s)) :: (unit, sqlite, unit) act)"
  "keeps (on_sqlite.all_settled ()) (store_call (so_countTransactions sqlite_ops f) :: (nat, sqlite, unit) act)"
  "keeps (on_sqlite.all_settled ()) (store_call (so_deleteTransactions sqlite_ops ids) :: (nat, sqlite, unit) act)"
  "keeps (on_sqlite.all_settled ()) (store_call (so_queryTransactions sqlite_ops f t th) :: (tx_summary list, sqlite, unit) act)"
  "tidy_patch p \<Longrightarrow> keeps (on_sqlite.all_settled ())
     (store_call (so_updateTransaction sqlite_ops i v p ns) :: (int, sqlite, unit) act)"
proof -
  let ?a = "undefined :: (sqlite, unit) actor"
  have a: "ac_store (?a\<lparr>ac_store := sqlite_ops\<rparr>) = sqlite_ops" by simp
  show "keeps (on_sqlite.all_settled ()) (store_call (\<lambda>s. (Inr (), so_initialize sqlite_ops s)) :: (unit, sqlite, unit) act)"
    by (rule on_sqlite.settled.init [where a = ?a, unfolded a])
  show "keeps (on_sqlite.all_settled ()) (store_call (so_countTransactions sqlite_ops f) :: (nat, sqlite, unit) act)"
    by (rule on_sqlite.settled.count [where a = ?a, unfolded a])
  show "keeps (on_sqlite.all_settled ()) (store_call (so_deleteTransactions sqlite_ops ids) :: (nat, sqlite, unit) act)"
    by (rule on_sqlite.settled.delete [where a = ?a, unfolded a]) simp
  show "keeps (on_sqlite.all_settled ()) (store_call (so_queryTransactions sqlite_ops f t th) :: (tx_summary list, sqlite, unit) act)"
    by (rule on_sqlite.quiet_call(1) [OF on_sqlite.quiet_ops(5)])
  show "tidy_patch p \<Longrightarrow> keeps (on_sqlite.all_settled ())
     (store_call (so_updateTransaction sqlite_ops i v p ns) :: (int, sqlite, unit) act)"
    by (rule on_sqlite.settled.update [where a = ?a, unfolded store_update_def a]) simp_all
qed

lemma keeps_init: "keeps registry_settled init_default"
  unfolding init_default_def by (rule keeps_default, rule store_of_world [OF settled_calls(1)])

lemma keeps_rows: "keeps registry_settled (default_call (\<lambda>ops. so_queryTransactions ops f t th))"
  by (rule keeps_default, rule store_of_world [OF settled_calls(4)])

lemma keeps_count: "keeps registry_settled (default_call (\<lambda>ops. so_countTransactions ops f))"
  by (rule keeps_default, rule store_of_world [OF settled_calls(2)])

lemma keeps_remove: "keeps registry_settled (default_call (\<lambda>ops. so_deleteTransactions ops ids))"
  by (rule keeps_default, rule store_of_world [OF settled_calls(3)])

lemma keeps_row: "(\<And>t. tidy_patch (p t)) \<Longrightarrow> keeps registry_settled (settle_row item p)"
  unfolding settle_row_def registry_now_def
  by (intro keeps_bind keeps_reads keeps_ret keeps_default, rule store_of_world [OF settled_calls(5)])

lemma tidy_registry_patch: "tidy_patch (registry_compensated_patch t)"
  by (simp add: tidy_patch_def registry_compensated_patch_def clear_patch_def)

lemma keeps_cleanup_row:
  "keeps registry_settled (registry_cleanup_item n action item rep :: (cleanup_report, sqlite, 'u) ract)"
proof -
  have a: "keeps registry_settled (on_actor actorId (\<lambda>a. forceCleanUpTransaction a (run_prog n a) i act) :: (cleanup_report, sqlite, 'u) ract)" for actorId i act
  proof (rule keeps_actor)
    fix a :: "(sqlite, 'u) actor" assume "ac_store a = sqlite_ops"
    then have a: "a\<lparr>ac_store := sqlite_ops\<rparr> = a" by (rule store_same)
    show "keeps (on_sqlite.all_settled ()) (forceCleanUpTransaction a (run_prog n a) i act)"
      unfolding forceCleanUpTransaction_def
      using on_sqlite.settled.keeps_cleanup [where run = "run_prog n a" and a = a, unfolded a]
        on_sqlite.settled.keeps_program [where n = n and a = a, unfolded a]
      by blast
  qed
  show ?thesis
    unfolding registry_cleanup_item_def
    by (cases action) (auto intro!: keeps_bind keeps_attempt keeps_seq keeps_ret keeps_reads keeps_option keeps_row a
      tidy_patches tidy_registry_patch)
qed

lemma keeps_registry_cleanup: "keeps registry_settled (registry_forceCleanUp n opts)"
  unfolding registry_forceCleanUp_def Let_def registry_now_def
  by (intro keeps_seq keeps_init keeps_bind keeps_reads keeps_rows keeps_if keeps_ret keeps_remove
      keeps_fold_each keeps_cleanup_row)

lemma keeps_machine: "keeps registry_settled (find_machine lib source)"
proof -
  have s: "same_stores rg (if md_id m \<in> set (keys (rg_machines rg)) then rg else set_machine m rg)" for m rg
    by (simp add: register_same)
  show ?thesis
    unfolding find_machine_def
    by (cases source) (auto intro!: keeps_bind keeps_seq keeps_result keeps_ret keeps_reads keeps_throw
      keeps_same s register_same split: option.split)
qed

lemma newActor_store:
  "newActor m h defaults config uuid s u = (Inr (a, w), u') \<Longrightarrow> ac_store a = or_else (af_store config) (ad_store defaults)"
  by (auto simp: newActor_def Let_def split: prod.splits sum.splits)

lemma keeps_construct: "keeps registry_settled (construct_actor m config)"
  unfolding hoare_def
proof (intro allI impI)
  fix rg r rg' assume P: "registry_settled rg" and e: "construct_actor m config rg = Some (r, rg')"
  let ?addr = "or_else (ax_store config) (rg_defaultStore rg)"
  let ?config = "(actor_config.truncate config)\<lparr>af_store := Some (fst (rg_stores rg ?addr))\<rparr>"
  let ?defaults = "\<lparr>ad_store = fst (rg_stores rg (rg_defaultStore rg)), ad_clock = rg_clock rg,
            ad_hooks = rg_globalHooks rg\<rparr>"
  obtain x u where n: "newActor m (provider rg) ?defaults ?config (rg_uuid rg) (snd (rg_stores rg ?addr)) (rg_user rg) = (x, u)"
    by fastforce
  have ops: "fst (rg_stores rg ?addr) = sqlite_ops" using P by (simp add: registry_settled_def)
  show "registry_settled rg'"
  proof (cases x)
    case (Inl err)
    then have "rg' = rg\<lparr>rg_user := u\<rparr>" using e n by (auto simp: construct_actor_def Let_def case_prod_beta)
    with P show ?thesis by (simp add: registry_settled_def)
  next
    case (Inr aw)
    then obtain a w where aw: "x = Inr (a, w)" by (cases aw) simp
    have a: "ac_store a = sqlite_ops"
      using newActor_store [OF n [unfolded aw]] by (simp add: ops)
    from e n aw obtain sl where rg': "rg' = rg\<lparr>rg_user := u, rg_activeActors := AList.update (ac_actorId a) sl (rg_activeActors rg)\<rparr>"
      "sl_actor sl = a" by (auto simp: construct_actor_def Let_def case_prod_beta)
    have "ac_store (sl_actor s') = sqlite_ops"
      if "(k, s') \<in> set (AList.update (ac_actorId a) sl (rg_activeActors rg))" for k s'
      using that P a rg'(2) set_update_subset [of "ac_actorId a" sl "rg_activeActors rg"]
      by (fastforce simp: registry_settled_def)
    with P show ?thesis by (simp add: rg'(1) registry_settled_def)
  qed
qed

lemma keeps_perform_actor: "keeps registry_settled (on_actor actorId (\<lambda>a. perform n a c))"
proof (rule keeps_actor)
  fix a :: "(sqlite, 'u) actor" assume "ac_store a = sqlite_ops"
  then have a: "a\<lparr>ac_store := sqlite_ops\<rparr> = a" by (rule store_same)
  show "keeps (on_sqlite.all_settled ()) (perform n a c)"
    by (rule on_sqlite.settled.keeps_perform [where a = a, unfolded a])
qed

lemma keeps_initialize_actor: "keeps registry_settled (on_actor actorId (\<lambda>a. initialize a (run_prog n a)))"
proof (rule keeps_actor)
  fix a :: "(sqlite, 'u) actor" assume "ac_store a = sqlite_ops"
  then have a: "a\<lparr>ac_store := sqlite_ops\<rparr> = a" by (rule store_same)
  show "keeps (on_sqlite.all_settled ()) (initialize a (run_prog n a))"
    by (rule on_sqlite.settled.keeps_initialize [where a = a and run = "run_prog n a", unfolded a])
      (rule on_sqlite.settled.keeps_program [where a = a, unfolded a])
qed

lemma keeps_close: "keeps registry_settled (close_actor actorId)"
proof -
  have "keeps registry_settled (on_actor actorId (\<lambda>_. actor_close))"
    by (rule keeps_actor, unfold actor_close_def stopScheduler_def, rule keeps_modify) (simp add: on_sqlite.all_settled_def)
  moreover have "registry_settled (rg\<lparr>rg_activeActors := AList.delete actorId (rg_activeActors rg)\<rparr>)"
    if "registry_settled rg" for rg :: "(sqlite, 'u) registry"
    using that by (auto simp: registry_settled_def AList.delete_eq)
  ultimately show ?thesis unfolding close_actor_def by (intro keeps_seq keeps_modify)
qed

lemma keeps_completed: "keeps P m \<Longrightarrow> keeps P (completed m)"
  unfolding completed_def by (intro keeps_bind keeps_ret)

lemma keeps_build: "keeps registry_settled (buildActorSync lib source config)"
  unfolding buildActorSync_def by (intro keeps_bind keeps_machine keeps_seq keeps_bindings keeps_construct)

lemma keeps_register:
  "keeps registry_settled (registerYaml lib text bs)" "keeps registry_settled (registerBuilder b bs)"
  "keeps registry_settled (registerMachine m bs)"
  unfolding registerYaml_def registerBuilder_def registerMachine_def
  by (intro keeps_bind keeps_result keeps_seq keeps_same register_same keeps_bindings keeps_ret)+

lemma keeps_counts:
  "keeps registry_settled (getGlobalActiveCount i)" "keeps registry_settled (getGlobalInFlightCount i b th)"
  "keeps registry_settled (getInFlightSummary th)"
  unfolding getGlobalActiveCount_def getGlobalInFlightCount_def getInFlightSummary_def registry_now_def
  by (intro keeps_seq keeps_init keeps_bind keeps_reads keeps_count keeps_rows keeps_ret)+

lemma keeps_createActor: "keeps registry_settled (createActor n lib source config)"
  unfolding createActor_def by (intro keeps_bind keeps_build keeps_seq keeps_initialize_actor keeps_ret)

theorem keeps_registry: "keeps registry_settled (registry_perform n lib c)"
  by (cases c; hypsubst; unfold registry_perform.simps)
    ((rule keeps_completed, rule keeps_build keeps_createActor keeps_register keeps_counts keeps_registry_cleanup)
      | rule keeps_perform_actor | rule keeps_close | (rule keeps_same, rule register_same kind_same service_same))+

lemma keeps_registry_reach: "registry_reach lib rg rg' \<Longrightarrow> registry_settled rg \<Longrightarrow> registry_settled rg'"
proof (induction rule: registry_reach.induct)
  case (step rg rg' n c r rg'')
  then show ?case using hoareD [OF keeps_registry] by blast
next
  case (world rg rg' u)
  have "same_stores rg' (rg'\<lparr>rg_user := u\<rparr>)" by (simp add: same_stores_def)
  from settled_same [OF this] world show ?case by blast
qed simp

end
