(* ===== verification/RegistryClaims.thy ===== *)
theory RegistryClaims
  imports RegistryInv ActorSamples DefinitionProps
begin

text \<open>
  The promises of the registry as closed statements over its model on the SQLite store, each
  applied to a registry that knows the order machine and shares one store of four transactions.
\<close>

section \<open>A registry\<close>

definition no_options :: "int list registry_options" where
  "no_options = \<lparr>ro_store = None, ro_globalDefaults = None, ro_clock = None, ro_hooks = None\<rparr>"

definition order_registry :: "(sqlite, int list) registry" where
  "order_registry = set_machine order_machine
     (newRegistry \<lparr>wo_now = (\<lambda>_. 100000), wo_sleep = (\<lambda>_ u. u), wo_random = (\<lambda>u. (0, u))\<rparr>
       (\<lambda>u. (''tx-new'', u)) 0 (\<lambda>_. (sqlite_ops, order_store)) [] no_options)"

definition idle_fn :: "int list js_fn" where
  "idle_fn = \<lparr>jf_transition = (\<lambda>req u. (Inr (Some empty_output, tc_data (tr_context req)), u)),
     jf_compensate = (\<lambda>req u. (Inr None, u)), jf_effect = (\<lambda>_. PDone), jf_hook = (\<lambda>_. PDone), jf_meta = None\<rparr>"

text \<open>The registry with the effects the order machine names.\<close>

definition ready_registry :: "(sqlite, int list) registry" where
  "ready_registry = fold (\<lambda>name. registerEffect name idle_fn)
     [''exitDraft'', ''enterFulfil'', ''exitFulfil'', ''closePayment'', ''exitPending'', ''closeShipping'',
      ''exitQueued''] order_registry"

lemma order_registry_stores [simp]:
  "rg_stores order_registry = (\<lambda>_. (sqlite_ops, order_store))" "rg_activeActors order_registry = []"
  "rg_defaultStore order_registry = 0" "rg_globalDefaults order_registry = empty_policy"
  by (simp_all add: order_registry_def set_machine_def newRegistry_def no_options_def)

lemma ready_registry_simps [simp]:
  "rg_effects ready_registry = map (\<lambda>name. (name, \<lambda>_. PDone)) [''exitDraft'', ''enterFulfil'', ''exitFulfil'',
     ''closePayment'', ''exitPending'', ''closeShipping'', ''exitQueued'']"
  "rg_transitions ready_registry = []" "rg_compensations ready_registry = []" "rg_hooks ready_registry = []"
  "rg_globalDefaults ready_registry = empty_policy" "rg_activeActors ready_registry = []"
  by (simp_all add: ready_registry_def registerEffect_def idle_fn_def order_registry_def set_machine_def
      newRegistry_def no_options_def)

lemma order_registry_empty [simp]:
  "rg_effects order_registry = []" "rg_transitions order_registry = []" "rg_compensations order_registry = []"
  "rg_hooks order_registry = []"
  by (simp_all add: order_registry_def set_machine_def newRegistry_def no_options_def)

lemmas validate_defs = validateMachineHandlers_def missing_effects_def missing_hooks_def missing_edge_def
  resolveTransition_def resolveCompensate_def resolveEffect_def resolveHook_def resolve_in_def
  qualifyHandlerName_def truthy_def hook_slots_def

lemma order_validates_ready: "validateMachineHandlers order_machine ready_registry = Inr ()"
  by (simp add: validate_defs sample_defs to_machine_def with_error_state_def createEmptyMachineHooksIR_def
      implicit_error_node_def)

lemma order_validates_empty: "validateMachineHandlers order_machine order_registry =
   Inl (UnregisteredHandlerError ''order'' [''exitDraft'', ''enterFulfil'', ''exitFulfil'', ''closePayment'',
     ''exitPending'', ''closeShipping'', ''exitQueued''])"
  by (simp add: validate_defs sample_defs to_machine_def with_error_state_def createEmptyMachineHooksIR_def
      implicit_error_node_def dedup_def set_add_def)

section \<open>Clean-up without an actor\<close>

definition compensate_one :: "string \<Rightarrow> cleanup_options" where
  "compensate_one i = \<lparr>co_machineId = None, co_actorId = None, co_transactionIds = Some [i],
     co_statuses = None, co_includeInFlight = Some True, co_stuckOnly = None, co_stuckThresholdMs = None,
     co_olderThanMs = None, co_action = Some CCompensate, co_dryRun = None\<rparr>"

context state_store
begin

lemma compensate_unbound:
  assumes "rg_stores rg (rg_defaultStore rg) = (ops, s)" "ok s" "txs s i = Some r"
    and "bound_actor (tx_machineId r) rg = None"
  shows "\<exists>rep s'. registry_forceCleanUp n (compensate_one i) rg =
      Some (Inr rep, rg\<lparr>rg_stores := (rg_stores rg)(rg_defaultStore rg := (ops, s'))\<rparr>) \<and>
    cl_compensated rep = [i] \<and> cl_errors rep = [] \<and>
    txs s' i = Some (apply_patch (registry_compensated_patch (wo_now (rg_clock rg) (rg_user rg))) (tx_version r + 1) r) \<and>
    comps s' i = comps s i"
proof -
  let ?t = "wo_now (rg_clock rg) (rg_user rg)" and ?s = "so_initialize ops s"
  let ?f = "registry_cleanup_filter (compensate_one i) ?t 30000"
  from initialize [OF assms(2)] have n: "ok ?s" "txs ?s = txs s" "comps ?s = comps s" by auto
  have r: "tx_transactionId r = i" by (rule ids [OF assms(2,3)])
  have "tx_status r \<in> {IDLE, IN_FLIGHT, COMPENSATING, COMPLETED, FAILED, COMPENSATED}"
    by (cases "tx_status r") simp_all
  then have sel: "selects ?f r"
    using r by (simp add: selects_def registry_cleanup_filter_def compensate_one_def truthy_def)
  from query_one [OF n(1) _ sel, of i ?t 30000] assms(3) n(2) obtain s1 where q:
    "so_queryTransactions ops ?f ?t 30000 ?s = (Inr [summary_of ?t 30000 (comps ?s i) r], s1)"
    "ok s1" "txs s1 = txs s" "comps s1 = comps ?s"
    by (auto simp: registry_cleanup_filter_def compensate_one_def)
  have x: "su_transactionId (summary_of ?t 30000 es r) = i" "su_version (summary_of ?t 30000 es r) = tx_version r"
    "su_machineId (summary_of ?t 30000 es r) = tx_machineId r" for es
    using r by (simp_all add: summary_of_def)
  from update_current [OF q(2), of i r "tx_version r" "registry_compensated_patch ?t" "[]"] q(3,4) n(3) assms(3)
  obtain s2 where u: "so_updateTransaction ops i (tx_version r) (registry_compensated_patch ?t) [] s1 = (Inr (tx_version r + 1), s2)"
    "txs s2 i = Some (apply_patch (registry_compensated_patch ?t) (tx_version r + 1) r)" "comps s2 i = comps s i"
    by auto
  have "bound_actor (tx_machineId r) (rg\<lparr>rg_stores := x\<rparr>) = None" for x
    using assms(4) by (simp add: bound_actor_def)
  then show ?thesis
    using q(1) u
    by (auto intro!: exI [of _ s2] simp: registry_forceCleanUp_def Let_def eff_defs init_default_def registry_now_def
        default_call_def assms(1) compensate_one_def registry_cleanup_item_def settle_row_def x)
qed

end

section \<open>Properties\<close>

text \<open>C8: Whatever is done with the registry and the actors it builds, in whatever order and however it
  ends, every transaction in every store that is neither in flight nor compensating has no active
  step and no lease.\<close>

theorem registry_transactions_settled:
  assumes "\<And>n. fst (rg_stores rg n) = sqlite_ops" "\<And>n. sqlite_ok (snd (rg_stores rg n))"
    and "\<And>n i r. sqlite_txs (snd (rg_stores rg n)) i = Some r \<Longrightarrow> settled r"
    and "rg_activeActors rg = []" "registry_reach lib rg rg'"
    and "sqlite_txs (snd (rg_stores rg' n)) i = Some r"
  shows "settled r"
proof -
  have "registry_settled rg"
    using assms(1-4) by (simp add: registry_settled_def store_settled_def)
  from keeps_registry_reach [OF assms(5) this] assms(6) show ?thesis
    by (auto simp: registry_settled_def store_settled_def)
qed

lemma compensated_one:
  "\<exists>rg'. registry_perform 1 lib (RCleanUp (compensate_one ''t1'')) order_registry = Some (Inr (), rg') \<and>
     sqlite_txs (snd (rg_stores rg' 0)) ''t1'' \<noteq> None"
proof -
  have b: "bound_actor (tx_machineId (order_tx ''t1'' ''order'' IDLE (SLeaf ''draft''))) order_registry = None"
    by (simp add: bound_actor_def)
  have t: "sqlite_txs order_store ''t1'' = Some (order_tx ''t1'' ''order'' IDLE (SLeaf ''draft''))" by (simp add: order_txs)
  have s: "rg_stores order_registry (rg_defaultStore order_registry) = (sqlite_ops, order_store)" by simp
  from sqlite.compensate_unbound [OF s order_store_ok t b, of 1] obtain rep s' where c:
    "registry_forceCleanUp 1 (compensate_one ''t1'') order_registry = Some (Inr rep, order_registry\<lparr>rg_stores :=
       (rg_stores order_registry)(rg_defaultStore order_registry := (sqlite_ops, s'))\<rparr>)"
    "sqlite_txs s' ''t1'' \<noteq> None" by blast
  have "registry_perform 1 lib (RCleanUp (compensate_one ''t1'')) order_registry = Some (Inr (), order_registry\<lparr>rg_stores :=
       (rg_stores order_registry)(rg_defaultStore order_registry := (sqlite_ops, s'))\<rparr>)"
    by (simp only: registry_perform.simps completed_def bind_def c ret_def option.case sum.case prod.case)
  with c(2) show ?thesis by simp
qed

theorem registry_transactions_settled_witness:
  "\<exists>rg' r. registry_reach light_lib order_registry rg' \<and> sqlite_txs (snd (rg_stores rg' 0)) ''t1'' = Some r \<and> settled r"
proof -
  obtain rg' r where p: "registry_perform 1 light_lib (RCleanUp (compensate_one ''t1'')) order_registry = Some (Inr (), rg')"
    "sqlite_txs (snd (rg_stores rg' 0)) ''t1'' = Some r" using compensated_one by blast
  then have reach: "registry_reach light_lib order_registry rg'"
    using registry_reach.step [OF registry_reach.start] by blast
  from registry_transactions_settled [OF _ _ _ _ reach p(2)] order_store_ok order_settled have "settled r" by auto
  with reach p(2) show ?thesis by blast
qed


lemma order_strict: "rb_strict (md_registry order_machine)"
  by (simp add: sample_defs to_machine_def)

lemma order_plain_machine: "machine_plain order_machine"
  by (simp add: machine_plain_def edge_plain_def sample_defs to_machine_def with_error_state_def
      implicit_error_node_def)

lemma order_no_default: "no_default_handler order_machine ready_registry" "no_default_handler order_machine order_registry"
  by (simp_all add: no_default_handler_def sample_defs to_machine_def)


text \<open>What the parser and the builder return names compensation handlers consistently.\<close>

theorem front_ends_plain:
  "parseYamlMachine lib content = Inr m \<Longrightarrow> machine_plain m"
  "build (fluent machineId calls) = Inr m \<Longrightarrow> machine_plain m"
  by (rule parsed_plain, assumption) (rule built_plain, assumption)


definition order_config :: "(sqlite, int list) registry_actor_config" where
  "order_config = \<lparr>af_actorId = Some ''actor-1'', af_store = None, af_clock = None, af_contextValidator = None,
     af_inputValidators = None, af_recovery = None, af_scheduler = None, af_hooks = None,
     af_maxEffectChainDepth = None, ax_store = None, ax_bindings = None\<rparr>"

lemma order_constructs: "\<exists>rg'. construct_actor order_machine order_config ready_registry = Some (Inr ''actor-1'', rg')"
proof -
  have c: "\<exists>c hooks. compileMachineBindings order_machine (provider ready_registry) ivs = Inr (c, hooks)" for ivs
    using validate_compile [OF order_no_default(1) order_plain_machine, of ivs] order_validates_ready order_strict
    by (cases "compileMachineBindings order_machine (provider ready_registry) ivs") auto
  show ?thesis
    using c [of "input_validators ((actor_config.truncate order_config)\<lparr>af_store :=
      Some (fst (rg_stores ready_registry (rg_defaultStore ready_registry)))\<rparr>)"]
    by (auto simp: construct_actor_def newActor_def Let_def case_prod_beta order_config_def actor_config.truncate_def)
qed


text \<open>C11: The in-flight summary counts exactly: every total is the number of non-terminal transactions of
  that kind in the shared store, and every machine's bucket the number of its own.\<close>

theorem in_flight_summary_exact:
  assumes "rg_stores rg (rg_defaultStore rg) = (sqlite_ops, s)" "sqlite_ok s"
  shows "\<exists>st rg'. getInFlightSummary th rg = Some (Inr st, rg') \<and>
    is_totalIdle st = live_count (sqlite_txs s) (\<lambda>r. tx_status r = IDLE) \<and>
    is_totalInFlight st = live_count (sqlite_txs s) (\<lambda>r. tx_status r = IN_FLIGHT) \<and>
    is_totalCompensating st = live_count (sqlite_txs s) (\<lambda>r. tx_status r = COMPENSATING) \<and>
    is_totalNonTerminal st = live_count (sqlite_txs s) (\<lambda>_. True) \<and>
    is_totalStuck st = live_count (sqlite_txs s)
      (is_stuck (wo_now (rg_clock rg) (rg_user rg)) (or_else th 30000)) \<and>
    (\<forall>m. ib_nonTerminal (bucket st m) = live_count (sqlite_txs s) (\<lambda>r. tx_machineId r = m))"
  using sqlite.in_flight_summary [OF assms, of th] by simp

theorem in_flight_summary_exact_witness:
  "\<exists>st rg'. getInFlightSummary None order_registry = Some (Inr st, rg') \<and>
     is_totalNonTerminal st = live_count (sqlite_txs order_store) (\<lambda>_. True)"
proof -
  have "rg_stores order_registry (rg_defaultStore order_registry) = (sqlite_ops, order_store)" by simp
  from in_flight_summary_exact [OF this order_store_ok, of None] show ?thesis by blast
qed

text \<open>C36: Asked to compensate a transaction of a machine no actor runs, the registry's clean-up reports
  it compensated and marks it so, while its compensation stack stays as it was: no handler runs and
  no step is marked.\<close>

theorem unbound_compensation_skips_handlers:
  assumes "rg_stores rg (rg_defaultStore rg) = (sqlite_ops, s)" "sqlite_ok s" "sqlite_txs s i = Some r"
    and "bound_actor (tx_machineId r) rg = None"
  shows "\<exists>rep rg' s' r'. registry_forceCleanUp n (compensate_one i) rg = Some (Inr rep, rg') \<and>
    cl_compensated rep = [i] \<and> rg_user rg' = rg_user rg \<and>
    rg_stores rg' (rg_defaultStore rg) = (sqlite_ops, s') \<and> sqlite_txs s' i = Some r' \<and>
    tx_status r' = COMPENSATED \<and> tx_context r' = tx_context r \<and> sqlite_comps s' i = sqlite_comps s i"
proof -
  let ?r = "apply_patch (registry_compensated_patch (wo_now (rg_clock rg) (rg_user rg))) (tx_version r + 1) r"
  have "tx_status ?r = COMPENSATED" "tx_context ?r = tx_context r"
    by (simp_all add: apply_patch_def registry_compensated_patch_def clear_patch_def touch_def)
  with sqlite.compensate_unbound [OF assms, of n] show ?thesis by fastforce
qed

theorem unbound_compensation_skips_handlers_witness:
  "\<exists>rep rg' s' r'. registry_forceCleanUp 1 (compensate_one ''t1'') order_registry = Some (Inr rep, rg') \<and>
    rg_stores rg' 0 = (sqlite_ops, s') \<and> sqlite_txs s' ''t1'' = Some r' \<and> tx_status r' = COMPENSATED \<and>
    sqlite_comps s' ''t1'' = [order_comp 1, order_comp 2]"
proof -
  have "rg_stores order_registry (rg_defaultStore order_registry) = (sqlite_ops, order_store)" by simp
  moreover have "sqlite_txs order_store ''t1'' = Some (order_tx ''t1'' ''order'' IDLE (SLeaf ''draft''))"
    by (simp add: order_txs)
  moreover have "bound_actor (tx_machineId (order_tx ''t1'' ''order'' IDLE (SLeaf ''draft''))) order_registry = None"
    by (simp add: bound_actor_def)
  ultimately show ?thesis
    using unbound_compensation_skips_handlers [of order_registry order_store "''t1''" _ 1] order_store_ok
    by (fastforce simp: order_comps)
qed

text \<open>C35: A function decorated with policies normalises as if each policy were a layer of its own, the
  later over the earlier, on top of the layers below the decorators.\<close>

theorem decorators_apply_in_order:
  "normalizeTransitionPolicy \<lparr>mi_defaultBreakerKey = key, mi_globalDefaults = g, mi_machineDefaults = d,
     mi_transitionPolicy = t,
     mi_decoratorPolicy = Some (re_policy (transition_entry (decorateTransition fn (map with_policy ps))))\<rparr> =
   fold (\<lambda>p. apply_layer (Some p)) ps
     (normalizeTransitionPolicy \<lparr>mi_defaultBreakerKey = key, mi_globalDefaults = g, mi_machineDefaults = d,
        mi_transitionPolicy = t, mi_decoratorPolicy = None\<rparr>)"
proof -
  have "re_policy (transition_entry (decorateTransition fn (map with_policy ps))) =
      fn_policy (decorateTransition fn (map with_policy ps))"
    by (simp add: transition_entry_def fn_policy_def getFunctionMetadata_def)
  moreover have "apply_layer (Some empty_policy) n = apply_layer None n" for n
    by (simp add: apply_layer_def empty_policy_def or_elseo_def)
  ultimately show ?thesis
    by (simp add: normalizeTransitionPolicy_def decorated_policy apply_layers)
qed

text \<open>Automatic registration takes the policy a method has when \<open>@DfsmTransition\<close> is applied: what
  decorators stacked outside of it add reaches the method's metadata, and not the registry.\<close>

theorem auto_registration_is_a_snapshot:
  fixes fn :: "'u js_fn"
  assumes "do_autoRegister opts = Some True" "or_else (do_name opts) memberName \<noteq> []"
    and "stack_decorators (DfsmTransition opts # map policy_decorator ps) memberName fn = (fn', regs)"
  defines "own \<equiv> mergePartialInto (fn_policy fn) (explicit_policy (do_policy opts))"
  shows "fn_policy fn' = fold (\<lambda>p q. mergePartialInto q p) ps own \<and>
    (\<exists>e. resolveTransition (fold autoRegisterHook regs rg) (or_else (do_name opts) memberName) None =
       Some (or_else (do_name opts) memberName, e) \<and> re_policy e = own)"
proof -
  have outer: "\<exists>f. stack_decorators (map policy_decorator ps) memberName g = (f, []) \<and>
      fn_policy f = fold (\<lambda>p q. mergePartialInto q p) ps (fn_policy g)" for g :: "'u js_fn"
  proof (induction ps arbitrary: g)
    case (Cons p ps)
    show ?case using Cons [of "upsertFunctionMetadata (no_update\<lparr>mu_policy := Some p\<rparr>) g"]
      by (auto simp: policy_decorator_def fn_policy_upsert no_update_def)
  qed simp
  let ?f = "fst (DfsmTransition opts memberName fn)"
  have f: "fn_policy ?f = own"
    by (simp add: DfsmTransition_def Let_def fn_policy_upsert own_def)
  from outer [of ?f] obtain f where o: "stack_decorators (map policy_decorator ps) memberName ?f = (f, [])"
    "fn_policy f = fold (\<lambda>p q. mergePartialInto q p) ps own" by (auto simp: f)
  have "fn' = f" "regs = [(TransitionKind, or_else (do_name opts) memberName, ?f)]"
    using assms(1-3) o(1) by (auto simp: DfsmTransition_def Let_def auto_register_def)
  moreover have "re_policy (transition_entry ?f) = own"
    using f by (simp add: transition_entry_def fn_policy_def getFunctionMetadata_def)
  ultimately show ?thesis using o(2)
    by (simp add: autoRegisterHook_def register_kind_def registerTransition_def resolveTransition_def
        resolve_in_def truthy_def update_conv')
qed

definition auto_options :: decorator_options where
  "auto_options = \<lparr>do_name = Some ''charge'', do_inputValidator = None, do_autoRegister = Some True,
     do_policy = empty_policy\<rparr>"

end
