(* ===== verification/MongoStore.thy ===== *)
theory MongoStore
  imports Store
begin

text \<open>
  The MongoDB driver of \<^verbatim>\<open>store/mongodb-store.ts\<close>. The database is not part of the sources, so the
  collection a driver works on is an argument \<open>col\<close> of every operation: a record of the commands the
  driver sends. What MongoDB documents of these commands is the locale \<open>document_collection\<close>, under
  which the driver keeps the contract \<open>state_store\<close>; \<open>list_collection\<close> shows that the laws can hold.
  Network and server failures are outside the model.
\<close>

section \<open>Documents and commands\<close>

text \<open>A document: the fields of a record (\<open>_id\<close> is the transaction id), the next step number and the stack.\<close>

record mongo_doc = tx_record +
  md_nextCompStepSeq :: "int option"
  md_compensationStack :: "comp_entry list"

text \<open>The clauses of the query documents the driver builds.\<close>

datatype mongo_clause =
    IdIs string
  | IdIn "string list"
  | MachineIs string
  | ActorIs string
  | StatusIn "tx_status list"
  | UpdatedLte int
  | StateIs state_value
  | VersionIs int
  | StackHasStep int

type_synonym mongo_query = "mongo_clause list"

fun clause_matches :: "mongo_clause \<Rightarrow> mongo_doc \<Rightarrow> bool" where
  "clause_matches (IdIs i) d \<longleftrightarrow> tx_transactionId d = i"
| "clause_matches (IdIn is) d \<longleftrightarrow> tx_transactionId d \<in> set is"
| "clause_matches (MachineIs m) d \<longleftrightarrow> tx_machineId d = m"
| "clause_matches (ActorIs a) d \<longleftrightarrow> tx_actorId d = a"
| "clause_matches (StatusIn sts) d \<longleftrightarrow> tx_status d \<in> set sts"
| "clause_matches (UpdatedLte t) d \<longleftrightarrow> tx_updatedAt d \<le> t"
| "clause_matches (StateIs sv) d \<longleftrightarrow> json_state (tx_stateValue d) = json_state sv"
| "clause_matches (VersionIs v) d \<longleftrightarrow> tx_version d = v"
| "clause_matches (StackHasStep n) d \<longleftrightarrow> n \<in> ce_stepSeq ` set (md_compensationStack d)"

definition query_matches :: "mongo_query \<Rightarrow> mongo_doc \<Rightarrow> bool" where
  "query_matches q d = list_all (\<lambda>c. clause_matches c d) q"

text \<open>
  The update documents: \<open>$set\<close> of the fields of a patch with the version and possibly the next step
  number, \<open>$push\<close> with \<open>$each\<close>, and \<open>$set\<close> on the first stack item with the step queried for.
\<close>

record set_doc = update_patch +
  sd_version :: int
  sd_nextCompStepSeq :: "int option"

datatype mongo_update =
    SetPush set_doc "comp_entry list"
  | SetCompensatedAt int int

fun set_first :: "('a \<Rightarrow> bool) \<Rightarrow> ('a \<Rightarrow> 'a) \<Rightarrow> 'a list \<Rightarrow> 'a list" where
  "set_first p f [] = []"
| "set_first p f (x # xs) = (if p x then f x # xs else x # set_first p f xs)"

definition set_fields :: "set_doc \<Rightarrow> mongo_doc \<Rightarrow> mongo_doc" where
  "set_fields sd d = d\<lparr>
     tx_stateValue := or_else (pt_stateValue sd) (tx_stateValue d),
     tx_context := or_else (pt_context sd) (tx_context d),
     tx_status := or_else (pt_status sd) (tx_status d),
     tx_activeStep := or_else (pt_activeStep sd) (tx_activeStep d),
     tx_lastError := or_else (pt_lastError sd) (tx_lastError d),
     tx_version := sd_version sd,
     tx_leaseOwner := or_else (pt_leaseOwner sd) (tx_leaseOwner d),
     tx_leaseExpiresAt := or_else (pt_leaseExpiresAt sd) (tx_leaseExpiresAt d),
     tx_updatedAt := pt_updatedAt sd,
     md_nextCompStepSeq := or_elseo (sd_nextCompStepSeq sd) (md_nextCompStepSeq d)\<rparr>"

fun apply_update :: "mongo_update \<Rightarrow> mongo_doc \<Rightarrow> mongo_doc" where
  "apply_update (SetPush sd es) d =
     set_fields sd d\<lparr>md_compensationStack := md_compensationStack d @ es\<rparr>"
| "apply_update (SetCompensatedAt n t) d =
     d\<lparr>md_compensationStack := set_first (\<lambda>e. ce_stepSeq e = n) (\<lambda>e. e\<lparr>ce_compensatedAt := Some t\<rparr>)
         (md_compensationStack d)\<rparr>"

text \<open>The commands; \<open>updateOne\<close> answers the matched count. A limit of zero is no limit.\<close>

record 'c collection =
  co_insertOne :: "mongo_doc \<Rightarrow> 'c \<Rightarrow> (js_error + unit) \<times> 'c"
  co_findOne :: "mongo_query \<Rightarrow> 'c \<Rightarrow> mongo_doc option"
  co_updateOne :: "mongo_query \<Rightarrow> mongo_update \<Rightarrow> 'c \<Rightarrow> nat \<times> 'c"
  co_countDocuments :: "mongo_query \<Rightarrow> 'c \<Rightarrow> nat"
  co_findByUpdatedAt :: "mongo_query \<Rightarrow> int option \<Rightarrow> int option \<Rightarrow> 'c \<Rightarrow> mongo_doc list"
  co_deleteMany :: "mongo_query \<Rightarrow> 'c \<Rightarrow> nat \<times> 'c"

definition skip_limit :: "int option \<Rightarrow> int option \<Rightarrow> 'a list \<Rightarrow> 'a list" where
  "skip_limit skip limit xs =
     (let rest = drop (nat (or_else skip 0)) xs in
      case limit of None \<Rightarrow> rest | Some n \<Rightarrow> if n = 0 then rest else take (nat n) rest)"

section \<open>The driver\<close>

record 'c mongo =
  mo_client :: bool
  mo_ownsClient :: bool
  mo_uri :: "string option"
  mo_databaseName :: string
  mo_collectionName :: string
  mo_ready :: bool
  mo_col :: 'c

definition new_mongo ::
  "string option \<Rightarrow> bool \<Rightarrow> string option \<Rightarrow> string option \<Rightarrow> (string \<Rightarrow> string \<Rightarrow> 'c) \<Rightarrow> 'c mongo" where
  "new_mongo uri client databaseName collectionName server =
     (let db = or_else databaseName ''dfsm''; cn = or_else collectionName ''dfsm_transactions'' in
      \<lparr>mo_client = client, mo_ownsClient = (\<not> client),
       mo_uri = (if client then None else Some (or_else uri ''mongodb://127.0.0.1:27017'')),
       mo_databaseName = db, mo_collectionName = cn, mo_ready = False, mo_col = server db cn\<rparr>)"

definition mongo_initialize :: "'c mongo \<Rightarrow> 'c mongo" where
  "mongo_initialize s = (if mo_ready s then s else s\<lparr>mo_client := True, mo_ready := True\<rparr>)"

definition getCollection :: "'c mongo \<Rightarrow> 'c mongo" where
  "getCollection s = (if mo_ready s then s else mongo_initialize s)"

definition doc_of :: "tx_record \<Rightarrow> mongo_doc" where
  "doc_of r = tx_record.extend r \<lparr>md_nextCompStepSeq = Some 1, md_compensationStack = []\<rparr>"

definition mongo_createTransaction ::
  "'c collection \<Rightarrow> tx_record \<Rightarrow> 'c mongo \<Rightarrow> (js_error + unit) \<times> 'c mongo" where
  "mongo_createTransaction col r s0 =
     (let s = getCollection s0; (res, c) = co_insertOne col (doc_of r) (mo_col s) in
      (res, s\<lparr>mo_col := c\<rparr>))"

definition by_step_desc :: "comp_entry list \<Rightarrow> comp_entry list" where
  "by_step_desc es = sort_key (\<lambda>e. - ce_stepSeq e) es"

definition record_of_doc :: "mongo_doc \<Rightarrow> tx_record" where
  "record_of_doc d = tx_record.truncate d"

definition mongo_getTransaction ::
  "'c collection \<Rightarrow> string \<Rightarrow> 'c mongo \<Rightarrow> (js_error + tx_snapshot option) \<times> 'c mongo" where
  "mongo_getTransaction col i s0 =
     (let s = getCollection s0 in
      case co_findOne col [IdIs i] (mo_col s) of
        None \<Rightarrow> (Inr None, s)
      | Some d \<Rightarrow> (Inr (Some (snapshot_of (record_of_doc d) (by_step_desc (md_compensationStack d)))), s))"

text \<open>
  The next step number is read only when entries are appended, with the version in the query; the
  update checks the version again.
\<close>

definition to_set_doc :: "update_patch \<Rightarrow> int \<Rightarrow> int option \<Rightarrow> set_doc" where
  "to_set_doc p nextVersion next = update_patch.extend p
     \<lparr>sd_version = nextVersion, sd_nextCompStepSeq = next\<rparr>"

definition mongo_updateTransaction ::
  "'c collection \<Rightarrow> string \<Rightarrow> int \<Rightarrow> update_patch \<Rightarrow> comp_new list \<Rightarrow> 'c mongo \<Rightarrow>
     (js_error + int) \<times> 'c mongo" where
  "mongo_updateTransaction col i expectedVersion p ns s0 =
     (let s = getCollection s0;
          nextVersion = expectedVersion + 1;
          q = [IdIs i, VersionIs expectedVersion];
          stale = Inl (StaleTransactionVersionError i expectedVersion);
          existing = (if ns = [] then None else co_findOne col q (mo_col s))
      in if ns \<noteq> [] \<and> existing = None then (stale, s)
         else let baseSeq = (case existing of None \<Rightarrow> 1 | Some d \<Rightarrow> or_else (md_nextCompStepSeq d) 1);
                  prepared = numbered i baseSeq ns;
                  next = (if ns = [] then None else Some (baseSeq + int (length prepared)));
                  (matchedCount, c) =
                    co_updateOne col q (SetPush (to_set_doc p nextVersion next) prepared) (mo_col s)
              in (if matchedCount \<noteq> 1 then stale else Inr nextVersion, s\<lparr>mo_col := c\<rparr>))"

definition mongo_getUncompensatedStack ::
  "'c collection \<Rightarrow> string \<Rightarrow> 'c mongo \<Rightarrow> (js_error + comp_entry list) \<times> 'c mongo" where
  "mongo_getUncompensatedStack col i s0 =
     (let s = getCollection s0 in
      (Inr (case co_findOne col [IdIs i] (mo_col s) of
              None \<Rightarrow> []
            | Some d \<Rightarrow> by_step_desc (filter (\<lambda>e. ce_compensatedAt e = None) (md_compensationStack d))), s))"

definition mongo_markCompensationExecuted ::
  "'c collection \<Rightarrow> string \<Rightarrow> int \<Rightarrow> int \<Rightarrow> 'c mongo \<Rightarrow> (js_error + unit) \<times> 'c mongo" where
  "mongo_markCompensationExecuted col i stepSeq compensatedAt s0 =
     (let s = getCollection s0;
          (_, c) = co_updateOne col [IdIs i, StackHasStep stepSeq] (SetCompensatedAt stepSeq compensatedAt)
            (mo_col s)
      in (Inr (), s\<lparr>mo_col := c\<rparr>))"

definition buildMongoFilter :: "query_filter \<Rightarrow> mongo_query" where
  "buildMongoFilter f =
     (case truthy (qf_machineId f) of Some m \<Rightarrow> [MachineIs m] | None \<Rightarrow> []) @
     (case truthy (qf_actorId f) of Some a \<Rightarrow> [ActorIs a] | None \<Rightarrow> []) @
     (case qf_transactionIds f of Some ids \<Rightarrow> if ids = [] then [] else [IdIn ids] | None \<Rightarrow> []) @
     (case qf_statuses f of Some sts \<Rightarrow> if sts = [] then [] else [StatusIn sts] | None \<Rightarrow> []) @
     (case (qf_stuckBeforeTimestamp f, qf_olderThanTimestamp f) of
        (Some a, Some b) \<Rightarrow> [UpdatedLte (min a b)]
      | (Some a, None) \<Rightarrow> [UpdatedLte a]
      | (None, Some b) \<Rightarrow> [UpdatedLte b]
      | (None, None) \<Rightarrow> []) @
     (case qf_stateEquals f of Some sv \<Rightarrow> [StateIs sv] | None \<Rightarrow> [])"

definition mongo_countTransactions ::
  "'c collection \<Rightarrow> query_filter \<Rightarrow> 'c mongo \<Rightarrow> (js_error + nat) \<times> 'c mongo" where
  "mongo_countTransactions col f s0 =
     (let s = getCollection s0 in (Inr (co_countDocuments col (buildMongoFilter f) (mo_col s)), s))"

definition mongo_queryTransactions ::
  "'c collection \<Rightarrow> query_filter \<Rightarrow> int \<Rightarrow> int \<Rightarrow> 'c mongo \<Rightarrow>
     (js_error + tx_summary list) \<times> 'c mongo" where
  "mongo_queryTransactions col f nowTimestamp stuckThresholdMs s0 =
     (let s = getCollection s0;
          docs = co_findByUpdatedAt col (buildMongoFilter f) (map_option (max 0) (qf_offset f))
            (map_option (max 0) (qf_limit f)) (mo_col s)
      in (Inr (map (\<lambda>d. summary_of nowTimestamp stuckThresholdMs (md_compensationStack d)
            (record_of_doc d)) docs), s))"

definition mongo_deleteTransactions ::
  "'c collection \<Rightarrow> string list \<Rightarrow> 'c mongo \<Rightarrow> (js_error + nat) \<times> 'c mongo" where
  "mongo_deleteTransactions col ids s0 =
     (if ids = [] then (Inr 0, s0)
      else let s = getCollection s0; (n, c) = co_deleteMany col [IdIn ids] (mo_col s)
           in (Inr n, s\<lparr>mo_col := c\<rparr>))"

definition mongo_close :: "'c mongo \<Rightarrow> 'c mongo" where
  "mongo_close s = s\<lparr>mo_ready := False,
     mo_client := (if mo_client s \<and> mo_ownsClient s then False else mo_client s)\<rparr>"

definition mongo_ops :: "'c collection \<Rightarrow> 'c mongo store_ops" where
  "mongo_ops col = \<lparr>so_initialize = mongo_initialize, so_createTransaction = mongo_createTransaction col,
     so_getTransaction = mongo_getTransaction col, so_updateTransaction = mongo_updateTransaction col,
     so_getUncompensatedStack = mongo_getUncompensatedStack col,
     so_markCompensationExecuted = mongo_markCompensationExecuted col,
     so_countTransactions = mongo_countTransactions col,
     so_queryTransactions = mongo_queryTransactions col,
     so_deleteTransactions = mongo_deleteTransactions col, so_close = mongo_close\<rparr>"

section \<open>What the driver relies on\<close>

definition matching :: "mongo_query \<Rightarrow> (string \<Rightarrow> mongo_doc option) \<Rightarrow> mongo_doc set" where
  "matching q m = {d. \<exists>i. m i = Some d \<and> query_matches q d}"

locale document_collection =
  fixes col :: "'c collection"
    and valid :: "'c \<Rightarrow> bool"
    and docs :: "'c \<Rightarrow> string \<Rightarrow> mongo_doc option"
  assumes keyed: "valid c \<Longrightarrow> docs c i = Some d \<Longrightarrow> tx_transactionId d = i"
    and insert_new: "valid c \<Longrightarrow> docs c (tx_transactionId d) = None \<Longrightarrow>
      \<exists>c'. co_insertOne col d c = (Inr (), c') \<and> valid c' \<and> docs c' = (docs c)(tx_transactionId d \<mapsto> d)"
    and insert_duplicate: "valid c \<Longrightarrow> docs c (tx_transactionId d) \<noteq> None \<Longrightarrow>
      \<exists>e c'. co_insertOne col d c = (Inl e, c') \<and> valid c' \<and> docs c' = docs c"
    and find_one: "valid c \<Longrightarrow> co_findOne col q c = Some d \<Longrightarrow> d \<in> matching q (docs c)"
    and find_none: "valid c \<Longrightarrow> co_findOne col q c = None \<Longrightarrow> matching q (docs c) = {}"
    and update_none: "valid c \<Longrightarrow> matching q (docs c) = {} \<Longrightarrow>
      \<exists>c'. co_updateOne col q u c = (0, c') \<and> valid c' \<and> docs c' = docs c"
    and update_one: "valid c \<Longrightarrow> matching q (docs c) \<noteq> {} \<Longrightarrow>
      \<exists>d \<in> matching q (docs c). \<exists>c'. co_updateOne col q u c = (1, c') \<and> valid c' \<and>
        docs c' = (docs c)(tx_transactionId d \<mapsto> apply_update u d)"
    and count_documents: "valid c \<Longrightarrow> co_countDocuments col q c = card (matching q (docs c))"
    and find_sorted: "valid c \<Longrightarrow> \<exists>ds. distinct (map tx_transactionId ds) \<and> sorted (map tx_updatedAt ds) \<and>
      set ds = matching q (docs c) \<and> co_findByUpdatedAt col q skip limit c = skip_limit skip limit ds"
    and delete_many: "valid c \<Longrightarrow> \<exists>c'. co_deleteMany col q c = (card (matching q (docs c)), c') \<and> valid c' \<and>
      docs c' = (\<lambda>i. case docs c i of Some d \<Rightarrow> if query_matches q d then None else Some d | None \<Rightarrow> None)"
begin

lemma matching_id: "valid c \<Longrightarrow>
    matching [IdIs i] (docs c) = (case docs c i of Some d \<Rightarrow> {d} | None \<Rightarrow> {})"
  using keyed by (auto simp: matching_def query_matches_def split: option.splits)

lemma matching_id_also: "valid c \<Longrightarrow> matching (IdIs i # q) (docs c) =
    (case docs c i of Some d \<Rightarrow> if query_matches q d then {d} else {} | None \<Rightarrow> {})"
  using keyed by (auto simp: matching_def query_matches_def split: option.splits)

lemma matching_inj: "valid c \<Longrightarrow> inj_on tx_transactionId (matching q (docs c))"
  unfolding inj_on_def matching_def using keyed by fastforce

lemma find_by_id: "valid c \<Longrightarrow> co_findOne col [IdIs i] c = docs c i"
  using find_one [of c "[IdIs i]"] find_none [of c "[IdIs i]"]
  by (cases "co_findOne col [IdIs i] c"; cases "docs c i") (auto simp: matching_id)

lemma find_version: "valid c \<Longrightarrow> co_findOne col [IdIs i, VersionIs v] c =
    (case docs c i of Some d \<Rightarrow> if tx_version d = v then Some d else None | None \<Rightarrow> None)"
  using find_one [of c "[IdIs i, VersionIs v]"] find_none [of c "[IdIs i, VersionIs v]"]
  by (cases "co_findOne col [IdIs i, VersionIs v] c"; cases "docs c i")
    (auto simp: matching_id_also query_matches_def split: if_splits)

lemma update_by_id:
  assumes "valid c"
  obtains d c' where "docs c i = Some d" "query_matches q d" "co_updateOne col (IdIs i # q) u c = (1, c')"
    "valid c'" "docs c' = (docs c)(i \<mapsto> apply_update u d)"
  | c' where "\<And>d. docs c i = Some d \<Longrightarrow> \<not> query_matches q d"
    "co_updateOne col (IdIs i # q) u c = (0, c')" "valid c'" "docs c' = docs c"
proof (cases "matching (IdIs i # q) (docs c) = {}")
  case True
  then show thesis using update_none [OF assms True, of u] that(2) assms
    by (auto simp: matching_id_also split: option.splits if_splits)
next
  case False
  then obtain d where d: "docs c i = Some d" "query_matches q d" "matching (IdIs i # q) (docs c) = {d}"
    using assms by (auto simp: matching_id_also split: option.splits if_splits)
  then obtain c' where "co_updateOne col (IdIs i # q) u c = (1, c')" "valid c'"
    "docs c' = (docs c)(i \<mapsto> apply_update u d)"
    using update_one [OF assms False, of u] keyed [OF assms d(1)] by auto
  with d(1, 2) show thesis by (rule that(1))
qed

end

section \<open>The driver keeps the contract\<close>

text \<open>
  The next step number stays one above the highest step of the stack, so the numbering is that of the
  SQL drivers, which take the maximum.
\<close>

definition doc_ok :: "mongo_doc \<Rightarrow> bool" where
  "doc_ok d \<longleftrightarrow> stack_ok (tx_transactionId d) (md_compensationStack d) \<and>
     md_nextCompStepSeq d = Some (max_seq (md_compensationStack d) + 1)"

definition mongo_ok ::
  "('c \<Rightarrow> bool) \<Rightarrow> ('c \<Rightarrow> string \<Rightarrow> mongo_doc option) \<Rightarrow> 'c mongo \<Rightarrow> bool" where
  "mongo_ok valid docs s \<longleftrightarrow> valid (mo_col s) \<and> (\<forall>i d. docs (mo_col s) i = Some d \<longrightarrow> doc_ok d)"

definition mongo_txs :: "('c \<Rightarrow> string \<Rightarrow> mongo_doc option) \<Rightarrow> 'c mongo \<Rightarrow> string \<Rightarrow> tx_record option" where
  "mongo_txs docs s i = map_option record_of_doc (docs (mo_col s) i)"

definition mongo_comps :: "('c \<Rightarrow> string \<Rightarrow> mongo_doc option) \<Rightarrow> 'c mongo \<Rightarrow> string \<Rightarrow> comp_entry list" where
  "mongo_comps docs s i = (case docs (mo_col s) i of Some d \<Rightarrow> md_compensationStack d | None \<Rightarrow> [])"

lemma getCollection_col [simp]: "mo_col (getCollection s) = mo_col s"
  by (simp add: getCollection_def mongo_initialize_def)

lemma record_of_doc_sel [simp]:
  "tx_transactionId (record_of_doc d) = tx_transactionId d"
  "tx_version (record_of_doc d) = tx_version d"
  "tx_updatedAt (record_of_doc d) = tx_updatedAt d"
  by (simp_all add: record_of_doc_def tx_record.defs)

lemma record_of_doc_of [simp]: "record_of_doc (doc_of r) = r"
  by (simp add: record_of_doc_def doc_of_def tx_record.defs)

lemma set_fields_sel [simp]:
  "tx_transactionId (set_fields sd d) = tx_transactionId d"
  "md_compensationStack (set_fields sd d) = md_compensationStack d"
  "md_nextCompStepSeq (set_fields sd d) = or_elseo (sd_nextCompStepSeq sd) (md_nextCompStepSeq d)"
  by (simp_all add: set_fields_def)

lemma record_of_set_fields:
  "record_of_doc (set_fields (to_set_doc p v n) d) = apply_patch p v (record_of_doc d)"
  by (simp add: record_of_doc_def set_fields_def to_set_doc_def apply_patch_def tx_record.defs update_patch.defs)

lemma record_of_stack [simp]: "record_of_doc (d\<lparr>md_compensationStack := es\<rparr>) = record_of_doc d"
  by (simp add: record_of_doc_def tx_record.defs)

lemma query_matches_simps [simp]:
  "query_matches [] d"
  "query_matches (c # q) d \<longleftrightarrow> clause_matches c d \<and> query_matches q d"
  "query_matches (q @ q') d \<longleftrightarrow> query_matches q d \<and> query_matches q' d"
  by (simp_all add: query_matches_def)

lemma selects_matches: "selects f (record_of_doc d) = query_matches (buildMongoFilter f) d"
proof -
  have sel: "tx_machineId (record_of_doc d) = tx_machineId d" "tx_actorId (record_of_doc d) = tx_actorId d"
    "tx_status (record_of_doc d) = tx_status d" "tx_stateValue (record_of_doc d) = tx_stateValue d"
    by (simp_all add: record_of_doc_def tx_record.defs)
  show ?thesis
    unfolding selects_def buildMongoFilter_def query_matches_simps
    by (cases "truthy (qf_machineId f)"; cases "truthy (qf_actorId f)"; cases "qf_transactionIds f";
        cases "qf_statuses f"; cases "qf_stuckBeforeTimestamp f"; cases "qf_olderThanTimestamp f";
        cases "qf_stateEquals f") (simp_all add: sel del: truthy_Some)
qed

lemma by_step_desc_rev: "stack_ok i es \<Longrightarrow> by_step_desc es = rev es"
  by (simp add: by_step_desc_def sort_seq_desc_rev)

lemma set_first_unique:
  assumes "distinct (map f xs)" "\<And>x. f (g x) = f x"
  shows "set_first (\<lambda>x. f x = n) g xs = map (\<lambda>x. if f x = n then g x else x) xs"
  using assms(1)
proof (induction xs)
  case (Cons x xs)
  have "map (\<lambda>y. if f y = n then g y else y) xs = xs" if "f x = n"
    using Cons.prems that by (intro map_idI) (metis distinct.simps(2) image_eqI list.set_map list.simps(9))
  then show ?case using Cons by auto
qed simp

lemma max_seq_mark [simp]: "max_seq (map (mark_entry q t) es) = max_seq es"
proof -
  have "ce_stepSeq \<circ> mark_entry q t = ce_stepSeq" by auto
  then show ?thesis by (cases es) (simp_all add: max_seq_def image_image)
qed

lemma max_seq_Max: "es \<noteq> [] \<Longrightarrow> max_seq es = Max (set (map ce_stepSeq es))"
  by (simp add: max_seq_def split: list.split)

lemma max_seq_append:
  assumes "stack_ok i es"
  shows "max_seq (es @ numbered i (max_seq es + 1) ns) = max_seq es + int (length ns)"
proof (cases ns rule: rev_cases)
  case (snoc ms m)
  have last: "numbered i k (ms @ [m]) = numbered i k ms @ [new_entry i (k + int (length ms)) m]" for k
    by (induction ms arbitrary: k) (simp_all add: algebra_simps)
  let ?x = "new_entry i (max_seq es + 1 + int (length ms)) m"
  let ?all = "es @ numbered i (max_seq es + 1) ns"
  have all: "?all = (es @ numbered i (max_seq es + 1) ms) @ [?x]" by (simp add: snoc last)
  have ok: "stack_ok i ?all" by (rule stack_ok_append [OF assms])
  have "ce_stepSeq e \<le> ce_stepSeq ?x" if "e \<in> set ?all" for e
    using ok that unfolding all stack_ok_def by (auto simp: sorted_wrt_append)
  moreover have "?x \<in> set ?all" unfolding all by simp
  ultimately have "Max (set (map ce_stepSeq ?all)) = ce_stepSeq ?x" by (intro Max_eqI) auto
  moreover have "?all \<noteq> []" unfolding all by simp
  ultimately have "max_seq ?all = ce_stepSeq ?x" using max_seq_Max by metis
  then show ?thesis by (simp add: new_entry_def snoc)
qed simp

lemma map_window: "map g (take_int a (drop_int b xs)) = take_int a (drop_int b (map g xs))"
  by (simp add: take_int_def drop_int_def take_map drop_map split: option.split)

lemma length_numbered [simp]: "length (numbered i k ns) = length ns"
  by (induction ns arbitrary: k) simp_all

context document_collection
begin

abbreviation (input) "ok \<equiv> mongo_ok valid docs"
abbreviation (input) "view \<equiv> mongo_txs docs"
abbreviation (input) "stacks \<equiv> mongo_comps docs"

lemma unchanged:
  assumes "ok s" "docs (mo_col s') = docs (mo_col s)" "valid (mo_col s')"
  shows "ok s' \<and> view s' = view s \<and> stacks s' = stacks s"
  using assms by (simp add: mongo_ok_def mongo_txs_def mongo_comps_def fun_eq_iff)

lemma one_replaced:
  assumes "ok s" "docs (mo_col s) i = Some d" "docs (mo_col s') = (docs (mo_col s))(i \<mapsto> d')"
    "valid (mo_col s')" "doc_ok d'"
  shows "ok s' \<and> view s' = (view s)(i \<mapsto> record_of_doc d') \<and>
    stacks s' = (stacks s)(i := md_compensationStack d')"
  using assms by (auto simp: mongo_ok_def mongo_txs_def mongo_comps_def fun_eq_iff)

lemma okD: "ok s \<Longrightarrow> valid (mo_col s)"
  by (simp add: mongo_ok_def)

lemma doc_okD: "ok s \<Longrightarrow> docs (mo_col s) i = Some d \<Longrightarrow>
    tx_transactionId d = i \<and> stack_ok i (md_compensationStack d) \<and>
    md_nextCompStepSeq d = Some (max_seq (md_compensationStack d) + 1)"
  by (frule (1) keyed [OF okD]) (auto simp: mongo_ok_def doc_ok_def)

lemma mongo_init: "ok s \<Longrightarrow> ok (mongo_initialize s) \<and> view (mongo_initialize s) = view s \<and>
    stacks (mongo_initialize s) = stacks s"
  by (rule unchanged) (simp_all add: mongo_initialize_def okD)

lemma mongo_create_new:
  assumes "ok s" "view s (tx_transactionId r) = None"
  shows "\<exists>s'. mongo_createTransaction col r s = (Inr (), s') \<and> ok s' \<and>
    view s' = (view s)(tx_transactionId r \<mapsto> r) \<and> stacks s' = stacks s"
proof -
  have id: "tx_transactionId (doc_of r) = tx_transactionId r" by (simp add: doc_of_def tx_record.defs)
  have n: "docs (mo_col s) (tx_transactionId (doc_of r)) = None" using assms(2) by (simp add: mongo_txs_def id)
  from insert_new [OF okD [OF assms(1)] n] obtain c where c: "co_insertOne col (doc_of r) (mo_col s) = (Inr (), c)"
    "valid c" "docs c = (docs (mo_col s))(tx_transactionId r \<mapsto> doc_of r)" unfolding id by blast
  have "doc_ok (doc_of r)" by (simp add: doc_ok_def doc_of_def tx_record.defs stack_ok_def max_seq_def)
  moreover have "md_compensationStack (doc_of r) = []" by (simp add: doc_of_def tx_record.defs)
  ultimately show ?thesis using c n assms(1)
    by (auto simp: mongo_createTransaction_def Let_def mongo_ok_def mongo_txs_def mongo_comps_def id fun_eq_iff)
qed

lemma mongo_create_old:
  assumes "ok s" "view s (tx_transactionId r) \<noteq> None"
  shows "\<exists>e s'. mongo_createTransaction col r s = (Inl e, s') \<and> ok s' \<and> view s' = view s \<and> stacks s' = stacks s"
proof -
  have "docs (mo_col s) (tx_transactionId (doc_of r)) \<noteq> None"
    using assms(2) by (simp add: mongo_txs_def doc_of_def tx_record.defs)
  from insert_duplicate [OF okD [OF assms(1)] this] obtain e c where
    "co_insertOne col (doc_of r) (mo_col s) = (Inl e, c)" "valid c" "docs c = docs (mo_col s)" by blast
  then show ?thesis using unchanged [OF assms(1), of "getCollection s\<lparr>mo_col := c\<rparr>"]
    by (simp add: mongo_createTransaction_def Let_def)
qed

lemma mongo_get:
  assumes "ok s"
  shows "\<exists>s'. mongo_getTransaction col i s =
      (Inr (map_option (\<lambda>r. snapshot_of r (rev (stacks s i))) (view s i)), s') \<and>
    ok s' \<and> view s' = view s \<and> stacks s' = stacks s"
  using unchanged [OF assms, of "getCollection s"] okD [OF assms] doc_okD [OF assms, of i] by_step_desc_rev [of i]
  by (auto simp: mongo_getTransaction_def Let_def find_by_id mongo_txs_def mongo_comps_def split: option.splits)

lemma mongo_stack:
  assumes "ok s"
  shows "\<exists>s'. mongo_getUncompensatedStack col i s = (Inr (rev (uncompensated (stacks s i))), s') \<and>
    ok s' \<and> view s' = view s \<and> stacks s' = stacks s"
  using unchanged [OF assms, of "getCollection s"] okD [OF assms] doc_okD [OF assms, of i]
    by_step_desc_rev [OF stack_ok_uncompensated, of i]
  by (auto simp: mongo_getUncompensatedStack_def Let_def find_by_id mongo_comps_def uncompensated_def
      split: option.splits)

lemma doc_ok_append:
  assumes "stack_ok (tx_transactionId d) (md_compensationStack d)"
    "md_nextCompStepSeq d = Some (max_seq (md_compensationStack d) + 1)"
    "n = (if ns = [] then None else Some (max_seq (md_compensationStack d) + 1 + int (length ns)))"
    "pre = numbered (tx_transactionId d) (max_seq (md_compensationStack d) + 1) ns"
  shows "doc_ok (apply_update (SetPush (to_set_doc p v n) pre) d)"
  using assms(2) stack_ok_append [OF assms(1), of ns] max_seq_append [OF assms(1), of ns]
  by (auto simp: doc_ok_def to_set_doc_def assms(3, 4) update_patch.defs)

lemma mongo_update_current:
  assumes "ok s" "view s i = Some r" "tx_version r = v"
  shows "\<exists>s' new. mongo_updateTransaction col i v p ns s = (Inr (v + 1), s') \<and> ok s' \<and>
    view s' = (view s)(i \<mapsto> apply_patch p (v + 1) r) \<and>
    stacks s' = (stacks s)(i := stacks s i @ new) \<and>
    map no_id new = numbered i (max_seq (stacks s i) + 1) ns"
proof -
  let ?c = "mo_col s"
  from assms(2) obtain d where d: "docs ?c i = Some d" "r = record_of_doc d" by (auto simp: mongo_txs_def)
  note k = doc_okD [OF assms(1) d(1)]
  have v: "tx_version d = v" using assms(3) d(2) by simp
  have st: "stacks s i = md_compensationStack d" using d by (simp add: mongo_comps_def)
  let ?n = "if ns = [] then None else Some (max_seq (md_compensationStack d) + 1 + int (length ns))"
  let ?pre = "numbered i (max_seq (md_compensationStack d) + 1) ns"
  let ?u = "SetPush (to_set_doc p (v + 1) ?n) ?pre"
  have hit: "query_matches [VersionIs v] d" using v by (simp add: query_matches_def)
  obtain c' where c': "co_updateOne col [IdIs i, VersionIs v] ?u ?c = (1, c')"
    "valid c'" "docs c' = (docs ?c)(i \<mapsto> apply_update ?u d)"
    by (rule update_by_id [OF okD [OF assms(1)], of i "[VersionIs v]" ?u]) (use d hit in auto)
  let ?s = "getCollection s\<lparr>mo_col := c'\<rparr>"
  have "mongo_updateTransaction col i v p ns s = (Inr (v + 1), ?s)"
    using d(1) v k c'(1) okD [OF assms(1)] by (auto simp: mongo_updateTransaction_def Let_def find_version)
  moreover have "doc_ok (apply_update ?u d)" by (rule doc_ok_append) (use k in simp_all)
  then have "ok ?s \<and> view ?s = (view s)(i \<mapsto> record_of_doc (apply_update ?u d)) \<and>
      stacks ?s = (stacks s)(i := md_compensationStack (apply_update ?u d))"
    by (intro one_replaced [OF assms(1) d(1)]) (simp_all add: c'(2, 3))
  ultimately show ?thesis by (intro exI [of _ ?s] exI [of _ ?pre]) (simp add: record_of_set_fields d(2) st)
qed

lemma mongo_update_stale:
  assumes "ok s" "\<forall>r. view s i = Some r \<longrightarrow> tx_version r \<noteq> v"
  shows "\<exists>s'. mongo_updateTransaction col i v p ns s = (Inl (StaleTransactionVersionError i v), s') \<and>
    ok s' \<and> view s' = view s \<and> stacks s' = stacks s"
proof -
  have miss: "tx_version d \<noteq> v" if "docs (mo_col s) i = Some d" for d
    using assms(2) that by (force simp: mongo_txs_def)
  have none: "co_findOne col [IdIs i, VersionIs v] (mo_col s) = None"
    using miss okD [OF assms(1)] by (auto simp: find_version split: option.splits)
  let ?u = "SetPush (to_set_doc p (v + 1) None) []"
  obtain c' where c': "co_updateOne col [IdIs i, VersionIs v] ?u (mo_col s) = (0, c')"
    "valid c'" "docs c' = docs (mo_col s)"
    by (rule update_by_id [OF okD [OF assms(1)], of i "[VersionIs v]" ?u])
      (use miss in \<open>auto simp: query_matches_def\<close>)
  show ?thesis
  proof (cases "ns = []")
    case True
    then show ?thesis using unchanged [OF assms(1), of "getCollection s\<lparr>mo_col := c'\<rparr>"] c'
      by (simp add: mongo_updateTransaction_def Let_def)
  next
    case False
    then show ?thesis using unchanged [OF assms(1), of "getCollection s"] okD [OF assms(1)] none
      by (simp add: mongo_updateTransaction_def Let_def)
  qed
qed

lemma marked_doc:
  assumes "stack_ok i es"
  shows "set_first (\<lambda>e. ce_stepSeq e = q) (\<lambda>e. e\<lparr>ce_compensatedAt := Some t\<rparr>) es = map (mark_entry q t) es"
  using set_first_unique [OF stack_ok_distinct [OF assms], of "\<lambda>e. e\<lparr>ce_compensatedAt := Some t\<rparr>" q]
  by (simp add: mark_entry_def [abs_def])

lemma mongo_mark:
  assumes "ok s"
  shows "\<exists>s'. mongo_markCompensationExecuted col i q t s = (Inr (), s') \<and> ok s' \<and> view s' = view s \<and>
    stacks s' = (stacks s)(i := map (mark_entry q t) (stacks s i))"
proof (rule update_by_id [OF okD [OF assms], of i "[StackHasStep q]" "SetCompensatedAt q t"])
  fix d c'
  assume d: "docs (mo_col s) i = Some d" and u: "co_updateOne col [IdIs i, StackHasStep q]
      (SetCompensatedAt q t) (mo_col s) = (1, c')"
    and v: "valid c'" and c': "docs c' = (docs (mo_col s))(i \<mapsto> apply_update (SetCompensatedAt q t) d)"
  note k = doc_okD [OF assms d]
  let ?d = "apply_update (SetCompensatedAt q t) d" and ?s = "getCollection s\<lparr>mo_col := c'\<rparr>"
  have d': "?d = d\<lparr>md_compensationStack := map (mark_entry q t) (md_compensationStack d)\<rparr>"
    using marked_doc [of i] k by simp
  have "doc_ok ?d" unfolding d' doc_ok_def using k by (simp add: stack_ok_mark)
  then have "ok ?s \<and> view ?s = (view s)(i \<mapsto> record_of_doc ?d) \<and>
      stacks ?s = (stacks s)(i := md_compensationStack ?d)"
    by (intro one_replaced [OF assms d]) (simp_all add: c' v)
  note one = this [unfolded d']
  moreover have "view s i = Some (record_of_doc d)" using d by (simp add: mongo_txs_def)
  moreover have "stacks s i = md_compensationStack d" using d by (simp add: mongo_comps_def)
  ultimately show ?thesis
    by (simp add: mongo_markCompensationExecuted_def Let_def u fun_upd_idem)
next
  fix c'
  assume m: "\<And>d. docs (mo_col s) i = Some d \<Longrightarrow> \<not> query_matches [StackHasStep q] d"
    and u: "co_updateOne col [IdIs i, StackHasStep q] (SetCompensatedAt q t) (mo_col s) = (0, c')"
    and v: "valid c'" and c': "docs c' = docs (mo_col s)"
  have "map (mark_entry q t) (stacks s i) = stacks s i"
  proof (rule map_idI)
    fix e assume "e \<in> set (stacks s i)"
    then obtain d where "docs (mo_col s) i = Some d" "e \<in> set (md_compensationStack d)"
      by (cases "docs (mo_col s) i") (auto simp: mongo_comps_def)
    then show "mark_entry q t e = e" using m [of d] by (auto simp: mark_entry_def)
  qed
  then show ?thesis using unchanged [OF assms, of "getCollection s\<lparr>mo_col := c'\<rparr>"] u c' v
    by (simp add: mongo_markCompensationExecuted_def Let_def fun_upd_idem)
qed

lemma matching_ids: "ok s \<Longrightarrow> card (matching [IdIn ids] (docs (mo_col s))) = card {i \<in> set ids. view s i \<noteq> None}"
proof (rule bij_betw_same_card [of tx_transactionId], rule bij_betw_imageI)
  assume ok: "ok s"
  note keyed = keyed [OF okD [OF ok]]
  show "inj_on tx_transactionId (matching [IdIn ids] (docs (mo_col s)))"
    by (rule matching_inj [OF okD [OF ok]])
  show "tx_transactionId ` matching [IdIn ids] (docs (mo_col s)) = {i \<in> set ids. view s i \<noteq> None}"
    using keyed by (force simp: matching_def query_matches_def mongo_txs_def image_iff)
qed

lemma mongo_delete_count:
  "ok s \<Longrightarrow> fst (mongo_deleteTransactions col ids s) = Inr (card {i \<in> set ids. view s i \<noteq> None})"
  using delete_many [OF okD, of s "[IdIn ids]"] matching_ids [of s ids]
  by (auto simp: mongo_deleteTransactions_def Let_def)

lemma mongo_delete:
  assumes "ok s"
  shows "\<exists>n s'. mongo_deleteTransactions col ids s = (Inr n, s') \<and> ok s' \<and>
    view s' = (view s) |` (- set ids) \<and> (\<forall>i. stacks s' i = (if i \<in> set ids then [] else stacks s i))"
proof (cases "ids = []")
  case True
  then show ?thesis using assms by (simp add: mongo_deleteTransactions_def restrict_map_def)
next
  case False
  obtain n c where c: "co_deleteMany col [IdIn ids] (mo_col s) = (n, c)"
    "valid c" "docs c = (\<lambda>i. case docs (mo_col s) i of Some d \<Rightarrow>
       if query_matches [IdIn ids] d then None else Some d | None \<Rightarrow> None)"
    using delete_many [OF okD [OF assms], of "[IdIn ids]"] by auto
  have "docs c i = (if i \<in> set ids then None else docs (mo_col s) i)" for i
    using keyed [OF okD [OF assms]] by (auto simp: c(3) query_matches_def split: option.splits)
  then have d: "docs c = (docs (mo_col s)) |` (- set ids)" by (simp add: restrict_map_def fun_eq_iff)
  show ?thesis using False assms c(1, 2)
    by (auto simp: mongo_deleteTransactions_def Let_def d mongo_ok_def mongo_txs_def mongo_comps_def
        restrict_map_def fun_eq_iff split: if_splits)
qed

lemma matching_selected: "ok s \<Longrightarrow> tx_transactionId ` matching (buildMongoFilter f) (docs (mo_col s)) =
    {i. \<exists>r. view s i = Some r \<and> selects f r}"
  using keyed [OF okD] by (force simp: matching_def mongo_txs_def selects_matches image_iff)

lemma mongo_count:
  assumes "ok s"
  shows "\<exists>n s'. mongo_countTransactions col f s = (Inr n, s') \<and> ok s' \<and> view s' = view s \<and>
    stacks s' = stacks s \<and> n = card {i. \<exists>r. view s i = Some r \<and> selects f r}"
proof -
  have "inj_on tx_transactionId (matching (buildMongoFilter f) (docs (mo_col s)))"
    by (rule matching_inj [OF okD [OF assms]])
  from card_image [OF this] show ?thesis using unchanged [OF assms, of "getCollection s"] okD [OF assms]
    by (simp add: mongo_countTransactions_def Let_def count_documents matching_selected assms)
qed

lemma skip_limit_sublist: "\<exists>n k. skip_limit a b xs = take n (drop k xs)"
proof (cases "b = None \<or> b = Some 0")
  case True
  then have "skip_limit a b xs = take (length xs) (drop (nat (or_else a 0)) xs)"
    by (auto simp: skip_limit_def)
  then show ?thesis by blast
next
  case False
  then obtain m where "skip_limit a b xs = take m (drop (nat (or_else a 0)) xs)"
    by (cases b) (auto simp: skip_limit_def Let_def)
  then show ?thesis by blast
qed

lemma mongo_query_rows:
  assumes "ok s"
  shows "\<exists>ds. mongo_queryTransactions col f now th s =
      (Inr (map (\<lambda>d. summary_of now th (md_compensationStack d) (record_of_doc d)) ds), getCollection s) \<and>
    distinct (map tx_transactionId ds) \<and> sorted (map tx_updatedAt ds) \<and>
    (\<forall>d \<in> set ds. docs (mo_col s) (tx_transactionId d) = Some d \<and> selects f (record_of_doc d)) \<and>
    (qf_offset f = None \<and> (\<forall>n. qf_limit f = Some n \<longrightarrow> n \<le> 0 \<or> int (length ds) < n) \<longrightarrow>
       (\<forall>i d. docs (mo_col s) i = Some d \<and> selects f (record_of_doc d) \<longrightarrow> d \<in> set ds))"
proof -
  let ?q = "buildMongoFilter f"
  let ?skip = "map_option (max 0) (qf_offset f)" and ?limit = "map_option (max 0) (qf_limit f)"
  obtain ds where ds: "distinct (map tx_transactionId ds)" "sorted (map tx_updatedAt ds)"
    "set ds = matching ?q (docs (mo_col s))"
    "co_findByUpdatedAt col ?q ?skip ?limit (mo_col s) = skip_limit ?skip ?limit ds"
    using find_sorted [OF okD [OF assms]] by blast
  let ?out = "skip_limit ?skip ?limit ds"
  obtain n k where cut: "?out = take n (drop k ds)" using skip_limit_sublist by blast
  have mem: "d \<in> set ds \<longleftrightarrow> docs (mo_col s) (tx_transactionId d) = Some d \<and> selects f (record_of_doc d)" for d
    unfolding ds(3) matching_def selects_matches using keyed [OF okD [OF assms]] by blast
  have "map tx_transactionId ?out = take n (drop k (map tx_transactionId ds))"
    "map tx_updatedAt ?out = take n (drop k (map tx_updatedAt ds))"
    by (simp_all add: cut take_map drop_map)
  then have "distinct (map tx_transactionId ?out)" "sorted (map tx_updatedAt ?out)"
    using ds(1, 2) by (simp_all add: sorted_wrt_take sorted_wrt_drop)
  moreover have "set ?out \<subseteq> set ds" unfolding cut by (meson order_trans set_drop_subset set_take_subset)
  moreover have "?out = ds" if "qf_offset f = None" "\<forall>n. qf_limit f = Some n \<longrightarrow> n \<le> 0 \<or> int (length ?out) < n"
    using that by (cases "qf_limit f") (auto simp: skip_limit_def Let_def max_def min_def split: if_splits)
  moreover have "docs (mo_col s) i = Some d \<Longrightarrow> tx_transactionId d = i" for i d
    by (rule keyed [OF okD [OF assms]])
  ultimately show ?thesis using ds(4) mem
    by (intro exI [of _ ?out]) (auto simp: mongo_queryTransactions_def Let_def)
qed

lemma mongo_query:
  assumes "ok s" "qf_offset f = None"
  shows "\<exists>xs s'. mongo_queryTransactions col f now th s = (Inr xs, s') \<and> ok s' \<and> view s' = view s \<and>
    stacks s' = stacks s \<and> distinct (map su_transactionId xs) \<and> sorted (map su_updatedAt xs) \<and>
    (\<forall>x \<in> set xs. \<exists>r. view s (su_transactionId x) = Some r \<and> selects f r \<and>
       x = summary_of now th (stacks s (su_transactionId x)) r) \<and>
    ((\<forall>n. qf_limit f = Some n \<longrightarrow> int (length xs) < n) \<longrightarrow>
       (\<forall>i r. view s i = Some r \<and> selects f r \<longrightarrow> i \<in> su_transactionId ` set xs))"
proof -
  let ?sum = "\<lambda>d. summary_of now th (md_compensationStack d) (record_of_doc d)"
  obtain ds where ds: "mongo_queryTransactions col f now th s = (Inr (map ?sum ds), getCollection s)"
    "distinct (map tx_transactionId ds)" "sorted (map tx_updatedAt ds)"
    "\<forall>d \<in> set ds. docs (mo_col s) (tx_transactionId d) = Some d \<and> selects f (record_of_doc d)"
    "\<forall>n. qf_limit f = Some n \<longrightarrow> n \<le> 0 \<or> int (length ds) < n \<Longrightarrow>
       \<forall>i d. docs (mo_col s) i = Some d \<and> selects f (record_of_doc d) \<longrightarrow> d \<in> set ds"
    using mongo_query_rows [OF assms(1), of f now th] assms(2) by blast
  have sel: "su_transactionId (?sum d) = tx_transactionId d" "su_updatedAt (?sum d) = tx_updatedAt d" for d
    by (simp_all add: summary_of_def)
  have "distinct (map su_transactionId (map ?sum ds))" "sorted (map su_updatedAt (map ?sum ds))"
    using ds(2, 3) by (simp_all add: comp_def sel)
  moreover have "\<exists>r. view s (su_transactionId x) = Some r \<and> selects f r \<and>
      x = summary_of now th (stacks s (su_transactionId x)) r" if "x \<in> set (map ?sum ds)" for x
    using that ds(4) by (auto simp: sel mongo_txs_def mongo_comps_def)
  moreover have "i \<in> su_transactionId ` set (map ?sum ds)"
    if "\<forall>n. qf_limit f = Some n \<longrightarrow> int (length (map ?sum ds)) < n" "view s i = Some r" "selects f r" for i r
  proof -
    from that(2) obtain d where d: "docs (mo_col s) i = Some d" "r = record_of_doc d" by (auto simp: mongo_txs_def)
    then have "d \<in> set ds" using ds(5) that(1, 3) by auto
    then show ?thesis using keyed [OF okD [OF assms(1)] d(1)]
      by (intro image_eqI [of _ _ "?sum d"]) (simp_all add: sel)
  qed
  ultimately show ?thesis using ds(1) unchanged [OF assms(1), of "getCollection s"] okD [OF assms(1)] by auto
qed

lemma skip_limit_window:
  "windowed f \<Longrightarrow> skip_limit (map_option (max 0) (qf_offset f)) (map_option (max 0) (qf_limit f)) xs =
     take_int (qf_limit f) (drop_int (qf_offset f) xs)"
  by (cases "qf_limit f"; cases "qf_offset f")
    (simp_all add: windowed_def skip_limit_def take_int_def drop_int_def Let_def max_def)

lemma mongo_query_window:
  assumes "ok s" "windowed f"
  shows "\<exists>rs s'. mongo_queryTransactions col f now th s =
      (Inr (map (\<lambda>r. summary_of now th (stacks s (tx_transactionId r)) r)
         (take_int (qf_limit f) (drop_int (qf_offset f) rs))), s') \<and>
    ok s' \<and> view s' = view s \<and> stacks s' = stacks s \<and>
    distinct rs \<and> sorted (map tx_updatedAt rs) \<and> set rs = {r. \<exists>i. view s i = Some r \<and> selects f r}"
proof -
  let ?q = "buildMongoFilter f"
  obtain ds where ds: "distinct (map tx_transactionId ds)" "sorted (map tx_updatedAt ds)"
    "set ds = matching ?q (docs (mo_col s))"
    "co_findByUpdatedAt col ?q (map_option (max 0) (qf_offset f)) (map_option (max 0) (qf_limit f)) (mo_col s) =
       take_int (qf_limit f) (drop_int (qf_offset f) ds)"
    using find_sorted [OF okD [OF assms(1)]] skip_limit_window [OF assms(2)] by metis
  have mem: "d \<in> set ds \<longleftrightarrow> docs (mo_col s) (tx_transactionId d) = Some d \<and> selects f (record_of_doc d)" for d
    unfolding ds(3) matching_def selects_matches using keyed [OF okD [OF assms(1)]] by blast
  let ?rs = "map record_of_doc ds"
  let ?sum = "\<lambda>r. summary_of now th (stacks s (tx_transactionId r)) r"
  have "map (\<lambda>d. summary_of now th (md_compensationStack d) (record_of_doc d)) ds = map ?sum ?rs"
    using mem by (auto simp: mongo_comps_def)
  then have "map (\<lambda>d. summary_of now th (md_compensationStack d) (record_of_doc d))
      (take_int (qf_limit f) (drop_int (qf_offset f) ds)) =
      map ?sum (take_int (qf_limit f) (drop_int (qf_offset f) ?rs))"
    by (simp only: map_window)
  then have "mongo_queryTransactions col f now th s =
      (Inr (map ?sum (take_int (qf_limit f) (drop_int (qf_offset f) ?rs))), getCollection s)"
    by (simp add: mongo_queryTransactions_def Let_def ds(4))
  note q = this
  have d: "distinct ?rs"
  proof -
    have "map tx_transactionId ?rs = map tx_transactionId ds" by simp
    with ds(1) show ?thesis by (metis distinct_map)
  qed
  have o: "sorted (map tx_updatedAt ?rs)" using ds(2) by (simp add: comp_def)
  have e: "set ?rs = {r. \<exists>i. view s i = Some r \<and> selects f r}"
  proof (intro set_eqI iffI)
    fix r assume "r \<in> set ?rs"
    then obtain d where "d \<in> set ds" "r = record_of_doc d" by auto
    then show "r \<in> {r. \<exists>i. view s i = Some r \<and> selects f r}"
      using mem [of d] by (auto simp: mongo_txs_def intro!: exI [of _ "tx_transactionId d"])
  next
    fix r assume "r \<in> {r. \<exists>i. view s i = Some r \<and> selects f r}"
    then obtain i d where d: "docs (mo_col s) i = Some d" "r = record_of_doc d" "selects f r"
      by (auto simp: mongo_txs_def)
    with keyed [OF okD [OF assms(1)] d(1)] mem [of d] show "r \<in> set ?rs" by auto
  qed
  have "ok (getCollection s) \<and> view (getCollection s) = view s \<and> stacks (getCollection s) = stacks s"
    using unchanged [OF assms(1), of "getCollection s"] okD [OF assms(1)] by simp
  with q d o e show ?thesis by blast
qed

text \<open>A limit of zero or less is no limit.\<close>

lemma mongo_limit_zero:
  assumes "ok s" "qf_offset f = None" "qf_limit f = Some n" "n \<le> 0" "view s i = Some r" "selects f r"
  shows "\<exists>xs. fst (mongo_queryTransactions col f now th s) = Inr xs \<and> i \<in> su_transactionId ` set xs"
proof -
  let ?sum = "\<lambda>d. summary_of now th (md_compensationStack d) (record_of_doc d)"
  obtain ds where ds: "mongo_queryTransactions col f now th s = (Inr (map ?sum ds), getCollection s)"
    "\<forall>i d. docs (mo_col s) i = Some d \<and> selects f (record_of_doc d) \<longrightarrow> d \<in> set ds"
    using mongo_query_rows [OF assms(1), of f now th] assms(2-4) by auto
  obtain d where d: "docs (mo_col s) i = Some d" "r = record_of_doc d" using assms(5) by (auto simp: mongo_txs_def)
  then have "d \<in> set ds" using ds(2) assms(6) by blast
  moreover have "su_transactionId (?sum d) = i"
    using keyed [OF okD [OF assms(1)] d(1)] by (simp add: summary_of_def)
  ultimately have "i \<in> su_transactionId ` set (map ?sum ds)" by force
  then show ?thesis using ds(1) by simp
qed

lemma mongo_query_any:
  assumes "ok s"
  shows "\<exists>r s'. mongo_queryTransactions col f now th s = (r, s') \<and> ok s' \<and> view s' = view s \<and>
    stacks s' = stacks s \<and>
    (\<forall>xs. r = Inr xs \<longrightarrow> (\<forall>x \<in> set xs. \<exists>t. view s (su_transactionId x) = Some t \<and> selects f t))"
proof -
  obtain ds where q: "mongo_queryTransactions col f now th s =
      (Inr (map (\<lambda>d. summary_of now th (md_compensationStack d) (record_of_doc d)) ds), getCollection s)"
    "\<forall>d \<in> set ds. docs (mo_col s) (tx_transactionId d) = Some d \<and> selects f (record_of_doc d)"
    using mongo_query_rows [OF assms, of f now th] by blast
  have "\<exists>t. view s (tx_transactionId d) = Some t \<and> selects f t" if "d \<in> set ds" for d
    using q(2) that by (auto simp: mongo_txs_def)
  then show ?thesis using unchanged [OF assms, of "getCollection s"] okD [OF assms] q(1)
    by (auto simp: summary_of_def)
qed

lemma mongo_ids: "ok s \<Longrightarrow> view s i = Some r \<Longrightarrow> tx_transactionId r = i"
  using keyed [OF okD] by (auto simp: mongo_txs_def)

lemma mongo_stacks: "ok s \<Longrightarrow> stack_ok i (stacks s i)"
  using doc_okD by (auto simp: mongo_comps_def stack_ok_def split: option.splits)

lemma mongo_orphans: "ok s \<Longrightarrow> view s i = None \<Longrightarrow> stacks s i = []"
  by (auto simp: mongo_txs_def mongo_comps_def)

lemma keeps_contract: "state_store (mongo_ops col) (mongo_ok valid docs) (mongo_txs docs) (mongo_comps docs)"
  by unfold_locales (unfold mongo_ops_def store_ops.select_convs,
    (rule mongo_init mongo_create_new mongo_create_old mongo_get mongo_update_current mongo_update_stale
       mongo_stack mongo_mark mongo_delete mongo_delete_count mongo_query mongo_query_window mongo_query_any mongo_count
       mongo_ids mongo_stacks mongo_orphans; assumption)+)

end

sublocale document_collection \<subseteq> mongo: state_store "mongo_ops col" "mongo_ok valid docs" "mongo_txs docs" "mongo_comps docs"
  by (rule keeps_contract)

section \<open>A collection in memory\<close>

text \<open>The laws hold of documents kept in a list in insertion order, with unique ids.\<close>

definition list_collection :: "mongo_doc list collection" where
  "list_collection = \<lparr>
     co_insertOne = (\<lambda>d c.
       if list_ex (\<lambda>d'. tx_transactionId d' = tx_transactionId d) c
       then (Inl (JsError ''E11000 duplicate key error''), c) else (Inr (), c @ [d])),
     co_findOne = (\<lambda>q c. case filter (query_matches q) c of [] \<Rightarrow> None | d # _ \<Rightarrow> Some d),
     co_updateOne = (\<lambda>q u c. (if list_ex (query_matches q) c then 1 else 0,
       set_first (query_matches q) (apply_update u) c)),
     co_countDocuments = (\<lambda>q c. length (filter (query_matches q) c)),
     co_findByUpdatedAt = (\<lambda>q skip limit c.
       skip_limit skip limit (sort_key tx_updatedAt (filter (query_matches q) c))),
     co_deleteMany = (\<lambda>q c. (length (filter (query_matches q) c), filter (\<lambda>d. \<not> query_matches q d) c))\<rparr>"

definition list_valid :: "mongo_doc list \<Rightarrow> bool" where
  "list_valid c \<longleftrightarrow> distinct (map tx_transactionId c)"

definition list_docs :: "mongo_doc list \<Rightarrow> string \<Rightarrow> mongo_doc option" where
  "list_docs c i = find (\<lambda>d. tx_transactionId d = i) c"

lemma apply_update_id [simp]: "tx_transactionId (apply_update u d) = tx_transactionId d"
  by (cases u) simp_all

lemma list_docs_Cons: "list_docs (d # c) i = (if tx_transactionId d = i then Some d else list_docs c i)"
  by (simp add: list_docs_def)

lemma list_docs_Nil [simp]: "list_docs [] i = None"
  by (simp add: list_docs_def)

lemma list_docs_None: "list_docs c i = None \<longleftrightarrow> i \<notin> tx_transactionId ` set c"
  by (induction c) (auto simp: list_docs_Cons)

lemma list_ex_docs: "list_ex (\<lambda>d. tx_transactionId d = i) c \<longleftrightarrow> list_docs c i \<noteq> None"
  by (induction c) (auto simp: list_docs_Cons)

lemma list_docs_mem: "list_valid c \<Longrightarrow> list_docs c i = Some d \<longleftrightarrow> d \<in> set c \<and> tx_transactionId d = i"
proof (induction c)
  case (Cons x c)
  then show ?case using image_eqI [of "tx_transactionId d" tx_transactionId d "set c"]
    by (auto simp: list_docs_Cons list_valid_def)
qed simp

lemma list_matching: "list_valid c \<Longrightarrow> matching q (list_docs c) = set (filter (query_matches q) c)"
  by (auto simp: matching_def list_docs_mem)

lemma list_ids_distinct: "list_valid c \<Longrightarrow> distinct (map tx_transactionId (filter p c))"
  by (simp add: list_valid_def distinct_map_filter)

lemma set_first_ids: "map tx_transactionId (set_first p (apply_update u) c) = map tx_transactionId c"
  by (induction c) auto

lemma set_first_docs:
  "list_valid c \<Longrightarrow> filter p c = d # ds \<Longrightarrow>
     list_docs (set_first p (apply_update u) c) = (list_docs c)(tx_transactionId d \<mapsto> apply_update u d)"
proof (induction c)
  case (Cons x c)
  show ?case
  proof (cases "p x")
    case True
    then show ?thesis using Cons.prems by (auto simp: list_docs_Cons fun_eq_iff)
  next
    case False
    then have f: "filter p c = d # ds" using Cons.prems by simp
    then have "d \<in> set c" using filter_eq_ConsD [OF f] by auto
    then have "tx_transactionId x \<noteq> tx_transactionId d" using Cons.prems(1) by (auto simp: list_valid_def)
    moreover have "list_valid c" using Cons.prems(1) by (simp add: list_valid_def)
    ultimately show ?thesis using Cons.IH f False by (auto simp: list_docs_Cons fun_eq_iff)
  qed
qed simp

lemma set_first_none: "\<not> list_ex p c \<Longrightarrow> set_first p f c = c"
  by (induction c) auto

lemma list_docs_filter:
  "list_valid c \<Longrightarrow> list_docs (filter (\<lambda>d. \<not> p d) c) =
     (\<lambda>i. case list_docs c i of Some d \<Rightarrow> if p d then None else Some d | None \<Rightarrow> None)"
proof (rule ext)
  fix i assume v: "list_valid c"
  then have v': "list_valid (filter (\<lambda>d. \<not> p d) c)" using list_ids_distinct by (simp add: list_valid_def)
  show "list_docs (filter (\<lambda>d. \<not> p d) c) i =
      (case list_docs c i of Some d \<Rightarrow> if p d then None else Some d | None \<Rightarrow> None)"
    using list_docs_mem [OF v, of i] list_docs_mem [OF v', of i] by (auto split: option.splits) (metis not_None_eq)+
qed

interpretation in_memory: document_collection list_collection list_valid list_docs
proof unfold_locales
  fix c i d q u and skip limit :: "int option" assume v: "list_valid c"
  show "list_docs c i = Some d \<Longrightarrow> tx_transactionId d = i" using list_docs_mem [OF v] by simp
  show "\<exists>c'. co_insertOne list_collection d c = (Inr (), c') \<and> list_valid c' \<and>
      list_docs c' = (list_docs c)(tx_transactionId d \<mapsto> d)" if n: "list_docs c (tx_transactionId d) = None"
  proof -
    have ne: "tx_transactionId d \<notin> tx_transactionId ` set c" using n by (simp add: list_docs_None)
    then have v': "list_valid (c @ [d])" using v by (simp add: list_valid_def)
    have "list_docs (c @ [d]) = (list_docs c)(tx_transactionId d \<mapsto> d)"
    proof
      fix j show "list_docs (c @ [d]) j = ((list_docs c)(tx_transactionId d \<mapsto> d)) j"
        using n by (induction c) (auto simp: list_docs_Cons split: if_splits)
    qed
    then show ?thesis using n v' by (simp add: list_collection_def list_ex_docs)
  qed
  show "list_docs c (tx_transactionId d) \<noteq> None \<Longrightarrow> \<exists>e c'. co_insertOne list_collection d c = (Inl e, c') \<and>
      list_valid c' \<and> list_docs c' = list_docs c"
    using v by (simp add: list_collection_def list_ex_docs del: not_None_eq)
  show "co_findOne list_collection q c = Some d \<Longrightarrow> d \<in> matching q (list_docs c)"
    unfolding list_matching [OF v] list_collection_def
    by (auto split: list.splits dest: filter_eq_ConsD)
  show "co_findOne list_collection q c = None \<Longrightarrow> matching q (list_docs c) = {}"
    unfolding list_matching [OF v] list_collection_def by (auto split: list.splits simp: filter_empty_conv)
  show "matching q (list_docs c) = {} \<Longrightarrow> \<exists>c'. co_updateOne list_collection q u c = (0, c') \<and>
      list_valid c' \<and> list_docs c' = list_docs c"
    unfolding list_matching [OF v] using v
    by (auto simp: list_collection_def set_first_none list_ex_iff filter_empty_conv)
  show "\<exists>d \<in> matching q (list_docs c). \<exists>c'. co_updateOne list_collection q u c = (1, c') \<and> list_valid c' \<and>
      list_docs c' = (list_docs c)(tx_transactionId d \<mapsto> apply_update u d)" if "matching q (list_docs c) \<noteq> {}"
  proof -
    have "filter (query_matches q) c \<noteq> []" using that unfolding list_matching [OF v] by (metis list.set(1))
    then obtain x xs where x: "filter (query_matches q) c = x # xs" by (cases "filter (query_matches q) c") auto
    have "list_ex (query_matches q) c" using x by (metis filter_False list.distinct(1) list_ex_iff)
    moreover have "list_valid (set_first (query_matches q) (apply_update u) c)"
      using v unfolding list_valid_def set_first_ids .
    ultimately show ?thesis unfolding list_matching [OF v] using set_first_docs [OF v x, of u] x
      by (intro bexI [of _ x]) (simp_all add: list_collection_def)
  qed
  show "co_countDocuments list_collection q c = card (matching q (list_docs c))"
    unfolding list_matching [OF v] using list_ids_distinct [OF v, of "query_matches q"]
    by (simp add: list_collection_def distinct_card distinct_map del: set_filter)
  show "\<exists>ds. distinct (map tx_transactionId ds) \<and> sorted (map tx_updatedAt ds) \<and>
      set ds = matching q (list_docs c) \<and>
      co_findByUpdatedAt list_collection q skip limit c = skip_limit skip limit ds"
    unfolding list_matching [OF v]
    using list_ids_distinct [OF v, of "query_matches q"]
    by (intro exI [of _ "sort_key tx_updatedAt (filter (query_matches q) c)"])
      (simp add: list_collection_def distinct_map)
  show "\<exists>c'. co_deleteMany list_collection q c = (card (matching q (list_docs c)), c') \<and> list_valid c' \<and>
      list_docs c' = (\<lambda>i. case list_docs c i of Some d \<Rightarrow> if query_matches q d then None else Some d | None \<Rightarrow> None)"
    unfolding list_matching [OF v]
    using list_ids_distinct [OF v, of "query_matches q"] list_ids_distinct [OF v, of "\<lambda>d. \<not> query_matches q d"]
      list_docs_filter [OF v, of "query_matches q"]
    by (simp add: list_collection_def list_valid_def distinct_card distinct_map del: set_filter)
qed

end
