(* ===== verification/PostgresStore.thy ===== *)
theory PostgresStore
  imports SqliteStore
begin

text \<open>
  The PostgreSQL driver of \<^verbatim>\<open>store/postgres-store.ts\<close>, its tables as rows in insertion order. A
  \<open>JSONB\<close> column does not keep the text it is given: the server stores a canonical form, which orders
  the keys of objects. The canonical forms of states and of context values are arguments (\<open>jsonb\<close>);
  the driver is then the SQLite driver on canonical values, except that it accepts an offset without
  a limit and returns the ids of entries as strings. The order in which the server finds the rows of
  a query, which decides on equal \<open>updated_at\<close>, is \<open>pg_scan\<close>.
\<close>

record jsonb =
  jb_state :: "state_value \<Rightarrow> state_value"
  jb_value :: "jval \<Rightarrow> jval"

section \<open>Tables\<close>

record postgres =
  pg_pool :: bool
  pg_ownsPool :: bool
  pg_initialized :: bool
  pg_txTable :: string
  pg_compTable :: string
  pg_transactions :: "tx_record list"
  pg_compensations :: "comp_entry list"
  pg_nextId :: int
  pg_scan :: "tx_record list \<Rightarrow> tx_record list"

definition prefix_char :: "char \<Rightarrow> bool" where
  "prefix_char c \<longleftrightarrow> c \<in> set ''abcdefghijklmnopqrstuvwxyzABCDEFGHIJKLMNOPQRSTUVWXYZ0123456789_''"

text \<open>
  The constructor; the rows and the next id are what the database holds under the table names.
\<close>

definition new_postgres ::
  "string option \<Rightarrow> bool \<Rightarrow> (string \<Rightarrow> tx_record list) \<Rightarrow> (string \<Rightarrow> comp_entry list) \<Rightarrow>
     (string \<Rightarrow> int) \<Rightarrow> (tx_record list \<Rightarrow> tx_record list) \<Rightarrow> js_error + postgres" where
  "new_postgres tablePrefix pool tx_rows comp_rows next_id scan =
     (let pre = or_else tablePrefix ''dfsm_'' in
      if pre = [] \<or> \<not> list_all prefix_char pre
      then Inl (JsError (''Invalid Postgres tablePrefix '' @ quoted pre))
      else let txTable = pre @ ''transactions''; compTable = pre @ ''compensation_stack'' in
        Inr \<lparr>pg_pool = pool, pg_ownsPool = (\<not> pool), pg_initialized = False, pg_txTable = txTable,
             pg_compTable = compTable, pg_transactions = tx_rows txTable,
             pg_compensations = comp_rows compTable, pg_nextId = next_id compTable, pg_scan = scan\<rparr>)"

definition pg_initialize :: "postgres \<Rightarrow> postgres" where
  "pg_initialize s = (if pg_initialized s then s else s\<lparr>pg_pool := True, pg_initialized := True\<rparr>)"

definition getPool :: "postgres \<Rightarrow> postgres" where
  "getPool s =
     (let s' = (if pg_pool s then s else s\<lparr>pg_pool := True\<rparr>) in
      if pg_initialized s' then s' else pg_initialize s')"

section \<open>Canonical forms\<close>

definition to_row :: "jsonb \<Rightarrow> tx_record \<Rightarrow> tx_record" where
  "to_row J r = r\<lparr>tx_stateValue := jb_state J (tx_stateValue r), tx_context := jb_value J (tx_context r),
     tx_activeStep := map_option (\<lambda>st. st\<lparr>as_input := map_option (jb_value J) (as_input st)\<rparr>)
       (tx_activeStep r)\<rparr>"

definition to_patch :: "jsonb \<Rightarrow> update_patch \<Rightarrow> update_patch" where
  "to_patch J p = p\<lparr>pt_stateValue := map_option (jb_state J) (pt_stateValue p),
     pt_context := map_option (jb_value J) (pt_context p),
     pt_activeStep := map_option (map_option (\<lambda>st. st\<lparr>as_input := map_option (jb_value J) (as_input st)\<rparr>))
       (pt_activeStep p)\<rparr>"

definition to_entry :: "jsonb \<Rightarrow> comp_new \<Rightarrow> comp_new" where
  "to_entry J n = n\<lparr>cn_fromState := jb_state J (cn_fromState n),
     cn_inputSnapshot := Some (jb_value J (or_else (cn_inputSnapshot n) JNull)),
     cn_contextBefore := jb_value J (cn_contextBefore n)\<rparr>"

definition to_filter :: "jsonb \<Rightarrow> query_filter \<Rightarrow> query_filter" where
  "to_filter J f = f\<lparr>qf_stateEquals := map_option (jb_state J) (qf_stateEquals f)\<rparr>"

section \<open>Operations\<close>

definition pg_createTransaction ::
  "jsonb \<Rightarrow> tx_record \<Rightarrow> postgres \<Rightarrow> (js_error + unit) \<times> postgres" where
  "pg_createTransaction J r s =
     (let db = getPool s in
      if list_ex (\<lambda>r'. tx_transactionId r' = tx_transactionId r) (pg_transactions db)
      then (Inl (JsError ''duplicate key value violates unique constraint''), db)
      else (Inr (), db\<lparr>pg_transactions := pg_transactions db @ [to_row J r]\<rparr>))"

definition order_by_step_desc :: "comp_entry list \<Rightarrow> comp_entry list" where
  "order_by_step_desc es = sort_key (\<lambda>e. - ce_stepSeq e) es"

text \<open>\<open>String(s.id)\<close>\<close>

definition text_id :: "comp_entry \<Rightarrow> comp_entry" where
  "text_id e = e\<lparr>ce_id := map_option (\<lambda>k. case k of RowNumber n \<Rightarrow> RowText (show_int n) | RowText t \<Rightarrow> RowText t)
     (ce_id e)\<rparr>"

definition pg_getTransaction :: "string \<Rightarrow> postgres \<Rightarrow> (js_error + tx_snapshot option) \<times> postgres" where
  "pg_getTransaction i s =
     (let db = getPool s in
      case filter (\<lambda>r. tx_transactionId r = i) (pg_transactions db) of
        [] \<Rightarrow> (Inr None, db)
      | row # _ \<Rightarrow>
          (Inr (Some (snapshot_of row (map text_id
             (order_by_step_desc (filter (\<lambda>e. ce_transactionId e = i) (pg_compensations db)))))), db))"

text \<open>
  The inserts of an update, in one transaction with it: the first that repeats a step number of its
  transaction fails, and everything is rolled back.
\<close>

fun insert_entries ::
  "string \<Rightarrow> int \<Rightarrow> int \<Rightarrow> comp_new list \<Rightarrow> comp_entry list \<Rightarrow> js_error + comp_entry list" where
  "insert_entries i nextId nextSeq [] rows = Inr rows"
| "insert_entries i nextId nextSeq (n # ns) rows =
     (if list_ex (\<lambda>e. ce_transactionId e = i \<and> ce_stepSeq e = nextSeq) rows
      then Inl (JsError ''duplicate key value violates unique constraint'')
      else insert_entries i (nextId + 1) (nextSeq + 1) ns
             (rows @ [(new_entry i nextSeq n)\<lparr>ce_id := Some (RowNumber nextId)\<rparr>]))"

definition pg_updateTransaction ::
  "jsonb \<Rightarrow> string \<Rightarrow> int \<Rightarrow> update_patch \<Rightarrow> comp_new list \<Rightarrow> postgres \<Rightarrow> (js_error + int) \<times> postgres" where
  "pg_updateTransaction J i expectedVersion p ns s =
     (let db = getPool s;
          nextVersion = expectedVersion + 1;
          hit = (\<lambda>r. tx_transactionId r = i \<and> tx_version r = expectedVersion);
          rowCount = length (filter hit (pg_transactions db));
          rows = map (\<lambda>r. if hit r then apply_patch (to_patch J p) nextVersion r else r) (pg_transactions db);
          max_step = max_seq (filter (\<lambda>e. ce_transactionId e = i) (pg_compensations db))
      in if rowCount \<noteq> 1 then (Inl (StaleTransactionVersionError i expectedVersion), db)
         else case insert_entries i (pg_nextId db) (max_step + 1) (map (to_entry J) ns) (pg_compensations db) of
                Inl e \<Rightarrow> (Inl e, db)
              | Inr comps \<Rightarrow> (Inr nextVersion, db\<lparr>pg_transactions := rows, pg_compensations := comps,
                    pg_nextId := pg_nextId db + int (length ns)\<rparr>))"

definition pg_getUncompensatedStack ::
  "string \<Rightarrow> postgres \<Rightarrow> (js_error + comp_entry list) \<times> postgres" where
  "pg_getUncompensatedStack i s =
     (let db = getPool s in
      (Inr (map text_id (order_by_step_desc (filter (\<lambda>e. ce_transactionId e = i \<and> ce_compensatedAt e = None)
         (pg_compensations db)))), db))"

definition pg_markCompensationExecuted ::
  "string \<Rightarrow> int \<Rightarrow> int \<Rightarrow> postgres \<Rightarrow> (js_error + unit) \<times> postgres" where
  "pg_markCompensationExecuted i stepSeq compensatedAt s =
     (let db = getPool s in
      (Inr (), db\<lparr>pg_compensations :=
         map (\<lambda>e. if ce_transactionId e = i \<and> ce_stepSeq e = stepSeq
                  then e\<lparr>ce_compensatedAt := Some compensatedAt\<rparr> else e) (pg_compensations db)\<rparr>))"

text \<open>The where clause as the list of its conditions.\<close>

definition buildWhereClause :: "jsonb \<Rightarrow> query_filter \<Rightarrow> (tx_record \<Rightarrow> bool) list" where
  "buildWhereClause J f =
     (case truthy (qf_machineId f) of Some m \<Rightarrow> [\<lambda>r. tx_machineId r = m] | None \<Rightarrow> []) @
     (case truthy (qf_actorId f) of Some a \<Rightarrow> [\<lambda>r. tx_actorId r = a] | None \<Rightarrow> []) @
     (case qf_transactionIds f of
        Some ids \<Rightarrow> if ids = [] then [] else [\<lambda>r. tx_transactionId r \<in> set ids] | None \<Rightarrow> []) @
     (case qf_statuses f of
        Some sts \<Rightarrow> if sts = [] then [] else [\<lambda>r. tx_status r \<in> set sts] | None \<Rightarrow> []) @
     (case qf_stuckBeforeTimestamp f of Some t \<Rightarrow> [\<lambda>r. tx_updatedAt r \<le> t] | None \<Rightarrow> []) @
     (case qf_olderThanTimestamp f of Some t \<Rightarrow> [\<lambda>r. tx_updatedAt r \<le> t] | None \<Rightarrow> []) @
     (case qf_stateEquals f of
        Some sv \<Rightarrow> [\<lambda>r. json_state (tx_stateValue r) = json_state (jb_state J sv)] | None \<Rightarrow> [])"

definition pg_where :: "jsonb \<Rightarrow> query_filter \<Rightarrow> tx_record \<Rightarrow> bool" where
  "pg_where J f r = list_all (\<lambda>c. c r) (buildWhereClause J f)"

definition pg_countTransactions ::
  "jsonb \<Rightarrow> query_filter \<Rightarrow> postgres \<Rightarrow> (js_error + nat) \<times> postgres" where
  "pg_countTransactions J f s =
     (let db = getPool s in (Inr (length (filter (pg_where J f) (pg_transactions db))), db))"

definition pg_queryTransactions ::
  "jsonb \<Rightarrow> query_filter \<Rightarrow> int \<Rightarrow> int \<Rightarrow> postgres \<Rightarrow> (js_error + tx_summary list) \<times> postgres" where
  "pg_queryTransactions J f nowTimestamp stuckThresholdMs s =
     (let db = getPool s in
      (Inr (map (\<lambda>r. summary_of nowTimestamp stuckThresholdMs
                  (filter (\<lambda>e. ce_transactionId e = tx_transactionId r) (pg_compensations db)) r)
            (take_int (qf_limit f) (drop_int (qf_offset f)
              (sort_key tx_updatedAt (pg_scan db (filter (pg_where J f) (pg_transactions db))))))), db))"

definition pg_deleteTransactions :: "string list \<Rightarrow> postgres \<Rightarrow> (js_error + nat) \<times> postgres" where
  "pg_deleteTransactions ids s =
     (if ids = [] then (Inr 0, s)
      else (let db = getPool s in
        (Inr (length (filter (\<lambda>r. tx_transactionId r \<in> set ids) (pg_transactions db))),
         db\<lparr>pg_transactions := filter (\<lambda>r. tx_transactionId r \<notin> set ids) (pg_transactions db),
            pg_compensations := filter (\<lambda>e. ce_transactionId e \<notin> set ids) (pg_compensations db)\<rparr>)))"

definition pg_close :: "postgres \<Rightarrow> postgres" where
  "pg_close s = (if pg_pool s \<and> pg_ownsPool s then s\<lparr>pg_pool := False\<rparr> else s)\<lparr>pg_initialized := False\<rparr>"

definition postgres_ops :: "jsonb \<Rightarrow> postgres store_ops" where
  "postgres_ops J = \<lparr>so_initialize = pg_initialize, so_createTransaction = pg_createTransaction J,
     so_getTransaction = pg_getTransaction, so_updateTransaction = pg_updateTransaction J,
     so_getUncompensatedStack = pg_getUncompensatedStack,
     so_markCompensationExecuted = pg_markCompensationExecuted,
     so_countTransactions = pg_countTransactions J, so_queryTransactions = pg_queryTransactions J,
     so_deleteTransactions = pg_deleteTransactions, so_close = pg_close\<rparr>"

end
