(* ===== verification/Drivers.thy ===== *)
theory Drivers
  imports SqliteStore MongoStore PostgresStore
begin

text \<open>
  The drivers against one abstract specification: a store is a map of records and a map of stacks
  (\<open>store_spec\<close>), a call is a value, and every driver that keeps the contract answers sequences of
  calls as the specification does. The SQLite and the MongoDB driver therefore agree, up to the ids
  SQLite gives the rows of the stack; the PostgreSQL driver agrees with SQLite on canonical JSON.
\<close>

section \<open>Calls and answers\<close>

datatype driver_call =
    Initialize
  | Create tx_record
  | Get string
  | Update string int update_patch "comp_new list"
  | Stack string
  | Mark string int int
  | Count query_filter
  | Query query_filter int int
  | Delete "string list"

text \<open>Errors of a database differ in their text only; the error of a stale version is the stores' own.\<close>

datatype store_answer =
    Done
  | Refused
  | Stale string int
  | Snapshot "tx_snapshot option"
  | Version int
  | Entries "comp_entry list"
  | Number nat
  | Rows "tx_summary list"

fun answer :: "('a \<Rightarrow> store_answer) \<Rightarrow> js_error + 'a \<Rightarrow> store_answer" where
  "answer f (Inr x) = f x"
| "answer f (Inl (StaleTransactionVersionError i v)) = Stale i v"
| "answer f (Inl e) = Refused"

fun store_perform :: "'s store_ops \<Rightarrow> driver_call \<Rightarrow> 's \<Rightarrow> store_answer \<times> 's" where
  "store_perform ops Initialize s = (Done, so_initialize ops s)"
| "store_perform ops (Create r) s = apfst (case_sum (\<lambda>_. Refused) (\<lambda>_. Done)) (so_createTransaction ops r s)"
| "store_perform ops (Get i) s = apfst (answer Snapshot) (so_getTransaction ops i s)"
| "store_perform ops (Update i v p ns) s = apfst (answer Version) (so_updateTransaction ops i v p ns s)"
| "store_perform ops (Stack i) s = apfst (answer Entries) (so_getUncompensatedStack ops i s)"
| "store_perform ops (Mark i q t) s = apfst (answer (\<lambda>_. Done)) (so_markCompensationExecuted ops i q t s)"
| "store_perform ops (Count f) s = apfst (answer Number) (so_countTransactions ops f s)"
| "store_perform ops (Query f now th) s = apfst (answer Rows) (so_queryTransactions ops f now th s)"
| "store_perform ops (Delete ids) s = apfst (answer Number) (so_deleteTransactions ops ids s)"

fun store_run :: "'s store_ops \<Rightarrow> driver_call list \<Rightarrow> 's \<Rightarrow> store_answer list \<times> 's" where
  "store_run ops [] s = ([], s)"
| "store_run ops (c # cs) s =
     (let (a, s') = store_perform ops c s in apfst ((#) a) (store_run ops cs s'))"

text \<open>The ids a database gives the entries of a stack are left out of the comparison.\<close>

fun without_ids :: "store_answer \<Rightarrow> store_answer" where
  "without_ids (Snapshot x) =
     Snapshot (map_option (\<lambda>x. x\<lparr>ts_compensationStack := map no_id (ts_compensationStack x)\<rparr>) x)"
| "without_ids (Entries es) = Entries (map no_id es)"
| "without_ids a = a"

text \<open>
  Rows with the same time stamp come in any order. A limit then decides which of them are in the
  answer, but the time stamps are the same.
\<close>

fun limited :: "driver_call \<Rightarrow> bool" where
  "limited (Query f now th) \<longleftrightarrow> qf_limit f \<noteq> None"
| "limited c \<longleftrightarrow> False"

definition same_rows :: "bool \<Rightarrow> tx_summary list \<Rightarrow> tx_summary list \<Rightarrow> bool" where
  "same_rows partly xs ys \<longleftrightarrow> map su_updatedAt xs = map su_updatedAt ys \<and> (partly \<or> mset xs = mset ys)"

fun same_answer :: "driver_call \<Rightarrow> store_answer \<Rightarrow> store_answer \<Rightarrow> bool" where
  "same_answer c (Rows xs) (Rows ys) \<longleftrightarrow> same_rows (limited c) xs ys"
| "same_answer c a b \<longleftrightarrow> without_ids a = without_ids b"

fun answers_agree ::
  "(driver_call \<Rightarrow> store_answer \<Rightarrow> store_answer \<Rightarrow> bool) \<Rightarrow>
     driver_call list \<Rightarrow> store_answer list \<Rightarrow> store_answer list \<Rightarrow> bool" where
  "answers_agree P [] as bs \<longleftrightarrow> as = [] \<and> bs = []"
| "answers_agree P (c # cs) (a # as) (b # bs) \<longleftrightarrow> P c a b \<and> answers_agree P cs as bs"
| "answers_agree P (c # cs) as bs \<longleftrightarrow> False"

section \<open>The specification\<close>

record store_view =
  sv_txs :: "string \<Rightarrow> tx_record option"
  sv_comps :: "string \<Rightarrow> comp_entry list"

definition selected :: "query_filter \<Rightarrow> store_view \<Rightarrow> tx_record set" where
  "selected f s = {r. \<exists>i. sv_txs s i = Some r \<and> selects f r}"

definition windowed_rows :: "query_filter \<Rightarrow> (tx_record \<Rightarrow> tx_summary) \<Rightarrow> tx_record list \<Rightarrow> tx_summary list" where
  "windowed_rows f g rs = map g (take_int (qf_limit f) (drop_int (qf_offset f) rs))"

definition spec_answers :: "store_view \<Rightarrow> driver_call \<Rightarrow> store_answer \<Rightarrow> bool" where
  "spec_answers s c a =
     (case c of
        Initialize \<Rightarrow> a = Done
      | Create r \<Rightarrow> a = (if sv_txs s (tx_transactionId r) = None then Done else Refused)
      | Get i \<Rightarrow> a = Snapshot (map_option (\<lambda>r. snapshot_of r (rev (sv_comps s i))) (sv_txs s i))
      | Update i v p ns \<Rightarrow>
          a = (case sv_txs s i of None \<Rightarrow> Stale i v
               | Some r \<Rightarrow> if tx_version r = v then Version (v + 1) else Stale i v)
      | Stack i \<Rightarrow> a = Entries (rev (uncompensated (sv_comps s i)))
      | Mark i q t \<Rightarrow> a = Done
      | Count f \<Rightarrow> a = Number (card {i. \<exists>r. sv_txs s i = Some r \<and> selects f r})
      | Query f now th \<Rightarrow>
          (\<exists>rs. a = Rows (windowed_rows f (\<lambda>r. summary_of now th (sv_comps s (tx_transactionId r)) r) rs) \<and>
             distinct rs \<and> sorted (map tx_updatedAt rs) \<and> set rs = selected f s)
      | Delete ids \<Rightarrow> a = Number (card {i \<in> set ids. sv_txs s i \<noteq> None}))"

definition spec_after :: "store_view \<Rightarrow> driver_call \<Rightarrow> store_view" where
  "spec_after s c =
     (case c of
        Create r \<Rightarrow> (if sv_txs s (tx_transactionId r) = None
          then s\<lparr>sv_txs := (sv_txs s)(tx_transactionId r \<mapsto> r)\<rparr> else s)
      | Update i v p ns \<Rightarrow>
          (case sv_txs s i of None \<Rightarrow> s
           | Some r \<Rightarrow> if tx_version r = v
               then s\<lparr>sv_txs := (sv_txs s)(i \<mapsto> apply_patch p (v + 1) r),
                 sv_comps := (sv_comps s)(i := sv_comps s i @ numbered i (max_seq (sv_comps s i) + 1) ns)\<rparr>
               else s)
      | Mark i q t \<Rightarrow> s\<lparr>sv_comps := (sv_comps s)(i := map (mark_entry q t) (sv_comps s i))\<rparr>
      | Delete ids \<Rightarrow> s\<lparr>sv_txs := (sv_txs s) |` (- set ids),
          sv_comps := (\<lambda>i. if i \<in> set ids then [] else sv_comps s i)\<rparr>
      | _ \<Rightarrow> s)"

fun spec_run :: "store_view \<Rightarrow> driver_call list \<Rightarrow> store_answer list \<Rightarrow> bool" where
  "spec_run s [] as \<longleftrightarrow> as = []"
| "spec_run s (c # cs) as \<longleftrightarrow> (\<exists>a as'. as = a # as' \<and> spec_answers s c (without_ids a) \<and> spec_run (spec_after s c) cs as')"

text \<open>The queries both kinds of driver answer alike: a limit, if there is one, is positive, and there is no
  offset without a limit.\<close>

fun comparable :: "driver_call \<Rightarrow> bool" where
  "comparable (Query f now th) \<longleftrightarrow> windowed f"
| "comparable c \<longleftrightarrow> True"

lemma same_times:
  assumes "mset rs = mset rs'" "sorted (map tx_updatedAt rs)" "sorted (map tx_updatedAt rs')"
  shows "map tx_updatedAt rs = map tx_updatedAt rs'"
proof -
  from assms(1) have "mset (map tx_updatedAt rs) = mset (map tx_updatedAt rs')" by simp
  with assms(2, 3) show ?thesis by (metis properties_for_sort sorted_sort_id)
qed

lemma windowed_same:
  assumes "\<And>r. su_updatedAt (g r) = tx_updatedAt r"
    and "mset rs = mset rs'" "sorted (map tx_updatedAt rs)" "sorted (map tx_updatedAt rs')"
    and "qf_limit f = None \<Longrightarrow> qf_offset f = None"
  shows "same_rows (qf_limit f \<noteq> None) (windowed_rows f g rs) (windowed_rows f g rs')"
proof -
  have w: "map su_updatedAt (windowed_rows f g xs) = take_int (qf_limit f) (drop_int (qf_offset f) (map tx_updatedAt xs))"
    for xs by (simp add: windowed_rows_def comp_def assms(1) flip: map_window)
  have "mset (windowed_rows f g rs) = mset (windowed_rows f g rs')" if "qf_limit f = None"
    using assms(2, 5) that by (simp add: windowed_rows_def take_int_def drop_int_def)
  then show ?thesis
    unfolding same_rows_def w using same_times [OF assms(2-4)] by auto
qed

lemma spec_deterministic:
  assumes "spec_answers s c (without_ids a)" "spec_answers s c (without_ids b)" "comparable c"
  shows "same_answer c a b"
proof (cases "\<exists>f now th. c = Query f now th")
  case True
  then obtain f now th where c: "c = Query f now th" by blast
  let ?g = "\<lambda>r. summary_of now th (sv_comps s (tx_transactionId r)) r"
  have rows: "x = Rows xs" if "without_ids x = Rows xs" for x xs using that by (cases x) simp_all
  from assms(1, 2) c obtain rs rs' where rs: "a = Rows (windowed_rows f ?g rs)" "b = Rows (windowed_rows f ?g rs')"
    "distinct rs" "distinct rs'" "sorted (map tx_updatedAt rs)" "sorted (map tx_updatedAt rs')" "set rs = set rs'"
    by (auto simp: spec_answers_def dest!: rows)
  have "same_rows (qf_limit f \<noteq> None) (windowed_rows f ?g rs) (windowed_rows f ?g rs')"
  proof (rule windowed_same)
    show "mset rs = mset rs'" using rs(3, 4, 7) by (simp add: set_eq_iff_mset_eq_distinct)
    show "qf_offset f = None" if "qf_limit f = None" using assms(3) c that by (simp add: windowed_def)
  qed (use rs in \<open>simp_all add: summary_of_def\<close>)
  then show ?thesis by (simp add: rs c)
next
  case False
  with assms have "without_ids a = without_ids b" by (cases c) (auto simp: spec_answers_def)
  moreover have "a = Rows xs \<Longrightarrow> \<not> spec_answers s c (without_ids a)" for xs
    using False by (cases c) (auto simp: spec_answers_def split: option.splits)
  ultimately show ?thesis using assms(1) by (cases a) (cases b; simp)+
qed

lemma spec_runs_agree:
  "spec_run s cs as \<Longrightarrow> spec_run s cs bs \<Longrightarrow> list_all comparable cs \<Longrightarrow> answers_agree same_answer cs as bs"
  by (induction cs arbitrary: s as bs) (auto intro: spec_deterministic)

section \<open>A driver that keeps the contract meets the specification\<close>

lemma strip_snapshot:
  "(snapshot_of r es)\<lparr>ts_compensationStack := map no_id (ts_compensationStack (snapshot_of r es))\<rparr> =
     snapshot_of r (map no_id es)"
  by (simp add: snapshot_of_def tx_record.extend_def)

lemma uncompensated_no_id [simp]: "uncompensated (map no_id es) = map no_id (uncompensated es)"
  by (induction es) (simp_all add: uncompensated_def)

lemma max_seq_no_id [simp]: "max_seq (map no_id es) = max_seq es"
  by (cases es) (simp_all add: max_seq_def comp_def image_image)

lemma mark_no_id [simp]: "no_id (mark_entry q t e) = mark_entry q t (no_id e)"
  by (simp add: mark_entry_def no_id_def)

lemma summary_no_id [simp]: "summary_of now th (map no_id es) r = summary_of now th es r"
  by (simp add: summary_of_def)

context state_store
begin

definition view :: "'s \<Rightarrow> store_view" where
  "view s = \<lparr>sv_txs = txs s, sv_comps = (\<lambda>i. map no_id (comps s i))\<rparr>"

lemma view_cong: "txs s' = txs s \<Longrightarrow> comps s' = comps s \<Longrightarrow> view s' = view s"
  by (simp add: view_def)

lemma perform_meets_spec:
  assumes "ok s" "comparable c"
  shows "\<exists>a s'. store_perform ops c s = (a, s') \<and> ok s' \<and> spec_answers (view s) c (without_ids a) \<and>
    view s' = spec_after (view s) c"
proof (cases c)
  case Initialize
  then show ?thesis using initialize [OF assms(1)] by (simp add: spec_answers_def spec_after_def view_def)
next
  case (Create r)
  show ?thesis
  proof (cases "txs s (tx_transactionId r)")
    case None
    with create_new [OF assms(1) None] Create show ?thesis
      by (auto simp: spec_answers_def spec_after_def view_def)
  next
    case (Some r')
    with create_old [OF assms(1), of r] Create show ?thesis
      by (auto simp: spec_answers_def spec_after_def view_def)
  qed
next
  case (Get i)
  then show ?thesis using get [OF assms(1), of i]
    by (auto simp: spec_answers_def spec_after_def view_def strip_snapshot option.map_comp comp_def rev_map)
next
  case (Update i v p ns)
  show ?thesis
  proof (cases "\<exists>r. txs s i = Some r \<and> tx_version r = v")
    case True
    then obtain r where r: "txs s i = Some r" "tx_version r = v" by blast
    from update_current [OF assms(1) r, of p ns] Update r show ?thesis
      by (auto simp: spec_answers_def spec_after_def view_def fun_eq_iff)
  next
    case False
    then have "\<forall>r. txs s i = Some r \<longrightarrow> tx_version r \<noteq> v" by blast
    from update_stale [OF assms(1) this, of p ns] Update False show ?thesis
      by (auto simp: spec_answers_def spec_after_def view_def split: option.splits)
  qed
next
  case (Stack i)
  then show ?thesis using stack [OF assms(1), of i]
    by (auto simp: spec_answers_def spec_after_def view_def rev_map)
next
  case (Mark i q t)
  then show ?thesis using mark [OF assms(1), of i q t] by (auto simp: spec_answers_def spec_after_def view_def fun_eq_iff)
next
  case (Count f)
  then show ?thesis using count [OF assms(1), of f] by (auto simp: spec_answers_def spec_after_def view_def)
next
  case (Query f now th)
  with assms(2) have "windowed f" by simp
  from query_window [OF assms(1) this, of now th] obtain rs s' where q:
    "so_queryTransactions ops f now th s =
       (Inr (windowed_rows f (\<lambda>r. summary_of now th (comps s (tx_transactionId r)) r) rs), s')"
    "ok s'" "txs s' = txs s" "comps s' = comps s" "distinct rs" "sorted (map tx_updatedAt rs)"
    "set rs = {r. \<exists>i. txs s i = Some r \<and> selects f r}" unfolding windowed_rows_def by blast
  let ?rows = "Rows (windowed_rows f (\<lambda>r. summary_of now th (comps s (tx_transactionId r)) r) rs)"
  have "set rs = selected f (view s)" unfolding q(7) by (simp add: selected_def view_def)
  moreover have "windowed_rows f (\<lambda>r. summary_of now th (sv_comps (view s) (tx_transactionId r)) r) rs =
      windowed_rows f (\<lambda>r. summary_of now th (comps s (tx_transactionId r)) r) rs" by (simp add: view_def)
  ultimately have "spec_answers (view s) c ?rows"
    unfolding Query spec_answers_def driver_call.case using q(5, 6) by (intro exI [of _ rs]) simp
  moreover have "store_perform ops c s = (?rows, s')" using q(1) by (simp add: Query)
  moreover have "view s' = spec_after (view s) c"
    using view_cong [OF q(3, 4)] by (simp add: Query spec_after_def)
  ultimately show ?thesis using q(2) by simp
next
  case (Delete ids)
  obtain n s' where d: "so_deleteTransactions ops ids s = (Inr n, s')" "ok s'"
    "txs s' = (txs s) |` (- set ids)" "\<forall>i. comps s' i = (if i \<in> set ids then [] else comps s i)"
    using delete [OF assms(1), of ids] by auto
  moreover have "n = card {i \<in> set ids. txs s i \<noteq> None}" using delete_count [OF assms(1), of ids] d(1) by simp
  ultimately show ?thesis using Delete by (auto simp: spec_answers_def spec_after_def view_def fun_eq_iff)
qed

lemma run_meets_spec:
  assumes "ok s" "list_all comparable cs"
  shows "spec_run (view s) cs (fst (store_run ops cs s)) \<and> ok (snd (store_run ops cs s))"
  using assms
proof (induction cs arbitrary: s)
  case (Cons c cs)
  then have "comparable c" "list_all comparable cs" by simp_all
  with perform_meets_spec [OF Cons.prems(1)] obtain a s' where
    a: "store_perform ops c s = (a, s')" "ok s'" "spec_answers (view s) c (without_ids a)" "view s' = spec_after (view s) c"
    by blast
  show ?case using Cons.IH [OF a(2) \<open>list_all comparable cs\<close>] a by simp
qed simp

end

text \<open>Any two drivers that keep the contract agree, from stores that hold the same.\<close>

lemma contracts_agree:
  assumes "state_store ops ok txs comps" "state_store ops' ok' txs' comps'"
    and "ok s" "ok' s'" "txs s = txs' s'" "\<And>i. map no_id (comps s i) = map no_id (comps' s' i)"
    and "list_all comparable cs"
  shows "answers_agree same_answer cs (fst (store_run ops cs s)) (fst (store_run ops' cs s'))"
proof -
  have "state_store.view txs comps s = state_store.view txs' comps' s'"
    using assms(5, 6) by (simp add: state_store.view_def [OF assms(1)] state_store.view_def [OF assms(2)])
  then show ?thesis
    using state_store.run_meets_spec [OF assms(1, 3, 7)] state_store.run_meets_spec [OF assms(2, 4, 7)]
    using assms(7) by (auto intro: spec_runs_agree)
qed

section \<open>Reading what was written\<close>

lemma numbered_nth:
  "j < length ns \<Longrightarrow> numbered i k ns ! j = new_entry i (k + int j) (ns ! j)"
  by (induction ns arbitrary: j k) (auto simp: nth_Cons add.assoc split: nat.split)

text \<open>The number of the last step of a stack as it is read, latest first.\<close>

definition last_step :: "comp_entry list \<Rightarrow> int" where
  "last_step stk = (case stk of [] \<Rightarrow> 0 | e # es \<Rightarrow> ce_stepSeq e)"

lemma last_step_rev:
  assumes "stack_ok i es"
  shows "last_step (rev es) = max_seq es"
proof (cases es rule: rev_cases)
  case (snoc xs e)
  have "ce_stepSeq x \<le> ce_stepSeq e" if "x \<in> set es" for x
    using assms that by (auto simp: snoc stack_ok_def sorted_wrt_append)
  then have "Max (set (map ce_stepSeq es)) = ce_stepSeq e"
    by (intro Max_eqI) (auto simp: snoc)
  moreover have "max_seq es = Max (set (map ce_stepSeq es))" by (cases es) (simp_all add: max_seq_def snoc)
  ultimately show ?thesis by (simp add: last_step_def snoc)
qed (simp add: last_step_def max_seq_def)

context state_store
begin

lemma read_update_read:
  assumes "ok s" "so_getTransaction ops i s = (Inr (Some x), s0)"
    and "so_updateTransaction ops i v p ns s0 = (Inr w, s1)"
  shows "\<exists>y s2 new. so_getTransaction ops i s1 = (Inr (Some y), s2) \<and> tx_version x = v \<and> w = v + 1 \<and>
    y = snapshot_of (apply_patch p w (tx_record.truncate x)) (rev new @ ts_compensationStack x) \<and>
    map no_id new = numbered i (last_step (ts_compensationStack x) + 1) ns"
proof -
  from get [OF assms(1), of i] assms(2) obtain r where s0: "ok s0" "txs s0 = txs s" "comps s0 = comps s"
    and r: "txs s i = Some r" "x = snapshot_of r (rev (comps s i))" by (cases "txs s i") auto
  show ?thesis
  proof (rule update_cases [OF s0(1), of i v p ns])
    fix r' s' new
    assume u: "txs s0 i = Some r'" "tx_version r' = v"
      "so_updateTransaction ops i v p ns s0 = (Inr (v + 1), s')" "ok s'"
      "txs s' = (txs s0)(i \<mapsto> apply_patch p (v + 1) r')" "comps s' = (comps s0)(i := comps s0 i @ new)"
      "map no_id new = numbered i (max_seq (comps s0 i) + 1) ns"
    have x: "tx_record.truncate x = r" "ts_compensationStack x = rev (comps s i)" "tx_version x = tx_version r"
      by (simp_all add: r(2) snapshot_of_def tx_record.defs)
    have l: "last_step (ts_compensationStack x) = max_seq (comps s i)"
      unfolding x by (rule last_step_rev [OF stacks [OF assms(1)]])
    from get [OF u(4), of i] obtain s2 where
      "so_getTransaction ops i s' = (Inr (Some (snapshot_of (apply_patch p (v + 1) r) (rev new @ rev (comps s i)))), s2)"
      using u s0 r(1) by auto
    then show ?thesis using u s0 r(1) assms(3) x l by (intro exI [of _ "snapshot_of (apply_patch p (v + 1) r) (rev new @ rev (comps s i))"] exI [of _ s2] exI [of _ new]) auto
  next
    fix s' assume "so_updateTransaction ops i v p ns s0 = (Inl (StaleTransactionVersionError i v), s')"
    then show ?thesis using assms(3) by simp
  qed
qed

end

section \<open>PostgreSQL\<close>

text \<open>A SQLite database with the same rows, whose engine finds them in an order of its own.\<close>

definition as_sqlite :: "(tx_record list \<Rightarrow> tx_record list) \<Rightarrow> postgres \<Rightarrow> sqlite" where
  "as_sqlite scan s = \<lparr>sq_memory = False, sq_open = True, sq_transactions = pg_transactions s,
     sq_compensations = pg_compensations s, sq_nextId = pg_nextId s, sq_scan = scan\<rparr>"

fun canonical_call :: "jsonb \<Rightarrow> driver_call \<Rightarrow> driver_call" where
  "canonical_call J (Create r) = Create (to_row J r)"
| "canonical_call J (Update i v p ns) = Update i v (to_patch J p) (map (to_entry J) ns)"
| "canonical_call J (Count f) = Count (to_filter J f)"
| "canonical_call J (Query f now th) = Query (to_filter J f) now th"
| "canonical_call J c = c"

text \<open>
  How an answer of the PostgreSQL driver and one of SQLite compare: ids of entries are strings in the
  first and numbers in the second; SQLite does not accept an offset without a limit; rows with the
  same time stamp come in any order.
\<close>

fun text_ids :: "store_answer \<Rightarrow> store_answer" where
  "text_ids (Snapshot x) =
     Snapshot (map_option (\<lambda>x. x\<lparr>ts_compensationStack := map text_id (ts_compensationStack x)\<rparr>) x)"
| "text_ids (Entries es) = Entries (map text_id es)"
| "text_ids a = a"

fun pg_agrees :: "driver_call \<Rightarrow> store_answer \<Rightarrow> store_answer \<Rightarrow> bool" where
  "pg_agrees (Query f now th) (Rows xs) b \<longleftrightarrow>
     (if qf_limit f = None \<and> qf_offset f \<noteq> None then b = Refused
      else case b of Rows ys \<Rightarrow> same_rows (qf_limit f \<noteq> None) xs ys | _ \<Rightarrow> False)"
| "pg_agrees c a b \<longleftrightarrow> a = text_ids b"

lemma getPool_rows [simp]:
  "pg_transactions (getPool s) = pg_transactions s" "pg_compensations (getPool s) = pg_compensations s"
  "pg_nextId (getPool s) = pg_nextId s" "pg_scan (getPool s) = pg_scan s"
  by (simp_all add: getPool_def pg_initialize_def Let_def)

lemma as_sqlite_getPool [simp]: "as_sqlite scan (getPool s) = as_sqlite scan s"
  by (simp add: as_sqlite_def)

lemma ensureDb_as_sqlite [simp]: "ensureDb (as_sqlite scan s) = as_sqlite scan s"
  by (simp add: ensureDb_def as_sqlite_def)

lemma as_sqlite_sel [simp]:
  "sq_transactions (as_sqlite scan s) = pg_transactions s" "sq_compensations (as_sqlite scan s) = pg_compensations s"
  "sq_nextId (as_sqlite scan s) = pg_nextId s" "sq_scan (as_sqlite scan s) = scan"
  by (simp_all add: as_sqlite_def)

lemma as_sqlite_update [simp]:
  "as_sqlite scan (getPool s\<lparr>pg_transactions := ts\<rparr>) = as_sqlite scan s\<lparr>sq_transactions := ts\<rparr>"
  "as_sqlite scan (getPool s\<lparr>pg_compensations := es\<rparr>) = as_sqlite scan s\<lparr>sq_compensations := es\<rparr>"
  "as_sqlite scan (getPool s\<lparr>pg_transactions := ts, pg_compensations := es\<rparr>) =
     as_sqlite scan s\<lparr>sq_transactions := ts, sq_compensations := es\<rparr>"
  "as_sqlite scan (getPool s\<lparr>pg_transactions := ts, pg_compensations := es, pg_nextId := k\<rparr>) =
     as_sqlite scan s\<lparr>sq_transactions := ts, sq_compensations := es, sq_nextId := k\<rparr>"
  by (simp_all add: as_sqlite_def)

lemma pg_scan_kept: "pg_scan (snd (store_perform (postgres_ops J) c s)) = pg_scan s"
  by (cases c) (auto simp: postgres_ops_def pg_initialize_def pg_createTransaction_def pg_getTransaction_def
      pg_updateTransaction_def pg_getUncompensatedStack_def pg_markCompensationExecuted_def
      pg_countTransactions_def pg_queryTransactions_def pg_deleteTransactions_def Let_def
      split: list.splits sum.splits)

lemma to_row_sel [simp]: "tx_transactionId (to_row J r) = tx_transactionId r"
  by (simp add: to_row_def)

lemma list_ex_row: "list_ex (\<lambda>r. tx_transactionId r = i) rs \<longleftrightarrow> row_of i rs \<noteq> None"
  by (induction rs) (auto simp: row_of_Cons)

lemma pg_where_selects: "pg_where J f = selects (to_filter J f)"
proof
  fix r
  have "pg_where J f r \<longleftrightarrow> list_all (\<lambda>c. c r) (buildWhereClause J f)" by (simp add: pg_where_def)
  also have "\<dots> \<longleftrightarrow> selects (to_filter J f) r"
    unfolding buildWhereClause_def selects_def to_filter_def
    by (cases "truthy (qf_machineId f)"; cases "truthy (qf_actorId f)"; cases "qf_transactionIds f";
        cases "qf_statuses f"; cases "qf_stuckBeforeTimestamp f"; cases "qf_olderThanTimestamp f";
        cases "qf_stateEquals f") (simp_all del: truthy_Some)
  finally show "pg_where J f r = selects (to_filter J f) r" .
qed

lemma insert_entries_numbered:
  assumes "\<And>e. e \<in> set rows \<Longrightarrow> ce_transactionId e = i \<Longrightarrow> ce_stepSeq e < k"
  shows "insert_entries i m k ns rows = Inr (rows @ identified m (numbered i k ns))"
  using assms
proof (induction ns arbitrary: m k rows)
  case (Cons n ns)
  have "\<not> list_ex (\<lambda>e. ce_transactionId e = i \<and> ce_stepSeq e = k) rows"
    using Cons.prems by (auto simp: list_ex_iff)
  moreover have "insert_entries i (m + 1) (k + 1) ns (rows @ [(new_entry i k n)\<lparr>ce_id := Some (RowNumber m)\<rparr>]) =
      Inr ((rows @ [(new_entry i k n)\<lparr>ce_id := Some (RowNumber m)\<rparr>]) @ identified (m + 1) (numbered i (k + 1) ns))"
  proof (rule Cons.IH)
    fix e assume "e \<in> set (rows @ [(new_entry i k n)\<lparr>ce_id := Some (RowNumber m)\<rparr>])" "ce_transactionId e = i"
    then show "ce_stepSeq e < k + 1" using Cons.prems [of e] by (cases "e \<in> set rows") (auto simp: new_entry_def)
  qed
  ultimately show ?case by simp
qed simp

lemma no_rollback:
  "insert_entries i m (max_seq (filter (\<lambda>e. ce_transactionId e = i) rows) + 1) ns rows =
     Inr (rows @ identified m (numbered i (max_seq (filter (\<lambda>e. ce_transactionId e = i) rows) + 1) ns))"
proof (rule insert_entries_numbered)
  fix e assume "e \<in> set rows" "ce_transactionId e = i"
  then have "e \<in> set (filter (\<lambda>e. ce_transactionId e = i) rows)" by simp
  from max_seq_ge [OF this] show "ce_stepSeq e < max_seq (filter (\<lambda>e. ce_transactionId e = i) rows) + 1" by simp
qed

lemma text_snapshot:
  "(snapshot_of r es)\<lparr>ts_compensationStack := map text_id (ts_compensationStack (snapshot_of r es))\<rparr> =
     snapshot_of r (map text_id es)"
  by (simp add: snapshot_of_def tx_record.extend_def)

lemma pg_query_agrees:
  assumes "\<And>rs. mset (pg_scan s rs) = mset rs" "\<And>rs. mset (scan rs) = mset rs"
  shows "pg_agrees (Query f now th) (fst (store_perform (postgres_ops J) (Query f now th) s))
    (fst (store_perform sqlite_ops (Query (to_filter J f) now th) (as_sqlite scan s)))"
proof -
  have lim: "qf_limit (to_filter J f) = qf_limit f" "qf_offset (to_filter J f) = qf_offset f"
    by (simp_all add: to_filter_def)
  let ?sum = "\<lambda>r. summary_of now th (filter (\<lambda>e. ce_transactionId e = tx_transactionId r) (pg_compensations s)) r"
  let ?fs = "filter (pg_where J f) (pg_transactions s)"
  have pg: "fst (store_perform (postgres_ops J) (Query f now th) s) =
      Rows (windowed_rows f ?sum (sort_key tx_updatedAt (pg_scan s ?fs)))"
    by (simp add: postgres_ops_def pg_queryTransactions_def Let_def windowed_rows_def)
  have sq: "fst (store_perform sqlite_ops (Query (to_filter J f) now th) (as_sqlite scan s)) =
      (if qf_limit f = None \<and> qf_offset f \<noteq> None then Refused
       else Rows (windowed_rows f ?sum (sort_key tx_updatedAt (scan ?fs))))"
    by (simp add: sqlite_ops_def sql_queryTransactions_def Let_def windowed_rows_def lim pg_where_selects
        stack_rows_def)
  show ?thesis
  proof (cases "qf_limit f = None \<and> qf_offset f \<noteq> None")
    case True
    then show ?thesis unfolding pg sq by simp
  next
    case False
    have "same_rows (qf_limit f \<noteq> None) (windowed_rows f ?sum (sort_key tx_updatedAt (pg_scan s ?fs)))
        (windowed_rows f ?sum (sort_key tx_updatedAt (scan ?fs)))"
      by (rule windowed_same) (use False assms in \<open>auto simp: summary_of_def\<close>)
    with False show ?thesis unfolding pg sq by simp
  qed
qed

lemma pg_perform:
  assumes "\<And>rs. mset (pg_scan s rs) = mset rs" "\<And>rs. mset (scan rs) = mset rs"
  shows "pg_agrees c (fst (store_perform (postgres_ops J) c s))
      (fst (store_perform sqlite_ops (canonical_call J c) (as_sqlite scan s))) \<and>
    snd (store_perform sqlite_ops (canonical_call J c) (as_sqlite scan s)) =
      as_sqlite scan (snd (store_perform (postgres_ops J) c s))"
proof (cases c)
  case Initialize
  then show ?thesis by (simp add: sqlite_ops_def postgres_ops_def pg_initialize_def as_sqlite_def ensureDb_def)
next
  case (Create r)
  then show ?thesis
    by (simp add: sqlite_ops_def postgres_ops_def sql_createTransaction_def pg_createTransaction_def Let_def list_ex_row)
next
  case (Get i)
  then show ?thesis
    by (simp add: sqlite_ops_def postgres_ops_def sql_getTransaction_def pg_getTransaction_def Let_def row_of_def
        by_seq_desc_def order_by_step_desc_def stack_rows_def text_snapshot split: list.split)
next
  case (Update i v p ns)
  then show ?thesis
    by (simp add: sqlite_ops_def postgres_ops_def sql_updateTransaction_def pg_updateTransaction_def Let_def
        no_rollback stack_rows_def)
next
  case (Stack i)
  then show ?thesis
    by (simp add: sqlite_ops_def postgres_ops_def sql_getUncompensatedStack_def pg_getUncompensatedStack_def Let_def
        by_seq_desc_def order_by_step_desc_def)
next
  case (Mark i q t)
  then show ?thesis
    by (simp add: sqlite_ops_def postgres_ops_def sql_markCompensationExecuted_def
        pg_markCompensationExecuted_def Let_def)
next
  case (Count f)
  then show ?thesis
    by (simp add: sqlite_ops_def postgres_ops_def sql_countTransactions_def pg_countTransactions_def Let_def
        pg_where_selects)
next
  case (Query f now th)
  have "snd (store_perform sqlite_ops (canonical_call J c) (as_sqlite scan s)) = as_sqlite scan s"
    "as_sqlite scan (snd (store_perform (postgres_ops J) c s)) = as_sqlite scan s"
    by (simp_all add: Query sqlite_ops_def postgres_ops_def sql_queryTransactions_def pg_queryTransactions_def Let_def)
  with pg_query_agrees [OF assms] Query show ?thesis by simp
next
  case (Delete ids)
  then show ?thesis
    by (simp add: sqlite_ops_def postgres_ops_def sql_deleteTransactions_def pg_deleteTransactions_def Let_def)
qed

lemma pg_run:
  assumes "\<And>rs. mset (pg_scan s rs) = mset rs" "\<And>rs. mset (scan rs) = mset rs"
  shows "answers_agree pg_agrees cs (fst (store_run (postgres_ops J) cs s))
    (fst (store_run sqlite_ops (map (canonical_call J) cs) (as_sqlite scan s)))"
  using assms(1)
proof (induction cs arbitrary: s)
  case (Cons c cs)
  obtain a s' where p: "store_perform (postgres_ops J) c s = (a, s')" by fastforce
  then have "\<And>rs. mset (pg_scan s' rs) = mset rs" using Cons.prems pg_scan_kept [of J c s] by simp
  with Cons.IH [of s'] pg_perform [OF Cons.prems assms(2), of c J] p show ?case
    by (auto simp: case_prod_beta)
qed simp

section \<open>The drivers compared\<close>


definition sample_record :: tx_record where
  "sample_record = \<lparr>tx_transactionId = ''t1'', tx_machineId = ''order'', tx_machineVersion = ''1.0.0'',
     tx_actorId = ''a1'', tx_stateValue = SLeaf ''draft'', tx_context = JNull, tx_status = IDLE,
     tx_activeStep = None, tx_lastError = None, tx_version = 1, tx_leaseOwner = None,
     tx_leaseExpiresAt = None, tx_createdAt = 0, tx_updatedAt = 0\<rparr>"

definition sample_step :: comp_new where
  "sample_step = \<lparr>cn_transitionKey = ''pay'', cn_compensateKey = ''refund'', cn_fromState = SLeaf ''draft'',
     cn_inputSnapshot = None, cn_contextBefore = JNull, cn_createdAt = 5, cn_compensatedAt = None\<rparr>"

definition sample_calls :: "driver_call list" where
  "sample_calls = [Initialize, Create sample_record, Create sample_record, Update ''t1'' 1 (touch 5) [sample_step],
     Update ''t1'' 1 (touch 6) [], Get ''t1'', Stack ''t1'', Count no_filter, Query no_filter 7 1,
     Query (no_filter\<lparr>qf_limit := Some 2, qf_offset := Some 1\<rparr>) 7 1, Delete [''t1''], Get ''t1'']"


text \<open>C20: The PostgreSQL driver is the SQLite driver on canonical JSON: whatever canonical form the server
  keeps of a JSON column and in whatever order the two engines find their rows, every sequence of
  calls is answered as the SQLite driver answers the calls with canonical values, and no update is
  ever rolled back for a repeated step number. The two differ in this only: PostgreSQL returns the id
  of an entry as the decimal string of SQLite's number; a query with an offset and no limit is an
  error of SQLite and none of PostgreSQL; rows with equal time stamps come in any order, so that with
  a limit the answers agree in the time stamps of their rows, without one also in the rows.\<close>

theorem postgres_is_canonical_sqlite:
  assumes "\<And>rs. mset (pg_scan s rs) = mset rs" "\<And>rs. mset (scan rs) = mset rs"
  shows "answers_agree pg_agrees cs (fst (store_run (postgres_ops J) cs s))
    (fst (store_run sqlite_ops (map (canonical_call J) cs) (as_sqlite scan s)))"
  by (rule pg_run [OF assms])

theorem postgres_is_canonical_sqlite_witness:
  "\<exists>s. new_postgres None False (\<lambda>_. []) (\<lambda>_. []) (\<lambda>_. 1) id = Inr s \<and>
     answers_agree pg_agrees sample_calls (fst (store_run (postgres_ops \<lparr>jb_state = id, jb_value = id\<rparr>) sample_calls s))
       (fst (store_run sqlite_ops (map (canonical_call \<lparr>jb_state = id, jb_value = id\<rparr>) sample_calls) (as_sqlite rev s)))"
proof -
  obtain s where s: "new_postgres None False (\<lambda>_. []) (\<lambda>_. []) (\<lambda>_. 1) id = Inr s" "pg_scan s = id"
    by (simp add: new_postgres_def Let_def prefix_char_def)
  have "answers_agree pg_agrees sample_calls
      (fst (store_run (postgres_ops \<lparr>jb_state = id, jb_value = id\<rparr>) sample_calls s))
      (fst (store_run sqlite_ops (map (canonical_call \<lparr>jb_state = id, jb_value = id\<rparr>) sample_calls) (as_sqlite rev s)))"
    by (rule postgres_is_canonical_sqlite) (simp_all add: s(2))
  with s(1) show ?thesis by blast
qed

text \<open>A limit of zero or less: no rows from the SQL drivers, all rows from MongoDB.\<close>

theorem limit_zero_differs:
  assumes "document_collection col valid docs" "mongo_ok valid docs m"
    and "qf_limit f = Some n" "n \<le> 0" "qf_offset f = None"
  shows "fst (sql_queryTransactions f now th s) = Inr []"
    and "mongo_txs docs m i = Some r \<Longrightarrow> selects f r \<Longrightarrow>
      \<exists>xs. fst (mongo_queryTransactions col f now th m) = Inr xs \<and> i \<in> su_transactionId ` set xs"
  using document_collection.mongo_limit_zero [OF assms(1, 2, 5, 3, 4)] assms(3, 4)
  by (simp_all add: sql_queryTransactions_def Let_def take_int_def)

end
