(* ===== verification/Logger.thy ===== *)
theory Logger
  imports Actor
begin

text \<open>
  The two log engines of \<^verbatim>\<open>logger.ts\<close>. The console engine prints one JSON object a line; its lines
  are kept as values with the console method they go to. The in-memory engine is the list the actor's
  world keeps in \<open>w_log\<close>.
\<close>

section \<open>The console\<close>

datatype console_line = Info jval | Warn jval

fun state_json :: "state_value \<Rightarrow> jval" where
  "state_json (SLeaf s) = JStr s"
| "state_json (SMap kvs) = JObj (map (\<lambda>(k, v). (k, state_json v)) kvs)"

definition outcome_name :: "log_outcome \<Rightarrow> string" where
  "outcome_name oc = (case oc of LogSuccess \<Rightarrow> ''SUCCESS'' | LogCompensated \<Rightarrow> ''COMPENSATED''
     | LogFallback \<Rightarrow> ''FALLBACK'' | LogFailed \<Rightarrow> ''FAILED'')"

text \<open>A record as an object; fields that are \<open>undefined\<close> are left out by \<^verbatim>\<open>JSON.stringify\<close>.\<close>

definition log_fields :: "transition_log \<Rightarrow> (string \<times> jval) list" where
  "log_fields e =
     [(''timestamp'', JNum (of_int (tl_timestamp e))), (''transactionId'', JStr (tl_transactionId e)),
      (''machineId'', JStr (tl_machineId e)), (''actorId'', JStr (tl_actorId e)),
      (''event'', JStr (tl_event e))] @
     (case tl_transitionHandler e of Some h \<Rightarrow> [(''transitionHandler'', JStr h)] | None \<Rightarrow> []) @
     [(''fromState'', state_json (tl_fromState e)), (''toState'', state_json (tl_toState e)),
      (''attempts'', JNum (of_int (tl_attempts e))), (''durationMs'', JNum (of_int (tl_durationMs e))),
      (''outcome'', JStr (outcome_name (tl_outcome e)))] @
     (case tl_error e of Some m \<Rightarrow> [(''error'', JStr m)] | None \<Rightarrow> [])"

record console_logger =
  cl_silent :: bool
  cl_output :: "console_line list"

definition new_console :: "bool option \<Rightarrow> console_logger" where
  "new_console silent = \<lparr>cl_silent = or_else silent False, cl_output = []\<rparr>"

definition console_recordTransition :: "transition_log \<Rightarrow> console_logger \<Rightarrow> console_logger" where
  "console_recordTransition e c =
     (if cl_silent c then c
      else c\<lparr>cl_output := cl_output c @ [Info (JObj (spread
        [(''level'', JStr (if tl_outcome e = LogSuccess then ''info'' else ''warn'')),
         (''component'', JStr ''dfsm.benchmark'')] (log_fields e)))]\<rparr>)"

definition console_logRecovery ::
  "string \<Rightarrow> string \<Rightarrow> (string \<times> jval) list option \<Rightarrow> console_logger \<Rightarrow> console_logger" where
  "console_logRecovery actorId message metadata c =
     (if cl_silent c then c
      else c\<lparr>cl_output := cl_output c @ [Warn (JObj (spread
        [(''level'', JStr ''warn''), (''component'', JStr ''dfsm.recovery''), (''actorId'', JStr actorId),
         (''message'', JStr message)] (or_else metadata [])))]\<rparr>)"

section \<open>Memory\<close>

record memory_logger =
  ml_entries :: "transition_log list"
  ml_recoveryLogs :: "(string \<times> string \<times> (string \<times> jval) list option) list"

definition new_memory :: memory_logger where
  "new_memory = \<lparr>ml_entries = [], ml_recoveryLogs = []\<rparr>"

definition memory_recordTransition :: "transition_log \<Rightarrow> memory_logger \<Rightarrow> memory_logger" where
  "memory_recordTransition e m = m\<lparr>ml_entries := ml_entries m @ [e]\<rparr>"

definition memory_logRecovery ::
  "string \<Rightarrow> string \<Rightarrow> (string \<times> jval) list option \<Rightarrow> memory_logger \<Rightarrow> memory_logger" where
  "memory_logRecovery actorId message metadata m =
     m\<lparr>ml_recoveryLogs := ml_recoveryLogs m @ [(actorId, message, metadata)]\<rparr>"

definition memory_clear :: "memory_logger \<Rightarrow> memory_logger" where
  "memory_clear m = m\<lparr>ml_entries := [], ml_recoveryLogs := []\<rparr>"

section \<open>What the engines keep\<close>

lemma memory_keeps_all: "ml_entries (fold memory_recordTransition es m) = ml_entries m @ es"
  by (induction es arbitrary: m) (simp_all add: memory_recordTransition_def)

lemma silent_prints_nothing:
  "cl_silent c \<Longrightarrow> fold console_recordTransition es c = c"
  by (induction es) (simp_all add: console_recordTransition_def)

lemma console_one_line_each:
  "\<not> cl_silent c \<Longrightarrow>
     length (cl_output (fold console_recordTransition es c)) = length (cl_output c) + length es"
proof (induction es arbitrary: c)
  case (Cons e es)
  have "\<not> cl_silent (console_recordTransition e c)" using Cons.prems by (simp add: console_recordTransition_def)
  from Cons.IH [OF this] show ?case using Cons.prems by (simp add: console_recordTransition_def)
qed simp

lemma map_of_spread: "map_of (spread base extra) k =
    (case map_of (rev extra) k of Some v \<Rightarrow> Some v | None \<Rightarrow> map_of base k)"
proof (induction extra arbitrary: base)
  case (Cons kv extra)
  show ?case using Cons.IH [of "AList.update (fst kv) (snd kv) base"]
    by (simp add: spread_def case_prod_beta' update_conv' map_add_def split: option.splits)
qed (simp add: spread_def)

text \<open>Metadata may replace the actor and the message of a recovery line.\<close>

lemma recovery_metadata_wins:
  "\<not> cl_silent c \<Longrightarrow> \<exists>fields. cl_output (console_logRecovery i msg (Some [(''message'', v)]) c) =
     cl_output c @ [Warn (JObj fields)] \<and> map_of fields ''message'' = Some v"
  by (simp add: console_logRecovery_def map_of_spread)

end
