(* ===== verification/EditorTypes.thy ===== *)
theory EditorTypes
  imports Types
begin

text \<open>
  The data of the editor extension (\<^verbatim>\<open>tools/vscode-dfsm/src/core/types.ts\<close>): source ranges,
  diagnostics, the policies it shows with the layer each field comes from, and the parsed machine.
  YAML documents are what the \<^verbatim>\<open>yaml\<close> package returns; its node tree is the datatype \<open>yaml\<close>.
\<close>

section \<open>Ranges and diagnostics\<close>

record source_range =
  sr_line :: int
  sr_column :: int
  sr_endLine :: int
  sr_endColumn :: int
  sr_startLine0 :: int
  sr_startColumn0 :: int
  sr_endLine0 :: int
  sr_endColumn0 :: int
  sr_startOffset :: int
  sr_endOffset :: int

datatype severity = SevError | SevWarning | SevInfo | SevHint

record diagnostic =
  dg_code :: string
  dg_severity :: severity
  dg_message :: string
  dg_range :: source_range
  dg_path :: "string option"

section \<open>YAML nodes\<close>

text \<open>Scalars by the type of their value; a number that is not finite keeps its text only.\<close>

datatype yaml_scalar = YStr string | YNum rat | YBool bool | YNull | YNonFinite string

type_synonym yaml_range = "(int \<times> int) option"

datatype yaml =
    YScalar yaml_range yaml_scalar
  | YMap yaml_range "(yaml option \<times> yaml option) list"
  | YSeq yaml_range "yaml list"
  | YAlias yaml_range

type_synonym yaml_pair = "yaml option \<times> yaml option"

fun range_of :: "yaml \<Rightarrow> yaml_range" where
  "range_of (YScalar r v) = r"
| "range_of (YMap r ps) = r"
| "range_of (YSeq r xs) = r"
| "range_of (YAlias r) = r"

text \<open>\<open>String(value)\<close>\<close>

fun scalar_text :: "yaml_scalar \<Rightarrow> string" where
  "scalar_text (YStr s) = s"
| "scalar_text (YNum r) = show_num r"
| "scalar_text (YBool b) = (if b then ''true'' else ''false'')"
| "scalar_text YNull = ''null''"
| "scalar_text (YNonFinite s) = s"

text \<open>
  What \<open>parseDocument\<close> returns: the contents, the errors with their positions, the line counter, and
  the value or error of \<open>toJS\<close>.
\<close>

record yaml_document =
  yd_source :: string
  yd_linePos :: "int \<Rightarrow> int \<times> int"
  yd_contents :: "yaml option"
  yd_errors :: "(string \<times> (int \<times> int) option) list"
  yd_toJS :: "string + jval"

section \<open>Policies\<close>

type_synonym ed_backoff = partial_backoff
type_synonym ed_onfail = partial_onfail
type_synonym ed_benchmark = partial_benchmark

record ed_retry =
  er_maxAttempts :: "rat option"
  er_backoff :: "ed_backoff option"

record ed_breaker =
  ec_enabled :: "bool option"
  ec_key :: "string option"
  ec_failureThreshold :: "rat option"
  ec_slidingWindowSize :: "rat option"
  ec_openDurationMs :: "rat option"
  ec_halfOpenMaxCalls :: "rat option"

record ed_policy =
  ep_retry :: "ed_retry option"
  ep_circuitBreaker :: "ed_breaker option"
  ep_onFail :: "ed_onfail option"
  ep_benchmark :: "ed_benchmark option"

definition no_ed_policy :: ed_policy where
  "no_ed_policy = \<lparr>ep_retry = None, ep_circuitBreaker = None, ep_onFail = None, ep_benchmark = None\<rparr>"

record ed_norm_retry =
  en_maxAttempts :: rat
  en_backoff :: norm_backoff

record ed_norm_breaker =
  eq_enabled :: bool
  eq_key :: "string option"
  eq_failureThreshold :: rat
  eq_slidingWindowSize :: rat
  eq_openDurationMs :: rat
  eq_halfOpenMaxCalls :: rat

record ed_norm_policy =
  ef_retry :: ed_norm_retry
  ef_circuitBreaker :: ed_norm_breaker
  ef_onFail :: norm_onfail
  ef_benchmark :: norm_benchmark

datatype policy_layer = FromSdk | FromDefaults | FromTransition

text \<open>The layer each field of the effective policy comes from.\<close>

record policy_sources =
  so_maxAttempts :: policy_layer
  so_strategy :: policy_layer
  so_initialDelayMs :: policy_layer
  so_maxDelayMs :: policy_layer
  so_multiplier :: policy_layer
  so_breakerEnabled :: policy_layer
  so_breakerKey :: "policy_layer option"
  so_failureThreshold :: policy_layer
  so_slidingWindowSize :: policy_layer
  so_openDurationMs :: policy_layer
  so_halfOpenMaxCalls :: policy_layer
  so_failCompensate :: policy_layer
  so_failTarget :: policy_layer
  so_benchmarkEnabled :: policy_layer

section \<open>The parsed machine\<close>

datatype ed_state_type = EdAtomic | EdCompound | EdParallel | EdFinal

record parsed_transition =
  px_id :: string
  px_event :: string
  px_isOnDone :: bool
  px_isShorthand :: bool
  px_sourceStatePath :: string
  px_target :: "string option"
  px_targetRange :: "source_range option"
  px_transition :: "string option"
  px_transitionRange :: "source_range option"
  px_compensate :: "string option"
  px_compensateRange :: "source_range option"
  px_effects :: "string list"
  px_effectsRange :: "source_range option"
  px_description :: "string option"
  px_policy :: ed_policy
  px_policyRange :: "source_range option"
  px_onFailTargetRange :: "source_range option"
  px_effectivePolicy :: ed_norm_policy
  px_policySources :: policy_sources
  px_keyRange :: source_range
  px_blockRange :: source_range

record state_info =
  si_name :: string
  si_path :: string
  si_parentPath :: "string option"
  si_explicitType :: "ed_state_type option"
  si_typeRange :: "source_range option"
  si_inferredType :: ed_state_type
  si_description :: "string option"
  si_initial :: "string option"
  si_initialKeyRange :: "source_range option"
  si_initialValueRange :: "source_range option"
  si_entry :: "string list"
  si_entryRange :: "source_range option"
  si_exit :: "string list"
  si_exitRange :: "source_range option"
  si_on :: "parsed_transition dict"
  si_onKeyRange :: "source_range option"
  si_onDone :: "parsed_transition option"
  si_statesKeyRange :: "source_range option"
  si_keyRange :: source_range
  si_blockRange :: source_range
  si_isImplicitError :: bool
  si_isCustomError :: bool

datatype parsed_state = PState (ps_info: state_info) (ps_states: "(string \<times> parsed_state) list")

datatype ed_root_type = EdRootCompound | EdRootParallel

datatype error_state_mode = ImplicitError | CustomError

record ed_hooks =
  eh_onStart :: "string list"
  eh_beforeTransition :: "string list"
  eh_afterTransition :: "string list"
  eh_onCompensate :: "string list"
  eh_onComplete :: "string list"
  eh_onTerminal :: "string list"

record parsed_machine =
  pm_dfsmVersion :: "string option"
  pm_id :: "string option"
  pm_idRange :: "source_range option"
  pm_version :: string
  pm_description :: "string option"
  pm_rootType :: ed_root_type
  pm_explicitRootType :: "ed_root_type option"
  pm_rootTypeRange :: "source_range option"
  pm_initial :: "string option"
  pm_initialKeyRange :: "source_range option"
  pm_initialValueRange :: "source_range option"
  pm_registry :: "(string option \<times> bool) option"
  pm_defaults :: ed_policy
  pm_defaultsRange :: "source_range option"
  pm_defaultsOnFailTargetRange :: "source_range option"
  pm_hooks :: ed_hooks
  pm_effects :: "string list"
  pm_maxEffectChainDepth :: "rat option"
  pm_states :: "parsed_state dict"
  pm_statesKeyRange :: "source_range option"
  pm_allStatesByPath :: "parsed_state dict"
  pm_explicitStateCount :: nat
  pm_errorStateMode :: error_state_mode
  pm_implicitErrorNode :: "parsed_state option"
  pm_rootRange :: source_range

record analysis =
  an_rawText :: string
  an_rawData :: jval
  an_machine :: "parsed_machine option"
  an_diagnostics :: "diagnostic list"
  an_errors :: "diagnostic list"
  an_warnings :: "diagnostic list"
  an_infos :: "diagnostic list"
  an_isValid :: bool

end
