(* ===== verification/EditorPolicy.thy ===== *)
theory EditorPolicy
  imports EditorTypes Merger
begin

text \<open>
  The editor's policy merge (\<^verbatim>\<open>core/policy.ts\<close>): machine defaults and transition policy over its own
  copy of the SDK defaults, with the layer each field comes from. The lemmas relate it to the SDK's
  merger, which the runtime uses.
\<close>

section \<open>The merge\<close>

definition ED_DEFAULT_POLICY :: ed_norm_policy where
  "ED_DEFAULT_POLICY = \<lparr>
     ef_retry = \<lparr>en_maxAttempts = 1, en_backoff = \<lparr>nb_strategy = Exponential, nb_initialDelayMs = 100,
       nb_maxDelayMs = 5000, nb_multiplier = 2\<rparr>\<rparr>,
     ef_circuitBreaker = \<lparr>eq_enabled = False, eq_key = None, eq_failureThreshold = 5,
       eq_slidingWindowSize = 10, eq_openDurationMs = 30000, eq_halfOpenMaxCalls = 1\<rparr>,
     ef_onFail = \<lparr>no_compensate = False, no_target = ''error''\<rparr>,
     ef_benchmark = \<lparr>nm_enabled = True\<rparr>\<rparr>"

definition sdk_sources :: policy_sources where
  "sdk_sources = \<lparr>so_maxAttempts = FromSdk, so_strategy = FromSdk, so_initialDelayMs = FromSdk,
     so_maxDelayMs = FromSdk, so_multiplier = FromSdk, so_breakerEnabled = FromSdk, so_breakerKey = None,
     so_failureThreshold = FromSdk, so_slidingWindowSize = FromSdk, so_openDurationMs = FromSdk,
     so_halfOpenMaxCalls = FromSdk, so_failCompensate = FromSdk, so_failTarget = FromSdk,
     so_benchmarkEnabled = FromSdk\<rparr>"

text \<open>\<open>if (x !== undefined) { policy.f = x; sources.f = layerName }\<close>, for the policy and for the source.\<close>

definition source_if :: "'a option \<Rightarrow> policy_layer \<Rightarrow> policy_layer \<Rightarrow> policy_layer" where
  "source_if x layerName old = (case x of None \<Rightarrow> old | Some _ \<Rightarrow> layerName)"

definition layer_retry :: "policy_layer \<Rightarrow> ed_retry option \<Rightarrow> ed_norm_policy \<times> policy_sources \<Rightarrow>
    ed_norm_policy \<times> policy_sources" where
  "layer_retry layerName retry acc =
     (case (retry, acc) of
        (None, _) \<Rightarrow> acc
      | (Some r, (policy, sources)) \<Rightarrow>
          let n = ef_retry policy;
              n = n\<lparr>en_maxAttempts := or_else (er_maxAttempts r) (en_maxAttempts n)\<rparr>;
              sources = sources\<lparr>so_maxAttempts := source_if (er_maxAttempts r) layerName (so_maxAttempts sources)\<rparr>
          in case er_backoff r of
               None \<Rightarrow> (policy\<lparr>ef_retry := n\<rparr>, sources)
             | Some b \<Rightarrow>
                 (policy\<lparr>ef_retry := n\<lparr>en_backoff := \<lparr>
                    nb_strategy = or_else (pb_strategy b) (nb_strategy (en_backoff n)),
                    nb_initialDelayMs = or_else (pb_initialDelayMs b) (nb_initialDelayMs (en_backoff n)),
                    nb_maxDelayMs = or_else (pb_maxDelayMs b) (nb_maxDelayMs (en_backoff n)),
                    nb_multiplier = or_else (pb_multiplier b) (nb_multiplier (en_backoff n))\<rparr>\<rparr>\<rparr>,
                  sources\<lparr>
                    so_strategy := source_if (pb_strategy b) layerName (so_strategy sources),
                    so_initialDelayMs := source_if (pb_initialDelayMs b) layerName (so_initialDelayMs sources),
                    so_maxDelayMs := source_if (pb_maxDelayMs b) layerName (so_maxDelayMs sources),
                    so_multiplier := source_if (pb_multiplier b) layerName (so_multiplier sources)\<rparr>))"

definition layer_breaker :: "policy_layer \<Rightarrow> ed_breaker option \<Rightarrow> ed_norm_policy \<times> policy_sources \<Rightarrow>
    ed_norm_policy \<times> policy_sources" where
  "layer_breaker layerName breaker acc =
     (case (breaker, acc) of
        (None, _) \<Rightarrow> acc
      | (Some cb, (policy, sources)) \<Rightarrow>
          let n = ef_circuitBreaker policy in
          (policy\<lparr>ef_circuitBreaker := \<lparr>
             eq_enabled = or_else (ec_enabled cb) (eq_enabled n),
             eq_key = or_elseo (ec_key cb) (eq_key n),
             eq_failureThreshold = or_else (ec_failureThreshold cb) (eq_failureThreshold n),
             eq_slidingWindowSize = or_else (ec_slidingWindowSize cb) (eq_slidingWindowSize n),
             eq_openDurationMs = or_else (ec_openDurationMs cb) (eq_openDurationMs n),
             eq_halfOpenMaxCalls = or_else (ec_halfOpenMaxCalls cb) (eq_halfOpenMaxCalls n)\<rparr>\<rparr>,
           sources\<lparr>
             so_breakerEnabled := source_if (ec_enabled cb) layerName (so_breakerEnabled sources),
             so_breakerKey := (case ec_key cb of None \<Rightarrow> so_breakerKey sources | Some _ \<Rightarrow> Some layerName),
             so_failureThreshold := source_if (ec_failureThreshold cb) layerName (so_failureThreshold sources),
             so_slidingWindowSize := source_if (ec_slidingWindowSize cb) layerName (so_slidingWindowSize sources),
             so_openDurationMs := source_if (ec_openDurationMs cb) layerName (so_openDurationMs sources),
             so_halfOpenMaxCalls := source_if (ec_halfOpenMaxCalls cb) layerName (so_halfOpenMaxCalls sources)\<rparr>))"

definition layer_onfail :: "policy_layer \<Rightarrow> ed_onfail option \<Rightarrow> ed_norm_policy \<times> policy_sources \<Rightarrow>
    ed_norm_policy \<times> policy_sources" where
  "layer_onfail layerName onFail acc =
     (case (onFail, acc) of
        (None, _) \<Rightarrow> acc
      | (Some f, (policy, sources)) \<Rightarrow>
          (policy\<lparr>ef_onFail := \<lparr>no_compensate = or_else (po_compensate f) (no_compensate (ef_onFail policy)),
             no_target = or_else (po_target f) (no_target (ef_onFail policy))\<rparr>\<rparr>,
           sources\<lparr>so_failCompensate := source_if (po_compensate f) layerName (so_failCompensate sources),
             so_failTarget := source_if (po_target f) layerName (so_failTarget sources)\<rparr>))"

definition layer_benchmark :: "policy_layer \<Rightarrow> ed_benchmark option \<Rightarrow> ed_norm_policy \<times> policy_sources \<Rightarrow>
    ed_norm_policy \<times> policy_sources" where
  "layer_benchmark layerName bench acc =
     (case (bench, acc) of
        (None, _) \<Rightarrow> acc
      | (Some m, (policy, sources)) \<Rightarrow>
          (policy\<lparr>ef_benchmark := \<lparr>nm_enabled = or_else (pm_enabled m) (nm_enabled (ef_benchmark policy))\<rparr>\<rparr>,
           sources\<lparr>so_benchmarkEnabled := source_if (pm_enabled m) layerName (so_benchmarkEnabled sources)\<rparr>))"

definition applyLayer :: "ed_policy option \<Rightarrow> policy_layer \<Rightarrow> ed_norm_policy \<times> policy_sources \<Rightarrow>
    ed_norm_policy \<times> policy_sources" where
  "applyLayer layer layerName acc =
     (case layer of None \<Rightarrow> acc
      | Some l \<Rightarrow> layer_benchmark layerName (ep_benchmark l) (layer_onfail layerName (ep_onFail l)
          (layer_breaker layerName (ep_circuitBreaker l) (layer_retry layerName (ep_retry l) acc))))"

definition mergeTransitionPolicies ::
  "ed_policy option \<Rightarrow> ed_policy option \<Rightarrow> ed_norm_policy \<times> policy_sources" where
  "mergeTransitionPolicies machineDefaults transitionPolicy =
     applyLayer transitionPolicy FromTransition
       (applyLayer machineDefaults FromDefaults (ED_DEFAULT_POLICY, sdk_sources))"

section \<open>The policy the runtime uses\<close>

text \<open>A policy of the SDK as the editor has it: without the parts YAML cannot express.\<close>

definition ed_retry_of :: "partial_retry \<Rightarrow> ed_retry" where
  "ed_retry_of r = \<lparr>er_maxAttempts = map_option of_int (pr_maxAttempts r), er_backoff = pr_backoff r\<rparr>"

definition ed_breaker_of :: "partial_breaker \<Rightarrow> ed_breaker" where
  "ed_breaker_of c = \<lparr>ec_enabled = pc_enabled c, ec_key = pc_key c,
     ec_failureThreshold = map_option of_int (pc_failureThreshold c),
     ec_slidingWindowSize = map_option of_int (pc_slidingWindowSize c),
     ec_openDurationMs = map_option of_int (pc_openDurationMs c),
     ec_halfOpenMaxCalls = map_option of_int (pc_halfOpenMaxCalls c)\<rparr>"

definition ed_policy_of :: "partial_policy \<Rightarrow> ed_policy" where
  "ed_policy_of p = \<lparr>ep_retry = map_option ed_retry_of (pp_retry p),
     ep_circuitBreaker = map_option ed_breaker_of (pp_circuitBreaker p), ep_onFail = pp_onFail p,
     ep_benchmark = pp_benchmark p\<rparr>"

text \<open>The editor has no default breaker key; a key it does not show is the SDK's default.\<close>

definition shows_policy :: "string \<Rightarrow> ed_norm_policy \<Rightarrow> norm_policy \<Rightarrow> bool" where
  "shows_policy key e p \<longleftrightarrow>
     en_maxAttempts (ef_retry e) = of_int (nr_maxAttempts (np_retry p)) \<and>
     en_backoff (ef_retry e) = nr_backoff (np_retry p) \<and>
     eq_enabled (ef_circuitBreaker e) = nc_enabled (np_circuitBreaker p) \<and>
     or_else (eq_key (ef_circuitBreaker e)) key = nc_key (np_circuitBreaker p) \<and>
     eq_failureThreshold (ef_circuitBreaker e) = of_int (nc_failureThreshold (np_circuitBreaker p)) \<and>
     eq_slidingWindowSize (ef_circuitBreaker e) = of_int (nc_slidingWindowSize (np_circuitBreaker p)) \<and>
     eq_openDurationMs (ef_circuitBreaker e) = of_int (nc_openDurationMs (np_circuitBreaker p)) \<and>
     eq_halfOpenMaxCalls (ef_circuitBreaker e) = of_int (nc_halfOpenMaxCalls (np_circuitBreaker p)) \<and>
     ef_onFail e = np_onFail p \<and> ef_benchmark e = np_benchmark p"

lemma or_else_of_int: "or_else (map_option of_int x) (of_int d) = of_int (or_else x d)"
  by (cases x) simp_all

lemma shows_retry:
  assumes "shows_policy key e p"
  shows "shows_policy key (fst (layer_retry l (map_option ed_retry_of r) (e, s)))
    (p\<lparr>np_retry := case r of None \<Rightarrow> np_retry p | Some r \<Rightarrow> apply_retry r (np_retry p)\<rparr>)"
  using assms
  by (cases r; cases "Option.bind r pr_backoff")
    (auto simp: shows_policy_def layer_retry_def ed_retry_of_def apply_retry_def apply_backoff_def Let_def
      or_else_of_int)

lemma shows_breaker:
  assumes "shows_policy key e p"
  shows "shows_policy key (fst (layer_breaker l (map_option ed_breaker_of c) (e, s)))
    (p\<lparr>np_circuitBreaker := case c of None \<Rightarrow> np_circuitBreaker p | Some c \<Rightarrow> apply_breaker c (np_circuitBreaker p)\<rparr>)"
proof (cases c)
  case (Some c')
  have "or_else (or_elseo (pc_key c') (eq_key (ef_circuitBreaker e))) key = or_else (pc_key c') (nc_key (np_circuitBreaker p))"
    using assms by (cases "pc_key c'") (simp_all add: shows_policy_def)
  with Some assms show ?thesis
    by (simp add: shows_policy_def layer_breaker_def ed_breaker_of_def apply_breaker_def Let_def or_else_of_int)
qed (use assms in \<open>simp add: shows_policy_def layer_breaker_def\<close>)

lemma shows_onfail:
  assumes "shows_policy key e p"
  shows "shows_policy key (fst (layer_onfail l f (e, s)))
    (p\<lparr>np_onFail := case f of None \<Rightarrow> np_onFail p | Some f \<Rightarrow> apply_onfail f (np_onFail p)\<rparr>)"
  using assms by (cases f) (simp_all add: shows_policy_def layer_onfail_def apply_onfail_def)

lemma shows_benchmark:
  assumes "shows_policy key e p"
  shows "shows_policy key (fst (layer_benchmark l m (e, s)))
    (p\<lparr>np_benchmark := case Option.bind m pm_enabled of None \<Rightarrow> np_benchmark p | Some b \<Rightarrow> \<lparr>nm_enabled = b\<rparr>\<rparr>)"
  using assms by (cases m; cases "Option.bind m pm_enabled") (auto simp: shows_policy_def layer_benchmark_def)

lemma shows_compensate: "shows_policy key e (p\<lparr>np_compensateHandler := h\<rparr>) = shows_policy key e p"
  by (simp add: shows_policy_def)

lemma shows_layer:
  assumes "shows_policy key e p"
  shows "shows_policy key (fst (applyLayer (map_option ed_policy_of l) n (e, s))) (apply_layer l p)"
proof (cases l)
  case (Some q)
  obtain e1 s1 where r: "layer_retry n (map_option ed_retry_of (pp_retry q)) (e, s) = (e1, s1)" by fastforce
  obtain e2 s2 where c: "layer_breaker n (map_option ed_breaker_of (pp_circuitBreaker q)) (e1, s1) = (e2, s2)"
    by fastforce
  obtain e3 s3 where f: "layer_onfail n (pp_onFail q) (e2, s2) = (e3, s3)" by fastforce
  note 1 = shows_retry [OF assms, of n "pp_retry q" s, unfolded r fst_conv]
  note 2 = shows_breaker [OF 1, of n "pp_circuitBreaker q" s1, unfolded c fst_conv]
  note 3 = shows_onfail [OF 2, of n "pp_onFail q" s2, unfolded f fst_conv]
  note 4 = shows_benchmark [OF 3, of n "pp_benchmark q" s3]
  show ?thesis
    using 4 by (simp add: Some applyLayer_def apply_layer_def ed_policy_of_def r c f shows_policy_def cong: option.case_cong)
qed (use assms in \<open>simp add: applyLayer_def apply_layer_def\<close>)

lemma merge_shows:
  "shows_policy key (fst (mergeTransitionPolicies (map_option ed_policy_of d) (map_option ed_policy_of t)))
     (normalizeTransitionPolicy \<lparr>mi_defaultBreakerKey = key, mi_globalDefaults = None,
        mi_machineDefaults = d, mi_transitionPolicy = t, mi_decoratorPolicy = None\<rparr>)"
proof -
  obtain e1 s1 where e1: "applyLayer (map_option ed_policy_of d) FromDefaults (ED_DEFAULT_POLICY, sdk_sources) = (e1, s1)"
    by fastforce
  have "shows_policy key ED_DEFAULT_POLICY (SDK_DEFAULT_POLICY key)"
    by (simp add: shows_policy_def ED_DEFAULT_POLICY_def SDK_DEFAULT_POLICY_def default_backoff_def)
  from shows_layer [OF shows_layer [OF this, of d FromDefaults sdk_sources, unfolded e1 fst_conv], of t FromTransition s1]
  show ?thesis
    by (simp add: mergeTransitionPolicies_def normalizeTransitionPolicy_def e1 apply_layer_def [of None])
qed

end
