(* ===== verification/EditorResolver.thy ===== *)
theory EditorResolver
  imports EditorTypes
begin

text \<open>
  Target references in the editor (\<^verbatim>\<open>core/resolver.ts\<close>): root references \<open>#id.path\<close> and \<open>#path\<close>,
  references relative to the parent of the source state, and the fall-back to the root states.
\<close>

section \<open>Strings\<close>

text \<open>\<open>s.trim()\<close>\<close>

definition ed_space :: "char \<Rightarrow> bool" where
  "ed_space c \<longleftrightarrow> (of_char c :: nat) \<in> {9, 10, 11, 12, 13, 32, 160}"

definition js_trim :: "string \<Rightarrow> string" where
  "js_trim s = rev (dropWhile ed_space (rev (dropWhile ed_space s)))"

text \<open>\<open>s.slice(0, s.lastIndexOf("."))\<close> when there is a dot.\<close>

definition before_last_dot :: "string \<Rightarrow> string" where
  "before_last_dot s = rev (tl (dropWhile (\<lambda>c. c \<noteq> CHR ''.'') (rev s)))"

definition before_dot :: "string \<Rightarrow> string" where
  "before_dot s = takeWhile (\<lambda>c. c \<noteq> CHR ''.'') s"

definition after_dot :: "string \<Rightarrow> string" where
  "after_dot s = tl (dropWhile (\<lambda>c. c \<noteq> CHR ''.'') s)"

section \<open>Resolution\<close>

record target_resolution =
  rs_resolved :: bool
  rs_targetPath :: "string option"
  rs_targetNode :: "parsed_state option"
  rs_reason :: "string option"

definition resolved_to :: "string \<Rightarrow> parsed_state \<Rightarrow> target_resolution" where
  "resolved_to path node =
     \<lparr>rs_resolved = True, rs_targetPath = Some path, rs_targetNode = Some node, rs_reason = None\<rparr>"

definition unresolved :: "string \<Rightarrow> target_resolution" where
  "unresolved reason =
     \<lparr>rs_resolved = False, rs_targetPath = None, rs_targetNode = None, rs_reason = Some reason\<rparr>"

definition parent_prefix :: "string option \<Rightarrow> string" where
  "parent_prefix sourceStatePath =
     (case truthy sourceStatePath of
        Some s \<Rightarrow> if CHR ''.'' \<in> set s then before_last_dot s else []
      | None \<Rightarrow> [])"

definition resolve_root_reference :: "parsed_machine \<Rightarrow> string \<Rightarrow> string \<Rightarrow> target_resolution" where
  "resolve_root_reference machine rawTarget rest =
     (let states = pm_allStatesByPath machine; missing = unresolved
        (''Target '' @ quoted rawTarget @ '' does not exist in machine '' @
         quoted (or_else (pm_id machine) ''unnamed'') @ ''.'')
      in if rest = [] then unresolved (''Invalid root target '' @ quoted rawTarget @ ''.'')
      else case truthy (pm_id machine) of
        None \<Rightarrow>
          (case map_of states rest of Some n \<Rightarrow> resolved_to rest n | None \<Rightarrow> missing)
      | Some mid \<Rightarrow>
          if starts_with rest (mid @ dot) then
            (let subPath = drop (length mid + 1) rest in
             case map_of states subPath of
               Some n \<Rightarrow> resolved_to subPath n
             | None \<Rightarrow> unresolved (''Target '' @ quoted rawTarget @ '' does not match any state at '' @
                 quoted subPath @ '' in machine '' @ quoted mid @ ''.''))
          else case map_of states rest of
            Some n \<Rightarrow> resolved_to rest n
          | None \<Rightarrow>
              if CHR ''.'' \<in> set rest \<and> before_dot rest \<noteq> [] \<and> before_dot rest \<noteq> mid \<and>
                 map_of states (after_dot rest) \<noteq> None
              then unresolved (''Target '' @ quoted rawTarget @ '' references machine ID '' @
                quoted (before_dot rest) @ '', expected '' @ quoted (''#'' @ mid @ dot @ after_dot rest) @ ''.'')
              else missing)"

definition resolveStateTarget :: "parsed_machine \<Rightarrow> string option \<Rightarrow> string \<Rightarrow> target_resolution" where
  "resolveStateTarget machine sourceStatePath rawTarget =
     (let target = js_trim rawTarget; states = pm_allStatesByPath machine in
      if target = [] then unresolved ''Target state reference cannot be empty.''
      else if starts_with target ''#'' then resolve_root_reference machine rawTarget (drop 1 target)
      else
        (let parentPrefix = parent_prefix sourceStatePath;
             scoped = (if parentPrefix = [] then None else map_of states (parentPrefix @ dot @ target));
             scopeHint = (if parentPrefix \<noteq> []
               then ''parent '' @ quoted parentPrefix @ '' or root '' @ quoted ''states''
               else ''root '' @ quoted ''states'')
         in case scoped of
              Some n \<Rightarrow> resolved_to (parentPrefix @ dot @ target) n
            | None \<Rightarrow>
                (case map_of states target of
                   Some n \<Rightarrow> resolved_to target n
                 | None \<Rightarrow> unresolved (''Target state '' @ quoted rawTarget @ '' was not found in '' @
                     scopeHint @ ''.''))))"

lemma unresolved_simps [simp]:
  "\<not> rs_resolved (unresolved reason)" "rs_targetPath (unresolved reason) = None"
  "rs_targetNode (unresolved reason) = None"
  by (simp_all add: unresolved_def)

lemma resolved_simps [simp]:
  "rs_resolved (resolved_to p n)" "rs_targetPath (resolved_to p n) = Some p"
  "rs_targetNode (resolved_to p n) = Some n"
  by (simp_all add: resolved_to_def)

text \<open>A target resolves to a state found under the path reported, or there is a reason.\<close>

lemma resolve_root_cases:
  "(\<exists>p n. resolve_root_reference m raw rest = resolved_to p n \<and> map_of (pm_allStatesByPath m) p = Some n) \<or>
   (\<exists>reason. resolve_root_reference m raw rest = unresolved reason)"
  unfolding resolve_root_reference_def Let_def
  by (auto simp del: truthy_Some split: option.splits if_splits)

lemma resolve_cases:
  obtains p n where "resolveStateTarget m src t = resolved_to p n" "map_of (pm_allStatesByPath m) p = Some n"
  | reason where "resolveStateTarget m src t = unresolved reason"
proof -
  have "(\<exists>p n. resolveStateTarget m src t = resolved_to p n \<and> map_of (pm_allStatesByPath m) p = Some n) \<or>
      (\<exists>reason. resolveStateTarget m src t = unresolved reason)"
    unfolding resolveStateTarget_def Let_def using resolve_root_cases
    by (auto simp del: truthy_Some split: option.splits if_splits)
  then show thesis using that by blast
qed

end
