(* ===== verification/EditorParser.thy ===== *)
theory EditorParser
  imports EditorPolicy EditorResolver
begin

text \<open>
  The editor's parser (\<^verbatim>\<open>core/parser.ts\<close>): from a YAML node tree to the parsed machine, with a source
  range for everything it reads. The document, its offsets and its line counter are those of the
  \<^verbatim>\<open>yaml\<close> package (\<open>yaml_document\<close>). The map of all states fills in the order the parser visits
  them: children before their parent.
\<close>

section \<open>Ranges\<close>

text \<open>The regular expression \<^verbatim>\<open>(?:\r?\n[ \t]*)+$\<close>: how many characters at the end are blank lines.\<close>

fun blank_tail :: "string \<Rightarrow> bool" where
  "blank_tail [] = True"
| "blank_tail (c # cs) =
     (if c = CHR '' '' \<or> c = CHR 0x09 \<or> c = CHR 0x0A then blank_tail cs
      else if c = CHR 0x0D then (case cs of [] \<Rightarrow> False | x # xs \<Rightarrow> x = CHR 0x0A \<and> blank_tail cs)
      else False)"

definition blank_lines :: "string \<Rightarrow> bool" where
  "blank_lines s = (case s of
     [] \<Rightarrow> False
   | c # cs \<Rightarrow> (c = CHR 0x0A \<or> (c = CHR 0x0D \<and> (case cs of x # xs \<Rightarrow> x = CHR 0x0A | [] \<Rightarrow> False))) \<and> blank_tail s)"

fun trailing_newlines :: "string \<Rightarrow> nat" where
  "trailing_newlines [] = 0"
| "trailing_newlines (c # cs) = (if blank_lines (c # cs) then length (c # cs) else trailing_newlines cs)"

definition slice :: "string \<Rightarrow> int \<Rightarrow> int \<Rightarrow> string" where
  "slice s a b = take (nat (b - a)) (drop (nat a) s)"

definition rangeFromOffsets :: "yaml_document \<Rightarrow> int \<Rightarrow> int \<Rightarrow> source_range" where
  "rangeFromOffsets d rawStart rawEnd =
     (let maxLen = int (length (yd_source d));
          startOffset = max 0 (min rawStart maxLen);
          endOffset = max startOffset (min rawEnd maxLen);
          endOffset = (if endOffset > startOffset
            then max startOffset (endOffset - int (trailing_newlines (slice (yd_source d) startOffset endOffset)))
            else endOffset);
          (line, col) = yd_linePos d startOffset;
          (endLine, endCol) = yd_linePos d endOffset
      in \<lparr>sr_line = line, sr_column = col, sr_endLine = endLine, sr_endColumn = endCol,
          sr_startLine0 = line - 1, sr_startColumn0 = col - 1, sr_endLine0 = endLine - 1,
          sr_endColumn0 = endCol - 1, sr_startOffset = startOffset, sr_endOffset = endOffset\<rparr>)"

definition isNode :: "yaml option \<Rightarrow> bool" where
  "isNode v = (case v of None \<Rightarrow> False | Some n \<Rightarrow> range_of n \<noteq> None)"

definition rangeFromNode :: "yaml_document \<Rightarrow> yaml option \<Rightarrow> source_range option \<Rightarrow> source_range" where
  "rangeFromNode d node fallback =
     (case Option.bind node range_of of
        Some (a, b) \<Rightarrow> rangeFromOffsets d a b
      | None \<Rightarrow> or_else fallback (rangeFromOffsets d 0 (min (int (length (yd_source d))) 1)))"

definition rangeFromPair :: "yaml_document \<Rightarrow> yaml_pair \<Rightarrow> source_range" where
  "rangeFromPair d p =
     (let kr = Option.bind (fst p) range_of; vr = Option.bind (snd p) range_of;
          start = or_else (or_elseo (map_option fst kr) (map_option fst vr)) 0;
          stop = or_else (or_elseo (map_option snd vr) (map_option snd kr)) start
      in rangeFromOffsets d start stop)"

text \<open>\<open>isNode(x) ? rangeFromNode(x, fallback) : undefined\<close>\<close>

definition node_range :: "yaml_document \<Rightarrow> yaml option \<Rightarrow> source_range \<Rightarrow> source_range option" where
  "node_range d v fallback = (if isNode v then Some (rangeFromNode d v (Some fallback)) else None)"

section \<open>Reading nodes\<close>

fun findPair :: "yaml_pair list \<Rightarrow> string \<Rightarrow> yaml_pair option" where
  "findPair [] keyName = None"
| "findPair ((Some (YScalar r k), v) # items) keyName =
     (if scalar_text k = keyName then Some (Some (YScalar r k), v) else findPair items keyName)"
| "findPair (_ # items) keyName = findPair items keyName"

abbreviation pair_value :: "yaml_pair option \<Rightarrow> yaml option" where
  "pair_value p \<equiv> Option.bind p snd"

abbreviation pair_key :: "yaml_pair option \<Rightarrow> yaml option" where
  "pair_key p \<equiv> Option.bind p fst"

abbreviation value_at :: "yaml_pair list \<Rightarrow> string \<Rightarrow> yaml option" where
  "value_at items k \<equiv> pair_value (findPair items k)"

fun map_items :: "yaml option \<Rightarrow> yaml_pair list option" where
  "map_items (Some (YMap r items)) = Some items"
| "map_items _ = None"

fun readStringScalar :: "yaml option \<Rightarrow> string option" where
  "readStringScalar (Some (YScalar r (YStr s))) = Some s"
| "readStringScalar _ = None"

fun readBooleanScalar :: "yaml option \<Rightarrow> bool option" where
  "readBooleanScalar (Some (YScalar r (YBool b))) = Some b"
| "readBooleanScalar _ = None"

fun readNumberScalar :: "yaml option \<Rightarrow> rat option" where
  "readNumberScalar (Some (YScalar r (YNum x))) = Some x"
| "readNumberScalar _ = None"

fun readStringArray :: "yaml option \<Rightarrow> string list" where
  "readStringArray (Some (YSeq r xs)) = List.map_filter (\<lambda>x. readStringScalar (Some x)) xs"
| "readStringArray _ = []"

definition readStringOrArray :: "yaml option \<Rightarrow> string list" where
  "readStringOrArray v = (case readStringScalar v of Some s \<Rightarrow> [s] | None \<Rightarrow> readStringArray v)"

section \<open>Policies\<close>

definition read_strategy :: "string option \<Rightarrow> backoff_strategy option" where
  "read_strategy s =
     (if s = Some ''fixed'' then Some Fixed else if s = Some ''linear'' then Some Linear
      else if s = Some ''exponential'' then Some Exponential
      else if s = Some ''exponential_jitter'' then Some ExponentialJitter else None)"

definition ed_read_backoff :: "yaml_pair list \<Rightarrow> ed_backoff" where
  "ed_read_backoff bMap = \<lparr>pb_strategy = read_strategy (readStringScalar (value_at bMap ''strategy'')),
     pb_initialDelayMs = readNumberScalar (value_at bMap ''initialDelayMs''),
     pb_maxDelayMs = readNumberScalar (value_at bMap ''maxDelayMs''),
     pb_multiplier = readNumberScalar (value_at bMap ''multiplier'')\<rparr>"

definition ed_read_retry :: "yaml_pair list \<Rightarrow> ed_retry" where
  "ed_read_retry retryMap = \<lparr>er_maxAttempts = readNumberScalar (value_at retryMap ''maxAttempts''),
     er_backoff = map_option ed_read_backoff (map_items (value_at retryMap ''backoff''))\<rparr>"

definition ed_read_breaker :: "yaml_pair list \<Rightarrow> ed_breaker" where
  "ed_read_breaker cbMap = \<lparr>ec_enabled = readBooleanScalar (value_at cbMap ''enabled''),
     ec_key = readStringScalar (value_at cbMap ''key''),
     ec_failureThreshold = readNumberScalar (value_at cbMap ''failureThreshold''),
     ec_slidingWindowSize = readNumberScalar (value_at cbMap ''slidingWindowSize''),
     ec_openDurationMs = readNumberScalar (value_at cbMap ''openDurationMs''),
     ec_halfOpenMaxCalls = readNumberScalar (value_at cbMap ''halfOpenMaxCalls'')\<rparr>"

definition ed_read_onfail :: "yaml_pair list \<Rightarrow> ed_onfail" where
  "ed_read_onfail ofMap = \<lparr>po_compensate = readBooleanScalar (value_at ofMap ''compensate''),
     po_target = readStringScalar (value_at ofMap ''target'')\<rparr>"

definition ed_read_benchmark :: "yaml_pair list \<Rightarrow> ed_benchmark option" where
  "ed_read_benchmark bm =
     map_option (\<lambda>e. \<lparr>pm_enabled = Some e\<rparr>) (readBooleanScalar (value_at bm ''enabled''))"

definition parsePolicyFromMap :: "yaml_document \<Rightarrow> yaml_pair list \<Rightarrow> ed_policy \<times> source_range option" where
  "parsePolicyFromMap d items =
     (let onFail = map_items (value_at items ''onFail'');
          targetPair = Option.bind onFail (\<lambda>ofMap. findPair ofMap ''target'')
      in (\<lparr>ep_retry = map_option ed_read_retry (map_items (value_at items ''retry'')),
           ep_circuitBreaker = map_option ed_read_breaker (map_items (value_at items ''circuitBreaker'')),
           ep_onFail = map_option ed_read_onfail onFail,
           ep_benchmark = Option.bind (map_items (value_at items ''benchmark'')) ed_read_benchmark\<rparr>,
          if readStringScalar (pair_value targetPair) \<noteq> None \<and> isNode (pair_value targetPair)
          then Some (rangeFromNode d (pair_value targetPair) None) else None))"

section \<open>Transitions\<close>

definition transition_id :: "string \<Rightarrow> string \<Rightarrow> bool \<Rightarrow> string" where
  "transition_id sourceStatePath eventName isOnDone =
     (if isOnDone then sourceStatePath @ ''::onDone'' else sourceStatePath @ ''::on::'' @ eventName)"

text \<open>What a transition has when its value is neither a string nor a map; the other forms add to it.\<close>

definition bare_transition ::
  "yaml_document \<Rightarrow> yaml_pair \<Rightarrow> string \<Rightarrow> bool \<Rightarrow> string \<Rightarrow> ed_norm_policy \<times> policy_sources \<Rightarrow>
     parsed_transition" where
  "bare_transition d p eventName isOnDone sourceStatePath merged = \<lparr>
     px_id = transition_id sourceStatePath eventName isOnDone, px_event = eventName,
     px_isOnDone = isOnDone, px_isShorthand = False, px_sourceStatePath = sourceStatePath,
     px_target = None, px_targetRange = None, px_transition = None, px_transitionRange = None,
     px_compensate = None, px_compensateRange = None, px_effects = [], px_effectsRange = None,
     px_description = None, px_policy = no_ed_policy, px_policyRange = None,
     px_onFailTargetRange = None, px_effectivePolicy = fst merged, px_policySources = snd merged,
     px_keyRange = (if isNode (fst p) then rangeFromNode d (fst p) None else rangeFromOffsets d 0 0),
     px_blockRange = rangeFromPair d p\<rparr>"

definition parseTransitionPair ::
  "yaml_document \<Rightarrow> yaml_pair \<Rightarrow> string \<Rightarrow> bool \<Rightarrow> string \<Rightarrow> ed_policy \<Rightarrow> parsed_transition" where
  "parseTransitionPair d p eventName isOnDone sourceStatePath machineDefaults =
     (let plain = bare_transition d p eventName isOnDone sourceStatePath
            (mergeTransitionPolicies (Some machineDefaults) None);
          keyRange = px_keyRange plain
      in case readStringScalar (snd p) of
           Some s \<Rightarrow> plain\<lparr>px_isShorthand := True, px_target := Some s,
             px_targetRange := Some (rangeFromNode d (snd p) (Some keyRange))\<rparr>
         | None \<Rightarrow>
             (case map_items (snd p) of
                None \<Rightarrow> plain
              | Some tMap \<Rightarrow>
                  let (policy, onFailTargetRange) = parsePolicyFromMap d tMap;
                      merged = mergeTransitionPolicies (Some machineDefaults) (Some policy)
                  in (bare_transition d p eventName isOnDone sourceStatePath merged)\<lparr>
                       px_target := readStringScalar (value_at tMap ''target''),
                       px_targetRange := node_range d (value_at tMap ''target'') keyRange,
                       px_transition := readStringScalar (value_at tMap ''transition''),
                       px_transitionRange := node_range d (value_at tMap ''transition'') keyRange,
                       px_compensate := readStringScalar (value_at tMap ''compensate''),
                       px_compensateRange := node_range d (value_at tMap ''compensate'') keyRange,
                       px_effects := readStringArray (value_at tMap ''effects''),
                       px_effectsRange := node_range d (pair_key (findPair tMap ''effects'')) keyRange,
                       px_description := readStringScalar (value_at tMap ''description''),
                       px_policy := policy,
                       px_policyRange := Some (rangeFromNode d (snd p) (Some (px_blockRange plain))),
                       px_onFailTargetRange := onFailTargetRange\<rparr>))"

text \<open>The transitions of an \<open>on\<close> map; an event written twice is overwritten in place.\<close>

fun parse_on :: "yaml_document \<Rightarrow> ed_policy \<Rightarrow> string \<Rightarrow> yaml_pair list \<Rightarrow> parsed_transition dict \<Rightarrow>
    parsed_transition dict" where
  "parse_on d defs path [] acc = acc"
| "parse_on d defs path ((Some (YScalar r k), v) # items) acc =
     parse_on d defs path items (AList.update (scalar_text k)
       (parseTransitionPair d (Some (YScalar r k), v) (scalar_text k) False path defs) acc)"
| "parse_on d defs path (_ # items) acc = parse_on d defs path items acc"

section \<open>States\<close>

definition read_state_type :: "string option \<Rightarrow> ed_state_type option" where
  "read_state_type t =
     (if t = Some ''atomic'' then Some EdAtomic else if t = Some ''compound'' then Some EdCompound
      else if t = Some ''parallel'' then Some EdParallel else if t = Some ''final'' then Some EdFinal else None)"

definition child_path :: "string option \<Rightarrow> string \<Rightarrow> string" where
  "child_path parentPath name = (case truthy parentPath of Some p \<Rightarrow> p @ dot @ name | None \<Rightarrow> name)"

definition key_range :: "yaml_document \<Rightarrow> yaml_pair \<Rightarrow> source_range" where
  "key_range d p = (if isNode (fst p) then rangeFromNode d (fst p) None else rangeFromOffsets d 0 0)"

text \<open>A state whose value is no map.\<close>

definition empty_state_info :: "yaml_document \<Rightarrow> yaml_pair \<Rightarrow> string \<Rightarrow> string option \<Rightarrow> state_info" where
  "empty_state_info d p name parentPath = \<lparr>
     si_name = name, si_path = child_path parentPath name, si_parentPath = parentPath,
     si_explicitType = None, si_typeRange = None, si_inferredType = EdAtomic, si_description = None,
     si_initial = None, si_initialKeyRange = None, si_initialValueRange = None,
     si_entry = [], si_entryRange = None, si_exit = [], si_exitRange = None, si_on = [],
     si_onKeyRange = None, si_onDone = None, si_statesKeyRange = None, si_keyRange = key_range d p,
     si_blockRange = rangeFromPair d p, si_isImplicitError = False,
     si_isCustomError = (parentPath = None \<and> name = ''error'')\<rparr>"

definition state_info_of ::
  "yaml_document \<Rightarrow> ed_policy \<Rightarrow> yaml_pair \<Rightarrow> yaml_pair list \<Rightarrow> string \<Rightarrow> string option \<Rightarrow> state_info" where
  "state_info_of d defs p sMap name parentPath =
     (let path = child_path parentPath name; keyRange = key_range d p;
          explicitType = read_state_type (readStringScalar (value_at sMap ''type''));
          hasChildStates = (case map_items (value_at sMap ''states'') of Some its \<Rightarrow> its \<noteq> [] | None \<Rightarrow> False)
      in (empty_state_info d p name parentPath)\<lparr>
        si_explicitType := explicitType,
        si_typeRange := node_range d (value_at sMap ''type'') keyRange,
        si_inferredType := (case explicitType of Some t \<Rightarrow> t
          | None \<Rightarrow> if hasChildStates then EdCompound else EdAtomic),
        si_description := readStringScalar (value_at sMap ''description''),
        si_initial := readStringScalar (value_at sMap ''initial''),
        si_initialKeyRange := node_range d (pair_key (findPair sMap ''initial'')) keyRange,
        si_initialValueRange := node_range d (value_at sMap ''initial'') keyRange,
        si_entry := readStringArray (value_at sMap ''entry''),
        si_entryRange := node_range d (pair_key (findPair sMap ''entry'')) keyRange,
        si_exit := readStringArray (value_at sMap ''exit''),
        si_exitRange := node_range d (pair_key (findPair sMap ''exit'')) keyRange,
        si_on := (case map_items (value_at sMap ''on'') of
          Some its \<Rightarrow> parse_on d defs path its [] | None \<Rightarrow> []),
        si_onKeyRange := node_range d (pair_key (findPair sMap ''on'')) keyRange,
        si_onDone := map_option (\<lambda>q. parseTransitionPair d q ''onDone'' True path defs) (findPair sMap ''onDone''),
        si_statesKeyRange := node_range d (pair_key (findPair sMap ''states'')) keyRange\<rparr>)"

text \<open>What the walk fills in beside the tree: the states by path and the untyped contexts found.\<close>

record parse_acc =
  pa_states :: "parsed_state dict"
  pa_contexts :: "(string \<times> source_range) list"

definition note_context :: "yaml_document \<Rightarrow> string \<Rightarrow> yaml_pair list \<Rightarrow> parse_acc \<Rightarrow> parse_acc" where
  "note_context d pointer items acc =
     (let k = pair_key (findPair items ''context'') in
      if isNode k then acc\<lparr>pa_contexts := pa_contexts acc @ [(pointer, rangeFromNode d k None)]\<rparr> else acc)"

definition state_pointer :: "string \<Rightarrow> string" where
  "state_pointer path = ''/states/'' @ join ''/states/'' (split_dot path) @ ''/context''"

definition add_state :: "parsed_state \<Rightarrow> parse_acc \<Rightarrow> parse_acc" where
  "add_state n acc = acc\<lparr>pa_states := AList.update (si_path (ps_info n)) n (pa_states acc)\<rparr>"

abbreviation pairs_size :: "yaml_pair list \<Rightarrow> nat" where
  "pairs_size items \<equiv> size_list (size_prod (size_option size) (size_option size)) items"

lemma findPair_mem: "findPair items k = Some p \<Longrightarrow> p \<in> set items"
  by (induction items k rule: findPair.induct) (auto split: if_splits)

lemma map_items_size: "map_items v = Some items \<Longrightarrow> pairs_size items < size_option size v"
  by (induction v rule: map_items.induct) auto

lemma value_at_size:
  assumes "map_items (value_at items k) = Some its"
  shows "pairs_size its < pairs_size items"
proof -
  obtain p where p: "findPair items k = Some p" using assms by (cases "findPair items k") auto
  have "pairs_size its < size_option size (snd p)" using map_items_size assms p by simp
  also have "\<dots> \<le> size_prod (size_option size) (size_option size) p" by (cases p) simp
  also have "\<dots> \<le> pairs_size items"
    using findPair_mem [OF p] by (simp add: size_list_estimation')
  finally show ?thesis .
qed

function parseStatePair ::
    "yaml_document \<Rightarrow> ed_policy \<Rightarrow> yaml_pair \<Rightarrow> string \<Rightarrow> string option \<Rightarrow> parse_acc \<Rightarrow>
       parsed_state \<times> parse_acc"
  and parse_states ::
    "yaml_document \<Rightarrow> ed_policy \<Rightarrow> yaml_pair list \<Rightarrow> string option \<Rightarrow> parsed_state dict \<Rightarrow> parse_acc \<Rightarrow>
       parsed_state dict \<times> parse_acc" where
  "parseStatePair d defs p name parentPath acc =
     (case map_items (snd p) of
        None \<Rightarrow>
          let n = PState (empty_state_info d p name parentPath) [] in (n, add_state n acc)
      | Some sMap \<Rightarrow>
          let path = child_path parentPath name;
              acc = note_context d (state_pointer path) sMap acc;
              (childStates, acc) =
                (case map_items (value_at sMap ''states'') of
                   Some its \<Rightarrow> parse_states d defs its (Some path) [] acc
                 | None \<Rightarrow> ([], acc));
              n = PState (state_info_of d defs p sMap name parentPath) childStates
          in (n, add_state n acc))"
| "parse_states d defs [] parentPath states acc = (states, acc)"
| "parse_states d defs (item # items) parentPath states acc =
     (case item of
        (Some (YScalar r k), v) \<Rightarrow>
          let (n, acc) = parseStatePair d defs (Some (YScalar r k), v) (scalar_text k) parentPath acc
          in parse_states d defs items parentPath (AList.update (scalar_text k) n states) acc
      | _ \<Rightarrow> parse_states d defs items parentPath states acc)"
  by pat_completeness auto
termination
proof (relation "measure (\<lambda>x. case x of
    Inl (d, defs, p, name, parentPath, acc) \<Rightarrow> Suc (size_option size (snd p))
  | Inr (d, defs, items, parentPath, states, acc) \<Rightarrow> pairs_size items)", goal_cases)
  case (2 d defs p name parentPath acc sMap path acc' its)
  then show ?case using map_items_size [of "snd p" sMap] value_at_size [of sMap "''states''" its] by simp
qed auto

section \<open>The machine\<close>

definition implicit_error_state :: "source_range \<Rightarrow> parsed_state" where
  "implicit_error_state fallbackRange = PState \<lparr>
     si_name = ''error'', si_path = ''error'', si_parentPath = None, si_explicitType = Some EdFinal,
     si_typeRange = None, si_inferredType = EdFinal,
     si_description = Some ''Implicit built-in terminal error state injected by DFSM v1.0'',
     si_initial = None, si_initialKeyRange = None, si_initialValueRange = None,
     si_entry = [], si_entryRange = None, si_exit = [], si_exitRange = None, si_on = [],
     si_onKeyRange = None, si_onDone = None, si_statesKeyRange = None, si_keyRange = fallbackRange,
     si_blockRange = fallbackRange, si_isImplicitError = True, si_isCustomError = False\<rparr> []"

definition read_root_type :: "string option \<Rightarrow> ed_root_type option" where
  "read_root_type t =
     (if t = Some ''compound'' then Some EdRootCompound
      else if t = Some ''parallel'' then Some EdRootParallel else None)"

definition ed_read_hooks :: "yaml option \<Rightarrow> ed_hooks" where
  "ed_read_hooks v =
     (let slot = (\<lambda>k. case map_items v of Some hooksMap \<Rightarrow> readStringOrArray (value_at hooksMap k) | None \<Rightarrow> [])
      in \<lparr>eh_onStart = slot ''onStart'', eh_beforeTransition = slot ''beforeTransition'',
          eh_afterTransition = slot ''afterTransition'', eh_onCompensate = slot ''onCompensate'',
          eh_onComplete = slot ''onComplete'', eh_onTerminal = slot ''onTerminal''\<rparr>)"

record raw_parse =
  rp_document :: yaml_document
  rp_rawData :: jval
  rp_machine :: "parsed_machine option"
  rp_syntaxDiagnostics :: "diagnostic list"
  rp_untypedContexts :: "(string \<times> source_range) list"

definition syntax_diagnostic :: "yaml_document \<Rightarrow> string \<Rightarrow> int \<Rightarrow> int \<Rightarrow> diagnostic" where
  "syntax_diagnostic d msg a b = \<lparr>dg_code = ''dfsm/yaml-syntax'', dg_severity = SevError,
     dg_message = msg, dg_range = rangeFromOffsets d a b, dg_path = None\<rparr>"

definition syntax_diagnostics :: "yaml_document \<Rightarrow> diagnostic list" where
  "syntax_diagnostics d =
     (let reported = map (\<lambda>(msg, pos).
            let a = or_else (map_option fst pos) 0; b = or_else (map_option snd pos) (a + 1)
            in syntax_diagnostic d msg a b) (yd_errors d)
      in if reported \<noteq> [] then reported
         else case yd_toJS d of
           Inr v \<Rightarrow> []
         | Inl msg \<Rightarrow> [syntax_diagnostic d msg 0 (min (int (length (yd_source d))) 1)])"

definition raw_data :: "yaml_document \<Rightarrow> jval" where
  "raw_data d = (if yd_errors d \<noteq> [] then JNull else case yd_toJS d of Inr v \<Rightarrow> v | Inl _ \<Rightarrow> JNull)"

definition parse_machine :: "yaml_document \<Rightarrow> yaml \<Rightarrow> yaml_pair list \<Rightarrow> parsed_machine \<times> (string \<times> source_range) list" where
  "parse_machine d rootMap items =
     (let rootRange = rangeFromNode d (Some rootMap) None;
          start = note_context d ''/context'' items \<lparr>pa_states = [], pa_contexts = []\<rparr>;
          explicitRootType = read_root_type (readStringScalar (value_at items ''type''));
          (defaults, defaultsOnFailTargetRange) =
            (case map_items (value_at items ''defaults'') of
               Some its \<Rightarrow> parsePolicyFromMap d its | None \<Rightarrow> (no_ed_policy, None));
          (topStates, acc) =
            (case map_items (value_at items ''states'') of
               Some its \<Rightarrow> parse_states d defaults its None [] start | None \<Rightarrow> ([], start));
          hasExplicitError = (map_of topStates ''error'' \<noteq> None);
          statesKeyRange = node_range d (pair_key (findPair items ''states'')) rootRange;
          implicitErrorNode = (if hasExplicitError then None
            else Some (implicit_error_state (or_else statesKeyRange rootRange)));
          allStatesByPath = (case implicitErrorNode of
              None \<Rightarrow> pa_states acc | Some n \<Rightarrow> AList.update ''error'' n (pa_states acc))
      in (\<lparr>pm_dfsmVersion = (case value_at items ''dfsm'' of Some (YScalar r v) \<Rightarrow> Some (scalar_text v) | _ \<Rightarrow> None),
           pm_id = readStringScalar (value_at items ''id''),
           pm_idRange = or_elseo (node_range d (value_at items ''id'') rootRange)
             (node_range d (pair_key (findPair items ''id'')) rootRange),
           pm_version = or_else (readStringScalar (value_at items ''version'')) ''1.0.0'',
           pm_description = readStringScalar (value_at items ''description''),
           pm_rootType = or_else explicitRootType EdRootCompound, pm_explicitRootType = explicitRootType,
           pm_rootTypeRange = node_range d (value_at items ''type'') rootRange,
           pm_initial = readStringScalar (value_at items ''initial''),
           pm_initialKeyRange = node_range d (pair_key (findPair items ''initial'')) rootRange,
           pm_initialValueRange = node_range d (value_at items ''initial'') rootRange,
           pm_registry = map_option (\<lambda>its. (readStringScalar (value_at its ''namespace''),
             or_else (readBooleanScalar (value_at its ''strict'')) True)) (map_items (value_at items ''registry'')),
           pm_defaults = defaults,
           pm_defaultsRange = node_range d (pair_key (findPair items ''defaults'')) rootRange,
           pm_defaultsOnFailTargetRange = defaultsOnFailTargetRange,
           pm_hooks = ed_read_hooks (value_at items ''hooks''),
           pm_effects = readStringArray (value_at items ''effects''),
           pm_maxEffectChainDepth = readNumberScalar (value_at items ''maxEffectChainDepth''),
           pm_states = topStates, pm_statesKeyRange = statesKeyRange,
           pm_allStatesByPath = allStatesByPath, pm_explicitStateCount = length (pa_states acc),
           pm_errorStateMode = (if hasExplicitError then CustomError else ImplicitError),
           pm_implicitErrorNode = implicitErrorNode, pm_rootRange = rootRange\<rparr>, pa_contexts acc))"

definition parseDfsmYaml :: "yaml_document \<Rightarrow> raw_parse" where
  "parseDfsmYaml d =
     (let parsed = (case yd_contents d of Some (YMap r items) \<Rightarrow> Some (parse_machine d (YMap r items) items)
                      | _ \<Rightarrow> None)
      in \<lparr>rp_document = d, rp_rawData = raw_data d, rp_machine = map_option fst parsed,
          rp_syntaxDiagnostics = syntax_diagnostics d,
          rp_untypedContexts = (case parsed of Some (m, cs) \<Rightarrow> cs | None \<Rightarrow> [])\<rparr>)"

section \<open>Positions\<close>

text \<open>JSON pointers: \<open>~1\<close> stands for a slash and \<open>~0\<close> for a tilde.\<close>

fun replace_pair :: "char \<Rightarrow> char \<Rightarrow> char \<Rightarrow> string \<Rightarrow> string" where
  "replace_pair a b c (x # y # s) =
     (if x = a \<and> y = b then c # replace_pair a b c s else x # replace_pair a b c (y # s))"
| "replace_pair a b c s = s"

definition pointer_segments :: "string \<Rightarrow> string list" where
  "pointer_segments instancePath =
     map (\<lambda>s. replace_pair (CHR ''~'') (CHR ''0'') (CHR ''~'') (replace_pair (CHR ''~'') (CHR ''1'') (CHR ''/'') s))
       (filter (\<lambda>s. s \<noteq> []) (split_on (CHR ''/'') instancePath))"

text \<open>An index in decimal digits, as pointers have it.\<close>

definition digit :: "char \<Rightarrow> nat option" where
  "digit c = (let n = of_char c :: nat in if 48 \<le> n \<and> n \<le> 57 then Some (n - 48) else None)"

fun read_index :: "string \<Rightarrow> nat \<Rightarrow> nat option" where
  "read_index [] n = Some n"
| "read_index (c # cs) n = (case digit c of None \<Rightarrow> None | Some k \<Rightarrow> read_index cs (10 * n + k))"

definition step_range :: "yaml_document \<Rightarrow> yaml option \<Rightarrow> source_range \<Rightarrow> source_range" where
  "step_range d v lastRange = (if isNode v then rangeFromNode d v (Some lastRange) else lastRange)"

fun pointer_walk :: "yaml_document \<Rightarrow> string list \<Rightarrow> yaml option \<Rightarrow> source_range \<Rightarrow> yaml option \<times> source_range" where
  "pointer_walk d [] current lastRange = (current, lastRange)"
| "pointer_walk d (seg # segs) current lastRange =
     (case current of
        Some (YMap r items) \<Rightarrow>
          (case findPair items seg of
             None \<Rightarrow> (current, lastRange)
           | Some p \<Rightarrow> pointer_walk d segs (snd p) (step_range d (snd p) (step_range d (fst p) lastRange)))
      | Some (YSeq r items) \<Rightarrow>
          (case read_index seg 0 of
             None \<Rightarrow> (current, lastRange)
           | Some i \<Rightarrow>
               if i < length items
               then pointer_walk d segs (Some (items ! i)) (step_range d (Some (items ! i)) lastRange)
               else (current, lastRange))
      | _ \<Rightarrow> (current, lastRange))"

definition resolveJsonPointerRange :: "yaml_document \<Rightarrow> string \<Rightarrow> string option \<Rightarrow> source_range" where
  "resolveJsonPointerRange d instancePath extraPropertyKey =
     (let contents = yd_contents d;
          (current, lastRange) = pointer_walk d (pointer_segments instancePath) contents
            (rangeFromNode d (if isNode contents then contents else None) None);
          extra = Option.bind (truthy extraPropertyKey)
            (\<lambda>k. Option.bind (map_items current) (\<lambda>items. pair_key (findPair items k)))
      in step_range d extra lastRange)"

definition containsLineCol :: "int \<Rightarrow> int option \<Rightarrow> source_range \<Rightarrow> bool" where
  "containsLineCol line1 col1 r \<longleftrightarrow>
     sr_line r \<le> line1 \<and> line1 \<le> sr_endLine r \<and>
     (sr_line r = sr_endLine r \<longrightarrow>
       (case col1 of Some c \<Rightarrow> sr_column r \<le> c \<and> c \<le> sr_endColumn r + 1 | None \<Rightarrow> True))"

definition state_depth :: "parsed_state \<Rightarrow> int" where
  "state_depth n = int (length (split_dot (si_path (ps_info n))))"

text \<open>The deepest explicit state at the position; of states of equal depth the first.\<close>

fun deepest_at :: "int \<Rightarrow> int option \<Rightarrow> parsed_state list \<Rightarrow> parsed_state option \<Rightarrow> int \<Rightarrow> parsed_state option" where
  "deepest_at l c [] best bestDepth = best"
| "deepest_at l c (n # ns) best bestDepth =
     (if \<not> si_isImplicitError (ps_info n) \<and> containsLineCol l c (si_blockRange (ps_info n)) \<and>
         state_depth n > bestDepth
      then deepest_at l c ns (Some n) (state_depth n) else deepest_at l c ns best bestDepth)"

definition findStateAtPosition ::
  "parsed_machine option \<Rightarrow> int \<Rightarrow> int option \<Rightarrow> string option \<times> string option" where
  "findStateAtPosition machine line1 col1 =
     (case Option.bind machine (\<lambda>m. deepest_at line1 col1 (vals (pm_allStatesByPath m)) None (-1)) of
        None \<Rightarrow> (None, None)
      | Some s \<Rightarrow>
          let i = ps_info s;
              matched = map_option px_id (find (\<lambda>t. containsLineCol line1 col1 (px_blockRange t)) (vals (si_on i)));
              done = (case si_onDone i of
                Some t \<Rightarrow> if containsLineCol line1 col1 (px_blockRange t) then Some (px_id t) else None
              | None \<Rightarrow> None)
          in (Some (si_path i), if truthy matched = None then or_elseo done matched else matched))"

end
