(* ===== verification/EditorValidator.thy ===== *)
theory EditorValidator
  imports EditorParser "HOL-Library.While_Combinator"
begin

text \<open>
  The editor's analysis (\<^verbatim>\<open>core/validator.ts\<close>): syntax and schema diagnostics, the statechart rules, the
  search for unreachable states, and the summary. The schema validator is a parameter: a function
  from the value of the document to the errors it reports.
\<close>

section \<open>Schema diagnostics\<close>

record ajv_error =
  aj_instancePath :: string
  aj_schemaPath :: string
  aj_keyword :: string
  aj_additionalProperty :: "string option"
  aj_missingProperty :: "string option"
  aj_message :: "string option"

definition ends_with :: "string \<Rightarrow> string \<Rightarrow> bool" where
  "ends_with s t \<longleftrightarrow> length t \<le> length s \<and> drop (length s - length t) s = t"

fun map_cursor :: "string list \<Rightarrow> yaml option \<Rightarrow> yaml option" where
  "map_cursor [] cursor = cursor"
| "map_cursor (seg # segs) cursor =
     (case map_items cursor of
        Some items \<Rightarrow> map_cursor segs (value_at items seg)
      | None \<Rightarrow> None)"

definition shouldSkipAjvError :: "ajv_error \<Rightarrow> yaml_document \<Rightarrow> bool" where
  "shouldSkipAjvError err d \<longleftrightarrow>
     (aj_keyword err = ''additionalProperties'' \<and> aj_additionalProperty err = Some ''context'') \<or>
     (aj_instancePath err = [] \<and> aj_keyword err = ''if'') \<or>
     (aj_instancePath err = [] \<and> aj_keyword err = ''required'' \<and> aj_missingProperty err = Some ''initial'') \<or>
     (aj_keyword err = ''oneOf'' \<and> ends_with (aj_schemaPath err) ''/oneOf'') \<or>
     (ends_with (aj_schemaPath err) ''/oneOf/0/type'' \<and> aj_keyword err = ''type'' \<and>
        map_items (map_cursor (filter (\<lambda>s. s \<noteq> []) (split_on (CHR ''/'') (aj_instancePath err)))
          (yd_contents d)) \<noteq> None)"

definition ajv_text :: "ajv_error \<Rightarrow> string" where
  "ajv_text err =
     (let message = or_else (aj_message err) ''Schema validation error'' in
      case truthy (if aj_keyword err = ''additionalProperties'' then aj_additionalProperty err else None) of
        Some extraProp \<Rightarrow> ''Unknown property '' @ quoted extraProp @ '' is not permitted by DFSM v1.0 schema.''
      | None \<Rightarrow>
          if aj_keyword err = ''required'' then
            (case truthy (aj_missingProperty err) of
               Some missing \<Rightarrow> ''Missing required property '' @ quoted missing @ ''.''
             | None \<Rightarrow> message)
          else if aj_instancePath err \<noteq> [] then aj_instancePath err @ '': '' @ message
          else message)"

definition ajv_diagnostic :: "yaml_document \<Rightarrow> ajv_error \<Rightarrow> diagnostic" where
  "ajv_diagnostic d err = \<lparr>dg_code = ''dfsm/schema'', dg_severity = SevError, dg_message = ajv_text err,
     dg_range = resolveJsonPointerRange d (aj_instancePath err)
       (if aj_keyword err = ''additionalProperties'' then aj_additionalProperty err else None),
     dg_path = Some (if aj_instancePath err = [] then ''/'' else aj_instancePath err)\<rparr>"

definition dedupe_key :: "diagnostic \<Rightarrow> string" where
  "dedupe_key dg = show_int (sr_startOffset (dg_range dg)) @ '':'' @ show_int (sr_endOffset (dg_range dg)) @
     '':'' @ dg_message dg"

fun first_by_key :: "string list \<Rightarrow> diagnostic list \<Rightarrow> diagnostic list" where
  "first_by_key seenKeys [] = []"
| "first_by_key seenKeys (x # xs) =
     (if dedupe_key x \<in> set seenKeys then first_by_key seenKeys xs
      else x # first_by_key (dedupe_key x # seenKeys) xs)"

definition collectAjvDiagnostics :: "(jval \<Rightarrow> ajv_error list) \<Rightarrow> raw_parse \<Rightarrow> diagnostic list" where
  "collectAjvDiagnostics validateSchemaFn parsed =
     (if rp_syntaxDiagnostics parsed \<noteq> [] \<or> rp_rawData parsed = JNull then []
      else first_by_key [] (map (ajv_diagnostic (rp_document parsed))
        (filter (\<lambda>err. \<not> shouldSkipAjvError err (rp_document parsed)) (validateSchemaFn (rp_rawData parsed)))))"

section \<open>Statechart rules\<close>

definition issue :: "string \<Rightarrow> severity \<Rightarrow> string \<Rightarrow> source_range \<Rightarrow> string \<Rightarrow> diagnostic" where
  "issue code sev msg r path = \<lparr>dg_code = code, dg_severity = sev, dg_message = msg, dg_range = r,
     dg_path = Some path\<rparr>"

definition validateTransitionTargets :: "parsed_machine \<Rightarrow> parsed_transition \<Rightarrow> diagnostic list" where
  "validateTransitionTargets machine t =
     (case px_target t of
        None \<Rightarrow> []
      | Some target \<Rightarrow>
          let res = resolveStateTarget machine (Some (px_sourceStatePath t)) target in
          if rs_resolved res then []
          else [issue ''dfsm/unresolved-target'' SevError
            (or_else (rs_reason res) (''Unresolved transition target '' @ quoted target @ '' on '' @
               quoted (px_sourceStatePath t) @ '' ('' @ px_event t @ '').''))
            (or_else (px_targetRange t) (px_keyRange t)) (px_sourceStatePath t)]) @
     (case Option.bind (ep_onFail (px_policy t)) po_target of
        None \<Rightarrow> []
      | Some failTarget \<Rightarrow>
          let res = resolveStateTarget machine (Some (px_sourceStatePath t)) failTarget in
          if rs_resolved res then []
          else [issue ''dfsm/unresolved-target'' SevError
            (or_else (rs_reason res) (''Unresolved onFail.target '' @ quoted failTarget @ '' on '' @
               quoted (px_sourceStatePath t) @ '' ('' @ px_event t @ '').''))
            (or_else (px_onFailTargetRange t) (px_keyRange t)) (px_sourceStatePath t)])"

definition compound_rules :: "state_info \<Rightarrow> string list \<Rightarrow> diagnostic list" where
  "compound_rules i childNames =
     (if childNames = []
      then [issue ''dfsm/compound-empty-states'' SevError
        (''Compound state '' @ quoted (si_path i) @ '' must define at least one child state in '' @
         quoted ''states'' @ ''.'') (or_else (si_statesKeyRange i) (si_keyRange i)) (si_path i)] else []) @
     (case truthy (si_initial i) of
        None \<Rightarrow> [issue ''dfsm/compound-missing-initial'' SevError
          (''Compound state '' @ quoted (si_path i) @ '' must specify an '' @ quoted ''initial'' @ '' child state.'')
          (si_keyRange i) (si_path i)]
      | Some init \<Rightarrow>
          if init \<in> set childNames then []
          else [issue ''dfsm/invalid-initial-target'' SevError
            (''Initial state '' @ quoted init @ '' does not exist in compound state '' @
             quoted (si_path i @ ''.states'') @ ''.'')
            (or_else (or_elseo (si_initialValueRange i) (si_initialKeyRange i)) (si_keyRange i)) (si_path i)])"

definition parallel_rules :: "state_info \<Rightarrow> string list \<Rightarrow> diagnostic list" where
  "parallel_rules i childNames =
     (if si_initial i \<noteq> None
      then [issue ''dfsm/parallel-with-initial'' SevError
        (''Parallel state '' @ quoted (si_path i) @ '' must not define '' @ quoted ''initial'' @
         '' because parallel states activate all child regions simultaneously.'')
        (or_else (or_elseo (si_initialKeyRange i) (si_initialValueRange i)) (si_keyRange i)) (si_path i)] else []) @
     (if childNames = []
      then [issue ''dfsm/parallel-missing-states'' SevError
        (''Parallel state '' @ quoted (si_path i) @ '' must define orthogonal child region '' @
         quoted ''states'' @ ''.'') (si_keyRange i) (si_path i)] else [])"

definition final_issue :: "state_info \<Rightarrow> string \<Rightarrow> source_range \<Rightarrow> diagnostic" where
  "final_issue i what r = issue ''dfsm/final-invalid-properties'' SevError
     (''Final state '' @ quoted (si_path i) @ '' cannot define '' @ what @ ''.'') r (si_path i)"

definition final_rules :: "state_info \<Rightarrow> string list \<Rightarrow> diagnostic list" where
  "final_rules i childNames =
     (if childNames \<noteq> [] \<or> si_statesKeyRange i \<noteq> None
      then [final_issue i (''child '' @ quoted ''states'') (or_else (si_statesKeyRange i) (si_keyRange i))] else []) @
     (if si_initial i \<noteq> None \<or> si_initialKeyRange i \<noteq> None
      then [final_issue i (quoted ''initial'') (or_else (si_initialKeyRange i) (si_keyRange i))] else []) @
     (if si_on i \<noteq> [] \<or> si_onKeyRange i \<noteq> None
      then [final_issue i (''outgoing '' @ quoted ''on'' @ '' transitions'') (or_else (si_onKeyRange i) (si_keyRange i))]
      else []) @
     (case si_onDone i of None \<Rightarrow> [] | Some t \<Rightarrow> [final_issue i (quoted ''onDone'') (px_keyRange t)])"

definition shape_rules :: "state_info \<Rightarrow> string list \<Rightarrow> diagnostic list" where
  "shape_rules i childNames =
     (case si_inferredType i of
        EdCompound \<Rightarrow> compound_rules i childNames
      | EdParallel \<Rightarrow> parallel_rules i childNames
      | EdFinal \<Rightarrow> final_rules i childNames
      | EdAtomic \<Rightarrow>
          if si_initial i \<noteq> None
          then [issue ''dfsm/atomic-with-initial'' SevError
            (''Atomic state '' @ quoted (si_path i) @ '' defines '' @ quoted ''initial'' @ '' without child '' @
             quoted ''states'' @ ''.'') (or_else (si_initialKeyRange i) (si_keyRange i)) (si_path i)]
          else [])"

fun validateStateSemanticsRecursive :: "parsed_machine \<Rightarrow> parsed_state \<Rightarrow> diagnostic list" where
  "validateStateSemanticsRecursive machine (PState i states) =
     (if si_isImplicitError i then []
      else shape_rules i (keys states) @
        concat (map (validateTransitionTargets machine) (vals (si_on i))) @
        (case si_onDone i of Some t \<Rightarrow> validateTransitionTargets machine t | None \<Rightarrow> []) @
        concat (map (\<lambda>(k, child). validateStateSemanticsRecursive machine child) states))"

section \<open>Unreachable states\<close>

record search =
  se_reachable :: "string list"
  se_queue :: "parsed_state list"
  se_errorReferenced :: bool

definition reach_path :: "string \<Rightarrow> search \<Rightarrow> search" where
  "reach_path p s = s\<lparr>se_reachable := p # se_reachable s\<rparr>"

definition enqueue :: "parsed_state \<Rightarrow> search \<Rightarrow> search" where
  "enqueue n s = s\<lparr>se_queue := se_queue s @ [n]\<rparr>"

lemma before_last_dot_shorter: "CHR ''.'' \<in> set p \<Longrightarrow> length (before_last_dot p) < length p"
proof -
  assume "CHR ''.'' \<in> set p"
  then have "dropWhile (\<lambda>c. c \<noteq> CHR ''.'') (rev p) \<noteq> []" by (auto simp: dropWhile_eq_Nil_conv)
  then show ?thesis
    using length_dropWhile_le [of "\<lambda>c. c \<noteq> CHR ''.''" "rev p"]
    by (cases "dropWhile (\<lambda>c. c \<noteq> CHR ''.'') (rev p)") (auto simp: before_last_dot_def)
qed

text \<open>The ancestors of an entered state are marked and queued, but not entered.\<close>

function mark_ancestors :: "parsed_machine \<Rightarrow> string \<Rightarrow> search \<Rightarrow> search" where
  "mark_ancestors machine ancestorPath s =
     (if ancestorPath = [] then s
      else let s' = (if ancestorPath \<in> set (se_reachable s) then s
              else let marked = reach_path ancestorPath s in
                case map_of (pm_allStatesByPath machine) ancestorPath of
                  Some anc \<Rightarrow> enqueue anc marked | None \<Rightarrow> marked)
        in if CHR ''.'' \<in> set ancestorPath then mark_ancestors machine (before_last_dot ancestorPath) s' else s')"
  by pat_completeness auto
termination
  by (relation "measure (\<lambda>(m, p, s). length p)") (auto simp: before_last_dot_shorter)

declare mark_ancestors.simps [simp del]

function enterState :: "parsed_machine \<Rightarrow> parsed_state \<Rightarrow> search \<Rightarrow> search"
  and enter_all :: "parsed_machine \<Rightarrow> (string \<times> parsed_state) list \<Rightarrow> search \<Rightarrow> search" where
  "enterState machine (PState i states) s =
     (let s1 = mark_ancestors machine (or_else (si_parentPath i) []) s in
      if si_path i \<in> set (se_reachable s1) then s1
      else let s2 = enqueue (PState i states) (reach_path (si_path i) s1) in
        case si_inferredType i of
          EdCompound \<Rightarrow>
            (case truthy (si_initial i) of
               None \<Rightarrow> s2
             | Some init \<Rightarrow>
                 (case map_of states init of Some child \<Rightarrow> enterState machine child s2 | None \<Rightarrow> s2))
        | EdParallel \<Rightarrow> enter_all machine states s2
        | _ \<Rightarrow> s2)"
| "enter_all machine [] s = s"
| "enter_all machine ((k, n) # ns) s = enter_all machine ns (enterState machine n s)"
  by pat_completeness auto
termination
proof (relation "measure (\<lambda>x. case x of Inl (m, n, s) \<Rightarrow> size n
    | Inr (m, ns, s) \<Rightarrow> size_list (size_prod (\<lambda>_. 0) size) ns)", goal_cases)
  case (2 m i states s s1 s2 init child)
  then show ?case using map_of_size [of states init child size "\<lambda>_. 0"] by simp
qed auto

definition seed :: "parsed_machine \<Rightarrow> search \<Rightarrow> search" where
  "seed machine s =
     (case pm_rootType machine of
        EdRootParallel \<Rightarrow> enter_all machine (pm_states machine) s
      | EdRootCompound \<Rightarrow>
          (case Option.bind (truthy (pm_initial machine)) (map_of (pm_allStatesByPath machine)) of
             Some n \<Rightarrow> enterState machine n s | None \<Rightarrow> s))"

definition transitions_of :: "parsed_state \<Rightarrow> parsed_transition list" where
  "transitions_of n = vals (si_on (ps_info n)) @
     (case si_onDone (ps_info n) of Some t \<Rightarrow> [t] | None \<Rightarrow> [])"

definition enter_target :: "parsed_machine \<Rightarrow> string \<Rightarrow> string option \<Rightarrow> search \<Rightarrow> search" where
  "enter_target machine src target s =
     (case truthy target of
        None \<Rightarrow> s
      | Some t \<Rightarrow>
          (case rs_targetNode (resolveStateTarget machine (Some src) t) of
             Some n \<Rightarrow> enterState machine n s | None \<Rightarrow> s))"

definition follow_transition :: "parsed_machine \<Rightarrow> string \<Rightarrow> parsed_transition \<Rightarrow> search \<Rightarrow> search" where
  "follow_transition machine src t s =
     (let s1 = enter_target machine src (px_target t) s;
          failTarget = no_target (ef_onFail (px_effectivePolicy t));
          res = resolveStateTarget machine (Some src) failTarget;
          s2 = (if failTarget \<noteq> [] \<and> rs_resolved res \<and> rs_targetPath res = Some ''error''
                then s1\<lparr>se_errorReferenced := True\<rparr> else s1)
      in enter_target machine src (Some failTarget) s2)"

definition search_step :: "parsed_machine \<Rightarrow> search \<Rightarrow> search" where
  "search_step machine s =
     (case se_queue s of
        [] \<Rightarrow> s
      | n # ns \<Rightarrow> fold (follow_transition machine (si_path (ps_info n))) (transitions_of n) (s\<lparr>se_queue := ns\<rparr>))"

definition recovery_step :: "parsed_machine \<Rightarrow> search \<Rightarrow> search" where
  "recovery_step machine s =
     (case se_queue s of
        [] \<Rightarrow> s
      | n # ns \<Rightarrow> fold (\<lambda>t. enter_target machine (si_path (ps_info n)) (px_target t)) (transitions_of n)
          (s\<lparr>se_queue := ns\<rparr>))"

definition run_queue :: "(search \<Rightarrow> search) \<Rightarrow> search \<Rightarrow> search option" where
  "run_queue step = while_option (\<lambda>s. se_queue s \<noteq> []) step"

definition reachable_search :: "parsed_machine \<Rightarrow> search option" where
  "reachable_search machine =
     (let defaultFailTarget = or_else (Option.bind (ep_onFail (pm_defaults machine)) po_target) ''error'';
          start = \<lparr>se_reachable = [], se_queue = [], se_errorReferenced = (defaultFailTarget = ''error'')\<rparr>
      in case run_queue (search_step machine) (seed machine start) of
           None \<Rightarrow> None
         | Some s \<Rightarrow>
             (case map_of (pm_states machine) ''error'' of
                Some e \<Rightarrow>
                  if se_errorReferenced s \<and> ''error'' \<notin> set (se_reachable s)
                  then run_queue (recovery_step machine) (enterState machine e s) else Some s
              | None \<Rightarrow> Some s))"

definition unreachable_warning :: "parsed_state \<Rightarrow> diagnostic" where
  "unreachable_warning n = issue ''dfsm/unreachable-state'' SevWarning
     (''State '' @ quoted (si_path (ps_info n)) @ '' is unreachable from '' @ quoted ''initial'' @ '', '' @
      quoted ''parallel'' @ '' entry, '' @ quoted ''on'' @ '', '' @ quoted ''onDone'' @ '', or '' @
      quoted ''onFail.target'' @ ''.'') (si_keyRange (ps_info n)) (si_path (ps_info n))"

definition collectUnreachableStateDiagnostics :: "parsed_machine \<Rightarrow> diagnostic list option" where
  "collectUnreachableStateDiagnostics machine =
     (if pm_explicitStateCount machine = 0 then Some []
      else map_option (\<lambda>s. map unreachable_warning (filter (\<lambda>n.
          \<not> si_isImplicitError (ps_info n) \<and>
          \<not> (si_isCustomError (ps_info n) \<and> se_errorReferenced s) \<and>
          si_path (ps_info n) \<notin> set (se_reachable s)) (vals (pm_allStatesByPath machine))))
        (reachable_search machine))"

section \<open>The analysis\<close>

definition untyped_context_diagnostic :: "string \<times> source_range \<Rightarrow> diagnostic" where
  "untyped_context_diagnostic c = issue ''dfsm/untyped-context'' SevError
     (''Untyped '' @ quoted ''context'' @ '' is not allowed in DFSM YAML. DFSM defines strongly typed generic TContext and runtime validators in host source code rather than YAML.'')
     (snd c) (fst c)"

definition root_rules :: "parsed_machine \<Rightarrow> diagnostic list" where
  "root_rules machine =
     (case pm_rootType machine of
        EdRootCompound \<Rightarrow>
          (case truthy (pm_initial machine) of
             None \<Rightarrow> [issue ''dfsm/compound-missing-initial'' SevError
               (''Compound root machine must define an '' @ quoted ''initial'' @ '' child state.'')
               (or_else (pm_idRange machine) (pm_rootRange machine)) ''/'']
           | Some init \<Rightarrow>
               if pm_states machine \<noteq> [] \<and> init \<notin> set (keys (pm_states machine))
               then [issue ''dfsm/invalid-initial-target'' SevError
                 (''Root initial state '' @ quoted init @ '' does not exist in '' @ quoted ''states'' @ ''.'')
                 (or_else (or_elseo (pm_initialValueRange machine) (pm_initialKeyRange machine))
                   (pm_rootRange machine)) ''/initial'']
               else [])
      | EdRootParallel \<Rightarrow>
          if pm_initial machine \<noteq> None
          then [issue ''dfsm/parallel-with-initial'' SevError
            (''Parallel root machine must not define '' @ quoted ''initial'' @
             '' because parallel machines activate all child regions simultaneously.'')
            (or_else (or_elseo (pm_initialKeyRange machine) (pm_initialValueRange machine))
              (pm_rootRange machine)) ''/initial'']
          else [])"

definition default_target_rules :: "parsed_machine \<Rightarrow> diagnostic list" where
  "default_target_rules machine =
     (case Option.bind (ep_onFail (pm_defaults machine)) po_target of
        None \<Rightarrow> []
      | Some defTarget \<Rightarrow>
          let res = resolveStateTarget machine None defTarget in
          if rs_resolved res then []
          else [issue ''dfsm/unresolved-target'' SevError
            (or_else (rs_reason res) (''Unresolved defaults.onFail.target '' @ quoted defTarget @ '' in machine '' @
               quoted (or_else (pm_id machine) ''unnamed'') @ ''.''))
            (or_else (or_elseo (pm_defaultsOnFailTargetRange machine) (pm_defaultsRange machine))
              (pm_rootRange machine)) ''/defaults/onFail/target''])"

definition type_name :: "ed_state_type \<Rightarrow> string" where
  "type_name t = (case t of EdAtomic \<Rightarrow> ''atomic'' | EdCompound \<Rightarrow> ''compound'' | EdParallel \<Rightarrow> ''parallel''
     | EdFinal \<Rightarrow> ''final'')"

definition error_state_info :: "parsed_machine \<Rightarrow> diagnostic list" where
  "error_state_info machine =
     (case (pm_errorStateMode machine, map_of (pm_states machine) ''error'') of
        (CustomError, Some e) \<Rightarrow>
          [issue ''dfsm/error-state-custom'' SevInfo
            (''Error state: custom '' @ quoted ''states.error'' @ '' ('' @ type_name (si_inferredType (ps_info e)) @
             '') overrides the built-in implicit final error state.'') (si_keyRange (ps_info e)) ''error'']
      | _ \<Rightarrow>
          [issue ''dfsm/error-state-implicit'' SevInfo
            (''Error state: using built-in implicit final '' @ quoted ''error'' @ '' state (define '' @
             quoted ''states.error'' @ '' to override with custom recovery or entry effects).'')
            (or_else (or_elseo (pm_statesKeyRange machine) (pm_idRange machine)) (pm_rootRange machine)) ''/states''])"

definition semantic_diagnostics :: "parsed_machine \<Rightarrow> diagnostic list option" where
  "semantic_diagnostics machine =
     (case (if pm_states machine = [] then Some [] else collectUnreachableStateDiagnostics machine) of
        None \<Rightarrow> None
      | Some unreachable \<Rightarrow>
          Some (root_rules machine @ default_target_rules machine @
            concat (map (\<lambda>(k, n). validateStateSemanticsRecursive machine n) (pm_states machine)) @
            unreachable @ (if pm_states machine = [] then [] else error_state_info machine)))"

definition analyzeDfsmDocument :: "(jval \<Rightarrow> ajv_error list) \<Rightarrow> yaml_document \<Rightarrow> analysis option" where
  "analyzeDfsmDocument validateSchemaFn d =
     (let parsed = parseDfsmYaml d;
          first = rp_syntaxDiagnostics parsed @ map untyped_context_diagnostic (rp_untypedContexts parsed) @
            collectAjvDiagnostics validateSchemaFn parsed;
          semantic = (case rp_machine parsed of
            Some m \<Rightarrow> if rp_syntaxDiagnostics parsed = [] then semantic_diagnostics m else Some []
          | None \<Rightarrow> Some [])
      in map_option (\<lambda>ds.
           let diagnostics = first @ ds; errors = filter (\<lambda>x. dg_severity x = SevError) diagnostics in
           \<lparr>an_rawText = yd_source d, an_rawData = rp_rawData parsed, an_machine = rp_machine parsed,
            an_diagnostics = diagnostics, an_errors = errors,
            an_warnings = filter (\<lambda>x. dg_severity x = SevWarning) diagnostics,
            an_infos = filter (\<lambda>x. dg_severity x = SevInfo \<or> dg_severity x = SevHint) diagnostics,
            an_isValid = (errors = [] \<and> rp_machine parsed \<noteq> None)\<rparr>) semantic)"

end
