(* ===== verification/EditorReach.thy ===== *)
theory EditorReach
  imports EditorValidator
begin

text \<open>
  The search for unreachable states: it ends on every machine (each step takes a state off the queue,
  and a state is queued only when a path is marked for the first time), and what it marks can indeed
  be visited by following initial states, regions, transitions and failure targets.
\<close>

section \<open>States and paths of a machine\<close>

fun subtree :: "parsed_state \<Rightarrow> parsed_state list" where
  "subtree (PState i states) = PState i states # concat (map (\<lambda>(k, c). subtree c) states)"

function ancestors :: "string \<Rightarrow> string list" where
  "ancestors p = (if p = [] then [] else p # (if CHR ''.'' \<in> set p then ancestors (before_last_dot p) else []))"
  by pat_completeness auto
termination
  by (relation "measure length") (auto simp: before_last_dot_shorter)

declare ancestors.simps [simp del]

definition parents_of :: "parsed_state \<Rightarrow> string list" where
  "parents_of n = ancestors (or_else (si_parentPath (ps_info n)) [])"

definition known_states :: "parsed_machine \<Rightarrow> parsed_state set" where
  "known_states m = (\<Union>n \<in> set (vals (pm_allStatesByPath m) @ vals (pm_states m)). set (subtree n))"

definition known_paths :: "parsed_machine \<Rightarrow> string set" where
  "known_paths m = (\<Union>n \<in> known_states m. insert (si_path (ps_info n)) (set (parents_of n)))"

lemma finite_known: "finite (known_states m)" "finite (known_paths m)"
  by (simp_all add: known_states_def known_paths_def)

lemma subtree_self [simp]: "n \<in> set (subtree n)"
  by (cases n) simp

lemma known_by_path: "map_of (pm_allStatesByPath m) p = Some n \<Longrightarrow> n \<in> known_states m"
  using subtree_self [of n] by (force simp: known_states_def dest: map_of_SomeD)

lemma known_root: "(k, n) \<in> set (pm_states m) \<Longrightarrow> n \<in> known_states m"
  using subtree_self [of n] by (force simp: known_states_def)

lemma subtree_step: "(k, c) \<in> set states \<Longrightarrow> x \<in> set (subtree c) \<Longrightarrow> x \<in> set (subtree (PState i states))"
  by (force simp: image_iff)

lemma subtree_child:
  "PState i states \<in> set (subtree n) \<Longrightarrow> (k, c) \<in> set states \<Longrightarrow> c \<in> set (subtree n)"
proof (induction n rule: subtree.induct)
  case (1 j sts)
  from 1(2) consider "states = sts" | k' c' where "(k', c') \<in> set sts" "PState i states \<in> set (subtree c')"
    by auto
  then show ?case
  proof cases
    case 1
    then show ?thesis using subtree_step [OF _ subtree_self] \<open>(k, c) \<in> set states\<close> by blast
  next
    case 2
    then have "c \<in> set (subtree c')" using "1.IH" \<open>(k, c) \<in> set states\<close> by blast
    then show ?thesis by (rule subtree_step [OF 2(1)])
  qed
qed

lemma known_child: "PState i states \<in> known_states m \<Longrightarrow> (k, c) \<in> set states \<Longrightarrow> c \<in> known_states m"
  unfolding known_states_def UN_iff by (elim bexE) (rule bexI, rule subtree_child)

lemma known_node_paths:
  assumes "n \<in> known_states m"
  shows "si_path (ps_info n) \<in> known_paths m" "set (parents_of n) \<subseteq> known_paths m"
  using assms by (auto simp: known_paths_def)

section \<open>Each step makes progress\<close>

definition search_ok :: "parsed_machine \<Rightarrow> search \<Rightarrow> bool" where
  "search_ok m s \<longleftrightarrow> set (se_queue s) \<subseteq> known_states m \<and> set (se_reachable s) \<subseteq> known_paths m"

definition search_work :: "parsed_machine \<Rightarrow> search \<Rightarrow> nat" where
  "search_work m s = card (known_paths m - set (se_reachable s)) + length (se_queue s)"

text \<open>\<open>s'\<close> comes after \<open>s\<close> without more work to do.\<close>

definition advances :: "parsed_machine \<Rightarrow> search \<Rightarrow> search \<Rightarrow> bool" where
  "advances m s s' \<longleftrightarrow> (search_ok m s \<longrightarrow> search_ok m s' \<and> search_work m s' \<le> search_work m s)"

lemma advances_refl [simp]: "advances m s s"
  by (simp add: advances_def)

lemma advances_trans: "advances m s s' \<Longrightarrow> advances m s' s'' \<Longrightarrow> advances m s s''"
  by (auto simp: advances_def)

lemma work_reach:
  "p \<in> known_paths m \<Longrightarrow> p \<notin> set (se_reachable s) \<Longrightarrow> Suc (search_work m (reach_path p s)) = search_work m s"
proof -
  assume p: "p \<in> known_paths m" "p \<notin> set (se_reachable s)"
  let ?A = "known_paths m - set (se_reachable s)"
  have "known_paths m - set (se_reachable (reach_path p s)) = ?A - {p}" by (auto simp: reach_path_def)
  moreover have "finite ?A" "p \<in> ?A" using p finite_known by auto
  ultimately have "Suc (card (known_paths m - set (se_reachable (reach_path p s)))) = card ?A"
    by (metis card_Suc_Diff1)
  then show ?thesis by (simp add: search_work_def reach_path_def)
qed

lemma advances_mark:
  assumes "p \<in> known_paths m" "p \<notin> set (se_reachable s)"
  shows "advances m s (reach_path p s)"
    and "n \<in> known_states m \<Longrightarrow> advances m s (enqueue n (reach_path p s))"
proof -
  note w = work_reach [OF assms]
  show "advances m s (reach_path p s)"
    using w assms(1) by (auto simp: advances_def search_ok_def reach_path_def)
  show "advances m s (enqueue n (reach_path p s))" if "n \<in> known_states m"
    using w assms(1) that by (auto simp: advances_def search_ok_def reach_path_def enqueue_def search_work_def)
qed

lemma advances_ancestors: "set (ancestors p) \<subseteq> known_paths m \<Longrightarrow> advances m s (mark_ancestors m p s)"
proof (induction m p s rule: mark_ancestors.induct)
  case (1 m p s)
  let ?s = "if p \<in> set (se_reachable s) then s
    else let marked = reach_path p s in
      case map_of (pm_allStatesByPath m) p of Some anc \<Rightarrow> enqueue anc marked | None \<Rightarrow> marked"
  show ?case
  proof (cases "p = []")
    case True
    then show ?thesis by (subst mark_ancestors.simps) simp
  next
    case False
    have p: "p \<in> known_paths m" using 1(2) False by (simp add: ancestors.simps [of p] split: if_splits)
    have s: "advances m s ?s"
      using advances_mark [OF p] known_by_path [of m p] by (auto simp: Let_def split: option.splits)
    show ?thesis
    proof (cases "CHR ''.'' \<in> set p")
      case True
      have "set (ancestors (before_last_dot p)) \<subseteq> known_paths m"
        using 1(2) False True by (subst (asm) ancestors.simps) simp
      from advances_trans [OF s 1(1) [OF False refl True this]] show ?thesis
        using False True by (subst mark_ancestors.simps) (simp add: Let_def)
    next
      case no: False
      then show ?thesis using s False by (subst mark_ancestors.simps) (simp add: Let_def)
    qed
  qed
qed

lemma advances_enter:
  "n \<in> known_states m \<Longrightarrow> advances m s (enterState m n s)"
  "(\<forall>k c. (k, c) \<in> set ns \<longrightarrow> c \<in> known_states m) \<Longrightarrow> advances m s (enter_all m ns s)"
proof (induction m n s and m ns s rule: enterState_enter_all.induct)
  case (1 m i states s)
  let ?s1 = "mark_ancestors m (or_else (si_parentPath i) []) s"
  let ?s2 = "enqueue (PState i states) (reach_path (si_path i) ?s1)"
  have k: "si_path i \<in> known_paths m" "set (ancestors (or_else (si_parentPath i) [])) \<subseteq> known_paths m"
    using known_node_paths [OF 1(3)] by (simp_all add: parents_of_def)
  have s1: "advances m s ?s1" by (rule advances_ancestors [OF k(2)])
  have s2: "advances m s ?s2" if "si_path i \<notin> set (se_reachable ?s1)"
    by (rule advances_trans [OF s1 advances_mark(2) [OF k(1) that 1(3)]])
  show ?case
  proof (cases "si_path i \<in> set (se_reachable ?s1)")
    case True
    then show ?thesis using s1 by (simp add: Let_def)
  next
    case False
    note fresh = this
    show ?thesis
    proof (cases "si_inferredType i")
      case EdCompound
      have "advances m ?s2 (enterState m c ?s2)"
        if "truthy (si_initial i) = Some j" "map_of states j = Some c" for j c
        using 1(1) [OF refl fresh refl EdCompound that] known_child [OF 1(3) map_of_SomeD [OF that(2)]] by blast
      then show ?thesis using s2 [OF fresh] fresh EdCompound
        by (auto simp: Let_def simp del: truthy_Some intro: advances_trans split: option.splits)
    next
      case EdParallel
      have "advances m ?s2 (enter_all m states ?s2)"
        using 1(2) [OF refl fresh refl EdParallel] known_child [OF 1(3)] by blast
      then show ?thesis using s2 [OF fresh] fresh EdParallel by (auto simp: Let_def intro: advances_trans)
    qed (use s2 [OF fresh] fresh in \<open>simp_all add: Let_def\<close>)
  qed
next
  case (3 m k n ns s)
  then show ?case by (auto intro: advances_trans)
qed simp_all

lemma target_known: "rs_targetNode (resolveStateTarget m src t) = Some n \<Longrightarrow> n \<in> known_states m"
  by (rule resolve_cases [of m src t]) (auto dest: known_by_path)

lemma advances_target: "advances m s (enter_target m src t s)"
  unfolding enter_target_def
  by (auto intro: advances_enter(1) target_known split: option.splits)

lemma advances_flag: "advances m s (s\<lparr>se_errorReferenced := b\<rparr>)"
  by (simp add: advances_def search_ok_def search_work_def)

lemma advances_follow: "advances m s (follow_transition m src t s)"
proof -
  let ?s1 = "enter_target m src (px_target t) s"
  have "advances m s ?s1" by (rule advances_target)
  then have "advances m s (if P then ?s1\<lparr>se_errorReferenced := True\<rparr> else ?s1)" for P
    using advances_trans [OF _ advances_flag] by simp
  from advances_trans [OF this advances_target] show ?thesis
    unfolding follow_transition_def Let_def .
qed

lemma advances_fold: "(\<And>x s. advances m s (f x s)) \<Longrightarrow> advances m s (fold f xs s)"
  by (induction xs arbitrary: s) (auto intro: advances_trans)

lemma advances_pop:
  assumes "search_ok m s" "se_queue s = n # ns" "advances m (s\<lparr>se_queue := ns\<rparr>) s'"
  shows "search_ok m s' \<and> search_work m s' < search_work m s"
proof -
  have "search_ok m (s\<lparr>se_queue := ns\<rparr>)" "Suc (search_work m (s\<lparr>se_queue := ns\<rparr>)) = search_work m s"
    using assms(1, 2) by (auto simp: search_ok_def search_work_def)
  then show ?thesis using assms(3) by (auto simp: advances_def)
qed

lemma run_queue_returns:
  assumes "\<forall>s n ns. se_queue s = n # ns \<longrightarrow> advances m (s\<lparr>se_queue := ns\<rparr>) (step s)" "search_ok m s"
  shows "\<exists>s'. run_queue step s = Some s' \<and> search_ok m s'"
proof -
  have p: "search_ok m (step s) \<and> search_work m (step s) < search_work m s" if "search_ok m s" "se_queue s \<noteq> []" for s
    using advances_pop [OF that(1)] that(2) assms(1) by (cases "se_queue s") auto
  have "\<exists>s'. while_option (\<lambda>s. se_queue s \<noteq> []) step s = Some s'"
    by (rule measure_while_option_Some [of "search_ok m" _ step "search_work m"]) (use p assms(2) in auto)
  then obtain s' where s': "run_queue step s = Some s'" by (auto simp: run_queue_def)
  then have "search_ok m s'"
    by (intro while_option_rule [of "search_ok m", OF _ s' [unfolded run_queue_def]]) (use p assms(2) in auto)
  with s' show ?thesis by blast
qed

lemma search_step_advances: "se_queue s = n # ns \<Longrightarrow> advances m (s\<lparr>se_queue := ns\<rparr>) (search_step m s)"
  by (simp add: search_step_def advances_fold advances_follow)

lemma recovery_step_advances: "se_queue s = n # ns \<Longrightarrow> advances m (s\<lparr>se_queue := ns\<rparr>) (recovery_step m s)"
  by (simp add: recovery_step_def advances_fold advances_target)

lemma advances_seed: "advances m s (seed m s)"
  unfolding seed_def
  by (auto split: ed_root_type.split option.split intro!: advances_enter dest: known_by_path known_root
      simp: bind_eq_Some_conv)

definition search_start :: "parsed_machine \<Rightarrow> search" where
  "search_start m = \<lparr>se_reachable = [], se_queue = [], se_errorReferenced =
     (or_else (Option.bind (ep_onFail (pm_defaults m)) po_target) ''error'' = ''error'')\<rparr>"

lemma reachable_search_alt:
  "reachable_search m =
     (case run_queue (search_step m) (seed m (search_start m)) of
        None \<Rightarrow> None
      | Some s \<Rightarrow>
          (case map_of (pm_states m) ''error'' of
             Some e \<Rightarrow>
               if se_errorReferenced s \<and> ''error'' \<notin> set (se_reachable s)
               then run_queue (recovery_step m) (enterState m e s) else Some s
           | None \<Rightarrow> Some s))"
  by (simp add: reachable_search_def search_start_def Let_def)

lemma reachable_search_returns: "\<exists>s. reachable_search m = Some s"
proof -
  have "search_ok m (search_start m)" by (simp add: search_ok_def search_start_def)
  then have "search_ok m (seed m (search_start m))" using advances_seed by (auto simp: advances_def)
  from run_queue_returns [of m "search_step m", OF _ this] search_step_advances obtain s where
    s: "run_queue (search_step m) (seed m (search_start m)) = Some s" "search_ok m s" by metis
  show ?thesis
  proof (cases "map_of (pm_states m) ''error''")
    case (Some e)
    then have "e \<in> known_states m" by (auto dest: map_of_SomeD known_root)
    then have "search_ok m (enterState m e s)" using advances_enter(1) s(2) by (auto simp: advances_def)
    from run_queue_returns [of m "recovery_step m", OF _ this] recovery_step_advances obtain s' where
      "run_queue (recovery_step m) (enterState m e s) = Some s'" by metis
    then show ?thesis using Some s(1) by (simp add: reachable_search_alt)
  qed (simp add: reachable_search_alt s(1))
qed

lemma analysis_total: "\<exists>a. analyzeDfsmDocument v d = Some a"
proof -
  have "\<exists>ds. semantic_diagnostics m = Some ds" for m
    using reachable_search_returns [of m]
    by (auto simp: semantic_diagnostics_def collectUnreachableStateDiagnostics_def)
  then show ?thesis by (auto simp: analyzeDfsmDocument_def Let_def split: option.splits)
qed

section \<open>What is marked can be visited\<close>

text \<open>
  The states an execution may visit as far as the document tells: the initial ones, the initial child
  and the regions of a visited state, the states around it, the targets and failure targets of its
  transitions, and the error state when failures lead there by default.
\<close>

inductive can_visit :: "parsed_machine \<Rightarrow> parsed_state \<Rightarrow> bool" for m where
  root_initial: "pm_rootType m = EdRootCompound \<Longrightarrow> truthy (pm_initial m) = Some k \<Longrightarrow>
    map_of (pm_allStatesByPath m) k = Some n \<Longrightarrow> can_visit m n"
| root_region: "pm_rootType m = EdRootParallel \<Longrightarrow> (k, n) \<in> set (pm_states m) \<Longrightarrow> can_visit m n"
| around: "can_visit m n \<Longrightarrow> p \<in> set (parents_of n) \<Longrightarrow> map_of (pm_allStatesByPath m) p = Some a \<Longrightarrow>
    can_visit m a"
| initial_child: "can_visit m (PState i states) \<Longrightarrow> si_inferredType i = EdCompound \<Longrightarrow>
    truthy (si_initial i) = Some k \<Longrightarrow> map_of states k = Some c \<Longrightarrow> can_visit m c"
| region: "can_visit m (PState i states) \<Longrightarrow> si_inferredType i = EdParallel \<Longrightarrow> (k, c) \<in> set states \<Longrightarrow>
    can_visit m c"
| target: "can_visit m n \<Longrightarrow> t \<in> set (transitions_of n) \<Longrightarrow> truthy (px_target t) = Some ref \<Longrightarrow>
    rs_targetNode (resolveStateTarget m (Some (si_path (ps_info n))) ref) = Some n' \<Longrightarrow> can_visit m n'"
| fail_target: "can_visit m n \<Longrightarrow> t \<in> set (transitions_of n) \<Longrightarrow>
    rs_targetNode (resolveStateTarget m (Some (si_path (ps_info n)))
      (no_target (ef_onFail (px_effectivePolicy t)))) = Some n' \<Longrightarrow> can_visit m n'"
| named_error: "can_visit m n \<Longrightarrow> t \<in> set (transitions_of n) \<Longrightarrow>
    rs_targetPath (resolveStateTarget m (Some (si_path (ps_info n)))
      (no_target (ef_onFail (px_effectivePolicy t)))) = Some ''error'' \<Longrightarrow>
    map_of (pm_states m) ''error'' = Some e \<Longrightarrow> can_visit m e"
| default_error: "or_else (Option.bind (ep_onFail (pm_defaults m)) po_target) ''error'' = ''error'' \<Longrightarrow>
    map_of (pm_states m) ''error'' = Some e \<Longrightarrow> can_visit m e"

text \<open>A list of states that contains everything an execution may visit, checked by evaluation.\<close>

definition inside :: "parsed_state list \<Rightarrow> parsed_state option \<Rightarrow> bool" where
  "inside ns x = (case x of Some n \<Rightarrow> n \<in> set ns | None \<Rightarrow> True)"

definition transition_inside :: "parsed_machine \<Rightarrow> parsed_state list \<Rightarrow> string \<Rightarrow> parsed_transition \<Rightarrow> bool" where
  "transition_inside m ns src t \<longleftrightarrow>
     (case truthy (px_target t) of
       Some ref \<Rightarrow> inside ns (rs_targetNode (resolveStateTarget m (Some src) ref)) | None \<Rightarrow> True) \<and>
     inside ns (rs_targetNode (resolveStateTarget m (Some src) (no_target (ef_onFail (px_effectivePolicy t))))) \<and>
     (rs_targetPath (resolveStateTarget m (Some src) (no_target (ef_onFail (px_effectivePolicy t)))) = Some ''error'' \<longrightarrow>
       inside ns (map_of (pm_states m) ''error''))"

definition state_inside :: "parsed_machine \<Rightarrow> parsed_state list \<Rightarrow> parsed_state \<Rightarrow> bool" where
  "state_inside m ns n \<longleftrightarrow>
     (\<forall>p \<in> set (parents_of n). inside ns (map_of (pm_allStatesByPath m) p)) \<and>
     (si_inferredType (ps_info n) = EdCompound \<longrightarrow>
       (case truthy (si_initial (ps_info n)) of
         Some k \<Rightarrow> inside ns (map_of (ps_states n) k) | None \<Rightarrow> True)) \<and>
     (si_inferredType (ps_info n) = EdParallel \<longrightarrow> set (vals (ps_states n)) \<subseteq> set ns) \<and>
     (\<forall>t \<in> set (transitions_of n). transition_inside m ns (si_path (ps_info n)) t)"

definition visit_closed :: "parsed_machine \<Rightarrow> parsed_state list \<Rightarrow> bool" where
  "visit_closed m ns \<longleftrightarrow>
     (pm_rootType m = EdRootCompound \<longrightarrow>
       (case truthy (pm_initial m) of
         Some k \<Rightarrow> inside ns (map_of (pm_allStatesByPath m) k) | None \<Rightarrow> True)) \<and>
     (pm_rootType m = EdRootParallel \<longrightarrow> set (vals (pm_states m)) \<subseteq> set ns) \<and>
     (or_else (Option.bind (ep_onFail (pm_defaults m)) po_target) ''error'' = ''error'' \<longrightarrow>
       inside ns (map_of (pm_states m) ''error'')) \<and>
     (\<forall>n \<in> set ns. state_inside m ns n)"

lemma inside_Some [simp]: "inside ns (Some n) \<longleftrightarrow> n \<in> set ns"
  by (simp add: inside_def)

lemma visit_closed_state:
  "visit_closed m ns \<Longrightarrow> n \<in> set ns \<Longrightarrow> state_inside m ns n"
  "visit_closed m ns \<Longrightarrow> n \<in> set ns \<Longrightarrow> t \<in> set (transitions_of n) \<Longrightarrow>
     transition_inside m ns (si_path (ps_info n)) t"
  by (simp_all add: visit_closed_def state_inside_def)

lemma visit_within: "can_visit m n \<Longrightarrow> visit_closed m ns \<Longrightarrow> n \<in> set ns"
proof (induction rule: can_visit.induct)
  case (around n p a)
  then have "inside ns (map_of (pm_allStatesByPath m) p)"
    using visit_closed_state(1) [of m ns n] unfolding state_inside_def by blast
  then show ?case using around(3) by simp
next
  case (initial_child i states k c)
  then have "state_inside m ns (PState i states)" using visit_closed_state(1) by blast
  then show ?case using initial_child(2-4) by (simp add: state_inside_def truthy_def)
next
  case (region i states k c)
  then have "state_inside m ns (PState i states)" using visit_closed_state(1) by blast
  then show ?case using region(2, 3) by (force simp: state_inside_def)
next
  case (target n t ref n')
  then have "transition_inside m ns (si_path (ps_info n)) t" using visit_closed_state(2) by blast
  then show ?case using target(3, 4) by (simp add: transition_inside_def truthy_def)
next
  case (fail_target n t n')
  then have "transition_inside m ns (si_path (ps_info n)) t" using visit_closed_state(2) by blast
  then show ?case using fail_target(3) by (simp add: transition_inside_def)
next
  case (named_error n t e)
  then have "transition_inside m ns (si_path (ps_info n)) t" using visit_closed_state(2) by blast
  then show ?case using named_error(3, 4) by (simp add: transition_inside_def)
next
  case (root_region k n)
  then show ?case by (force simp: visit_closed_def)
qed (simp_all add: visit_closed_def truthy_def)

definition visited_path :: "parsed_machine \<Rightarrow> string \<Rightarrow> bool" where
  "visited_path m p \<longleftrightarrow> (\<exists>n. can_visit m n \<and> (p = si_path (ps_info n) \<or> p \<in> set (parents_of n)))"

definition search_sound :: "parsed_machine \<Rightarrow> search \<Rightarrow> bool" where
  "search_sound m s \<longleftrightarrow> (\<forall>n \<in> set (se_queue s). can_visit m n) \<and>
     (\<forall>p \<in> set (se_reachable s). visited_path m p) \<and>
     (se_errorReferenced s \<longrightarrow> (\<forall>e. map_of (pm_states m) ''error'' = Some e \<longrightarrow> can_visit m e))"

lemma sound_flag:
  "search_sound m s \<Longrightarrow> (\<And>e. map_of (pm_states m) ''error'' = Some e \<Longrightarrow> can_visit m e) \<Longrightarrow>
     search_sound m (s\<lparr>se_errorReferenced := True\<rparr>)"
  by (simp add: search_sound_def)

lemma sound_mark:
  "search_sound m s \<Longrightarrow> visited_path m p \<Longrightarrow> search_sound m (reach_path p s)"
  by (simp add: search_sound_def reach_path_def)

lemma sound_queue: "search_sound m s \<Longrightarrow> can_visit m n \<Longrightarrow> search_sound m (enqueue n s)"
  by (simp add: search_sound_def enqueue_def)

lemma sound_ancestors:
  "set (ancestors p) \<subseteq> set (parents_of n) \<Longrightarrow> can_visit m n \<Longrightarrow> search_sound m s \<Longrightarrow>
     search_sound m (mark_ancestors m p s)"
proof (induction m p s rule: mark_ancestors.induct)
  case (1 m p s)
  let ?s = "if p \<in> set (se_reachable s) then s
    else let marked = reach_path p s in
      case map_of (pm_allStatesByPath m) p of Some anc \<Rightarrow> enqueue anc marked | None \<Rightarrow> marked"
  show ?case
  proof (cases "p = []")
    case True
    then show ?thesis using 1(4) by (subst mark_ancestors.simps) simp
  next
    case False
    have p: "p \<in> set (parents_of n)" using 1(2) False by (simp add: ancestors.simps [of p] split: if_splits)
    then have "visited_path m p" using 1(3) by (auto simp: visited_path_def)
    then have s: "search_sound m ?s"
      using 1(4) can_visit.around [OF 1(3) p]
      by (auto simp: Let_def intro: sound_mark sound_queue split: option.splits)
    show ?thesis
    proof (cases "CHR ''.'' \<in> set p")
      case True
      have "set (ancestors (before_last_dot p)) \<subseteq> set (parents_of n)"
        using 1(2) False True by (subst (asm) ancestors.simps) simp
      from 1(1) [OF False refl True this 1(3) s] show ?thesis
        using False True by (subst mark_ancestors.simps) (simp add: Let_def)
    next
      case no: False
      then show ?thesis using s False by (subst mark_ancestors.simps) (simp add: Let_def)
    qed
  qed
qed

lemma sound_enter:
  "can_visit m n \<Longrightarrow> search_sound m s \<Longrightarrow> search_sound m (enterState m n s)"
  "(\<forall>k c. (k, c) \<in> set ns \<longrightarrow> can_visit m c) \<Longrightarrow> search_sound m s \<Longrightarrow> search_sound m (enter_all m ns s)"
proof (induction m n s and m ns s rule: enterState_enter_all.induct)
  case (1 m i states s)
  let ?s1 = "mark_ancestors m (or_else (si_parentPath i) []) s"
  let ?s2 = "enqueue (PState i states) (reach_path (si_path i) ?s1)"
  have s1: "search_sound m ?s1"
    by (rule sound_ancestors [OF _ 1(3, 4)]) (simp add: parents_of_def)
  have "visited_path m (si_path i)" using 1(3) by (force simp: visited_path_def)
  then have s2: "search_sound m ?s2" by (intro sound_queue sound_mark s1 1(3))
  show ?case
  proof (cases "si_path i \<in> set (se_reachable ?s1)")
    case True
    then show ?thesis using s1 by (simp add: Let_def)
  next
    case False
    note fresh = this
    show ?thesis
    proof (cases "si_inferredType i")
      case EdCompound
      have "search_sound m (enterState m c ?s2)"
        if "truthy (si_initial i) = Some j" "map_of states j = Some c" for j c
        by (rule 1(1) [OF refl fresh refl EdCompound that can_visit.initial_child [OF 1(3) EdCompound that] s2])
      then show ?thesis using s2 fresh EdCompound
        by (auto simp: Let_def simp del: truthy_Some split: option.splits)
    next
      case EdParallel
      have "search_sound m (enter_all m states ?s2)"
        using 1(2) [OF refl fresh refl EdParallel _ s2] can_visit.region [OF 1(3) EdParallel] by blast
      then show ?thesis using fresh EdParallel by (simp add: Let_def)
    qed (use s2 fresh in \<open>simp_all add: Let_def\<close>)
  qed
next
  case (3 m k n ns s)
  then show ?case by auto
qed simp_all

lemma sound_target:
  assumes "search_sound m s" "\<And>ref n'. truthy t = Some ref \<Longrightarrow>
    rs_targetNode (resolveStateTarget m (Some src) ref) = Some n' \<Longrightarrow> can_visit m n'"
  shows "search_sound m (enter_target m src t s)"
  unfolding enter_target_def using assms by (auto intro: sound_enter simp del: truthy_Some split: option.splits)

lemma sound_follow:
  assumes "can_visit m n" "t \<in> set (transitions_of n)" "search_sound m s"
  shows "search_sound m (follow_transition m (si_path (ps_info n)) t s)"
proof -
  let ?src = "si_path (ps_info n)"
  have 1: "search_sound m (enter_target m ?src (px_target t) s)"
    by (rule sound_target [OF assms(3) can_visit.target [OF assms(1, 2)]])
  let ?fail = "no_target (ef_onFail (px_effectivePolicy t))"
  have "search_sound m (if ?fail \<noteq> [] \<and> rs_resolved (resolveStateTarget m (Some ?src) ?fail) \<and>
      rs_targetPath (resolveStateTarget m (Some ?src) ?fail) = Some ''error''
    then (enter_target m ?src (px_target t) s)\<lparr>se_errorReferenced := True\<rparr>
    else enter_target m ?src (px_target t) s)" (is "search_sound m ?s2")
    using 1 sound_flag can_visit.named_error [OF assms(1, 2)] by auto
  then have "search_sound m (enter_target m ?src (Some ?fail) ?s2)"
    by (rule sound_target) (use can_visit.fail_target [OF assms(1, 2)] in auto)
  then show ?thesis unfolding follow_transition_def Let_def .
qed

lemma sound_fold:
  "(\<And>x s. x \<in> set xs \<Longrightarrow> search_sound m s \<Longrightarrow> search_sound m (f x s)) \<Longrightarrow> search_sound m s \<Longrightarrow>
     search_sound m (fold f xs s)"
  by (induction xs arbitrary: s) auto

lemma sound_search_step: "search_sound m s \<Longrightarrow> search_sound m (search_step m s)"
proof (cases "se_queue s")
  case (Cons n ns)
  assume s: "search_sound m s"
  then have "can_visit m n" "search_sound m (s\<lparr>se_queue := ns\<rparr>)" using Cons by (auto simp: search_sound_def)
  then show ?thesis by (simp add: search_step_def Cons sound_fold sound_follow)
qed (simp add: search_step_def)

lemma sound_recovery_step: "search_sound m s \<Longrightarrow> search_sound m (recovery_step m s)"
proof (cases "se_queue s")
  case (Cons n ns)
  assume s: "search_sound m s"
  then have v: "can_visit m n" and q: "search_sound m (s\<lparr>se_queue := ns\<rparr>)"
    using Cons by (auto simp: search_sound_def)
  show ?thesis
    unfolding recovery_step_def Cons list.case
    by (rule sound_fold [OF sound_target q]) (use can_visit.target [OF v] in auto)
qed (simp add: recovery_step_def)

lemma sound_run:
  assumes "\<And>s. search_sound m s \<Longrightarrow> search_sound m (step s)" "run_queue step s = Some s'" "search_sound m s"
  shows "search_sound m s'"
  by (rule while_option_rule [of "search_sound m", OF _ assms(2) [unfolded run_queue_def] assms(3)])
    (rule assms(1))

lemma sound_seed: "search_sound m (seed m (search_start m))"
proof -
  have s: "search_sound m (search_start m)"
    using can_visit.default_error by (simp add: search_sound_def search_start_def)
  show ?thesis
  proof (cases "pm_rootType m")
    case EdRootParallel
    then show ?thesis using s can_visit.root_region [OF EdRootParallel] by (auto simp: seed_def intro: sound_enter)
  next
    case EdRootCompound
    show ?thesis
    proof (cases "Option.bind (truthy (pm_initial m)) (map_of (pm_allStatesByPath m))")
      case (Some n)
      then obtain k where "truthy (pm_initial m) = Some k" "map_of (pm_allStatesByPath m) k = Some n"
        by (auto simp: bind_eq_Some_conv)
      from can_visit.root_initial [OF EdRootCompound this] show ?thesis
        using s Some EdRootCompound by (simp add: seed_def sound_enter)
    qed (use s EdRootCompound in \<open>simp add: seed_def\<close>)
  qed
qed

lemma search_sound_result: "reachable_search m = Some s \<Longrightarrow> search_sound m s"
proof -
  assume r: "reachable_search m = Some s"
  then obtain s1 where s1: "run_queue (search_step m) (seed m (search_start m)) = Some s1"
    by (auto simp: reachable_search_alt split: option.splits)
  have 1: "search_sound m s1" by (rule sound_run [OF sound_search_step s1 sound_seed])
  note r = r [unfolded reachable_search_alt s1 option.case]
  show "search_sound m s"
  proof (cases "map_of (pm_states m) ''error''")
    case None
    then show ?thesis using r 1 by simp
  next
    case (Some e)
    note r = r [unfolded Some option.case]
    show ?thesis
    proof (cases "se_errorReferenced s1 \<and> ''error'' \<notin> set (se_reachable s1)")
      case True
      then have "can_visit m e" using 1 Some by (simp add: search_sound_def)
      then have e: "search_sound m (enterState m e s1)" using 1 by (rule sound_enter)
      have "run_queue (recovery_step m) (enterState m e s1) = Some s" using r unfolding if_P [OF True] .
      from sound_run [OF sound_recovery_step this e] show ?thesis .
    next
      case False
      then show ?thesis using r 1 unfolding if_not_P [OF False] by simp
    qed
  qed
qed

lemma unvisited_path:
  "visit_closed m ns \<Longrightarrow> list_all (\<lambda>n. p \<noteq> si_path (ps_info n) \<and> p \<notin> set (parents_of n)) ns \<Longrightarrow>
     \<not> visited_path m p"
  by (auto simp: visited_path_def list_all_iff dest: visit_within)

text \<open>So a state that cannot be visited is reported.\<close>

lemma unvisited_reported:
  assumes "collectUnreachableStateDiagnostics m = Some ds" "pm_explicitStateCount m \<noteq> 0"
    and "n \<in> set (vals (pm_allStatesByPath m))" "\<not> si_isImplicitError (ps_info n)"
    and "\<not> visited_path m (si_path (ps_info n))"
    and "si_isCustomError (ps_info n) \<Longrightarrow>
      \<exists>e. map_of (pm_states m) ''error'' = Some e \<and> si_path (ps_info e) = si_path (ps_info n)"
  shows "unreachable_warning n \<in> set ds"
proof -
  obtain s where s: "reachable_search m = Some s" using reachable_search_returns by blast
  note sound = search_sound_result [OF s]
  have "si_path (ps_info n) \<notin> set (se_reachable s)" using sound assms(5) by (auto simp: search_sound_def)
  moreover have "\<not> (si_isCustomError (ps_info n) \<and> se_errorReferenced s)"
  proof
    assume c: "si_isCustomError (ps_info n) \<and> se_errorReferenced s"
    with assms(6) obtain e where "map_of (pm_states m) ''error'' = Some e" "si_path (ps_info e) = si_path (ps_info n)"
      by blast
    moreover from this(1) have "can_visit m e" using sound c by (simp add: search_sound_def)
    ultimately have "visited_path m (si_path (ps_info n))" by (auto simp: visited_path_def)
    with assms(5) show False ..
  qed
  ultimately have "n \<in> set (filter (\<lambda>n. \<not> si_isImplicitError (ps_info n) \<and>
      \<not> (si_isCustomError (ps_info n) \<and> se_errorReferenced s) \<and>
      si_path (ps_info n) \<notin> set (se_reachable s)) (vals (pm_allStatesByPath m)))"
    using assms(3, 4) by simp
  from imageI [OF this, of unreachable_warning] show ?thesis
    using assms(1, 2) s by (auto simp: collectUnreachableStateDiagnostics_def simp del: set_filter)
qed

end
