(* ===== verification/EditorInv.thy ===== *)
theory EditorInv
  imports EditorReach
begin

text \<open>
  What the editor's parser establishes: ranges lie inside the document, every state carries its own
  key, path and parent, every transition its source and the merge of the defaults with its policy,
  and the states by path are states of this kind under their own paths. Diagnostics therefore point
  into the document.
\<close>

section \<open>Ranges\<close>

definition range_ok :: "yaml_document \<Rightarrow> source_range \<Rightarrow> bool" where
  "range_ok d r \<longleftrightarrow> 0 \<le> sr_startOffset r \<and> sr_startOffset r \<le> sr_endOffset r \<and>
     sr_endOffset r \<le> int (length (yd_source d)) \<and>
     (sr_line r, sr_column r) = yd_linePos d (sr_startOffset r) \<and>
     (sr_endLine r, sr_endColumn r) = yd_linePos d (sr_endOffset r)"

lemma rangeFromOffsets_ok [simp]: "range_ok d (rangeFromOffsets d a b)"
proof -
  let ?n = "int (length (yd_source d))"
  define s where "s = max 0 (min a ?n)"
  define e where "e = max s (min b ?n)"
  define e' where "e' = (if e > s then max s (e - int (trailing_newlines (slice (yd_source d) s e))) else e)"
  obtain l c where l: "yd_linePos d s = (l, c)" by fastforce
  obtain l' c' where l': "yd_linePos d e' = (l', c')" by fastforce
  have r: "rangeFromOffsets d a b = \<lparr>sr_line = l, sr_column = c, sr_endLine = l', sr_endColumn = c',
      sr_startLine0 = l - 1, sr_startColumn0 = c - 1, sr_endLine0 = l' - 1,
      sr_endColumn0 = c' - 1, sr_startOffset = s, sr_endOffset = e'\<rparr>"
    unfolding rangeFromOffsets_def Let_def s_def [symmetric] e_def [symmetric] e'_def [symmetric] l l' prod.case ..
  have s: "0 \<le> s" "s \<le> ?n" by (simp_all add: s_def)
  then have e: "s \<le> e" "e \<le> ?n" by (simp_all add: e_def)
  have "max s (e - int k) \<le> ?n" for k using s e by simp
  then have "s \<le> e'" "e' \<le> ?n" using s e by (simp_all add: e'_def del: max.bounded_iff)
  with s show ?thesis by (simp add: r range_ok_def l l')
qed

lemma rangeFromNode_ok: "pred_option (range_ok d) f \<Longrightarrow> range_ok d (rangeFromNode d v f)"
  by (cases f) (auto simp: rangeFromNode_def split: option.split)

lemma rangeFromNode_None [simp]: "range_ok d (rangeFromNode d v None)"
  by (rule rangeFromNode_ok) simp

lemma rangeFromPair_ok [simp]: "range_ok d (rangeFromPair d p)"
  by (simp add: rangeFromPair_def Let_def)

lemma node_range_ok: "range_ok d r \<Longrightarrow> pred_option (range_ok d) (node_range d v r)"
  by (simp add: node_range_def rangeFromNode_ok)

lemma or_else_ok: "range_ok d r \<Longrightarrow> pred_option (range_ok d) x \<Longrightarrow> range_ok d (or_else x r)"
  by (cases x) simp_all

lemma or_elseo_ok: "pred_option P x \<Longrightarrow> pred_option P y \<Longrightarrow> pred_option P (or_elseo x y)"
  by (cases x) simp_all

definition transition_ranges_ok :: "yaml_document \<Rightarrow> parsed_transition \<Rightarrow> bool" where
  "transition_ranges_ok d t \<longleftrightarrow> range_ok d (px_keyRange t) \<and> range_ok d (px_blockRange t) \<and>
     list_all (pred_option (range_ok d)) [px_targetRange t, px_transitionRange t, px_compensateRange t,
       px_effectsRange t, px_policyRange t, px_onFailTargetRange t]"

definition info_ranges_ok :: "yaml_document \<Rightarrow> state_info \<Rightarrow> bool" where
  "info_ranges_ok d i \<longleftrightarrow> range_ok d (si_keyRange i) \<and> range_ok d (si_blockRange i) \<and>
     list_all (pred_option (range_ok d)) [si_typeRange i, si_initialKeyRange i, si_initialValueRange i,
       si_entryRange i, si_exitRange i, si_onKeyRange i, si_statesKeyRange i]"

section \<open>Transitions\<close>

definition transition_ok :: "yaml_document \<Rightarrow> ed_policy \<Rightarrow> string \<Rightarrow> parsed_transition \<Rightarrow> bool" where
  "transition_ok d defs path t \<longleftrightarrow> px_sourceStatePath t = path \<and> transition_ranges_ok d t \<and>
     (px_effectivePolicy t, px_policySources t) = mergeTransitionPolicies (Some defs) (Some (px_policy t))"

lemma merge_none: "mergeTransitionPolicies d None = mergeTransitionPolicies d (Some no_ed_policy)"
  by (simp add: mergeTransitionPolicies_def applyLayer_def no_ed_policy_def layer_retry_def layer_breaker_def
      layer_onfail_def layer_benchmark_def)

lemma policy_range_ok: "pred_option (range_ok d) (snd (parsePolicyFromMap d items))"
  by (simp add: parsePolicyFromMap_def Let_def)

lemma key_range_ok [simp]: "range_ok d (key_range d p)"
  by (simp add: key_range_def)

lemma bare_ok: "transition_ok d defs path
    (bare_transition d p ev done path (mergeTransitionPolicies (Some defs) (Some no_ed_policy)))"
  by (simp add: transition_ok_def bare_transition_def transition_ranges_ok_def)

lemma parseTransitionPair_ok: "transition_ok d defs path (parseTransitionPair d p ev done path defs)"
proof -
  have k: "range_ok d (px_keyRange (bare_transition d p ev done path m))"
    "range_ok d (px_blockRange (bare_transition d p ev done path m))" for m
    by (simp_all add: bare_transition_def)
  show ?thesis
  proof (cases "readStringScalar (snd p)")
    case (Some s)
    then show ?thesis using bare_ok [of d defs path p ev "done"] k
      by (simp add: parseTransitionPair_def Let_def merge_none transition_ok_def transition_ranges_ok_def
          rangeFromNode_ok bare_transition_def)
  next
    case None
    note n = this
    show ?thesis
    proof (cases "map_items (snd p)")
      case None
      then show ?thesis using n bare_ok [of d defs path p ev "done"]
        by (simp add: parseTransitionPair_def Let_def merge_none)
    next
      case (Some items)
      obtain pol r where pr: "parsePolicyFromMap d items = (pol, r)" by fastforce
      then have "pred_option (range_ok d) r" using policy_range_ok [of d items] by simp
      then show ?thesis using n Some pr k
        by (simp add: parseTransitionPair_def Let_def transition_ok_def transition_ranges_ok_def
            node_range_ok rangeFromNode_ok bare_transition_def)
    qed
  qed
qed

lemma update_all: "\<forall>x \<in> set d. P x \<Longrightarrow> P (k, v) \<Longrightarrow> \<forall>x \<in> set (AList.update k v d). P x"
  using set_update_subset by fastforce

lemma parse_on_ok:
  "\<forall>x \<in> set acc. transition_ok d defs path (snd x) \<Longrightarrow>
     \<forall>x \<in> set (parse_on d defs path items acc). transition_ok d defs path (snd x)"
proof (induction d defs path items acc rule: parse_on.induct)
  case (2 d defs path r k v items acc)
  show ?case unfolding parse_on.simps
    by (rule 2(1), rule update_all, rule 2(2)) (simp add: parseTransitionPair_ok)
qed simp_all

section \<open>States\<close>

fun node_ok :: "yaml_document \<Rightarrow> ed_policy \<Rightarrow> string option \<Rightarrow> string \<Rightarrow> parsed_state \<Rightarrow> bool" where
  "node_ok d defs parent name (PState i states) \<longleftrightarrow>
     si_name i = name \<and> si_parentPath i = parent \<and> si_path i = child_path parent name \<and>
     \<not> si_isImplicitError i \<and> (si_isCustomError i \<longleftrightarrow> parent = None \<and> name = ''error'') \<and>
     info_ranges_ok d i \<and> (\<forall>x \<in> set (si_on i). transition_ok d defs (si_path i) (snd x)) \<and>
     pred_option (transition_ok d defs (si_path i)) (si_onDone i) \<and>
     distinct (keys states) \<and> (\<forall>x \<in> set states. node_ok d defs (Some (si_path i)) (fst x) (snd x))"

definition states_ok :: "yaml_document \<Rightarrow> ed_policy \<Rightarrow> string option \<Rightarrow> parsed_state dict \<Rightarrow> bool" where
  "states_ok d defs parent states \<longleftrightarrow> distinct (keys states) \<and>
     (\<forall>x \<in> set states. node_ok d defs parent (fst x) (snd x))"

definition acc_ok :: "yaml_document \<Rightarrow> ed_policy \<Rightarrow> parse_acc \<Rightarrow> bool" where
  "acc_ok d defs acc \<longleftrightarrow> distinct (keys (pa_states acc)) \<and>
     (\<forall>x \<in> set (pa_states acc). fst x = si_path (ps_info (snd x)) \<and> (\<exists>parent name. node_ok d defs parent name (snd x))) \<and>
     (\<forall>x \<in> set (pa_contexts acc). range_ok d (snd x))"

lemma empty_info_ok: "node_ok d defs parent name (PState (empty_state_info d p name parent) [])"
  by (simp add: empty_state_info_def info_ranges_ok_def)

lemma on_ok: "\<forall>x \<in> set (case v of Some its \<Rightarrow> parse_on d defs path its [] | None \<Rightarrow> []).
    transition_ok d defs path (snd x)"
  by (cases v) (simp, simp only: option.case, rule parse_on_ok, simp)

lemma onDone_ok: "pred_option (transition_ok d defs path)
    (map_option (\<lambda>q. parseTransitionPair d q ev done path defs) x)"
  by (cases x) (simp_all add: parseTransitionPair_ok)

lemma info_ok:
  assumes "states_ok d defs (Some (child_path parent name)) states"
  shows "node_ok d defs parent name (PState (state_info_of d defs p sMap name parent) states)"
proof -
  have i: "info_ranges_ok d (state_info_of d defs p sMap name parent)"
    by (simp add: info_ranges_ok_def state_info_of_def Let_def empty_state_info_def node_range_ok)
  have sel: "si_name (state_info_of d defs p sMap name parent) = name"
    "si_parentPath (state_info_of d defs p sMap name parent) = parent"
    "si_path (state_info_of d defs p sMap name parent) = child_path parent name"
    "si_isImplicitError (state_info_of d defs p sMap name parent) = False"
    "si_isCustomError (state_info_of d defs p sMap name parent) = (parent = None \<and> name = ''error'')"
    "si_on (state_info_of d defs p sMap name parent) = (case map_items (value_at sMap ''on'') of
       Some its \<Rightarrow> parse_on d defs (child_path parent name) its [] | None \<Rightarrow> [])"
    "si_onDone (state_info_of d defs p sMap name parent) = map_option
       (\<lambda>q. parseTransitionPair d q ''onDone'' True (child_path parent name) defs) (findPair sMap ''onDone'')"
    by (simp_all add: state_info_of_def Let_def empty_state_info_def)
  show ?thesis
    unfolding node_ok.simps sel
    by (intro conjI refl not_False_eq_True [THEN iffD2] i on_ok onDone_ok
        assms [unfolded states_ok_def, THEN conjunct1] assms [unfolded states_ok_def, THEN conjunct2]) simp
qed

lemma acc_add:
  assumes "acc_ok d defs acc" "node_ok d defs parent name n"
  shows "acc_ok d defs (add_state n acc)"
proof -
  let ?P = "\<lambda>x. fst x = si_path (ps_info (snd x)) \<and> (\<exists>parent name. node_ok d defs parent name (snd x))"
  have "\<forall>x \<in> set (AList.update (si_path (ps_info n)) n (pa_states acc)). ?P x"
    by (rule update_all [of _ ?P]) (use assms in \<open>auto simp: acc_ok_def simp del: node_ok.simps\<close>)
  then show ?thesis using assms(1)
    by (simp add: acc_ok_def add_state_def distinct_update)
qed

lemma acc_context: "acc_ok d defs acc \<Longrightarrow> acc_ok d defs (note_context d ptr items acc)"
  by (auto simp: acc_ok_def note_context_def Let_def)

lemma states_ok_update:
  assumes "states_ok d defs parent states" "node_ok d defs parent k n"
  shows "states_ok d defs parent (AList.update k n states)"
proof -
  have "\<forall>x \<in> set (AList.update k n states). node_ok d defs parent (fst x) (snd x)"
    by (rule update_all) (use assms in \<open>auto simp: states_ok_def\<close>)
  then show ?thesis using assms(1) by (simp add: states_ok_def distinct_update)
qed

lemma parse_states_skip:
  assumes "\<not> (\<exists>r k v. item = (Some (YScalar r k), v))"
  shows "parse_states d defs (item # items) parent states acc = parse_states d defs items parent states acc"
proof -
  obtain x v where x: "item = (x, v)" by fastforce
  show ?thesis
  proof (cases x)
    case (Some y)
    then show ?thesis using assms x by (cases y) simp_all
  qed (simp add: x)
qed

text \<open>Induction along the parser: states without a map, states with one, and the items of a map of states.\<close>

lemma parse_induct [case_names leaf node nil state skip]:
  fixes P :: "yaml_pair \<Rightarrow> string \<Rightarrow> string option \<Rightarrow> parse_acc \<Rightarrow> bool"
    and Q :: "yaml_pair list \<Rightarrow> string option \<Rightarrow> parsed_state dict \<Rightarrow> parse_acc \<Rightarrow> bool"
  assumes leaf: "\<And>p name parent acc. map_items (snd p) = None \<Longrightarrow> P p name parent acc"
    and node: "\<And>p name parent acc sMap. map_items (snd p) = Some sMap \<Longrightarrow>
      (\<And>its. map_items (value_at sMap ''states'') = Some its \<Longrightarrow>
        Q its (Some (child_path parent name)) []
          (note_context d (state_pointer (child_path parent name)) sMap acc)) \<Longrightarrow> P p name parent acc"
    and nil: "\<And>parent states acc. Q [] parent states acc"
    and state: "\<And>r k v items parent states acc. P (Some (YScalar r k), v) (scalar_text k) parent acc \<Longrightarrow>
      (\<And>n acc'. parseStatePair d defs (Some (YScalar r k), v) (scalar_text k) parent acc = (n, acc') \<Longrightarrow>
        Q items parent (AList.update (scalar_text k) n states) acc') \<Longrightarrow>
      Q ((Some (YScalar r k), v) # items) parent states acc"
    and skip: "\<And>item items parent states acc. \<not> (\<exists>r k v. item = (Some (YScalar r k), v)) \<Longrightarrow>
      Q items parent states acc \<Longrightarrow> Q (item # items) parent states acc"
  shows "P p name parent acc" "Q items parent states acc"
proof -
  have "(d' = d \<longrightarrow> defs' = defs \<longrightarrow> P p name parent acc)" "(d'' = d \<longrightarrow> defs'' = defs \<longrightarrow> Q items parent' states acc')"
    for d' d'' :: yaml_document and defs' defs'' p name parent acc items parent' states acc'
  proof (induction d' defs' p name parent acc and d'' defs'' items parent' states acc'
      rule: parseStatePair_parse_states.induct)
    case (1 d' defs' p name parent acc)
    show ?case
    proof (cases "map_items (snd p)")
      case None
      then show ?thesis using leaf by blast
    next
      case (Some sMap)
      have "P p name parent acc" if "d' = d" "defs' = defs"
        by (rule node [OF Some]) (use 1 [OF Some refl refl] that in blast)
      then show ?thesis by blast
    qed
  next
    case (2 d'' defs'' parent states acc)
    then show ?case by (simp add: nil)
  next
    case (3 d'' defs'' item items parent states acc)
    obtain x v where item: "item = (x, v)" by fastforce
    note eq = item [symmetric]
    show ?case
    proof (cases x)
      case None
      then show ?thesis using 3(1) [OF eq None] skip [of item] item by blast
    next
      case (Some y)
      show ?thesis
      proof (cases y)
        case (YScalar r k)
        have "Q (item # items) parent states acc" if "d'' = d" "defs'' = defs"
          unfolding item Some YScalar
          by (rule state) (use 3(2) [OF eq Some YScalar] 3(3) [OF eq Some YScalar _ refl] that in \<open>auto\<close>)
        then show ?thesis by blast
      next
        case (YMap r k)
        then show ?thesis using 3(4) [OF eq Some YMap] skip [of item] item Some by blast
      next
        case (YSeq r k)
        then show ?thesis using 3(5) [OF eq Some YSeq] skip [of item] item Some by blast
      next
        case (YAlias r)
        then show ?thesis using 3(6) [OF eq Some YAlias] skip [of item] item Some by blast
      qed
    qed
  qed
  from this(1) [THEN mp, THEN mp, OF refl refl] this(2) [THEN mp, THEN mp, OF refl refl]
  show "P p name parent acc" "Q items parent states acc" .
qed

lemma parse_leaf_alt:
  "map_items (snd p) = None \<Longrightarrow> parseStatePair d defs p name parent acc =
     (PState (empty_state_info d p name parent) [], add_state (PState (empty_state_info d p name parent) []) acc)"
  by (simp add: Let_def)

lemma parse_node_alt:
  assumes "map_items (snd p) = Some sMap"
    and "(case map_items (value_at sMap ''states'') of
       Some its \<Rightarrow> parse_states d defs its (Some (child_path parent name)) []
         (note_context d (state_pointer (child_path parent name)) sMap acc)
     | None \<Rightarrow> ([], note_context d (state_pointer (child_path parent name)) sMap acc)) = (cs, acc')"
  shows "parseStatePair d defs p name parent acc =
     (PState (state_info_of d defs p sMap name parent) cs,
      add_state (PState (state_info_of d defs p sMap name parent) cs) acc')"
  unfolding parseStatePair.simps assms(1) option.case Let_def assms(2) prod.case ..

lemma parse_ok:
  "acc_ok d defs acc \<longrightarrow> node_ok d defs parent name (fst (parseStatePair d defs p name parent acc)) \<and>
     acc_ok d defs (snd (parseStatePair d defs p name parent acc))"
  "acc_ok d defs acc \<longrightarrow> states_ok d defs parent states \<longrightarrow>
     states_ok d defs parent (fst (parse_states d defs items parent states acc)) \<and>
     acc_ok d defs (snd (parse_states d defs items parent states acc))"
proof (induction p name parent acc and items parent states acc rule: parse_induct [where d = d and defs = defs])
  case (leaf p name parent acc)
  then show ?case unfolding parse_leaf_alt [OF leaf] fst_conv snd_conv using empty_info_ok acc_add [OF _ empty_info_ok] by blast
next
  case (node p name parent acc sMap)
  let ?path = "child_path parent name"
  let ?acc = "note_context d (state_pointer ?path) sMap acc"
  obtain cs acc2 where c: "(case map_items (value_at sMap ''states'') of
      Some its \<Rightarrow> parse_states d defs its (Some ?path) [] ?acc | None \<Rightarrow> ([], ?acc)) = (cs, acc2)" by fastforce
  have "states_ok d defs (Some ?path) cs \<and> acc_ok d defs acc2" if "acc_ok d defs acc"
    using c acc_context [OF that, of "state_pointer ?path" sMap] node(2)
    by (cases "map_items (value_at sMap ''states'')") (fastforce simp: states_ok_def)+
  then show ?case
    unfolding parse_node_alt [OF node(1) c] fst_conv snd_conv using info_ok acc_add by blast
next
  case (state r k v items parent states acc)
  obtain m acc1 where m: "parseStatePair d defs (Some (YScalar r k), v) (scalar_text k) parent acc = (m, acc1)"
    by fastforce
  have *: "parse_states d defs ((Some (YScalar r k), v) # items) parent states acc =
      parse_states d defs items parent (AList.update (scalar_text k) m states) acc1"
    by (simp add: m del: parseStatePair.simps)
  show ?case unfolding * using state(1) [unfolded m fst_conv snd_conv] state(2) [OF m] states_ok_update by blast
next
  case (skip item items parent states acc)
  then show ?case unfolding parse_states_skip [OF skip(1)] by blast
qed simp

end
