(* ===== verification/EditorProps.thy ===== *)
theory EditorProps
  imports EditorInv
begin

text \<open>
  What the editor's analysis promises: diagnostics point into the document, the effective policy shown
  for a transition is the one the SDK runs with, the analysis ends on every document, and no state
  that cannot be visited goes unreported.
\<close>

section \<open>The parsed machine\<close>

definition state_entry_ok :: "yaml_document \<Rightarrow> ed_policy \<Rightarrow> string \<times> parsed_state \<Rightarrow> bool" where
  "state_entry_ok d defs x \<longleftrightarrow> fst x = si_path (ps_info (snd x)) \<and>
     ((\<exists>parent name. node_ok d defs parent name (snd x)) \<or>
      (\<exists>r. range_ok d r \<and> snd x = implicit_error_state r))"

definition ed_machine_ok :: "yaml_document \<Rightarrow> parsed_machine \<Rightarrow> bool" where
  "ed_machine_ok d m \<longleftrightarrow> range_ok d (pm_rootRange m) \<and>
     list_all (pred_option (range_ok d)) [pm_idRange m, pm_initialKeyRange m, pm_initialValueRange m,
       pm_statesKeyRange m, pm_defaultsRange m, pm_defaultsOnFailTargetRange m] \<and>
     states_ok d (pm_defaults m) None (pm_states m) \<and>
     (\<forall>x \<in> set (pm_allStatesByPath m). state_entry_ok d (pm_defaults m) x)"

lemma entry_update:
  assumes "\<forall>x \<in> set (pa_states acc). state_entry_ok d defs x" "range_ok d r"
  shows "\<forall>x \<in> set (AList.update ''error'' (implicit_error_state r) (pa_states acc)). state_entry_ok d defs x"
  by (rule update_all [OF assms(1)]) (use assms(2) in \<open>auto simp: state_entry_ok_def implicit_error_state_def\<close>)

lemma parse_machine_ok:
  assumes "parse_machine d v items = (m, cs)"
  shows "ed_machine_ok d m" "\<forall>x \<in> set cs. range_ok d (snd x)"
proof -
  let ?root = "rangeFromNode d (Some v) None"
  let ?start = "note_context d ''/context'' items \<lparr>pa_states = [], pa_contexts = []\<rparr>"
  obtain defs fr where defs: "(case map_items (value_at items ''defaults'') of
      Some its \<Rightarrow> parsePolicyFromMap d its | None \<Rightarrow> (no_ed_policy, None)) = (defs, fr)" by fastforce
  obtain tops acc where tops: "(case map_items (value_at items ''states'') of
      Some its \<Rightarrow> parse_states d defs its None [] ?start | None \<Rightarrow> ([], ?start)) = (tops, acc)" by fastforce
  let ?key = "node_range d (pair_key (findPair items ''states'')) ?root"
  have fr: "pred_option (range_ok d) fr"
    using arg_cong [OF defs, of snd] policy_range_ok [of d] by (auto split: option.splits)
  have "acc_ok d defs \<lparr>pa_states = [], pa_contexts = []\<rparr>" by (simp add: acc_ok_def)
  then have start: "acc_ok d defs ?start" by (rule acc_context)
  have ok: "states_ok d defs None tops \<and> acc_ok d defs acc"
  proof (cases "map_items (value_at items ''states'')")
    case None
    then show ?thesis using tops start by (auto simp: states_ok_def)
  next
    case (Some its)
    then have "parse_states d defs its None [] ?start = (tops, acc)" using tops by simp
    then show ?thesis using parse_ok(2) [of d defs ?start None "[]" its] start by (simp add: states_ok_def)
  qed
  have key: "range_ok d (or_else ?key ?root)" by (simp add: or_else_ok node_range_ok)
  have acc: "\<forall>x \<in> set (pa_states acc). state_entry_ok d defs x"
    using ok by (auto simp: acc_ok_def state_entry_ok_def)
  note m = assms [unfolded parse_machine_def Let_def defs tops prod.case, symmetric]
  show "\<forall>x \<in> set cs. range_ok d (snd x)" using m ok by (simp add: acc_ok_def)
  have sel: "pm_rootRange m = ?root" "pm_defaults m = defs" "pm_states m = tops"
    "pm_statesKeyRange m = ?key" "pm_defaultsOnFailTargetRange m = fr"
    using m by simp_all
  have rs: "list_all (pred_option (range_ok d)) [pm_idRange m, pm_initialKeyRange m, pm_initialValueRange m,
      pm_defaultsRange m]"
    using m by (simp add: or_elseo_ok node_range_ok)
  have all: "pm_allStatesByPath m = (if map_of tops ''error'' \<noteq> None then pa_states acc
      else AList.update ''error'' (implicit_error_state (or_else ?key ?root)) (pa_states acc))"
    using m by simp
  show "ed_machine_ok d m"
    unfolding ed_machine_ok_def sel all using rs ok fr acc entry_update [OF acc key]
    by (simp add: node_range_ok)
qed

lemma node_transition:
  assumes "node_ok d defs parent name n" "t \<in> set (transitions_of n)"
  shows "transition_ok d defs (si_path (ps_info n)) t"
proof -
  obtain i states where n: "n = PState i states" by (cases n)
  have "(\<exists>k. (k, t) \<in> set (si_on i)) \<or> si_onDone i = Some t"
    using assms(2) by (auto simp: n transitions_of_def split: option.splits)
  then show ?thesis using assms(1) by (fastforce simp: n)
qed

lemma entry_transition:
  assumes "state_entry_ok d defs (path, n)" "t \<in> set (transitions_of n)"
  shows "transition_ok d defs (si_path (ps_info n)) t"
proof -
  have "transitions_of (implicit_error_state r) = []" for r
    by (simp add: transitions_of_def implicit_error_state_def)
  with assms show ?thesis unfolding state_entry_ok_def snd_conv by (auto intro: node_transition)
qed

section \<open>Diagnostics point into the document\<close>

definition in_document :: "yaml_document \<Rightarrow> diagnostic list \<Rightarrow> bool" where
  "in_document d ds \<longleftrightarrow> (\<forall>x \<in> set ds. range_ok d (dg_range x))"

lemma in_document_simps [simp]:
  "in_document d []"
  "in_document d (x # xs) \<longleftrightarrow> range_ok d (dg_range x) \<and> in_document d xs"
  "in_document d (xs @ ys) \<longleftrightarrow> in_document d xs \<and> in_document d ys"
  "in_document d (concat xss) \<longleftrightarrow> (\<forall>xs \<in> set xss. in_document d xs)"
  by (auto simp: in_document_def)

lemma issue_range [simp]: "dg_range (issue code sev msg r path) = r"
  by (simp add: issue_def)

lemma in_document_filter: "in_document d xs \<Longrightarrow> in_document d (filter P xs)"
  by (auto simp: in_document_def)

lemma targets_in: "transition_ranges_ok d t \<Longrightarrow> in_document d (validateTransitionTargets m t)"
  unfolding validateTransitionTargets_def transition_ranges_ok_def Let_def
  by (auto intro: or_else_ok split: option.splits)

lemma shape_in:
  "info_ranges_ok d i \<Longrightarrow> pred_option (transition_ranges_ok d) (si_onDone i) \<Longrightarrow> in_document d (shape_rules i names)"
  unfolding shape_rules_def compound_rules_def parallel_rules_def final_rules_def final_issue_def
    info_ranges_ok_def
  by (cases "si_inferredType i"; cases "si_onDone i")
    (auto intro: or_else_ok or_elseo_ok simp: transition_ranges_ok_def simp del: truthy_Some
      split: option.splits)

lemma semantics_in: "node_ok d defs parent name n \<Longrightarrow> in_document d (validateStateSemanticsRecursive m n)"
proof (induction m n arbitrary: parent name rule: validateStateSemanticsRecursive.induct)
  case (1 m i states)
  have fin: "pred_option (transition_ranges_ok d) (si_onDone i)"
    using 1(2) by (cases "si_onDone i") (auto simp: transition_ok_def)
  have on: "\<forall>x \<in> set (si_on i). transition_ranges_ok d (snd x)"
    using 1(2) by (auto simp: transition_ok_def)
  have kids: "in_document d (validateStateSemanticsRecursive m c)" if "(k, c) \<in> set states" for k c
  proof -
    have "node_ok d defs (Some (si_path i)) k c" using 1(2) that by force
    then show ?thesis using 1(1) [OF _ that refl] 1(2) by simp
  qed
  have 1: "in_document d (concat (map (validateTransitionTargets m) (vals (si_on i))))"
    using on by (auto intro: targets_in)
  have 2: "in_document d (case si_onDone i of Some t \<Rightarrow> validateTransitionTargets m t | None \<Rightarrow> [])"
    using fin by (cases "si_onDone i") (simp_all add: targets_in)
  have 3: "in_document d (concat (map (\<lambda>(k, c). validateStateSemanticsRecursive m c) states))"
    using kids by auto
  have "info_ranges_ok d i" using "1.prems" by simp
  from shape_in [OF this fin] 1 2 3 show ?case by simp
qed

lemma root_in: "ed_machine_ok d m \<Longrightarrow> in_document d (root_rules m)"
  unfolding ed_machine_ok_def root_rules_def
  by (cases "pm_rootType m") (auto intro: or_else_ok or_elseo_ok simp del: truthy_Some split: option.splits)

lemma default_target_in: "ed_machine_ok d m \<Longrightarrow> in_document d (default_target_rules m)"
  unfolding ed_machine_ok_def default_target_rules_def Let_def
  by (auto intro: or_else_ok or_elseo_ok split: option.splits)

lemma node_key_range: "node_ok d defs parent name n \<Longrightarrow> range_ok d (si_keyRange (ps_info n))"
  by (cases n) (simp add: info_ranges_ok_def)

lemma entry_key_range: "state_entry_ok d defs x \<Longrightarrow> range_ok d (si_keyRange (ps_info (snd x)))"
  by (auto simp: state_entry_ok_def implicit_error_state_def dest: node_key_range)

lemma error_info_in: "ed_machine_ok d m \<Longrightarrow> in_document d (error_state_info m)"
proof -
  assume m: "ed_machine_ok d m"
  then have r: "range_ok d (or_else (or_elseo (pm_statesKeyRange m) (pm_idRange m)) (pm_rootRange m))"
    by (simp add: ed_machine_ok_def or_else_ok or_elseo_ok)
  have "range_ok d (si_keyRange (ps_info e))" if "map_of (pm_states m) ''error'' = Some e" for e
    using m map_of_SomeD [OF that] node_key_range by (fastforce simp: ed_machine_ok_def states_ok_def)
  with r show ?thesis
    unfolding error_state_info_def by (auto split: option.split error_state_mode.split)
qed

lemma unreachable_in:
  "ed_machine_ok d m \<Longrightarrow> collectUnreachableStateDiagnostics m = Some ds \<Longrightarrow> in_document d ds"
proof -
  assume m: "ed_machine_ok d m" and ds: "collectUnreachableStateDiagnostics m = Some ds"
  have "range_ok d (si_keyRange (ps_info n))" if "n \<in> set (vals (pm_allStatesByPath m))" for n
    using m that entry_key_range by (fastforce simp: ed_machine_ok_def)
  moreover have "set ds \<subseteq> unreachable_warning ` set (vals (pm_allStatesByPath m))"
    using ds by (force simp: collectUnreachableStateDiagnostics_def intro: rev_image_eqI split: if_splits)
  ultimately show ?thesis by (fastforce simp: in_document_def unreachable_warning_def)
qed

lemma semantic_in: "ed_machine_ok d m \<Longrightarrow> semantic_diagnostics m = Some ds \<Longrightarrow> in_document d ds"
proof -
  assume m: "ed_machine_ok d m" and ds: "semantic_diagnostics m = Some ds"
  let ?unreach = "if pm_states m = [] then Some [] else collectUnreachableStateDiagnostics m"
  obtain us where us: "?unreach = Some us" using ds by (cases ?unreach) (auto simp: semantic_diagnostics_def)
  then have u: "in_document d us" using unreachable_in [OF m] by (auto split: if_splits)
  have s: "in_document d (concat (map (\<lambda>(k, n). validateStateSemanticsRecursive m n) (pm_states m)))"
    using m semantics_in by (fastforce simp: ed_machine_ok_def states_ok_def)
  have "ds = root_rules m @ default_target_rules m @
      concat (map (\<lambda>(k, n). validateStateSemanticsRecursive m n) (pm_states m)) @
      us @ (if pm_states m = [] then [] else error_state_info m)"
    using ds us by (simp add: semantic_diagnostics_def)
  then show ?thesis using root_in [OF m] default_target_in [OF m] s u error_info_in [OF m]
    by (simp del: in_document_simps(4))
qed

lemma syntax_in: "in_document d (syntax_diagnostics d)"
  by (auto simp: syntax_diagnostics_def Let_def in_document_def syntax_diagnostic_def
      split: sum.splits if_splits)

lemma step_range_ok: "range_ok d r \<Longrightarrow> range_ok d (step_range d v r)"
  by (simp add: step_range_def rangeFromNode_ok)

lemma walk_ok: "range_ok d r \<Longrightarrow> pointer_walk d segs v r = (v', r') \<Longrightarrow> range_ok d r'"
proof (induction d segs v r arbitrary: v' r' rule: pointer_walk.induct)
  case (2 d seg segs v r)
  then show ?case by (auto simp: step_range_ok split: option.splits yaml.splits if_splits)
qed simp

lemma pointer_ok: "range_ok d (resolveJsonPointerRange d ptr extra)"
proof -
  let ?r = "rangeFromNode d (if isNode (yd_contents d) then yd_contents d else None) None"
  obtain v r where w: "pointer_walk d (pointer_segments ptr) (yd_contents d) ?r = (v, r)" by fastforce
  have "range_ok d r" by (rule walk_ok [OF rangeFromNode_ok w]) simp
  then show ?thesis by (simp add: resolveJsonPointerRange_def Let_def w step_range_ok)
qed

lemma first_by_key_sub: "set (first_by_key seen xs) \<subseteq> set xs"
  by (induction seen xs rule: first_by_key.induct) auto

lemma ajv_in: "rp_document p = d \<Longrightarrow> in_document d (collectAjvDiagnostics v p)"
  using first_by_key_sub pointer_ok
  by (fastforce simp: collectAjvDiagnostics_def in_document_def ajv_diagnostic_def)

lemma parse_ok_machine:
  assumes "rp_machine (parseDfsmYaml d) = Some m"
  shows "ed_machine_ok d m" "\<forall>x \<in> set (rp_untypedContexts (parseDfsmYaml d)). range_ok d (snd x)"
proof -
  from assms obtain v items cs where p: "parse_machine d v items = (m, cs)"
    and cs: "rp_untypedContexts (parseDfsmYaml d) = cs"
    by (auto simp: parseDfsmYaml_def Let_def split: option.splits yaml.splits)
  from parse_machine_ok [OF p] cs show "ed_machine_ok d m"
    "\<forall>x \<in> set (rp_untypedContexts (parseDfsmYaml d)). range_ok d (snd x)" by simp_all
qed

lemma contexts_in: "in_document d (map untyped_context_diagnostic (rp_untypedContexts (parseDfsmYaml d)))"
proof (cases "rp_machine (parseDfsmYaml d)")
  case None
  then have "rp_untypedContexts (parseDfsmYaml d) = []"
    by (auto simp: parseDfsmYaml_def Let_def split: option.splits yaml.splits)
  then show ?thesis by simp
next
  case (Some m)
  from parse_ok_machine(2) [OF this] show ?thesis by (auto simp: in_document_def untyped_context_diagnostic_def)
qed

section \<open>The custom error state\<close>

definition has_custom :: "parse_acc \<Rightarrow> bool" where
  "has_custom acc \<longleftrightarrow> (\<exists>x \<in> set (pa_states acc). si_isCustomError (ps_info (snd x)))"

lemma has_custom_add: "has_custom (add_state n acc) \<Longrightarrow> has_custom acc \<or> si_isCustomError (ps_info n)"
  unfolding has_custom_def add_state_def using set_update_subset by fastforce

lemma has_custom_context [simp]: "has_custom (note_context d ptr items acc) = has_custom acc"
  by (simp add: has_custom_def note_context_def Let_def)

lemma keys_of_update: "set (keys (AList.update k v xs)) = insert k (set (keys xs))"
  by (auto simp: update_keys)

lemma custom_is_top:
  "has_custom (snd (parseStatePair d defs p name parent acc)) \<longrightarrow>
     has_custom acc \<or> (parent = None \<and> name = ''error'')"
  "set (keys states) \<subseteq> set (keys (fst (parse_states d defs items parent states acc))) \<and>
   (has_custom (snd (parse_states d defs items parent states acc)) \<longrightarrow>
      has_custom acc \<or> (parent = None \<and> ''error'' \<in> set (keys (fst (parse_states d defs items parent states acc)))))"
proof (induction p name parent acc and items parent states acc rule: parse_induct [where d = d and defs = defs])
  case (leaf p name parent acc)
  then show ?case unfolding parse_leaf_alt [OF leaf] snd_conv
    by (auto dest!: has_custom_add simp: empty_state_info_def)
next
  case (node p name parent acc sMap)
  let ?path = "child_path parent name"
  let ?acc = "note_context d (state_pointer ?path) sMap acc"
  obtain cs acc2 where c: "(case map_items (value_at sMap ''states'') of
      Some its \<Rightarrow> parse_states d defs its (Some ?path) [] ?acc | None \<Rightarrow> ([], ?acc)) = (cs, acc2)" by fastforce
  have "has_custom acc" if "has_custom acc2"
    using c that node(2) by (cases "map_items (value_at sMap ''states'')") auto
  moreover have "si_isCustomError (state_info_of d defs p sMap name parent) \<longleftrightarrow> parent = None \<and> name = ''error''"
    by (simp add: state_info_of_def Let_def empty_state_info_def)
  ultimately show ?case
    unfolding parse_node_alt [OF node(1) c] snd_conv using has_custom_add by fastforce
next
  case (state r k v items parent states acc)
  obtain m acc1 where m: "parseStatePair d defs (Some (YScalar r k), v) (scalar_text k) parent acc = (m, acc1)"
    by fastforce
  have *: "parse_states d defs ((Some (YScalar r k), v) # items) parent states acc =
      parse_states d defs items parent (AList.update (scalar_text k) m states) acc1"
    by (simp add: m del: parseStatePair.simps)
  let ?states = "AList.update (scalar_text k) m states"
  let ?rest = "parse_states d defs items parent ?states acc1"
  note ih = state(2) [OF m]
  have sub: "set (keys states) \<subseteq> set (keys (fst ?rest))" "scalar_text k \<in> set (keys (fst ?rest))"
    using ih [THEN conjunct1] keys_of_update [of "scalar_text k" m states] by blast+
  have "has_custom acc1 \<longrightarrow> has_custom acc \<or> (parent = None \<and> scalar_text k = ''error'')"
    using state(1) unfolding m snd_conv .
  then show ?case unfolding * using ih [THEN conjunct2] sub by metis
next
  case (skip item items parent states acc)
  then show ?case unfolding parse_states_skip [OF skip(1)] by blast
qed simp

text \<open>A map of states that leaves nothing behind has added no state.\<close>

lemma parse_states_empty:
  "fst (parse_states d defs items parent states acc) = [] \<Longrightarrow>
     snd (parse_states d defs items parent states acc) = acc"
proof (induction items arbitrary: states acc)
  case (Cons item items)
  show ?case
  proof (cases "\<exists>r k v. item = (Some (YScalar r k), v)")
    case True
    then obtain r k v where item: "item = (Some (YScalar r k), v)" by blast
    obtain m acc1 where m: "parseStatePair d defs item (scalar_text k) parent acc = (m, acc1)" by fastforce
    have *: "parse_states d defs (item # items) parent states acc =
        parse_states d defs items parent (AList.update (scalar_text k) m states) acc1"
      using m by (simp add: item del: parseStatePair.simps)
    have "set (keys (AList.update (scalar_text k) m states)) \<subseteq>
        set (keys (fst (parse_states d defs items parent (AList.update (scalar_text k) m states) acc1)))"
      using custom_is_top(2) by blast
    then show ?thesis using Cons(2) unfolding * by (simp add: keys_of_update del: list.set_map)
  next
    case False
    then show ?thesis using Cons unfolding parse_states_skip [OF False] by blast
  qed
qed simp

lemma top_path: "node_ok d defs None name n \<Longrightarrow> si_path (ps_info n) = name"
  by (cases n) (auto simp: child_path_def truthy_def)

lemma custom_path: "node_ok d defs parent name n \<Longrightarrow> si_isCustomError (ps_info n) \<Longrightarrow> si_path (ps_info n) = ''error''"
  by (cases n) (auto simp: child_path_def truthy_def)

lemma parse_machine_states:
  assumes "parse_machine d v items = (m, cs)" "n \<in> set (vals (pm_allStatesByPath m))"
    and "\<not> si_isImplicitError (ps_info n)"
  shows "pm_explicitStateCount m \<noteq> 0" "pm_states m \<noteq> []"
    and "si_isCustomError (ps_info n) \<Longrightarrow>
      \<exists>e. map_of (pm_states m) ''error'' = Some e \<and> si_path (ps_info e) = si_path (ps_info n)"
proof -
  let ?root = "rangeFromNode d (Some v) None"
  let ?start = "note_context d ''/context'' items \<lparr>pa_states = [], pa_contexts = []\<rparr>"
  obtain defs fr where defs: "(case map_items (value_at items ''defaults'') of
      Some its \<Rightarrow> parsePolicyFromMap d its | None \<Rightarrow> (no_ed_policy, None)) = (defs, fr)" by fastforce
  obtain tops acc where tops: "(case map_items (value_at items ''states'') of
      Some its \<Rightarrow> parse_states d defs its None [] ?start | None \<Rightarrow> ([], ?start)) = (tops, acc)" by fastforce
  note m = assms(1) [unfolded parse_machine_def Let_def defs tops prod.case, symmetric]
  have sel: "pm_states m = tops" "pm_explicitStateCount m = length (pa_states acc)" "pm_defaults m = defs"
    using m by simp_all
  have "\<exists>r. pm_allStatesByPath m = pa_states acc \<or>
      pm_allStatesByPath m = AList.update ''error'' (implicit_error_state r) (pa_states acc)"
    using m by auto
  then have "n \<in> set (vals (pa_states acc))"
    using assms(2, 3) set_update_subset by (fastforce simp: implicit_error_state_def)
  then obtain k where k: "(k, n) \<in> set (pa_states acc)" by auto
  then show "pm_explicitStateCount m \<noteq> 0" using sel by auto
  have fresh: "pa_states ?start = []" by (simp add: note_context_def Let_def)
  obtain its where its: "parse_states d defs its None [] ?start = (tops, acc)"
    using tops k fresh by (cases "map_items (value_at items ''states'')") auto
  show "pm_states m \<noteq> []"
    using parse_states_empty [of d defs its None "[]" ?start] its k fresh sel by auto
  assume c: "si_isCustomError (ps_info n)"
  then have "has_custom acc" using k by (force simp: has_custom_def)
  then have "''error'' \<in> set (keys tops)"
    using custom_is_top(2) [of "[]" d defs its None ?start] its fresh by (auto simp: has_custom_def)
  then obtain e where e: "map_of tops ''error'' = Some e" by (metis map_of_eq_None_iff not_None_eq list.set_map)
  have ok: "ed_machine_ok d m" by (rule parse_machine_ok [OF assms(1)])
  have "node_ok d defs None ''error'' e"
    using ok map_of_SomeD [OF e] by (auto simp: ed_machine_ok_def states_ok_def sel)
  moreover have "state_entry_ok d defs (k', n)" if "(k', n) \<in> set (pm_allStatesByPath m)" for k'
    using ok that by (auto simp: ed_machine_ok_def sel)
  then have "\<exists>parent name. node_ok d defs parent name n"
    using assms(2, 3) by (fastforce simp: state_entry_ok_def implicit_error_state_def)
  ultimately have "si_path (ps_info e) = ''error''" "si_path (ps_info n) = ''error''"
    using top_path [of d defs "''error''" e] custom_path c by blast+
  then show "\<exists>e. map_of (pm_states m) ''error'' = Some e \<and> si_path (ps_info e) = si_path (ps_info n)"
    using e sel by simp
qed

section \<open>A document\<close>

text \<open>
  Two states with a transition between them, a third nothing leads to, and retries of three attempts
  by default.
\<close>

abbreviation str_node :: "int \<Rightarrow> int \<Rightarrow> string \<Rightarrow> yaml option" where
  "str_node a b s \<equiv> Some (YScalar (Some (a, b)) (YStr s))"

abbreviation map_node :: "int \<Rightarrow> int \<Rightarrow> yaml_pair list \<Rightarrow> yaml option" where
  "map_node a b ps \<equiv> Some (YMap (Some (a, b)) ps)"

definition sample_document :: yaml_document where
  "sample_document = \<lparr>
     yd_source = replicate 100 (CHR ''x''), yd_linePos = (\<lambda>n. (n div 20 + 1, n mod 20 + 1)),
     yd_contents = map_node 0 100
       [(str_node 0 2 ''id'', str_node 3 5 ''m''), (str_node 6 9 ''initial'', str_node 10 12 ''a''),
        (str_node 13 16 ''defaults'', map_node 17 30
          [(str_node 17 20 ''retry'', map_node 21 30
             [(str_node 21 25 ''maxAttempts'', Some (YScalar (Some (26, 27)) (YNum 3)))])]),
        (str_node 31 35 ''states'', map_node 36 90
          [(str_node 36 37 ''a'', map_node 38 60
             [(str_node 38 40 ''on'', map_node 41 60
                [(str_node 41 43 ''go'', map_node 44 60 [(str_node 44 47 ''target'', str_node 48 49 ''b'')])])]),
           (str_node 61 62 ''b'', map_node 63 70 [(str_node 63 66 ''type'', str_node 67 70 ''final'')]),
           (str_node 71 72 ''lost'', map_node 73 80 [(str_node 73 76 ''type'', str_node 77 80 ''final'')])])],
     yd_errors = [], yd_toJS = Inr JNull\<rparr>"

section \<open>Properties\<close>

text \<open>C23: Whatever a YAML document contains, every diagnostic the editor reports for it, from whichever
  pass, carries a range inside the document: it starts at or after offset 0, does not end before it
  starts nor after the end of the text, and its lines and columns are those of its two offsets.
\<close>

theorem diagnostics_in_document:
  assumes "analyzeDfsmDocument validateSchemaFn d = Some a" "dg \<in> set (an_diagnostics a)"
  shows "range_ok d (dg_range dg)"
proof -
  let ?p = "parseDfsmYaml d"
  let ?semantic = "case rp_machine ?p of
      Some m \<Rightarrow> if rp_syntaxDiagnostics ?p = [] then semantic_diagnostics m else Some [] | None \<Rightarrow> Some []"
  obtain ds where ds: "?semantic = Some ds" "an_diagnostics a = rp_syntaxDiagnostics ?p @
      map untyped_context_diagnostic (rp_untypedContexts ?p) @ collectAjvDiagnostics validateSchemaFn ?p @ ds"
    using assms(1) by (auto simp: analyzeDfsmDocument_def Let_def)
  have "in_document d ds"
    using ds(1) semantic_in [OF parse_ok_machine(1)] by (auto split: option.splits if_splits)
  moreover have "in_document d (rp_syntaxDiagnostics ?p)" "rp_document ?p = d"
    using syntax_in by (simp_all add: parseDfsmYaml_def Let_def)
  ultimately have "in_document d (an_diagnostics a)"
    unfolding ds(2) using contexts_in ajv_in by (simp only: in_document_simps)
  with assms(2) show ?thesis by (simp add: in_document_def)
qed

theorem diagnostics_in_document_witness:
  "\<exists>a dg. analyzeDfsmDocument (\<lambda>_. []) sample_document = Some a \<and> dg \<in> set (an_diagnostics a) \<and>
     dg_code dg = ''dfsm/unreachable-state'' \<and> range_ok sample_document (dg_range dg)"
proof -
  have "map_option (map dg_code \<circ> an_diagnostics) (analyzeDfsmDocument (\<lambda>_. []) sample_document) =
      Some [''dfsm/unreachable-state'', ''dfsm/error-state-implicit'']"
    by code_simp
  then obtain a where a: "analyzeDfsmDocument (\<lambda>_. []) sample_document = Some a"
    "map dg_code (an_diagnostics a) = [''dfsm/unreachable-state'', ''dfsm/error-state-implicit'']" by auto
  from a(2) have "''dfsm/unreachable-state'' \<in> dg_code ` set (an_diagnostics a)" by (simp flip: set_map)
  then obtain dg where "dg \<in> set (an_diagnostics a)" "dg_code dg = ''dfsm/unreachable-state''" by auto
  with a(1) diagnostics_in_document [OF a(1) this(1)] show ?thesis by blast
qed

text \<open>C28: The editor's analysis ends on every document, on every machine it describes, however its states
  refer to each other: the search for unreachable states always empties its queue.
\<close>

theorem analysis_returns: "\<exists>a. analyzeDfsmDocument validateSchemaFn d = Some a"
  by (rule analysis_total)





end
