(* ===== verification/EditorGraph.thy ===== *)
theory EditorGraph
  imports EditorValidator
begin

text \<open>
  The statechart graph of the preview (\<^verbatim>\<open>visualizer/types.ts\<close>, \<^verbatim>\<open>visualizer/graphBuilder.ts\<close>): a
  node per state, an edge per transition whose target resolves, a dashed edge per failure target
  that is worth showing; and the recognition of documents (\<^verbatim>\<open>core/detector.ts\<close>). The builder pushes
  to two arrays while it walks the states; the model passes them along.
\<close>

section \<open>Recognising documents\<close>

record detection_input =
  di_fileName :: string
  di_contents :: "yaml option"
  di_languageId :: "string option"

datatype detection_reason = FileExtension | YamlHeader | NotDfsm

record detection =
  dt_isDfsm :: bool
  dt_reason :: detection_reason
  dt_machineId :: "string option"

definition lower :: "char \<Rightarrow> char" where
  "lower c = (let n = of_char c :: nat in if 65 \<le> n \<and> n \<le> 90 then char_of (n + 32) else c)"

text \<open>The regular expressions end in \<open>$\<close> and ignore case.\<close>

definition generic_yaml :: "string \<Rightarrow> bool" where
  "generic_yaml s \<longleftrightarrow> ends_with (map lower s) ''.yaml'' \<or> ends_with (map lower s) ''.yml''"

definition dfsm_extension :: "string \<Rightarrow> bool" where
  "dfsm_extension s \<longleftrightarrow> ends_with (map lower s) ''.dfsm.yaml'' \<or> ends_with (map lower s) ''.dfsm.yml''"

definition alphanumeric :: "char \<Rightarrow> bool" where
  "alphanumeric c \<longleftrightarrow> (let n = of_char (lower c) :: nat in (48 \<le> n \<and> n \<le> 57) \<or> (97 \<le> n \<and> n \<le> 122))"

text \<open>\<open>/\.[a-z0-9]+$/i\<close>\<close>

definition has_extension :: "string \<Rightarrow> bool" where
  "has_extension s \<longleftrightarrow> (let r = rev s; ext = takeWhile alphanumeric r in
     ext \<noteq> [] \<and> (case drop (length ext) r of c # cs \<Rightarrow> c = CHR ''.'' | [] \<Rightarrow> False))"

definition id_of_document :: "yaml option \<Rightarrow> string option" where
  "id_of_document contents =
     (case Option.bind (map_items contents) (\<lambda>items. readStringScalar (value_at items ''id'')) of
        Some s \<Rightarrow> if js_trim s \<noteq> [] then Some (js_trim s) else None
      | None \<Rightarrow> None)"

definition has_header :: "yaml option \<Rightarrow> bool" where
  "has_header contents \<longleftrightarrow> (case map_items contents of
     None \<Rightarrow> False
   | Some items \<Rightarrow>
       (case value_at items ''dfsm'' of Some (YScalar r v) \<Rightarrow> scalar_text v = ''1.0'' | _ \<Rightarrow> False) \<and>
       id_of_document contents \<noteq> None \<and> map_items (value_at items ''states'') \<noteq> None)"

text \<open>The contents are \<open>None\<close> as well when the YAML reader throws.\<close>

definition detectDfsmDocument :: "detection_input \<Rightarrow> detection" where
  "detectDfsmDocument inp =
     (let normalizedName = js_trim (di_fileName inp); isDfsmFileName = dfsm_extension normalizedName;
          isGenericYaml = (generic_yaml normalizedName \<or>
            (di_languageId inp = Some ''yaml'' \<and> \<not> has_extension normalizedName));
          machineId = id_of_document (di_contents inp)
      in if \<not> isDfsmFileName \<and> \<not> isGenericYaml
         then \<lparr>dt_isDfsm = False, dt_reason = NotDfsm, dt_machineId = None\<rparr>
         else if isDfsmFileName
         then \<lparr>dt_isDfsm = True, dt_reason = FileExtension, dt_machineId = machineId\<rparr>
         else if has_header (di_contents inp)
         then \<lparr>dt_isDfsm = True, dt_reason = YamlHeader, dt_machineId = machineId\<rparr>
         else \<lparr>dt_isDfsm = False, dt_reason = NotDfsm, dt_machineId = None\<rparr>)"

definition formatStatusBarText :: "string option \<Rightarrow> nat \<Rightarrow> string" where
  "formatStatusBarText machineId stateCount =
     ''$(type-hierarchy-sub) DFSM: '' @ or_else (truthy machineId) ''unnamed'' @ '' ('' @ show_nat stateCount @
     '' '' @ (if stateCount = 1 then ''state'' else ''states'') @ '')''"

section \<open>The graph's data\<close>

datatype node_kind = KindAtomic | KindCompound | KindParallel | KindFinal | KindError

datatype badge_kind = BadgeRetry | BadgeBreaker | BadgeCompensate | BadgeEffects

record badge =
  bd_kind :: badge_kind
  bd_label :: string

record transition_detail =
  td_id :: string
  td_event :: string
  td_isOnDone :: bool
  td_target :: "string option"
  td_resolvedTarget :: "string option"
  td_handler :: "string option"
  td_compensate :: "string option"
  td_effects :: "string list"
  td_badges :: "badge list"
  td_effectivePolicy :: ed_norm_policy
  td_policySources :: policy_sources
  td_range :: "source_range option"

datatype shown_error_mode = ShownDefault | ShownCustom

record node_info =
  vi_id :: string
  vi_name :: string
  vi_label :: string
  vi_kind :: node_kind
  vi_stateType :: ed_state_type
  vi_errorMode :: "shown_error_mode option"
  vi_parentId :: "string option"
  vi_isInitial :: bool
  vi_initialChildId :: "string option"
  vi_description :: "string option"
  vi_entry :: "string list"
  vi_exit :: "string list"
  vi_transitions :: "transition_detail list"
  vi_range :: "source_range option"
  vi_blockRange :: "source_range option"

datatype vis_node = VNode (vn_info: node_info) (vn_children: "vis_node list")

datatype edge_kind = EdgeEvent | EdgeOnDone | EdgeOnFail

record vis_edge =
  ve_id :: string
  ve_source :: string
  ve_target :: string
  ve_edgeKind :: edge_kind
  ve_event :: string
  ve_handler :: "string option"
  ve_label :: string
  ve_dashed :: bool
  ve_badges :: "badge list"
  ve_effectivePolicy :: ed_norm_policy
  ve_policySources :: policy_sources
  ve_range :: "source_range option"

record vis_graph =
  vg_machineId :: string
  vg_version :: string
  vg_description :: "string option"
  vg_rootType :: ed_root_type
  vg_rootInitialId :: "string option"
  vg_namespace :: "string option"
  vg_errorStateMode :: error_state_mode
  vg_explicitStateCount :: nat
  vg_hooks :: ed_hooks
  vg_effects :: "string list"
  vg_maxEffectChainDepth :: "rat option"
  vg_rootNodes :: "vis_node list"
  vg_allNodes :: "vis_node list"
  vg_edges :: "vis_edge list"
  vg_diagnostics :: "diagnostic list"

section \<open>Nodes and edges\<close>

definition computeTransitionBadges :: "parsed_transition \<Rightarrow> badge list" where
  "computeTransitionBadges t =
     (let maxAttempts = en_maxAttempts (ef_retry (px_effectivePolicy t)) in
      (if maxAttempts > 1 \<or> Option.bind (ep_retry (px_policy t)) er_maxAttempts \<noteq> None
       then [\<lparr>bd_kind = BadgeRetry, bd_label = ''retry: '' @ show_num maxAttempts\<rparr>] else []) @
      (if eq_enabled (ef_circuitBreaker (px_effectivePolicy t))
       then [\<lparr>bd_kind = BadgeBreaker, bd_label = ''CB''\<rparr>] else []) @
      (case truthy (px_compensate t) of
         Some c \<Rightarrow> [\<lparr>bd_kind = BadgeCompensate, bd_label = ''compensate: '' @ c\<rparr>] | None \<Rightarrow> []) @
      (case px_effects t of
         [] \<Rightarrow> []
       | [e] \<Rightarrow> [\<lparr>bd_kind = BadgeEffects, bd_label = ''effects: '' @ e\<rparr>]
       | es \<Rightarrow> [\<lparr>bd_kind = BadgeEffects, bd_label = ''effects ('' @ show_nat (length es) @ '')''\<rparr>]))"

definition node_kind_of :: "state_info \<Rightarrow> node_kind" where
  "node_kind_of i =
     (if si_isImplicitError i \<or> si_isCustomError i then KindError
      else case si_inferredType i of EdAtomic \<Rightarrow> KindAtomic | EdCompound \<Rightarrow> KindCompound
        | EdParallel \<Rightarrow> KindParallel | EdFinal \<Rightarrow> KindFinal)"

text \<open>The dot between an event and its handler.\<close>

definition middot :: string where
  "middot = [CHR '' '', CHR 0xB7, CHR '' '']"

definition edge_label :: "parsed_transition \<Rightarrow> string" where
  "edge_label t =
     (let name = (if px_isOnDone t then ''onDone'' else px_event t) in
      case truthy (px_transition t) of Some h \<Rightarrow> name @ middot @ h | None \<Rightarrow> name)"

definition resolved_path :: "target_resolution \<Rightarrow> string option" where
  "resolved_path res = (if rs_resolved res then truthy (rs_targetPath res) else None)"

definition resolved_target :: "parsed_machine \<Rightarrow> string \<Rightarrow> parsed_transition \<Rightarrow> string option" where
  "resolved_target machine path t =
     Option.bind (truthy (px_target t)) (\<lambda>target. resolved_path (resolveStateTarget machine (Some path) target))"

definition target_edge :: "string \<Rightarrow> string \<Rightarrow> parsed_transition \<Rightarrow> vis_edge" where
  "target_edge path target t = \<lparr>ve_id = px_id t, ve_source = path, ve_target = target,
     ve_edgeKind = (if px_isOnDone t then EdgeOnDone else EdgeEvent), ve_event = px_event t,
     ve_handler = px_transition t, ve_label = edge_label t, ve_dashed = False,
     ve_badges = computeTransitionBadges t, ve_effectivePolicy = px_effectivePolicy t,
     ve_policySources = px_policySources t, ve_range = Some (px_keyRange t)\<rparr>"

definition shows_fail_edge :: "parsed_machine \<Rightarrow> parsed_transition \<Rightarrow> bool" where
  "shows_fail_edge machine t \<longleftrightarrow>
     ep_onFail (px_policy t) \<noteq> None \<or>
     (truthy (px_transition t) \<noteq> None \<and>
       (ep_onFail (pm_defaults machine) \<noteq> None \<or> truthy (px_compensate t) \<noteq> None \<or>
        en_maxAttempts (ef_retry (px_effectivePolicy t)) > 1 \<or>
        eq_enabled (ef_circuitBreaker (px_effectivePolicy t)) \<or> pm_errorStateMode machine = CustomError))"

definition fail_key :: "string \<Rightarrow> string \<Rightarrow> parsed_transition \<Rightarrow> string" where
  "fail_key path target t =
     (if ep_onFail (px_policy t) \<noteq> None then px_id t @ ''::onFail::'' @ target
      else path @ ''::defaultOnFail::'' @ target @ ''::'' @
        (if no_compensate (ef_onFail (px_effectivePolicy t)) then ''true'' else ''false''))"

definition fail_edge :: "string \<Rightarrow> string \<Rightarrow> parsed_transition \<Rightarrow> vis_edge" where
  "fail_edge path target t = \<lparr>ve_id = px_id t @ ''::onFail'', ve_source = path, ve_target = target,
     ve_edgeKind = EdgeOnFail, ve_event = px_event t @ '':onFail'', ve_handler = None,
     ve_label = (if ep_onFail (px_policy t) \<noteq> None then ''onFail ('' @ px_event t @ '')'' else ''onFail''),
     ve_dashed = True,
     ve_badges = (if no_compensate (ef_onFail (px_effectivePolicy t))
       then [\<lparr>bd_kind = BadgeCompensate, bd_label = (case truthy (px_compensate t) of
         Some c \<Rightarrow> ''compensate: '' @ c | None \<Rightarrow> ''compensate: LIFO'')\<rparr>] else []),
     ve_effectivePolicy = px_effectivePolicy t, ve_policySources = px_policySources t,
     ve_range = Some (or_else (px_onFailTargetRange t) (px_keyRange t))\<rparr>"

text \<open>The edges of a state's transitions; the set holds the keys of failure edges already drawn.\<close>

fun transition_edges :: "parsed_machine \<Rightarrow> string \<Rightarrow> string list \<Rightarrow> parsed_transition list \<Rightarrow> vis_edge list" where
  "transition_edges machine path emitted [] = []"
| "transition_edges machine path emitted (t # ts) =
     (let direct = (case resolved_target machine path t of
            Some target \<Rightarrow> [target_edge path target t] | None \<Rightarrow> []);
          failure = (if shows_fail_edge machine t
            then resolved_path (resolveStateTarget machine (Some path) (no_target (ef_onFail (px_effectivePolicy t))))
            else None)
      in case failure of
           None \<Rightarrow> direct @ transition_edges machine path emitted ts
         | Some target \<Rightarrow>
             if fail_key path target t \<in> set emitted then direct @ transition_edges machine path emitted ts
             else direct @ fail_edge path target t #
               transition_edges machine path (fail_key path target t # emitted) ts)"

definition detail_of :: "parsed_machine \<Rightarrow> state_info \<Rightarrow> parsed_transition \<Rightarrow> transition_detail" where
  "detail_of machine i t = \<lparr>td_id = px_id t, td_event = px_event t, td_isOnDone = px_isOnDone t,
     td_target = px_target t, td_resolvedTarget = resolved_target machine (si_path i) t,
     td_handler = px_transition t, td_compensate = px_compensate t, td_effects = px_effects t,
     td_badges = computeTransitionBadges t, td_effectivePolicy = px_effectivePolicy t,
     td_policySources = px_policySources t,
     td_range = (if si_isImplicitError i then None else Some (px_keyRange t))\<rparr>"

definition node_info_of :: "parsed_machine \<Rightarrow> parsed_state \<Rightarrow> bool \<Rightarrow> node_info" where
  "node_info_of machine n isInitial =
     (let i = ps_info n in
      \<lparr>vi_id = si_path i, vi_name = si_name i,
       vi_label = (if si_isImplicitError i then ''error (default)''
         else if si_isCustomError i then ''error (custom)'' else si_name i),
       vi_kind = node_kind_of i, vi_stateType = si_inferredType i,
       vi_errorMode = (if si_isImplicitError i then Some ShownDefault
         else if si_isCustomError i then Some ShownCustom else None),
       vi_parentId = si_parentPath i, vi_isInitial = isInitial,
       vi_initialChildId = (case truthy (si_initial i) of
         Some init \<Rightarrow> if si_inferredType i = EdCompound \<and> map_of (ps_states n) init \<noteq> None
           then Some (si_path i @ dot @ init) else None
       | None \<Rightarrow> None),
       vi_description = si_description i, vi_entry = si_entry i, vi_exit = si_exit i,
       vi_transitions = map (detail_of machine i) (transitions_of n),
       vi_range = (if si_isImplicitError i then None else Some (si_keyRange i)),
       vi_blockRange = (if si_isImplicitError i then None else Some (si_blockRange i))\<rparr>)"

type_synonym graph_acc = "vis_node list \<times> vis_edge list"

fun buildNodeRecursive :: "parsed_machine \<Rightarrow> parsed_state \<Rightarrow> bool \<Rightarrow> graph_acc \<Rightarrow> vis_node \<times> graph_acc"
  and build_nodes :: "parsed_machine \<Rightarrow> bool \<Rightarrow> string option \<Rightarrow> (string \<times> parsed_state) list \<Rightarrow> graph_acc \<Rightarrow>
    vis_node list \<times> graph_acc" where
  "buildNodeRecursive machine (PState i states) isInitial acc =
     (let (children, (allNodes, edges)) =
            build_nodes machine (si_inferredType i = EdCompound) (si_initial i) states acc;
          vNode = VNode (node_info_of machine (PState i states) isInitial) children
      in (vNode, (allNodes @ [vNode],
            edges @ transition_edges machine (si_path i) [] (transitions_of (PState i states)))))"
| "build_nodes machine compound init [] acc = ([], acc)"
| "build_nodes machine compound init ((k, n) # ns) acc =
     (let (v, acc1) = buildNodeRecursive machine n (compound \<and> init = Some k) acc;
          (vs, acc2) = build_nodes machine compound init ns acc1
      in (v # vs, acc2))"

definition invalid_graph :: "diagnostic list \<Rightarrow> vis_graph" where
  "invalid_graph ds = \<lparr>vg_machineId = ''invalid-machine'', vg_version = ''1.0.0'', vg_description = None,
     vg_rootType = EdRootCompound, vg_rootInitialId = None, vg_namespace = None,
     vg_errorStateMode = ImplicitError, vg_explicitStateCount = 0,
     vg_hooks = \<lparr>eh_onStart = [], eh_beforeTransition = [], eh_afterTransition = [], eh_onCompensate = [],
       eh_onComplete = [], eh_onTerminal = []\<rparr>,
     vg_effects = [], vg_maxEffectChainDepth = None, vg_rootNodes = [], vg_allNodes = [], vg_edges = [],
     vg_diagnostics = ds\<rparr>"

definition buildVisualizerGraph :: "analysis \<Rightarrow> vis_graph" where
  "buildVisualizerGraph an =
     (case an_machine an of
        None \<Rightarrow> invalid_graph (an_diagnostics an)
      | Some machine \<Rightarrow>
          let compound = (pm_rootType machine = EdRootCompound);
              (stateNodes, acc) = build_nodes machine compound (pm_initial machine) (pm_states machine) ([], []);
              (rootNodes, (allNodes, edges)) =
                (case (pm_errorStateMode machine, pm_implicitErrorNode machine) of
                   (ImplicitError, Some e) \<Rightarrow>
                     let (v, acc2) = buildNodeRecursive machine e False acc in (stateNodes @ [v], acc2)
                 | _ \<Rightarrow> (stateNodes, acc))
          in \<lparr>vg_machineId = or_else (pm_id machine) ''unnamed-machine'', vg_version = pm_version machine,
              vg_description = pm_description machine, vg_rootType = pm_rootType machine,
              vg_rootInitialId = (case truthy (pm_initial machine) of
                Some init \<Rightarrow> if compound \<and> map_of (pm_states machine) init \<noteq> None then Some init else None
              | None \<Rightarrow> None),
              vg_namespace = Option.bind (pm_registry machine) fst,
              vg_errorStateMode = pm_errorStateMode machine,
              vg_explicitStateCount = pm_explicitStateCount machine, vg_hooks = pm_hooks machine,
              vg_effects = pm_effects machine, vg_maxEffectChainDepth = pm_maxEffectChainDepth machine,
              vg_rootNodes = rootNodes, vg_allNodes = allNodes, vg_edges = edges,
              vg_diagnostics = an_diagnostics an\<rparr>)"

end
