(* ===== verification/EditorLayout.thy ===== *)
theory EditorLayout
  imports EditorGraph
begin

text \<open>
  The layout of the preview (\<^verbatim>\<open>visualizer/layoutEngine.ts\<close>): sizes of the nodes from the inside out,
  ranks of siblings by breadth-first search, boxes with absolute positions, and the edges between
  them. All box coordinates are integers; \<open>Math.round\<close> is \<open>round_half\<close> on exact rationals. The
  code assigns positions to the measured nodes in place; the model computes them by index.
\<close>

section \<open>Data\<close>

record divider =
  dv_relX1 :: int
  dv_relY1 :: int
  dv_relX2 :: int
  dv_relY2 :: int

record marker =
  mk_targetNodeId :: string
  mk_relDotX :: int
  mk_relDotY :: int
  mk_relTargetX :: int
  mk_relTargetY :: int

record measure_info =
  ms_node :: vis_node
  ms_relX :: int
  ms_relY :: int
  ms_width :: int
  ms_height :: int
  ms_headerHeight :: int
  ms_dividers :: "divider list"
  ms_initialMarker :: "marker option"

datatype measured_tree = MTree (mt_info: measure_info) (mt_children: "measured_tree list")

record node_box =
  bx_node :: vis_node
  bx_x :: int
  bx_y :: int
  bx_width :: int
  bx_height :: int
  bx_headerHeight :: int
  bx_depth :: nat

record parallel_divider =
  pl_parallelNodeId :: string
  pl_x1 :: int
  pl_y1 :: int
  pl_x2 :: int
  pl_y2 :: int

record initial_marker =
  im_ownerId :: string
  im_targetNodeId :: string
  im_dotX :: int
  im_dotY :: int
  im_pathD :: string

record edge_layout =
  el_edge :: vis_edge
  el_pathD :: string
  el_labelX :: int
  el_labelY :: int

record layout_graph =
  lg_graph :: vis_graph
  lg_width :: int
  lg_height :: int
  lg_nodes :: "node_box list"
  lg_parallelDividers :: "parallel_divider list"
  lg_initialMarkers :: "initial_marker list"
  lg_edges :: "edge_layout list"

definition round_half :: "rat \<Rightarrow> int" where
  "round_half x = \<lfloor>x + 1 / 2\<rfloor>"

definition half :: "int \<Rightarrow> int" where
  "half n = round_half (of_int n / 2)"

definition H_GAP :: int where "H_GAP = 64"
definition V_GAP :: int where "V_GAP = 86"
definition CONTAINER_PAD_X :: int where "CONTAINER_PAD_X = 28"
definition CONTAINER_PAD_BOTTOM :: int where "CONTAINER_PAD_BOTTOM = 28"
definition INITIAL_MARKER_SPACE :: int where "INITIAL_MARKER_SPACE = 24"
definition PARALLEL_REGION_GAP :: int where "PARALLEL_REGION_GAP = 40"

lemmas gaps = H_GAP_def V_GAP_def CONTAINER_PAD_X_def CONTAINER_PAD_BOTTOM_def INITIAL_MARKER_SPACE_def
  PARALLEL_REGION_GAP_def

abbreviation node_id :: "vis_node \<Rightarrow> string" where
  "node_id n \<equiv> vi_id (vn_info n)"

abbreviation node_kind :: "vis_node \<Rightarrow> node_kind" where
  "node_kind n \<equiv> vi_kind (vn_info n)"

abbreviation tree_id :: "measured_tree \<Rightarrow> string" where
  "tree_id m \<equiv> node_id (ms_node (mt_info m))"

abbreviation tree_width :: "measured_tree \<Rightarrow> int" where
  "tree_width m \<equiv> ms_width (mt_info m)"

abbreviation tree_height :: "measured_tree \<Rightarrow> int" where
  "tree_height m \<equiv> ms_height (mt_info m)"

fun move_to :: "int \<Rightarrow> int \<Rightarrow> measured_tree \<Rightarrow> measured_tree" where
  "move_to x y (MTree i cs) = MTree (i\<lparr>ms_relX := x, ms_relY := y\<rparr>) cs"

fun move_by :: "int \<Rightarrow> int \<Rightarrow> measured_tree \<Rightarrow> measured_tree" where
  "move_by dx dy (MTree i cs) = MTree (i\<lparr>ms_relX := ms_relX i + dx, ms_relY := ms_relY i + dy\<rparr>) cs"

fun set_height :: "int \<Rightarrow> measured_tree \<Rightarrow> measured_tree" where
  "set_height h (MTree i cs) = MTree (i\<lparr>ms_height := h\<rparr>) cs"

section \<open>Leaves\<close>

definition estimateLeafSize :: "node_info \<Rightarrow> int \<times> int" where
  "estimateLeafSize i =
     (let labelWidth = \<lceil>of_nat (length (vi_label i)) * (82 / 10 :: rat)\<rceil> + 68;
          hooksTextLen = max
            (if vi_entry i \<noteq> [] then length (''entry: '' @ join '', '' (vi_entry i)) else 0)
            (if vi_exit i \<noteq> [] then length (''exit: '' @ join '', '' (vi_exit i)) else 0);
          hooksWidth = (if hooksTextLen > 0 then \<lceil>of_nat hooksTextLen * (68 / 10 :: rat)\<rceil> + 36 else 0);
          width = max 180 (min 310 (max labelWidth hooksWidth));
          height = 62 + (if vi_entry i \<noteq> [] then 20 else 0) + (if vi_exit i \<noteq> [] then 20 else 0);
          height = (if vi_kind i = KindError then max height 68 else height)
      in (width, height))"

section \<open>Ranks\<close>

text \<open>The sibling under \<open>parentId\<close> that the node is, or lies in.\<close>

definition topSiblingAncestor :: "string \<Rightarrow> string option \<Rightarrow> string option" where
  "topSiblingAncestor nodeId parentId =
     (case parentId of
        None \<Rightarrow> Some (before_dot nodeId)
      | Some p \<Rightarrow>
          if starts_with nodeId (p @ dot) then Some (p @ dot @ before_dot (drop (length p + 1) nodeId)) else None)"

definition add_link :: "string option \<Rightarrow> string list dict \<Rightarrow> vis_edge \<Rightarrow> string list dict" where
  "add_link parentId adj e =
     (case (truthy (topSiblingAncestor (ve_source e) parentId), truthy (topSiblingAncestor (ve_target e) parentId)) of
        (Some u, Some v) \<Rightarrow>
          (case map_of adj u of
             Some vs \<Rightarrow>
               if u \<noteq> v \<and> map_of adj v \<noteq> None \<and> v \<notin> set vs then AList.update u (vs @ [v]) adj else adj
           | None \<Rightarrow> adj)
      | _ \<Rightarrow> adj)"

definition sibling_links :: "string list \<Rightarrow> string option \<Rightarrow> vis_edge list \<Rightarrow> string list dict" where
  "sibling_links ids parentId allEdges =
     (let adj = fold (\<lambda>i a. AList.update i [] a) ids [];
          adj = foldl (add_link parentId) adj (filter (\<lambda>e. ve_edgeKind e \<noteq> EdgeOnFail) allEdges)
      in foldl (add_link parentId) adj (filter (\<lambda>e. ve_edgeKind e = EdgeOnFail) allEdges))"

text \<open>The nodes not ranked yet get the next rank and join the queue.\<close>

fun rank_next :: "nat \<Rightarrow> string list \<Rightarrow> nat dict \<Rightarrow> string list \<Rightarrow> nat dict \<times> string list" where
  "rank_next r [] ranks queue = (ranks, queue)"
| "rank_next r (n # ns) ranks queue =
     (if map_of ranks n \<noteq> None then rank_next r ns ranks queue
      else rank_next r ns (AList.update n r ranks) (queue @ [n]))"

definition all_links :: "string list dict \<Rightarrow> string set" where
  "all_links adj = (\<Union>x \<in> set adj. set (snd x))"

lemma dom_update: "set (keys (AList.update k v xs)) = insert k (set (keys xs))"
  by (auto simp: update_keys)

lemma rank_next_progress:
  assumes "rank_next r ns ranks queue = (ranks', queue')" "set ns \<subseteq> all_links adj"
  shows "card (all_links adj - set (keys ranks')) + length queue' \<le>
    card (all_links adj - set (keys ranks)) + length queue"
  using assms
proof (induction r ns ranks queue rule: rank_next.induct)
  case (2 r n ns ranks queue)
  let ?A = "all_links adj - set (keys ranks)"
  show ?case
  proof (cases "map_of ranks n = None")
    case True
    have fin: "finite ?A" by (simp add: all_links_def)
    have "n \<in> ?A" using 2(4) True by (simp add: map_of_eq_None_iff)
    then have "Suc (card (?A - {n})) = card ?A" using fin by (metis card_Suc_Diff1)
    moreover have "all_links adj - set (keys (AList.update n r ranks)) = ?A - {n}"
      unfolding dom_update by blast
    ultimately show ?thesis using 2(2) True 2(3, 4) by simp
  qed (use 2 in simp)
qed simp

function rank_search :: "string list dict \<Rightarrow> nat dict \<Rightarrow> string list \<Rightarrow> nat dict" where
  "rank_search adj ranks [] = ranks"
| "rank_search adj ranks (cur # queue) =
     (case rank_next (or_else (map_of ranks cur) 0 + 1) (or_else (map_of adj cur) []) ranks queue of
        (ranks', queue') \<Rightarrow> rank_search adj ranks' queue')"
  by pat_completeness auto
termination
proof (relation "measure (\<lambda>(adj, ranks, queue). card (all_links adj - set (keys ranks)) + length queue)", goal_cases)
  case (2 adj ranks cur queue ranks' queue')
  have "set (or_else (map_of adj cur) []) \<subseteq> all_links adj"
    by (cases "map_of adj cur") (auto simp: all_links_def dest: map_of_SomeD)
  from rank_next_progress [OF sym [OF 2] this] show ?case by simp
qed simp

definition start_ids :: "string option \<Rightarrow> string list \<Rightarrow> string list dict \<Rightarrow> string list" where
  "start_ids initialChildId ids adj =
     (case truthy initialChildId of
        Some i \<Rightarrow> if map_of adj i \<noteq> None then [i] else take 1 ids
      | None \<Rightarrow> take 1 ids)"

fun rank_rest :: "string list \<Rightarrow> nat \<Rightarrow> nat dict \<Rightarrow> nat dict" where
  "rank_rest [] maxRank ranks = ranks"
| "rank_rest (i # ids) maxRank ranks =
     (if map_of ranks i \<noteq> None then rank_rest ids maxRank ranks
      else rank_rest ids (maxRank + 1) (AList.update i (maxRank + 1) ranks))"

definition sibling_ranks :: "string list \<Rightarrow> string option \<Rightarrow> string option \<Rightarrow> vis_edge list \<Rightarrow> nat dict" where
  "sibling_ranks ids parentId initialChildId allEdges =
     (let adj = sibling_links ids parentId allEdges;
          start = start_ids initialChildId ids adj;
          ranks = rank_search adj (map (\<lambda>i. (i, 0)) start) start
      in rank_rest ids (fold max (vals ranks) 0) ranks)"

section \<open>Siblings of a compound state\<close>

text \<open>The children with their index, which tells the original order after they are placed.\<close>

type_synonym item = "nat \<times> measured_tree"

definition row_width :: "item list \<Rightarrow> int" where
  "row_width row = sum_list (map (\<lambda>(i, m). tree_width m) row) + H_GAP * (int (length row) - 1)"

definition row_height :: "item list \<Rightarrow> int" where
  "row_height row = fold (\<lambda>(i, m) acc. max acc (tree_height m)) row 0"

fun place_row :: "int \<Rightarrow> int \<Rightarrow> int \<Rightarrow> item list \<Rightarrow> item list" where
  "place_row cursorX cursorY rowHeight [] = []"
| "place_row cursorX cursorY rowHeight ((i, m) # row) =
     (i, move_to cursorX (cursorY + half (rowHeight - tree_height m)) m) #
       place_row (cursorX + tree_width m + H_GAP) cursorY rowHeight row"

fun place_rows :: "int \<Rightarrow> int \<Rightarrow> item list list \<Rightarrow> item list \<times> int" where
  "place_rows maxLayerWidth cursorY [] = ([], cursorY)"
| "place_rows maxLayerWidth cursorY (row # rows) =
     (let (placed, bottom) = place_rows maxLayerWidth (cursorY + row_height row + V_GAP) rows
      in (place_row (half (maxLayerWidth - row_width row)) cursorY (row_height row) row @ placed, bottom))"

fun place_errors :: "int \<Rightarrow> int \<Rightarrow> item list \<Rightarrow> item list \<times> int" where
  "place_errors faultX faultY [] = ([], faultY)"
| "place_errors faultX faultY ((i, m) # errs) =
     (let (placed, bottom) = place_errors faultX (faultY + tree_height m + V_GAP) errs
      in ((i, move_to faultX faultY m) # placed, bottom))"

definition max_width :: "item list \<Rightarrow> int" where
  "max_width ms = fold (\<lambda>(i, m) acc. max acc (tree_width m)) ms 0"

definition layers_of :: "nat dict \<Rightarrow> item list \<Rightarrow> item list list" where
  "layers_of ranks mainNodes =
     (let rank = (\<lambda>(i, m). or_else (map_of ranks (tree_id m)) 0)
      in map (\<lambda>r. filter (\<lambda>x. rank x = r) mainNodes) (sort (remdups (map rank mainNodes))))"

definition in_order :: "item list \<Rightarrow> measured_tree list" where
  "in_order placed = map snd (sort_key fst placed)"

definition arrangeCompoundSiblings ::
  "measured_tree list \<Rightarrow> string option \<Rightarrow> string option \<Rightarrow> vis_edge list \<Rightarrow> measured_tree list \<times> int \<times> int" where
  "arrangeCompoundSiblings children parentId initialChildId allEdges =
     (if children = [] then ([], 200, 80)
      else
        let items = enumerate 0 children;
            mainNodes = filter (\<lambda>(i, m). node_kind (ms_node (mt_info m)) \<noteq> KindError) items;
            errorNodes = filter (\<lambda>(i, m). node_kind (ms_node (mt_info m)) = KindError) items;
            ranks = sibling_ranks (map (\<lambda>(i, m). tree_id m) mainNodes) parentId initialChildId allEdges;
            rows = layers_of ranks mainNodes;
            maxLayerWidth = fold max (map row_width rows) 0;
            (placedMain, cursorY) = place_rows maxLayerWidth 0 rows;
            mainHeight = (if cursorY > 0 then cursorY - V_GAP else 0)
        in if errorNodes = [] then (in_order placedMain, max maxLayerWidth 180, max mainHeight 64)
           else
             let faultX = (if mainNodes \<noteq> [] then maxLayerWidth + H_GAP + 28 else 0);
                 faultY = (if mainNodes \<noteq> [] then max 0 (round_half (of_int mainHeight * (35 / 100))) else 0);
                 (placedErrors, bottom) = place_errors faultX faultY errorNodes
             in (in_order (placedMain @ placedErrors), max (faultX + max_width errorNodes) 180,
                 max (max mainHeight (bottom - V_GAP)) 64))"

section \<open>Measuring\<close>

text \<open>The regions of a parallel state, side by side and equally high, with a divider between them.\<close>

fun place_regions :: "int \<Rightarrow> int \<Rightarrow> int \<Rightarrow> measured_tree list \<Rightarrow> measured_tree list \<times> int list \<times> int" where
  "place_regions cursorX contentTop maxHeight [] = ([], [], cursorX)"
| "place_regions cursorX contentTop maxHeight (r # rs) =
     (let r' = set_height (max (tree_height r) maxHeight) (move_to cursorX contentTop r);
          x = cursorX + tree_width r
      in if rs = [] then ([r'], [], x)
         else let (rs', divs, right) = place_regions (x + PARALLEL_REGION_GAP) contentTop maxHeight rs
           in (r' # rs', round_half (of_int x + of_int PARALLEL_REGION_GAP / 2) # divs, right))"

definition max_height :: "measured_tree list \<Rightarrow> int" where
  "max_height rs = fold (\<lambda>r acc. max acc (tree_height r)) rs 0"

definition header_height :: "node_info \<Rightarrow> int" where
  "header_height i = (if vi_entry i \<noteq> [] \<or> vi_exit i \<noteq> [] then 58 else 42)"

definition measure_leaf :: "vis_node \<Rightarrow> measured_tree" where
  "measure_leaf node = (let (w, h) = estimateLeafSize (vn_info node) in
     MTree \<lparr>ms_node = node, ms_relX = 0, ms_relY = 0, ms_width = w, ms_height = h, ms_headerHeight = h,
       ms_dividers = [], ms_initialMarker = None\<rparr> [])"

definition measure_parallel :: "vis_node \<Rightarrow> measured_tree list \<Rightarrow> measured_tree" where
  "measure_parallel node measuredChildren =
     (let headerHeight = header_height (vn_info node); contentTop = headerHeight + 20;
          maxRegionHeight = max_height measuredChildren;
          (regions, divs, cursorX) = place_regions CONTAINER_PAD_X contentTop maxRegionHeight measuredChildren
      in MTree \<lparr>ms_node = node, ms_relX = 0, ms_relY = 0,
           ms_width = max (cursorX + CONTAINER_PAD_X) (int (length (vi_label (vn_info node))) * 9 + 110),
           ms_height = contentTop + maxRegionHeight + CONTAINER_PAD_BOTTOM, ms_headerHeight = headerHeight,
           ms_dividers = map (\<lambda>x. \<lparr>dv_relX1 = x, dv_relY1 = headerHeight + 8, dv_relX2 = x,
             dv_relY2 = contentTop + maxRegionHeight + 12\<rparr>) divs,
           ms_initialMarker = None\<rparr> regions)"

definition initial_marker_of :: "string option \<Rightarrow> measured_tree list \<Rightarrow> marker option" where
  "initial_marker_of initialChildId children =
     Option.bind (truthy initialChildId) (\<lambda>c. map_option (\<lambda>t.
       let targetX = ms_relX (mt_info t) + half (tree_width t); targetY = ms_relY (mt_info t) in
       \<lparr>mk_targetNodeId = tree_id t, mk_relDotX = targetX, mk_relDotY = targetY - 18,
        mk_relTargetX = targetX, mk_relTargetY = targetY\<rparr>) (find (\<lambda>t. tree_id t = c) children))"

definition measure_compound :: "vis_edge list \<Rightarrow> vis_node \<Rightarrow> measured_tree list \<Rightarrow> measured_tree" where
  "measure_compound allEdges node measuredChildren =
     (let i = vn_info node; headerHeight = header_height i;
          (arranged, totalWidth, totalHeight) =
            arrangeCompoundSiblings measuredChildren (Some (vi_id i)) (vi_initialChildId i) allEdges;
          markerOffset = (if truthy (vi_initialChildId i) \<noteq> None then INITIAL_MARKER_SPACE else 0);
          contentTop = headerHeight + 18 + markerOffset;
          minHeaderWidth = int (length (vi_label i)) * 9 + 120;
          innerWidth = max totalWidth (minHeaderWidth - CONTAINER_PAD_X * 2);
          shiftX = CONTAINER_PAD_X + half (innerWidth - totalWidth);
          children = map (move_by shiftX contentTop) arranged
      in MTree \<lparr>ms_node = node, ms_relX = 0, ms_relY = 0, ms_width = innerWidth + CONTAINER_PAD_X * 2,
           ms_height = contentTop + totalHeight + CONTAINER_PAD_BOTTOM, ms_headerHeight = headerHeight,
           ms_dividers = [], ms_initialMarker = initial_marker_of (vi_initialChildId i) children\<rparr> children)"

fun measureNodeRecursive :: "vis_edge list \<Rightarrow> vis_node \<Rightarrow> measured_tree" where
  "measureNodeRecursive allEdges (VNode i cs) =
     (if cs = [] then measure_leaf (VNode i cs)
      else if vi_kind i = KindParallel then measure_parallel (VNode i cs) (map (measureNodeRecursive allEdges) cs)
      else measure_compound allEdges (VNode i cs) (map (measureNodeRecursive allEdges) cs))"

section \<open>Absolute positions\<close>

fun flatten_boxes :: "int \<Rightarrow> int \<Rightarrow> nat \<Rightarrow> measured_tree \<Rightarrow> node_box list" where
  "flatten_boxes absX absY depth (MTree i cs) =
     \<lparr>bx_node = ms_node i, bx_x = absX + ms_relX i, bx_y = absY + ms_relY i, bx_width = ms_width i,
      bx_height = ms_height i, bx_headerHeight = ms_headerHeight i, bx_depth = depth\<rparr> #
     concat (map (flatten_boxes (absX + ms_relX i) (absY + ms_relY i) (Suc depth)) cs)"

fun flatten_dividers :: "int \<Rightarrow> int \<Rightarrow> measured_tree \<Rightarrow> parallel_divider list" where
  "flatten_dividers absX absY (MTree i cs) =
     map (\<lambda>d. \<lparr>pl_parallelNodeId = node_id (ms_node i), pl_x1 = absX + ms_relX i + dv_relX1 d,
       pl_y1 = absY + ms_relY i + dv_relY1 d, pl_x2 = absX + ms_relX i + dv_relX2 d,
       pl_y2 = absY + ms_relY i + dv_relY2 d\<rparr>) (ms_dividers i) @
     concat (map (flatten_dividers (absX + ms_relX i) (absY + ms_relY i)) cs)"

definition line_path :: "int \<Rightarrow> int \<Rightarrow> int \<Rightarrow> int \<Rightarrow> string" where
  "line_path x1 y1 x2 y2 =
     ''M '' @ show_int x1 @ '' '' @ show_int y1 @ '' L '' @ show_int x2 @ '' '' @ show_int y2"

definition marker_at :: "string \<Rightarrow> int \<Rightarrow> int \<Rightarrow> marker \<Rightarrow> initial_marker" where
  "marker_at owner x y m =
     (let dotX = x + mk_relDotX m; dotY = y + mk_relDotY m in
      \<lparr>im_ownerId = owner, im_targetNodeId = mk_targetNodeId m, im_dotX = dotX, im_dotY = dotY,
       im_pathD = line_path dotX (dotY + 4) (x + mk_relTargetX m) (y + mk_relTargetY m - 2)\<rparr>)"

fun flatten_markers :: "int \<Rightarrow> int \<Rightarrow> measured_tree \<Rightarrow> initial_marker list" where
  "flatten_markers absX absY (MTree i cs) =
     (case ms_initialMarker i of
        Some m \<Rightarrow> [marker_at (node_id (ms_node i)) (absX + ms_relX i) (absY + ms_relY i) m] | None \<Rightarrow> []) @
     concat (map (flatten_markers (absX + ms_relX i) (absY + ms_relY i)) cs)"

section \<open>Edges\<close>

text \<open>\<open>s < t\<close> on strings\<close>

fun str_less :: "string \<Rightarrow> string \<Rightarrow> bool" where
  "str_less s [] = False"
| "str_less [] (d # ds) = True"
| "str_less (c # cs) (d # ds) =
     ((of_char c :: nat) < of_char d \<or> (c = d \<and> str_less cs ds))"

definition pair_key_of :: "vis_edge \<Rightarrow> string" where
  "pair_key_of e = (if str_less (ve_source e) (ve_target e) then ve_source e @ ''__'' @ ve_target e
     else ve_target e @ ''__'' @ ve_source e)"

definition bezier_mid :: "rat \<Rightarrow> rat \<Rightarrow> rat \<Rightarrow> rat \<Rightarrow> int" where
  "bezier_mid a b c d = round_half (1 / 8 * a + 3 / 8 * b + 3 / 8 * c + 1 / 8 * d)"

definition cubic_path :: "rat \<times> rat \<Rightarrow> rat \<times> rat \<Rightarrow> rat \<times> rat \<Rightarrow> rat \<times> rat \<Rightarrow> string" where
  "cubic_path p c1 c2 q =
     (let pt = (\<lambda>(x, y). show_num x @ '' '' @ show_num y) in
      ''M '' @ pt p @ '' C '' @ pt c1 @ '', '' @ pt c2 @ '', '' @ pt q)"

definition curve :: "vis_edge \<Rightarrow> rat \<times> rat \<Rightarrow> rat \<times> rat \<Rightarrow> rat \<times> rat \<Rightarrow> rat \<times> rat \<Rightarrow> edge_layout" where
  "curve e p c1 c2 q = \<lparr>el_edge = e, el_pathD = cubic_path p c1 c2 q,
     el_labelX = bezier_mid (fst p) (fst c1) (fst c2) (fst q),
     el_labelY = bezier_mid (snd p) (snd c1) (snd c2) (snd q)\<rparr>"

definition self_loop :: "vis_edge \<Rightarrow> node_box \<Rightarrow> edge_layout" where
  "self_loop e src =
     (let sx = bx_x src + bx_width src; sy = bx_y src + round_half (of_int (bx_height src) * (35 / 100));
          ey = bx_y src + round_half (of_int (bx_height src) * (7 / 10)); loopW = 54
      in \<lparr>el_edge = e,
          el_pathD = cubic_path (of_int sx, of_int sy) (of_int (sx + loopW), of_int (sy - 24))
            (of_int (sx + loopW), of_int (ey + 24)) (of_int sx, of_int ey),
          el_labelX = sx + loopW + 8, el_labelY = half (sy + ey)\<rparr>)"

definition centre_x :: "node_box \<Rightarrow> rat" where
  "centre_x b = of_int (bx_x b) + of_int (bx_width b) / 2"

definition centre_y :: "node_box \<Rightarrow> rat" where
  "centre_y b = of_int (bx_y b) + of_int (bx_height b) / 2"

definition downward_edge :: "vis_edge \<Rightarrow> int \<Rightarrow> node_box \<Rightarrow> node_box \<Rightarrow> edge_layout" where
  "downward_edge e offset src dst =
     (let off = (of_int offset :: rat);
          sx = of_int (round_half (centre_x src + off * (45 / 100)));
          sy = of_int (bx_y src + bx_height src);
          tx = of_int (round_half (centre_x dst + off * (45 / 100)));
          ty = of_int (bx_y dst);
          ctrlY = of_int (max 32 (round_half ((ty - sy) / 2)))
      in curve e (sx, sy) (sx + off * (6 / 10), sy + ctrlY) (tx + off * (6 / 10), ty - ctrlY) (tx, ty))"

definition upward_edge :: "vis_edge \<Rightarrow> nat \<Rightarrow> int \<Rightarrow> node_box \<Rightarrow> node_box \<Rightarrow> edge_layout" where
  "upward_edge e idx offset src dst =
     (let useLeftArc = even idx;
          side = (\<lambda>b. of_int (if useLeftArc then bx_x b else bx_x b + bx_width b) :: rat);
          sx = side src; sy = of_int (round_half (centre_y src));
          tx = side dst; ty = of_int (round_half (centre_y dst));
          arcOut = of_int ((if useLeftArc then -1 else 1) * (68 + \<bar>offset\<bar>))
      in curve e (sx, sy) (sx + arcOut, sy) (tx + arcOut, ty) (tx, ty))"

definition sideways_edge :: "vis_edge \<Rightarrow> int \<Rightarrow> node_box \<Rightarrow> node_box \<Rightarrow> edge_layout" where
  "sideways_edge e offset src dst =
     (let goRight = (centre_x dst - centre_x src \<ge> 0); off = (of_int offset :: rat);
          sx = of_int (if goRight then bx_x src + bx_width src else bx_x src);
          sy = of_int (round_half (centre_y src + off * (35 / 100)));
          tx = of_int (if goRight then bx_x dst else bx_x dst + bx_width dst);
          ty = of_int (round_half (centre_y dst + off * (35 / 100)));
          spanX = of_int (max 44 (round_half (\<bar>tx - sx\<bar> * (45 / 100))));
          lean = (if goRight then spanX else - spanX)
      in curve e (sx, sy) (sx + lean, sy + off / 2) (tx - lean, ty + off / 2) (tx, ty))"

text \<open>The position of an edge among the edges between the same two nodes, and how many those are.\<close>

definition sibling_index :: "vis_edge list \<Rightarrow> nat \<Rightarrow> nat" where
  "sibling_index edges i =
     length (filter (\<lambda>e. pair_key_of e = pair_key_of (edges ! i)) (take i edges))"

definition sibling_count :: "vis_edge list \<Rightarrow> nat \<Rightarrow> nat" where
  "sibling_count edges i = length (filter (\<lambda>e. pair_key_of e = pair_key_of (edges ! i)) edges)"

definition route_edge :: "vis_edge list \<Rightarrow> node_box dict \<Rightarrow> nat \<Rightarrow> edge_layout option" where
  "route_edge edges boxMap i =
     (let e = edges ! i in
      case (map_of boxMap (ve_source e), map_of boxMap (ve_target e)) of
        (Some src, Some dst) \<Rightarrow>
          if ve_source e = ve_target e then Some (self_loop e src)
          else
            let idx = sibling_index edges i;
                offset = round_half ((of_nat idx - (of_nat (sibling_count edges i) - 1) / 2) * 48)
            in if bx_y dst \<ge> bx_y src + bx_height src - 10 then Some (downward_edge e offset src dst)
               else if bx_y src \<ge> bx_y dst + bx_height dst - 10 \<and>
                 \<bar>centre_x dst - centre_x src\<bar> < of_int (max (bx_width src) (bx_width dst))
               then Some (upward_edge e idx offset src dst)
               else Some (sideways_edge e offset src dst)
      | _ \<Rightarrow> None)"

definition routeEdges :: "vis_edge list \<Rightarrow> node_box dict \<Rightarrow> edge_layout list" where
  "routeEdges edges boxMap = List.map_filter (route_edge edges boxMap) [0..<length edges]"

section \<open>The layout\<close>

abbreviation PAD_CANVAS :: int where "PAD_CANVAS \<equiv> 48"

definition root_divider :: "int \<Rightarrow> int \<Rightarrow> parallel_divider" where
  "root_divider maxH x = \<lparr>pl_parallelNodeId = ''__root__'', pl_x1 = PAD_CANVAS + x, pl_y1 = PAD_CANVAS,
     pl_x2 = PAD_CANVAS + x, pl_y2 = PAD_CANVAS + maxH\<rparr>"

definition root_marker :: "measured_tree \<Rightarrow> initial_marker" where
  "root_marker t =
     (let dotX = PAD_CANVAS + ms_relX (mt_info t) + half (tree_width t);
          ty = PAD_CANVAS + ms_relY (mt_info t); dotY = ty - 18
      in \<lparr>im_ownerId = ''__root__'', im_targetNodeId = tree_id t, im_dotX = dotX, im_dotY = dotY,
          im_pathD = line_path dotX (dotY + 4) dotX (ty - 2)\<rparr>)"

text \<open>The measured roots in place, with the dividers, the marker and the size of the canvas they need.\<close>

definition place_roots ::
  "vis_graph \<Rightarrow> measured_tree list \<times> parallel_divider list \<times> initial_marker list \<times> int \<times> int" where
  "place_roots g =
     (let measuredRoots = map (measureNodeRecursive (vg_edges g)) (vg_rootNodes g) in
      case vg_rootType g of
        EdRootParallel \<Rightarrow>
          let maxH = max_height measuredRoots;
              (placed, divs, right) = place_regions 0 0 maxH measuredRoots
          in (placed, map (root_divider maxH) divs, [], right, maxH)
      | EdRootCompound \<Rightarrow>
          let (arranged, totalWidth, totalHeight) =
                arrangeCompoundSiblings measuredRoots None (vg_rootInitialId g) (vg_edges g);
              initial = truthy (vg_rootInitialId g);
              rootMarkerSpace = (if initial \<noteq> None then INITIAL_MARKER_SPACE else 0);
              placed = map (move_by 0 rootMarkerSpace) arranged;
              target = Option.bind initial (\<lambda>r. find (\<lambda>t. tree_id t = r) placed)
          in (placed, [], (case target of Some t \<Rightarrow> [root_marker t] | None \<Rightarrow> []),
              totalWidth, totalHeight + rootMarkerSpace))"

definition computeGraphLayout :: "vis_graph \<Rightarrow> layout_graph" where
  "computeGraphLayout g =
     (if vg_rootNodes g = []
      then \<lparr>lg_graph = g, lg_width = 480, lg_height = 240, lg_nodes = [], lg_parallelDividers = [],
        lg_initialMarkers = [], lg_edges = []\<rparr>
      else
        let (roots, rootDividers, rootMarkers, contentW, contentH) = place_roots g;
            boxes = sort_key bx_depth (concat (map (flatten_boxes PAD_CANVAS PAD_CANVAS 0) roots));
            boxMap = fold (\<lambda>b m. AList.update (node_id (bx_node b)) b m) boxes [];
            right = fold (\<lambda>b r. max r (bx_x b + bx_width b + PAD_CANVAS)) boxes (contentW + PAD_CANVAS * 2);
            bottom = fold (\<lambda>b r. max r (bx_y b + bx_height b + PAD_CANVAS)) boxes (contentH + PAD_CANVAS * 2);
            routed = routeEdges (vg_edges g) boxMap
        in \<lparr>lg_graph = g,
            lg_width = max 640 (fold (\<lambda>e r. max r (el_labelX e + 120)) routed right),
            lg_height = max 400 (fold (\<lambda>e r. max r (el_labelY e + 60)) routed bottom),
            lg_nodes = boxes,
            lg_parallelDividers = rootDividers @ concat (map (flatten_dividers PAD_CANVAS PAD_CANVAS) roots),
            lg_initialMarkers = rootMarkers @ concat (map (flatten_markers PAD_CANVAS PAD_CANVAS) roots),
            lg_edges = routed\<rparr>)"

end
