(* ===== verification/EditorLayoutInv.thy ===== *)
theory EditorLayoutInv
  imports EditorLayout "HOL-Library.Multiset"
begin

text \<open>
  The layout keeps boxes in order: in a measured tree children lie inside their parent and beside each
  other, so on the canvas two boxes are either apart or one contains the other, and every node has
  its box.
\<close>

section \<open>Rounding and pairs\<close>

lemma half_div: "half n = (n + 1) div 2"
proof -
  have "(of_int n / 2 + 1 / 2 :: rat) = of_int (n + 1) / of_int 2" by (simp add: field_simps)
  then show ?thesis by (simp only: half_def round_half_def floor_divide_of_int_eq)
qed

lemma half_bounds: "0 \<le> d \<Longrightarrow> 0 \<le> half d \<and> half d \<le> d"
  unfolding half_div by presburger

lemma round_half_nonneg: "0 \<le> x \<Longrightarrow> 0 \<le> round_half x"
  by (simp add: round_half_def)

lemma max_folds:
  "(acc :: int) \<le> fold (\<lambda>x a. max a (f x)) xs acc"
  "x \<in> set xs \<Longrightarrow> f x \<le> fold (\<lambda>x a. max a (f x)) xs acc"
  by (induction xs arbitrary: acc) (auto intro: order_trans [OF max.cobounded1] order_trans [OF max.cobounded2])

lemma max_fold_map: "fold max (map f xs) (acc :: int) = fold (\<lambda>x a. max a (f x)) xs acc"
  by (induction xs arbitrary: acc) (simp_all add: max.commute)

text \<open>A relation that holds between any two elements, in whatever order they come.\<close>

lemma sorted_wrt_middle:
  "(\<And>x y. R x y \<Longrightarrow> R y x) \<Longrightarrow>
     sorted_wrt R (us @ x # vs) \<longleftrightarrow> sorted_wrt R (us @ vs) \<and> (\<forall>y \<in> set (us @ vs). R x y)"
  by (induction us) auto

lemma sorted_wrt_mset:
  "(\<And>x y. R x y \<Longrightarrow> R y x) \<Longrightarrow> mset xs = mset ys \<Longrightarrow> sorted_wrt R xs \<longleftrightarrow> sorted_wrt R ys"
proof (induction xs arbitrary: ys)
  case (Cons x xs)
  then have "x \<in> set ys" by (metis list.set_intros(1) mset_eq_setD)
  then obtain us vs where ys: "ys = us @ x # vs" by (meson split_list)
  then have m: "mset xs = mset (us @ vs)" using Cons(3) by simp
  then have "set xs = set (us @ vs)" by (rule mset_eq_setD)
  then show ?case
    using Cons(1) [OF Cons(2) m] sorted_wrt_middle [of R us x vs, OF Cons(2)] ys by (simp add: conj_commute)
qed simp

section \<open>Boxes of siblings\<close>

definition apart :: "measured_tree \<Rightarrow> measured_tree \<Rightarrow> bool" where
  "apart s t \<longleftrightarrow>
     ms_relX (mt_info s) + tree_width s \<le> ms_relX (mt_info t) \<or> ms_relX (mt_info t) + tree_width t \<le> ms_relX (mt_info s) \<or>
     ms_relY (mt_info s) + tree_height s \<le> ms_relY (mt_info t) \<or> ms_relY (mt_info t) + tree_height t \<le> ms_relY (mt_info s)"

definition inside_box :: "int \<Rightarrow> int \<Rightarrow> int \<Rightarrow> int \<Rightarrow> measured_tree \<Rightarrow> bool" where
  "inside_box l t r b x \<longleftrightarrow>
     l \<le> ms_relX (mt_info x) \<and> ms_relX (mt_info x) + tree_width x \<le> r \<and>
     t \<le> ms_relY (mt_info x) \<and> ms_relY (mt_info x) + tree_height x \<le> b"

definition sized :: "measured_tree \<Rightarrow> bool" where
  "sized t \<longleftrightarrow> 0 < tree_width t \<and> 0 < tree_height t"

lemma apart_sym: "apart s t \<Longrightarrow> apart t s"
  by (auto simp: apart_def)

lemma apart_beside: "inside_box l t r b x \<Longrightarrow> inside_box l' t' r' b' y \<Longrightarrow> r \<le> l' \<or> b \<le> t' \<Longrightarrow> apart x y"
  by (auto simp: inside_box_def apart_def)

lemma inside_box_mono:
  "inside_box l t r b x \<Longrightarrow> l' \<le> l \<Longrightarrow> t' \<le> t \<Longrightarrow> r \<le> r' \<Longrightarrow> b \<le> b' \<Longrightarrow> inside_box l' t' r' b' x"
  by (auto simp: inside_box_def)

lemma move_simps [simp]:
  "ms_relX (mt_info (move_to x y t)) = x" "ms_relY (mt_info (move_to x y t)) = y"
  "tree_width (move_to x y t) = tree_width t" "tree_height (move_to x y t) = tree_height t"
  "mt_children (move_to x y t) = mt_children t" "ms_node (mt_info (move_to x y t)) = ms_node (mt_info t)"
  "ms_relX (mt_info (move_by dx dy t)) = ms_relX (mt_info t) + dx"
  "ms_relY (mt_info (move_by dx dy t)) = ms_relY (mt_info t) + dy"
  "tree_width (move_by dx dy t) = tree_width t" "tree_height (move_by dx dy t) = tree_height t"
  "mt_children (move_by dx dy t) = mt_children t" "ms_node (mt_info (move_by dx dy t)) = ms_node (mt_info t)"
  "ms_relX (mt_info (set_height h t)) = ms_relX (mt_info t)" "ms_relY (mt_info (set_height h t)) = ms_relY (mt_info t)"
  "tree_width (set_height h t) = tree_width t" "tree_height (set_height h t) = h"
  "mt_children (set_height h t) = mt_children t" "ms_node (mt_info (set_height h t)) = ms_node (mt_info t)"
  by (cases t; simp)+

lemma apart_move_by [simp]: "apart (move_by dx dy s) (move_by dx dy t) = apart s t"
  by (simp add: apart_def)

lemma inside_move_by: "inside_box l t r b x \<Longrightarrow> inside_box (l + dx) (t + dy) (r + dx) (b + dy) (move_by dx dy x)"
  by (simp add: inside_box_def)

text \<open>Trees that lie in a box and apart from each other.\<close>

definition fits :: "int \<Rightarrow> int \<Rightarrow> int \<Rightarrow> int \<Rightarrow> measured_tree list \<Rightarrow> bool" where
  "fits l t r b ts \<longleftrightarrow> (\<forall>x \<in> set ts. inside_box l t r b x) \<and> sorted_wrt apart ts"

lemma fits_append:
  "fits l t r b (xs @ ys) \<longleftrightarrow> fits l t r b xs \<and> fits l t r b ys \<and> (\<forall>x \<in> set xs. \<forall>y \<in> set ys. apart x y)"
  by (auto simp: fits_def sorted_wrt_append)

lemma fits_Cons:
  "fits l t r b (x # ys) \<longleftrightarrow> inside_box l t r b x \<and> fits l t r b ys \<and> (\<forall>y \<in> set ys. apart x y)"
  by (auto simp: fits_def)

lemma fits_mono: "fits l t r b ts \<Longrightarrow> l' \<le> l \<Longrightarrow> t' \<le> t \<Longrightarrow> r \<le> r' \<Longrightarrow> b \<le> b' \<Longrightarrow> fits l' t' r' b' ts"
  by (auto simp: fits_def intro: inside_box_mono)

lemma fits_beside:
  "fits l t r b xs \<Longrightarrow> fits l' t' r' b' ys \<Longrightarrow> r \<le> l' \<or> b \<le> t' \<Longrightarrow> x \<in> set xs \<Longrightarrow> y \<in> set ys \<Longrightarrow> apart x y"
  by (auto simp: fits_def intro: apart_beside)

lemma fits_mset: "mset xs = mset ys \<Longrightarrow> fits l t r b xs = fits l t r b ys"
proof -
  assume m: "mset xs = mset ys"
  have "sorted_wrt apart xs = sorted_wrt apart ys" by (rule sorted_wrt_mset [OF _ m]) (rule apart_sym)
  then show ?thesis unfolding fits_def mset_eq_setD [OF m] by blast
qed

lemma fits_move_by: "fits l t r b ts \<Longrightarrow> fits (l + dx) (t + dy) (r + dx) (b + dy) (map (move_by dx dy) ts)"
  by (simp add: fits_def inside_move_by sorted_wrt_map)

section \<open>Rows, error lane and regions\<close>

text \<open>Placing keeps which trees there are, with their sizes and children; only positions change.\<close>

definition same_tree :: "measured_tree \<Rightarrow> measured_tree \<Rightarrow> bool" where
  "same_tree s t \<longleftrightarrow> ms_node (mt_info s) = ms_node (mt_info t) \<and> mt_children s = mt_children t \<and>
     tree_width s = tree_width t \<and> tree_height s \<le> tree_height t"

lemma fold_pairs: "fold (\<lambda>(i, m) acc. max acc (f m)) row a = fold (\<lambda>x acc. max acc (f (snd x))) row (a :: int)"
  by (rule fold_cong) auto

lemma row_height_le: "x \<in> set row \<Longrightarrow> tree_height (snd x) \<le> row_height row"
  unfolding row_height_def fold_pairs by (rule max_folds)

lemma row_height_nonneg: "0 \<le> row_height row"
  unfolding row_height_def fold_pairs by (rule max_folds)

lemma row_width_Cons: "row_width ((i, m) # x # row) = tree_width m + H_GAP + row_width (x # row)"
  by (simp add: row_width_def algebra_simps)

lemma place_row_fits:
  "\<forall>x \<in> set row. sized (snd x) \<and> tree_height (snd x) \<le> h \<Longrightarrow> row \<noteq> [] \<Longrightarrow>
     fits x y (x + row_width row) (y + h) (map snd (place_row x y h row))"
proof (induction x y h row rule: place_row.induct)
  case (2 x y h i m row)
  have s: "0 < tree_width m" "0 < tree_height m" "0 \<le> h - tree_height m" using 2(2) by (auto simp: sized_def)
  have in_m: "inside_box x y (x + tree_width m) (y + h) (move_to x (y + half (h - tree_height m)) m)"
    using half_bounds [OF s(3)] by (simp add: inside_box_def)
  show ?case
  proof (cases row)
    case Nil
    then show ?thesis using in_m by (simp add: fits_def row_width_def)
  next
    case (Cons z zs)
    let ?x' = "x + tree_width m + H_GAP"
    have rest: "fits ?x' y (?x' + row_width row) (y + h) (map snd (place_row ?x' y h row))"
      using 2(1) 2(2) Cons by simp
    have w: "x + row_width ((i, m) # row) = ?x' + row_width row"
      by (cases z) (simp add: Cons row_width_Cons)
    have nonneg: "0 \<le> row_width row"
    proof -
      have "0 \<le> sum_list (map (\<lambda>(i, m). tree_width m) row)"
        by (rule sum_list_nonneg) (use 2(2) in \<open>auto simp: sized_def less_imp_le\<close>)
      then show ?thesis by (simp add: row_width_def Cons gaps)
    qed
    have "apart (move_to x (y + half (h - tree_height m)) m) t" if "t \<in> set (map snd (place_row ?x' y h row))" for t
      using rest in_m that by (auto simp: fits_def gaps intro: apart_beside)
    then show ?thesis
      using inside_box_mono [OF in_m, of x y "?x' + row_width row" "y + h"] fits_mono [OF rest, of x y] nonneg s
      by (simp add: fits_Cons w gaps)
  qed
qed simp

lemma place_row_trees: "list_all2 (\<lambda>x y. fst x = fst y \<and> same_tree (snd x) (snd y)) row (place_row x y h row)"
  by (induction x y h row rule: place_row.induct) (simp_all add: same_tree_def)

lemma place_rows_fits:
  assumes "\<forall>row \<in> set rows. row \<noteq> [] \<and> row_width row \<le> w \<and> (\<forall>x \<in> set row. sized (snd x))"
    and "place_rows w y rows = (placed, bottom)"
  shows "fits 0 y w (if rows = [] then y else bottom - V_GAP) (map snd placed) \<and>
    y + int (length rows) * V_GAP \<le> bottom"
  using assms
proof (induction w y rows arbitrary: placed bottom rule: place_rows.induct)
  case (1 w y)
  then show ?case by (simp add: fits_def)
next
  case (2 w y row rows)
  let ?y' = "y + row_height row + V_GAP"
  obtain rest b where r: "place_rows w ?y' rows = (rest, b)" by fastforce
  then have p: "placed = place_row (half (w - row_width row)) y (row_height row) row @ rest" "bottom = b"
    using 2(3) by simp_all
  have ih: "fits 0 ?y' w (if rows = [] then ?y' else b - V_GAP) (map snd rest)" "?y' + int (length rows) * V_GAP \<le> b"
    using 2(1) [OF _ r] 2(2) by auto
  have row: "row \<noteq> []" "0 \<le> w - row_width row" "\<forall>x \<in> set row. sized (snd x) \<and> tree_height (snd x) \<le> row_height row"
    using 2(2) row_height_le by auto
  have b: "?y' \<le> b" using ih(2) by (simp add: gaps)
  have b': "b - V_GAP = ?y' - V_GAP" if "rows = []" using r that by simp
  note here = place_row_fits [OF row(3, 1), of "half (w - row_width row)" y]
  have "fits 0 y w (b - V_GAP) (map snd (place_row (half (w - row_width row)) y (row_height row) row))"
    using fits_mono [OF here, of 0 y w "b - V_GAP"] half_bounds [OF row(2)] b by simp
  moreover have "fits 0 y w (b - V_GAP) (map snd rest)"
  proof (cases "rows = []")
    case True
    then show ?thesis using r by (simp add: fits_def)
  next
    case False
    then show ?thesis using fits_mono [OF ih(1), of 0 y w "b - V_GAP"] row_height_nonneg [of row]
      by (simp add: gaps)
  qed
  moreover have "apart s t" if "s \<in> set (map snd (place_row (half (w - row_width row)) y (row_height row) row))"
      "t \<in> set (map snd rest)" for s t
    by (rule fits_beside [OF here ih(1) _ that]) (simp add: gaps)
  ultimately show ?case using ih(2) row_height_nonneg [of row] by (auto simp: p fits_append gaps algebra_simps)
qed

lemma place_rows_trees:
  "place_rows w y rows = (placed, bottom) \<Longrightarrow>
     list_all2 (\<lambda>x y. fst x = fst y \<and> same_tree (snd x) (snd y)) (concat rows) placed"
proof (induction w y rows arbitrary: placed bottom rule: place_rows.induct)
  case (2 w y row rows)
  then show ?case
    by (auto split: prod.splits intro!: list_all2_appendI place_row_trees)
qed simp

lemma place_errors_fits:
  assumes "\<forall>x \<in> set errs. sized (snd x) \<and> tree_width (snd x) \<le> w"
    and "place_errors x y errs = (placed, bottom)"
  shows "fits x y (x + w) (bottom - V_GAP) (map snd placed) \<and> y \<le> bottom"
  using assms
proof (induction x y errs arbitrary: placed bottom rule: place_errors.induct)
  case (2 x y i m errs)
  let ?y' = "y + tree_height m + V_GAP"
  obtain rest b where r: "place_errors x ?y' errs = (rest, b)" by fastforce
  then have p: "placed = (i, move_to x y m) # rest" "bottom = b" using 2(3) by simp_all
  have ih: "fits x ?y' (x + w) (b - V_GAP) (map snd rest)" "?y' \<le> b" using 2(1) [OF _ r] 2(2) by auto
  have s: "0 < tree_height m" "tree_width m \<le> w" using 2(2) by (auto simp: sized_def)
  have m: "inside_box x y (x + w) (y + tree_height m) (move_to x y m)" using s by (simp add: inside_box_def)
  have "apart (move_to x y m) t" if "t \<in> set (map snd rest)" for t
    using ih(1) m that by (auto simp: fits_def gaps intro: apart_beside)
  then show ?case
    using inside_box_mono [OF m, of x y "x + w" "b - V_GAP"] fits_mono [OF ih(1), of x y "x + w" "b - V_GAP"] ih(2) s
    by (simp add: p fits_Cons gaps)
qed (simp add: fits_def)

lemma place_errors_trees:
  "place_errors x y errs = (placed, bottom) \<Longrightarrow>
     list_all2 (\<lambda>x y. fst x = fst y \<and> same_tree (snd x) (snd y)) errs placed"
  by (induction x y errs arbitrary: placed bottom rule: place_errors.induct)
    (auto simp: same_tree_def split: prod.splits)

lemma place_regions_fits:
  assumes "\<forall>r \<in> set rs. sized r \<and> tree_height r \<le> h" "place_regions x y h rs = (placed, divs, right)"
  shows "fits x y right (y + h) placed \<and> x \<le> right \<and> list_all2 same_tree rs placed"
  using assms
proof (induction x y h rs arbitrary: placed divs right rule: place_regions.induct)
  case (2 x y h r rs)
  have s: "0 < tree_width r" "tree_height r \<le> h" using 2(2) by (auto simp: sized_def)
  let ?r = "set_height (max (tree_height r) h) (move_to x y r)"
  have here: "inside_box x y (x + tree_width r) (y + h) ?r" "same_tree r ?r"
    using s by (simp_all add: inside_box_def same_tree_def)
  show ?case
  proof (cases "rs = []")
    case True
    then show ?thesis using 2(3) here s by (auto simp: fits_def)
  next
    case False
    let ?x = "x + tree_width r + PARALLEL_REGION_GAP"
    obtain rest ds b where r: "place_regions ?x y h rs = (rest, ds, b)" by (metis prod_cases3)
    then have p: "placed = ?r # rest" "right = b" using 2(3) False by (simp_all add: Let_def)
    have ih: "fits ?x y b (y + h) rest" "?x \<le> b" "list_all2 same_tree rs rest"
      using 2(1) [OF refl refl False _ r] 2(2) by simp_all
    have "apart ?r t" if "t \<in> set rest" for t
      using ih(1) here(1) that by (auto simp: fits_def gaps intro: apart_beside)
    then show ?thesis
      using inside_box_mono [OF here(1), of x y b "y + h"] fits_mono [OF ih(1), of x y b "y + h"] ih(2, 3) here(2) s
      by (simp add: p fits_Cons gaps)
  qed
qed (simp add: fits_def)

section \<open>Back in order\<close>

lemma insort_related:
  "(\<And>x y. R x y \<Longrightarrow> f x = f y) \<Longrightarrow> R x y \<Longrightarrow> list_all2 R xs ys \<Longrightarrow>
     list_all2 R (insort_key f x xs) (insort_key f y ys)"
  by (induction xs arbitrary: ys) (auto simp: list_all2_Cons1)

lemma sort_related:
  "(\<And>x y. R x y \<Longrightarrow> f x = f y) \<Longrightarrow> list_all2 R xs ys \<Longrightarrow> list_all2 R (sort_key f xs) (sort_key f ys)"
proof (induction xs arbitrary: ys)
  case (Cons x xs)
  then obtain y zs where ys: "ys = y # zs" "R x y" "list_all2 R xs zs" by (auto simp: list_all2_Cons1)
  have "list_all2 R (sort_key f xs) (sort_key f zs)" by (rule Cons(1) [OF Cons(2) ys(3)])
  then have "list_all2 R (insort_key f x (sort_key f xs)) (insort_key f y (sort_key f zs))"
    using insort_related [of R f, OF _ ys(2)] Cons(2) by blast
  then show ?case by (simp add: ys(1))
qed simp

lemma filter_key_single: "distinct (map f xs) \<Longrightarrow> k \<in> set xs \<Longrightarrow> filter (\<lambda>x. f k = f x) xs = [k]"
  by (induction xs) (auto simp: filter_empty_conv image_iff)

lemma sort_key_permuted:
  assumes "sorted (map f xs)" "distinct (map f xs)" "mset ys = mset xs"
  shows "sort_key f ys = xs"
proof (rule properties_for_sort_key [OF assms(3) [symmetric] _ assms(1)])
  fix k assume k: "k \<in> set xs"
  have "distinct (map f ys)"
    using assms(2, 3) by (metis mset_map distinct_count_atmost_1 mset_eq_setD)
  then show "filter (\<lambda>x. f k = f x) xs = filter (\<lambda>x. f k = f x) ys"
    using filter_key_single [OF assms(2) k] filter_key_single [of f ys k] k mset_eq_setD [OF assms(3)] by simp
qed

lemma in_order_enumerate: "mset ys = mset (enumerate 0 xs) \<Longrightarrow> in_order ys = xs"
  unfolding in_order_def by (subst sort_key_permuted [of fst "enumerate 0 xs"]) simp_all

lemma mset_groups:
  "distinct rs \<Longrightarrow> mset (concat (map (\<lambda>r. filter (\<lambda>x. f x = r) xs) rs)) = mset (filter (\<lambda>x. f x \<in> set rs) xs)"
proof (induction rs)
  case (Cons r rs)
  have "mset (filter (\<lambda>x. f x = r) xs) + mset (filter (\<lambda>x. f x \<in> set rs) xs) = mset (filter (\<lambda>x. f x \<in> set (r # rs)) xs)"
    using Cons(2) by (induction xs) auto
  then show ?case using Cons by simp
qed simp

lemma mset_layers: "mset (concat (layers_of ranks xs)) = mset xs"
  unfolding layers_of_def Let_def by (subst mset_groups) (auto intro!: arg_cong [where f = mset] filter_True)

lemma layers_nonempty: "row \<in> set (layers_of ranks xs) \<Longrightarrow> row \<noteq> []"
  by (auto simp: layers_of_def Let_def filter_empty_conv)

lemma layers_sub: "row \<in> set (layers_of ranks xs) \<Longrightarrow> set row \<subseteq> set xs"
  by (auto simp: layers_of_def Let_def)

lemma mset_split: "mset (filter P xs @ filter (\<lambda>x. \<not> P x) xs) = mset xs"
  by simp

section \<open>Arranging\<close>

abbreviation moved :: "item \<Rightarrow> item \<Rightarrow> bool" where
  "moved x y \<equiv> fst x = fst y \<and> same_tree (snd x) (snd y)"

lemma in_order_related:
  assumes "list_all2 moved xs ys"
  shows "list_all2 same_tree (in_order xs) (in_order ys)" "mset (in_order ys) = mset (map snd ys)"
proof -
  have "list_all2 moved (sort_key fst xs) (sort_key fst ys)" by (rule sort_related [OF _ assms]) simp
  then show "list_all2 same_tree (in_order xs) (in_order ys)"
    by (simp add: in_order_def list_all2_map1 list_all2_map2 list_all2_mono)
  show "mset (in_order ys) = mset (map snd ys)" by (simp add: in_order_def)
qed

lemma max_width_le: "x \<in> set ms \<Longrightarrow> tree_width (snd x) \<le> max_width ms"
  unfolding max_width_def fold_pairs by (rule max_folds)

lemma arrange_fits:
  assumes "children \<noteq> []" "\<forall>c \<in> set children. sized c"
    and "arrangeCompoundSiblings children parentId initialChildId allEdges = (placed, w, h)"
  shows "fits 0 0 w h placed \<and> list_all2 same_tree children placed \<and> 180 \<le> w \<and> 64 \<le> h"
proof -
  let ?items = "enumerate 0 children"
  define mains where "mains = filter (\<lambda>(i, m). node_kind (ms_node (mt_info m)) \<noteq> KindError) ?items"
  define errs where "errs = filter (\<lambda>(i, m). node_kind (ms_node (mt_info m)) = KindError) ?items"
  define rows where "rows = layers_of (sibling_ranks (map (\<lambda>(i, m). tree_id m) mains) parentId initialChildId allEdges) mains"
  define mw where "mw = fold max (map row_width rows) 0"
  obtain pm cy where pm: "place_rows mw 0 rows = (pm, cy)" by fastforce
  define mh where "mh = (if cy > 0 then cy - V_GAP else 0)"
  have items: "\<forall>x \<in> set ?items. sized (snd x)"
    using assms(2) by (auto simp: in_set_enumerate_eq)
  have all: "mset (mains @ errs) = mset ?items"
    using mset_split [of "\<lambda>(i, m). node_kind (ms_node (mt_info m)) \<noteq> KindError" ?items]
    by (simp add: mains_def errs_def case_prod_beta)
  have rows_ok: "\<forall>row \<in> set rows. row \<noteq> [] \<and> row_width row \<le> mw \<and> (\<forall>x \<in> set row. sized (snd x))"
  proof
    fix row assume row: "row \<in> set rows"
    have "row_width row \<le> mw"
      unfolding mw_def max_fold_map using row by (rule max_folds)
    moreover have "set row \<subseteq> set ?items" using layers_sub row by (fastforce simp: rows_def mains_def)
    ultimately show "row \<noteq> [] \<and> row_width row \<le> mw \<and> (\<forall>x \<in> set row. sized (snd x))"
      using layers_nonempty row items by (auto simp: rows_def)
  qed
  have fm: "fits 0 0 mw (if rows = [] then 0 else cy - V_GAP) (map snd pm)" "int (length rows) * V_GAP \<le> cy"
    using place_rows_fits [OF rows_ok pm] by auto
  have mw: "0 \<le> mw"
    unfolding mw_def max_fold_map by (rule max_folds)
  have "0 < cy" if "rows \<noteq> []" using fm(2) that by (cases rows) (simp_all add: gaps)
  moreover have "cy = 0" if "rows = []" using pm that by simp
  ultimately have fits_main: "fits 0 0 mw mh (map snd pm)" using fm(1) by (cases "rows = []") (simp_all add: mh_def)
  have rel: "list_all2 moved (concat rows) pm" by (rule place_rows_trees [OF pm])
  have perm: "mset (concat rows) = mset mains" by (simp add: rows_def mset_layers)
  note res = assms(3) [unfolded arrangeCompoundSiblings_def if_not_P [OF assms(1)] Let_def,
      folded mains_def errs_def, folded rows_def, folded mw_def, unfolded pm prod.case, folded mh_def]
  show ?thesis
  proof (cases "errs = []")
    case True
    then have r: "placed = in_order pm" "w = max mw 180" "h = max mh 64" using res by simp_all
    have "in_order (concat rows) = children"
      by (rule in_order_enumerate) (use perm all True in simp)
    then have "list_all2 same_tree children placed" using in_order_related(1) [OF rel] r by simp
    moreover have "fits 0 0 w h placed"
      using fits_mset [OF in_order_related(2) [OF rel]] fits_mono [OF fits_main, of 0 0 w h] r by simp
    ultimately show ?thesis by (simp add: r)
  next
    case False
    let ?fx = "if mains \<noteq> [] then mw + H_GAP + 28 else 0"
    let ?fy = "if mains \<noteq> [] then max 0 (round_half (of_int mh * (35 / 100))) else 0"
    obtain pe b where pe: "place_errors ?fx ?fy errs = (pe, b)" by fastforce
    have r: "placed = in_order (pm @ pe)" "w = max (?fx + max_width errs) 180" "h = max (max mh (b - V_GAP)) 64"
      using res False by (simp_all add: pe)
    have e_ok: "\<forall>x \<in> set errs. sized (snd x) \<and> tree_width (snd x) \<le> max_width errs"
      using items max_width_le by (auto simp: errs_def)
    have fe: "fits ?fx ?fy (?fx + max_width errs) (b - V_GAP) (map snd pe)"
      using place_errors_fits [OF e_ok pe] by blast
    have rel2: "list_all2 moved (concat rows @ errs) (pm @ pe)"
      by (rule list_all2_appendI [OF rel place_errors_trees [OF pe]])
    have "in_order (concat rows @ errs) = children"
      by (rule in_order_enumerate) (use perm all in simp)
    then have "list_all2 same_tree children placed" using in_order_related(1) [OF rel2] r by simp
    moreover have "fits 0 0 w h (map snd (pm @ pe))"
    proof -
      have p: "pm = []" if "mains = []" using that pm by (simp add: rows_def layers_of_def)
      have "0 \<le> max_width errs" unfolding max_width_def fold_pairs by (rule max_folds)
      then have "fits 0 0 w h (map snd pm)"
        using fits_mono [OF fits_main, of 0 0 w h] mw p by (cases "mains = []") (simp_all add: r gaps fits_def)
      moreover have "fits 0 0 w h (map snd pe)"
        using fits_mono [OF fe, of 0 0 w h] mw by (simp add: r gaps)
      moreover have "apart s t" if "s \<in> set (map snd pm)" "t \<in> set (map snd pe)" for s t
        by (rule fits_beside [OF fits_main fe _ that]) (use p that in \<open>auto simp: gaps\<close>)
      ultimately show ?thesis by (simp add: fits_append)
    qed
    then have "fits 0 0 w h placed" using fits_mset [OF in_order_related(2) [OF rel2]] r by simp
    ultimately show ?thesis by (simp add: r)
  qed
qed

section \<open>Measured trees\<close>

fun laid_out :: "measured_tree \<Rightarrow> bool" where
  "laid_out (MTree i cs) \<longleftrightarrow> 0 < ms_width i \<and> 0 < ms_height i \<and> fits 0 0 (ms_width i) (ms_height i) cs \<and>
     (\<forall>c \<in> set cs. laid_out c)"

fun tree_nodes :: "measured_tree \<Rightarrow> vis_node list" where
  "tree_nodes (MTree i cs) = ms_node i # concat (map tree_nodes cs)"

fun all_nodes :: "vis_node \<Rightarrow> vis_node list" where
  "all_nodes (VNode i cs) = VNode i cs # concat (map all_nodes cs)"

lemma laid_out_sized: "laid_out t \<Longrightarrow> sized t"
  by (cases t) (simp add: sized_def)

lemma laid_out_same: "laid_out s \<Longrightarrow> same_tree s t \<Longrightarrow> laid_out t"
  by (cases s; cases t) (auto simp: same_tree_def intro: fits_mono)

lemma same_tree_nodes: "same_tree s t \<Longrightarrow> tree_nodes s = tree_nodes t"
  by (cases s; cases t) (simp add: same_tree_def)

lemma same_trees:
  assumes "list_all2 same_tree ss ts"
  shows "\<forall>s \<in> set ss. laid_out s \<Longrightarrow> \<forall>t \<in> set ts. laid_out t" "map tree_nodes ss = map tree_nodes ts"
  using assms by (induction rule: list_all2_induct) (auto intro: laid_out_same dest: same_tree_nodes)

lemma laid_out_move_by [simp]: "laid_out (move_by dx dy t) = laid_out t" "tree_nodes (move_by dx dy t) = tree_nodes t"
  by (cases t; simp)+

lemma leaf_ok: "laid_out (measure_leaf n)"
proof -
  have "180 \<le> fst (estimateLeafSize i)" "62 \<le> snd (estimateLeafSize i)" for i
    unfolding estimateLeafSize_def Let_def fst_conv snd_conv by (rule max.cobounded1) auto
  from this [of "vn_info n"] show ?thesis
    by (simp add: measure_leaf_def fits_def case_prod_beta)
qed

lemma max_height_le: "r \<in> set rs \<Longrightarrow> tree_height r \<le> max_height rs" "0 \<le> max_height rs"
  unfolding max_height_def by (rule max_folds(2), assumption) (rule max_folds(1))

lemma header_pos: "0 < header_height i"
  by (simp add: header_height_def)

lemma parallel_ok:
  assumes "\<forall>t \<in> set ts. laid_out t"
  shows "laid_out (measure_parallel n ts)" "tree_nodes (measure_parallel n ts) = n # concat (map tree_nodes ts)"
proof -
  let ?top = "header_height (vn_info n) + 20" and ?h = "max_height ts"
  obtain rs divs r where p: "place_regions CONTAINER_PAD_X ?top ?h ts = (rs, divs, r)" by (metis prod_cases3)
  have "\<forall>t \<in> set ts. sized t \<and> tree_height t \<le> ?h" using assms laid_out_sized max_height_le(1) by blast
  from place_regions_fits [OF this p] have f: "fits CONTAINER_PAD_X ?top r (?top + ?h) rs" "CONTAINER_PAD_X \<le> r"
    "list_all2 same_tree ts rs" by blast+
  note st = same_trees [OF f(3)]
  have "fits 0 0 (max (r + CONTAINER_PAD_X) w) (?top + ?h + CONTAINER_PAD_BOTTOM) rs" for w
    by (rule fits_mono [OF f(1)]) (use header_pos [of "vn_info n"] in \<open>simp_all add: gaps\<close>)
  then show "laid_out (measure_parallel n ts)"
    unfolding measure_parallel_def Let_def p prod.case laid_out.simps measure_info.simps
    using st(1) [OF assms] f(2) header_pos [of "vn_info n"] max_height_le(2) [of ts]
    by (simp add: gaps less_max_iff_disj)
  show "tree_nodes (measure_parallel n ts) = n # concat (map tree_nodes ts)"
    by (simp add: measure_parallel_def Let_def p st(2))
qed

lemma compound_ok:
  assumes "ts \<noteq> []" "\<forall>t \<in> set ts. laid_out t"
  shows "laid_out (measure_compound es n ts)" "tree_nodes (measure_compound es n ts) = n # concat (map tree_nodes ts)"
proof -
  let ?i = "vn_info n"
  obtain rs w h where a: "arrangeCompoundSiblings ts (Some (vi_id ?i)) (vi_initialChildId ?i) es = (rs, w, h)"
    by (metis prod_cases3)
  have "\<forall>t \<in> set ts. sized t" using assms(2) laid_out_sized by blast
  from arrange_fits [OF assms(1) this a] have f: "fits 0 0 w h rs" "list_all2 same_tree ts rs" "180 \<le> w" "64 \<le> h"
    by blast+
  note st = same_trees [OF f(2)]
  define inner where "inner = max w (int (length (vi_label ?i)) * 9 + 120 - CONTAINER_PAD_X * 2)"
  define top' where "top' = header_height ?i + 18 + (if truthy (vi_initialChildId ?i) \<noteq> None then INITIAL_MARKER_SPACE else 0)"
  define shift where "shift = CONTAINER_PAD_X + half (inner - w)"
  have "0 \<le> inner - w" by (simp add: inner_def)
  note hb = half_bounds [OF this]
  have t: "0 < top'" using header_pos [of ?i] by (simp add: top'_def gaps)
  have "fits 0 0 (inner + CONTAINER_PAD_X * 2) (top' + h + CONTAINER_PAD_BOTTOM) (map (move_by shift top') rs)"
    by (rule fits_mono [OF fits_move_by [OF f(1)]]) (use hb t in \<open>simp_all add: shift_def gaps\<close>)
  moreover have "0 < inner" using f(3) by (simp add: inner_def less_max_iff_disj)
  ultimately show "laid_out (measure_compound es n ts)"
    unfolding measure_compound_def Let_def a prod.case inner_def [symmetric] top'_def [symmetric] shift_def [symmetric]
    using st(1) [OF assms(2)] f(4) t by (simp add: gaps)
  show "tree_nodes (measure_compound es n ts) = n # concat (map tree_nodes ts)"
    by (simp add: measure_compound_def Let_def a st(2) comp_def)
qed

lemma measured_ok: "laid_out (measureNodeRecursive es n) \<and> tree_nodes (measureNodeRecursive es n) = all_nodes n"
proof (induction es n rule: measureNodeRecursive.induct)
  case (1 es i cs)
  let ?ts = "map (measureNodeRecursive es) cs"
  have ih: "\<forall>t \<in> set ?ts. laid_out t" "map tree_nodes ?ts = map all_nodes cs" if "cs \<noteq> []"
    using 1 that by auto
  show ?case
  proof (cases "cs = []")
    case True
    then show ?thesis using leaf_ok [of "VNode i []"] by (simp add: measure_leaf_def case_prod_beta)
  next
    case False
    note ih = ih [OF False]
    have ts: "?ts \<noteq> []" using False by simp
    have c: "concat (map tree_nodes ?ts) = concat (map all_nodes cs)" unfolding ih(2) ..
    show ?thesis
      unfolding measureNodeRecursive.simps if_not_P [OF False] all_nodes.simps c [symmetric]
      using parallel_ok [OF ih(1), of "VNode i cs"] compound_ok [OF ts ih(1), of es "VNode i cs"]
      by (cases "vi_kind i = KindParallel") (simp_all only: if_True if_False simp_thms)
  qed
qed

section \<open>On the canvas\<close>

definition box_apart :: "node_box \<Rightarrow> node_box \<Rightarrow> bool" where
  "box_apart a b \<longleftrightarrow> bx_x a + bx_width a \<le> bx_x b \<or> bx_x b + bx_width b \<le> bx_x a \<or>
     bx_y a + bx_height a \<le> bx_y b \<or> bx_y b + bx_height b \<le> bx_y a"

definition box_within :: "node_box \<Rightarrow> node_box \<Rightarrow> bool" where
  "box_within a b \<longleftrightarrow> bx_x b \<le> bx_x a \<and> bx_x a + bx_width a \<le> bx_x b + bx_width b \<and>
     bx_y b \<le> bx_y a \<and> bx_y a + bx_height a \<le> bx_y b + bx_height b"

definition in_order_boxes :: "node_box \<Rightarrow> node_box \<Rightarrow> bool" where
  "in_order_boxes a b \<longleftrightarrow> box_apart a b \<or> box_within a b \<or> box_within b a"

definition tree_box :: "int \<Rightarrow> int \<Rightarrow> nat \<Rightarrow> measured_tree \<Rightarrow> node_box" where
  "tree_box x y depth t = \<lparr>bx_node = ms_node (mt_info t), bx_x = x + ms_relX (mt_info t), bx_y = y + ms_relY (mt_info t),
     bx_width = tree_width t, bx_height = tree_height t, bx_headerHeight = ms_headerHeight (mt_info t), bx_depth = depth\<rparr>"

lemma within_trans: "box_within a b \<Longrightarrow> box_within b c \<Longrightarrow> box_within a c"
  by (auto simp: box_within_def)

lemma apart_within: "box_apart b d \<Longrightarrow> box_within a b \<Longrightarrow> box_within c d \<Longrightarrow> box_apart a c"
  by (auto simp: box_apart_def box_within_def)

lemma tree_boxes_apart: "apart s t \<Longrightarrow> box_apart (tree_box x y k s) (tree_box x y k t)"
  by (auto simp: apart_def box_apart_def tree_box_def)

lemma order_sym: "in_order_boxes a b \<Longrightarrow> in_order_boxes b a"
  by (auto simp: in_order_boxes_def box_apart_def)

lemma concat_ordered:
  assumes "\<forall>t \<in> set ts. sorted_wrt in_order_boxes (f t) \<and> (\<forall>b \<in> set (f t). box_within b (g t))"
    and "sorted_wrt (\<lambda>s t. box_apart (g s) (g t)) ts"
  shows "sorted_wrt in_order_boxes (concat (map f ts))"
  using assms
proof (induction ts)
  case (Cons t ts)
  have "in_order_boxes a b" if "a \<in> set (f t)" "s \<in> set ts" "b \<in> set (f s)" for a b s
    using Cons(2, 3) that apart_within [of "g t" "g s" a b] by (auto simp: in_order_boxes_def)
  then show ?case using Cons by (auto simp: sorted_wrt_append)
qed simp

lemma flatten_ordered:
  "laid_out t \<Longrightarrow> sorted_wrt in_order_boxes (flatten_boxes x y k t) \<and>
     (\<forall>b \<in> set (flatten_boxes x y k t). box_within b (tree_box x y k t))"
proof (induction x y k t rule: flatten_boxes.induct)
  case (1 x y k i cs)
  let ?x = "x + ms_relX i" and ?y = "y + ms_relY i"
  let ?box = "tree_box x y k (MTree i cs)"
  have fit: "fits 0 0 (ms_width i) (ms_height i) cs" and ok: "\<forall>c \<in> set cs. laid_out c" using 1(2) by auto
  have ih: "\<forall>c \<in> set cs. sorted_wrt in_order_boxes (flatten_boxes ?x ?y (Suc k) c) \<and>
      (\<forall>b \<in> set (flatten_boxes ?x ?y (Suc k) c). box_within b (tree_box ?x ?y (Suc k) c))"
    using 1(1) ok by blast
  have "sorted_wrt (\<lambda>s t. box_apart (tree_box ?x ?y (Suc k) s) (tree_box ?x ?y (Suc k) t)) cs"
    using fit by (auto simp: fits_def intro: sorted_wrt_mono_rel [of cs apart] tree_boxes_apart)
  from concat_ordered [OF ih this]
  have kids: "sorted_wrt in_order_boxes (concat (map (flatten_boxes ?x ?y (Suc k)) cs))" .
  have "box_within (tree_box ?x ?y (Suc k) c) ?box" if "c \<in> set cs" for c
    using fit that by (auto simp: fits_def inside_box_def box_within_def tree_box_def)
  then have within: "\<forall>b \<in> set (concat (map (flatten_boxes ?x ?y (Suc k)) cs)). box_within b ?box"
    using ih within_trans by fastforce
  have "flatten_boxes x y k (MTree i cs) = ?box # concat (map (flatten_boxes ?x ?y (Suc k)) cs)"
    by (simp add: tree_box_def)
  moreover have "box_within ?box ?box" by (simp add: box_within_def)
  moreover have "\<forall>b \<in> set (concat (map (flatten_boxes ?x ?y (Suc k)) cs)). in_order_boxes ?box b"
    using within unfolding in_order_boxes_def by blast
  ultimately show ?case using kids within by (simp only: sorted_wrt.simps list.set ball_simps insert_iff simp_thms)
qed

lemma flatten_nodes: "map bx_node (flatten_boxes x y k t) = tree_nodes t"
  by (induction x y k t rule: flatten_boxes.induct) (simp add: map_concat comp_def cong: map_cong)

lemma roots_ok:
  assumes "vg_rootNodes g \<noteq> []" "place_roots g = (roots, ds, ms, w, h)"
  shows "fits 0 0 w h roots" "\<forall>t \<in> set roots. laid_out t"
    "map tree_nodes roots = map all_nodes (vg_rootNodes g)"
proof -
  let ?ts = "map (measureNodeRecursive (vg_edges g)) (vg_rootNodes g)"
  have ts: "?ts \<noteq> []" "\<forall>t \<in> set ?ts. laid_out t" "map tree_nodes ?ts = map all_nodes (vg_rootNodes g)"
    using assms(1) measured_ok by auto
  then have sz: "\<forall>t \<in> set ?ts. sized t" using laid_out_sized by blast
  have "fits 0 0 w h roots \<and> (\<forall>t \<in> set roots. laid_out t) \<and> map tree_nodes roots = map tree_nodes ?ts"
  proof (cases "vg_rootType g")
    case EdRootParallel
    obtain rs divs r where p: "place_regions 0 0 (max_height ?ts) ?ts = (rs, divs, r)" by (metis prod_cases3)
    have "roots = rs" "w = r" "h = max_height ?ts"
      using assms(2) by (auto simp: place_roots_def Let_def EdRootParallel p)
    moreover have "\<forall>t \<in> set ?ts. sized t \<and> tree_height t \<le> max_height ?ts" using sz max_height_le(1) by blast
    from place_regions_fits [OF this p] have f: "fits 0 0 r (0 + max_height ?ts) rs" "list_all2 same_tree ?ts rs" by blast+
    ultimately show ?thesis using same_trees [OF f(2)] ts(2) f(1) by (metis add_0)
  next
    case EdRootCompound
    obtain rs w' h' where a: "arrangeCompoundSiblings ?ts None (vg_rootInitialId g) (vg_edges g) = (rs, w', h')"
      by (metis prod_cases3)
    define sp where "sp = (if truthy (vg_rootInitialId g) \<noteq> None then INITIAL_MARKER_SPACE else 0)"
    have r: "roots = map (move_by 0 sp) rs" "w = w'" "h = h' + sp"
      using assms(2) unfolding place_roots_def Let_def EdRootCompound ed_root_type.case a prod.case sp_def by blast+
    from arrange_fits [OF ts(1) sz a] have f: "fits 0 0 w' h' rs" "list_all2 same_tree ?ts rs" by blast+
    have "fits 0 0 w h roots"
      unfolding r by (rule fits_mono [OF fits_move_by [OF f(1)]]) (simp_all add: sp_def gaps)
    moreover have "\<forall>t \<in> set roots. laid_out t" using same_trees(1) [OF f(2) ts(2)] by (simp add: r)
    moreover have "map tree_nodes roots = map tree_nodes rs" by (simp add: r)
    ultimately show ?thesis using same_trees(2) [OF f(2)] by metis
  qed
  with ts(3) show "fits 0 0 w h roots" "\<forall>t \<in> set roots. laid_out t"
    "map tree_nodes roots = map all_nodes (vg_rootNodes g)" by simp_all
qed

lemma layout_cases:
  obtains "vg_rootNodes g = []" "lg_nodes (computeGraphLayout g) = []"
  | roots w h where "vg_rootNodes g \<noteq> []" "fits 0 0 w h roots" "\<forall>t \<in> set roots. laid_out t"
    "map tree_nodes roots = map all_nodes (vg_rootNodes g)"
    "lg_nodes (computeGraphLayout g) = sort_key bx_depth (concat (map (flatten_boxes PAD_CANVAS PAD_CANVAS 0) roots))"
    "\<forall>b \<in> set (lg_nodes (computeGraphLayout g)). bx_x b + bx_width b + PAD_CANVAS \<le> lg_width (computeGraphLayout g) \<and>
       bx_y b + bx_height b + PAD_CANVAS \<le> lg_height (computeGraphLayout g)"
proof (cases "vg_rootNodes g = []")
  case True
  then show thesis using that(1) by (simp add: computeGraphLayout_def)
next
  case False
  obtain roots ds ms w h where p: "place_roots g = (roots, ds, ms, w, h)" by (metis prod_cases5)
  define boxes where "boxes = sort_key bx_depth (concat (map (flatten_boxes PAD_CANVAS PAD_CANVAS 0) roots))"
  note L = computeGraphLayout_def [of g, unfolded if_not_P [OF False] Let_def p prod.case, folded boxes_def]
  have n: "lg_nodes (computeGraphLayout g) = boxes" by (simp add: L)
  have le: "x \<le> fold (\<lambda>b r. max r (f b)) bs (x :: int)" "x \<le> y \<Longrightarrow> x \<le> max z y" for x y z f and bs :: "edge_layout list"
    by (rule max_folds) (simp add: max.coboundedI2)
  have "bx_x b + bx_width b + PAD_CANVAS \<le> lg_width (computeGraphLayout g)" if "b \<in> set boxes" for b
    unfolding L layout_graph.simps
    by (rule le(2), rule order_trans [OF max_folds(2) [OF that, of "\<lambda>b. bx_x b + bx_width b + PAD_CANVAS"] le(1)])
  moreover have "bx_y b + bx_height b + PAD_CANVAS \<le> lg_height (computeGraphLayout g)" if "b \<in> set boxes" for b
    unfolding L layout_graph.simps
    by (rule le(2), rule order_trans [OF max_folds(2) [OF that, of "\<lambda>b. bx_y b + bx_height b + PAD_CANVAS"] le(1)])
  ultimately show thesis using that(2) [OF False roots_ok [OF False p]] n boxes_def by blast
qed

lemma layout_ordered: "sorted_wrt in_order_boxes (lg_nodes (computeGraphLayout g))"
proof (cases rule: layout_cases [of g])
  case (2 roots w h)
  let ?boxes = "concat (map (flatten_boxes PAD_CANVAS PAD_CANVAS 0) roots)"
  have "sorted_wrt (\<lambda>s t. box_apart (tree_box PAD_CANVAS PAD_CANVAS 0 s) (tree_box PAD_CANVAS PAD_CANVAS 0 t)) roots"
    using 2(2) by (auto simp: fits_def intro: sorted_wrt_mono_rel [of roots apart] tree_boxes_apart)
  from concat_ordered [OF _ this] have "sorted_wrt in_order_boxes ?boxes" using flatten_ordered 2(3) by blast
  moreover have "sorted_wrt in_order_boxes (sort_key bx_depth ?boxes) = sorted_wrt in_order_boxes ?boxes"
    by (rule sorted_wrt_mset) (auto intro: order_sym)
  ultimately show ?thesis unfolding 2(5) by simp
qed simp

lemma layout_low: "b \<in> set (lg_nodes (computeGraphLayout g)) \<Longrightarrow> PAD_CANVAS \<le> bx_x b \<and> PAD_CANVAS \<le> bx_y b"
proof (cases rule: layout_cases [of g])
  case (2 roots w h)
  assume "b \<in> set (lg_nodes (computeGraphLayout g))"
  then obtain t where t: "t \<in> set roots" "b \<in> set (flatten_boxes PAD_CANVAS PAD_CANVAS 0 t)" unfolding 2(5) by auto
  have "box_within b (tree_box PAD_CANVAS PAD_CANVAS 0 t)" using flatten_ordered t 2(3) by blast
  moreover have "inside_box 0 0 w h t" using 2(2) t(1) by (simp add: fits_def)
  ultimately show ?thesis by (simp add: box_within_def tree_box_def inside_box_def)
qed simp

lemma layout_high: "b \<in> set (lg_nodes (computeGraphLayout g)) \<Longrightarrow>
    bx_x b + bx_width b + PAD_CANVAS \<le> lg_width (computeGraphLayout g) \<and>
    bx_y b + bx_height b + PAD_CANVAS \<le> lg_height (computeGraphLayout g)"
proof (cases rule: layout_cases [of g])
  case (2 roots w h)
  assume "b \<in> set (lg_nodes (computeGraphLayout g))"
  with 2(6) show ?thesis by blast
qed simp

lemma layout_nodes:
  "mset (map bx_node (lg_nodes (computeGraphLayout g))) = mset (concat (map all_nodes (vg_rootNodes g)))"
proof (cases rule: layout_cases [of g])
  case (2 roots w h)
  have "map bx_node (concat (map (flatten_boxes PAD_CANVAS PAD_CANVAS 0) roots)) = concat (map tree_nodes roots)"
    by (simp add: map_concat comp_def flatten_nodes)
  then have "mset (map bx_node (sort_key bx_depth (concat (map (flatten_boxes PAD_CANVAS PAD_CANVAS 0) roots)))) =
      mset (concat (map tree_nodes roots))"
    by (metis mset_map mset_sort)
  then show ?thesis unfolding 2(5) 2(4) .
qed simp

end
