(* ===== verification/EditorLayoutProps.thy ===== *)
theory EditorLayoutProps
  imports EditorProps EditorLayoutInv
begin

text \<open>
  What the preview promises: every state of the machine has one box, boxes never overlap unless one
  contains the other, and all of them lie on the canvas. The sample is the document of the editor's
  other properties.
\<close>

section \<open>States and nodes\<close>

definition drawn_states :: "parsed_machine \<Rightarrow> parsed_state list" where
  "drawn_states m = concat (map subtree (vals (pm_states m))) @
     (case (pm_errorStateMode m, pm_implicitErrorNode m) of
        (ImplicitError, Some e) \<Rightarrow> subtree e | _ \<Rightarrow> [])"

abbreviation state_path :: "parsed_state \<Rightarrow> string" where
  "state_path n \<equiv> si_path (ps_info n)"

lemma subtree_alt: "subtree (PState i states) = PState i states # concat (map subtree (vals states))"
proof -
  have "(\<lambda>(k :: string, y). subtree y) = subtree \<circ> snd" by auto
  then show ?thesis by simp
qed

lemma built_nodes:
  "buildNodeRecursive m n b acc = (v, acc') \<Longrightarrow> map node_id (all_nodes v) = map state_path (subtree n)"
  "build_nodes m c i ns acc = (vs, acc') \<Longrightarrow>
     map node_id (concat (map all_nodes vs)) = map state_path (concat (map subtree (vals ns)))"
proof (induction m n b acc and m c i ns acc arbitrary: v acc' and vs acc' rule: buildNodeRecursive_build_nodes.induct)
  case (1 m i states b acc)
  obtain cs ns es where c: "build_nodes m (si_inferredType i = EdCompound) (si_initial i) states acc = (cs, (ns, es))"
    by (metis prod_cases3)
  have "map node_id (concat (map all_nodes cs)) = map state_path (concat (map subtree (vals states)))"
    by (rule 1(1) [OF c])
  moreover have "v = VNode (node_info_of m (PState i states) b) cs" using 1(2) c by (simp add: Let_def)
  ultimately show ?case unfolding subtree_alt by (simp add: node_info_of_def Let_def del: subtree.simps)
next
  case (3 m c i k n ns acc)
  obtain v a1 where v: "buildNodeRecursive m n (c \<and> i = Some k) acc = (v, a1)" by (meson surj_pair)
  obtain ws a2 where w: "build_nodes m c i ns a1 = (ws, a2)" by (meson surj_pair)
  have "vs = v # ws" using 3(3) v w by simp
  then show ?case using 3(1) [OF v] 3(2) [OF v [symmetric] refl w] by simp
qed simp

lemma graph_nodes:
  assumes "an_machine an = Some m"
  shows "map node_id (concat (map all_nodes (vg_rootNodes (buildVisualizerGraph an)))) = map state_path (drawn_states m)"
proof -
  obtain vs ns es where vs: "build_nodes m (pm_rootType m = EdRootCompound) (pm_initial m) (pm_states m) ([], []) = (vs, (ns, es))"
    by (metis prod_cases3)
  note b = built_nodes(2) [OF vs]
  note g = buildVisualizerGraph_def [of an, unfolded assms option.case Let_def vs prod.case]
  show ?thesis
  proof (cases "\<exists>e. (pm_errorStateMode m, pm_implicitErrorNode m) = (ImplicitError, Some e)")
    case True
    then obtain e where e: "pm_errorStateMode m = ImplicitError" "pm_implicitErrorNode m = Some e" by auto
    obtain v acc2 where v: "buildNodeRecursive m e False (ns, es) = (v, acc2)" by (meson surj_pair)
    show ?thesis using b built_nodes(1) [OF v]
      by (simp add: g e v drawn_states_def case_prod_beta)
  next
    case False
    then show ?thesis using b
      by (cases "pm_errorStateMode m"; cases "pm_implicitErrorNode m")
        (simp_all add: g drawn_states_def case_prod_beta)
  qed
qed

definition sample_graph :: vis_graph where
  "sample_graph = (case analyzeDfsmDocument (\<lambda>_. []) sample_document of
     Some a \<Rightarrow> buildVisualizerGraph a | None \<Rightarrow> invalid_graph [])"

lemma sample_boxes:
  "map (\<lambda>b. (node_id (bx_node b), bx_x b)) (lg_nodes (computeGraphLayout sample_graph)) =
     [(''a'', 48), (''b'', 48), (''lost'', 48), (''error'', 320)]"
  by code_simp

text \<open>C26: Boxes are always in order: in the layout of any graph, any two boxes are apart or one
  contains the other, whatever the states, their labels and the edges between them, and every box
  lies on the canvas with the canvas padding around it.
\<close>

theorem boxes_in_order:
  assumes "i < j" "j < length (lg_nodes (computeGraphLayout g))" "b = lg_nodes (computeGraphLayout g) ! j"
  shows "in_order_boxes (lg_nodes (computeGraphLayout g) ! i) b \<and>
    48 \<le> bx_x b \<and> bx_x b + bx_width b + 48 \<le> lg_width (computeGraphLayout g) \<and>
    48 \<le> bx_y b \<and> bx_y b + bx_height b + 48 \<le> lg_height (computeGraphLayout g)"
proof -
  have "b \<in> set (lg_nodes (computeGraphLayout g))" using assms by simp
  moreover have "in_order_boxes (lg_nodes (computeGraphLayout g) ! i) b"
    using layout_ordered [of g] assms by (simp add: sorted_wrt_iff_nth_less)
  ultimately show ?thesis using layout_low [of b g] layout_high [of b g] by blast
qed

theorem boxes_in_order_witness:
  "\<exists>a b. a \<in> set (lg_nodes (computeGraphLayout sample_graph)) \<and> b \<in> set (lg_nodes (computeGraphLayout sample_graph)) \<and>
     node_id (bx_node a) = ''a'' \<and> node_id (bx_node b) = ''error'' \<and> in_order_boxes a b \<and>
     bx_x b + bx_width b + 48 \<le> lg_width (computeGraphLayout sample_graph)"
proof -
  let ?bs = "lg_nodes (computeGraphLayout sample_graph)"
  have l: "length ?bs = 4" using arg_cong [OF sample_boxes, of length] by simp
  have n: "map (\<lambda>b. (node_id (bx_node b), bx_x b)) ?bs ! i =
      (node_id (bx_node (?bs ! i)), bx_x (?bs ! i))" if "i < 4" for i using that l by simp
  have ids: "node_id (bx_node (?bs ! 0)) = ''a''" "node_id (bx_node (?bs ! 3)) = ''error''"
    using n [of 0] n [of 3] by (simp_all add: sample_boxes)
  have mem: "?bs ! 0 \<in> set ?bs" "?bs ! 3 \<in> set ?bs" using l by simp_all
  have "in_order_boxes (?bs ! 0) (?bs ! 3) \<and> 48 \<le> bx_x (?bs ! 3) \<and>
      bx_x (?bs ! 3) + bx_width (?bs ! 3) + 48 \<le> lg_width (computeGraphLayout sample_graph) \<and>
      48 \<le> bx_y (?bs ! 3) \<and> bx_y (?bs ! 3) + bx_height (?bs ! 3) + 48 \<le> lg_height (computeGraphLayout sample_graph)"
    by (rule boxes_in_order [OF _ _ refl]) (simp_all add: l)
  with ids mem show ?thesis by blast
qed

text \<open>C25: The preview is complete: for every analysed document with a machine, each state of the
  machine, at whatever depth, and the built-in error state get exactly one box, and nothing else does.
\<close>

theorem every_state_drawn:
  assumes "an_machine an = Some m"
  shows "mset (map (node_id \<circ> bx_node) (lg_nodes (computeGraphLayout (buildVisualizerGraph an)))) =
    mset (map state_path (drawn_states m))"
proof -
  have "image_mset node_id (mset (map bx_node (lg_nodes (computeGraphLayout (buildVisualizerGraph an))))) =
      image_mset node_id (mset (concat (map all_nodes (vg_rootNodes (buildVisualizerGraph an)))))"
    unfolding layout_nodes ..
  then show ?thesis using graph_nodes [OF assms] by (metis map_map mset_map)
qed

theorem every_state_drawn_witness:
  "\<exists>an m. analyzeDfsmDocument (\<lambda>_. []) sample_document = Some an \<and> an_machine an = Some m \<and>
     mset (map state_path (drawn_states m)) = {#''a'', ''b'', ''lost'', ''error''#} \<and>
     mset (map (node_id \<circ> bx_node) (lg_nodes (computeGraphLayout (buildVisualizerGraph an)))) =
       mset (map state_path (drawn_states m))"
proof -
  have c: "case analyzeDfsmDocument (\<lambda>_. []) sample_document of
      Some a \<Rightarrow> (case an_machine a of
        Some m \<Rightarrow> map state_path (drawn_states m) = [''a'', ''b'', ''lost'', ''error''] | None \<Rightarrow> False)
    | None \<Rightarrow> False"
    by code_simp
  obtain an where an: "analyzeDfsmDocument (\<lambda>_. []) sample_document = Some an" using analysis_total by blast
  note c = c [unfolded an option.case]
  then obtain m where m: "an_machine an = Some m" by (cases "an_machine an") simp_all
  note c = c [unfolded m option.case]
  have "mset (map state_path (drawn_states m)) = {#''a'', ''b'', ''lost'', ''error''#}" unfolding c by simp
  with an m every_state_drawn [OF m] show ?thesis by blast
qed

end
