(* ===== verification/EditorRender.thy ===== *)
theory EditorRender
  imports EditorLayout
begin

text \<open>
  The picture of the preview (\<^verbatim>\<open>visualizer/htmlRenderer.ts\<close>): escaping, the SVG of boxes, dividers,
  initial markers and edges, the summary line of the page's header, and the payload sent to the page
  on every update. The text is the code's, blanks and line ends included. The page around them, its
  style sheet and its script, is one constant text and is left out.
\<close>

section \<open>Escaping\<close>

definition replace_char :: "char \<Rightarrow> string \<Rightarrow> string \<Rightarrow> string" where
  "replace_char c r s = concat (map (\<lambda>x. if x = c then r else [x]) s)"

abbreviation quote :: char where "quote \<equiv> CHR 0x22"
abbreviation apostrophe :: char where "apostrophe \<equiv> CHR 0x27"

definition escapeHtml :: "string \<Rightarrow> string" where
  "escapeHtml str =
     replace_char apostrophe ''&#39;'' (replace_char quote ''&quot;''
       (replace_char (CHR ''>'') ''&gt;'' (replace_char (CHR ''<'') ''&lt;''
         (replace_char (CHR ''&'') ''&amp;'' str))))"

section \<open>Pieces of markup\<close>

text \<open>A line of a template literal: a line end, its indentation and its text.\<close>

definition indent :: "nat \<Rightarrow> string \<Rightarrow> string" where
  "indent n s = CHR 0x0A # replicate n CHR '' '' @ s"

definition attr :: "string \<Rightarrow> string \<Rightarrow> string" where
  "attr name v = name @ ''='' @ [quote] @ v @ [quote]"

definition open_tag :: "string \<Rightarrow> string list \<Rightarrow> string" where
  "open_tag name attrs = ''<'' @ name @ '' '' @ join '' '' attrs @ ''>''"

definition void_tag :: "string \<Rightarrow> string list \<Rightarrow> string" where
  "void_tag name attrs = ''<'' @ name @ '' '' @ join '' '' attrs @ '' />''"

definition close_tag :: "string \<Rightarrow> string" where
  "close_tag name = ''</'' @ name @ ''>''"

definition full_tag :: "string \<Rightarrow> string list \<Rightarrow> string \<Rightarrow> string" where
  "full_tag name attrs s = open_tag name attrs @ s @ close_tag name"

definition translate_to :: "int \<Rightarrow> int \<Rightarrow> string" where
  "translate_to x y = ''translate('' @ show_int x @ '', '' @ show_int y @ '')''"

section \<open>Boxes\<close>

fun kind_text :: "node_kind \<Rightarrow> string" where
  "kind_text KindAtomic = ''atomic''"
| "kind_text KindCompound = ''compound''"
| "kind_text KindParallel = ''parallel''"
| "kind_text KindFinal = ''final''"
| "kind_text KindError = ''error''"

fun error_mode_text :: "shown_error_mode \<Rightarrow> string" where
  "error_mode_text ShownDefault = ''default''"
| "error_mode_text ShownCustom = ''custom''"

definition hooksSummary :: "node_info \<Rightarrow> string" where
  "hooksSummary i = join ('' '' @ middot @ '' '') (filter (\<lambda>s. s \<noteq> [])
     [if vi_entry i \<noteq> [] then ''entry: '' @ join '', '' (vi_entry i) else [],
      if vi_exit i \<noteq> [] then ''exit: '' @ join '', '' (vi_exit i) else []])"

definition range_attr :: "node_info \<Rightarrow> string" where
  "range_attr i = (case vi_range i of Some r \<Rightarrow> attr ''data-line'' (show_int (sr_line r)) | None \<Rightarrow> [])"

definition header_path :: "int \<Rightarrow> int \<Rightarrow> string" where
  "header_path w h = ''M 0 12 Q 0 0 12 0 L '' @ show_int (w - 12) @ '' 0 Q '' @ show_int w @ '' 0 '' @ show_int w @
     '' 12 L '' @ show_int w @ '' '' @ show_int h @ '' L 0 '' @ show_int h @ '' Z''"

definition container_svg :: "node_box \<Rightarrow> string" where
  "container_svg b =
     (let i = vn_info (bx_node b); kind = kind_text (vi_kind i); w = show_int (bx_width b);
          h = show_int (bx_headerHeight b); summary = hooksSummary i;
          kindBadge = (if vi_kind i = KindParallel then ''parallel'' else ''compound'')
      in indent 6 (open_tag ''g'' [attr ''class'' (''dfsm-node dfsm-container kind-'' @ kind),
           attr ''data-state-id'' (escapeHtml (vi_id i)), range_attr i,
           attr ''transform'' (translate_to (bx_x b) (bx_y b))]) @
         indent 8 (void_tag ''rect'' [attr ''class'' ''node-outer-rect'', attr ''x'' ''0'', attr ''y'' ''0'',
           attr ''width'' w, attr ''height'' (show_int (bx_height b)), attr ''rx'' ''12'', attr ''ry'' ''12'']) @
         indent 8 (void_tag ''path'' [attr ''class'' ''container-header-bg'',
           attr ''d'' (header_path (bx_width b) (bx_headerHeight b))]) @
         indent 8 (void_tag ''line'' [attr ''class'' ''container-header-line'', attr ''x1'' ''0'', attr ''y1'' h,
           attr ''x2'' w, attr ''y2'' h]) @
         indent 8 (full_tag ''text'' [attr ''class'' ''node-title'', attr ''x'' ''14'', attr ''y'' ''25'']
           (escapeHtml (vi_label i))) @
         indent 8 (open_tag ''g'' [attr ''transform'' (translate_to (bx_width b - 82) 10)]) @
         indent 10 (void_tag ''rect'' [attr ''class'' (''kind-pill pill-'' @ kind), attr ''x'' ''0'', attr ''y'' ''0'',
           attr ''width'' ''68'', attr ''height'' ''20'', attr ''rx'' ''10'']) @
         indent 10 (full_tag ''text'' [attr ''class'' ''kind-pill-text'', attr ''x'' ''34'', attr ''y'' ''14'',
           attr ''text-anchor'' ''middle''] kindBadge) @
         indent 8 (close_tag ''g'') @
         indent 8 (if summary \<noteq> []
           then full_tag ''text'' [attr ''class'' ''node-hooks'', attr ''x'' ''14'', attr ''y'' ''47''] (escapeHtml summary)
           else []) @
         indent 6 (close_tag ''g'') @ indent 4 [])"

definition hook_line :: "int \<Rightarrow> string \<Rightarrow> string list \<Rightarrow> string" where
  "hook_line y kind names = full_tag ''text'' [attr ''class'' ''node-hooks'', attr ''x'' ''14'', attr ''y'' (show_int y)]
     (kind @ '': '' @ escapeHtml (join '', '' names))"

definition leaf_svg :: "node_box \<Rightarrow> string" where
  "leaf_svg b =
     (let i = vn_info (bx_node b); w = bx_width b;
          isFinalShape = (vi_kind i = KindFinal \<or> vi_kind i = KindError \<and> vi_stateType i = EdFinal);
          innerDoubleRect = (if isFinalShape
            then void_tag ''rect'' [attr ''class'' ''final-inner-rect'', attr ''x'' ''5'', attr ''y'' ''5'',
              attr ''width'' (show_int (w - 10)), attr ''height'' (show_int (bx_height b - 10)),
              attr ''rx'' ''7'', attr ''ry'' ''7'']
            else []);
          bullseyeIcon = (if isFinalShape
            then indent 6 (open_tag ''g'' [attr ''class'' ''bullseye-badge'', attr ''transform'' (translate_to (w - 24) 22)]) @
              indent 8 (void_tag ''circle'' [attr ''class'' ''bullseye-outer'', attr ''cx'' ''0'', attr ''cy'' ''0'', attr ''r'' ''8'']) @
              indent 8 (void_tag ''circle'' [attr ''class'' ''bullseye-inner'', attr ''cx'' ''0'', attr ''cy'' ''0'', attr ''r'' ''3.8'']) @
              indent 6 (close_tag ''g'') @ indent 4 []
            else []);
          errorModeAttr = (case vi_errorMode i of Some m \<Rightarrow> attr ''data-error-mode'' (error_mode_text m) | None \<Rightarrow> []);
          hookY = 48;
          entryLine = (if vi_entry i \<noteq> [] then hook_line hookY ''entry'' (vi_entry i) else []);
          hookY = (if vi_entry i \<noteq> [] then hookY + 18 else hookY);
          exitLine = (if vi_exit i \<noteq> [] then hook_line hookY ''exit'' (vi_exit i) else [])
      in indent 4 (open_tag ''g'' [attr ''class'' (''dfsm-node dfsm-leaf kind-'' @ kind_text (vi_kind i)),
           attr ''data-state-id'' (escapeHtml (vi_id i)), errorModeAttr, range_attr i,
           attr ''transform'' (translate_to (bx_x b) (bx_y b))]) @
         indent 6 (void_tag ''rect'' [attr ''class'' ''node-outer-rect'', attr ''x'' ''0'', attr ''y'' ''0'',
           attr ''width'' (show_int w), attr ''height'' (show_int (bx_height b)), attr ''rx'' ''10'', attr ''ry'' ''10'']) @
         indent 6 innerDoubleRect @
         indent 6 (full_tag ''text'' [attr ''class'' ''node-title'', attr ''x'' ''14'', attr ''y'' ''27'']
           (escapeHtml (vi_label i))) @
         indent 6 bullseyeIcon @
         indent 6 (entryLine @ exitLine) @
         indent 4 (close_tag ''g'') @ indent 2 [])"

definition renderNodeSvg :: "node_box \<Rightarrow> string" where
  "renderNodeSvg b = (if vn_children (bx_node b) \<noteq> [] then container_svg b else leaf_svg b)"

section \<open>Edges\<close>

fun badge_kind_text :: "badge_kind \<Rightarrow> string" where
  "badge_kind_text BadgeRetry = ''retry''"
| "badge_kind_text BadgeBreaker = ''circuitBreaker''"
| "badge_kind_text BadgeCompensate = ''compensate''"
| "badge_kind_text BadgeEffects = ''effects''"

fun edge_kind_text :: "edge_kind \<Rightarrow> string" where
  "edge_kind_text EdgeEvent = ''event''"
| "edge_kind_text EdgeOnDone = ''onDone''"
| "edge_kind_text EdgeOnFail = ''onFail''"

definition badgeWidth :: "badge \<Rightarrow> int" where
  "badgeWidth b = max 38 (\<lceil>of_nat (length (bd_label b)) * (64 / 10 :: rat)\<rceil> + 16)"

fun badges_svg :: "int \<Rightarrow> int \<Rightarrow> badge list \<Rightarrow> string" where
  "badges_svg bx y [] = []"
| "badges_svg bx y (b # bs) =
     (let bw = badgeWidth b in
      indent 8 (open_tag ''g'' [attr ''class'' (''transition-badge badge-'' @ badge_kind_text (bd_kind b)),
        attr ''transform'' (translate_to bx y)]) @
      indent 10 (void_tag ''rect'' [attr ''x'' ''0'', attr ''y'' ''0'', attr ''width'' (show_int bw), attr ''height'' ''16'',
        attr ''rx'' ''8'']) @
      indent 10 (full_tag ''text'' [attr ''x'' (show_int (half bw)), attr ''y'' ''11.5'', attr ''text-anchor'' ''middle'']
        (escapeHtml (bd_label b))) @
      indent 8 (close_tag ''g'') @ indent 6 [] @
      badges_svg (bx + bw + 5) y bs)"

definition renderEdgeSvg :: "edge_layout \<Rightarrow> string" where
  "renderEdgeSvg routed =
     (let e = el_edge routed; badges = ve_badges e;
          markerId = ''arrow-'' @ edge_kind_text (ve_edgeKind e);
          dashAttr = (if ve_dashed e then attr ''stroke-dasharray'' ''6 4'' else []);
          mainLabelW = max 68 (\<lceil>of_nat (length (ve_label e)) * (69 / 10 :: rat)\<rceil> + 22);
          badgesTotalW = (if badges \<noteq> []
            then fold (\<lambda>b acc. acc + badgeWidth b) badges 0 + (int (length badges) - 1) * 5 else 0);
          boxW = max mainLabelW (badgesTotalW + 16);
          boxH = (if badges \<noteq> [] then 44 else 24);
          boxX = round_half (of_int (el_labelX routed) - of_int boxW / 2);
          boxY = round_half (of_int (el_labelY routed) - of_int boxH / 2);
          badgesSvg = (if badges \<noteq> []
            then badges_svg (round_half (of_int (el_labelX routed) - of_int badgesTotalW / 2)) (boxY + 23) badges
            else [])
      in indent 4 (open_tag ''g'' [attr ''class'' (''dfsm-edge edge-'' @ edge_kind_text (ve_edgeKind e)),
           attr ''data-edge-id'' (escapeHtml (ve_id e)), attr ''data-source'' (escapeHtml (ve_source e)),
           attr ''data-target'' (escapeHtml (ve_target e))]) @
         indent 6 (void_tag ''path'' [attr ''class'' ''edge-hit-area'', attr ''d'' (el_pathD routed)]) @
         indent 6 (void_tag ''path'' [attr ''class'' ''edge-path'', attr ''d'' (el_pathD routed), dashAttr,
           attr ''marker-end'' (''url(#'' @ markerId @ '')'')]) @
         indent 6 (open_tag ''g'' [attr ''class'' ''edge-label-card'', attr ''transform'' (translate_to boxX boxY)]) @
         indent 8 (void_tag ''rect'' [attr ''class'' ''edge-label-bg'', attr ''x'' ''0'', attr ''y'' ''0'',
           attr ''width'' (show_int boxW), attr ''height'' (show_int boxH), attr ''rx'' ''7'']) @
         indent 8 (full_tag ''text'' [attr ''class'' ''edge-label-text'', attr ''x'' (show_int (half boxW)),
           attr ''y'' ''15.5'', attr ''text-anchor'' ''middle''] (escapeHtml (ve_label e))) @
         indent 6 (close_tag ''g'') @
         indent 6 badgesSvg @
         indent 4 (close_tag ''g'') @ indent 2 [])"

section \<open>The diagram\<close>

definition arrow_marker :: "string \<Rightarrow> string \<Rightarrow> string \<Rightarrow> string \<Rightarrow> string \<Rightarrow> string" where
  "arrow_marker kind refX side orient d =
     indent 8 (open_tag ''marker'' [attr ''id'' (''arrow-'' @ kind), attr ''viewBox'' ''0 0 10 10'', attr ''refX'' refX,
       attr ''refY'' ''5'', attr ''markerWidth'' side, attr ''markerHeight'' side, attr ''orient'' orient]) @
     indent 10 (void_tag ''path'' [attr ''d'' d, attr ''class'' (''marker-'' @ kind)]) @
     indent 8 (close_tag ''marker'')"

definition arrow_markers :: string where
  "arrow_markers =
     indent 6 ''<defs>'' @
     concat (map (\<lambda>k. arrow_marker k ''8.5'' ''6.5'' ''auto-start-reverse'' ''M 0 1.5 L 9 5 L 0 8.5 z'')
       [''event'', ''onDone'', ''onFail'']) @
     arrow_marker ''initial'' ''8'' ''5.5'' ''auto'' ''M 0 1.5 L 8.5 5 L 0 8.5 z'' @
     indent 6 (close_tag ''defs'')"

definition divider_svg :: "parallel_divider \<Rightarrow> string" where
  "divider_svg d = void_tag ''line'' [attr ''class'' ''parallel-region-divider'',
     attr ''data-parallel-id'' (escapeHtml (pl_parallelNodeId d)), attr ''x1'' (show_int (pl_x1 d)),
     attr ''y1'' (show_int (pl_y1 d)), attr ''x2'' (show_int (pl_x2 d)), attr ''y2'' (show_int (pl_y2 d)),
     attr ''stroke-dasharray'' ''6 4'']"

definition marker_svg :: "initial_marker \<Rightarrow> string" where
  "marker_svg m =
     indent 6 (open_tag ''g'' [attr ''class'' ''initial-marker'', attr ''data-owner'' (escapeHtml (im_ownerId m)),
       attr ''data-initial-target'' (escapeHtml (im_targetNodeId m))]) @
     indent 8 (void_tag ''circle'' [attr ''class'' ''initial-dot'', attr ''cx'' (show_int (im_dotX m)),
       attr ''cy'' (show_int (im_dotY m)), attr ''r'' ''5.5'']) @
     indent 8 (void_tag ''path'' [attr ''class'' ''initial-arrow'', attr ''d'' (im_pathD m),
       attr ''marker-end'' ''url(#arrow-initial)'']) @
     indent 6 (close_tag ''g'') @ indent 4 []"

definition layer_svg :: "string \<Rightarrow> string list \<Rightarrow> string" where
  "layer_svg name parts = indent 6 (full_tag ''g'' [attr ''class'' (''layer-'' @ name)] (join [CHR 0x0A] parts))"

definition renderStatechartSvg :: "layout_graph \<Rightarrow> string" where
  "renderStatechartSvg l =
     (let w = show_int (lg_width l); h = show_int (lg_height l) in
      indent 4 (open_tag ''svg'' [attr ''id'' ''dfsm-svg'', attr ''class'' ''dfsm-svg'', attr ''width'' w, attr ''height'' h,
        attr ''viewBox'' (''0 0 '' @ w @ '' '' @ h), attr ''xmlns'' ''http://www.w3.org/2000/svg'']) @
      arrow_markers @
      layer_svg ''nodes'' (map renderNodeSvg (lg_nodes l)) @
      layer_svg ''dividers'' (map divider_svg (lg_parallelDividers l)) @
      layer_svg ''initial-markers'' (map marker_svg (lg_initialMarkers l)) @
      layer_svg ''edges'' (map renderEdgeSvg (lg_edges l)) @
      indent 4 (close_tag ''svg'') @ indent 2 [])"

section \<open>The header and the payload\<close>

definition plural :: "nat \<Rightarrow> string" where
  "plural n = (if n = 1 then [] else ''s'')"

definition pill :: "string \<Rightarrow> string \<Rightarrow> string" where
  "pill kind s = full_tag ''span'' [attr ''class'' (''meta-pill '' @ kind)] s"

definition titled_pill :: "string \<Rightarrow> string \<Rightarrow> string \<Rightarrow> string" where
  "titled_pill kind title s = full_tag ''span'' [attr ''class'' (''meta-pill '' @ kind), attr ''title'' title] s"

definition renderHeaderMetaHtml :: "vis_graph \<Rightarrow> string" where
  "renderHeaderMetaHtml g =
     (let errCount = length (filter (\<lambda>d. dg_severity d = SevError) (vg_diagnostics g));
          warnCount = length (filter (\<lambda>d. dg_severity d = SevWarning) (vg_diagnostics g));
          statusPill =
            (if errCount > 0 then pill ''status-error'' (show_nat errCount @ '' error'' @ plural errCount)
             else if warnCount > 0 then pill ''status-warn'' (show_nat warnCount @ '' warning'' @ plural warnCount)
             else pill ''status-valid'' ''Valid DFSM v1.0'');
          errorModePill =
            (if vg_errorStateMode g = CustomError
             then titled_pill ''error-mode-custom'' ''YAML defines custom states.error'' ''error: custom override''
             else titled_pill ''error-mode-default'' ''Compiler injects built-in final error state''
               ''error: default (implicit final)'');
          nsPill = (case truthy (vg_namespace g) of
            Some ns \<Rightarrow> pill ''meta-ns'' (''ns: '' @ escapeHtml ns) | None \<Rightarrow> []);
          hooks = vg_hooks g;
          totalHookHandlers = length (eh_onStart hooks) + length (eh_beforeTransition hooks) +
            length (eh_afterTransition hooks) + length (eh_onCompensate hooks) +
            length (eh_onComplete hooks) + length (eh_onTerminal hooks);
          hooksPill = (if totalHookHandlers > 0
            then titled_pill ''meta-hooks'' ''YAML lifecycle hooks registered on machine creation''
              (show_nat totalHookHandlers @ '' hook'' @ plural totalHookHandlers)
            else [])
      in indent 4 (open_tag ''div'' [attr ''class'' ''studio-title-group'']) @
         indent 6 (full_tag ''span'' [attr ''class'' ''studio-machine-id''] (escapeHtml (vg_machineId g))) @
         indent 6 (pill ''meta-version'' (''v'' @ escapeHtml (vg_version g))) @
         indent 6 (pill ''meta-states'' (show_nat (vg_explicitStateCount g) @ '' state'' @ plural (vg_explicitStateCount g))) @
         indent 6 nsPill @ indent 6 hooksPill @ indent 6 errorModePill @ indent 6 statusPill @
         indent 4 (close_tag ''div'') @ indent 2 [])"

record update_payload =
  up_machineId :: string
  up_svgHtml :: string
  up_headerHtml :: string
  up_canvasWidth :: int
  up_canvasHeight :: int
  up_nodesById :: "vis_node dict"
  up_edgesById :: "vis_edge dict"
  up_hooks :: ed_hooks
  up_effects :: "string list"
  up_maxEffectChainDepth :: "rat option"
  up_diagnostics :: "diagnostic list"
  up_initialStateId :: "string option"

datatype preview_input = OfLayout layout_graph | OfGraph vis_graph

definition buildVisualizerUpdatePayload :: "preview_input \<Rightarrow> update_payload" where
  "buildVisualizerUpdatePayload input =
     (let layout = (case input of OfLayout l \<Rightarrow> l | OfGraph g \<Rightarrow> computeGraphLayout g);
          g = lg_graph layout;
          nodesById = fold (\<lambda>n. AList.update (node_id n) n) (vg_allNodes g) [];
          edgesById = fold (\<lambda>e. AList.update (ve_id e) e) (vg_edges g) []
      in \<lparr>up_machineId = vg_machineId g, up_svgHtml = renderStatechartSvg layout,
          up_headerHtml = renderHeaderMetaHtml g, up_canvasWidth = lg_width layout,
          up_canvasHeight = lg_height layout, up_nodesById = nodesById, up_edgesById = edgesById,
          up_hooks = vg_hooks g, up_effects = vg_effects g,
          up_maxEffectChainDepth = vg_maxEffectChainDepth g, up_diagnostics = vg_diagnostics g,
          up_initialStateId = (case vg_rootInitialId g of Some i \<Rightarrow> Some i
            | None \<Rightarrow> (case vg_rootNodes g of [] \<Rightarrow> None | n # ns \<Rightarrow> Some (node_id n)))\<rparr>)"

section \<open>Reading markup\<close>

text \<open>
  What a browser takes for markup: the text between \<open><\<close> and \<open>>\<close> except the values between quotes.
  \<open>scan\<close> returns it, with the mode at the end.
\<close>

datatype scan_mode = Content | InTag | InValue

fun scan_char :: "scan_mode \<Rightarrow> char \<Rightarrow> string \<times> scan_mode" where
  "scan_char Content c = (if c = CHR ''<'' then ([c], InTag) else ([], Content))"
| "scan_char InTag c = ([c], if c = CHR ''>'' then Content else if c = quote then InValue else InTag)"
| "scan_char InValue c = (if c = quote then ([c], InTag) else ([], InValue))"

fun scan :: "scan_mode \<Rightarrow> string \<Rightarrow> string \<times> scan_mode" where
  "scan m [] = ([], m)"
| "scan m (c # cs) = (case scan_char m c of (out, m1) \<Rightarrow> (case scan m1 cs of (outs, m2) \<Rightarrow> (out @ outs, m2)))"

lemma scan_append: "scan m (s @ t) = (case scan m s of (o1, m1) \<Rightarrow> (case scan m1 t of (o2, m2) \<Rightarrow> (o1 @ o2, m2)))"
  by (induction m s rule: scan.induct) (auto split: prod.splits)

text \<open>Two texts with the same markup, both read from mode \<open>m\<close> to mode \<open>m'\<close>.\<close>

definition alike :: "scan_mode \<Rightarrow> scan_mode \<Rightarrow> string \<Rightarrow> string \<Rightarrow> bool" where
  "alike m m' s t \<longleftrightarrow> scan m s = scan m t \<and> snd (scan m s) = m'"

definition plain_text :: "string \<Rightarrow> bool" where
  "plain_text s \<longleftrightarrow> CHR ''<'' \<notin> set s \<and> CHR ''>'' \<notin> set s \<and> quote \<notin> set s"

named_theorems markup

lemma alike_append: "alike m m1 s s' \<Longrightarrow> alike m1 m2 t t' \<Longrightarrow> alike m m2 (s @ t) (s' @ t')"
  by (auto simp: alike_def scan_append split: prod.splits)

lemma scan_plain: "plain_text s \<Longrightarrow> scan m s = (if m = InTag then s else [], m)"
  by (induction s; cases m) (auto simp: plain_text_def)

lemma alike_plain: "plain_text s \<Longrightarrow> plain_text t \<Longrightarrow> m \<noteq> InTag \<Longrightarrow> alike m m s t"
  by (simp add: alike_def scan_plain)

lemma alike_same: "plain_text s \<Longrightarrow> alike m m s s"
  by (simp add: alike_def scan_plain)

lemma plain_append [simp]: "plain_text (s @ t) \<longleftrightarrow> plain_text s \<and> plain_text t"
  by (auto simp: plain_text_def)

lemma plain_Nil [simp]: "plain_text []"
  by (simp add: plain_text_def)

lemma plain_Cons [simp]: "plain_text (c # s) \<longleftrightarrow> c \<noteq> CHR ''<'' \<and> c \<noteq> CHR ''>'' \<and> c \<noteq> quote \<and> plain_text s"
  by (auto simp: plain_text_def)

lemma plain_join [simp]: "plain_text sep \<Longrightarrow> \<forall>s \<in> set ss. plain_text s \<Longrightarrow> plain_text (join sep ss)"
  by (induction sep ss rule: join.induct) auto


lemma plain_text_nat [simp]: "plain_text (show_nat n)"
proof (induction n rule: show_nat.induct)
  case (1 n)
  have d: "plain_text [char_of (48 + k)]" if "k < 10" for k :: nat
  proof -
    have "k \<in> {0, 1, 2, 3, 4, 5, 6, 7, 8, 9}" using that by auto
    then show ?thesis by (auto simp:  char_of_def)
  qed
  show ?case using 1 d [of n] d [of "n mod 10"] by (subst show_nat.simps) auto
qed

lemma plain_text_int [simp]: "plain_text (show_int i)"
  by (simp add: show_int_def )

lemma plain_text_fraction [simp]: "plain_text (fraction_digits k r)"
  by (induction k r rule: fraction_digits.induct) auto

lemma plain_text_num [simp]: "plain_text (show_num r)"
  by (simp add: show_num_def )

lemma escapes_plain [simp]: "plain_text (escapeHtml s)"
proof -
  have f: "x \<in> set (replace_char c r t) \<Longrightarrow> x \<in> set r \<or> x \<in> set t \<and> x \<noteq> c" for x c r t
    by (auto simp: replace_char_def split: if_splits)
  show ?thesis
    unfolding escapeHtml_def plain_text_def
    by (auto dest!: f)
qed

lemma plain_text_translate [simp]: "plain_text (translate_to x y)"
  by (simp add: translate_to_def )

section \<open>Rules\<close>

lemma alike_indent [markup]: "alike Content Content s t \<Longrightarrow> alike Content Content (indent n s) (indent n t)"
proof -
  have "plain_text (CHR 0x0A # replicate n CHR '' '')" by (auto simp: plain_text_def )
  moreover assume "alike Content Content s t"
  ultimately have "alike Content Content ((CHR 0x0A # replicate n CHR '' '') @ s) ((CHR 0x0A # replicate n CHR '' '') @ t)"
    by (blast intro: alike_append alike_same)
  then show ?thesis by (simp add: indent_def)
qed

lemma alike_attr [markup]: "plain_text k \<Longrightarrow> plain_text v \<Longrightarrow> plain_text w \<Longrightarrow> alike InTag InTag (attr k v) (attr k w)"
  by (auto simp: alike_def attr_def scan_append scan_plain )

lemma alike_Nil [markup]: "alike m m [] []"
  by (simp add: alike_def)

lemma alike_join [markup]:
  "list_all2 (alike m m) ss ts \<Longrightarrow> alike m m sep sep \<Longrightarrow> alike m m (join sep ss) (join sep ts)"
proof (induction ss ts rule: list_all2_induct)
  case (Cons s ss t ts)
  then show ?case by (cases ss; cases ts) (auto intro: alike_append)
qed (simp add: alike_Nil)

lemma alike_tag:
  assumes "plain_text n" "list_all2 (alike InTag InTag) as bs"
  shows "alike Content InTag (''<'' @ n @ '' '' @ join '' '' as) (''<'' @ n @ '' '' @ join '' '' bs)"
proof -
  have "alike InTag InTag (n @ '' '' @ join '' '' as) (n @ '' '' @ join '' '' bs)"
    using assms by (intro alike_append [of InTag InTag] alike_join alike_same) simp_all
  moreover have "alike Content InTag ''<'' ''<''" by (simp add: alike_def)
  ultimately show ?thesis by (rule alike_append [rotated])
qed

lemma alike_open [markup]:
  assumes "plain_text n" "list_all2 (alike InTag InTag) as bs"
  shows "alike Content Content (open_tag n as) (open_tag n bs)"
proof -
  have "alike InTag Content ''>'' ''>''" by (simp add: alike_def)
  from alike_append [OF alike_tag [OF assms] this] show ?thesis by (simp add: open_tag_def)
qed

lemma alike_void [markup]:
  assumes "plain_text n" "list_all2 (alike InTag InTag) as bs"
  shows "alike Content Content (void_tag n as) (void_tag n bs)"
proof -
  have "alike InTag Content '' />'' '' />''" by (simp add: alike_def )
  from alike_append [OF alike_tag [OF assms] this] show ?thesis by (simp add: void_tag_def)
qed

lemma alike_close [markup]: "plain_text n \<Longrightarrow> alike Content Content (close_tag n) (close_tag n)"
  by (auto simp: alike_def close_tag_def scan_append scan_plain )

lemma alike_full [markup]:
  "plain_text n \<Longrightarrow> list_all2 (alike InTag InTag) as bs \<Longrightarrow> alike Content Content s t \<Longrightarrow>
     alike Content Content (full_tag n as s) (full_tag n bs t)"
  unfolding full_tag_def by (intro alike_append [of Content Content] alike_open alike_close)

lemma alike_parts [markup]:
  "alike Content Content s s' \<Longrightarrow> alike Content Content t t' \<Longrightarrow> alike Content Content (s @ t) (s' @ t')"
  by (rule alike_append)

lemma alike_escaped [markup]: "alike Content Content (escapeHtml s) (escapeHtml t)"
  by (simp add: alike_plain)

lemma alike_if [markup]:
  "(c \<longleftrightarrow> d) \<Longrightarrow> alike m m s t \<Longrightarrow> alike m m (if c then s else []) (if d then t else [])"
  by (simp add: alike_Nil)

lemma alike_text: "plain_text s \<Longrightarrow> plain_text t \<Longrightarrow> alike Content Content s t"
  by (rule alike_plain) simp_all

section \<open>The texts of a machine\<close>

text \<open>Every text the document chooses is replaced by the same letter; empty ones stay empty.\<close>

definition mask :: "string \<Rightarrow> string" where
  "mask s = (if s = [] then [] else ''x'')"

definition mask_info :: "node_info \<Rightarrow> node_info" where
  "mask_info i = i\<lparr>vi_id := mask (vi_id i), vi_label := mask (vi_label i), vi_entry := map mask (vi_entry i),
     vi_exit := map mask (vi_exit i)\<rparr>"

definition mask_box :: "node_box \<Rightarrow> node_box" where
  "mask_box b = b\<lparr>bx_node := VNode (mask_info (vn_info (bx_node b))) (vn_children (bx_node b))\<rparr>"

definition mask_badge :: "badge \<Rightarrow> badge" where
  "mask_badge b = b\<lparr>bd_label := mask (bd_label b)\<rparr>"

definition mask_edge :: "edge_layout \<Rightarrow> edge_layout" where
  "mask_edge l = l\<lparr>el_edge := (el_edge l)\<lparr>ve_id := mask (ve_id (el_edge l)), ve_source := mask (ve_source (el_edge l)),
     ve_target := mask (ve_target (el_edge l)), ve_label := mask (ve_label (el_edge l)),
     ve_badges := map mask_badge (ve_badges (el_edge l))\<rparr>\<rparr>"

definition mask_layout :: "layout_graph \<Rightarrow> layout_graph" where
  "mask_layout l = l\<lparr>lg_nodes := map mask_box (lg_nodes l),
     lg_parallelDividers := map (\<lambda>d. d\<lparr>pl_parallelNodeId := mask (pl_parallelNodeId d)\<rparr>) (lg_parallelDividers l),
     lg_initialMarkers := map (\<lambda>m. m\<lparr>im_ownerId := mask (im_ownerId m), im_targetNodeId := mask (im_targetNodeId m)\<rparr>)
       (lg_initialMarkers l),
     lg_edges := map mask_edge (lg_edges l)\<rparr>"

definition mask_graph :: "vis_graph \<Rightarrow> vis_graph" where
  "mask_graph g = g\<lparr>vg_machineId := mask (vg_machineId g), vg_version := mask (vg_version g),
     vg_namespace := map_option mask (vg_namespace g)\<rparr>"

lemma alike_range [markup]: "alike InTag InTag (range_attr i) (range_attr (mask_info i))"
  by (auto simp: range_attr_def mask_info_def split: option.splits intro!: markup)

lemmas mask_simps = mask_box_def mask_info_def mask_badge_def mask_edge_def

lemma plain_text_kind [simp]: "plain_text (kind_text k)"
  by (cases k) simp_all

lemma plain_text_path [simp]: "plain_text (header_path w h)"
  by (simp add: header_path_def)

lemma mask_box_sel [simp]:
  "bx_x (mask_box b) = bx_x b" "bx_y (mask_box b) = bx_y b" "bx_width (mask_box b) = bx_width b"
  "bx_height (mask_box b) = bx_height b" "bx_headerHeight (mask_box b) = bx_headerHeight b"
  "vn_info (bx_node (mask_box b)) = mask_info (vn_info (bx_node b))"
  "vn_children (bx_node (mask_box b)) = vn_children (bx_node b)"
  by (simp_all add: mask_box_def)

lemma mask_info_sel [simp]:
  "vi_kind (mask_info i) = vi_kind i" "vi_stateType (mask_info i) = vi_stateType i"
  "vi_errorMode (mask_info i) = vi_errorMode i" "vi_entry (mask_info i) = [] \<longleftrightarrow> vi_entry i = []"
  "vi_exit (mask_info i) = [] \<longleftrightarrow> vi_exit i = []" "hooksSummary (mask_info i) = [] \<longleftrightarrow> hooksSummary i = []"
  by (simp_all add: mask_info_def hooksSummary_def)

lemma alike_container: "alike Content Content (container_svg b) (container_svg (mask_box b))"
  unfolding container_svg_def Let_def mask_box_sel mask_info_sel
  by (intro markup list.rel_intros) (simp_all add: alike_text)

lemma alike_hook_line:
  "alike Content Content (hook_line y k ns) (hook_line z k ms)" if "plain_text k"
  unfolding hook_line_def using that by (intro markup list.rel_intros) (auto simp: alike_text)

lemma alike_error_mode [markup]:
  "alike InTag InTag (case m of Some x \<Rightarrow> attr ''data-error-mode'' (error_mode_text x) | None \<Rightarrow> [])
     (case m of Some x \<Rightarrow> attr ''data-error-mode'' (error_mode_text x) | None \<Rightarrow> [])"
proof -
  have "plain_text (error_mode_text x)" for x by (cases x) simp_all
  then show ?thesis by (auto split: option.splits intro!: markup)
qed

lemma alike_leaf: "alike Content Content (leaf_svg b) (leaf_svg (mask_box b))"
  unfolding leaf_svg_def Let_def mask_box_sel mask_info_sel
  by (intro markup list.rel_intros alike_hook_line) simp_all

lemma alike_node: "alike Content Content (renderNodeSvg b) (renderNodeSvg (mask_box b))"
  using alike_container alike_leaf by (simp add: renderNodeSvg_def)

lemma alike_badges: "alike Content Content (badges_svg x y bs) (badges_svg x' y' (map mask_badge bs))"
proof (induction bs arbitrary: x x')
  case (Cons b bs)
  have "plain_text (badge_kind_text k)" for k by (cases k) simp_all
  then show ?case
    unfolding list.map badges_svg.simps Let_def
    by (intro markup list.rel_intros Cons.IH) (simp_all add: mask_badge_def)
qed (simp add: alike_Nil)

lemma plain_text_edge_kind [simp]: "plain_text (edge_kind_text k)"
  by (cases k) simp_all

lemma mask_edge_sel [simp]:
  "ve_badges (el_edge (mask_edge r)) = map mask_badge (ve_badges (el_edge r))"
  "ve_edgeKind (el_edge (mask_edge r)) = ve_edgeKind (el_edge r)" "ve_dashed (el_edge (mask_edge r)) = ve_dashed (el_edge r)"
  "el_pathD (mask_edge r) = el_pathD r" "el_labelX (mask_edge r) = el_labelX r" "el_labelY (mask_edge r) = el_labelY r"
  by (simp_all add: mask_edge_def)

lemma alike_edge:
  assumes "plain_text (el_pathD r)"
  shows "alike Content Content (renderEdgeSvg r) (renderEdgeSvg (mask_edge r))"
  using assms unfolding renderEdgeSvg_def Let_def mask_edge_sel
  by (intro markup list.rel_intros alike_badges) simp_all

lemma alike_divider:
  "alike Content Content (divider_svg d) (divider_svg (d\<lparr>pl_parallelNodeId := i\<rparr>))"
  unfolding divider_svg_def by (intro markup list.rel_intros) simp_all

lemma alike_marker:
  assumes "plain_text (im_pathD m)"
  shows "alike Content Content (marker_svg m) (marker_svg (m\<lparr>im_ownerId := i, im_targetNodeId := j\<rparr>))"
  unfolding marker_svg_def by (intro markup list.rel_intros) (simp_all add: assms)

lemma alike_arrow:
  "plain_text k \<Longrightarrow> plain_text x \<Longrightarrow> plain_text s \<Longrightarrow> plain_text o' \<Longrightarrow> plain_text d \<Longrightarrow>
     alike Content Content (arrow_marker k x s o' d) (arrow_marker k x s o' d)"
  unfolding arrow_marker_def by (intro markup list.rel_intros) simp_all

lemma alike_defs [markup]: "alike Content Content arrow_markers arrow_markers"
  unfolding arrow_markers_def list.map concat.simps append_Nil2
  apply (intro markup alike_arrow) 
  apply (simp_all add: alike_def)
  done

lemma alike_layer [markup]:
  assumes "plain_text n" "list_all2 (alike Content Content) ss ts"
  shows "alike Content Content (layer_svg n ss) (layer_svg n ts)"
  unfolding layer_svg_def by (intro markup list.rel_intros) (simp_all add: assms alike_text)

definition paths_plain :: "layout_graph \<Rightarrow> bool" where
  "paths_plain l \<longleftrightarrow> (\<forall>m \<in> set (lg_initialMarkers l). plain_text (im_pathD m)) \<and>
     (\<forall>r \<in> set (lg_edges l). plain_text (el_pathD r))"

lemma alike_svg:
  assumes "paths_plain l"
  shows "alike Content Content (renderStatechartSvg l) (renderStatechartSvg (mask_layout l))"
proof -
  let ?k = "mask_layout l"
  have n: "list_all2 (alike Content Content) (map renderNodeSvg (lg_nodes l)) (map renderNodeSvg (lg_nodes ?k))"
    by (simp add: mask_layout_def list.rel_map list.rel_refl_strong alike_node)
  have d: "list_all2 (alike Content Content) (map divider_svg (lg_parallelDividers l))
      (map divider_svg (lg_parallelDividers ?k))"
    by (simp add: mask_layout_def list.rel_map list.rel_refl_strong alike_divider)
  have m: "list_all2 (alike Content Content) (map marker_svg (lg_initialMarkers l))
      (map marker_svg (lg_initialMarkers ?k))"
    using assms by (simp add: mask_layout_def list.rel_map list.rel_refl_strong alike_marker paths_plain_def)
  have e: "list_all2 (alike Content Content) (map renderEdgeSvg (lg_edges l)) (map renderEdgeSvg (lg_edges ?k))"
    using assms by (simp add: mask_layout_def list.rel_map list.rel_refl_strong alike_edge paths_plain_def)
  have s: "lg_width ?k = lg_width l" "lg_height ?k = lg_height l" by (simp_all add: mask_layout_def)
  show ?thesis
    unfolding renderStatechartSvg_def Let_def s by (intro markup list.rel_intros n d m e) simp_all
qed

section \<open>Paths are numbers\<close>

lemma plain_text_line [simp]: "plain_text (line_path a b c d)"
  by (simp add: line_path_def)

lemma plain_text_cubic [simp]: "plain_text (cubic_path p c d q)"
  by (cases p; cases c; cases d; cases q) (simp add: cubic_path_def)

lemma plain_text_route: "route_edge es m i = Some r \<Longrightarrow> plain_text (el_pathD r)"
  by (auto simp: route_edge_def Let_def self_loop_def downward_edge_def upward_edge_def sideways_edge_def
      curve_def split: option.splits if_splits)

lemma plain_text_markers: "m \<in> set (flatten_markers x y t) \<Longrightarrow> plain_text (im_pathD m)"
  by (induction x y t rule: flatten_markers.induct) (auto simp: marker_at_def Let_def split: option.splits)

lemma layout_paths_plain: "paths_plain (computeGraphLayout g)"
proof (cases "vg_rootNodes g = []")
  case False
  obtain roots divs marks w h where p: "place_roots g = (roots, divs, marks, w, h)" by (cases "place_roots g")
  have "plain_text (im_pathD m)" if "m \<in> set marks" for m
    using p that by (auto simp: place_roots_def Let_def root_marker_def split: ed_root_type.splits prod.splits option.splits)
  then show ?thesis using False
    by (auto simp: paths_plain_def computeGraphLayout_def p Let_def routeEdges_def List.map_filter_def
        dest: plain_text_route plain_text_markers)
qed (simp add: paths_plain_def computeGraphLayout_def)

section \<open>The header\<close>

lemma plain_text_plural [simp]: "plain_text (plural n)"
  by (simp add: plural_def)

lemma alike_pill [markup]:
  "plain_text k \<Longrightarrow> plain_text s \<Longrightarrow> plain_text t \<Longrightarrow> alike Content Content (pill k s) (pill k t)"
  unfolding pill_def by (intro markup list.rel_intros) (simp_all add: alike_text)

lemma alike_titled_pill [markup]:
  "plain_text k \<Longrightarrow> plain_text h \<Longrightarrow> plain_text s \<Longrightarrow> alike Content Content (titled_pill k h s) (titled_pill k h s)"
  unfolding titled_pill_def by (intro markup list.rel_intros) (simp_all add: alike_text)

lemma alike_choice [markup]:
  "alike m m s s' \<Longrightarrow> alike m m t t' \<Longrightarrow> alike m m (if c then s else t) (if c then s' else t')"
  by simp

lemma alike_namespace:
  "alike Content Content
     (case truthy x of None \<Rightarrow> [] | Some ns \<Rightarrow> pill ''meta-ns'' (''ns: '' @ escapeHtml ns))
     (case truthy (map_option mask x) of None \<Rightarrow> [] | Some ns \<Rightarrow> pill ''meta-ns'' (''ns: '' @ escapeHtml ns))"
  by (auto simp: truthy_def mask_def split: option.splits intro!: alike_pill alike_Nil)

lemma alike_header: "alike Content Content (renderHeaderMetaHtml g) (renderHeaderMetaHtml (mask_graph g))"
proof -
  have same: "vg_diagnostics (mask_graph g) = vg_diagnostics g" "vg_errorStateMode (mask_graph g) = vg_errorStateMode g"
    "vg_hooks (mask_graph g) = vg_hooks g" "vg_explicitStateCount (mask_graph g) = vg_explicitStateCount g"
    "vg_namespace (mask_graph g) = map_option mask (vg_namespace g)"
    by (simp_all add: mask_graph_def)
  show ?thesis unfolding renderHeaderMetaHtml_def Let_def same
    by (intro markup alike_namespace list.rel_intros) simp_all
qed

text \<open>What the entities stand for.\<close>

fun decode :: "string \<Rightarrow> string" where
  "decode [] = []"
| "decode (c # cs) =
     (if starts_with (c # cs) ''&amp;'' then CHR ''&'' # decode (drop 4 cs)
      else if starts_with (c # cs) ''&lt;'' then CHR ''<'' # decode (drop 3 cs)
      else if starts_with (c # cs) ''&gt;'' then CHR ''>'' # decode (drop 3 cs)
      else if starts_with (c # cs) ''&quot;'' then quote # decode (drop 5 cs)
      else if starts_with (c # cs) ''&#39;'' then apostrophe # decode (drop 4 cs)
      else c # decode cs)"

definition escape_char :: "char \<Rightarrow> string" where
  "escape_char c = (if c = CHR ''&'' then ''&amp;'' else if c = CHR ''<'' then ''&lt;''
     else if c = CHR ''>'' then ''&gt;'' else if c = quote then ''&quot;'' else if c = apostrophe then ''&#39;''
     else [c])"

lemma escape_each: "escapeHtml s = concat (map escape_char s)"
  unfolding escapeHtml_def by (induction s) (auto simp: replace_char_def escape_char_def)

lemma decode_escape: "decode (escapeHtml s) = s"
  unfolding escape_each by (induction s) (auto simp: escape_char_def starts_with_def)

section \<open>No text of a document becomes markup\<close>


end
