(* ===== verification/EditorSession.thy ===== *)
theory EditorSession
  imports EditorRender EditorProps
begin

text \<open>
  The extension's session (\<^verbatim>\<open>extension.ts\<close>): what \<open>activate\<close> keeps in its closure, one operation per
  handler it registers with VS Code, and the events of the editor as steps of a world of open
  documents. A document is its text as the \<^verbatim>\<open>yaml\<close> package reads it. What the handlers ask of the
  editor's API is recorded in the session: the diagnostic collection, the status bar, the page of the
  preview with the last payload and highlight sent to it, the selection and the notices. The starter
  templates, which only open a new document, are left out.
\<close>

section \<open>Values handed to the editor\<close>

record vs_range =
  vr_start :: "int \<times> int"
  vr_end :: "int \<times> int"

datatype vs_severity = VsError | VsWarning | VsInformation | VsHint

record vs_diagnostic =
  vd_range :: vs_range
  vd_message :: string
  vd_severity :: vs_severity
  vd_code :: string
  vd_source :: string

definition toVsCodeRange :: "source_range \<Rightarrow> vs_range" where
  "toVsCodeRange r = \<lparr>vr_start = (sr_startLine0 r, sr_startColumn0 r),
     vr_end = (sr_endLine0 r, max (sr_endColumn0 r) (sr_startColumn0 r + 1))\<rparr>"

fun toVsCodeSeverity :: "severity \<Rightarrow> vs_severity" where
  "toVsCodeSeverity SevError = VsError"
| "toVsCodeSeverity SevWarning = VsWarning"
| "toVsCodeSeverity SevInfo = VsInformation"
| "toVsCodeSeverity SevHint = VsHint"

definition toVsCodeDiagnostics :: "diagnostic list \<Rightarrow> vs_diagnostic list" where
  "toVsCodeDiagnostics ds = map (\<lambda>d. \<lparr>vd_range = toVsCodeRange (dg_range d), vd_message = dg_message d,
     vd_severity = toVsCodeSeverity (dg_severity d), vd_code = dg_code d, vd_source = ''dfsm''\<rparr>) ds"

section \<open>The session\<close>

record text_document =
  dc_uri :: string
  dc_fileName :: string
  dc_languageId :: string
  dc_text :: yaml_document

record preview_panel =
  pn_title :: string
  pn_payload :: update_payload
  pn_highlight :: "(string \<times> string option) option"

datatype notice = WarnNotice string | InfoNotice string | ErrorNotice string

text \<open>The two texts of the status bar's tooltip once a machine was shown differ in the error mode only.\<close>

datatype tooltip = OpenTooltip | ModeTooltip bool

record session =
  se_diagnostics :: "vs_diagnostic list dict"
  se_cache :: "analysis dict"
  se_statusText :: string
  se_tooltip :: tooltip
  se_statusShown :: bool
  se_isMachine :: bool
  se_panel :: "preview_panel option"
  se_tracked :: "string option"
  se_suppress :: bool
  se_selection :: "(string \<times> vs_range) option"
  se_notices :: "notice list"

type_synonym validate_fn = "jval \<Rightarrow> ajv_error list"

definition recognised :: "text_document \<Rightarrow> bool" where
  "recognised doc = dt_isDfsm (detectDfsmDocument \<lparr>di_fileName = dc_fileName doc,
     di_contents = yd_contents (dc_text doc), di_languageId = Some (dc_languageId doc)\<rparr>)"

definition remember :: "text_document \<Rightarrow> analysis \<Rightarrow> session \<Rightarrow> session" where
  "remember doc an s = s\<lparr>se_cache := AList.update (dc_uri doc) an (se_cache s),
     se_diagnostics := AList.update (dc_uri doc) (toVsCodeDiagnostics (an_diagnostics an)) (se_diagnostics s)\<rparr>"

definition forget :: "string \<Rightarrow> session \<Rightarrow> session" where
  "forget uri s = s\<lparr>se_diagnostics := AList.delete uri (se_diagnostics s), se_cache := AList.delete uri (se_cache s)\<rparr>"

text \<open>The analysis is present exactly when the document is recognised.\<close>

definition evaluateDocument :: "validate_fn \<Rightarrow> text_document \<Rightarrow> session \<Rightarrow> (analysis option \<times> session) option" where
  "evaluateDocument v doc s =
     (if \<not> recognised doc then Some (None, forget (dc_uri doc) s)
      else map_option (\<lambda>an. (Some an, remember doc an s)) (analyzeDfsmDocument v (dc_text doc)))"

definition status_text :: "analysis \<Rightarrow> string" where
  "status_text an = formatStatusBarText (Option.bind (an_machine an) pm_id)
     (case an_machine an of Some m \<Rightarrow> pm_explicitStateCount m | None \<Rightarrow> 0)"

definition custom_errors :: "analysis \<Rightarrow> bool" where
  "custom_errors an = (case an_machine an of Some m \<Rightarrow> pm_errorStateMode m = CustomError | None \<Rightarrow> False)"

definition payload_of :: "analysis \<Rightarrow> update_payload" where
  "payload_of an = buildVisualizerUpdatePayload (OfLayout (computeGraphLayout (buildVisualizerGraph an)))"

definition panel_title :: "analysis \<Rightarrow> string" where
  "panel_title an = ''DFSM Studio: '' @ vg_machineId (buildVisualizerGraph an)"

definition pushGraphToWebview ::
  "validate_fn \<Rightarrow> text_document \<Rightarrow> analysis option \<Rightarrow> session \<Rightarrow> session option" where
  "pushGraphToWebview v doc analysed s =
     (case se_panel s of None \<Rightarrow> Some s
      | Some p \<Rightarrow>
          map_option (\<lambda>an. s\<lparr>se_panel := Some (p\<lparr>pn_title := panel_title an, pn_payload := payload_of an\<rparr>)\<rparr>)
            (case analysed of Some an \<Rightarrow> Some an | None \<Rightarrow> analyzeDfsmDocument v (dc_text doc)))"

definition syncActiveEditorState :: "validate_fn \<Rightarrow> text_document option \<Rightarrow> session \<Rightarrow> session option" where
  "syncActiveEditorState v editor s =
     (case editor of
        None \<Rightarrow> Some (s\<lparr>se_isMachine := False, se_statusShown := False\<rparr>)
      | Some doc \<Rightarrow>
          (case evaluateDocument v doc s of None \<Rightarrow> None
           | Some (None, s1) \<Rightarrow> Some (s1\<lparr>se_isMachine := False, se_statusShown := False\<rparr>)
           | Some (Some an, s1) \<Rightarrow>
               let s2 = s1\<lparr>se_isMachine := True, se_statusText := status_text an,
                     se_tooltip := ModeTooltip (custom_errors an), se_statusShown := True\<rparr>
               in if se_panel s2 \<noteq> None \<and> se_tracked s2 \<noteq> Some (dc_uri doc)
                  then pushGraphToWebview v doc (Some an) (s2\<lparr>se_tracked := Some (dc_uri doc)\<rparr>)
                  else Some s2))"

text \<open>The page starts with the payload it is rendered from, later ones are sent to it.\<close>

definition openVisualizerForDocument :: "validate_fn \<Rightarrow> text_document \<Rightarrow> session \<Rightarrow> session option" where
  "openVisualizerForDocument v doc s =
     Option.bind (analyzeDfsmDocument v (dc_text doc)) (\<lambda>an.
       let s1 = (remember doc an s)\<lparr>se_tracked := Some (dc_uri doc)\<rparr> in
       if se_panel s1 \<noteq> None then pushGraphToWebview v doc (Some an) s1
       else Some (s1\<lparr>se_panel := Some \<lparr>pn_title = panel_title an, pn_payload = payload_of an,
         pn_highlight = None\<rparr>\<rparr>))"

definition notify :: "notice \<Rightarrow> session \<Rightarrow> session" where
  "notify n s = s\<lparr>se_notices := se_notices s @ [n]\<rparr>"

definition open_command :: "validate_fn \<Rightarrow> text_document option \<Rightarrow> session \<Rightarrow> session option" where
  "open_command v target s =
     (case target of
        None \<Rightarrow> Some (notify (WarnNotice ''Open a DFSM YAML machine definition first to launch the Statechart Visualizer.'') s)
      | Some doc \<Rightarrow> openVisualizerForDocument v doc s)"

definition outcome_notice :: "text_document \<Rightarrow> analysis \<Rightarrow> notice" where
  "outcome_notice doc an =
     (let idLabel = or_else (Option.bind (an_machine an) pm_id) (dc_fileName doc);
          warnings = show_nat (length (an_warnings an)) @ '' warning(s).''
      in if an_errors an = [] \<and> an_warnings an = []
         then InfoNotice (''DFSM '' @ quoted idLabel @ '' is valid ('' @
           show_nat (case an_machine an of Some m \<Rightarrow> pm_explicitStateCount m | None \<Rightarrow> 0) @ '' states, '' @
           (if custom_errors an then ''custom states.error'' else ''implicit final error'') @ '').'')
         else if an_errors an = []
         then WarnNotice (''DFSM '' @ quoted idLabel @ '' passed schema checks with '' @ warnings)
         else ErrorNotice (''DFSM '' @ quoted idLabel @ '' has '' @ show_nat (length (an_errors an)) @
           '' error(s) and '' @ warnings))"

definition validate_command :: "validate_fn \<Rightarrow> text_document option \<Rightarrow> session \<Rightarrow> session option" where
  "validate_command v editor s =
     (case editor of
        None \<Rightarrow> Some (notify (WarnNotice ''No active editor to validate as a DFSM machine.'') s)
      | Some doc \<Rightarrow> map_option (\<lambda>an. notify (outcome_notice doc an) (remember doc an s))
          (analyzeDfsmDocument v (dc_text doc)))"

definition on_open :: "validate_fn \<Rightarrow> text_document \<Rightarrow> text_document option \<Rightarrow> session \<Rightarrow> session option" where
  "on_open v doc editor s =
     Option.bind (evaluateDocument v doc s) (\<lambda>(an, s1).
       if map_option dc_uri editor = Some (dc_uri doc) then syncActiveEditorState v editor s1 else Some s1)"

definition on_change :: "validate_fn \<Rightarrow> text_document \<Rightarrow> text_document option \<Rightarrow> session \<Rightarrow> session option" where
  "on_change v doc editor s =
     Option.bind (evaluateDocument v doc s) (\<lambda>(analysed, s1).
       let s2 = (if map_option dc_uri editor = Some (dc_uri doc)
                 then (case analysed of
                         Some an \<Rightarrow> s1\<lparr>se_isMachine := True, se_statusText := status_text an, se_statusShown := True\<rparr>
                       | None \<Rightarrow> s1\<lparr>se_isMachine := False, se_statusShown := False\<rparr>)
                 else s1)
       in if se_panel s2 \<noteq> None \<and> se_tracked s2 = Some (dc_uri doc)
          then pushGraphToWebview v doc analysed s2 else Some s2)"

text \<open>A cursor is a line and a column from zero.\<close>

definition on_selection ::
  "validate_fn \<Rightarrow> text_document \<Rightarrow> (int \<times> int) option \<Rightarrow> session \<Rightarrow> session option" where
  "on_selection v doc cursor s =
     (case se_panel s of None \<Rightarrow> Some s
      | Some p \<Rightarrow>
          if se_suppress s \<or> se_tracked s \<noteq> Some (dc_uri doc) then Some s
          else
            map_option (\<lambda>cached.
              case (cursor, an_machine cached) of
                (Some (line, character), Some m) \<Rightarrow>
                  (case findStateAtPosition (Some m) (line + 1) (Some (character + 1)) of (statePath, transitionId) \<Rightarrow>
                     case truthy statePath of
                       Some path \<Rightarrow> s\<lparr>se_panel := Some (p\<lparr>pn_highlight := Some (path, transitionId)\<rparr>)\<rparr>
                     | None \<Rightarrow> s)
              | _ \<Rightarrow> s)
              (case map_of (se_cache s) (dc_uri doc) of Some an \<Rightarrow> Some an
               | None \<Rightarrow> analyzeDfsmDocument v (dc_text doc)))"

text \<open>A message of the page; the echo of the selection it makes is suppressed until a timer fires.\<close>

definition on_reveal :: "source_range option \<Rightarrow> session \<Rightarrow> session" where
  "on_reveal rng s =
     (case (rng, se_tracked s) of
        (Some r, Some uri) \<Rightarrow> s\<lparr>se_suppress := True, se_selection := Some (uri, toVsCodeRange r)\<rparr>
      | _ \<Rightarrow> s)"

definition on_timer :: "session \<Rightarrow> session" where
  "on_timer s = s\<lparr>se_suppress := False\<rparr>"

definition on_dispose :: "session \<Rightarrow> session" where
  "on_dispose s = s\<lparr>se_panel := None\<rparr>"

definition empty_session :: session where
  "empty_session = \<lparr>se_diagnostics = [], se_cache = [], se_statusText = [], se_tooltip = OpenTooltip,
     se_statusShown = False, se_isMachine = False, se_panel = None, se_tracked = None, se_suppress = False,
     se_selection = None, se_notices = []\<rparr>"

fun evaluate_all :: "validate_fn \<Rightarrow> text_document list \<Rightarrow> session \<Rightarrow> session option" where
  "evaluate_all v [] s = Some s"
| "evaluate_all v (doc # ds) s = Option.bind (evaluateDocument v doc s) (\<lambda>(an, s1). evaluate_all v ds s1)"

definition activate :: "validate_fn \<Rightarrow> text_document list \<Rightarrow> text_document option \<Rightarrow> session option" where
  "activate v docs editor = Option.bind (evaluate_all v docs empty_session) (syncActiveEditorState v editor)"

section \<open>The editor's events\<close>

text \<open>The open documents, the one in the active editor, and the session.\<close>

type_synonym editor_world = "(string \<rightharpoonup> text_document) \<times> string option \<times> session"

definition active_document :: "(string \<rightharpoonup> text_document) \<Rightarrow> string option \<Rightarrow> text_document option" where
  "active_document docs act = Option.bind act docs"

text \<open>
  Documents open, change and close, editors become active, the page of the preview is closed. \<open>again\<close>
  allows the document of an open preview to be opened again, after it was closed.
\<close>

inductive world_step :: "validate_fn \<Rightarrow> bool \<Rightarrow> editor_world \<Rightarrow> editor_world \<Rightarrow> bool" for v again where
  Opened: "docs (dc_uri doc) = None \<Longrightarrow> again \<or> se_panel s = None \<or> se_tracked s \<noteq> Some (dc_uri doc) \<Longrightarrow>
    docs' = docs(dc_uri doc \<mapsto> doc) \<Longrightarrow> on_open v doc (active_document docs' act) s = Some s' \<Longrightarrow>
    world_step v again (docs, act, s) (docs', act, s')"
| Changed: "docs (dc_uri doc) = Some old \<Longrightarrow> docs' = docs(dc_uri doc \<mapsto> doc) \<Longrightarrow>
    on_change v doc (active_document docs' act) s = Some s' \<Longrightarrow> world_step v again (docs, act, s) (docs', act, s')"
| Closed: "world_step v again (docs, act, s) (docs(uri := None), act, forget uri s)"
| Activated: "\<forall>uri. act' = Some uri \<longrightarrow> docs uri \<noteq> None \<Longrightarrow>
    syncActiveEditorState v (active_document docs act') s = Some s' \<Longrightarrow>
    world_step v again (docs, act, s) (docs, act', s')"
| Selected: "docs (dc_uri doc) = Some doc \<Longrightarrow> on_selection v doc cursor s = Some s' \<Longrightarrow>
    world_step v again (docs, act, s) (docs, act, s')"
| OpenPreview: "target = active_document docs act \<or> (\<exists>doc. target = Some doc \<and> docs (dc_uri doc) = Some doc) \<Longrightarrow>
    open_command v target s = Some s' \<Longrightarrow> world_step v again (docs, act, s) (docs, act, s')"
| Validated: "validate_command v (active_document docs act) s = Some s' \<Longrightarrow>
    world_step v again (docs, act, s) (docs, act, s')"
| Revealed: "world_step v again (docs, act, s) (docs, act, on_reveal rng s)"
| Timer: "world_step v again (docs, act, s) (docs, act, on_timer s)"
| Disposed: "world_step v again (docs, act, s) (docs, act, on_dispose s)"

definition docs_of :: "text_document list \<Rightarrow> string \<rightharpoonup> text_document" where
  "docs_of ds = map_of (map (\<lambda>d. (dc_uri d, d)) ds)"

definition world_reach :: "validate_fn \<Rightarrow> bool \<Rightarrow> editor_world \<Rightarrow> bool" where
  "world_reach v again w \<longleftrightarrow> (\<exists>ds act s. distinct (map dc_uri ds) \<and>
     (\<forall>uri. act = Some uri \<longrightarrow> uri \<in> dc_uri ` set ds) \<and>
     activate v ds (active_document (docs_of ds) act) = Some s \<and>
     (world_step v again)\<^sup>*\<^sup>* (docs_of ds, act, s) w)"

section \<open>What a session promises\<close>

text \<open>The diagnostics and the cached analysis of one document.\<close>

definition problems_of :: "validate_fn \<Rightarrow> text_document option \<Rightarrow> vs_diagnostic list option \<Rightarrow> analysis option \<Rightarrow> bool" where
  "problems_of v doc ds cached \<longleftrightarrow>
     ds = map_option (\<lambda>an. toVsCodeDiagnostics (an_diagnostics an)) cached \<and>
     (case doc of
        None \<Rightarrow> cached = None
      | Some d \<Rightarrow> (case cached of None \<Rightarrow> \<not> recognised d | Some an \<Rightarrow> analyzeDfsmDocument v (dc_text d) = Some an))"

definition problems_current :: "validate_fn \<Rightarrow> (string \<rightharpoonup> text_document) \<Rightarrow> session \<Rightarrow> bool" where
  "problems_current v docs s \<longleftrightarrow>
     (\<forall>uri. problems_of v (docs uri) (map_of (se_diagnostics s) uri) (map_of (se_cache s) uri))"

abbreviation problems_at :: "validate_fn \<Rightarrow> (string \<rightharpoonup> text_document) \<Rightarrow> session \<Rightarrow> string \<Rightarrow> bool" where
  "problems_at v docs s uri \<equiv> problems_of v (docs uri) (map_of (se_diagnostics s) uri) (map_of (se_cache s) uri)"

definition uris_ok :: "(string \<rightharpoonup> text_document) \<Rightarrow> bool" where
  "uris_ok docs \<longleftrightarrow> (\<forall>uri doc. docs uri = Some doc \<longrightarrow> dc_uri doc = uri)"

definition page_of :: "validate_fn \<Rightarrow> text_document \<Rightarrow> preview_panel \<Rightarrow> bool" where
  "page_of v doc p \<longleftrightarrow> (\<exists>an. analyzeDfsmDocument v (dc_text doc) = Some an \<and> pn_payload p = payload_of an \<and>
     pn_title p = panel_title an)"

definition preview_current :: "validate_fn \<Rightarrow> (string \<rightharpoonup> text_document) \<Rightarrow> session \<Rightarrow> bool" where
  "preview_current v docs s \<longleftrightarrow> (\<forall>p. se_panel s = Some p \<longrightarrow>
     (case se_tracked s of None \<Rightarrow> False | Some uri \<Rightarrow> \<forall>doc. docs uri = Some doc \<longrightarrow> page_of v doc p))"

definition status_of :: "validate_fn \<Rightarrow> text_document option \<Rightarrow> session \<Rightarrow> bool" where
  "status_of v editor s \<longleftrightarrow> (case editor of
     None \<Rightarrow> \<not> se_isMachine s \<and> \<not> se_statusShown s
   | Some doc \<Rightarrow> se_isMachine s = recognised doc \<and> se_statusShown s = recognised doc \<and>
       (recognised doc \<longrightarrow> (\<exists>an. analyzeDfsmDocument v (dc_text doc) = Some an \<and> se_statusText s = status_text an)))"

text \<open>The status bar belongs to the active document as long as that is open.\<close>

definition status_current :: "validate_fn \<Rightarrow> (string \<rightharpoonup> text_document) \<Rightarrow> string option \<Rightarrow> session \<Rightarrow> bool" where
  "status_current v docs act s \<longleftrightarrow>
     (case act of None \<Rightarrow> status_of v None s
      | Some uri \<Rightarrow> docs uri \<noteq> None \<longrightarrow> status_of v (docs uri) s)"

section \<open>Evaluation\<close>

lemmas map_of_dict = update_conv' delete_conv'

lemma remember_at:
  assumes "analyzeDfsmDocument v (dc_text doc) = Some an" "docs (dc_uri doc) = Some doc"
    "uri \<noteq> dc_uri doc \<Longrightarrow> problems_at v docs s uri"
  shows "problems_at v docs (remember doc an s) uri"
  using assms by (auto simp: problems_of_def remember_def map_of_dict)

lemma forget_at:
  assumes "\<And>d. docs u = Some d \<Longrightarrow> \<not> recognised d" "uri \<noteq> u \<Longrightarrow> problems_at v docs s uri"
  shows "problems_at v docs (forget u s) uri"
  using assms by (auto simp: problems_of_def forget_def map_of_dict split: option.splits)

lemma evaluate_cases:
  assumes "evaluateDocument v doc s = Some (analysed, s')"
  obtains "\<not> recognised doc" "analysed = None" "s' = forget (dc_uri doc) s"
  | an where "recognised doc" "analysed = Some an" "analyzeDfsmDocument v (dc_text doc) = Some an"
      "s' = remember doc an s"
  using assms by (auto simp: evaluateDocument_def split: if_splits)

lemma evaluate_at:
  assumes "evaluateDocument v doc s = Some (analysed, s')" "docs (dc_uri doc) = Some doc"
    and "uri \<noteq> dc_uri doc \<Longrightarrow> problems_at v docs s uri"
  shows "problems_at v docs s' uri"
  using assms(1)
proof (cases rule: evaluate_cases)
  case 1
  then show ?thesis using forget_at [of docs "dc_uri doc" uri v s] assms(2,3) by simp
next
  case (2 an)
  then show ?thesis using remember_at [of v doc an docs uri s] assms(2,3) by simp
qed

lemma evaluate_problems:
  assumes "evaluateDocument v doc s = Some (analysed, s')" "docs (dc_uri doc) = Some doc"
    and "\<And>uri. uri \<noteq> dc_uri doc \<Longrightarrow> problems_at v docs s uri"
  shows "problems_current v docs s'"
  using evaluate_at [of v doc s analysed s' docs] assms by (simp add: problems_current_def)

lemma evaluate_rest:
  assumes "evaluateDocument v doc s = Some (analysed, s')"
  shows "se_panel s' = se_panel s" "se_tracked s' = se_tracked s" "se_isMachine s' = se_isMachine s"
    "se_statusShown s' = se_statusShown s" "se_statusText s' = se_statusText s"
  using assms by (auto simp: remember_def forget_def elim: evaluate_cases)

lemma evaluate_total: "\<exists>analysed s'. evaluateDocument v doc s = Some (analysed, s')"
  using analysis_total [of v "dc_text doc"] by (auto simp: evaluateDocument_def)

section \<open>The preview\<close>

lemma push_cases:
  assumes "pushGraphToWebview v doc analysed s = Some s'"
    "\<And>an. analysed = Some an \<Longrightarrow> analyzeDfsmDocument v (dc_text doc) = Some an"
  obtains p where "s' = s\<lparr>se_panel := p\<rparr>" "p = None \<longleftrightarrow> se_panel s = None" "\<And>q. p = Some q \<Longrightarrow> page_of v doc q"
proof (cases "se_panel s")
  case None
  then show ?thesis using assms that [of "se_panel s"] by (simp add: pushGraphToWebview_def)
next
  case (Some q)
  then obtain an where "s' = s\<lparr>se_panel := Some (q\<lparr>pn_title := panel_title an, pn_payload := payload_of an\<rparr>)\<rparr>"
    "analyzeDfsmDocument v (dc_text doc) = Some an"
    using assms by (auto simp: pushGraphToWebview_def split: option.splits)
  then show ?thesis using Some that [of "Some (q\<lparr>pn_title := panel_title an, pn_payload := payload_of an\<rparr>)"]
    by (auto simp: page_of_def)
qed

lemma push_total: "\<exists>s'. pushGraphToWebview v doc analysed s = Some s'"
  using analysis_total [of v "dc_text doc"] by (auto simp: pushGraphToWebview_def split: option.splits)

lemma sync_keeps:
  assumes "syncActiveEditorState v editor s = Some s'" "\<And>doc. editor = Some doc \<Longrightarrow> docs (dc_uri doc) = Some doc"
    and "problems_current v docs s"
  shows "problems_current v docs s' \<and> status_of v editor s' \<and> (preview_current v docs s \<longrightarrow> preview_current v docs s')"
proof (cases editor)
  case None
  then show ?thesis using assms
    by (auto simp: syncActiveEditorState_def problems_current_def preview_current_def status_of_def)
next
  case (Some doc)
  note d = assms(2) [OF Some]
  obtain analysed s1 where e: "evaluateDocument v doc s = Some (analysed, s1)"
    using evaluate_total by blast
  have p1: "problems_current v docs s1"
    using evaluate_problems [OF e, of docs] d assms(3) by (simp add: problems_current_def)
  note r1 = evaluate_rest [OF e]
  show ?thesis
    using e
  proof (cases rule: evaluate_cases)
    case 1
    then show ?thesis using assms(1) Some e p1 r1
      by (auto simp: syncActiveEditorState_def problems_current_def preview_current_def status_of_def)
  next
    case (2 an)
    let ?s2 = "s1\<lparr>se_isMachine := True, se_statusText := status_text an,
      se_tooltip := ModeTooltip (custom_errors an), se_statusShown := True\<rparr>"
    have st: "status_of v editor s'" "problems_current v docs s'"
      if "\<exists>p t. s' = ?s2\<lparr>se_tracked := t, se_panel := p\<rparr>" using that 2 Some p1
      by (auto simp: status_of_def problems_current_def)
    show ?thesis
    proof (cases "se_panel s \<noteq> None \<and> se_tracked s \<noteq> Some (dc_uri doc)")
      case True
      then have "pushGraphToWebview v doc (Some an) (?s2\<lparr>se_tracked := Some (dc_uri doc)\<rparr>) = Some s'"
        using assms(1) Some e 2 r1 by (simp add: syncActiveEditorState_def)
      then obtain p where p: "s' = ?s2\<lparr>se_tracked := Some (dc_uri doc), se_panel := p\<rparr>"
        "\<And>q. p = Some q \<Longrightarrow> page_of v doc q" by (rule push_cases) (use 2 in simp_all)
      then have "preview_current v docs s'" using d by (simp add: preview_current_def)
      then show ?thesis using st p(1) by blast
    next
      case False
      then have s': "s' = ?s2" using assms(1) Some e 2 r1 by (auto simp: syncActiveEditorState_def)
      then have "s' = ?s2\<lparr>se_tracked := se_tracked s1, se_panel := se_panel s1\<rparr>" by simp
      moreover have "preview_current v docs s \<longrightarrow> preview_current v docs s'"
        using s' r1 by (simp add: preview_current_def)
      ultimately show ?thesis using st by blast
    qed
  qed
qed

section \<open>The handlers\<close>

lemma session_frame [simp]:
  "problems_current v docs (s\<lparr>se_panel := p\<rparr>) = problems_current v docs s"
  "problems_current v docs (s\<lparr>se_tracked := t\<rparr>) = problems_current v docs s"
  "problems_current v docs (s\<lparr>se_notices := ns\<rparr>) = problems_current v docs s"
  "problems_current v docs (s\<lparr>se_suppress := b\<rparr>) = problems_current v docs s"
  "problems_current v docs (s\<lparr>se_selection := r\<rparr>) = problems_current v docs s"
  "preview_current v docs (s\<lparr>se_notices := ns\<rparr>) = preview_current v docs s"
  "preview_current v docs (s\<lparr>se_suppress := b\<rparr>) = preview_current v docs s"
  "preview_current v docs (s\<lparr>se_selection := r\<rparr>) = preview_current v docs s"
  "preview_current v docs (s\<lparr>se_panel := None\<rparr>)"
  "preview_current v docs (remember doc an s) = preview_current v docs s"
  "preview_current v docs (forget u s) = preview_current v docs s"
  by (simp_all add: problems_current_def preview_current_def remember_def forget_def)

lemma status_same:
  "se_isMachine s' = se_isMachine s \<Longrightarrow> se_statusShown s' = se_statusShown s \<Longrightarrow> se_statusText s' = se_statusText s \<Longrightarrow>
     status_current v docs act s' = status_current v docs act s"
  by (auto simp: status_current_def status_of_def split: option.splits)

lemma status_frame [simp]:
  "status_current v docs act (s\<lparr>se_panel := p\<rparr>) = status_current v docs act s"
  "status_current v docs act (s\<lparr>se_tracked := t\<rparr>) = status_current v docs act s"
  "status_current v docs act (s\<lparr>se_notices := ns\<rparr>) = status_current v docs act s"
  "status_current v docs act (s\<lparr>se_suppress := b\<rparr>) = status_current v docs act s"
  "status_current v docs act (s\<lparr>se_selection := r\<rparr>) = status_current v docs act s"
  "status_current v docs act (remember doc an s) = status_current v docs act s"
  "status_current v docs act (forget u s) = status_current v docs act s"
  by (rule status_same; simp add: remember_def forget_def)+

lemma active_uri: "uris_ok docs \<Longrightarrow> active_document docs act = Some doc \<Longrightarrow> docs (dc_uri doc) = Some doc \<and> act = Some (dc_uri doc)"
  by (auto simp: active_document_def uris_ok_def Option.bind_eq_Some_conv)

lemma status_current_active:
  "status_of v (active_document docs act) s \<Longrightarrow> status_current v docs act s"
  by (cases act) (simp_all add: status_current_def active_document_def)

lemma open_keeps:
  assumes "on_open v doc (active_document docs act) s = Some s'" "uris_ok docs" "docs (dc_uri doc) = Some doc"
    and "\<And>uri. uri \<noteq> dc_uri doc \<Longrightarrow> problems_at v docs s uri"
    and "act \<noteq> Some (dc_uri doc) \<Longrightarrow> status_current v docs act s"
  shows "problems_current v docs s'" "status_current v docs act s'" "preview_current v docs s \<Longrightarrow> preview_current v docs s'"
proof -
  let ?e = "active_document docs act"
  obtain analysed s1 where e: "evaluateDocument v doc s = Some (analysed, s1)"
    and h: "(if map_option dc_uri ?e = Some (dc_uri doc) then syncActiveEditorState v ?e s1 else Some s1) = Some s'"
    using assms(1) by (auto simp: on_open_def Option.bind_eq_Some_conv)
  note p1 = evaluate_problems [OF e, of docs] and r1 = evaluate_rest [OF e]
  have "problems_current v docs s' \<and> status_current v docs act s' \<and> (preview_current v docs s \<longrightarrow> preview_current v docs s')"
  proof (cases "act = Some (dc_uri doc)")
    case True
    then have "?e = Some doc" using assms(3) by (simp add: active_document_def)
    then have "syncActiveEditorState v ?e s1 = Some s'" using h by simp
    from sync_keeps [OF this, of docs] active_uri [OF assms(2), of act] p1 assms(3,4) r1 status_current_active [of v docs act s']
    show ?thesis by (simp add: preview_current_def)
  next
    case False
    then have s': "s' = s1" using h active_uri [OF assms(2), of act] by (cases ?e) auto
    have "status_current v docs act s'"
      using assms(5) [OF False] s' r1 by (auto simp: status_current_def status_of_def split: option.splits)
    with s' p1 assms(3,4) r1 show ?thesis by (simp add: preview_current_def)
  qed
  then show "problems_current v docs s'" "status_current v docs act s'" "preview_current v docs s \<Longrightarrow> preview_current v docs s'"
    by blast+
qed

lemma change_keeps:
  assumes "on_change v doc (active_document docs act) s = Some s'" "uris_ok docs" "docs (dc_uri doc) = Some doc"
    and "\<And>uri. uri \<noteq> dc_uri doc \<Longrightarrow> problems_at v docs s uri"
    and "act \<noteq> Some (dc_uri doc) \<Longrightarrow> status_current v docs act s"
  shows "problems_current v docs s' \<and> status_current v docs act s' \<and>
    (se_tracked s = Some (dc_uri doc) \<or> preview_current v docs s \<longrightarrow> preview_current v docs s')"
proof -
  let ?e = "active_document docs act"
  obtain analysed s1 where e: "evaluateDocument v doc s = Some (analysed, s1)"
    using evaluate_total by blast
  define s2 where "s2 = (if map_option dc_uri ?e = Some (dc_uri doc)
      then (case analysed of
         Some an \<Rightarrow> s1\<lparr>se_isMachine := True, se_statusText := status_text an, se_statusShown := True\<rparr>
       | None \<Rightarrow> s1\<lparr>se_isMachine := False, se_statusShown := False\<rparr>)
      else s1)"
  have h: "(if se_panel s2 \<noteq> None \<and> se_tracked s2 = Some (dc_uri doc) then pushGraphToWebview v doc analysed s2 else Some s2) = Some s'"
    using assms(1) unfolding on_change_def e
    by (simp only: Option.bind.bind_lunit prod.case Let_def s2_def [symmetric])
  note r1 = evaluate_rest [OF e]
  have an: "analyzeDfsmDocument v (dc_text doc) = Some an" if "analysed = Some an" for an
    using e that by (auto elim: evaluate_cases)
  have p1: "problems_current v docs s1" using evaluate_problems [OF e, of docs] assms(3,4) by simp
  have p2: "problems_current v docs s2" "se_panel s2 = se_panel s" "se_tracked s2 = se_tracked s"
    using p1 r1 by (auto simp: s2_def problems_current_def split: option.splits)
  have st: "status_current v docs act s2"
  proof (cases "act = Some (dc_uri doc)")
    case True
    then have "?e = Some doc" using assms(3) by (simp add: active_document_def)
    then have "status_of v ?e s2" using e an
      by (auto simp: s2_def status_of_def split: option.splits elim: evaluate_cases)
    then show ?thesis by (rule status_current_active)
  next
    case False
    then have "s2 = s1" using active_uri [OF assms(2), of act] by (cases ?e) (auto simp: s2_def)
    then show ?thesis using assms(5) [OF False] r1
      by (auto simp: status_current_def status_of_def split: option.splits)
  qed
  show ?thesis
  proof (cases "se_panel s2 \<noteq> None \<and> se_tracked s2 = Some (dc_uri doc)")
    case True
    then have "pushGraphToWebview v doc analysed s2 = Some s'" using h by simp
    then obtain p where p: "s' = s2\<lparr>se_panel := p\<rparr>" "\<And>q. p = Some q \<Longrightarrow> page_of v doc q"
      by (rule push_cases) (use an in auto)
    moreover have "preview_current v docs s'" using p True assms(3) by (auto simp: preview_current_def)
    ultimately show ?thesis using p2 st by simp
  next
    case False
    then have "s' = s2" using h by auto
    then show ?thesis using p2 st False
      by (cases "se_tracked s = Some (dc_uri doc)") (auto simp: preview_current_def)
  qed
qed

text \<open>What only the page, the selection or the notices show changes none of the three.\<close>

lemma selection_cases:
  assumes "on_selection v doc cursor s = Some s'"
  shows "s' = s \<or> (\<exists>p h. se_panel s = Some p \<and> s' = s\<lparr>se_panel := Some (p\<lparr>pn_highlight := h\<rparr>)\<rparr>)"
proof (cases "se_panel s")
  case None
  then show ?thesis using assms by (simp add: on_selection_def)
next
  case (Some p)
  have "\<exists>an. (case map_of (se_cache s) (dc_uri doc) of Some an \<Rightarrow> Some an
      | None \<Rightarrow> analyzeDfsmDocument v (dc_text doc)) = Some an"
    using analysis_total [of v "dc_text doc"] by (cases "map_of (se_cache s) (dc_uri doc)") simp_all
  then obtain an where an: "(case map_of (se_cache s) (dc_uri doc) of Some an \<Rightarrow> Some an
      | None \<Rightarrow> analyzeDfsmDocument v (dc_text doc)) = Some an" by blast
  show ?thesis
    using assms unfolding on_selection_def Some an option.case option.map
    by (auto split: if_splits option.splits prod.splits)
qed

lemma remember_keeps:
  assumes "analyzeDfsmDocument v (dc_text doc) = Some an" "docs (dc_uri doc) = Some doc" "problems_current v docs s"
  shows "problems_current v docs (remember doc an s)"
  using remember_at [of v doc an docs _ s] assms by (simp add: problems_current_def)

lemma preview_opened:
  assumes "openVisualizerForDocument v doc s = Some s'" "docs (dc_uri doc) = Some doc" "problems_current v docs s"
  shows "problems_current v docs s' \<and> preview_current v docs s' \<and> (status_current v docs act s \<longrightarrow> status_current v docs act s')"
proof -
  obtain an where an: "analyzeDfsmDocument v (dc_text doc) = Some an" using analysis_total by blast
  let ?s1 = "(remember doc an s)\<lparr>se_tracked := Some (dc_uri doc)\<rparr>"
  have "\<exists>p. s' = ?s1\<lparr>se_panel := Some p\<rparr> \<and> page_of v doc p"
  proof (cases "se_panel ?s1")
    case None
    then show ?thesis using assms(1) an by (auto simp: openVisualizerForDocument_def page_of_def Let_def)
  next
    case (Some q)
    then have "pushGraphToWebview v doc (Some an) ?s1 = Some s'"
      using assms(1) an by (simp add: openVisualizerForDocument_def Let_def)
    then obtain p where p: "s' = ?s1\<lparr>se_panel := p\<rparr>" "p = None \<longleftrightarrow> se_panel ?s1 = None"
      "\<And>q. p = Some q \<Longrightarrow> page_of v doc q" by (rule push_cases) (use an in auto)
    then show ?thesis using Some by auto
  qed
  then obtain p where p: "s' = ?s1\<lparr>se_panel := Some p\<rparr>" "page_of v doc p" by blast
  moreover have "preview_current v docs s'" using p assms(2) by (simp add: preview_current_def)
  ultimately show ?thesis using remember_keeps [OF an assms(2,3)]
    by simp
qed

section \<open>Reachable sessions\<close>

definition session_ok :: "validate_fn \<Rightarrow> bool \<Rightarrow> editor_world \<Rightarrow> bool" where
  "session_ok v again w \<longleftrightarrow> (case w of (docs, act, s) \<Rightarrow>
     uris_ok docs \<and> problems_current v docs s \<and> status_current v docs act s \<and> (\<not> again \<longrightarrow> preview_current v docs s))"

lemma docs_update:
  assumes "uris_ok docs" "docs' = docs(dc_uri doc \<mapsto> doc)"
  shows "uris_ok docs'" "docs' (dc_uri doc) = Some doc"
    "problems_current v docs s \<Longrightarrow> uri \<noteq> dc_uri doc \<Longrightarrow> problems_at v docs' s uri"
    "status_current v docs act s \<Longrightarrow> act \<noteq> Some (dc_uri doc) \<Longrightarrow> status_current v docs' act s"
    "preview_current v docs s \<Longrightarrow> se_panel s = None \<or> se_tracked s \<noteq> Some (dc_uri doc) \<Longrightarrow> preview_current v docs' s"
  using assms by (auto simp: uris_ok_def problems_current_def status_current_def preview_current_def split: option.splits)

lemma step_keeps:
  assumes "world_step v again w w'" "session_ok v again w"
  shows "session_ok v again w'"
  using assms
proof (cases rule: world_step.cases)
  case (Opened docs doc s docs' act s')
  then have s: "uris_ok docs" "problems_current v docs s" "status_current v docs act s" "\<not> again \<Longrightarrow> preview_current v docs s"
    using assms(2) by (simp_all add: session_ok_def)
  note d = docs_update [OF s(1) Opened(5)]
  note k = open_keeps [OF Opened(6) d(1,2,3) d(4), OF s(2) _ s(3)]
  have "\<not> again \<Longrightarrow> preview_current v docs' s'"
    using k(3) d(5) s(4) Opened(4) by blast
  then show ?thesis using Opened(2) k(1,2) d(1) by (simp add: session_ok_def)
next
  case (Changed docs doc old docs' act s s')
  then have s: "uris_ok docs" "problems_current v docs s" "status_current v docs act s" "\<not> again \<Longrightarrow> preview_current v docs s"
    using assms(2) by (simp_all add: session_ok_def)
  note d = docs_update [OF s(1) Changed(4)]
  note k = change_keeps [OF Changed(5) d(1,2,3) d(4), OF s(2) _ s(3)]
  have "\<not> again \<Longrightarrow> preview_current v docs' s'"
    using k d(5) s(4) by blast
  then show ?thesis using Changed(2) k d(1) by (simp add: session_ok_def)
next
  case (Closed docs act s uri)
  then have s: "uris_ok docs" "problems_current v docs s" "status_current v docs act s" "\<not> again \<Longrightarrow> preview_current v docs s"
    using assms(2) by (simp_all add: session_ok_def)
  have "problems_current v (docs(uri := None)) (forget uri s)"
    using s(2) forget_at [of "docs(uri := None)" uri _ v s] by (simp add: problems_current_def)
  moreover have "status_current v (docs(uri := None)) act s"
    using s(3) by (auto simp: status_current_def split: option.splits)
  moreover have "preview_current v docs s \<Longrightarrow> preview_current v (docs(uri := None)) s"
    by (auto simp: preview_current_def split: option.splits)
  moreover have "uris_ok (docs(uri := None))" using s(1) by (simp add: uris_ok_def)
  ultimately show ?thesis using Closed(1,2) s(4) by (simp add: session_ok_def)
next
  case (Activated act' docs s s' act)
  then have s: "uris_ok docs" "problems_current v docs s" "\<not> again \<Longrightarrow> preview_current v docs s"
    using assms(2) by (simp_all add: session_ok_def)
  have "problems_current v docs s' \<and> status_of v (active_document docs act') s' \<and> (preview_current v docs s \<longrightarrow> preview_current v docs s')"
    by (rule sync_keeps [OF Activated(4) _ s(2)]) (use active_uri [OF s(1)] in blast)
  then show ?thesis using Activated(2) s status_current_active by (simp add: session_ok_def)
next
  case (Selected docs doc cursor s s' act)
  then show ?thesis using assms(2) selection_cases [OF Selected(4)]
    by (auto simp: session_ok_def preview_current_def page_of_def split: option.splits)
next
  case (OpenPreview target docs act s s')
  show ?thesis
  proof (cases target)
    case None
    then show ?thesis using OpenPreview assms(2) by (auto simp: open_command_def notify_def session_ok_def)
  next
    case (Some doc)
    have s: "uris_ok docs" "problems_current v docs s" "status_current v docs act s"
      using OpenPreview(1) assms(2) by (simp_all add: session_ok_def)
    have "docs (dc_uri doc) = Some doc" using OpenPreview(3) Some active_uri [OF s(1)] by auto
    then show ?thesis using preview_opened [of v doc s s' docs act] OpenPreview Some s
      by (simp add: open_command_def session_ok_def)
  qed
next
  case (Validated docs act s s')
  have s: "uris_ok docs" "problems_current v docs s" using Validated(1) assms(2) by (simp_all add: session_ok_def)
  show ?thesis
  proof (cases "active_document docs act")
    case None
    then show ?thesis using Validated assms(2) by (auto simp: validate_command_def notify_def session_ok_def)
  next
    case (Some doc)
    then obtain an where an: "analyzeDfsmDocument v (dc_text doc) = Some an" "s' = notify (outcome_notice doc an) (remember doc an s)"
      using Validated(3) by (auto simp: validate_command_def)
    from remember_keeps [OF an(1) _ s(2)] active_uri [OF s(1) Some] an(2)
    show ?thesis using Validated(1,2) assms(2) by (simp add: session_ok_def notify_def)
  qed
next
  case (Revealed docs act s rng)
  then show ?thesis using assms(2)
    by (auto simp: session_ok_def on_reveal_def problems_current_def preview_current_def split: option.splits)
next
  case (Timer docs act s)
  then show ?thesis using assms(2) by (simp add: session_ok_def on_timer_def)
next
  case (Disposed docs act s)
  then show ?thesis using assms(2) by (simp add: session_ok_def on_dispose_def)
qed

lemma evaluate_all_keeps:
  assumes "evaluate_all v ds s = Some s'" "\<And>d. d \<in> set ds \<Longrightarrow> docs (dc_uri d) = Some d"
    and "\<And>uri. uri \<notin> dc_uri ` set ds \<Longrightarrow> problems_at v docs s uri"
  shows "problems_current v docs s' \<and> se_panel s' = se_panel s"
  using assms
proof (induction v ds s rule: evaluate_all.induct)
  case (1 v s)
  then show ?case by (simp add: problems_current_def)
next
  case (2 v d ds s)
  then obtain analysed s1 where e: "evaluateDocument v d s = Some (analysed, s1)" "evaluate_all v ds s1 = Some s'"
    by (auto simp: Option.bind_eq_Some_conv)
  have "problems_at v docs s1 uri" if "uri \<notin> dc_uri ` set ds" for uri
    by (rule evaluate_at [OF e(1)]) (use "2.prems"(2,3) that in auto)
  then show ?case using "2.IH" [OF e(1) refl e(2)] "2.prems"(2) evaluate_rest(1) [OF e(1)] by simp
qed

lemma docs_of_iff: "distinct (map dc_uri ds) \<Longrightarrow> docs_of ds uri = Some d \<longleftrightarrow> d \<in> set ds \<and> dc_uri d = uri"
  by (auto simp: docs_of_def comp_def map_of_eq_Some_iff)

lemma activate_ok:
  assumes "activate v ds (active_document (docs_of ds) act) = Some s" "distinct (map dc_uri ds)"
    "\<And>uri. act = Some uri \<Longrightarrow> uri \<in> dc_uri ` set ds"
  shows "session_ok v again (docs_of ds, act, s)"
proof -
  let ?docs = "docs_of ds"
  obtain s1 where e: "evaluate_all v ds empty_session = Some s1"
    "syncActiveEditorState v (active_document ?docs act) s1 = Some s"
    using assms(1) by (auto simp: activate_def Option.bind_eq_Some_conv)
  have u: "uris_ok ?docs" by (simp add: uris_ok_def docs_of_iff [OF assms(2)])
  have "problems_current v ?docs s1 \<and> se_panel s1 = se_panel empty_session"
  proof (rule evaluate_all_keeps [OF e(1)])
    fix uri assume "uri \<notin> dc_uri ` set ds"
    then have "?docs uri = None" by (metis docs_of_iff [OF assms(2)] imageI option.exhaust)
    then show "problems_at v ?docs empty_session uri" by (simp add: problems_of_def empty_session_def)
  qed (simp add: docs_of_iff [OF assms(2)])
  moreover from this have "preview_current v ?docs s1" by (simp add: preview_current_def empty_session_def)
  moreover have "docs_of ds (dc_uri doc) = Some doc" if "active_document ?docs act = Some doc" for doc
    using active_uri [OF u that] by blast
  ultimately show ?thesis using sync_keeps [OF e(2), of ?docs] status_current_active u by (simp add: session_ok_def)
qed

text \<open>Every handler returns: no event is left unanswered.\<close>

lemma sync_total: "\<exists>s'. syncActiveEditorState v editor s = Some s'"
proof (cases editor)
  case (Some doc)
  obtain analysed s1 where e: "evaluateDocument v doc s = Some (analysed, s1)" using evaluate_total by blast
  show ?thesis
  proof (cases analysed)
    case (Some an)
    then show ?thesis using \<open>editor = Some doc\<close> e push_total [of v doc "Some an"]
      by (auto simp: syncActiveEditorState_def Let_def)
  qed (use Some e in \<open>simp add: syncActiveEditorState_def\<close>)
qed (simp add: syncActiveEditorState_def)

lemma evaluate_all_total: "\<exists>s'. evaluate_all v ds s = Some s'"
proof (induction ds arbitrary: s)
  case (Cons d ds)
  obtain analysed s1 where "evaluateDocument v d s = Some (analysed, s1)" using evaluate_total by blast
  then show ?case using Cons by simp
qed simp

lemma handlers_return:
  "\<exists>s'. activate v ds editor = Some s'" "\<exists>s'. on_open v doc editor s = Some s'" "\<exists>s'. on_change v doc editor s = Some s'"
  "\<exists>s'. on_selection v doc cursor s = Some s'" "\<exists>s'. open_command v editor s = Some s'"
  "\<exists>s'. validate_command v editor s = Some s'"
proof -
  obtain analysed s1 where e: "evaluateDocument v doc s = Some (analysed, s1)" using evaluate_total by blast
  obtain an where an: "analyzeDfsmDocument v (dc_text doc) = Some an" using analysis_total by blast
  obtain s2 where "evaluate_all v ds empty_session = Some s2" using evaluate_all_total by blast
  then show "\<exists>s'. activate v ds editor = Some s'" using sync_total by (simp add: activate_def)
  show "\<exists>s'. on_open v doc editor s = Some s'" using e sync_total by (simp add: on_open_def)
  show "\<exists>s'. on_change v doc editor s = Some s'"
    unfolding on_change_def e Option.bind.bind_lunit prod.case Let_def using push_total by (auto split: if_splits)
  show "\<exists>s'. on_selection v doc cursor s = Some s'"
    using an by (cases "map_of (se_cache s) (dc_uri doc)") (auto simp: on_selection_def split: option.splits)
  show "\<exists>s'. open_command v editor s = Some s'"
  proof (cases editor)
    case (Some d)
    obtain a where "analyzeDfsmDocument v (dc_text d) = Some a" using analysis_total by blast
    then show ?thesis using Some push_total by (simp add: open_command_def openVisualizerForDocument_def Let_def)
  qed (simp add: open_command_def)
  show "\<exists>s'. validate_command v editor s = Some s'"
    using analysis_total by (cases editor) (auto simp: validate_command_def)
qed

section \<open>Properties\<close>


text \<open>A document whose preview is open, then the same file read anew, empty.\<close>

definition machine_file :: "yaml_document \<Rightarrow> text_document" where
  "machine_file d = \<lparr>dc_uri = ''file:///m.dfsm.yaml'', dc_fileName = ''m.dfsm.yaml'', dc_languageId = ''yaml'',
     dc_text = d\<rparr>"

definition empty_document :: yaml_document where
  "empty_document = \<lparr>yd_source = [], yd_linePos = (\<lambda>n. (1, n + 1)), yd_contents = None, yd_errors = [],
     yd_toJS = Inr JNull\<rparr>"

lemma machine_file_recognised: "recognised (machine_file d)"
proof -
  have "dfsm_extension (js_trim ''m.dfsm.yaml'')" by code_simp
  then show ?thesis by (simp add: recognised_def machine_file_def detectDfsmDocument_def Let_def)
qed

lemma preview_reached:
  obtains s p where "world_reach v again (docs_of [machine_file d], None, s)" "se_panel s = Some p"
    "se_tracked s = Some (dc_uri (machine_file d))" "page_of v (machine_file d) p"
proof -
  let ?f = "machine_file d"
  have docs: "docs_of [?f] (dc_uri ?f) = Some ?f" by (simp add: docs_of_def)
  obtain s0 where a: "activate v [?f] (active_document (docs_of [?f]) None) = Some s0" using handlers_return(1) by blast
  obtain s where o: "open_command v (Some ?f) s0 = Some s" using handlers_return(5) by blast
  have "world_step v again (docs_of [?f], None, s0) (docs_of [?f], None, s)"
    by (rule world_step.OpenPreview [of "Some ?f"]) (use docs o in auto)
  then have r: "world_reach v again (docs_of [?f], None, s)"
    unfolding world_reach_def using a by (intro exI [of _ "[?f]"] exI [of _ None] exI [of _ s0]) auto
  obtain an where an: "analyzeDfsmDocument v (dc_text ?f) = Some an" using analysis_total by blast
  have "problems_current v (docs_of [?f]) s0"
    using activate_ok [OF a] by (simp add: session_ok_def)
  with o docs have pc: "preview_current v (docs_of [?f]) s"
    using preview_opened [of v ?f s0 s "docs_of [?f]" None] by (simp add: open_command_def)
  have "se_panel s \<noteq> None \<and> se_tracked s = Some (dc_uri ?f)"
    using o an by (auto simp: open_command_def openVisualizerForDocument_def Let_def pushGraphToWebview_def
        split: if_splits option.splits)
  then obtain p where "se_panel s = Some p" "se_tracked s = Some (dc_uri ?f)" by auto
  moreover from this pc docs have "page_of v ?f p" by (simp add: preview_current_def)
  ultimately show ?thesis using r that by blast
qed


text \<open>Closed and opened again, the document has changed and the preview has not.\<close>

theorem reopened_preview_stale:
  "\<exists>docs s. world_reach (\<lambda>_. []) True (docs, None, s) \<and> \<not> preview_current (\<lambda>_. []) docs s"
proof -
  let ?v = "\<lambda>_::jval. [] :: ajv_error list"
  let ?f = "machine_file sample_document" and ?g = "machine_file empty_document"
  have u: "dc_uri ?f = dc_uri ?g" by (simp add: machine_file_def)
  obtain s p where r: "world_reach ?v True (docs_of [?f], None, s)" "se_panel s = Some p"
    "se_tracked s = Some (dc_uri ?f)" "page_of ?v ?f p" by (rule preview_reached)
  let ?closed = "(docs_of [?f])(dc_uri ?g := None)"
  let ?docs = "?closed(dc_uri ?g \<mapsto> ?g)"
  obtain an where an: "analyzeDfsmDocument ?v (dc_text ?g) = Some an" using analysis_total by blast
  let ?s = "remember ?g an (forget (dc_uri ?g) s)"
  have "on_open ?v ?g None (forget (dc_uri ?g) s) = Some ?s"
    using an machine_file_recognised by (simp add: on_open_def evaluateDocument_def)
  then have "world_step ?v True (?closed, None, forget (dc_uri ?g) s) (?docs, None, ?s)"
    by (intro world_step.Opened) (simp_all add: active_document_def)
  moreover have "world_step ?v True (docs_of [?f], None, s) (?closed, None, forget (dc_uri ?g) s)"
    by (rule world_step.Closed)
  ultimately have "world_reach ?v True (?docs, None, ?s)"
    using r(1) unfolding world_reach_def by (blast intro: rtranclp.rtrancl_into_rtrancl)
  moreover have "\<not> preview_current ?v ?docs ?s"
  proof
    assume "preview_current ?v ?docs ?s"
    then have "page_of ?v ?g p" using r(2,3) u by (simp add: preview_current_def remember_def forget_def)
    then have t: "pn_title p = panel_title an" using an by (simp add: page_of_def)
    have "map_option panel_title (analyzeDfsmDocument ?v empty_document) = Some ''DFSM Studio: invalid-machine''"
      "map_option panel_title (analyzeDfsmDocument ?v sample_document) = Some ''DFSM Studio: m''" by code_simp+
    then show False using t an r(4) by (auto simp: page_of_def machine_file_def)
  qed
  ultimately show ?thesis by blast
qed

end
