(* ===== verification/Spec2Isabelle.thy ===== *)
theory Spec2Isabelle
  imports ActorSamples ActorDepth ActorAdmin DefinitionProps RegistryClaims Drivers Logger EditorLayoutProps EditorSession
begin

text \<open>
  DFSM is a durable state machine: a statechart, written in YAML or built by code, whose transactions
  are rows of a store. This development models its TypeScript SDK (\<^verbatim>\<open>src/sdks/typescript/src\<close>) and the
  VS Code extension that checks and draws the same documents (\<^verbatim>\<open>src/tools/vscode-dfsm/src\<close>), and
  proves what they promise. File names below are relative to these two directories.

  \<^bold>\<open>How the program works.\<close> The parser (\<^verbatim>\<open>definition/parser.ts\<close>) or the builders
  (\<^verbatim>\<open>definition/builder.ts\<close>) produce a raw machine; \<^verbatim>\<open>definition/ir.ts\<close> validates it, injects the
  \<open>error\<close> state and yields a machine definition. \<^verbatim>\<open>engine/statechart.ts\<close> computes with it: initial state,
  event dispatch, the next state value with its exit and entry effects, completion. An actor
  (\<^verbatim>\<open>runtime/actor.ts\<close>) runs one machine on a store (\<^verbatim>\<open>store/store.ts\<close>): \<open>transition\<close> reads a snapshot,
  marks it \<open>IN_FLIGHT\<close> by an update guarded by its version, runs the handler inside the decorated
  pipeline (\<^verbatim>\<open>policy/pipeline.ts\<close>: validation, retries of \<^verbatim>\<open>policy/retry.ts\<close>, the breaker of
  \<^verbatim>\<open>policy/circuit-breaker.ts\<close>, the fallback) under the policy that \<^verbatim>\<open>policy/merger.ts\<close> folds from
  four layers, records a compensation step, moves the statechart and commits with step and lease
  cleared; a failure unwinds the stack of compensations if its policy says so. Effects and hooks may
  call the actor again. Recovery sweeps and clean-up repair what a crash left behind. The registry
  (\<^verbatim>\<open>runtime/registry.ts\<close>) keeps machines, handlers by name (also from the decorators of
  \<^verbatim>\<open>decorators/\<close>) and the actors built from them. The extension parses a document with source ranges
  (\<^verbatim>\<open>core/parser.ts\<close>), resolves targets and merges policies on its own (\<^verbatim>\<open>core/resolver.ts\<close>,
  \<^verbatim>\<open>core/policy.ts\<close>), reports diagnostics (\<^verbatim>\<open>core/validator.ts\<close>), builds and lays out a graph
  (\<^verbatim>\<open>visualizer/\<close>), and its session (\<^verbatim>\<open>extension.ts\<close>) keeps all of it in step with the editor.

  \<^bold>\<open>Theories.\<close>
  \<^item> \<open>Prelude\<close>: objects as association lists in insertion order, strings, numerals, the collections of
    rewrite rules. \<open>Types\<close>: \<^verbatim>\<open>types.ts\<close>, \<^verbatim>\<open>errors.ts\<close>.
  \<^item> \<open>IR\<close>, \<open>Statechart\<close>: the two files of that name; \<open>StatechartInv\<close>: legal configurations, and that the
    engine keeps them; \<open>Completion\<close>: final regions, settled status, exit effects.
  \<^item> \<open>Merger\<close>, \<open>CircuitBreaker\<close>, \<open>Pipeline\<close> (with \<^verbatim>\<open>validation.ts\<close> and \<^verbatim>\<open>policy/retry.ts\<close>). The breaker is
    modelled both as a sequence of calls and as a step relation of interleaved ones.
  \<^item> \<open>Store\<close>: the contract of a driver, as the locale \<open>state_store\<close>; \<open>SqliteStore\<close>, \<open>MongoStore\<close>,
    \<open>PostgresStore\<close>: the three drivers, each interpreted in the contract; \<open>Drivers\<close>: calls on a store are a
    simulation between any two drivers that keep the contract.
  \<^item> \<open>Effects\<close>: asynchronous code as state passing with its Hoare rules; \<open>Actor\<close>, \<open>ActorAdmin\<close>: the
    operations of \<^verbatim>\<open>runtime/actor.ts\<close>; \<open>ActorKept\<close>, \<open>ActorInv\<close>: the invariants of a whole run, over the locale
    \<open>actor_store\<close> of an actor on any driver; \<open>ActorProps\<close>: single operations; \<open>ActorTotal\<close>: that calls return.
  \<^item> \<open>Parser\<close>, \<open>Builder\<close>, \<open>DefinitionProps\<close>: definitions, and that both ways of writing one agree.
    \<open>Metadata\<close>: decorators. \<open>Registry\<close>, \<open>RegistryProps\<close>, \<open>RegistryInv\<close>, \<open>RegistryClaims\<close>. \<open>Logger\<close>: \<^verbatim>\<open>logger.ts\<close>.
  \<^item> \<open>EditorTypes\<close>, \<open>EditorPolicy\<close>, \<open>EditorResolver\<close>, \<open>EditorParser\<close>, \<open>EditorValidator\<close>: the files of \<^verbatim>\<open>core/\<close>;
    \<open>EditorReach\<close>, \<open>EditorInv\<close>, \<open>EditorProps\<close>: the search for unreachable states against an
    inductive notion of visiting, ranges, and the agreement with the SDK's policies. \<open>EditorGraph\<close> (with
    \<^verbatim>\<open>core/detector.ts\<close>), \<open>EditorLayout\<close>, \<open>EditorRender\<close>: \<^verbatim>\<open>visualizer/\<close>; \<open>EditorLayoutInv\<close>,
    \<open>EditorLayoutProps\<close>: geometry. \<open>EditorSession\<close>: \<^verbatim>\<open>extension.ts\<close> as an event-driven session.
  \<^item> \<open>Samples\<close>, \<open>ActorSamples\<close>: the machines and worlds at which the theorems are applied.

  \<^bold>\<open>State and operations.\<close> A definition has the name of the function it models where that is free;
  a part of a long function has a name of its own. A record has the fields of the class or interface,
  with a prefix. What a class keeps is passed and returned: \<open>breaker\<close>, the tables of a driver, the
  \<open>world\<close> of an actor (store, breakers, scheduler, depth counters, log and the outside \<open>w_user\<close>), the
  \<open>registry\<close> with its heap of stores, the \<open>session\<close> of the extension. Errors are values: \<open>Inl\<close> of an
  error, or \<open>None\<close> where code does not return. User code is data: a handler, compensation, effect or
  hook is a function on the outside world, and effects and hooks are programs that may call the actor.

  \<^bold>\<open>Bounds and fuel.\<close> Only calling back needs fuel: \<open>perform n\<close> lets programs nest \<open>n\<close> deep. \<open>ActorTotal\<close>
  shows that every call of an actor whose programs do not call back returns for every fuel from some
  point on, and \<open>fuel_is_only_a_bound\<close> that more fuel never changes an outcome. The cascade of
  completions is the code's own loop of 20 rounds. The trimming of a breaker's window is a
  \<open>partial_function\<close>, shown to return exactly when the size is not negative. The searches of the
  editor are a \<open>while_option\<close>, shown to end for every document, and functions with a measure.

  \<^bold>\<open>What the theorems show.\<close> Machines and definitions: C1, C2 and the statements on parsed and built
  machines (well-formedness, acceptance exactly of what the schema and the rules allow, equality of
  the two front ends), dispatch, completion and exit effects. Runs: whatever is called in whatever
  order, no settled transaction keeps a step or lease, other machines' transactions stay as they are,
  depth counters balance, on an actor and through the registry. Single operations: refusals leave no
  trace, a stale snapshot is refused, the reported result is the stored one, compensation is LIFO and
  exactly once, recovery fails exactly the stuck. Policies: precedence, decorators in order, bounds,
  the breaker's invariant, its recovery and its bounds under interleaving, retries. Drivers: equal
  answers, PostgreSQL up to the canonical form of JSONB. Extension: policies as the SDK's, a warning for
  every state that no execution can visit, ranges inside the document, termination, a preview that is
  complete, laid out without overlap, free of injected markup and up to date. Beside them stand
  theorems that pin down defects, such as \<open>negative_window_diverges\<close>, \<open>half_open_limit_exceeded\<close> and
  \<open>reopened_preview_stale\<close>.

  \<^bold>\<open>Parameters.\<close> Code that is not in the repository is an argument: the YAML reader and the schema
  validator (\<open>parser_lib\<close>, \<open>yaml_document\<close>, the function from a value to the errors of \<^verbatim>\<open>ajv\<close>), a MongoDB
  collection under the laws of the locale \<open>document_collection\<close> (which \<open>list_collection\<close> satisfies), the
  canonical form of JSONB columns. SQL statements and the VS Code API are modelled by what they do
  to tables and to the session. Numbers with a fraction are exact rationals.

  \<^bold>\<open>Not modelled.\<close> The page around the preview: \<open>renderVisualizerHtml\<close> is one constant text of style sheet
  and browser script, and the starter templates are sample documents. Network and server failures of
  databases. Rounding of floating-point numbers. JavaScript's reordering of keys that look like array
  indices, and members of \<^verbatim>\<open>Object.prototype\<close> read as properties. The registry's process-wide instance.
  Index files, examples, tests, and the ports of the SDK to other languages.
\<close>

text \<open>C1: A machine that passes validation has an initial state, and it is a legal configuration:
  one child of every active compound state, every region of every active parallel state.\<close>

theorem validated_machine_starts_legally:
  assumes "finalizeAndValidateMachineIR raw = Inr m" "forest_ok [] (rm_states raw)"
  shows "\<exists>sv effs. resolveInitialState m = Some (sv, effs) \<and> conf_root m sv"
  by (rule resolveInitialState_conf [OF finalize_ok [OF assms]])

lemma order_validates: "finalizeAndValidateMachineIR order_raw = Inr order_machine"
proof -
  have "machine_issues order_raw = []" by code_simp
  then show ?thesis by (simp add: finalizeAndValidateMachineIR_def order_machine_def)
qed

theorem validated_machine_starts_legally_witness:
  "\<exists>sv effs. resolveInitialState order_machine = Some (sv, effs) \<and> conf_root order_machine sv"
proof -
  have "forest_ok [] (rm_states order_raw)" by code_simp
  from validated_machine_starts_legally [OF order_validates this] show ?thesis .
qed

text \<open>C2: A target transition of a dispatched edge never throws on a validated machine when the
  target is structural, reaches a legal configuration and makes the target active.\<close>

theorem dispatched_transition_legal:
  assumes "machine_ok m" "conf_root m cur" "(s, e) \<in> set (resolveTransitionsForEvent m cur ev)"
    and "te_target e = Some ref" "ref \<noteq> []"
    and "\<And>p. resolveTargetStatePath (md_id m) (md_states m) (sn_path s) ref = Some p \<Longrightarrow>
      structural_target m cur (path_parts (sn_path s)) (path_parts p)"
  shows "\<exists>ap. applyTargetTransition m cur (sn_path s) ref = Inr ap \<and>
    conf_root m (ap_nextStateValue ap) \<and>
    active_path m (ap_nextStateValue ap) (path_parts (ap_targetPath ap))"
  by (rule dispatched_transition [OF assms])

theorem dispatched_transition_legal_witness:
  "\<exists>ap. applyTargetTransition order_machine fulfilling ''fulfil.payment.pending'' ''paid'' = Inr ap \<and>
    conf_root order_machine (ap_nextStateValue ap) \<and>
    active_path order_machine (ap_nextStateValue ap) (path_parts (ap_targetPath ap))"
proof -
  let ?s = "snd (sample_leaf ''fulfil.payment.'' ''pending'' Atomic [''exitPending'']
           [(''PAY'', sample_edge ''PAY'' (Some ''paid''))])"
  let ?e = "sample_edge ''PAY'' (Some ''paid'')"
  have 1: "machine_ok order_machine" "conf_root order_machine fulfilling" by code_simp+
  have 2: "(?s, ?e) \<in> set (resolveTransitionsForEvent order_machine fulfilling ''PAY'')"
    by (simp add: resolveTransitionsForEvent_def sample_defs fulfilling_def to_machine_def
        with_error_state_def leaf_type_def self_match_def first_nonempty_def)
  have p: "sn_path ?s = ''fulfil.payment.pending''" by code_simp
  have r: "resolveTargetStatePath (md_id order_machine) (md_states order_machine)
      ''fulfil.payment.pending'' ''paid'' = Some ''fulfil.payment.paid''" by code_simp
  have st: "structural_target order_machine fulfilling (path_parts ''fulfil.payment.pending'')
      (path_parts ''fulfil.payment.paid'')" by code_simp
  have t: "te_target ?e = Some ''paid''" by (simp add: sample_edge_def)
  from dispatched_transition_legal [OF 1 2 t] p r st show ?thesis by simp
qed

section \<open>The actor\<close>

text \<open>The theorems on an actor and its store hold on every driver that keeps the contract.\<close>

lemma on_contract: "state_store (ac_store a) ok txs comps \<Longrightarrow> actor_store (ac_store a) ok txs comps a"
  by (simp add: actor_store_def actor_store_axioms_def)

lemma order_contract: "state_store (ac_store order_actor) sqlite_ok sqlite_txs sqlite_comps"
  by (simp add: sqlite.state_store_axioms)

context actor_store
begin

lemmas settled_keeps_reach = settled.keeps_reach
lemmas foreign_keeps_reach = foreign.keeps_reach

end

text \<open>C3: Whatever calls a client makes, in whatever order and however they end, a stored transaction
  that is neither in flight nor compensating has no active step and no lease.\<close>

theorem stored_transactions_settled:
  assumes "state_store (ac_store a) ok txs comps" "ok (w_store w)"
    and "\<And>i r. txs (w_store w) i = Some r \<Longrightarrow> settled r"
    and "actor_reach a w w'"
  shows "ok (w_store w') \<and> (\<forall>i r. txs (w_store w') i = Some r \<longrightarrow> settled r)"
  using actor_store.settled_keeps_reach [OF on_contract [OF assms(1)] assms(4), of "()"] assms(2, 3)
  by (simp add: actor_store.all_settled_def [OF on_contract [OF assms(1)]])

theorem stored_transactions_settled_witness:
  "\<exists>w'. actor_reach order_actor order_world w' \<and> sqlite_ok (w_store w') \<and>
     (\<forall>i r. sqlite_txs (w_store w') i = Some r \<longrightarrow> settled r)"
proof -
  let ?c = "CallTransition ''t1'' ''SUBMIT'' None []"
  obtain r w' n where "perform n order_actor ?c order_world = Some (r, w')"
    using perform_returns [OF order_plain order_breakers] by blast
  then have "actor_reach order_actor order_world w'" by (rule actor_reach.call [OF actor_reach.here])
  with stored_transactions_settled [OF order_contract _ _ this] order_store_ok order_settled show ?thesis by auto
qed

text \<open>C4: The transactions of other machines in the same store, and their compensation stacks, are
  never changed: not by the actor's calls, nor by what effects and hooks call back.\<close>

theorem other_machines_untouched:
  assumes "state_store (ac_store a) ok txs comps" "ok (w_store w)" "md_id (ac_machine a) \<noteq> []"
    and "txs (w_store w) i = Some r" "tx_machineId r \<noteq> md_id (ac_machine a)"
    and "actor_reach a w w'"
  shows "txs (w_store w') i = Some r \<and> comps (w_store w') i = comps (w_store w) i"
  using actor_store.foreign_keeps_reach [OF on_contract [OF assms(1)] assms(6), of "(i, r, comps (w_store w) i)"] assms(2-5)
  by (simp add: actor_store.untouched_def [OF on_contract [OF assms(1)]])

theorem other_machines_untouched_witness:
  "\<exists>w'. actor_reach order_actor order_world w' \<and>
     sqlite_txs (w_store w') ''t4'' = Some (order_tx ''t4'' ''invoice'' IDLE (SLeaf ''draft''))"
proof -
  let ?c = "CallCleanUp \<lparr>co_machineId = None, co_actorId = None, co_transactionIds = None,
    co_statuses = None, co_includeInFlight = Some True, co_stuckOnly = None, co_stuckThresholdMs = None,
    co_olderThanMs = None, co_action = Some CDelete, co_dryRun = None\<rparr>"
  obtain r w' n where "perform n order_actor ?c order_world = Some (r, w')"
    using perform_returns [OF order_plain order_breakers] by blast
  then have "actor_reach order_actor order_world w'" by (rule actor_reach.call [OF actor_reach.here])
  with other_machines_untouched [OF order_contract _ _ _ _ this] order_store_ok show ?thesis
    by (fastforce simp: order_txs)
qed

text \<open>C5: Nested effects are bounded and balanced: after any calls the depth counters are what they
  were before, whatever the effects did or threw, and in every further call no effect starts while
  the counter of its transaction is above \<open>maxEffectChainDepth\<close>, at whatever depth of nesting: a run
  that gets stuck at such a start is the same run.\<close>

theorem effect_depth_balanced:
  assumes "\<And>i n. map_of (w_depth w) i = Some n \<Longrightarrow> 1 \<le> n \<and> of_int n \<le> ac_maxEffectChainDepth a"
    and "actor_reach a w w'"
  shows "map_of (w_depth w') = map_of (w_depth w) \<and>
    (\<forall>n c. perform_within n a c w' = perform n a c w')"
  using depth.keeps_reach [OF assms(2), of "map_of (w_depth w)"] assms(1)
  by (auto simp: depth_is_def perform_within_same simp del: perform_within.simps)

theorem effect_depth_balanced_witness:
  "\<exists>w' r v. actor_reach order_actor order_world w' \<and> map_of (w_depth w') = Map.empty \<and>
     (\<exists>n. perform_within n order_actor (CallTransition ''t1'' ''SUBMIT'' None []) w' = Some (r, v))"
proof -
  let ?c = "CallTransition ''t1'' ''SUBMIT'' None []"
  obtain r w' n where p: "perform n order_actor ?c order_world = Some (r, w')" "breakers_ok w'"
    using perform_returns [OF order_plain order_breakers] by blast
  then have reach: "actor_reach order_actor order_world w'" by (blast intro: actor_reach.call [OF actor_reach.here])
  obtain r' v m where "perform m order_actor ?c w' = Some (r', v)"
    using perform_returns [OF order_plain p(2)] by blast
  moreover from effect_depth_balanced [OF _ reach] have "map_of (w_depth w') = Map.empty"
    "perform_within m order_actor ?c w' = perform m order_actor ?c w'"
    by (auto simp del: perform.simps perform_within.simps)
  ultimately show ?thesis using reach by metis
qed



text \<open>Fuel only bounds: a call that ends with some fuel ends the same way with more.\<close>

theorem fuel_is_only_a_bound:
  assumes "perform n a c w = Some x" "n \<le> m"
  shows "perform m a c w = Some x"
proof -
  have "less_runner (run_prog n a) (run_prog m a)" by (rule run_prog_more [OF assms(2)])
  then have "less_run (perform n a c) (perform m a c)"
    by (cases c) (auto simp: finished_def triggerSweepNow_def scheduler_tick_def intro!: run_mono)
  then show ?thesis using assms(1) by (simp add: less_run_def)
qed

text \<open>C15: Compensation is LIFO and exactly once, when the \<open>onCompensate\<close> hooks leave the store and the
  log of handlers alone: the steps are taken from the last recorded one down; the handler of each
  step that has one runs once; a step without one is marked too. After a success the stack is empty.
  After a failure the stack is what the loop had not marked: either the handler of its first step
  threw, which leaves that step to be compensated again, or a hook threw after the previous step was
  marked. The transaction records are as before.\<close>

theorem compensation_lifo:
  assumes "state_store (ac_store a) ok txs comps" "ok (w_store w)" "hooks_apart a run lg" "compensators_log a lg"
    and "unwindCompensationStack a run i ctx err w = Some (r, w')"
    and "es = rev (uncompensated (comps (w_store w) i))"
  shows "\<exists>k \<le> length es. rev (uncompensated (comps (w_store w') i)) = drop k es \<and>
    txs (w_store w') = txs (w_store w) \<and>
    (case r of
       Inr (c, n) \<Rightarrow> k = length es \<and> n = k \<and> lg (w_user w') = lg (w_user w) @ compensated_steps a es
     | Inl _ \<Rightarrow>
         k < length es \<and> has_compensator a (es ! k) \<and>
           lg (w_user w') = lg (w_user w) @ compensated_steps a (take (k + 1) es) \<or>
         0 < k \<and> ac_hooks a \<noteq> [] \<and> lg (w_user w') = lg (w_user w) @ compensated_steps a (take k es))"
  unfolding assms(6) by (rule actor_store.unwind_all [OF on_contract [OF assms(1)] assms(3,4,2,5)])

text \<open>The order actor with a hook that does nothing and one that throws.\<close>

definition hooked_actor :: "(sqlite, int list) actor" where
  "hooked_actor = order_actor\<lparr>ac_hooks := [\<lambda>slot. [\<lambda>ev. PDone, \<lambda>ev. PThrow (JsError ''hook'')]]\<rparr>"

lemma hooked_plain: "plain_actor hooked_actor"
  using order_plain by (simp add: plain_actor_def hooked_actor_def)

lemma hooked_apart: "hooks_apart hooked_actor (run_prog n hooked_actor) (\<lambda>u. u)"
  by (cases n) (auto simp: hooks_apart_def hooked_actor_def eff_defs)

theorem compensation_lifo_witness:
  "\<exists>n r w' k. unwindCompensationStack hooked_actor (run_prog n hooked_actor) ''t1'' JNull None order_world =
      Some (r, w') \<and> k \<le> 2 \<and>
    rev (uncompensated (sqlite_comps (w_store w') ''t1'')) = drop k [order_comp 2, order_comp 1] \<and>
    (case r of Inr (c, m) \<Rightarrow> k = 2 \<and> w_user w' = [2, 1] | Inl _ \<Rightarrow> True)"
proof -
  have "ends breakers_ok (\<lambda>n. unwindCompensationStack hooked_actor (run_prog n hooked_actor) ''t1'' JNull None)"
    by (rule ends_unwind [OF hooked_plain])
  then obtain n r w' where
    u: "unwindCompensationStack hooked_actor (run_prog n hooked_actor) ''t1'' JNull None order_world = Some (r, w')"
    using order_breakers unfolding ends_def by blast
  have es: "[order_comp 2, order_comp 1] = rev (uncompensated (sqlite_comps (w_store order_world) ''t1''))"
    by (simp add: order_comps uncompensated_def order_comp_def)
  have q: "ce_stepSeq (order_comp k) = k" "has_compensator hooked_actor e" for k e
    by (simp_all add: order_comp_def has_compensator_def hooked_actor_def order_handlers_def)
  have l: "compensators_log hooked_actor (\<lambda>u. u)" and c: "state_store (ac_store hooked_actor) sqlite_ok sqlite_txs sqlite_comps"
    using order_logs order_contract by (simp_all add: compensators_log_def hooked_actor_def)
  from compensation_lifo [OF c _ hooked_apart l u es] order_store_ok obtain k where
    k: "k \<le> length [order_comp 2, order_comp 1]"
      "rev (uncompensated (sqlite_comps (w_store w') ''t1'')) = drop k [order_comp 2, order_comp 1]"
    and r: "\<forall>c m. r = Inr (c, m) \<longrightarrow> k = 2 \<and> w_user w' = [2, 1]"
    unfolding order_world_simps(1) by (elim meta_impE exE conjE) (simp_all add: q split: sum.splits prod.splits)
  have "k \<le> 2 \<and> rev (uncompensated (sqlite_comps (w_store w') ''t1'')) = drop k [order_comp 2, order_comp 1] \<and>
    (case r of Inr (c, m) \<Rightarrow> k = 2 \<and> w_user w' = [2, 1] | Inl _ \<Rightarrow> True)"
    using k r by (auto split: sum.splits)
  then show ?thesis using u by blast
qed





text \<open>C18: An event nobody handles, or an input the validator of a matched transition rejects, ends
  in an error that leaves the world as it was: no hook has run and nothing is stored.\<close>

theorem refused_without_trace:
  assumes "resolveTransitionsForEvent (ac_machine a) (tx_stateValue snap) ev = [] \<or>
    (\<exists>node edge b e. (node, edge) \<in> set (resolveTransitionsForEvent (ac_machine a) (tx_stateValue snap) ev) \<and>
       map_of (ac_bindings a) (bindingKey (sn_path node) (te_event edge)) = Some b \<and>
       pipeline_validateInput (bd_inputValidator b) input = Inl e)"
  shows "\<exists>e. executeTransitionOnSnapshot a run snap ev input md w = Some (Inl e, w)"
  using assms unhandled_event invalid_input by metis

theorem refused_without_trace_witness:
  "\<exists>e. executeTransitionOnSnapshot order_actor (run_prog 1 order_actor) order_snapshot ''SHIP'' None [] order_world =
     Some (Inl e, order_world)"
proof (rule refused_without_trace)
  have "resolveTransitionsForEvent order_machine (tx_stateValue order_snapshot) ''SHIP'' = []"
    by (simp add: order_snapshot_def snapshot_of_def tx_record.extend_def order_tx_def
        resolveTransitionsForEvent_def sample_defs to_machine_def with_error_state_def leaf_type_def
        self_match_def first_nonempty_def)
  then show "resolveTransitionsForEvent (ac_machine order_actor) (tx_stateValue order_snapshot) ''SHIP'' = [] \<or>
    (\<exists>node edge b e. (node, edge) \<in> set (resolveTransitionsForEvent (ac_machine order_actor)
        (tx_stateValue order_snapshot) ''SHIP'') \<and>
       map_of (ac_bindings order_actor) (bindingKey (sn_path node) (te_event edge)) = Some b \<and>
       pipeline_validateInput (bd_inputValidator b) None = Inl e)" by simp
qed

text \<open>A transaction that does not exist, or belongs to another machine, is not found, and no
  record changes.\<close>

theorem unknown_transaction_refused:
  assumes "state_store (ac_store a) ok txs comps" "ok (w_store w)" "w_initialized w" "\<not> w_stoppedByRecovery w"
    and "\<And>r. txs (w_store w) i = Some r \<Longrightarrow> tx_machineId r \<noteq> md_id (ac_machine a)"
  shows "\<exists>s'. transition a run i ev input md w = Some (Inl (TransactionNotFoundError i), w\<lparr>w_store := s'\<rparr>) \<and>
    txs s' = txs (w_store w)"
  by (rule actor_store.transition_unknown [OF on_contract [OF assms(1)] assms(3,4,2,5)])

text \<open>The order actor with a hook that does nothing.\<close>

definition quiet_actor :: "(sqlite, int list) actor" where
  "quiet_actor = order_actor\<lparr>ac_hooks := [\<lambda>slot. [\<lambda>ev. PDone]]\<rparr>"



text \<open>Forced unlocking does not look at the status: a transaction that is completed, failed or
  compensated goes back to \<open>IDLE\<close>, with its version raised.\<close>

theorem unlock_reopens_terminal:
  assumes "state_store (ac_store a) ok txs comps" "ok (w_store w)" "txs (w_store w) i = Some r"
    and "tx_machineId r = md_id (ac_machine a)" "isTerminalStatus (tx_status r)"
  shows "\<exists>rep s' r'. forceCleanUpTransaction a run i (Some CForceUnlock) w = Some (Inr rep, w\<lparr>w_store := s'\<rparr>) \<and>
    cl_unlocked rep = [i] \<and> txs s' i = Some r' \<and> tx_status r' = IDLE \<and>
    tx_version r' = tx_version r + 1 \<and> tx_stateValue r' = tx_stateValue r"
proof -
  let ?r = "apply_patch (unlock_patch (wo_now (ac_world a) (w_user w))) (tx_version r + 1) r"
  from actor_store.force_unlock [OF on_contract [OF assms(1)] assms(2,3,4), of run] obtain rep s' where
    "forceCleanUpTransaction a run i (Some CForceUnlock) w = Some (Inr rep, w\<lparr>w_store := s'\<rparr>)"
    "cl_unlocked rep = [i]" "txs s' i = Some ?r" by auto
  moreover have "tx_status ?r = IDLE" "tx_version ?r = tx_version r + 1" "tx_stateValue ?r = tx_stateValue r"
    by (simp_all add: apply_patch_def unlock_patch_def clear_patch_def touch_def)
  ultimately show ?thesis by blast
qed

text \<open>A dry run of the clean-up changes no record and no compensation stack.\<close>

theorem dry_run_is_dry:
  assumes "state_store (ac_store a) ok txs comps" "ok (w_store w)" "co_dryRun opts = Some True"
  shows "\<exists>r s'. forceCleanUp a run opts w = Some (r, w\<lparr>w_store := s'\<rparr>) \<and>
    txs s' = txs (w_store w) \<and> comps s' = comps (w_store w)"
  by (rule actor_store.dry_run_changes_nothing [OF on_contract [OF assms(1)] assms(2,3)])

section \<open>Stores\<close>

text \<open>Of two writers that read the same version of a transaction the second is refused, and
  what the first wrote stays.\<close>

theorem second_writer_refused:
  assumes "sqlite_ok s" "sql_updateTransaction i v p ns s = (Inr w, s1)"
  shows "\<exists>s2. sql_updateTransaction i v p' ns' s1 = (Inl (StaleTransactionVersionError i v), s2) \<and>
    sqlite_txs s2 = sqlite_txs s1 \<and> sqlite_comps s2 = sqlite_comps s1"
  using sqlite.second_writer_stale [of s i v p ns w s1 p' ns'] assms by (simp add: sqlite_ops_def)

text \<open>The fields of a patched snapshot, and of an entry known up to its row id.\<close>

lemma patched_snapshot:
  "tx_transactionId (snapshot_of (apply_patch p v (tx_record.truncate x)) stk) = tx_transactionId x"
  "tx_machineId (snapshot_of (apply_patch p v (tx_record.truncate x)) stk) = tx_machineId x"
  "tx_machineVersion (snapshot_of (apply_patch p v (tx_record.truncate x)) stk) = tx_machineVersion x"
  "tx_actorId (snapshot_of (apply_patch p v (tx_record.truncate x)) stk) = tx_actorId x"
  "tx_createdAt (snapshot_of (apply_patch p v (tx_record.truncate x)) stk) = tx_createdAt x"
  "tx_updatedAt (snapshot_of (apply_patch p v (tx_record.truncate x)) stk) = pt_updatedAt p"
  "tx_version (snapshot_of (apply_patch p v (tx_record.truncate x)) stk) = v"
  "tx_stateValue (snapshot_of (apply_patch p v (tx_record.truncate x)) stk) = or_else (pt_stateValue p) (tx_stateValue x)"
  "tx_context (snapshot_of (apply_patch p v (tx_record.truncate x)) stk) = or_else (pt_context p) (tx_context x)"
  "tx_status (snapshot_of (apply_patch p v (tx_record.truncate x)) stk) = or_else (pt_status p) (tx_status x)"
  "tx_activeStep (snapshot_of (apply_patch p v (tx_record.truncate x)) stk) = or_else (pt_activeStep p) (tx_activeStep x)"
  "tx_lastError (snapshot_of (apply_patch p v (tx_record.truncate x)) stk) = or_else (pt_lastError p) (tx_lastError x)"
  "tx_leaseOwner (snapshot_of (apply_patch p v (tx_record.truncate x)) stk) = or_else (pt_leaseOwner p) (tx_leaseOwner x)"
  "tx_leaseExpiresAt (snapshot_of (apply_patch p v (tx_record.truncate x)) stk) =
     or_else (pt_leaseExpiresAt p) (tx_leaseExpiresAt x)"
  "ts_compensationStack (snapshot_of (apply_patch p v (tx_record.truncate x)) stk) = stk"
  by (simp_all add: snapshot_of_def apply_patch_def tx_record.defs)

lemma entry_fields:
  assumes "no_id e = new_entry i q n"
  shows "ce_transactionId e = i \<and> ce_stepSeq e = q \<and> ce_transitionKey e = cn_transitionKey n \<and>
    ce_compensateKey e = cn_compensateKey n \<and> ce_fromState e = cn_fromState n \<and>
    ce_inputSnapshot e = or_else (cn_inputSnapshot n) JNull \<and> ce_contextBefore e = cn_contextBefore n \<and>
    ce_createdAt e = cn_createdAt n \<and> ce_compensatedAt e = cn_compensatedAt n"
  using assms by (cases e) (simp add: no_id_def new_entry_def)

text \<open>C30: A committed update is what the next read returns. Against what was read before it: the
  version is the one the update expected and goes up by one, every field the patch carries has its
  value and every other field the value it had, and on top of the stack lie the new steps, latest
  first, each with what was given for it, the next step number, and \<open>null\<close> for a missing input.\<close>

theorem read_after_update:
  assumes "sqlite_ok s" "sql_getTransaction i s = (Inr (Some x), s0)"
    and "sql_updateTransaction i v p ns s0 = (Inr w, s1)"
  shows "\<exists>y s2 new. sql_getTransaction i s1 = (Inr (Some y), s2) \<and>
    v = tx_version x \<and> w = v + 1 \<and> tx_version y = w \<and>
    tx_transactionId y = tx_transactionId x \<and> tx_machineId y = tx_machineId x \<and>
    tx_machineVersion y = tx_machineVersion x \<and> tx_actorId y = tx_actorId x \<and>
    tx_createdAt y = tx_createdAt x \<and> tx_updatedAt y = pt_updatedAt p \<and>
    tx_stateValue y = (case pt_stateValue p of Some z \<Rightarrow> z | None \<Rightarrow> tx_stateValue x) \<and>
    tx_context y = (case pt_context p of Some z \<Rightarrow> z | None \<Rightarrow> tx_context x) \<and>
    tx_status y = (case pt_status p of Some z \<Rightarrow> z | None \<Rightarrow> tx_status x) \<and>
    tx_activeStep y = (case pt_activeStep p of Some z \<Rightarrow> z | None \<Rightarrow> tx_activeStep x) \<and>
    tx_lastError y = (case pt_lastError p of Some z \<Rightarrow> z | None \<Rightarrow> tx_lastError x) \<and>
    tx_leaseOwner y = (case pt_leaseOwner p of Some z \<Rightarrow> z | None \<Rightarrow> tx_leaseOwner x) \<and>
    tx_leaseExpiresAt y = (case pt_leaseExpiresAt p of Some z \<Rightarrow> z | None \<Rightarrow> tx_leaseExpiresAt x) \<and>
    ts_compensationStack y = rev new @ ts_compensationStack x \<and> length new = length ns \<and>
    (\<forall>j < length ns. ce_transactionId (new ! j) = i \<and>
      ce_stepSeq (new ! j) = (case ts_compensationStack x of [] \<Rightarrow> 0 | e # _ \<Rightarrow> ce_stepSeq e) + 1 + int j \<and>
      ce_transitionKey (new ! j) = cn_transitionKey (ns ! j) \<and>
      ce_compensateKey (new ! j) = cn_compensateKey (ns ! j) \<and>
      ce_fromState (new ! j) = cn_fromState (ns ! j) \<and>
      ce_inputSnapshot (new ! j) = (case cn_inputSnapshot (ns ! j) of Some z \<Rightarrow> z | None \<Rightarrow> JNull) \<and>
      ce_contextBefore (new ! j) = cn_contextBefore (ns ! j) \<and>
      ce_createdAt (new ! j) = cn_createdAt (ns ! j) \<and>
      ce_compensatedAt (new ! j) = cn_compensatedAt (ns ! j))"
proof -
  from sqlite.read_update_read [of s i x s0 v p ns w s1] assms obtain y s2 new where
    r: "sql_getTransaction i s1 = (Inr (Some y), s2)" "tx_version x = v" "w = v + 1"
      "y = snapshot_of (apply_patch p w (tx_record.truncate x)) (rev new @ ts_compensationStack x)"
      "map no_id new = numbered i (last_step (ts_compensationStack x) + 1) ns"
    by (auto simp: sqlite_ops_def)
  have n: "length new = length ns" using r(5) by (metis length_map length_numbered)
  have "no_id (new ! j) = new_entry i (last_step (ts_compensationStack x) + 1 + int j) (ns ! j)"
    if "j < length ns" for j
    using that n r(5) by (metis numbered_nth nth_map)
  from this [THEN entry_fields] r(1-4) n show ?thesis
    by (intro exI [of _ y] exI [of _ s2] exI [of _ new])
      (simp add: patched_snapshot or_else_def last_step_def)
qed

definition second_patch :: update_patch where
  "second_patch = (touch 50)\<lparr>pt_status := Some COMPENSATING, pt_leaseOwner := Some None\<rparr>"

definition third_step :: comp_new where
  "third_step = \<lparr>cn_transitionKey = ''pay'', cn_compensateKey = ''refund'', cn_fromState = SLeaf ''draft'',
     cn_inputSnapshot = None, cn_contextBefore = JNull, cn_createdAt = 50, cn_compensatedAt = None\<rparr>"

theorem read_after_update_witness:
  "\<exists>s1 y s2 e. sql_updateTransaction ''t1'' 3 second_patch [third_step] (ensureDb order_store) = (Inr 4, s1) \<and>
     sql_getTransaction ''t1'' s1 = (Inr (Some y), s2) \<and> tx_version y = 4 \<and> tx_status y = COMPENSATING \<and>
     tx_leaseOwner y = None \<and> tx_stateValue y = SLeaf ''draft'' \<and>
     ts_compensationStack y = [e, order_comp 2, order_comp 1] \<and> ce_stepSeq e = 3 \<and>
     ce_compensateKey e = ''refund'' \<and> ce_inputSnapshot e = JNull"
proof -
  let ?x = "snapshot_of (order_tx ''t1'' ''order'' IDLE (SLeaf ''draft'')) [order_comp 2, order_comp 1]"
  have g: "sql_getTransaction ''t1'' order_store = (Inr (Some ?x), ensureDb order_store)"
    by (simp add: sql_getTransaction_def Let_def order_store_def ensureDb_def row_of_Cons stack_rows_def
        order_comp_def by_seq_desc_def)
  have x: "ts_compensationStack ?x = [order_comp 2, order_comp 1]" "tx_stateValue ?x = SLeaf ''draft''"
    "ce_stepSeq (order_comp 2) = 2"
    by (simp_all add: snapshot_of_def tx_record.defs order_tx_def order_comp_def)
  have db: "sqlite_ok (ensureDb order_store)" "sqlite_txs (ensureDb order_store) = sqlite_txs order_store"
    using sql_init [OF order_store_ok] by simp_all
  obtain s1 where u: "sql_updateTransaction ''t1'' 3 second_patch [third_step] (ensureDb order_store) = (Inr 4, s1)"
    using sql_update_current [OF db(1), of "''t1''" _ 3 second_patch "[third_step]"] by (auto simp: order_txs db(2))
  from read_after_update [OF order_store_ok g u] obtain y s2 new where
    "sql_getTransaction ''t1'' s1 = (Inr (Some y), s2)" "tx_version y = 4" "tx_status y = COMPENSATING"
    "tx_leaseOwner y = None" "tx_stateValue y = SLeaf ''draft''" "length new = 1"
    "ts_compensationStack y = rev new @ [order_comp 2, order_comp 1]" "ce_stepSeq (new ! 0) = 3"
    "ce_compensateKey (new ! 0) = ''refund''" "ce_inputSnapshot (new ! 0) = JNull"
    by (auto simp: x second_patch_def touch_def third_step_def)
  then show ?thesis using u by (cases new) auto
qed

text \<open>Counting counts the selected transactions, whatever limit or offset the filter carries.\<close>

theorem count_is_exact:
  assumes "sqlite_ok s"
  shows "fst (sql_countTransactions f s) = Inr (card {i. \<exists>r. sqlite_txs s i = Some r \<and> selects f r})"
  using sql_count [OF assms, of f] by auto

text \<open>An offset without a limit is an error of every query, whatever the store holds.\<close>

theorem offset_needs_limit:
  assumes "qf_offset f = Some k" "qf_limit f = None"
  shows "\<exists>e. fst (sql_queryTransactions f t th s) = Inl e"
  using assms by (simp add: sql_queryTransactions_def Let_def)

section \<open>The statechart engine\<close>

text \<open>C31: On a legal configuration of a validated machine an event is listed as available exactly
  when resolving it finds a transition.\<close>

theorem available_iff_handled:
  assumes "machine_ok m" "conf_root m sv"
  shows "ev \<in> set (getAvailableEvents m sv) \<longleftrightarrow> resolveTransitionsForEvent m sv ev \<noteq> []"
  by (rule getAvailableEvents_iff [OF assms])

lemma order_legal: "machine_ok order_machine" "conf_root order_machine fulfilling"
  by code_simp+

theorem available_iff_handled_witness:
  "\<forall>ev. ev \<in> set (getAvailableEvents order_machine fulfilling) \<longleftrightarrow>
     resolveTransitionsForEvent order_machine fulfilling ev \<noteq> []"
  using available_iff_handled [OF order_legal] by blast

text \<open>Resolving an event returns edges of active states only, and returns one whenever some
  active state, at any depth of any region, declares the event.\<close>

theorem resolve_active_states:
  assumes "machine_ok m" "conf_root m sv"
  shows "(\<forall>s e. (s, e) \<in> set (resolveTransitionsForEvent m sv ev) \<longrightarrow>
      (\<exists>qs. active_path m sv qs \<and> node_at m qs = Some s \<and> map_of (sn_on s) ev = Some e)) \<and>
    (\<forall>qs s e. active_path m sv qs \<and> node_at m qs = Some s \<and> map_of (sn_on s) ev = Some e \<longrightarrow>
      resolveTransitionsForEvent m sv ev \<noteq> [])"
  using resolve_sound_path [OF assms] resolve_complete_path [OF assms] by blast

text \<open>C32: A configuration that settles as \<open>COMPLETED\<close> has a leaf in every region and only final ones.\<close>

theorem completed_only_when_final:
  assumes "machine_ok m" "conf_root m sv" "resolveSettledTransactionStatus m sv wc = COMPLETED"
  shows "machine_leaves m sv \<noteq> [] \<and> list_all (\<lambda>qs. is_final_node (node_at m qs)) (machine_leaves m sv)"
  by (rule settled_completed_sound [OF assms])

theorem completed_only_when_final_witness:
  "list_all (\<lambda>qs. is_final_node (node_at order_machine qs)) (machine_leaves order_machine (SLeaf ''done''))"
proof -
  have "conf_root order_machine (SLeaf ''done'')"
    "resolveSettledTransactionStatus order_machine (SLeaf ''done'') False = COMPLETED" by code_simp+
  from completed_only_when_final [OF order_legal(1) this] show ?thesis by blast
qed

text \<open>C33: Leaving a state runs the exit effects of every active state under it, each state once.\<close>

theorem exits_each_active_state_once:
  assumes "machine_ok m" "conf_root m sv"
  shows "\<exists>V. distinct V \<and>
    set V = {qs. qs \<noteq> [] \<and> active_path m sv qs \<and> in_subtree pre (join_dot qs)} \<and>
    collectBottomUpExitEffects m sv pre =
      concat (map (\<lambda>qs. case node_at m qs of Some n \<Rightarrow> sn_exit n | None \<Rightarrow> []) V)"
  by (rule exit_effects_once [OF assms])

theorem exits_each_active_state_once_witness:
  "\<exists>V. distinct V \<and> set V = {qs. qs \<noteq> [] \<and> active_path order_machine fulfilling qs \<and>
      in_subtree ''fulfil'' (join_dot qs)} \<and>
    collectBottomUpExitEffects order_machine fulfilling ''fulfil'' =
      concat (map (\<lambda>qs. case node_at order_machine qs of Some n \<Rightarrow> sn_exit n | None \<Rightarrow> []) V)"
  by (rule exits_each_active_state_once [OF order_legal])

text \<open>The exit effects are not in bottom-up order across parallel regions: the parallel state's
  own exit effect comes before those of its second region.\<close>

theorem exit_order_not_bottom_up:
  "collectBottomUpExitEffects order_machine fulfilling ''fulfil'' =
     [''exitPending'', ''closePayment'', ''exitFulfil'', ''exitQueued'', ''closeShipping'']"
  by code_simp

text \<open>A machine with parallel root never reaches the status \<open>FAILED\<close> by a transition, whatever
  the target, \<open>error\<close> included.\<close>

theorem parallel_root_never_fails:
  assumes "md_type m = RootParallel" "applyTargetTransition m (SMap kvs) src ref = Inr ap"
  shows "resolveSettledTransactionStatus m (ap_nextStateValue ap) False \<noteq> FAILED"
  by (rule parallel_root_not_failed [OF assms])

section \<open>Policies\<close>

text \<open>C34: Every field of the normalised policy is that of the most specific layer that sets it
  (decorator, then transition, machine, global), or the SDK's default.\<close>

theorem policy_precedence:
  "normalizeTransitionPolicy inputs = precedence_policy (mi_defaultBreakerKey inputs)
     [mi_globalDefaults inputs, mi_machineDefaults inputs, mi_transitionPolicy inputs,
      mi_decoratorPolicy inputs]"
  by (simp add: normalizeTransitionPolicy_def del: fold.simps flip: fold_precedence)

text \<open>Merging two decorator policies and applying the result is applying one after the other.\<close>

theorem merged_metadata_applies_in_order:
  "apply_layer (Some (mergePartialInto target patch)) p =
     apply_layer (Some patch) (apply_layer (Some target) p)"
  by (rule apply_merge)

section \<open>The circuit breaker\<close>

text \<open>C37: Under a sensible policy a call always returns and keeps the breaker's invariant: window
  and counters within their bounds, fewer failures than the threshold while closed, an empty window
  while not.\<close>

theorem breaker_keeps_invariant:
  assumes "breaker_inv b"
  shows "\<exists>r b' u'. breaker_execute clk fn b u = Some (r, b', u') \<and> breaker_inv b' \<and>
    cb_policy b' = cb_policy b"
  by (rule execute_inv [OF assms])

definition sample_breaker_policy :: norm_breaker where
  "sample_breaker_policy = \<lparr>nc_enabled = True, nc_key = ''pay'', nc_failureThreshold = 1,
     nc_slidingWindowSize = 1, nc_openDurationMs = 10, nc_halfOpenMaxCalls = 1\<rparr>"

lemma sample_breaker_ok: "policy_ok sample_breaker_policy"
  by (simp add: policy_ok_def sample_breaker_policy_def)

theorem breaker_keeps_invariant_witness:
  "\<exists>r b' u'. breaker_execute (\<lambda>u. u) (\<lambda>u. (Inl (JsError ''x'') :: js_error + int, u + 1))
     (new_breaker sample_breaker_policy) 5 = Some (r, b', u') \<and> breaker_inv b'"
  using breaker_keeps_invariant [OF new_breaker_inv [OF sample_breaker_ok], of "\<lambda>u. u"
    "\<lambda>u. (Inl (JsError ''x'') :: js_error + int, u + 1)" 5] by blast

text \<open>Consecutive failures up to the threshold open a closed breaker with an empty window.\<close>

theorem failures_open_breaker:
  assumes "policy_ok (cb_policy b)" "cb_status b = CLOSED" "cb_outcomesWindow b = []"
    "nc_failureThreshold (cb_policy b) \<le> nc_slidingWindowSize (cb_policy b)"
    "n = nat (nc_failureThreshold (cb_policy b))"
  shows "\<exists>b'. run_outcomes t (replicate n FailedOther) b = Some b' \<and> cb_status b' = OPEN \<and>
    cb_openedAt b' = t"
  by (rule threshold_opens [OF assms])

text \<open>A threshold larger than the window is never reached: such a breaker stays closed whatever
  fails.\<close>

theorem small_window_stays_closed:
  assumes "0 \<le> nc_slidingWindowSize (cb_policy b)"
    "nc_slidingWindowSize (cb_policy b) < nc_failureThreshold (cb_policy b)" "cb_status b = CLOSED"
    "run_outcomes t rs b = Some b'"
  shows "cb_status b' = CLOSED"
  by (rule small_window_never_opens [OF assms])

text \<open>With a negative window size recording an outcome never returns.\<close>

theorem negative_window_diverges:
  assumes "nc_slidingWindowSize (cb_policy b) < 0"
  shows "pushOutcome ok b = None"
  using assms by (simp add: pushOutcome_def trim_window_diverges)

text \<open>C38: A breaker recovers: once an open breaker's time is over and the protected calls succeed again,
  every call gets its answer and after at most \<open>halfOpenMaxCalls\<close> of them the breaker is closed and
  stays closed.\<close>

theorem breaker_recovers:
  assumes "breaker_inv b" "cb_status b = OPEN \<longrightarrow> clk u - cb_openedAt b \<ge> nc_openDurationMs (cb_policy b)"
    and "cb_status b = HALF_OPEN \<longrightarrow> cb_halfOpenInFlight b = 0" "\<And>u. \<exists>x u'. fn u = (Inr x, u')"
    and "nat (nc_halfOpenMaxCalls (cb_policy b)) \<le> n"
  shows "\<exists>rs b' u'. execute_repeatedly n clk fn b u = Some (rs, b', u') \<and> length rs = n \<and>
    (\<forall>r \<in> set rs. \<exists>x. r = Inr x) \<and> cb_status b' = CLOSED"
  by (rule healthy_calls_close [where fn = fn and now = clk, OF assms])

theorem breaker_recovers_witness:
  "\<exists>rs b' u'. execute_repeatedly 2 (\<lambda>u. u) (\<lambda>u. (Inr u :: js_error + int, u + 1))
     (tripOpen 0 (new_breaker (sample_breaker_policy\<lparr>nc_halfOpenMaxCalls := 2\<rparr>))) 10 = Some (rs, b', u') \<and>
     length rs = 2 \<and> (\<forall>r \<in> set rs. \<exists>x. r = Inr x) \<and> cb_status b' = CLOSED"
  using breaker_recovers [of "tripOpen 0 (new_breaker (sample_breaker_policy\<lparr>nc_halfOpenMaxCalls := 2\<rparr>))"
      "\<lambda>u. u" 10 "\<lambda>u. (Inr u :: js_error + int, u + 1)" 2]
  by (simp add: trip_inv tripOpen_def new_breaker_def sample_breaker_policy_def breaker_inv_def policy_ok_def failures_def)

text \<open>C39: However concurrent calls interleave, the breaker's window and half-open counters stay
  within their bounds.\<close>

theorem breaker_bounded_concurrently:
  assumes "policy_ok p" "breaker_reach p (b, t, ps)"
  shows "breaker_bounds p b"
  by (rule breaker_reach_bounds [OF assms])

theorem breaker_bounded_concurrently_witness:
  "breaker_bounds sample_breaker_policy (new_breaker sample_breaker_policy)"
  by (rule breaker_bounded_concurrently [OF sample_breaker_ok, of _ 0 "[]"]) (simp add: breaker_reach_def)

text \<open>\<open>halfOpenMaxCalls\<close> does not bound the concurrent trial calls: a validation error of a call
  admitted before the breaker opened gives a trial slot back, and a second trial is admitted.\<close>

theorem half_open_limit_exceeded:
  "\<exists>b t. breaker_reach sample_breaker_policy (b, t, [True, True]) \<and> cb_status b = HALF_OPEN \<and>
     nc_halfOpenMaxCalls (cb_policy b) = 1"
proof -
  let ?p = sample_breaker_policy
  let ?b0 = "new_breaker ?p"
  let ?b1 = "?b0\<lparr>cb_status := OPEN\<rparr>"
  let ?b2 = "?b0\<lparr>cb_status := HALF_OPEN, cb_halfOpenInFlight := 1\<rparr>"
  let ?b3 = "?b0\<lparr>cb_status := HALF_OPEN\<rparr>"
  have w: "trim_window 1 [False] = Some [False]" by (simp add: trim_window_ok)
  have "breaker_step (?b0, 0, []) (?b0, 0, [False])"
    using breaker_step.Admit [of 0 ?b0 ?b0 "[]"]
    by (simp add: breaker_admit_def evaluateTimerTransition_def new_breaker_def)
  moreover have "breaker_step (?b0, 0, [False]) (?b0, 0, [False, False])"
    using breaker_step.Admit [of 0 ?b0 ?b0 "[False]"]
    by (simp add: breaker_admit_def evaluateTimerTransition_def new_breaker_def)
  moreover have "breaker_step (?b0, 0, [False, False]) (?b1, 0, [False])"
    using breaker_step.Settle [of 0 "[False, False]" 0 FailedOther ?b0 ?b1]
    by (simp add: breaker_settle_def onFailure_def pushOutcome_def tripOpen_def new_breaker_def w
        sample_breaker_policy_def failures_def drop_nth_def)
  moreover have "breaker_step (?b1, 0, [False]) (?b1, 10, [False])"
    using breaker_step.Tick [of 10 ?b1 0 "[False]"] by simp
  moreover have "breaker_step (?b1, 10, [False]) (?b2, 10, [True, False])"
    using breaker_step.Admit [of 10 ?b1 ?b2 "[False]"]
    by (simp add: breaker_admit_def evaluateTimerTransition_def new_breaker_def sample_breaker_policy_def)
  moreover have "breaker_step (?b2, 10, [True, False]) (?b3, 10, [True])"
    using breaker_step.Settle [of 1 "[True, False]" 10 FailedValidation ?b2 ?b3]
    by (simp add: breaker_settle_def new_breaker_def drop_nth_def)
  moreover have "breaker_step (?b3, 10, [True]) (?b2, 10, [True, True])"
    using breaker_step.Admit [of 10 ?b3 ?b2 "[True]"]
    by (simp add: breaker_admit_def evaluateTimerTransition_def new_breaker_def sample_breaker_policy_def)
  ultimately have "breaker_reach ?p (?b2, 10, [True, True])"
    unfolding breaker_reach_def
    by (metis (no_types, lifting) converse_rtranclp_into_rtranclp rtranclp.rtrancl_refl)
  moreover have "cb_status ?b2 = HALF_OPEN" "nc_halfOpenMaxCalls (cb_policy ?b2) = 1"
    by (simp_all add: new_breaker_def sample_breaker_policy_def)
  ultimately show ?thesis by blast
qed

section \<open>Retries and the pipeline\<close>

text \<open>C40: The operation is called for the attempts \<open>1..n\<close> in order, with \<open>n\<close> at most
  \<open>maxAttempts\<close>; the outcome carries \<open>n\<close>, and an error is returned only when the attempts are used
  up or the error is not one to retry.\<close>

theorem retry_attempts:
  "\<exists>n. 1 \<le> n \<and> n \<le> max 1 (nr_maxAttempts p) \<and>
    snd (snd (runWithRetryPolicy (log_ops ops) p (logged op) (u, []))) = [1..n] \<and>
    fst (runWithRetryPolicy (log_ops ops) p (logged op) (u, [])) = fst (runWithRetryPolicy ops p op u) \<and>
    (case fst (runWithRetryPolicy ops p op u) of
       Inr (_, k) \<Rightarrow> k = n
     | Inl (e, k) \<Rightarrow> (k = Some n \<or> k = None \<and> \<not> is_object_error e) \<and>
         (n = max 1 (nr_maxAttempts p) \<or> \<not> isRetryableByDefault e \<or>
          (\<exists>f. nr_retryIf p = Some f \<and> \<not> f e)))"
  by (rule retry_log)

theorem retry_attempts_witness:
  "\<exists>n. 1 \<le> n \<and> n \<le> 3 \<and>
     snd (snd (runWithRetryPolicy (log_ops (ac_world order_actor))
       ((np_retry (SDK_DEFAULT_POLICY ''k''))\<lparr>nr_maxAttempts := 3\<rparr>)
       (logged (\<lambda>a u. if a < 3 then (Inl (JsError ''busy''), u) else (Inr (), u))) ([], []))) = [1..n]"
  using retry_attempts [of "(np_retry (SDK_DEFAULT_POLICY ''k''))\<lparr>nr_maxAttempts := 3\<rparr>"
      "ac_world order_actor" "\<lambda>a u. if a < 3 then (Inl (JsError ''busy''), u) else (Inr (), u)" "[]"]
  by auto

text \<open>The exponential back-off of a later retry is never shorter, and no delay is negative or
  above \<open>maxDelayMs\<close>.\<close>

theorem backoff_grows:
  assumes "nb_strategy b = Exponential" "1 \<le> nb_multiplier b" "1 \<le> i" "i \<le> j"
  shows "fst (computeBackoffDelayMs rnd i b u) \<le> fst (computeBackoffDelayMs rnd j b v) \<and>
    0 \<le> fst (computeBackoffDelayMs rnd i b u) \<and>
    fst (computeBackoffDelayMs rnd j b v) \<le> max 0 (nb_maxDelayMs b)"
  using backoff_exponential_mono [OF assms, of rnd u v] backoff_bounds [of rnd i b u]
    backoff_bounds [of rnd j b v] by simp

text \<open>An open breaker answers without running the handler: the pipeline fails with
  \<open>CircuitOpenError\<close> after one attempt, with the policy's fallback, and neither the breaker nor the
  outside world changes.\<close>

theorem open_breaker_short_circuits:
  assumes "nc_enabled (cb_policy b)" "cb_status b = OPEN"
    "wo_now ops u - cb_openedAt b < nc_openDurationMs (cb_policy b)"
  shows "\<exists>rem. pipeline_execute ops p fn v c b u =
    Some (PipeFail (CircuitOpenError (cb_key b) rem) (no_compensate (np_onFail p))
      (if no_target (np_onFail p) = [] then ''error'' else no_target (np_onFail p)) 1, b, u)"
  by (rule pipeline_open [OF assms])

text \<open>A handler result whose context fails validation is neither retried nor counted by a closed
  breaker: the handler runs once and the pipeline fails with the validation error.\<close>

theorem invalid_context_not_retried:
  assumes "f (handler_request c 1) u = (Inr (raw, data), u')"
    and "enforceValidation Context (or_else (to_context (or_else raw empty_output)) data) v = Inl e"
    and "cb_status b = CLOSED"
  shows "pipeline_execute ops p (Some f) v c b u =
    Some (PipeFail e (no_compensate (np_onFail p))
      (if no_target (np_onFail p) = [] then ''error'' else no_target (np_onFail p)) 1, b, u')"
  using assms by (rule invalid_context_once)

end
